(* ===== verification/Prelude.thy ===== *)
theory Prelude
  imports Main "HOL-Library.Word" "HOL-Library.Monad_Syntax"
begin

text \<open>
  Machine arithmetic shared by every component of the model.

  The bot computes with the 256-bit and 512-bit unsigned integers of its integer library and with
  the native integers of Rust. They are words here, kept at their width: \<open>+\<close>, \<open>-\<close> and
  \<open>*\<close> wrap around, as \<open>U256\<close>'s operators and release-mode native arithmetic do. The named
  variants (\<open>checked_add\<close>, \<open>saturating_sub\<close>, \<dots>) are written out once, generically in the
  width, with the lemmas that move a word computation to \<^typ>\<open>nat\<close>, where the component proofs
  work. Signed native integers are \<^typ>\<open>int\<close> values with the wrap-around written out.

  A Rust panic (division by zero, index out of range) is the outer \<^const>\<open>None\<close> of an option;
  a function that itself returns an \<open>Option\<close> and may panic has a nested option as its result.
\<close>

unbundle bit_operations_syntax

section \<open>Names of the machine types\<close>

type_synonym u8 = "8 word"
type_synonym u32 = "32 word"
type_synonym u64 = "64 word"
type_synonym u128 = "128 word"
type_synonym u256 = "256 word"
type_synonym u512 = "512 word"

type_synonym address = "160 word"

type_synonym 'a panics = "'a option"

named_theorems checked_defs "definitions of the checked and saturating word operations"
named_theorems unat_arith_simps "equations that push unat through a word operation that does not wrap"

section \<open>Checked and saturating operations\<close>

definition checked_add :: "'a::len word \<Rightarrow> 'a word \<Rightarrow> 'a word option" where
  [checked_defs]: "checked_add a b =
     (if unat a + unat b < 2 ^ LENGTH('a) then Some (a + b) else None)"

definition checked_sub :: "'a::len word \<Rightarrow> 'a word \<Rightarrow> 'a word option" where
  [checked_defs]: "checked_sub a b = (if b \<le> a then Some (a - b) else None)"

definition checked_mul :: "'a::len word \<Rightarrow> 'a word \<Rightarrow> 'a word option" where
  [checked_defs]: "checked_mul a b =
     (if unat a * unat b < 2 ^ LENGTH('a) then Some (a * b) else None)"

definition checked_div :: "'a::len word \<Rightarrow> 'a word \<Rightarrow> 'a word option" where
  [checked_defs]: "checked_div a b = (if b = 0 then None else Some (a div b))"

definition checked_shl :: "'a::len word \<Rightarrow> nat \<Rightarrow> 'a word option" where
  [checked_defs]: "checked_shl a n =
     (if unat a * 2 ^ n < 2 ^ LENGTH('a) then Some (push_bit n a) else None)"

definition saturating_add :: "'a::len word \<Rightarrow> 'a word \<Rightarrow> 'a word" where
  [checked_defs]: "saturating_add a b =
     (if unat a + unat b < 2 ^ LENGTH('a) then a + b else - 1)"

definition saturating_sub :: "'a::len word \<Rightarrow> 'a word \<Rightarrow> 'a word" where
  [checked_defs]: "saturating_sub a b = (if b \<le> a then a - b else 0)"

definition saturating_mul :: "'a::len word \<Rightarrow> 'a word \<Rightarrow> 'a word" where
  [checked_defs]: "saturating_mul a b =
     (if unat a * unat b < 2 ^ LENGTH('a) then a * b else - 1)"

definition abs_diff :: "'a::len word \<Rightarrow> 'a word \<Rightarrow> 'a word" where
  [checked_defs]: "abs_diff a b = (if b \<le> a then a - b else b - a)"

text \<open>The \<open>/\<close> operator of the integer library: it panics on a zero divisor.\<close>

definition pdiv :: "'a::len word \<Rightarrow> 'a word \<Rightarrow> 'a word panics" where
  [checked_defs]: "pdiv a b = (if b = 0 then None else Some (a div b))"

text \<open>
  Code equations over \<^typ>\<open>int\<close>, whose numerals are binary: with them every operation evaluates at
  its full width.
\<close>

lemma unat_less_iff_uint: "unat a + unat b < 2 ^ n \<longleftrightarrow> uint a + uint b < 2 ^ n"
    "unat a * unat b < 2 ^ n \<longleftrightarrow> uint a * uint b < 2 ^ n"
    "unat a * 2 ^ m < 2 ^ n \<longleftrightarrow> uint a * 2 ^ m < 2 ^ n"
  unfolding uint_nat
  by (simp_all only: of_nat_less_iff flip: of_nat_add of_nat_mult of_nat_power of_nat_numeral [where 'a = int])

lemma checked_code [code]:
  "checked_add a b = (if uint a + uint b < 2 ^ LENGTH('a) then Some (a + b) else None)"
  "checked_mul a b = (if uint a * uint b < 2 ^ LENGTH('a) then Some (a * b) else None)"
  "checked_shl a n = (if uint a * 2 ^ n < 2 ^ LENGTH('a) then Some (push_bit n a) else None)"
  "saturating_add a b = (if uint a + uint b < 2 ^ LENGTH('a) then a + b else - 1)"
  "saturating_mul a b = (if uint a * uint b < 2 ^ LENGTH('a) then a * b else - 1)"
  for a b :: "'a::len word"
  by (simp_all only: checked_defs unat_less_iff_uint)

text \<open>\<open>v[i]\<close> on a vector: it panics out of range; \<open>v.get(i)\<close> answers \<^const>\<open>None\<close>.\<close>

definition nth_opt :: "'a list \<Rightarrow> nat \<Rightarrow> 'a option" where
  "nth_opt xs i = (if i < length xs then Some (xs ! i) else None)"

section \<open>Native signed integers\<close>

definition wrap_signed :: "nat \<Rightarrow> int \<Rightarrow> int" where
  "wrap_signed w x = (x + 2 ^ (w - 1)) mod 2 ^ w - 2 ^ (w - 1)"

abbreviation wrap_i32 :: "int \<Rightarrow> int" where "wrap_i32 \<equiv> wrap_signed 32"
abbreviation wrap_i128 :: "int \<Rightarrow> int" where "wrap_i128 \<equiv> wrap_signed 128"

definition in_signed :: "nat \<Rightarrow> int \<Rightarrow> bool" where
  "in_signed w x \<longleftrightarrow> - (2 ^ (w - 1)) \<le> x \<and> x < 2 ^ (w - 1)"

definition saturate_signed :: "nat \<Rightarrow> int \<Rightarrow> int" where
  "saturate_signed w x = max (- (2 ^ (w - 1))) (min (2 ^ (w - 1) - 1) x)"

lemma wrap_signed_id:
  assumes "0 < w" and "in_signed w x"
  shows "wrap_signed w x = x"
proof -
  have "(2::int) ^ w = 2 * 2 ^ (w - 1)"
    using assms(1) by (cases w) auto
  then show ?thesis
    using assms(2) by (simp add: wrap_signed_def in_signed_def)
qed

lemma in_signed_wrap:
  assumes "0 < w" shows "in_signed w (wrap_signed w x)"
proof -
  have two: "(2::int) ^ w = 2 * 2 ^ (w - 1)"
    using assms by (cases w) auto
  have "0 \<le> (x + 2 ^ (w - 1)) mod 2 ^ w" and "(x + 2 ^ (w - 1)) mod 2 ^ w < 2 ^ w"
    by simp_all
  then show ?thesis
    using two by (simp add: wrap_signed_def in_signed_def)
qed

section \<open>From words to natural numbers\<close>

lemma unat_eq_fits: "unat (c :: 'a::len word) = n \<Longrightarrow> n < 2 ^ LENGTH('a)"
  by auto

lemma unat_lt_256: "unat (x :: u256) < 115792089237316195423570985008687907853269984665640564039457584007913129639936"
  using unsigned_less [of x] by simp

lemma unat_add_nowrap [unat_arith_simps]:
  "unat a + unat b < 2 ^ LENGTH('a) \<Longrightarrow> unat (a + b) = unat a + unat (b :: 'a::len word)"
  by (simp add: unat_word_ariths)

lemma unat_mult_nowrap [unat_arith_simps]:
  "unat a * unat b < 2 ^ LENGTH('a) \<Longrightarrow> unat (a * b) = unat a * unat (b :: 'a::len word)"
  by (simp add: unat_word_ariths)

lemma unat_sub_nowrap [unat_arith_simps]:
  "b \<le> a \<Longrightarrow> unat (a - b) = unat a - unat (b :: 'a::len word)"
  by (simp add: unat_sub)

lemma unat_div_word [unat_arith_simps]: "unat (a div b) = unat a div unat (b :: 'a::len word)"
  by (simp add: unat_div_distrib)

lemma unat_mod_word [unat_arith_simps]: "unat (a mod b) = unat a mod unat (b :: 'a::len word)"
  by (simp add: unat_mod_distrib)

lemma unat_of_nat_fits:
  "n < 2 ^ LENGTH('a) \<Longrightarrow> unat (of_nat n :: 'a::len word) = n"
  by (simp add: unat_of_nat take_bit_nat_eq_self)

lemma word_eq_of_unat: "unat a = n \<Longrightarrow> a = (of_nat n :: 'a::len word)"
  by auto

lemma word_unat_eqI: "unat a = unat b \<Longrightarrow> a = (b :: 'a::len word)"
  by (simp add: unsigned_word_eqI)

lemma unat_ne_0: "(a :: 'a::len word) \<noteq> 0 \<Longrightarrow> 0 < unat a"
  by (simp add: unat_gt_0)

lemma unat_ucast_512 [simp]: "unat (ucast (x :: u256) :: u512) = unat x"
proof -
  have "unat x < 2 ^ 512"
    using unsigned_less [of x] by (rule order_less_le_trans) simp
  then show ?thesis
    by (simp add: unsigned_ucast_eq take_bit_nat_eq_self)
qed

lemma unat_mult_512 [simp]:
  "unat ((ucast (a :: u256) :: u512) * ucast (b :: u256)) = unat a * unat b"
proof -
  have "unat a * unat b < 2 ^ 256 * 2 ^ 256"
    using unsigned_less [of a] unsigned_less [of b] by (intro mult_strict_mono) auto
  then have "unat (ucast a :: u512) * unat (ucast b :: u512) < 2 ^ LENGTH(512)"
    by (simp flip: power_add)
  then show ?thesis
    by (simp add: unat_mult_nowrap)
qed

lemma unat_mult_256: "unat (a * b) = unat a * unat (b :: u256) mod 2 ^ 256"
  by (simp add: unat_word_ariths)

lemma unat_add_256: "unat (a + b) = (unat a + unat (b :: u256)) mod 2 ^ 256"
  by (simp add: unat_word_ariths)

text \<open>
  A checked operation returns \<open>Some c\<close> exactly when \<open>c\<close> is the true result. These
  equivalences are the interface the component proofs use.
\<close>

lemma checked_add_iff: "checked_add a b = Some c \<longleftrightarrow> unat c = unat a + unat b"
  by (auto dest: unat_eq_fits simp: checked_add_def unat_add_nowrap intro: word_unat_eqI)

lemma checked_mul_iff: "checked_mul a b = Some c \<longleftrightarrow> unat c = unat a * unat b"
  by (auto dest: unat_eq_fits simp: checked_mul_def unat_mult_nowrap intro: word_unat_eqI)

lemma checked_sub_iff: "checked_sub a b = Some c \<longleftrightarrow> unat a = unat b + unat c"
  by (auto simp: checked_sub_def unat_sub_nowrap word_le_nat_alt intro: word_unat_eqI)

lemma checked_div_iff: "checked_div a b = Some c \<longleftrightarrow> b \<noteq> 0 \<and> unat c = unat a div unat b"
  by (auto simp: checked_div_def unat_div_word intro: word_unat_eqI)

lemma checked_shl_iff: "checked_shl a n = Some c \<longleftrightarrow> unat c = unat a * 2 ^ n"
  by (auto dest: unat_eq_fits simp: checked_shl_def unsigned_push_bit_eq take_bit_nat_eq_self
      push_bit_eq_mult [of n "unat a"] intro: word_unat_eqI)

lemma pdiv_iff: "pdiv a b = Some c \<longleftrightarrow> b \<noteq> 0 \<and> unat c = unat a div unat b"
  by (auto simp: pdiv_def unat_div_word intro: word_unat_eqI)

lemmas checked_iff =
  checked_add_iff checked_mul_iff checked_sub_iff checked_div_iff checked_shl_iff pdiv_iff

lemma option_eqI: "(\<And>q. x = Some q \<longleftrightarrow> y = Some q) \<Longrightarrow> x = y"
  by (cases x; cases y) auto

lemma pdiv_nz [simp]: "b \<noteq> 0 \<Longrightarrow> pdiv a b = Some (a div b)"
  by (simp add: pdiv_def)

lemma unat_saturating_sub [unat_arith_simps]:
  "unat (saturating_sub a b) = unat a - unat b"
  by (auto simp: saturating_sub_def unat_sub_nowrap word_le_nat_alt)

lemma saturating_sub_le [simp]: "saturating_sub a b \<le> a"
  by (simp add: word_le_nat_alt unat_saturating_sub)

lemma unat_max_word: "unat (- 1 :: 'a::len word) = 2 ^ LENGTH('a) - 1"
  by (simp add: unsigned_minus_1_eq_mask mask_eq_exp_minus_1)

lemma unat_saturating_add:
  "unat (saturating_add a b) = min (unat a + unat b) (2 ^ LENGTH('a) - 1)"
  for a b :: "'a::len word"
  by (auto simp: saturating_add_def unat_add_nowrap unat_max_word)

lemma unat_saturating_mul:
  "unat (saturating_mul a b) = min (unat a * unat b) (2 ^ LENGTH('a) - 1)"
  for a b :: "'a::len word"
  by (auto simp: saturating_mul_def unat_mult_nowrap unat_max_word)

lemma nth_opt_SomeD: "nth_opt xs i = Some x \<Longrightarrow> i < length xs \<and> xs ! i = x"
  by (auto simp: nth_opt_def split: if_splits)

section \<open>Floor and ceiling division of natural numbers\<close>

definition ceil_div :: "nat \<Rightarrow> nat \<Rightarrow> nat" where
  "ceil_div a d = a div d + (if a mod d = 0 then 0 else 1)"

lemma ceil_div_bounds:
  assumes "0 < d" shows "a \<le> ceil_div a d * d \<and> ceil_div a d * d < a + d"
proof -
  have a: "a div d * d + a mod d = a" by simp
  have lt: "a mod d < d" using assms by simp
  show ?thesis
  proof (cases "a mod d = 0")
    case True
    then show ?thesis using a assms by (simp add: ceil_div_def)
  next
    case False
    then have "ceil_div a d * d = a div d * d + d" by (simp add: ceil_div_def)
    with a lt False show ?thesis by linarith
  qed
qed

lemma ceil_div_le_iff:
  assumes "0 < d" shows "ceil_div a d \<le> q \<longleftrightarrow> a \<le> q * d"
proof
  assume "ceil_div a d \<le> q"
  then have "ceil_div a d * d \<le> q * d" by (rule mult_le_mono1)
  with ceil_div_bounds [OF assms, of a] show "a \<le> q * d" by linarith
next
  assume "a \<le> q * d"
  with ceil_div_bounds [OF assms, of a] have "ceil_div a d * d < (q + 1) * d" by simp
  then have "ceil_div a d < q + 1" by (simp only: mult_less_cancel2)
  then show "ceil_div a d \<le> q" by simp
qed

lemma ceil_div_mono: "a \<le> b \<Longrightarrow> 0 < d \<Longrightarrow> ceil_div a d \<le> ceil_div b d"
  using ceil_div_bounds [of d b] by (subst ceil_div_le_iff) auto

lemma ceil_div_0 [simp]: "ceil_div 0 d = 0"
  by (simp add: ceil_div_def)

lemma ceil_div_eq_0_iff: "0 < d \<Longrightarrow> ceil_div a d = 0 \<longleftrightarrow> a = 0"
  using ceil_div_le_iff [of d a 0] by auto

lemma div_le_ceil_div: "a div d \<le> ceil_div a d"
  by (simp add: ceil_div_def)

lemma ceil_div_le_div_Suc: "ceil_div a d \<le> Suc (a div d)"
  by (simp add: ceil_div_def)

lemma ceil_div_ceil_div:
  assumes "0 < b" and "0 < c"
  shows "ceil_div (ceil_div a b) c = ceil_div a (b * c)"
proof -
  have "ceil_div (ceil_div a b) c \<le> q \<longleftrightarrow> ceil_div a (b * c) \<le> q" for q
    using assms by (simp add: ceil_div_le_iff ac_simps)
  then show ?thesis by (metis order_refl le_antisym)
qed

lemma mul_div_le_self: "b \<le> d \<Longrightarrow> (a::nat) * b div d \<le> a"
proof (cases "d = 0")
  case False
  assume "b \<le> d"
  then have "a * b div d \<le> a * d div d" by (intro div_le_mono mult_le_mono2)
  with False show ?thesis by simp
qed simp

end
