(* ===== verification/PoolTypes.thy ===== *)
theory PoolTypes
  imports Prelude
begin

text \<open>
  The data model of \<open>src/core/types.rs\<close> and the numeric constants of
  \<open>src/core/constants.rs\<close> that the modelled code uses: the routing edge, one state record per
  protocol family, the tagged union \<open>PoolState\<close>, and the structural checks that decide which
  token pairs of a pool may become edges of the routing graph.

  Field names carry their record's prefix, since Isabelle's selectors share one name space.
  \<open>usize\<close> is \<^typ>\<open>nat\<close>, \<open>i32\<close> and \<open>i128\<close> are \<^typ>\<open>int\<close>, unsigned integers are words.
\<close>

section \<open>Constants\<close>

definition HOP_CAP :: nat where "HOP_CAP = 8"
definition MIN_HOP_TOKEN_BALANCE :: u256 where "MIN_HOP_TOKEN_BALANCE = 1"
definition V2_MIN_RESERVE :: u256 where "V2_MIN_RESERVE = 100000000"
definition FEE_DENOMINATOR :: u256 where "FEE_DENOMINATOR = 1000"
definition BPS_SCALE :: u256 where "BPS_SCALE = 10000"
definition DEFAULT_FEE_NUMERATOR :: u256 where "DEFAULT_FEE_NUMERATOR = 997"
definition FEE_PIPS_SCALE :: u256 where "FEE_PIPS_SCALE = 1000000"
definition GAS_V3_BASE :: u32 where "GAS_V3_BASE = 155000"
definition GAS_PER_TICK_CROSSED :: u32 where "GAS_PER_TICK_CROSSED = 20000"

section \<open>Edges and pool states\<close>

datatype ProtocolType =
  UniswapV2 | UniswapV3 | UniswapV4 | BalancerV2 | CurveStable | CurveCrypto | Dodo | Woofi

fun fetch_slot :: "ProtocolType \<Rightarrow> nat option" where
  "fetch_slot UniswapV2 = Some 0"
| "fetch_slot UniswapV3 = Some 1"
| "fetch_slot UniswapV4 = Some 2"
| "fetch_slot BalancerV2 = Some 3"
| "fetch_slot CurveStable = Some 4"
| "fetch_slot CurveCrypto = Some 5"
| "fetch_slot Dodo = Some 6"
| "fetch_slot Woofi = Some 7"

record Edge =
  e_pool_index :: u32
  e_token_in :: u32
  e_token_out :: u32
  e_token_in_idx :: u8
  e_token_out_idx :: u8
  e_protocol :: ProtocolType
  e_fee_bps :: u32
  e_zero_for_one :: bool

record V3Tick =
  t_tick :: int
  t_liquidity_gross :: u128
  t_liquidity_net :: int

record V2PoolState =
  v2_reserve0 :: u256
  v2_reserve1 :: u256
  v2_fee :: u256
  v2_fee_denominator :: u256
  v2_block_timestamp_last :: u32

record CLPoolState =
  cl_sqrt_price_x96 :: u256
  cl_tick :: int
  cl_liquidity :: u128
  cl_fee :: u256
  cl_tick_spacing :: int
  cl_ticks :: "V3Tick list"
  cl_unlocked :: bool
  cl_fee_protocol :: u32
  cl_observation_cardinality :: "16 word"

record CurvePoolState =
  cv_balances :: "u256 list"
  cv_a :: u256
  cv_fee :: u256
  cv_rates :: "u256 list"
  cv_n_coins :: u8
  cv_gamma :: "u256 option"
  cv_d :: "u256 option"
  cv_offpeg_fee_multiplier :: "u256 option"

datatype BalancerPoolKind = Weighted | Stable | Linear

record BalancerLinearState =
  main_index :: nat
  wrapped_index :: nat
  lower_target :: u256
  upper_target :: u256
  wrapped_rate :: u256

record BalancerPoolState =
  bal_pool_id :: "u256 option"
  bal_tokens :: "address list"
  bal_balances :: "u256 list"
  bal_weights :: "u256 list"
  bal_scaling_factors :: "u256 list"
  bal_amp :: u256
  bal_amp_precision :: u256
  bal_fee :: u256
  bal_pool_type :: BalancerPoolKind
  bal_linear :: "BalancerLinearState option"
  bal_bpt_index :: "nat option"
  bal_is_updating :: bool
  bal_last_change_block :: u64

datatype DodoRState = ROne | AboveOne | BelowOne

record DodoPoolState =
  dd_base_reserve :: u256
  dd_quote_reserve :: u256
  dd_base_token :: address
  dd_quote_token :: address
  dd_base_target :: u256
  dd_quote_target :: u256
  dd_r_state :: DodoRState
  dd_i :: u256
  dd_k :: u256
  dd_lp_fee_rate :: u256
  dd_mt_fee_rate :: u256

record WoofiBaseTokenState =
  wb_price :: u256
  wb_spread :: u256
  wb_coeff :: u256
  wb_reserve :: u256
  wb_base_dec :: u256
  wb_quote_dec :: u256
  wb_price_dec :: u256
  wb_fee_rate :: u256
  wb_max_gamma :: u256
  wb_max_notional_swap :: u256

record WoofiPoolState =
  wf_tokens :: "address list"
  wf_quote_reserve :: u256
  wf_base_states :: "WoofiBaseTokenState list"
  wf_fee :: u256

datatype PoolState =
    PInvalid
  | PV2 V2PoolState
  | PV3 CLPoolState
  | PV4 CLPoolState
  | PCurve CurvePoolState
  | PBalancer BalancerPoolState
  | PDodo DodoPoolState
  | PWoofi WoofiPoolState

section \<open>Routability of a pool's token pairs\<close>

definition balance_at_least :: "u256 list \<Rightarrow> nat \<Rightarrow> u256 \<Rightarrow> bool" where
  "balance_at_least bs i floor =
     (case nth_opt bs i of None \<Rightarrow> False | Some balance \<Rightarrow> floor \<le> balance)"

fun hop_token_funded :: "PoolState \<Rightarrow> nat \<Rightarrow> bool" where
  "hop_token_funded PInvalid token_idx = False"
| "hop_token_funded (PV2 s) token_idx =
     (if token_idx = 0 then V2_MIN_RESERVE \<le> v2_reserve0 s
      else if token_idx = 1 then V2_MIN_RESERVE \<le> v2_reserve1 s
      else False)"
| "hop_token_funded (PV3 s) token_idx =
     (token_idx \<le> 1 \<and> cl_unlocked s \<and> cl_liquidity s > 0 \<and> cl_sqrt_price_x96 s \<noteq> 0)"
| "hop_token_funded (PV4 s) token_idx =
     (token_idx \<le> 1 \<and> cl_unlocked s \<and> cl_liquidity s > 0 \<and> cl_sqrt_price_x96 s \<noteq> 0)"
| "hop_token_funded (PCurve s) token_idx =
     balance_at_least (cv_balances s) token_idx MIN_HOP_TOKEN_BALANCE"
| "hop_token_funded (PBalancer s) token_idx =
     (if bal_bpt_index s = Some token_idx then False
      else balance_at_least (bal_balances s) token_idx MIN_HOP_TOKEN_BALANCE)"
| "hop_token_funded (PDodo s) token_idx =
     (if token_idx = 0 then V2_MIN_RESERVE \<le> dd_base_reserve s
      else if token_idx = 1 then V2_MIN_RESERVE \<le> dd_quote_reserve s
      else False)"
| "hop_token_funded (PWoofi s) token_idx =
     (let quote_idx = length (wf_base_states s)
      in if token_idx < quote_idx then
           (case nth_opt (wf_base_states s) token_idx of
              None \<Rightarrow> False
            | Some base \<Rightarrow> max (wb_base_dec base div 1000) 1 \<le> wb_reserve base)
         else if token_idx = quote_idx then
           (case nth_opt (wf_base_states s) 0 of
              None \<Rightarrow> False
            | Some base \<Rightarrow> max (wb_quote_dec base div 1000) 1 \<le> wf_quote_reserve s)
         else False)"

fun hop_pair_routable :: "PoolState \<Rightarrow> nat \<Rightarrow> nat \<Rightarrow> bool" where
  "hop_pair_routable st token_in_idx token_out_idx =
     (if token_in_idx = token_out_idx then False
      else case st of
        PInvalid \<Rightarrow> False
      | PWoofi s \<Rightarrow>
          (let quote_idx = length (wf_base_states s)
           in if token_in_idx > quote_idx \<or> token_out_idx > quote_idx then False
              else hop_token_funded st token_in_idx \<and> hop_token_funded st token_out_idx)
      | _ \<Rightarrow> hop_token_funded st token_in_idx \<and> hop_token_funded st token_out_idx)"

text \<open>The counting loop over \<open>0..n\<close> with its early return: \<open>is\<close> are the indices still to visit.\<close>

fun funded_loop :: "PoolState \<Rightarrow> nat list \<Rightarrow> nat \<Rightarrow> bool" where
  "funded_loop st [] funded = False"
| "funded_loop st (i # is) funded =
     (if hop_token_funded st i then
        (if funded + 1 \<ge> 2 then True else funded_loop st is (funded + 1))
      else funded_loop st is funded)"

definition at_least_two_funded :: "PoolState \<Rightarrow> nat \<Rightarrow> bool" where
  "at_least_two_funded st n = funded_loop st [0..<n] 0"

definition balancer_family_valid :: "BalancerPoolState \<Rightarrow> bool" where
  "balancer_family_valid s =
     (let n = length (bal_balances s)
      in case bal_pool_type s of
           Weighted \<Rightarrow> length (bal_weights s) = n \<and> list_all (\<lambda>w. w \<noteq> 0) (bal_weights s)
         | Stable \<Rightarrow> bal_amp s \<noteq> 0 \<and> bal_amp_precision s \<noteq> 0 \<and> \<not> bal_is_updating s
         | Linear \<Rightarrow>
             (case bal_linear s of
                None \<Rightarrow> False
              | Some l \<Rightarrow> main_index l < n \<and> wrapped_index l < n
                  \<and> main_index l \<noteq> wrapped_index l \<and> wrapped_rate l \<noteq> 0))"

fun is_tradable :: "PoolState \<Rightarrow> bool" where
  "is_tradable PInvalid = False"
| "is_tradable (PV2 s) = (hop_token_funded (PV2 s) 0 \<and> hop_token_funded (PV2 s) 1)"
| "is_tradable (PDodo s) = (hop_token_funded (PDodo s) 0 \<and> hop_token_funded (PDodo s) 1)"
| "is_tradable (PV3 s) = (cl_unlocked s \<and> cl_liquidity s > 0 \<and> cl_sqrt_price_x96 s \<noteq> 0)"
| "is_tradable (PV4 s) = (cl_unlocked s \<and> cl_liquidity s > 0 \<and> cl_sqrt_price_x96 s \<noteq> 0)"
| "is_tradable (PCurve s) =
     (let n = unat (cv_n_coins s)
      in if n < 2 \<or> length (cv_balances s) \<noteq> n \<or> length (cv_rates s) \<noteq> n \<or> cv_a s = 0 then False
         else if list_ex (\<lambda>r. r = 0) (cv_rates s) then False
         else at_least_two_funded (PCurve s) n)"
| "is_tradable (PBalancer s) =
     (let n = length (bal_balances s)
      in if n < 2 \<or> length (bal_tokens s) \<noteq> n \<or> length (bal_scaling_factors s) \<noteq> n
            \<or> \<not> balancer_family_valid s
            \<or> (case bal_bpt_index s of None \<Rightarrow> False | Some index \<Rightarrow> index \<ge> n) then False
         else if list_ex (\<lambda>f. f = 0) (bal_scaling_factors s) then False
         else at_least_two_funded (PBalancer s) n)"
| "is_tradable (PWoofi s) =
     (if length (wf_tokens s) \<noteq> length (wf_base_states s) + 1 then False
      else let quote_idx = length (wf_base_states s)
           in hop_token_funded (PWoofi s) quote_idx
              \<and> list_ex (\<lambda>i. hop_token_funded (PWoofi s) i) [0..<quote_idx])"

section \<open>What the checks guarantee\<close>

lemma funded_loop_iff:
  "funded_loop st is funded \<longleftrightarrow>
     2 \<le> funded + length (filter (hop_token_funded st) is) \<and> filter (hop_token_funded st) is \<noteq> []"
  if "funded < 2"
  using that
proof (induction "is" arbitrary: funded)
  case (Cons i "is")
  show ?case
  proof (cases "hop_token_funded st i \<and> funded < 1")
    case True
    then have "funded_loop st (i # is) funded = funded_loop st is 1" by auto
    also have "\<dots> \<longleftrightarrow> filter (hop_token_funded st) is \<noteq> []"
      using Cons.IH [of 1] by (cases "filter (hop_token_funded st) is") auto
    finally show ?thesis
      using True by (cases "filter (hop_token_funded st) is") auto
  next
    case False
    with Cons.prems Cons.IH [of funded] show ?thesis by auto
  qed
qed simp

lemma at_least_two_funded_iff:
  "at_least_two_funded st n \<longleftrightarrow>
     (\<exists>i j. i < j \<and> j < n \<and> hop_token_funded st i \<and> hop_token_funded st j)"
proof -
  let ?F = "{i. i < n \<and> hop_token_funded st i}"
  have "length (filter (hop_token_funded st) [0..<n]) = card ?F"
    by (simp add: distinct_length_filter Int_def conj_commute lessThan_def atLeast0LessThan)
  moreover have "at_least_two_funded st n \<longleftrightarrow> 2 \<le> length (filter (hop_token_funded st) [0..<n])"
    by (cases "filter (hop_token_funded st) [0..<n]")
       (auto simp: at_least_two_funded_def funded_loop_iff)
  ultimately have "at_least_two_funded st n \<longleftrightarrow> 2 \<le> card ?F"
    by simp
  also have "\<dots> \<longleftrightarrow> (\<exists>i\<in>?F. \<exists>j\<in>?F. i \<noteq> j)"
    by (auto simp: numeral_2_eq_2 card_le_Suc0_iff_eq not_less_eq_eq [symmetric])
  also have "\<dots> \<longleftrightarrow> (\<exists>i j. i < j \<and> j < n \<and> hop_token_funded st i \<and> hop_token_funded st j)"
    by (auto simp: neq_iff) (metis less_trans)+
  finally show ?thesis .
qed

lemma two_funded_pair:
  "at_least_two_funded st n \<Longrightarrow> \<exists>i j. i \<noteq> j \<and> hop_token_funded st i \<and> hop_token_funded st j"
  by (metis at_least_two_funded_iff nat_neq_iff)

lemma hop_pair_routable_funded:
  "hop_pair_routable st i j \<longleftrightarrow> i \<noteq> j \<and> hop_token_funded st i \<and> hop_token_funded st j"
  by (cases st) (auto simp: Let_def)

text \<open>
  A pool that passes the tradability check always has at least one ordered pair of
  distinct token indices that the edge builder accepts: the two structural gates of the routing
  graph never contradict each other, for every protocol family.
\<close>

theorem tradable_has_routable_pair:
  assumes "is_tradable st"
  shows "\<exists>i j. hop_pair_routable st i j \<and> hop_pair_routable st j i"
proof -
  have "\<exists>i j. i \<noteq> j \<and> hop_token_funded st i \<and> hop_token_funded st j"
  proof (cases st)
    case PInvalid
    with assms show ?thesis by simp
  next
    case (PV2 s)
    with assms show ?thesis by (intro exI [of _ 0] exI [of _ 1]) auto
  next
    case (PV3 s)
    with assms show ?thesis by (intro exI [of _ 0] exI [of _ 1]) auto
  next
    case (PV4 s)
    with assms show ?thesis by (intro exI [of _ 0] exI [of _ 1]) auto
  next
    case (PCurve s)
    with assms have "at_least_two_funded st (unat (cv_n_coins s))"
      by (simp add: Let_def split: if_splits)
    then show ?thesis by (rule two_funded_pair)
  next
    case (PBalancer s)
    with assms have "at_least_two_funded st (length (bal_balances s))"
      by (simp add: Let_def split: if_splits)
    then show ?thesis by (rule two_funded_pair)
  next
    case (PDodo s)
    with assms show ?thesis by (intro exI [of _ 0] exI [of _ 1]) auto
  next
    case (PWoofi s)
    with assms obtain i where "i < length (wf_base_states s)" and "hop_token_funded st i"
      and "hop_token_funded st (length (wf_base_states s))"
      by (auto simp: list_ex_iff split: if_splits)
    then show ?thesis by (metis less_irrefl)
  qed
  then show ?thesis
    by (metis hop_pair_routable_funded)
qed

definition demo_v2_pool :: PoolState where
  "demo_v2_pool = PV2 \<lparr>v2_reserve0 = 500000000, v2_reserve1 = 700000000, v2_fee = 9970,
     v2_fee_denominator = 10000, v2_block_timestamp_last = 0\<rparr>"

theorem tradable_has_routable_pair_witness:
  "is_tradable demo_v2_pool \<and>
   (\<exists>i j. hop_pair_routable demo_v2_pool i j \<and> hop_pair_routable demo_v2_pool j i)"
proof -
  have "is_tradable demo_v2_pool"
    by (simp add: demo_v2_pool_def V2_MIN_RESERVE_def)
  then show ?thesis
    using tradable_has_routable_pair by blast
qed

end
