(* ===== verification/StateCache.thy ===== *)
theory StateCache
  imports PoolTypes "HOL-Library.AList"
begin

text \<open>
  The pool-state cache of \<open>src/services/state_cache.rs\<close>: entries with a refresh time and a revision, a
  generation counter that every write advances, a dirty set for the graph's partial rescoring, and
  eviction at capacity.

  Every operation of the code holds the lock of the map while it runs; here it is a function of the
  whole cache. An \<open>Instant\<close> is a number of milliseconds and \<open>now\<close> is an argument; \<open>elapsed\<close> saturates at
  zero, as in the standard library. The map is an association list with distinct keys. The order in
  which a hash map iterates is unspecified, so the eviction takes it as the argument \<open>iter\<close>, of which
  only that it enumerates the entries is assumed.
\<close>

section \<open>The model\<close>

record CachedEntry =
  ce_state :: PoolState
  ce_updated_at :: nat
  ce_revision :: u64

record StateCache =
  sc_inner :: "(address \<times> CachedEntry) list"
  sc_max_entries :: nat
  sc_ttl :: nat
  sc_invalid_retry_ttl :: nat
  sc_stale_tradable_ttl :: nat
  sc_generation :: u64
  sc_dirty :: "address set"

type_synonym hash_iteration = "(address \<times> CachedEntry) list \<Rightarrow> (address \<times> CachedEntry) list"

definition DEFAULT_MAX_ENTRIES :: nat where "DEFAULT_MAX_ENTRIES = 50000"
definition DEFAULT_INVALID_RETRY_TTL :: nat where "DEFAULT_INVALID_RETRY_TTL = 120000"
definition DEFAULT_STALE_TRADABLE_TTL :: nat where "DEFAULT_STALE_TRADABLE_TTL = 300000"
definition EVICTION_SAMPLE :: nat where "EVICTION_SAMPLE = 64"

definition new_cache :: "nat \<Rightarrow> nat \<Rightarrow> StateCache" where
  "new_cache max_entries ttl =
     \<lparr>sc_inner = [], sc_max_entries = max_entries, sc_ttl = ttl,
      sc_invalid_retry_ttl = DEFAULT_INVALID_RETRY_TTL, sc_stale_tradable_ttl = DEFAULT_STALE_TRADABLE_TTL,
      sc_generation = 0, sc_dirty = {}\<rparr>"

definition with_ttls :: "nat \<Rightarrow> nat \<Rightarrow> StateCache \<Rightarrow> StateCache" where
  "with_ttls invalid_retry stale_tradable c =
     c\<lparr>sc_invalid_retry_ttl := invalid_retry, sc_stale_tradable_ttl := stale_tradable\<rparr>"

definition elapsed :: "nat \<Rightarrow> CachedEntry \<Rightarrow> nat" where
  "elapsed now entry = now - ce_updated_at entry"

definition cache_get :: "StateCache \<Rightarrow> address \<Rightarrow> CachedEntry option" where
  "cache_get c = map_of (sc_inner c)"

definition mark_dirty :: "address \<Rightarrow> StateCache \<Rightarrow> StateCache" where
  "mark_dirty address c = c\<lparr>sc_dirty := insert address (sc_dirty c)\<rparr>"

definition take_dirty_pool_indices ::
    "(address \<Rightarrow> u32 option) \<Rightarrow> StateCache \<Rightarrow> u32 set \<times> StateCache" where
  "take_dirty_pool_indices address_to_pool c =
     (Option.these (address_to_pool ` sc_dirty c), c\<lparr>sc_dirty := {}\<rparr>)"

subsection \<open>Reads\<close>

definition unexpired_tradable :: "StateCache \<Rightarrow> nat \<Rightarrow> CachedEntry \<Rightarrow> bool" where
  "unexpired_tradable c now entry \<longleftrightarrow> elapsed now entry \<le> sc_ttl c \<and> is_tradable (ce_state entry)"

definition count_tradable :: "StateCache \<Rightarrow> nat \<Rightarrow> address list \<Rightarrow> nat" where
  "count_tradable c now addresses =
     length (filter (\<lambda>a. case cache_get c a of None \<Rightarrow> False | Some e \<Rightarrow> unexpired_tradable c now e) addresses)"

definition count_tradable_in_discovery :: "StateCache \<Rightarrow> nat \<Rightarrow> (address \<Rightarrow> nat option) \<Rightarrow> nat" where
  "count_tradable_in_discovery c now address_index =
     length (filter (\<lambda>(a, e). address_index a \<noteq> None \<and> unexpired_tradable c now e) (sc_inner c))"

definition pool_past_invalid_retry_entry :: "StateCache \<Rightarrow> nat \<Rightarrow> CachedEntry \<Rightarrow> bool" where
  "pool_past_invalid_retry_entry c now entry =
     (if is_tradable (ce_state entry) then False
      else if elapsed now entry > sc_ttl c then False
      else elapsed now entry > sc_invalid_retry_ttl c)"

definition pools_past_invalid_retry :: "StateCache \<Rightarrow> nat \<Rightarrow> address list \<Rightarrow> address list" where
  "pools_past_invalid_retry c now pools =
     filter (\<lambda>a. case cache_get c a of None \<Rightarrow> False | Some e \<Rightarrow> pool_past_invalid_retry_entry c now e) pools"

definition pools_past_invalid_retry_indexed ::
    "StateCache \<Rightarrow> nat \<Rightarrow> hash_iteration \<Rightarrow> (address \<Rightarrow> nat option) \<Rightarrow> address list" where
  "pools_past_invalid_retry_indexed c now iter address_index =
     map fst (filter (\<lambda>(a, e). address_index a \<noteq> None \<and> pool_past_invalid_retry_entry c now e)
                (iter (sc_inner c)))"

definition missing_addresses :: "StateCache \<Rightarrow> address list \<Rightarrow> address set" where
  "missing_addresses c addresses = set (filter (\<lambda>a. cache_get c a = None) addresses)"

definition lookup_pool_state :: "StateCache \<Rightarrow> nat \<Rightarrow> address \<Rightarrow> PoolState option" where
  "lookup_pool_state c now address = do {
     entry \<leftarrow> cache_get c address;
     if elapsed now entry \<le> sc_ttl c then Some (ce_state entry) else None
   }"

definition tradable_by_discovery_index ::
    "StateCache \<Rightarrow> nat \<Rightarrow> (address \<Rightarrow> nat option) \<Rightarrow> (nat \<times> address \<times> PoolState) list" where
  "tradable_by_discovery_index c now address_index =
     sort_key fst (List.map_filter (\<lambda>(a, e). map_option (\<lambda>idx. (idx, a, ce_state e)) (address_index a))
       (filter (\<lambda>(_, e). unexpired_tradable c now e) (sc_inner c)))"

definition get_arcs_with_generation ::
    "StateCache \<Rightarrow> nat \<Rightarrow> address list \<Rightarrow> (address \<times> PoolState \<times> u64) list \<times> u64" where
  "get_arcs_with_generation c now addresses =
     (List.map_filter (\<lambda>a. case cache_get c a of
          None \<Rightarrow> None
        | Some e \<Rightarrow> if elapsed now e \<le> sc_ttl c then Some (a, ce_state e, ce_revision e) else None) addresses,
      sc_generation c)"

definition is_fresh_within :: "StateCache \<Rightarrow> nat \<Rightarrow> address \<Rightarrow> nat \<Rightarrow> bool" where
  "is_fresh_within c now address max_age =
     (case cache_get c address of
        None \<Rightarrow> False
      | Some e \<Rightarrow>
          if \<not> is_tradable (ce_state e) then False
          else let age = elapsed now e in age \<le> max_age \<and> age \<le> sc_ttl c)"

definition stale_addresses_within :: "StateCache \<Rightarrow> nat \<Rightarrow> address list \<Rightarrow> nat \<Rightarrow> nat \<Rightarrow> address list" where
  "stale_addresses_within c now addresses max_age limit =
     (if limit = 0 then []
      else take limit (filter (\<lambda>a. case cache_get c a of
             None \<Rightarrow> True
           | Some e \<Rightarrow>
               if \<not> is_tradable (ce_state e) then True
               else let age = elapsed now e in age > max_age \<or> age > sc_ttl c) addresses))"

definition fetch_class_for_entry :: "StateCache \<Rightarrow> nat \<Rightarrow> CachedEntry \<Rightarrow> u8 option" where
  "fetch_class_for_entry c now entry =
     (if is_tradable (ce_state entry) then (if elapsed now entry > sc_stale_tradable_ttl c then Some 3 else None)
      else if elapsed now entry > sc_invalid_retry_ttl c then Some 2
      else None)"

definition needs_fetch :: "StateCache \<Rightarrow> nat \<Rightarrow> address \<Rightarrow> bool" where
  "needs_fetch c now address =
     (case cache_get c address of None \<Rightarrow> True | Some e \<Rightarrow> fetch_class_for_entry c now e \<noteq> None)"

definition fetch_candidates :: "StateCache \<Rightarrow> nat \<Rightarrow> address list \<Rightarrow> (address \<times> u8) list" where
  "fetch_candidates c now pools =
     List.map_filter (\<lambda>a. case cache_get c a of
          None \<Rightarrow> Some (a, 1)
        | Some e \<Rightarrow> map_option (Pair a) (fetch_class_for_entry c now e)) pools"

fun classify_for_fetch ::
    "StateCache \<Rightarrow> nat \<Rightarrow> address list \<Rightarrow> address list \<times> address list \<times> address list" where
  "classify_for_fetch c now [] = ([], [], [])"
| "classify_for_fetch c now (a # as) =
     (let (never, invalid, stale) = classify_for_fetch c now as
      in case cache_get c a of
           None \<Rightarrow> (a # never, invalid, stale)
         | Some e \<Rightarrow>
             if elapsed now e > sc_ttl c then (never, invalid, a # stale)
             else if is_tradable (ce_state e) then
               (if elapsed now e > sc_stale_tradable_ttl c then (never, invalid, a # stale)
                else (never, invalid, stale))
             else if elapsed now e > sc_invalid_retry_ttl c then (never, a # invalid, stale)
             else (never, invalid, stale))"

subsection \<open>Writes\<close>

text \<open>\<open>fetch_add\<close> wraps; the revision handed out is the old counter plus one, saturating.\<close>

definition next_revision :: "StateCache \<Rightarrow> u64" where
  "next_revision c = saturating_add (sc_generation c) 1"

definition bump_generation :: "StateCache \<Rightarrow> StateCache" where
  "bump_generation c = c\<lparr>sc_generation := sc_generation c + 1\<rparr>"

text \<open>The callback returns whether it changed the state; the state it leaves behind is stored either way.\<close>

definition patch_pool :: "address \<Rightarrow> (PoolState \<Rightarrow> bool \<times> PoolState) \<Rightarrow> nat \<Rightarrow> StateCache \<Rightarrow> bool \<times> StateCache" where
  "patch_pool address f now c =
     (case cache_get c address of
        None \<Rightarrow> (False, c)
      | Some e \<Rightarrow>
          (case f (ce_state e) of
             (False, s) \<Rightarrow> (True, c\<lparr>sc_inner := AList.update address (e\<lparr>ce_state := s\<rparr>) (sc_inner c)\<rparr>)
           | (True, s) \<Rightarrow>
               let e' = \<lparr>ce_state = s, ce_updated_at = now, ce_revision = next_revision c\<rparr>;
                   c' = bump_generation (c\<lparr>sc_inner := AList.update address e' (sc_inner c)\<rparr>)
               in (True, mark_dirty address c')))"

definition eviction_tier_candidate :: "(address \<times> nat) option \<Rightarrow> address \<Rightarrow> nat \<Rightarrow> (address \<times> nat) option" where
  "eviction_tier_candidate best addr updated_at =
     (case best of
        None \<Rightarrow> Some (addr, updated_at)
      | Some (best_addr, best_at) \<Rightarrow>
          if updated_at < best_at then Some (addr, updated_at)
          else if updated_at = best_at \<and> addr < best_addr then Some (addr, updated_at)
          else Some (best_addr, best_at))"

record EvictionTiers =
  ev_expired :: "(address \<times> nat) option"
  ev_invalid :: "(address \<times> nat) option"
  ev_untradable :: "(address \<times> nat) option"
  ev_tradable :: "(address \<times> nat) option"

definition eviction_visit :: "nat \<Rightarrow> nat \<Rightarrow> address \<times> CachedEntry \<Rightarrow> EvictionTiers \<Rightarrow> EvictionTiers" where
  "eviction_visit ttl now ae t =
     (case ae of (addr, entry) \<Rightarrow>
        let updated_at = ce_updated_at entry
        in if elapsed now entry > ttl then t\<lparr>ev_expired := eviction_tier_candidate (ev_expired t) addr updated_at\<rparr>
           else if ce_state entry = PInvalid then
             t\<lparr>ev_invalid := eviction_tier_candidate (ev_invalid t) addr updated_at\<rparr>
           else if \<not> is_tradable (ce_state entry) then
             t\<lparr>ev_untradable := eviction_tier_candidate (ev_untradable t) addr updated_at\<rparr>
           else t\<lparr>ev_tradable := eviction_tier_candidate (ev_tradable t) addr updated_at\<rparr>)"

definition no_tiers :: EvictionTiers where
  "no_tiers = \<lparr>ev_expired = None, ev_invalid = None, ev_untradable = None, ev_tradable = None\<rparr>"

definition or_option :: "'a option \<Rightarrow> 'a option \<Rightarrow> 'a option" where
  "or_option a b = (case a of Some x \<Rightarrow> Some x | None \<Rightarrow> b)"

definition pick_eviction_victim :: "hash_iteration \<Rightarrow> nat \<Rightarrow> nat \<Rightarrow> (address \<times> CachedEntry) list \<Rightarrow> address option" where
  "pick_eviction_victim iter ttl now guard =
     (let t = fold (eviction_visit ttl now) (take EVICTION_SAMPLE (iter guard)) no_tiers
      in map_option fst (or_option (ev_expired t) (or_option (ev_invalid t)
           (or_option (ev_untradable t) (ev_tradable t)))))"

fun pool_state_price_level_eq :: "PoolState \<Rightarrow> PoolState \<Rightarrow> bool" where
  "pool_state_price_level_eq (PV2 x) (PV2 y) \<longleftrightarrow>
     v2_reserve0 x = v2_reserve0 y \<and> v2_reserve1 x = v2_reserve1 y \<and> v2_fee x = v2_fee y
     \<and> v2_fee_denominator x = v2_fee_denominator y"
| "pool_state_price_level_eq (PV3 x) (PV3 y) \<longleftrightarrow>
     cl_sqrt_price_x96 x = cl_sqrt_price_x96 y \<and> cl_liquidity x = cl_liquidity y \<and> cl_tick x = cl_tick y
     \<and> cl_fee x = cl_fee y"
| "pool_state_price_level_eq (PV4 x) (PV4 y) \<longleftrightarrow>
     cl_sqrt_price_x96 x = cl_sqrt_price_x96 y \<and> cl_liquidity x = cl_liquidity y \<and> cl_tick x = cl_tick y
     \<and> cl_fee x = cl_fee y"
| "pool_state_price_level_eq PInvalid PInvalid \<longleftrightarrow> True"
| "pool_state_price_level_eq (PDodo x) (PDodo y) \<longleftrightarrow>
     dd_base_reserve x = dd_base_reserve y \<and> dd_quote_reserve x = dd_quote_reserve y
     \<and> dd_i x = dd_i y \<and> dd_k x = dd_k y"
| "pool_state_price_level_eq (PCurve x) (PCurve y) \<longleftrightarrow>
     cv_balances x = cv_balances y \<and> cv_a x = cv_a y \<and> cv_fee x = cv_fee y \<and> cv_d x = cv_d y"
| "pool_state_price_level_eq (PBalancer x) (PBalancer y) \<longleftrightarrow>
     bal_balances x = bal_balances y \<and> bal_weights x = bal_weights y \<and> bal_fee x = bal_fee y"
| "pool_state_price_level_eq (PWoofi x) (PWoofi y) \<longleftrightarrow>
     wf_quote_reserve x = wf_quote_reserve y \<and> wf_fee x = wf_fee y
     \<and> length (wf_base_states x) = length (wf_base_states y)
     \<and> list_all (\<lambda>(a, b). wb_reserve a = wb_reserve b \<and> wb_price a = wb_price b)
         (zip (wf_base_states x) (wf_base_states y))"
| "pool_state_price_level_eq _ _ \<longleftrightarrow> False"

definition both_concentrated :: "PoolState \<Rightarrow> PoolState \<Rightarrow> bool" where
  "both_concentrated a b =
     (case (a, b) of (PV3 _, PV3 _) \<Rightarrow> True | (PV4 _, PV4 _) \<Rightarrow> True | _ \<Rightarrow> False)"

text \<open>The two branches of \<open>insert\<close>: a refresh at an unchanged price level, and a write with eviction.\<close>

definition refresh_entry :: "nat \<Rightarrow> PoolState \<Rightarrow> CachedEntry \<Rightarrow> CachedEntry" where
  "refresh_entry now s existing =
     (let existing = existing\<lparr>ce_updated_at := now\<rparr>
      in if both_concentrated (ce_state existing) s then existing else existing\<lparr>ce_state := s\<rparr>)"

definition eviction_step :: "hash_iteration \<Rightarrow> address \<Rightarrow> nat \<Rightarrow> StateCache \<Rightarrow> StateCache" where
  "eviction_step iter address now c =
     (if length (sc_inner c) \<ge> sc_max_entries c \<and> cache_get c address = None then
        (case pick_eviction_victim iter (sc_ttl c) now (sc_inner c) of
           None \<Rightarrow> c
         | Some victim \<Rightarrow> mark_dirty victim (c\<lparr>sc_inner := AList.delete victim (sc_inner c)\<rparr>))
      else c)"

definition write_entry :: "address \<Rightarrow> PoolState \<Rightarrow> nat \<Rightarrow> StateCache \<Rightarrow> StateCache" where
  "write_entry address s now c =
     (let e = \<lparr>ce_state = s, ce_updated_at = now, ce_revision = next_revision c\<rparr>
      in mark_dirty address (bump_generation (c\<lparr>sc_inner := AList.update address e (sc_inner c)\<rparr>)))"

definition insert_pool :: "hash_iteration \<Rightarrow> address \<Rightarrow> PoolState \<Rightarrow> nat \<Rightarrow> StateCache \<Rightarrow> StateCache" where
  "insert_pool iter address s now c =
     (if sc_max_entries c = 0 then c
      else case cache_get c address of
        Some existing \<Rightarrow>
          if pool_state_price_level_eq (ce_state existing) s
          then c\<lparr>sc_inner := AList.update address (refresh_entry now s existing) (sc_inner c)\<rparr>
          else write_entry address s now c
      | None \<Rightarrow> write_entry address s now (eviction_step iter address now c))"

definition remove_pool :: "address \<Rightarrow> StateCache \<Rightarrow> bool \<times> StateCache" where
  "remove_pool address c =
     (let removed = (cache_get c address \<noteq> None);
          c' = c\<lparr>sc_inner := AList.delete address (sc_inner c)\<rparr>
      in (removed, if removed then mark_dirty address (bump_generation c') else c'))"

definition cache_addresses :: "hash_iteration \<Rightarrow> StateCache \<Rightarrow> address list" where
  "cache_addresses iter c = map fst (iter (sc_inner c))"

section \<open>Which entry is evicted\<close>

text \<open>
  The reference: an entry's class is 0 when it is expired, then invalid, untradable, tradable. The
  victim is the least sampled entry by class, age and address.
\<close>

definition eviction_class :: "nat \<Rightarrow> nat \<Rightarrow> CachedEntry \<Rightarrow> nat" where
  "eviction_class ttl now e =
     (if elapsed now e > ttl then 0 else if ce_state e = PInvalid then 1
      else if \<not> is_tradable (ce_state e) then 2 else 3)"

definition evict_before :: "nat \<Rightarrow> nat \<Rightarrow> address \<times> CachedEntry \<Rightarrow> address \<times> CachedEntry \<Rightarrow> bool" where
  "evict_before ttl now x y \<longleftrightarrow>
     (let kx = eviction_class ttl now (snd x); ky = eviction_class ttl now (snd y);
          ux = ce_updated_at (snd x); uy = ce_updated_at (snd y)
      in kx < ky \<or> kx = ky \<and> (ux < uy \<or> ux = uy \<and> fst x \<le> fst y))"

fun tier :: "EvictionTiers \<Rightarrow> nat \<Rightarrow> (address \<times> nat) option" where
  "tier t k = (if k = 0 then ev_expired t else if k = 1 then ev_invalid t
     else if k = 2 then ev_untradable t else ev_tradable t)"

lemma tier_visit:
  "k \<le> 3 \<Longrightarrow> tier (eviction_visit ttl now (a, e) t) k =
     (if eviction_class ttl now e = k then eviction_tier_candidate (tier t k) a (ce_updated_at e) else tier t k)"
  by (auto simp: eviction_visit_def eviction_class_def Let_def)

text \<open>A tier after a walk over \<open>xs\<close>: empty exactly when no entry has its class, else the oldest one.\<close>

definition tier_ok :: "nat \<Rightarrow> nat \<Rightarrow> (address \<times> CachedEntry) set \<Rightarrow> nat \<Rightarrow> (address \<times> nat) option \<Rightarrow> bool" where
  "tier_ok ttl now S k best \<longleftrightarrow>
     (case best of
        None \<Rightarrow> \<forall>x \<in> S. eviction_class ttl now (snd x) \<noteq> k
      | Some (a, u) \<Rightarrow>
          (\<exists>e. (a, e) \<in> S \<and> ce_updated_at e = u \<and> eviction_class ttl now e = k)
          \<and> (\<forall>x \<in> S. eviction_class ttl now (snd x) = k \<longrightarrow>
                u < ce_updated_at (snd x) \<or> u = ce_updated_at (snd x) \<and> a \<le> fst x))"

lemma tier_ok_candidate:
  assumes "tier_ok ttl now S k best" and "eviction_class ttl now e = k"
  shows "tier_ok ttl now (insert (a, e) S) k (eviction_tier_candidate best a (ce_updated_at e))"
proof (cases best)
  case None
  then show ?thesis using assms by (auto simp: tier_ok_def eviction_tier_candidate_def)
next
  case (Some p)
  obtain b u where p: "p = (b, u)" by (cases p)
  have least: "\<forall>x \<in> S. eviction_class ttl now (snd x) = k \<longrightarrow>
      u < ce_updated_at (snd x) \<or> u = ce_updated_at (snd x) \<and> b \<le> fst x"
    and mem: "\<exists>e. (b, e) \<in> S \<and> ce_updated_at e = u \<and> eviction_class ttl now e = k"
    using assms(1) Some p by (simp_all add: tier_ok_def)
  show ?thesis
  proof (cases "ce_updated_at e < u \<or> ce_updated_at e = u \<and> a < b")
    case True
    then have "eviction_tier_candidate best a (ce_updated_at e) = Some (a, ce_updated_at e)"
      by (auto simp: Some p eviction_tier_candidate_def)
    moreover have "\<forall>x \<in> S. eviction_class ttl now (snd x) = k \<longrightarrow>
        ce_updated_at e < ce_updated_at (snd x) \<or> ce_updated_at e = ce_updated_at (snd x) \<and> a \<le> fst x"
    proof (intro ballI impI)
      fix x assume "x \<in> S" and "eviction_class ttl now (snd x) = k"
      then have "u < ce_updated_at (snd x) \<or> u = ce_updated_at (snd x) \<and> b \<le> fst x" using least by blast
      with True show "ce_updated_at e < ce_updated_at (snd x) \<or> ce_updated_at e = ce_updated_at (snd x) \<and> a \<le> fst x"
        by auto
    qed
    ultimately show ?thesis using assms(2) by (simp add: tier_ok_def) blast
  next
    case False
    then have "eviction_tier_candidate best a (ce_updated_at e) = Some (b, u)"
      by (auto simp: Some p eviction_tier_candidate_def)
    moreover have "u < ce_updated_at e \<or> u = ce_updated_at e \<and> b \<le> a" using False by (auto simp: not_less le_less)
    ultimately show ?thesis using least mem by (simp add: tier_ok_def) blast
  qed
qed

lemma tier_ok_other:
  "tier_ok ttl now S k best \<Longrightarrow> eviction_class ttl now e \<noteq> k \<Longrightarrow> tier_ok ttl now (insert (a, e) S) k best"
  by (auto simp: tier_ok_def split: option.splits)

lemma tier_ok_fold:
  "k \<le> 3 \<Longrightarrow> tier_ok ttl now S k (tier t k) \<Longrightarrow>
   tier_ok ttl now (S \<union> set xs) k (tier (fold (eviction_visit ttl now) xs t) k)"
proof (induction xs arbitrary: S t)
  case (Cons x xs)
  obtain a e where x: "x = (a, e)" by (cases x)
  have "tier_ok ttl now (insert x S) k (tier (eviction_visit ttl now x t) k)"
    using Cons.prems tier_visit [OF Cons.prems(1)] x
    by (simp del: tier.simps add: tier_ok_candidate tier_ok_other)
  from Cons.IH [OF Cons.prems(1) this] show ?case by simp
qed simp

lemma first_of_four:
  fixes f :: "nat \<Rightarrow> 'a option"
  assumes "r = or_option (f 0) (or_option (f 1) (or_option (f 2) (f 3)))" and "r \<noteq> None"
  shows "\<exists>k \<le> 3. f k = r \<and> (\<forall>j < k. f j = None)"
proof -
  consider "f 0 \<noteq> None" | "f 0 = None" "f 1 \<noteq> None" | "f 0 = None" "f 1 = None" "f 2 \<noteq> None"
    | "f 0 = None" "f 1 = None" "f 2 = None" by blast
  then show ?thesis
  proof cases
    case 1 then show ?thesis using assms by (intro exI [of _ 0]) (auto simp: or_option_def)
  next
    case 2 then show ?thesis using assms by (intro exI [of _ 1]) (auto simp: or_option_def)
  next
    case 3 then show ?thesis using assms by (intro exI [of _ 2]) (auto simp: or_option_def less_Suc_eq numeral_2_eq_2)
  next
    case 4 then show ?thesis
      using assms by (intro exI [of _ 3]) (auto simp: or_option_def less_Suc_eq numeral_3_eq_3 numeral_2_eq_2)
  qed
qed

lemma eviction_class_le: "eviction_class ttl now e \<le> 3"
  by (simp add: eviction_class_def)

lemma pick_eviction_victim_least:
  assumes "take EVICTION_SAMPLE (iter guard) \<noteq> []"
  obtains v e where "pick_eviction_victim iter ttl now guard = Some v"
    and "(v, e) \<in> set (take EVICTION_SAMPLE (iter guard))"
    and "\<forall>x \<in> set (take EVICTION_SAMPLE (iter guard)). evict_before ttl now (v, e) x"
proof -
  let ?S = "set (take EVICTION_SAMPLE (iter guard))"
  define t where "t = fold (eviction_visit ttl now) (take EVICTION_SAMPLE (iter guard)) no_tiers"
  have ok: "tier_ok ttl now ?S k (tier t k)" if "k \<le> 3" for k
    using tier_ok_fold [OF that, of ttl now "{}" no_tiers] by (simp add: t_def no_tiers_def tier_ok_def)
  define first where "first = or_option (tier t 0) (or_option (tier t 1) (or_option (tier t 2) (tier t 3)))"
  have victim: "pick_eviction_victim iter ttl now guard = map_option fst first"
    by (simp add: pick_eviction_victim_def first_def t_def Let_def)
  have "\<exists>k \<le> 3. tier t k = first \<and> first \<noteq> None \<and> (\<forall>j < k. tier t j = None)"
  proof -
    obtain x where "x \<in> ?S" using assms by (meson list.set_intros(1) neq_Nil_conv last_in_set)
    then have "tier t (eviction_class ttl now (snd x)) \<noteq> None"
      using ok [OF eviction_class_le] by (fastforce simp: tier_ok_def split: option.splits)
    moreover have "eviction_class ttl now (snd x) \<in> {0, 1, 2, 3}" by (auto simp: eviction_class_def)
    ultimately have "first \<noteq> None" by (auto simp: first_def or_option_def split: option.split simp del: tier.simps)
    then show ?thesis using first_of_four [of first "tier t"] by (simp add: first_def del: tier.simps)
  qed
  then obtain k where k: "k \<le> 3" "tier t k = first" "first \<noteq> None" and below: "\<forall>j < k. tier t j = None"
    by blast
  then obtain v u where vu: "first = Some (v, u)" by auto
  then have "tier_ok ttl now ?S k (Some (v, u))" using ok [OF k(1)] k(2) by simp
  then obtain e where e: "(v, e) \<in> ?S" "ce_updated_at e = u" "eviction_class ttl now e = k"
    and least: "\<forall>x \<in> ?S. eviction_class ttl now (snd x) = k \<longrightarrow>
        u < ce_updated_at (snd x) \<or> u = ce_updated_at (snd x) \<and> v \<le> fst x"
    by (auto simp: tier_ok_def)
  have "k \<le> eviction_class ttl now (snd x)" if "x \<in> ?S" for x
  proof (rule ccontr)
    assume "\<not> k \<le> eviction_class ttl now (snd x)"
    then have "tier t (eviction_class ttl now (snd x)) = None" using below by simp
    then show False using ok [OF eviction_class_le [of ttl now "snd x"]] that by (auto simp: tier_ok_def)
  qed
  then have "evict_before ttl now (v, e) x" if "x \<in> ?S" for x
    using bspec [OF least that] e that by (fastforce simp: evict_before_def Let_def le_less [of k])
  then have "\<forall>x \<in> ?S. evict_before ttl now (v, e) x" by blast
  with that victim vu e(1) show ?thesis by simp
qed

section \<open>The cache as a state machine\<close>

text \<open>
  A step is one call of a writing operation. A patch callback that reports no change must not have
  changed the state, and the 64-bit counter must not be at its end; both are conditions of the step.
\<close>

definition honest_patch :: "(PoolState \<Rightarrow> bool \<times> PoolState) \<Rightarrow> bool" where
  "honest_patch f \<longleftrightarrow> (\<forall>s. \<not> fst (f s) \<longrightarrow> snd (f s) = s)"

inductive cache_step :: "hash_iteration \<Rightarrow> StateCache \<Rightarrow> StateCache \<Rightarrow> bool" for iter where
  insert: "sc_generation c \<noteq> - 1 \<Longrightarrow> cache_step iter c (insert_pool iter a s now c)"
| patch: "sc_generation c \<noteq> - 1 \<Longrightarrow> honest_patch f \<Longrightarrow> cache_step iter c (snd (patch_pool a f now c))"
| remove: "sc_generation c \<noteq> - 1 \<Longrightarrow> cache_step iter c (snd (remove_pool a c))"
| drain: "cache_step iter c (snd (take_dirty_pool_indices idx c))"

inductive_cases cache_stepE: "cache_step iter c c'"

definition cache_inv :: "StateCache \<Rightarrow> bool" where
  "cache_inv c \<longleftrightarrow>
     distinct (map fst (sc_inner c)) \<and> length (sc_inner c) \<le> sc_max_entries c
     \<and> (\<forall>a e. cache_get c a = Some e \<longrightarrow> 0 < ce_revision e \<and> ce_revision e \<le> sc_generation c)
     \<and> (\<forall>a b e e'. cache_get c a = Some e \<longrightarrow> cache_get c b = Some e' \<longrightarrow> ce_revision e = ce_revision e' \<longrightarrow> a = b)"

text \<open>What a write may do to the entries: keep, drop, or give a fresh revision.\<close>

lemma counter_step:
  assumes "(g :: u64) \<noteq> - 1"
  shows "saturating_add g 1 = g + 1" and "g < g + 1" and "0 < g + 1" and "unat (g + 1) = unat g + 1"
proof -
  have "unat g \<noteq> 2 ^ 64 - 1" using assms word_unat_eqI [of g "- 1"] unat_max_word [where 'a = 64] by auto
  moreover have "unat g < 2 ^ LENGTH(64)" by (rule unsigned_less)
  ultimately have fits: "unat g + 1 < 2 ^ 64" by simp
  from fits show u: "unat (g + 1) = unat g + 1" by (subst unat_add_nowrap) simp_all
  show "saturating_add g 1 = g + 1" using fits by (simp add: saturating_add_def)
  show "g < g + 1" and "0 < g + 1" using u by (simp_all add: word_less_nat_alt)
qed

lemma cache_get_simps [simp]:
  "cache_get (c\<lparr>sc_inner := AList.update k v (sc_inner c)\<rparr>) = (cache_get c)(k \<mapsto> v)"
  "cache_get (c\<lparr>sc_inner := AList.delete k (sc_inner c)\<rparr>) = (cache_get c)(k := None)"
  "cache_get (c\<lparr>sc_dirty := d\<rparr>) = cache_get c" "cache_get (c\<lparr>sc_generation := g\<rparr>) = cache_get c"
  "cache_get (mark_dirty a c) = cache_get c" "cache_get (bump_generation c) = cache_get c"
  by (simp_all add: cache_get_def update_conv' delete_conv' mark_dirty_def bump_generation_def)

lemma length_AList_update:
  "length (AList.update k v (sc_inner c)) =
     (if cache_get c k = None then Suc (length (sc_inner c)) else length (sc_inner c))"
proof -
  have "length (AList.update k v xs) = (if map_of xs k = None then Suc (length xs) else length xs)" for xs
    by (induction xs) auto
  then show ?thesis by (simp add: cache_get_def)
qed

lemma length_AList_delete:
  assumes "distinct (map fst (sc_inner c))"
  shows "length (AList.delete k (sc_inner c)) =
    (if cache_get c k = None then length (sc_inner c) else length (sc_inner c) - 1)"
proof -
  have "length (AList.delete k (sc_inner c)) = length (removeAll k (map fst (sc_inner c)))"
    by (metis delete_keys length_map)
  also have "\<dots> = length (remove1 k (map fst (sc_inner c)))" using assms by (simp add: distinct_remove1_removeAll)
  finally show ?thesis by (auto simp: length_remove1 cache_get_def map_of_eq_None_iff)
qed

lemma cache_inv_write:
  assumes inv: "cache_inv c" and g: "sc_generation c \<noteq> - 1"
    and room: "cache_get c a = None \<Longrightarrow> length (sc_inner c) < sc_max_entries c"
  shows "cache_inv (write_entry a s now c)"
proof -
  let ?c = "write_entry a s now c"
  have get: "cache_get ?c = (cache_get c)(a \<mapsto> \<lparr>ce_state = s, ce_updated_at = now, ce_revision = sc_generation c + 1\<rparr>)"
    by (simp add: write_entry_def mark_dirty_def bump_generation_def next_revision_def counter_step [OF g])
  have gen: "sc_generation ?c = sc_generation c + 1" by (simp add: write_entry_def mark_dirty_def bump_generation_def)
  have old: "cache_get c b = Some e \<Longrightarrow> 0 < ce_revision e \<and> ce_revision e < sc_generation c + 1" for b e
    using inv counter_step(2) [OF g] unfolding cache_inv_def by (meson le_less_trans)
  have "distinct (map fst (sc_inner ?c)) \<and> length (sc_inner ?c) \<le> sc_max_entries ?c"
    using inv room
    by (auto simp: cache_inv_def write_entry_def mark_dirty_def bump_generation_def Let_def
        distinct_update length_AList_update)
  moreover have "\<forall>b e. cache_get ?c b = Some e \<longrightarrow> 0 < ce_revision e \<and> ce_revision e \<le> sc_generation ?c"
    using old counter_step(3) [OF g] by (auto simp: get gen less_imp_le)
  moreover have "\<forall>b d e e'. cache_get ?c b = Some e \<longrightarrow> cache_get ?c d = Some e' \<longrightarrow> ce_revision e = ce_revision e' \<longrightarrow> b = d"
    using old inv unfolding get cache_inv_def by (auto split: if_splits) (metis less_irrefl old)+
  ultimately show ?thesis unfolding cache_inv_def by blast
qed

text \<open>A write that keeps the key and the revision of an entry keeps the invariant.\<close>

lemma cache_inv_same_revision:
  assumes "cache_inv c" and "cache_get c a = Some e" and "ce_revision e' = ce_revision e"
  shows "cache_inv (c\<lparr>sc_inner := AList.update a e' (sc_inner c)\<rparr>)"
  using assms unfolding cache_inv_def
  by (auto simp: distinct_update length_AList_update split: if_splits)

lemma cache_inv_delete:
  assumes "cache_inv c"
  shows "cache_inv (c\<lparr>sc_inner := AList.delete a (sc_inner c)\<rparr>)"
  using assms length_delete_le [of a "sc_inner c"] unfolding cache_inv_def
  by (auto simp: distinct_delete)

lemma cache_inv_dirty [simp]: "cache_inv (c\<lparr>sc_dirty := d\<rparr>) = cache_inv c" "cache_inv (mark_dirty a c) = cache_inv c"
  by (simp_all add: cache_inv_def mark_dirty_def)

lemma cache_inv_bump:
  assumes "cache_inv c" and "sc_generation c \<noteq> - 1"
  shows "cache_inv (bump_generation c)"
proof -
  have "r \<le> sc_generation c \<Longrightarrow> r \<le> sc_generation c + 1" for r
    by (rule order_trans [OF _ less_imp_le [OF counter_step(2) [OF assms(2)]]])
  then show ?thesis using assms(1) by (simp add: cache_inv_def bump_generation_def)
qed

lemma eviction_makes_room:
  assumes "cache_inv c" and "set (iter (sc_inner c)) = set (sc_inner c)" and "0 < sc_max_entries c"
    and "cache_get c a = None"
  shows "length (sc_inner (eviction_step iter a now c)) < sc_max_entries c"
    and "cache_get (eviction_step iter a now c) a = None"
proof -
  have "length (sc_inner (eviction_step iter a now c)) < sc_max_entries c
    \<and> cache_get (eviction_step iter a now c) a = None"
  proof (cases "length (sc_inner c) \<ge> sc_max_entries c")
    case False
    then show ?thesis using assms(4) by (simp add: eviction_step_def)
  next
    case True
    then have "iter (sc_inner c) \<noteq> []" using assms(2,3) by (metis length_0_conv leD set_empty)
    then have "take EVICTION_SAMPLE (iter (sc_inner c)) \<noteq> []" by (simp add: EVICTION_SAMPLE_def)
    then obtain v e where v: "pick_eviction_victim iter (sc_ttl c) now (sc_inner c) = Some v"
      and "(v, e) \<in> set (take EVICTION_SAMPLE (iter (sc_inner c)))"
      using pick_eviction_victim_least by blast
    then have "(v, e) \<in> set (sc_inner c)" using assms(2) by (metis in_set_takeD)
    then have "cache_get c v \<noteq> None" by (auto simp: cache_get_def dest: weak_map_of_SomeI)
    then have "length (AList.delete v (sc_inner c)) = length (sc_inner c) - 1"
      using length_AList_delete [of c v] assms(1) by (auto simp: cache_inv_def)
    moreover have "length (sc_inner c) \<le> sc_max_entries c" using assms(1) by (simp add: cache_inv_def)
    ultimately show ?thesis
      using True v assms(3,4) by (auto simp: eviction_step_def mark_dirty_def)
  qed
  then show "length (sc_inner (eviction_step iter a now c)) < sc_max_entries c"
    and "cache_get (eviction_step iter a now c) a = None" by blast+
qed

lemma eviction_step_inv: "cache_inv c \<Longrightarrow> cache_inv (eviction_step iter a now c)"
  by (simp add: eviction_step_def cache_inv_delete split: option.split)

lemma eviction_step_fixed [simp]:
  "sc_max_entries (eviction_step iter a now c) = sc_max_entries c"
  "sc_generation (eviction_step iter a now c) = sc_generation c"
  by (simp_all add: eviction_step_def mark_dirty_def split: option.split)

lemma insert_pool_inv:
  assumes "cache_inv c" and "sc_generation c \<noteq> - 1" and "set (iter (sc_inner c)) = set (sc_inner c)"
  shows "cache_inv (insert_pool iter a s now c)"
proof (cases "sc_max_entries c = 0")
  case False
  show ?thesis
  proof (cases "cache_get c a")
    case None
    have "cache_inv (write_entry a s now (eviction_step iter a now c))"
    proof (rule cache_inv_write)
      show "length (sc_inner (eviction_step iter a now c)) < sc_max_entries (eviction_step iter a now c)"
        using eviction_makes_room(1) [where iter = iter, OF assms(1) assms(3) _ None] False by simp
    qed (use assms in \<open>simp_all add: eviction_step_inv\<close>)
    with False None show ?thesis by (simp add: insert_pool_def)
  next
    case (Some e)
    have "ce_revision (refresh_entry now s e) = ce_revision e" by (simp add: refresh_entry_def Let_def)
    then show ?thesis
      using assms(1,2) False Some cache_inv_same_revision [OF assms(1) Some] cache_inv_write [OF assms(1,2), of a]
      by (simp add: insert_pool_def)
  qed
qed (use assms in \<open>simp add: insert_pool_def\<close>)

lemma patch_pool_eq_write:
  "cache_get c a = Some e \<Longrightarrow> f (ce_state e) = (True, s) \<Longrightarrow> snd (patch_pool a f now c) = write_entry a s now c"
  by (simp add: patch_pool_def write_entry_def Let_def)

lemma patch_pool_inv:
  assumes "cache_inv c" and "sc_generation c \<noteq> - 1"
  shows "cache_inv (snd (patch_pool a f now c))"
proof (cases "cache_get c a")
  case None
  then show ?thesis using assms by (simp add: patch_pool_def)
next
  case (Some e)
  obtain changed s where f: "f (ce_state e) = (changed, s)" by fastforce
  show ?thesis
  proof (cases changed)
    case True
    then show ?thesis using Some f cache_inv_write [OF assms, of a] by (simp add: patch_pool_eq_write)
  next
    case False
    then show ?thesis using Some f cache_inv_same_revision [OF assms(1) Some] by (simp add: patch_pool_def)
  qed
qed

lemma remove_pool_inv: "cache_inv c \<Longrightarrow> sc_generation c \<noteq> - 1 \<Longrightarrow> cache_inv (snd (remove_pool a c))"
  by (simp add: remove_pool_def Let_def cache_inv_delete cache_inv_bump)

lemma cache_step_inv:
  assumes "cache_step iter c c'" and "cache_inv c" and "\<And>xs. set (iter xs) = set xs"
  shows "cache_inv c'"
  using assms
  by cases (simp_all add: insert_pool_inv patch_pool_inv remove_pool_inv take_dirty_pool_indices_def)

lemma cache_step_max: "cache_step iter c c' \<Longrightarrow> sc_max_entries c' = sc_max_entries c"
  by (erule cache_stepE)
     (auto simp: insert_pool_def write_entry_def mark_dirty_def bump_generation_def patch_pool_def remove_pool_def
        take_dirty_pool_indices_def Let_def split: option.splits prod.splits bool.splits)

section \<open>A revision stands for a price level\<close>

lemma price_level_refl: "pool_state_price_level_eq s s"
  by (cases s) (auto simp: list_all_iff zip_same_conv_map)

lemma woofi_levels_trans:
  assumes "list_all (\<lambda>(a, b). wb_reserve a = wb_reserve b \<and> wb_price a = wb_price b) (zip xs ys)"
    and "list_all (\<lambda>(a, b). wb_reserve a = wb_reserve b \<and> wb_price a = wb_price b) (zip ys zs)"
    and "length xs = length ys" and "length ys = length zs"
  shows "list_all (\<lambda>(a, b). wb_reserve a = wb_reserve b \<and> wb_price a = wb_price b) (zip xs zs)"
  using assms by (auto simp: list_all_length)

lemma price_level_trans:
  "pool_state_price_level_eq s t \<Longrightarrow> pool_state_price_level_eq t u \<Longrightarrow> pool_state_price_level_eq s u"
  by (cases s; cases t; simp; cases u; auto intro: woofi_levels_trans)

lemma refresh_entry_revision: "ce_revision (refresh_entry now s e) = ce_revision e"
  by (simp add: refresh_entry_def Let_def)

lemma refresh_entry_level:
  assumes "pool_state_price_level_eq (ce_state e) s"
  shows "pool_state_price_level_eq (ce_state e) (ce_state (refresh_entry now s e))"
  using assms by (simp add: refresh_entry_def Let_def price_level_refl)

text \<open>
  What one step, and then any number of steps, may do to an entry: it has a revision handed out in the
  meantime, or it is an old one at the same price level.
\<close>

definition levels_kept :: "StateCache \<Rightarrow> StateCache \<Rightarrow> bool" where
  "levels_kept c c' \<longleftrightarrow> sc_generation c \<le> sc_generation c' \<and>
     (\<forall>a e'. cache_get c' a = Some e' \<longrightarrow> sc_generation c < ce_revision e' \<or>
        (\<exists>e. cache_get c a = Some e \<and> ce_revision e = ce_revision e'
           \<and> pool_state_price_level_eq (ce_state e) (ce_state e')))"

lemma levels_kept_refl: "levels_kept c c"
  by (auto simp: levels_kept_def price_level_refl)

lemma levels_kept_trans:
  assumes "levels_kept c d" and "levels_kept d d'" shows "levels_kept c d'"
proof -
  have "sc_generation c < ce_revision e' \<or> (\<exists>e. cache_get c a = Some e \<and> ce_revision e = ce_revision e'
      \<and> pool_state_price_level_eq (ce_state e) (ce_state e'))" if get: "cache_get d' a = Some e'" for a e'
  proof (cases "sc_generation d < ce_revision e'")
    case True
    then show ?thesis using assms(1) by (auto simp: levels_kept_def)
  next
    case False
    then obtain e1 where "cache_get d a = Some e1" and "ce_revision e1 = ce_revision e'"
      and "pool_state_price_level_eq (ce_state e1) (ce_state e')"
      using assms(2) get unfolding levels_kept_def by blast
    then show ?thesis using assms(1) price_level_trans unfolding levels_kept_def by metis
  qed
  then show ?thesis using assms by (auto simp: levels_kept_def)
qed

lemma levels_kept_fewer:
  assumes "\<And>a e. cache_get c' a = Some e \<Longrightarrow> cache_get c a = Some e" and "sc_generation c' = sc_generation c"
  shows "levels_kept c c'"
  using assms by (auto simp: levels_kept_def price_level_refl)

lemma levels_kept_write:
  assumes "sc_generation c \<noteq> - 1" shows "levels_kept c (write_entry a s now c)"
proof -
  have "cache_get (write_entry a s now c) b = Some e \<Longrightarrow> b = a \<and> ce_revision e = sc_generation c + 1 \<or> cache_get c b = Some e"
    for b e
    by (auto simp: write_entry_def mark_dirty_def bump_generation_def next_revision_def
        counter_step [OF assms] split: if_splits)
  moreover have "sc_generation (write_entry a s now c) = sc_generation c + 1"
    by (simp add: write_entry_def mark_dirty_def bump_generation_def)
  ultimately show ?thesis
    using counter_step(2) [OF assms] price_level_refl unfolding levels_kept_def by (metis less_imp_le)
qed

lemma levels_kept_same_revision:
  assumes "cache_get c a = Some e" and "ce_revision e' = ce_revision e"
    and "pool_state_price_level_eq (ce_state e) (ce_state e')"
  shows "levels_kept c (c\<lparr>sc_inner := AList.update a e' (sc_inner c)\<rparr>)"
  using assms by (auto simp: levels_kept_def price_level_refl)

lemma levels_kept_eviction: "levels_kept c (eviction_step iter a now c)"
  by (intro levels_kept_fewer)
     (auto simp: eviction_step_def mark_dirty_def split: if_splits option.splits)

lemma levels_kept_step:
  assumes "cache_step iter c c'" shows "levels_kept c c'"
  using assms
proof cases
  case (insert a s now)
  show ?thesis
  proof (cases "cache_get c a")
    case None
    have "levels_kept (eviction_step iter a now c) (write_entry a s now (eviction_step iter a now c))"
      using insert by (intro levels_kept_write) simp
    then show ?thesis
      using levels_kept_trans [OF levels_kept_eviction] insert None
      by (simp add: insert_pool_def levels_kept_refl)
  next
    case (Some e)
    then show ?thesis
      using insert levels_kept_same_revision [OF Some] levels_kept_write [of c a s now]
      by (auto simp: insert_pool_def levels_kept_refl refresh_entry_level refresh_entry_revision)
  qed
next
  case (patch f a now)
  show ?thesis
  proof (cases "cache_get c a")
    case None
    then show ?thesis using patch by (simp add: patch_pool_def levels_kept_refl)
  next
    case (Some e)
    obtain changed s where f: "f (ce_state e) = (changed, s)" by fastforce
    show ?thesis
    proof (cases changed)
      case True
      then show ?thesis using patch Some f levels_kept_write by (simp add: patch_pool_eq_write)
    next
      case False
      then have "s = ce_state e" using patch(3) f by (metis fst_conv honest_patch_def snd_conv)
      then show ?thesis
        using False patch Some f levels_kept_same_revision [OF Some] by (simp add: patch_pool_def price_level_refl)
    qed
  qed
next
  case (remove a)
  show ?thesis
    using counter_step(2) [OF remove(2)]
    by (auto simp: remove(1) remove_pool_def Let_def levels_kept_def mark_dirty_def bump_generation_def
        price_level_refl split: if_splits)
next
  case (drain idx)
  then show ?thesis by (simp add: take_dirty_pool_indices_def levels_kept_def price_level_refl)
qed

lemma levels_kept_steps: "(cache_step iter)\<^sup>*\<^sup>* c c' \<Longrightarrow> levels_kept c c'"
  by (induction rule: rtranclp_induct) (blast intro: levels_kept_refl levels_kept_trans levels_kept_step)+

lemma reachable_inv:
  assumes "(cache_step iter)\<^sup>*\<^sup>* (new_cache n ttl) c" and "\<And>xs. set (iter xs) = set xs"
  shows "cache_inv c \<and> sc_max_entries c = n"
  using assms(1)
proof (induction rule: rtranclp_induct)
  case base
  then show ?case by (simp add: new_cache_def cache_inv_def cache_get_def)
next
  case (step c c')
  then show ?case using cache_step_inv [OF _ _ assms(2)] cache_step_max by metis
qed

section \<open>Properties\<close>

text \<open>
  In every state the cache can reach, whatever order its hash map iterates in, it holds at
  most its configured number of entries; every entry's revision is positive and no larger than the
  generation; and no two pools share a revision.
\<close>

theorem cache_reachable_invariant:
  assumes "(cache_step iter)\<^sup>*\<^sup>* (new_cache n ttl) c" and "\<And>xs. set (iter xs) = set xs"
  shows "length (sc_inner c) \<le> n
    \<and> (\<forall>a e. cache_get c a = Some e \<longrightarrow> 0 < ce_revision e \<and> ce_revision e \<le> sc_generation c)
    \<and> (\<forall>a b e e'. cache_get c a = Some e \<longrightarrow> cache_get c b = Some e' \<longrightarrow> ce_revision e = ce_revision e' \<longrightarrow> a = b)"
  using reachable_inv [OF assms] by (simp add: cache_inv_def)

text \<open>
  Property C22. A revision stands for a price level: if a pool has the same revision at two moments of a
  run, its states at these moments agree on every field the cache compares. This is what the route
  simulation cache relies on when it keys its results by revisions.
\<close>

theorem cache_revision_identifies_price_level:
  assumes "(cache_step iter)\<^sup>*\<^sup>* (new_cache n ttl) c" and "\<And>xs. set (iter xs) = set xs"
    and "(cache_step iter)\<^sup>*\<^sup>* c c'"
    and "cache_get c a = Some e" and "cache_get c' a = Some e'" and "ce_revision e = ce_revision e'"
  shows "pool_state_price_level_eq (ce_state e) (ce_state e')"
proof -
  have "ce_revision e' \<le> sc_generation c" using reachable_inv [OF assms(1,2)] assms(4,6) unfolding cache_inv_def by metis
  then show ?thesis
    using levels_kept_steps [OF assms(3)] assms(4,5) by (fastforce simp: levels_kept_def not_less [symmetric])
qed

text \<open>
  At capacity the victim is the least sampled entry by class (expired, then invalid, then
  untradable, then tradable), then by age, then by address: no live tradable pool is dropped while the
  sample holds anything less useful.
\<close>

theorem eviction_picks_least_useful:
  assumes "iter guard \<noteq> []"
  shows "\<exists>v e. pick_eviction_victim iter ttl now guard = Some v
    \<and> (v, e) \<in> set (take EVICTION_SAMPLE (iter guard))
    \<and> (\<forall>x \<in> set (take EVICTION_SAMPLE (iter guard)). evict_before ttl now (v, e) x)"
proof -
  have "take EVICTION_SAMPLE (iter guard) \<noteq> []" using assms by (simp add: EVICTION_SAMPLE_def)
  then show ?thesis using pick_eviction_victim_least by metis
qed

definition sample_cache :: StateCache where
  "sample_cache = insert_pool id 5 demo_v2_pool 10 (new_cache 1 600)"

lemma sample_cache_reachable: "(cache_step id)\<^sup>*\<^sup>* (new_cache 1 600) sample_cache"
  unfolding sample_cache_def by (intro r_into_rtranclp cache_step.insert) (simp add: new_cache_def)

lemma sample_cache_get:
  "cache_get sample_cache 5 = Some \<lparr>ce_state = demo_v2_pool, ce_updated_at = 10, ce_revision = 1\<rparr>"
  by (simp add: sample_cache_def insert_pool_def new_cache_def write_entry_def eviction_step_def next_revision_def
      saturating_add_def cache_get_def mark_dirty_def bump_generation_def)

theorem cache_reachable_invariant_witness:
  "(cache_step id)\<^sup>*\<^sup>* (new_cache 1 600) sample_cache \<and> length (sc_inner sample_cache) \<le> 1
    \<and> cache_get sample_cache 5 \<noteq> None"
  using cache_reachable_invariant [OF sample_cache_reachable] sample_cache_reachable sample_cache_get by simp

theorem cache_revision_identifies_price_level_witness:
  "\<exists>e'. cache_get (insert_pool id 5 demo_v2_pool 90 sample_cache) 5 = Some e' \<and> ce_revision e' = 1
    \<and> ce_updated_at e' = 90 \<and> pool_state_price_level_eq demo_v2_pool (ce_state e')"
proof -
  have max: "sc_max_entries sample_cache = 1"
    by (simp add: sample_cache_def insert_pool_def new_cache_def write_entry_def mark_dirty_def bump_generation_def
        cache_get_def Let_def)
  have gen: "sc_generation sample_cache = 1"
    by (simp add: sample_cache_def insert_pool_def new_cache_def write_entry_def mark_dirty_def bump_generation_def
        cache_get_def Let_def)
  let ?c = "insert_pool id 5 demo_v2_pool 90 sample_cache"
  have step: "(cache_step id)\<^sup>*\<^sup>* sample_cache ?c"
    using gen by (intro r_into_rtranclp cache_step.insert) simp
  have get: "cache_get ?c 5 = Some \<lparr>ce_state = demo_v2_pool, ce_updated_at = 90, ce_revision = 1\<rparr>"
    by (simp add: insert_pool_def max sample_cache_get price_level_refl refresh_entry_def both_concentrated_def
        demo_v2_pool_def)
  show ?thesis
    using get cache_revision_identifies_price_level [OF sample_cache_reachable _ step sample_cache_get get] by simp
qed

theorem eviction_picks_least_useful_witness:
  "\<exists>v e. pick_eviction_victim id 600 50 (sc_inner sample_cache) = Some v \<and> (v, e) \<in> set (sc_inner sample_cache)"
proof -
  have "id (sc_inner sample_cache) \<noteq> []"
    using sample_cache_get by (auto simp: cache_get_def)
  from eviction_picks_least_useful [where iter = id, OF this, of 600 50] show ?thesis by (auto dest: in_set_takeD)
qed

definition open_cl_pool :: CLPoolState where
  "open_cl_pool = \<lparr>cl_sqrt_price_x96 = 2 ^ 96, cl_tick = 0, cl_liquidity = 1000, cl_fee = 3000, cl_tick_spacing = 60,
     cl_ticks = [], cl_unlocked = True, cl_fee_protocol = 0, cl_observation_cardinality = 1\<rparr>"

definition locked_pool_cache :: StateCache where
  "locked_pool_cache = insert_pool id 7 (PV3 (open_cl_pool\<lparr>cl_unlocked := False\<rparr>)) 20
     (insert_pool id 7 (PV3 open_cl_pool) 10 (new_cache 4 600))"

text \<open>
  A refresh at an unchanged price level keeps the old state of a concentrated-liquidity pool
  whole, its lock flag included: a pool that is fetched as locked, at the price it had, stays unlocked
  and tradable in the cache.
\<close>

theorem cache_refresh_drops_lock:
  "\<not> is_tradable (PV3 (open_cl_pool\<lparr>cl_unlocked := False\<rparr>))
    \<and> lookup_pool_state locked_pool_cache 30 7 = Some (PV3 open_cl_pool) \<and> is_tradable (PV3 open_cl_pool)"
  by (simp add: locked_pool_cache_def open_cl_pool_def insert_pool_def new_cache_def write_entry_def mark_dirty_def
      bump_generation_def cache_get_def refresh_entry_def both_concentrated_def lookup_pool_state_def elapsed_def
      eviction_step_def Let_def)

end
