(* ===== verification/Arena.thy ===== *)
theory Arena
  imports StateCache
begin

text \<open>
  The state arena of \<open>src/pipeline/arena.rs\<close>: tokens and pools numbered in the order of registration,
  with the maps from addresses back to numbers, a cached layout fingerprint, and the overlay of hot
  pool states that the fast path reads first. The indices in every routing edge are positions here.

  The hash behind the fingerprint belongs to a library; it is the argument \<open>fp\<close> of the operations that
  recompute it. \<open>Arc::ptr_eq\<close> is the argument \<open>same\<close>. Registration from the discovery list is not
  modelled: it selects the pools, and registers them by the operations below.
\<close>

section \<open>The model\<close>

record StateArena =
  ar_tokens :: "address list"
  ar_token_decimals :: "u8 list"
  ar_pools :: "PoolState list"
  ar_pool_addresses :: "address list"
  ar_address_to_pool :: "address \<Rightarrow> u32 option"
  ar_address_to_token :: "address \<Rightarrow> u32 option"
  ar_layout_fingerprint :: u64
  ar_hot_overlay :: "PoolState option list"
  ar_hot_revisions :: "u64 list"

type_synonym layout_hash = "u32 \<Rightarrow> address list \<Rightarrow> nat \<Rightarrow> (address \<times> u8) list \<Rightarrow> u64"

fun pool_state_family_tag :: "PoolState \<Rightarrow> u8" where
  "pool_state_family_tag PInvalid = 0"
| "pool_state_family_tag (PV2 _) = 1"
| "pool_state_family_tag (PV3 _) = 2"
| "pool_state_family_tag (PV4 _) = 3"
| "pool_state_family_tag (PCurve _) = 4"
| "pool_state_family_tag (PBalancer _) = 5"
| "pool_state_family_tag (PDodo _) = 6"
| "pool_state_family_tag (PWoofi _) = 7"

definition compute_layout_fingerprint :: "layout_hash \<Rightarrow> StateArena \<Rightarrow> u64" where
  "compute_layout_fingerprint fp ar =
     fp (of_nat (length (ar_tokens ar))) (ar_tokens ar) (length (ar_pools ar))
       (map (\<lambda>(addr, s). (addr, pool_state_family_tag s)) (zip (ar_pool_addresses ar) (ar_pools ar)))"

definition recompute_layout_fingerprint :: "layout_hash \<Rightarrow> StateArena \<Rightarrow> StateArena" where
  "recompute_layout_fingerprint fp ar = ar\<lparr>ar_layout_fingerprint := compute_layout_fingerprint fp ar\<rparr>"

definition default_arena :: "layout_hash \<Rightarrow> StateArena" where
  "default_arena fp = recompute_layout_fingerprint fp
     \<lparr>ar_tokens = [], ar_token_decimals = [], ar_pools = [], ar_pool_addresses = [],
      ar_address_to_pool = (\<lambda>_. None), ar_address_to_token = (\<lambda>_. None), ar_layout_fingerprint = 0,
      ar_hot_overlay = [], ar_hot_revisions = []\<rparr>"

definition clone_arena :: "StateArena \<Rightarrow> StateArena" where
  "clone_arena ar = ar\<lparr>ar_hot_overlay := [], ar_hot_revisions := []\<rparr>"

definition pool_count :: "StateArena \<Rightarrow> nat" where "pool_count ar = length (ar_pools ar)"
definition token_count :: "StateArena \<Rightarrow> u32" where "token_count ar = of_nat (length (ar_tokens ar))"

definition token_address :: "StateArena \<Rightarrow> u32 \<Rightarrow> address option" where
  "token_address ar index = nth_opt (ar_tokens ar) (unat index)"

definition token_decimals :: "StateArena \<Rightarrow> u32 \<Rightarrow> u8" where
  "token_decimals ar index =
     (case nth_opt (ar_token_decimals ar) (unat index) of Some d \<Rightarrow> d | None \<Rightarrow> 18)"

definition pool_address :: "StateArena \<Rightarrow> u32 \<Rightarrow> address option" where
  "pool_address ar index = nth_opt (ar_pool_addresses ar) (unat index)"

definition pool_state :: "StateArena \<Rightarrow> u32 \<Rightarrow> PoolState option" where
  "pool_state ar index =
     (let idx = unat index
      in case Option.bind (nth_opt (ar_hot_overlay ar) idx) id of
           Some s \<Rightarrow> Some s
         | None \<Rightarrow> nth_opt (ar_pools ar) idx)"

text \<open>The caller writes through the reference it gets; \<open>f\<close> is what it writes.\<close>

definition pool_state_mut :: "u32 \<Rightarrow> (PoolState \<Rightarrow> PoolState) \<Rightarrow> StateArena \<Rightarrow> bool \<times> StateArena" where
  "pool_state_mut index f ar =
     (let idx = unat index;
          ar = (case nth_opt (ar_hot_overlay ar) idx of
                  Some (Some hot) \<Rightarrow>
                    ar\<lparr>ar_hot_overlay := (ar_hot_overlay ar)[idx := None],
                       ar_pools := (ar_pools ar)[idx := hot]\<rparr>
                | _ \<Rightarrow> ar)
      in case nth_opt (ar_pools ar) idx of
           Some s \<Rightarrow> (True, ar\<lparr>ar_pools := (ar_pools ar)[idx := f s]\<rparr>)
         | None \<Rightarrow> (False, ar))"

definition register_token_with_hints_inner ::
    "layout_hash \<Rightarrow> address \<Rightarrow> (address \<Rightarrow> u8 option) option \<Rightarrow> bool \<Rightarrow> StateArena \<Rightarrow> u32 \<times> StateArena" where
  "register_token_with_hints_inner fp address hints touch_layout ar =
     (let hint = Option.bind hints (\<lambda>h. h address)
      in case ar_address_to_token ar address of
           Some idx \<Rightarrow>
             (case hint of
                None \<Rightarrow> (idx, ar)
              | Some dec \<Rightarrow>
                  (case nth_opt (ar_token_decimals ar) (unat idx) of
                     Some slot \<Rightarrow>
                       if slot \<noteq> dec
                       then (idx, ar\<lparr>ar_token_decimals := (ar_token_decimals ar)[unat idx := dec]\<rparr>)
                       else (idx, ar)
                   | None \<Rightarrow> (idx, ar)))
         | None \<Rightarrow>
             let idx = of_nat (length (ar_tokens ar));
                 dec = (case hint of Some d \<Rightarrow> d | None \<Rightarrow> 18);
                 ar = ar\<lparr>ar_tokens := ar_tokens ar @ [address],
                         ar_token_decimals := ar_token_decimals ar @ [dec],
                         ar_address_to_token := (ar_address_to_token ar)(address \<mapsto> idx)\<rparr>
             in (idx, if touch_layout then recompute_layout_fingerprint fp ar else ar))"

definition register_token :: "layout_hash \<Rightarrow> address \<Rightarrow> StateArena \<Rightarrow> u32 \<times> StateArena" where
  "register_token fp address ar = register_token_with_hints_inner fp address None True ar"

definition clear_hot_slot :: "u32 \<Rightarrow> StateArena \<Rightarrow> StateArena" where
  "clear_hot_slot index ar =
     ar\<lparr>ar_hot_overlay := (ar_hot_overlay ar)[unat index := None],
        ar_hot_revisions := (ar_hot_revisions ar)[unat index := 0]\<rparr>"

fun pool_state_family_compatible :: "PoolState \<Rightarrow> PoolState \<Rightarrow> bool" where
  "pool_state_family_compatible PInvalid _ = True"
| "pool_state_family_compatible _ PInvalid = True"
| "pool_state_family_compatible (PV2 _) (PV2 _) = True"
| "pool_state_family_compatible (PV3 _) (PV3 _) = True"
| "pool_state_family_compatible (PV4 _) (PV4 _) = True"
| "pool_state_family_compatible (PCurve _) (PCurve _) = True"
| "pool_state_family_compatible (PBalancer _) (PBalancer _) = True"
| "pool_state_family_compatible (PDodo _) (PDodo _) = True"
| "pool_state_family_compatible (PWoofi _) (PWoofi _) = True"
| "pool_state_family_compatible _ _ = False"

definition register_pool_inner ::
    "layout_hash \<Rightarrow> address \<Rightarrow> PoolState \<Rightarrow> bool \<Rightarrow> bool \<Rightarrow> StateArena \<Rightarrow> u32 \<times> StateArena" where
  "register_pool_inner fp address s same touch_layout ar =
     (case ar_address_to_pool ar address of
        Some idx \<Rightarrow>
          let prior = nth_opt (ar_pools ar) (unat idx);
              family_flip = (case prior of Some p \<Rightarrow> \<not> pool_state_family_compatible p s | None \<Rightarrow> False);
              ar = (if prior \<noteq> None \<and> same then ar
                    else let ar = ar\<lparr>ar_pools := (ar_pools ar)[unat idx := s]\<rparr>
                         in if family_flip \<or> touch_layout then recompute_layout_fingerprint fp ar else ar)
          in (idx, clear_hot_slot idx ar)
      | None \<Rightarrow>
          let idx = of_nat (length (ar_pools ar));
              ar = ar\<lparr>ar_pools := ar_pools ar @ [s],
                      ar_pool_addresses := ar_pool_addresses ar @ [address],
                      ar_address_to_pool := (ar_address_to_pool ar)(address \<mapsto> idx)\<rparr>
          in (idx, if touch_layout then recompute_layout_fingerprint fp ar else ar))"

definition register_pool :: "layout_hash \<Rightarrow> address \<Rightarrow> PoolState \<Rightarrow> bool \<Rightarrow> StateArena \<Rightarrow> u32 \<times> StateArena" where
  "register_pool fp address s same ar = register_pool_inner fp address s same True ar"

definition resize_list :: "nat \<Rightarrow> 'a \<Rightarrow> 'a list \<Rightarrow> 'a list" where
  "resize_list n x xs = take n xs @ replicate (n - length xs) x"

definition ensure_hot_storage :: "StateArena \<Rightarrow> StateArena" where
  "ensure_hot_storage ar =
     (let pool_count = length (ar_pools ar)
      in if length (ar_hot_overlay ar) \<noteq> pool_count then
           ar\<lparr>ar_hot_overlay := resize_list pool_count None (ar_hot_overlay ar),
              ar_hot_revisions := resize_list pool_count 0 (ar_hot_revisions ar)\<rparr>
         else ar)"

fun preserve_cl_ticks_on_replace :: "PoolState option \<Rightarrow> PoolState \<Rightarrow> PoolState" where
  "preserve_cl_ticks_on_replace None incoming = incoming"
| "preserve_cl_ticks_on_replace (Some (PV3 old)) (PV3 new) =
     (if cl_ticks old \<noteq> [] \<and> cl_ticks new = [] then PV3 (new\<lparr>cl_ticks := cl_ticks old\<rparr>) else PV3 new)"
| "preserve_cl_ticks_on_replace (Some (PV4 old)) (PV4 new) =
     (if cl_ticks old \<noteq> [] \<and> cl_ticks new = [] then PV4 (new\<lparr>cl_ticks := cl_ticks old\<rparr>) else PV4 new)"
| "preserve_cl_ticks_on_replace (Some prior) incoming = incoming"

text \<open>
  One address of a cache refresh: an unknown address is skipped, a missing cache entry clears the
  overlay, an entry of another family is rejected.
\<close>

definition hot_refresh_one :: "(address \<Rightarrow> (PoolState \<times> u64) option) \<Rightarrow> address \<Rightarrow> StateArena \<Rightarrow> StateArena" where
  "hot_refresh_one fresh address ar =
     (case ar_address_to_pool ar address of
        None \<Rightarrow> ar
      | Some idx \<Rightarrow>
          (case fresh address of
             None \<Rightarrow> clear_hot_slot idx ar
           | Some (s, revision) \<Rightarrow>
               let prior = pool_state ar idx
               in if (case prior of Some p \<Rightarrow> \<not> pool_state_family_compatible p s | None \<Rightarrow> False) then ar
                  else ar\<lparr>ar_hot_overlay := (ar_hot_overlay ar)[unat idx := Some (preserve_cl_ticks_on_replace prior s)],
                          ar_hot_revisions := (ar_hot_revisions ar)[unat idx := revision]\<rparr>))"

definition apply_hot_cache_unique :: "StateCache \<Rightarrow> nat \<Rightarrow> address list \<Rightarrow> StateArena \<Rightarrow> u64 \<times> StateArena" where
  "apply_hot_cache_unique cache now addrs ar =
     (if addrs = [] then (sc_generation cache, ar)
      else
        let ar = ensure_hot_storage ar;
            (states, generation) = get_arcs_with_generation cache now addrs;
            fresh = map_of (rev states)
        in (generation, fold (hot_refresh_one fresh) addrs ar))"

definition apply_hot_cache :: "StateCache \<Rightarrow> nat \<Rightarrow> address list \<Rightarrow> StateArena \<Rightarrow> u64 \<times> StateArena" where
  "apply_hot_cache cache now addrs ar =
     (let unique = (if length addrs > 1 then remdups_adj (sort addrs) else addrs)
      in apply_hot_cache_unique cache now unique ar)"

section \<open>Indices and addresses stay inverse to each other\<close>

text \<open>
  A numbering of a list of addresses: the map knows exactly the listed addresses, each by its position,
  so the list has no duplicates.
\<close>

definition numbers :: "(address \<Rightarrow> u32 option) \<Rightarrow> address list \<Rightarrow> bool" where
  "numbers m xs \<longleftrightarrow> length xs < 2 ^ 32 \<and> (\<forall>a i. m a = Some i \<longleftrightarrow> nth_opt xs (unat i) = Some a)"

definition arena_inv :: "StateArena \<Rightarrow> bool" where
  "arena_inv ar \<longleftrightarrow>
     numbers (ar_address_to_token ar) (ar_tokens ar) \<and> length (ar_token_decimals ar) = length (ar_tokens ar)
     \<and> numbers (ar_address_to_pool ar) (ar_pool_addresses ar) \<and> length (ar_pools ar) = length (ar_pool_addresses ar)
     \<and> length (ar_hot_revisions ar) = length (ar_hot_overlay ar)
     \<and> length (ar_hot_overlay ar) \<le> length (ar_pools ar)"

lemma numbers_append:
  assumes "numbers m xs" and "m a = None" and "length xs < 2 ^ 32 - 1"
  shows "numbers (m(a \<mapsto> of_nat (length xs))) (xs @ [a])"
proof -
  have len: "unat (of_nat (length xs) :: u32) = length xs" using assms(3) by (simp add: unat_of_nat_fits)
  have new: "nth_opt xs (unat i) \<noteq> Some a" for i :: u32
  proof -
    have "m a = Some i \<longleftrightarrow> nth_opt xs (unat i) = Some a" using assms(1) unfolding numbers_def by blast
    with assms(2) show ?thesis by simp
  qed
  have "nth_opt (xs @ [a]) (unat i) = Some b \<longleftrightarrow> (if b = a then i = of_nat (length xs) else nth_opt xs (unat i) = Some b)"
    for b and i :: u32
  proof (cases "unat i < length xs")
    case True
    then have "i \<noteq> of_nat (length xs)" using len by auto
    with True show ?thesis using new [of i] by (auto simp: nth_opt_def nth_append)
  next
    case False
    moreover have "unat i = length xs \<longleftrightarrow> i = of_nat (length xs)" using len by (metis word_unat_eqI)
    ultimately show ?thesis by (auto simp: nth_opt_def nth_append less_Suc_eq)
  qed
  then show ?thesis using assms(1,3) by (auto simp: numbers_def)
qed

lemma numbers_bound: "numbers m xs \<Longrightarrow> m a = Some i \<Longrightarrow> unat i < length xs"
  by (auto simp: numbers_def nth_opt_def split: if_splits)

lemma recompute_inv [simp]: "arena_inv (recompute_layout_fingerprint fp ar) = arena_inv ar"
  by (simp add: arena_inv_def recompute_layout_fingerprint_def)

lemma clear_hot_slot_inv [simp]: "arena_inv (clear_hot_slot i ar) = arena_inv ar"
  by (simp add: arena_inv_def clear_hot_slot_def)

lemma default_arena_inv: "arena_inv (default_arena fp)"
  by (simp add: default_arena_def recompute_layout_fingerprint_def arena_inv_def numbers_def nth_opt_def)

lemma register_token_inv:
  assumes "arena_inv ar" and "length (ar_tokens ar) < 2 ^ 32 - 1"
  shows "arena_inv (snd (register_token_with_hints_inner fp a hints touch ar))"
  using assms numbers_append [of "ar_address_to_token ar" "ar_tokens ar" a]
  by (auto simp: register_token_with_hints_inner_def arena_inv_def recompute_layout_fingerprint_def Let_def
      split: option.split)

lemma register_pool_inv:
  assumes "arena_inv ar" and "length (ar_pools ar) < 2 ^ 32 - 1"
  shows "arena_inv (snd (register_pool_inner fp a s same touch ar))"
  using assms numbers_append [of "ar_address_to_pool ar" "ar_pool_addresses ar" a]
  by (auto simp: register_pool_inner_def arena_inv_def recompute_layout_fingerprint_def clear_hot_slot_def Let_def
      split: option.split)

lemma pool_state_mut_inv: "arena_inv ar \<Longrightarrow> arena_inv (snd (pool_state_mut i f ar))"
  by (auto simp: pool_state_mut_def arena_inv_def Let_def split: option.split)

lemma length_resize_list [simp]: "length (resize_list n x xs) = n"
  by (simp add: resize_list_def)

lemma ensure_hot_storage_inv: "arena_inv ar \<Longrightarrow> arena_inv (ensure_hot_storage ar)"
  by (simp add: ensure_hot_storage_def arena_inv_def Let_def)

lemma hot_refresh_one_inv: "arena_inv ar \<Longrightarrow> arena_inv (hot_refresh_one fresh a ar)"
  by (auto simp: hot_refresh_one_def Let_def arena_inv_def clear_hot_slot_def split: option.split prod.split)

lemma fold_hot_refresh_inv: "arena_inv ar \<Longrightarrow> arena_inv (fold (hot_refresh_one fresh) xs ar)"
  by (induction xs arbitrary: ar) (simp_all add: hot_refresh_one_inv)

lemma apply_hot_cache_inv: "arena_inv ar \<Longrightarrow> arena_inv (snd (apply_hot_cache cache now addrs ar))"
  by (simp add: apply_hot_cache_def apply_hot_cache_unique_def Let_def split_beta ensure_hot_storage_inv
      fold_hot_refresh_inv)

lemma clone_arena_inv: "arena_inv ar \<Longrightarrow> arena_inv (clone_arena ar)"
  by (simp add: clone_arena_def arena_inv_def)

section \<open>The arena as a state machine\<close>

inductive arena_step :: "layout_hash \<Rightarrow> StateArena \<Rightarrow> StateArena \<Rightarrow> bool" for fp where
  token: "length (ar_tokens ar) < 2 ^ 32 - 1 \<Longrightarrow>
    arena_step fp ar (snd (register_token_with_hints_inner fp a hints touch ar))"
| pool: "length (ar_pools ar) < 2 ^ 32 - 1 \<Longrightarrow>
    arena_step fp ar (snd (register_pool_inner fp a s same touch ar))"
| mutate: "arena_step fp ar (snd (pool_state_mut i f ar))"
| hot: "arena_step fp ar (snd (apply_hot_cache cache now addrs ar))"
| clone: "arena_step fp ar (clone_arena ar)"
| refingerprint: "arena_step fp ar (recompute_layout_fingerprint fp ar)"

inductive_cases arena_stepE: "arena_step fp ar ar'"

lemma arena_step_inv: "arena_step fp ar ar' \<Longrightarrow> arena_inv ar \<Longrightarrow> arena_inv ar'"
  by (erule arena_stepE)
     (simp_all add: register_token_inv register_pool_inv pool_state_mut_inv apply_hot_cache_inv clone_arena_inv)

lemma reachable_arena_inv: "(arena_step fp)\<^sup>*\<^sup>* (default_arena fp) ar \<Longrightarrow> arena_inv ar"
  by (induction rule: rtranclp_induct) (blast intro: default_arena_inv arena_step_inv)+

section \<open>What a cache refresh does to one pool\<close>

lemma hot_refresh_one_pools [simp]:
  "ar_pools (hot_refresh_one fresh a ar) = ar_pools ar"
  "ar_address_to_pool (hot_refresh_one fresh a ar) = ar_address_to_pool ar"
  "length (ar_hot_overlay (hot_refresh_one fresh a ar)) = length (ar_hot_overlay ar)"
  by (auto simp: hot_refresh_one_def clear_hot_slot_def Let_def split: option.split prod.split)

lemma nth_opt_update_other: "j \<noteq> i \<Longrightarrow> nth_opt (xs[unat i := x]) (unat j) = nth_opt xs (unat j)"
  for i j :: u32
proof -
  assume "j \<noteq> i"
  then have "unat j \<noteq> unat i" using word_unat_eqI by blast
  then show ?thesis by (simp add: nth_opt_def)
qed

lemma hot_refresh_one_other:
  assumes "ar_address_to_pool ar a \<noteq> Some i"
  shows "pool_state (hot_refresh_one fresh a ar) i = pool_state ar i"
proof -
  have "nth_opt (ys[unat j := y]) (unat i) = nth_opt ys (unat i)" if "Some j \<noteq> Some i"
    for j and ys :: "PoolState option list" and y
    using that nth_opt_update_other [of i j ys y] by auto
  with assms show ?thesis
    by (auto simp: hot_refresh_one_def pool_state_def clear_hot_slot_def Let_def split: option.split prod.split)
qed

text \<open>The pool an address names after the refresh of that address.\<close>

definition refreshed :: "(PoolState \<times> u64) option \<Rightarrow> PoolState option \<Rightarrow> PoolState option \<Rightarrow> PoolState option" where
  "refreshed entry base prior =
     (case entry of
        None \<Rightarrow> base
      | Some (s, _) \<Rightarrow>
          if (case prior of Some p \<Rightarrow> \<not> pool_state_family_compatible p s | None \<Rightarrow> False) then prior
          else Some (preserve_cl_ticks_on_replace prior s))"

lemma hot_refresh_one_same:
  assumes "ar_address_to_pool ar a = Some i" and "unat i < length (ar_hot_overlay ar)"
  shows "pool_state (hot_refresh_one fresh a ar) i
    = refreshed (fresh a) (nth_opt (ar_pools ar) (unat i)) (pool_state ar i)"
  using assms
  by (auto simp: hot_refresh_one_def refreshed_def clear_hot_slot_def Let_def split: option.split prod.split)
     (auto simp: pool_state_def nth_opt_def)

lemma fold_hot_refresh_other:
  "\<forall>a \<in> set as. ar_address_to_pool ar a \<noteq> Some i \<Longrightarrow> pool_state (fold (hot_refresh_one fresh) as ar) i = pool_state ar i"
  by (induction as arbitrary: ar) (simp_all add: hot_refresh_one_other)

lemma fold_hot_refresh:
  assumes "distinct as" and "a \<in> set as" and "ar_address_to_pool ar a = Some i"
    and inj: "\<And>b. ar_address_to_pool ar b = Some i \<Longrightarrow> b = a" and "unat i < length (ar_hot_overlay ar)"
  shows "pool_state (fold (hot_refresh_one fresh) as ar) i
    = refreshed (fresh a) (nth_opt (ar_pools ar) (unat i)) (pool_state ar i)"
  using assms(1,2,3,5) inj
proof (induction as arbitrary: ar)
  case Nil
  from Nil(2) show ?case by simp
next
  case (Cons b as)
  show ?case
  proof (cases "b = a")
    case True
    then have "\<forall>d \<in> set as. ar_address_to_pool (hot_refresh_one fresh b ar) d \<noteq> Some i"
      using Cons.prems(1,5) True by (metis distinct.simps(2) hot_refresh_one_pools(2))
    then show ?thesis using True Cons.prems(3,4) by (simp add: fold_hot_refresh_other hot_refresh_one_same)
  next
    case False
    then have "ar_address_to_pool ar b \<noteq> Some i" using Cons.prems(5) by blast
    then have "pool_state (hot_refresh_one fresh b ar) i = pool_state ar i" by (rule hot_refresh_one_other)
    with False Cons.prems(1-4) Cons.IH [of "hot_refresh_one fresh b ar", OF _ _ _ _ Cons.prems(5)]
    show ?thesis by simp
  qed
qed

lemma ensure_hot_storage_simps [simp]:
  "ar_pools (ensure_hot_storage ar) = ar_pools ar" "ar_address_to_pool (ensure_hot_storage ar) = ar_address_to_pool ar"
  by (simp_all add: ensure_hot_storage_def Let_def)

lemma ensure_hot_storage_length: "length (ar_hot_overlay (ensure_hot_storage ar)) = length (ar_pools ar)"
  by (simp add: ensure_hot_storage_def Let_def)

lemma ensure_hot_storage_pool_state:
  "length (ar_hot_overlay ar) \<le> length (ar_pools ar) \<Longrightarrow> pool_state (ensure_hot_storage ar) i = pool_state ar i"
  by (auto simp: pool_state_def ensure_hot_storage_def resize_list_def nth_opt_def nth_append Let_def split: option.split)

lemma distinct_remdups_adj_sorted: "sorted xs \<Longrightarrow> distinct (remdups_adj xs)"
  by (induction xs rule: remdups_adj.induct) auto

definition unique_addresses :: "address list \<Rightarrow> address list" where
  "unique_addresses addrs = (if length addrs > 1 then remdups_adj (sort addrs) else addrs)"

lemma unique_addresses: "distinct (unique_addresses addrs)" "set (unique_addresses addrs) = set addrs"
proof -
  show "distinct (unique_addresses addrs)"
    using distinct_remdups_adj_sorted [OF sorted_sort, of addrs]
    by (cases addrs; cases "tl addrs") (auto simp: unique_addresses_def simp del: sort_key_simps)
  show "set (unique_addresses addrs) = set addrs" by (simp add: unique_addresses_def)
qed

lemma apply_hot_cache_eq:
  "addrs \<noteq> [] \<Longrightarrow> snd (apply_hot_cache cache now addrs ar)
    = fold (hot_refresh_one (map_of (rev (fst (get_arcs_with_generation cache now (unique_addresses addrs))))))
        (unique_addresses addrs) (ensure_hot_storage ar)"
  using unique_addresses(2) [of addrs]
  by (auto simp: apply_hot_cache_def apply_hot_cache_unique_def unique_addresses_def Let_def split_beta)

lemma preserve_compatible:
  "pool_state_family_compatible p s \<Longrightarrow> pool_state_family_compatible p (preserve_cl_ticks_on_replace (Some p) s)"
  by (cases p; cases s) auto

lemma numbers_inj: "numbers m xs \<Longrightarrow> m a = Some i \<Longrightarrow> m b = Some i \<Longrightarrow> b = a"
  unfolding numbers_def by (metis option.inject)

lemma refreshed_family:
  assumes "refreshed entry base (Some p) = Some q"
  shows "pool_state_family_compatible p q \<or> base = Some q"
  using assms by (auto simp: refreshed_def preserve_compatible split: option.splits prod.splits if_splits)
     (cases p; auto)+

lemma pool_state_defined:
  "arena_inv ar \<Longrightarrow> pool_state ar i \<noteq> None \<longleftrightarrow> unat i < length (ar_pools ar)"
  by (auto simp: pool_state_def arena_inv_def nth_opt_def Let_def split: option.split)

section \<open>Properties\<close>


text \<open>
  Registering a pool makes its state the one that lookups return, at the index the call
  returns and under the registered address, whatever hot overlay the slot had; every other pool that was
  registered before keeps its state. A registration that is skipped because the arena already holds the
  same allocation must indeed hold the same state.
\<close>

theorem register_pool_then_lookup:
  assumes "(arena_step fp)\<^sup>*\<^sup>* (default_arena fp) ar" and "length (ar_pools ar) < 2 ^ 32 - 1"
    and "register_pool fp a s same ar = (i, ar')"
    and "\<And>j. ar_address_to_pool ar a = Some j \<Longrightarrow> same \<Longrightarrow> nth_opt (ar_pools ar) (unat j) = Some s"
  shows "pool_state ar' i = Some s \<and> pool_address ar' i = Some a
    \<and> (\<forall>j. j \<noteq> i \<longrightarrow> pool_state ar j \<noteq> None \<longrightarrow> pool_state ar' j = pool_state ar j)"
proof -
  have inv: "arena_inv ar" by (rule reachable_arena_inv [OF assms(1)])
  then have inv': "arena_inv ar'" using register_pool_inv [OF inv assms(2)] assms(3) by (metis register_pool_def snd_conv)
  have ne: "unat j \<noteq> unat i" if "j \<noteq> i" for j using that word_unat_eqI by blast
  show ?thesis
  proof (cases "ar_address_to_pool ar a")
    case None
    then have i: "i = of_nat (length (ar_pools ar))" and ui: "unat i = length (ar_pools ar)"
      using assms(2,3) by (auto simp: register_pool_def register_pool_inner_def Let_def unat_of_nat_fits)
    have "ar_pools ar' = ar_pools ar @ [s]" "ar_pool_addresses ar' = ar_pool_addresses ar @ [a]"
      "ar_hot_overlay ar' = ar_hot_overlay ar"
      using assms(3) None
      by (auto simp: register_pool_def register_pool_inner_def Let_def recompute_layout_fingerprint_def)
    with ui inv ne show ?thesis
      by (auto simp: pool_state_def pool_address_def nth_opt_def nth_append arena_inv_def Let_def split: option.split)
  next
    case (Some k)
    then have k: "k = i" using assms(3) by (auto simp: register_pool_def register_pool_inner_def Let_def)
    have b: "unat i < length (ar_pools ar)" and pa: "nth_opt (ar_pool_addresses ar) (unat i) = Some a"
      using inv Some k numbers_bound by (fastforce simp: arena_inv_def numbers_def)+
    have pools: "ar_pools ar' = (if same then ar_pools ar else (ar_pools ar)[unat i := s])"
      and "ar_pool_addresses ar' = ar_pool_addresses ar"
      and overlay: "ar_hot_overlay ar' = (ar_hot_overlay ar)[unat i := None]"
      using assms(3) Some k b
      by (auto simp: register_pool_def register_pool_inner_def Let_def recompute_layout_fingerprint_def
          clear_hot_slot_def nth_opt_def)
    moreover note this
    moreover have "same \<Longrightarrow> ar_pools ar ! unat i = s" using assms(4) [OF Some] k b by (simp add: nth_opt_def)
    ultimately have "pool_state ar' i = Some s" "pool_address ar' i = Some a"
      using b pa by (auto simp: pool_state_def pool_address_def nth_opt_def Let_def)
    moreover have "pool_state ar' j = pool_state ar j" if "j \<noteq> i" for j
      using that pools overlay by (cases same) (simp_all add: pool_state_def Let_def nth_opt_update_other split: option.split)
    ultimately show ?thesis by blast
  qed
qed

text \<open>
  One cache refresh never swaps the protocol family under an edge: after it, a pool's state
  is of a family compatible with the one it had, or it is the arena's own base state again.
\<close>

theorem hot_refresh_keeps_family:
  assumes "(arena_step fp)\<^sup>*\<^sup>* (default_arena fp) ar"
    and "pool_state ar i = Some p" and "pool_state (snd (apply_hot_cache cache now addrs ar)) i = Some q"
  shows "pool_state_family_compatible p q \<or> nth_opt (ar_pools ar) (unat i) = Some q"
proof -
  have inv: "arena_inv ar" by (rule reachable_arena_inv [OF assms(1)])
  let ?ar = "ensure_hot_storage ar"
  have st: "pool_state ?ar i = Some p" using inv assms(2) by (simp add: ensure_hot_storage_pool_state arena_inv_def)
  have refl: "pool_state_family_compatible p p" by (cases p) auto
  define fresh where "fresh = map_of (rev (fst (get_arcs_with_generation cache now (unique_addresses addrs))))"
  show ?thesis
  proof (cases "\<exists>a \<in> set addrs. ar_address_to_pool ar a = Some i")
    case False
    then have "addrs \<noteq> [] \<Longrightarrow> q = p"
      using assms(3) st by (simp add: apply_hot_cache_eq fold_hot_refresh_other unique_addresses)
    then show ?thesis using assms(2,3) refl by (cases addrs) (auto simp: apply_hot_cache_def apply_hot_cache_unique_def)
  next
    case True
    then obtain a where a: "a \<in> set addrs" "ar_address_to_pool ar a = Some i" by blast
    have len: "unat i < length (ar_hot_overlay ?ar)"
      using pool_state_defined [OF inv, of i] assms(2) by (simp add: ensure_hot_storage_length)
    have num: "numbers (ar_address_to_pool ar) (ar_pool_addresses ar)" using inv by (simp add: arena_inv_def)
    have inj: "ar_address_to_pool ?ar b = Some i \<Longrightarrow> b = a" for b using numbers_inj [OF num a(2)] by simp
    have "pool_state (fold (hot_refresh_one fresh) (unique_addresses addrs) ?ar) i
        = refreshed (fresh a) (nth_opt (ar_pools ar) (unat i)) (Some p)"
      using fold_hot_refresh [OF unique_addresses(1), of a addrs ?ar i fresh, OF _ _ inj len] a st
      by (simp add: unique_addresses)
    moreover have "addrs \<noteq> []" using a by auto
    ultimately show ?thesis using refreshed_family assms(3) by (simp add: apply_hot_cache_eq fresh_def)
  qed
qed

definition sample_fp :: layout_hash where "sample_fp n ts m ps = ucast n"

definition sample_arena :: StateArena where
  "sample_arena = snd (register_pool_inner sample_fp 7 demo_v2_pool False True (default_arena sample_fp))"

lemma sample_arena_reachable: "(arena_step sample_fp)\<^sup>*\<^sup>* (default_arena sample_fp) sample_arena"
  unfolding sample_arena_def
  by (intro r_into_rtranclp arena_step.pool) (simp add: default_arena_def recompute_layout_fingerprint_def)

lemmas sample_arena_defs = sample_arena_def default_arena_def recompute_layout_fingerprint_def
  register_pool_inner_def

lemma sample_arena_state: "pool_state sample_arena 0 = Some demo_v2_pool" "ar_address_to_pool sample_arena 7 = Some 0"
    "ar_pools sample_arena = [demo_v2_pool]" "ar_hot_overlay sample_arena = []" "ar_hot_revisions sample_arena = []"
  by (simp_all add: sample_arena_defs pool_state_def nth_opt_def Let_def)


theorem register_pool_then_lookup_witness:
  "\<exists>i ar'. register_pool sample_fp 7 PInvalid False sample_arena = (i, ar') \<and> pool_state ar' i = Some PInvalid"
proof -
  obtain i ar' where r: "register_pool sample_fp 7 PInvalid False sample_arena = (i, ar')" by fastforce
  have "length (ar_pools sample_arena) < 2 ^ 32 - 1" by (simp add: sample_arena_state)
  from register_pool_then_lookup [OF sample_arena_reachable this r] r show ?thesis by blast
qed

theorem hot_refresh_keeps_family_witness:
  "\<exists>q. pool_state (snd (apply_hot_cache (new_cache 4 600) 20 [7] sample_arena)) 0 = Some q
    \<and> (pool_state_family_compatible demo_v2_pool q \<or> nth_opt (ar_pools sample_arena) 0 = Some q)"
proof -
  have "pool_state (snd (apply_hot_cache (new_cache 4 600) 20 [7] sample_arena)) 0 = Some demo_v2_pool"
    by (simp add: apply_hot_cache_def apply_hot_cache_unique_def ensure_hot_storage_def hot_refresh_one_def
        clear_hot_slot_def get_arcs_with_generation_def cache_get_def new_cache_def map_filter_simps
        resize_list_def pool_state_def nth_opt_def sample_arena_state Let_def)
  with hot_refresh_keeps_family [OF sample_arena_reachable sample_arena_state(1) this] show ?thesis by simp
qed

text \<open>Two refreshes of the same V2 pool: the cache holds it as invalid first, then as a V3 pool.\<close>

definition cache_with :: "PoolState \<Rightarrow> StateCache" where
  "cache_with s = insert_pool id 7 s 10 (new_cache 4 600)"

lemma cache_with_get: "get_arcs_with_generation (cache_with s) 20 [7] = ([(7, s, 1)], 1)"
  by (simp add: cache_with_def insert_pool_def new_cache_def eviction_step_def write_entry_def next_revision_def
      saturating_add_def mark_dirty_def bump_generation_def get_arcs_with_generation_def cache_get_def elapsed_def
      map_filter_simps)

definition twice_refreshed :: StateArena where
  "twice_refreshed =
     snd (apply_hot_cache (cache_with (PV3 open_cl_pool)) 20 [7]
       (snd (apply_hot_cache (cache_with PInvalid) 20 [7] sample_arena)))"

text \<open>
  The family guard of the cache refresh compares with the overlay, and an invalid overlay is
  compatible with everything: a transient invalid state lets the next refresh put a V3 state over a V2
  pool, which a direct refresh rejects.
\<close>

theorem family_guard_bypassed_through_invalid:
  "nth_opt (ar_pools twice_refreshed) 0 = Some demo_v2_pool
    \<and> pool_state twice_refreshed 0 = Some (PV3 open_cl_pool)
    \<and> \<not> pool_state_family_compatible demo_v2_pool (PV3 open_cl_pool)
    \<and> pool_state (snd (apply_hot_cache (cache_with (PV3 open_cl_pool)) 20 [7] sample_arena)) 0 = Some demo_v2_pool"
  by (simp add: twice_refreshed_def apply_hot_cache_def apply_hot_cache_unique_def ensure_hot_storage_def
      hot_refresh_one_def cache_with_get resize_list_def pool_state_def nth_opt_def sample_arena_state Let_def
      demo_v2_pool_def)

end
