(* ===== verification/QuoteContract.thy ===== *)
theory QuoteContract
  imports PoolTypes
begin

text \<open>
  What the route simulation relies on when it asks a pool for a quote. A quote \<open>returns within\<close> a
  reserve when the call does not panic and the answer is at most that reserve. The locale states the
  contract of a pool family; every family interprets it on its own quote function, and the route
  simulation uses only the facts of the locale.
\<close>

definition quotes_within :: "u256 panics \<Rightarrow> u256 \<Rightarrow> bool" where
  "quotes_within r reserve \<longleftrightarrow> (\<exists>out. r = Some out \<and> out \<le> reserve)"

lemma quotes_within_Some [simp]: "quotes_within (Some x) reserve \<longleftrightarrow> x \<le> reserve"
  by (simp add: quotes_within_def)

lemma quotes_within_None [simp]: "\<not> quotes_within None reserve"
  by (simp add: quotes_within_def)

lemma quotes_withinD: "quotes_within r reserve \<Longrightarrow> \<exists>out. r = Some out \<and> out \<le> reserve"
  by (simp add: quotes_within_def)

lemma quotes_within_bind_pdiv:
  "d \<noteq> 0 \<Longrightarrow> quotes_within (f (n div d)) reserve \<Longrightarrow> quotes_within (Option.bind (pdiv n d) f) reserve"
  by simp

locale bounded_quote =
  fixes quote :: "'pool \<Rightarrow> u256 \<Rightarrow> 'dir \<Rightarrow> u256 panics"
    and reserve :: "'pool \<Rightarrow> 'dir \<Rightarrow> u256"
    and wf :: "'pool \<Rightarrow> bool"
  assumes quote_within: "wf p \<Longrightarrow> quotes_within (quote p amount dir) (reserve p dir)"
    and quote_nothing: "wf p \<Longrightarrow> quote p 0 dir = Some 0"
begin

lemma quote_total: "wf p \<Longrightarrow> \<exists>out. quote p amount dir = Some out"
  using quotes_withinD [OF quote_within] by blast

lemma quote_le_reserve: "wf p \<Longrightarrow> quote p amount dir = Some out \<Longrightarrow> out \<le> reserve p dir"
  using quote_within [of p amount dir] by simp

lemma empty_reserve: "wf p \<Longrightarrow> reserve p dir = 0 \<Longrightarrow> quote p amount dir = Some 0"
  using quotes_withinD [OF quote_within [of p amount dir]] by simp

lemma positive_quote:
  "wf p \<Longrightarrow> quote p amount dir = Some out \<Longrightarrow> out \<noteq> 0 \<Longrightarrow> amount \<noteq> 0 \<and> reserve p dir \<noteq> 0"
  using quote_nothing [of p dir] empty_reserve [of p dir amount] by auto

text \<open>A second pool fed with the first one's quote: the composition is total and keeps the last bound.\<close>

lemma quote_chain:
  assumes "wf p" and "wf q"
  shows "quotes_within (Option.bind (quote p amount dir) (\<lambda>mid. quote q mid dir')) (reserve q dir')"
proof -
  obtain mid where "quote p amount dir = Some mid" using quote_total [OF assms(1)] by blast
  then show ?thesis using quote_within [OF assms(2)] by simp
qed

end

end
