(* ===== verification/FullMath.thy ===== *)
theory FullMath
  imports Prelude
begin

text \<open>
  The full-width multiply-and-divide helpers of \<open>src/core/math/mod.rs\<close> and the 512-to-256-bit
  conversions of \<open>src/util.rs\<close>. Every helper tries the product in 256 bits first and widens to
  512 bits only when that overflows; the lemmas show that the two paths agree with one
  specification over the natural numbers, the rounded quotient when it fits into 256 bits.
\<close>

section \<open>Conversions\<close>

text \<open>The release build drops the debug assertion of \<open>u512_to_u256\<close> and truncates.\<close>

definition u512_to_u256 :: "u512 \<Rightarrow> u256" where
  "u512_to_u256 v = ucast v"

definition u512_to_u256_checked :: "u512 \<Rightarrow> u256 option" where
  "u512_to_u256_checked v = (if drop_bit 256 v \<noteq> 0 then None else Some (ucast v))"

lemma drop_bit_256_eq_0_iff: "drop_bit 256 (v :: u512) = 0 \<longleftrightarrow> unat v < 2 ^ 256"
proof -
  have "drop_bit 256 v = 0 \<longleftrightarrow> unat (drop_bit 256 v) = 0"
    by (simp only: unat_eq_zero)
  also have "unat (drop_bit 256 v) = unat v div 2 ^ 256"
    by (simp only: unat_drop_bit_eq drop_bit_eq_div [of 256 "unat v"])
  finally show ?thesis
    by (simp add: div_eq_0_iff)
qed

lemma unat_ucast_256: "unat (ucast (v :: u512) :: u256) = unat v mod 2 ^ 256"
  by (simp add: unsigned_ucast_eq take_bit_eq_mod)

lemma unat_u512_to_u256: "unat v < 2 ^ 256 \<Longrightarrow> unat (u512_to_u256 v) = unat v"
  by (simp add: u512_to_u256_def unat_ucast_256)

lemma u512_to_u256_checked_iff: "u512_to_u256_checked v = Some r \<longleftrightarrow> unat r = unat v"
  by (auto dest: unat_eq_fits simp: u512_to_u256_checked_def drop_bit_256_eq_0_iff unat_ucast_256 intro: word_unat_eqI)

section \<open>The helpers\<close>

definition mul_div_floor :: "u256 \<Rightarrow> u256 \<Rightarrow> u256 \<Rightarrow> u256 option" where
  "mul_div_floor a b denominator =
     (if denominator = 0 then None
      else case checked_mul a b of
        Some product \<Rightarrow> Some (product div denominator)
      | None \<Rightarrow>
          let product = (ucast a :: u512) * ucast b
          in u512_to_u256_checked (product div ucast denominator))"

definition mul_div :: "u256 \<Rightarrow> u256 \<Rightarrow> u256 \<Rightarrow> u256 option" where
  "mul_div a b denominator = do {
     result \<leftarrow> mul_div_floor a b denominator;
     if result = 0 \<and> a \<noteq> 0 \<and> b \<noteq> 0 then None else Some result
   }"

definition mul_div_ceil :: "u256 \<Rightarrow> u256 \<Rightarrow> u256 \<Rightarrow> u256 option" where
  "mul_div_ceil a b denominator =
     (if denominator = 0 then None
      else case checked_mul a b of
        Some product \<Rightarrow>
          let q = product div denominator
          in if product mod denominator \<noteq> 0 then checked_add q 1 else Some q
      | None \<Rightarrow>
          let product = (ucast a :: u512) * ucast b; den = (ucast denominator :: u512)
          in do {
            result \<leftarrow> u512_to_u256_checked (product div den);
            if product mod den > 0 then checked_add result 1 else Some result
          })"

definition mul_div_rounding_up :: "u256 \<Rightarrow> u256 \<Rightarrow> u256 \<Rightarrow> u256 option" where
  "mul_div_rounding_up a b denominator = do {
     result \<leftarrow> mul_div_ceil a b denominator;
     if result = 0 \<and> a \<noteq> 0 \<and> b \<noteq> 0 then None else Some result
   }"

definition div_rounding_up :: "u256 \<Rightarrow> u256 \<Rightarrow> u256 option" where
  "div_rounding_up a b = do {
     result \<leftarrow> checked_div a b;
     if a mod b \<noteq> 0 then checked_add result 1 else Some result
   }"

definition div_rounding_up_or_zero :: "u256 \<Rightarrow> u256 \<Rightarrow> u256" where
  "div_rounding_up_or_zero a b = (case div_rounding_up a b of Some r \<Rightarrow> r | None \<Rightarrow> 0)"

section \<open>The contract of a rounded multiply-and-divide\<close>

text \<open>
  What the price and amount formulas rely on: a multiply-and-divide operation returns the rounded
  quotient of the full 512-bit product exactly when that quotient fits into 256 bits.
\<close>

locale rounded_mul_div =
  fixes md :: "u256 \<Rightarrow> u256 \<Rightarrow> u256 \<Rightarrow> u256 option"
    and rnd :: "nat \<Rightarrow> nat \<Rightarrow> nat"
  assumes md_iff: "md a b d = Some q \<longleftrightarrow> d \<noteq> 0 \<and> unat q = rnd (unat a * unat b) (unat d)"
    and rnd_mono: "0 < n \<Longrightarrow> x \<le> y \<Longrightarrow> rnd x n \<le> rnd y n"
    and rnd_exact: "0 < n \<Longrightarrow> rnd (k * n) n = k"
begin

lemma md_SomeI:
  assumes "d \<noteq> 0" and "rnd (unat a * unat b) (unat d) < 2 ^ 256"
  shows "\<exists>q. md a b d = Some q \<and> unat q = rnd (unat a * unat b) (unat d)"
  using assms
  by (intro exI [of _ "of_nat (rnd (unat a * unat b) (unat d))"]) (simp add: md_iff unat_of_nat_fits)

lemma md_None_iff: "md a b d = None \<longleftrightarrow> d = 0 \<or> 2 ^ 256 \<le> rnd (unat a * unat b) (unat d)"
proof
  assume "md a b d = None"
  with md_SomeI [of d a b] show "d = 0 \<or> 2 ^ 256 \<le> rnd (unat a * unat b) (unat d)"
    by fastforce
next
  assume h: "d = 0 \<or> 2 ^ 256 \<le> rnd (unat a * unat b) (unat d)"
  show "md a b d = None"
  proof (rule ccontr)
    assume "md a b d \<noteq> None"
    then obtain q where "md a b d = Some q" by blast
    then have "d \<noteq> 0" and "unat q = rnd (unat a * unat b) (unat d)" by (simp_all add: md_iff)
    with h unat_lt_256 [of q] show False by simp
  qed
qed

lemma md_fraction:
  assumes "d \<noteq> 0" and "b \<le> d"
  shows "\<exists>q. md a b d = Some q \<and> q \<le> a"
proof -
  have d: "0 < unat d" using assms(1) by (rule unat_ne_0)
  have "rnd (unat a * unat b) (unat d) \<le> rnd (unat a * unat d) (unat d)"
    using d assms(2) by (intro rnd_mono mult_le_mono2) (auto simp: word_le_nat_alt)
  then have le: "rnd (unat a * unat b) (unat d) \<le> unat a"
    by (simp add: rnd_exact d)
  then have "rnd (unat a * unat b) (unat d) < 2 ^ 256"
    using unat_lt_256 [of a] by simp
  then obtain q where "md a b d = Some q" and "unat q = rnd (unat a * unat b) (unat d)"
    using md_SomeI [OF assms(1)] by blast
  with le show ?thesis
    by (auto simp: word_le_nat_alt)
qed

lemma md_mono:
  assumes "md a b d = Some q" and "md a' b' d = Some q'" and "a \<le> a'" and "b \<le> b'"
  shows "q \<le> q'"
proof -
  have "unat a * unat b \<le> unat a' * unat b'"
    using assms(3,4) by (intro mult_le_mono) (auto simp: word_le_nat_alt)
  with rnd_mono assms(1,2) show ?thesis
    by (simp add: md_iff word_le_nat_alt unat_gt_0)
qed

end

lemma mod_eq_0_unat: "a mod b = 0 \<longleftrightarrow> unat a mod unat (b :: 'a::len word) = 0"
  by (metis unat_eq_zero unat_mod_word)

lemma round_up_iff:
  "(if r \<noteq> 0 then checked_add q 1 else Some q) = Some c \<longleftrightarrow>
    unat c = unat q + (if r = 0 then 0 else 1)" for q :: u256
  by (auto simp: checked_iff intro: word_unat_eqI)

lemma mul_div_floor_iff:
  "mul_div_floor a b d = Some q \<longleftrightarrow> d \<noteq> 0 \<and> unat q = unat a * unat b div unat d"
proof (cases "checked_mul a b")
  case None
  then show ?thesis
    by (auto simp: mul_div_floor_def u512_to_u256_checked_iff unat_div_word Let_def)
next
  case (Some p)
  then have "unat p = unat a * unat b" by (simp add: checked_iff)
  with Some show ?thesis
    by (auto simp: mul_div_floor_def unat_div_word intro: word_unat_eqI)
qed

lemma div_rounding_up_iff:
  "div_rounding_up a b = Some q \<longleftrightarrow> b \<noteq> 0 \<and> unat q = ceil_div (unat a) (unat b)"
  by (auto simp: div_rounding_up_def checked_div_def ceil_div_def round_up_iff mod_eq_0_unat
      unat_div_word checked_iff split: if_splits intro: word_unat_eqI)

lemma mul_div_ceil_iff:
  "mul_div_ceil a b d = Some q \<longleftrightarrow> d \<noteq> 0 \<and> unat q = ceil_div (unat a * unat b) (unat d)"
proof (cases "checked_mul a b")
  case None
  let ?p = "(ucast a :: u512) * ucast b" and ?d = "ucast d :: u512"
  have "?p mod ?d > 0 \<longleftrightarrow> unat a * unat b mod unat d \<noteq> 0"
    by (simp add: word_less_nat_alt unat_mod_word)
  moreover have "unat (?p div ?d) = unat a * unat b div unat d"
    by (simp add: unat_div_word)
  moreover have "\<exists>y::u256. unat y = n \<and> n = unat y" if "unat q = Suc n" for n
    using that unat_lt_256 [of q] by (intro exI [of _ "of_nat n"]) (simp add: unat_of_nat_fits)
  ultimately show ?thesis
    using None
    by (auto simp: mul_div_ceil_def u512_to_u256_checked_iff ceil_div_def Let_def checked_iff
        Option.bind_eq_Some_conv intro!: word_unat_eqI)
next
  case (Some p)
  then have "unat p = unat a * unat b" by (simp add: checked_iff)
  moreover have "mul_div_ceil a b d = div_rounding_up p d"
    using Some by (simp add: mul_div_ceil_def div_rounding_up_def checked_div_def Let_def)
  ultimately show ?thesis
    by (simp add: div_rounding_up_iff)
qed

interpretation floor_md: rounded_mul_div mul_div_floor "\<lambda>n d. n div d"
  by unfold_locales (simp_all add: mul_div_floor_iff div_le_mono)

interpretation ceil_md: rounded_mul_div mul_div_ceil ceil_div
  by unfold_locales (simp_all add: mul_div_ceil_iff ceil_div_mono, simp add: ceil_div_def)

lemma mul_div_iff:
  "mul_div a b d = Some q \<longleftrightarrow>
     d \<noteq> 0 \<and> unat q = unat a * unat b div unat d \<and> (q = 0 \<longrightarrow> a = 0 \<or> b = 0)"
  by (auto simp: mul_div_def mul_div_floor_iff Option.bind_eq_Some_conv split: if_splits)

text \<open>
  The ceiling helper can only return zero for a zero product, so the zero test of
  \<open>mul_div_rounding_up\<close> never fires: the two helpers are the same function.
\<close>

lemma mul_div_rounding_up_eq: "mul_div_rounding_up a b d = mul_div_ceil a b d"
proof (cases "mul_div_ceil a b d")
  case (Some q)
  then have "0 < unat d" and "unat q = ceil_div (unat a * unat b) (unat d)"
    by (simp_all add: mul_div_ceil_iff unat_gt_0)
  then have "q = 0 \<Longrightarrow> a = 0 \<or> b = 0"
    by (simp add: ceil_div_eq_0_iff unat_eq_zero)
  with Some show ?thesis by (auto simp: mul_div_rounding_up_def)
qed (simp add: mul_div_rounding_up_def)

section \<open>Properties\<close>

text \<open>
  The full-width helpers are exact on every input: they return a value exactly when the
  divisor is nonzero and the rounded quotient of the 512-bit product fits into 256 bits, and the
  value is that quotient, rounded down by \<open>mul_div_floor\<close> and up by \<open>mul_div_ceil\<close> and
  \<open>mul_div_rounding_up\<close>.
\<close>

theorem full_mul_div_exact:
  "(mul_div_floor a b d = Some q \<longleftrightarrow> d \<noteq> 0 \<and> unat q = unat a * unat b div unat d)
   \<and> (mul_div_ceil a b d = Some q \<longleftrightarrow> d \<noteq> 0 \<and> unat q = ceil_div (unat a * unat b) (unat d))
   \<and> mul_div_rounding_up a b d = mul_div_ceil a b d"
  by (simp add: mul_div_floor_iff mul_div_ceil_iff mul_div_rounding_up_eq)

end
