(* ===== verification/UniswapV2.thy ===== *)
theory UniswapV2
  imports QuoteContract FullMath
begin

text \<open>
  Constant-product pools: \<open>src/core/math/uniswap_v2.rs\<close>. \<open>get_amount_out\<close> has a 256-bit
  fast path for amounts below \<open>2^128\<close> and a 512-bit fallback; both are modelled with their
  wrap-around. The theorems relate both to the exact rational quote.
\<close>

section \<open>The code\<close>

text \<open>The fast path's test: limbs 2 and 3 of the disjunction of the amounts are zero.\<close>

definition fits_u128 :: "u256 \<Rightarrow> u256 \<Rightarrow> u256 \<Rightarrow> bool" where
  "fits_u128 a b c \<longleftrightarrow> drop_bit 128 (a OR b OR c) = 0"

text \<open>
  The division of the fast path panics when the wrapped denominator is zero, hence the option.
\<close>

definition get_amount_out :: "u256 \<Rightarrow> u256 \<Rightarrow> u256 \<Rightarrow> u256 \<Rightarrow> u256 \<Rightarrow> u256 panics" where
  "get_amount_out amount_in reserve_in reserve_out fee_numerator fee_denominator =
     (if amount_in = 0 \<or> reserve_in = 0 \<or> reserve_out = 0 \<or> fee_numerator = 0
         \<or> fee_denominator = 0 \<or> fee_denominator \<le> fee_numerator then Some 0
      else if fits_u128 amount_in reserve_in reserve_out then
        (let amount_in_with_fee = amount_in * fee_numerator;
             numerator = amount_in_with_fee * reserve_out;
             denominator = reserve_in * fee_denominator + amount_in_with_fee
         in pdiv numerator denominator)
      else
        (let amount_in_with_fee = (ucast amount_in :: u512) * ucast fee_numerator;
             numerator = amount_in_with_fee * ucast reserve_out;
             den_part = (ucast reserve_in :: u512) * ucast fee_denominator;
             denominator = den_part + amount_in_with_fee
         in if denominator = 0 then Some 0
            else let result = numerator div denominator
                 in if result = 0 then Some 0 else Some (u512_to_u256 result)))"

definition v2_fee_bps_from_pool :: "V2PoolState \<Rightarrow> u32 option" where
  "v2_fee_bps_from_pool st =
     (if v2_fee st = 0 \<or> v2_fee_denominator st = 0 \<or> v2_fee_denominator st \<le> v2_fee st then None
      else let fee_part = v2_fee_denominator st - v2_fee st;
               bps = (fee_part * 10000) div v2_fee_denominator st;
               bps = (ucast (min bps 9999) :: u32)
           in if bps > 0 then Some bps else None)"

definition resolve_v2_fee_with_edge :: "V2PoolState \<Rightarrow> u32 option \<Rightarrow> u256 \<times> u256" where
  "resolve_v2_fee_with_edge st edge_fee_bps =
     (if v2_fee st \<noteq> 0 \<and> v2_fee_denominator st \<noteq> 0 \<and> v2_fee st < v2_fee_denominator st
      then (v2_fee st, v2_fee_denominator st)
      else case edge_fee_bps of
        Some bps \<Rightarrow>
          if bps > 0 \<and> bps < 10000 then (ucast ((10000 :: u64) - ucast bps), 10000)
          else (DEFAULT_FEE_NUMERATOR, FEE_DENOMINATOR)
      | None \<Rightarrow> (DEFAULT_FEE_NUMERATOR, FEE_DENOMINATOR))"

definition simulate_v2_swap :: "V2PoolState \<Rightarrow> u256 \<Rightarrow> bool \<Rightarrow> u32 option \<Rightarrow> u256 panics" where
  "simulate_v2_swap st amount_in zero_for_one edge_fee_bps =
     (let (numerator, denominator) = resolve_v2_fee_with_edge st edge_fee_bps;
          (reserve_in, reserve_out) =
            (if zero_for_one then (v2_reserve0 st, v2_reserve1 st)
             else (v2_reserve1 st, v2_reserve0 st))
      in get_amount_out amount_in reserve_in reserve_out numerator denominator)"

section \<open>The exact quote\<close>

text \<open>
  The reference: the floor of \<open>x f R_out / (R_in d + x f)\<close> over the natural numbers, zero on the
  inputs the code rejects.
\<close>

definition exact_quote :: "nat \<Rightarrow> nat \<Rightarrow> nat \<Rightarrow> nat \<Rightarrow> nat \<Rightarrow> nat" where
  "exact_quote x r_in r_out f d =
     (if x = 0 \<or> r_in = 0 \<or> r_out = 0 \<or> f = 0 \<or> d = 0 \<or> d \<le> f then 0
      else x * f * r_out div (r_in * d + x * f))"

lemma exact_quote_less:
  assumes "0 < r_out" shows "exact_quote x r_in r_out f d < r_out"
proof (cases "x = 0 \<or> r_in = 0 \<or> f = 0 \<or> d \<le> f")
  case False
  then have "x * f * r_out < r_out * (r_in * d + x * f)"
    using assms by (simp add: algebra_simps)
  then have "x * f * r_out div (r_in * d + x * f) < r_out"
    by (rule less_mult_imp_div_less)
  then show ?thesis using False by (simp add: exact_quote_def)
qed (use assms in \<open>auto simp: exact_quote_def\<close>)

text \<open>
  The constant-product inequality with the fee retained by the pool, in the form Uniswap's pair
  contract checks it: the fee-adjusted product does not fall.
\<close>

lemma exact_quote_k:
  "r_in * d * r_out \<le> (r_in * d + x * f) * (r_out - exact_quote x r_in r_out f d)"
proof (cases "x = 0 \<or> r_in = 0 \<or> r_out = 0 \<or> f = 0 \<or> d = 0 \<or> d \<le> f")
  case True
  then show ?thesis by (auto simp: exact_quote_def algebra_simps)
next
  case False
  let ?D = "r_in * d + x * f" and ?q = "exact_quote x r_in r_out f d"
  have q: "?q = x * f * r_out div ?D" using False by (simp add: exact_quote_def)
  have "?D * ?q \<le> x * f * r_out" by (simp add: q)
  then have "r_in * d * r_out + x * f * r_out - x * f * r_out \<le> ?D * r_out - ?D * ?q"
    by (simp add: algebra_simps)
  then show ?thesis by (simp add: diff_mult_distrib2)
qed

lemma exact_quote_mono:
  assumes "x \<le> y" shows "exact_quote x r_in r_out f d \<le> exact_quote y r_in r_out f d"
proof (cases "x = 0 \<or> r_in = 0 \<or> r_out = 0 \<or> f = 0 \<or> d = 0 \<or> d \<le> f")
  case False
  let ?Dx = "r_in * d + x * f" and ?Dy = "r_in * d + y * f"
  let ?q = "exact_quote x r_in r_out f d"
  have Dx: "0 < ?Dx" and Dy: "0 < ?Dy" using False assms by auto
  have q: "?q * ?Dx \<le> x * f * r_out"
    using False by (simp add: exact_quote_def)
  have "?q \<le> r_out" using exact_quote_less [of r_out x r_in f d] False by simp
  then have "?q * ((y - x) * f) \<le> (y - x) * f * r_out" by (simp add: ac_simps mult_le_mono)
  with q have "?q * ?Dx + ?q * ((y - x) * f) \<le> x * f * r_out + (y - x) * f * r_out" by linarith
  moreover have "?q * ?Dx + ?q * ((y - x) * f) = ?q * ?Dy"
    using assms by (simp add: diff_mult_distrib diff_mult_distrib2 algebra_simps)
  moreover have "x * f * r_out + (y - x) * f * r_out = y * f * r_out"
    using assms by (simp add: diff_mult_distrib algebra_simps)
  ultimately have "?q * ?Dy \<le> y * f * r_out" by simp
  then have "?q \<le> y * f * r_out div ?Dy" using Dy by (simp add: less_eq_div_iff_mult_less_eq)
  then show ?thesis using False assms by (auto simp: exact_quote_def)
qed (auto simp: exact_quote_def)

section \<open>When the code computes the exact quote\<close>

text \<open>
  The products that must not wrap: 256 bits on the fast path, 512 bits on the wide path.
\<close>

definition v2_no_overflow :: "u256 \<Rightarrow> u256 \<Rightarrow> u256 \<Rightarrow> u256 \<Rightarrow> u256 \<Rightarrow> bool" where
  "v2_no_overflow x r_in r_out f d \<longleftrightarrow>
     (let w = (if fits_u128 x r_in r_out then 2 ^ 256 else 2 ^ 512)
      in unat x * unat f * unat r_out < w \<and> unat r_in * unat d + unat x * unat f < w)"

lemma fits_u128_iff:
  "fits_u128 a b c \<longleftrightarrow> unat a < 2 ^ 128 \<and> unat b < 2 ^ 128 \<and> unat c < 2 ^ 128"
proof -
  have "drop_bit 128 (x :: u256) = 0 \<longleftrightarrow> unat x < 2 ^ 128" for x
  proof -
    have "drop_bit 128 x = 0 \<longleftrightarrow> unat (drop_bit 128 x) = 0"
      by (simp only: unat_eq_zero)
    also have "unat (drop_bit 128 x) = unat x div 2 ^ 128"
      by (simp only: unat_drop_bit_eq drop_bit_eq_div [of 128 "unat x"])
    finally show ?thesis by (simp add: div_eq_0_iff)
  qed
  then show ?thesis
    by (simp add: fits_u128_def drop_bit_or or_eq_0_iff)
qed

lemma get_amount_out_fast:
  assumes "fits_u128 x r_in r_out" and "v2_no_overflow x r_in r_out f d"
    and nz: "x \<noteq> 0" "r_in \<noteq> 0" "r_out \<noteq> 0" "f \<noteq> 0" "d \<noteq> 0" "f < d"
  shows "\<exists>q. get_amount_out x r_in r_out f d = Some q \<and>
    unat q = exact_quote (unat x) (unat r_in) (unat r_out) (unat f) (unat d)"
proof -
  from assms(1,2) have num: "unat x * unat f * unat r_out < 2 ^ 256"
    and den: "unat r_in * unat d + unat x * unat f < 2 ^ 256"
    by (simp_all add: v2_no_overflow_def)
  from nz have pos: "0 < unat x" "0 < unat r_in" "0 < unat r_out" "0 < unat f" "0 < unat d"
    by (simp_all add: unat_ne_0)
  have "unat (x * f) = unat x * unat f"
    using den by (simp add: unat_mult_nowrap)
  then have n: "unat (x * f * r_out) = unat x * unat f * unat r_out"
    and "unat (r_in * d) = unat r_in * unat d"
    using num den by (simp_all add: unat_mult_nowrap)
  then have dn: "unat (r_in * d + x * f) = unat r_in * unat d + unat x * unat f"
    using den \<open>unat (x * f) = unat x * unat f\<close> by (simp add: unat_add_nowrap)
  then have "r_in * d + x * f \<noteq> 0" using pos by (auto simp flip: unat_eq_zero)
  then show ?thesis
    using assms(1) nz pos n dn
    by (simp add: get_amount_out_def exact_quote_def Let_def unat_div_word
        word_less_nat_alt word_le_nat_alt)
qed

lemma get_amount_out_wide:
  assumes "\<not> fits_u128 x r_in r_out" and "v2_no_overflow x r_in r_out f d"
    and nz: "x \<noteq> 0" "r_in \<noteq> 0" "r_out \<noteq> 0" "f \<noteq> 0" "d \<noteq> 0" "f < d"
  shows "\<exists>q. get_amount_out x r_in r_out f d = Some q \<and>
    unat q = exact_quote (unat x) (unat r_in) (unat r_out) (unat f) (unat d)"
proof -
  let ?xf = "(ucast x :: u512) * ucast f"
  let ?n = "?xf * ucast r_out" and ?d = "(ucast r_in :: u512) * ucast d + ?xf"
  let ?e = "exact_quote (unat x) (unat r_in) (unat r_out) (unat f) (unat d)"
  from assms(1,2) have num: "unat x * unat f * unat r_out < 2 ^ 512"
    and den: "unat r_in * unat d + unat x * unat f < 2 ^ 512"
    by (simp_all add: v2_no_overflow_def)
  from nz have pos: "0 < unat x" "0 < unat r_in" "0 < unat r_out" "0 < unat f" "0 < unat d"
    by (simp_all add: unat_ne_0)
  have n: "unat ?n = unat x * unat f * unat r_out"
    using num by (subst unat_mult_nowrap) simp_all
  have dn: "unat ?d = unat r_in * unat d + unat x * unat f"
    using den by (subst unat_add_nowrap) simp_all
  then have "?d \<noteq> 0" using pos by (auto simp flip: unat_eq_zero)
  have e: "unat (?n div ?d) = ?e"
    using nz pos by (simp only: unat_div_word n dn) (simp add: exact_quote_def word_less_nat_alt not_le)
  moreover have "?e < 2 ^ 256"
    using exact_quote_less [OF pos(3), of "unat x" "unat r_in" "unat f" "unat d"]
      unat_lt_256 [of r_out] by simp
  ultimately have "unat (u512_to_u256 (?n div ?d)) = ?e"
    by (simp add: unat_u512_to_u256)
  moreover have "get_amount_out x r_in r_out f d =
      Some (if ?n div ?d = 0 then 0 else u512_to_u256 (?n div ?d))"
    using assms(1) nz \<open>?d \<noteq> 0\<close> by (simp add: get_amount_out_def Let_def flip: not_less)
  moreover have "u512_to_u256 (0 :: u512) = 0" by (simp add: u512_to_u256_def)
  ultimately show ?thesis by (auto split: if_splits)
qed

lemma get_amount_out_reject:
  "x = 0 \<or> r_in = 0 \<or> r_out = 0 \<or> f = 0 \<or> d = 0 \<or> d \<le> f \<Longrightarrow>
    get_amount_out x r_in r_out f d = Some 0"
  by (auto simp: get_amount_out_def)

lemma get_amount_out_exact:
  assumes "v2_no_overflow x r_in r_out f d"
  shows "\<exists>q. get_amount_out x r_in r_out f d = Some q \<and>
    unat q = exact_quote (unat x) (unat r_in) (unat r_out) (unat f) (unat d)"
proof (cases "x = 0 \<or> r_in = 0 \<or> r_out = 0 \<or> f = 0 \<or> d = 0 \<or> d \<le> f")
  case True
  then show ?thesis
    by (auto simp: get_amount_out_reject exact_quote_def word_le_nat_alt unat_eq_zero)
next
  case False
  with get_amount_out_fast [OF _ assms] get_amount_out_wide [OF _ assms] show ?thesis
    by (auto simp: not_le)
qed

lemma onchain_no_overflow:
  assumes "unat r_in < 2 ^ 112" and "unat r_out < 2 ^ 112" and "unat d \<le> 10000" and "f < d"
  shows "v2_no_overflow x r_in r_out f d"
proof -
  have f: "unat f \<le> 10000" using assms(3,4) by (simp add: word_less_nat_alt)
  have bound: "unat x * unat f * unat r_out < w * 2 ^ 128 \<and>
      unat r_in * unat d + unat x * unat f < w * 2 ^ 128" if "unat x < w" and "2 ^ 128 \<le> w" for w
  proof
    have "unat x * unat f * unat r_out \<le> w * 10000 * 2 ^ 112"
      using that f assms(2) by (intro mult_le_mono) auto
    also have "\<dots> < w * 2 ^ 128" using that by simp
    finally show "unat x * unat f * unat r_out < w * 2 ^ 128" .
    have "unat r_in * unat d \<le> 2 ^ 112 * 10000" and "unat x * unat f \<le> w * 10000"
      using that f assms(1,3) by (intro mult_le_mono; simp)+
    then show "unat r_in * unat d + unat x * unat f < w * 2 ^ 128" using that by simp
  qed
  show ?thesis
  proof (cases "fits_u128 x r_in r_out")
    case True
    then show ?thesis
      using bound [of "2 ^ 128"] by (simp add: v2_no_overflow_def fits_u128_iff)
  next
    case False
    then show ?thesis
      using bound [of "2 ^ 256"] unat_lt_256 [of x] by (simp add: v2_no_overflow_def)
  qed
qed

section \<open>The contract of a pool family\<close>

lemma resolve_v2_fee_proper:
  "case resolve_v2_fee_with_edge st edge of (n, d) \<Rightarrow>
     n \<noteq> 0 \<and> n < d \<and>
     (v2_fee st \<noteq> 0 \<and> v2_fee st < v2_fee_denominator st \<longrightarrow>
        n = v2_fee st \<and> d = v2_fee_denominator st)"
proof -
  have edge: "(ucast ((10000 :: u64) - ucast bps) :: u256) \<noteq> 0 \<and>
      (ucast ((10000 :: u64) - ucast bps) :: u256) < 10000" if "0 < bps" "bps < 10000" for bps :: u32
  proof -
    have b: "0 < unat bps" "unat bps < 10000"
      using that by (simp_all add: word_less_nat_alt)
    then have c: "unat (ucast bps :: u64) = unat bps"
      by (simp add: unsigned_ucast_eq take_bit_nat_eq_self)
    with b have "unat ((10000 :: u64) - ucast bps) = 10000 - unat bps"
      by (subst unat_sub_nowrap) (simp_all add: word_le_nat_alt)
    then have "unat (ucast ((10000 :: u64) - ucast bps) :: u256) = 10000 - unat bps"
      by (simp add: unsigned_ucast_eq take_bit_nat_eq_self)
    with b show ?thesis
      by (simp add: word_less_nat_alt flip: unat_eq_zero)
  qed
  show ?thesis
    using edge
    by (auto simp: resolve_v2_fee_with_edge_def DEFAULT_FEE_NUMERATOR_def FEE_DENOMINATOR_def
        split: option.splits)
qed

lemma resolve_v2_fee_small:
  "unat (v2_fee_denominator st) \<le> 10000 \<Longrightarrow> unat (snd (resolve_v2_fee_with_edge st edge)) \<le> 10000"
  by (auto simp: resolve_v2_fee_with_edge_def FEE_DENOMINATOR_def split: option.split)

text \<open>A deployed pair: \<open>uint112\<close> reserves and a fee denominator of at most 10000.\<close>

definition v2_wf :: "V2PoolState \<Rightarrow> bool" where
  "v2_wf st \<longleftrightarrow> unat (v2_reserve0 st) < 2 ^ 112 \<and> unat (v2_reserve1 st) < 2 ^ 112 \<and>
     unat (v2_fee_denominator st) \<le> 10000"

definition v2_quote :: "V2PoolState \<Rightarrow> u256 \<Rightarrow> bool \<times> u32 option \<Rightarrow> u256 panics" where
  "v2_quote st amount dir = simulate_v2_swap st amount (fst dir) (snd dir)"

definition v2_reserve_out :: "V2PoolState \<Rightarrow> bool \<times> u32 option \<Rightarrow> u256" where
  "v2_reserve_out st dir = (if fst dir then v2_reserve1 st else v2_reserve0 st)"

lemma exact_quote_le: "exact_quote x r_in r_out f d \<le> r_out"
  using exact_quote_less [of r_out x r_in f d] by (cases "r_out = 0") (simp_all add: exact_quote_def)

lemma v2_quote_exact_value:
  assumes "v2_wf st"
  shows "\<exists>q n d r_in. v2_quote st amount dir = Some q \<and>
    unat q = exact_quote (unat amount) r_in (unat (v2_reserve_out st dir)) n d"
proof -
  obtain n d where fee: "resolve_v2_fee_with_edge st (snd dir) = (n, d)" by (cases "resolve_v2_fee_with_edge st (snd dir)")
  then have "n < d" and "unat d \<le> 10000"
    using resolve_v2_fee_proper [of st "snd dir"] resolve_v2_fee_small [of st "snd dir"] assms
    by (simp_all add: v2_wf_def)
  then have "\<exists>q. get_amount_out amount r_in r_out n d = Some q \<and>
      unat q = exact_quote (unat amount) (unat r_in) (unat r_out) (unat n) (unat d)"
    if "unat r_in < 2 ^ 112" and "unat r_out < 2 ^ 112" for r_in r_out
    using that by (intro get_amount_out_exact onchain_no_overflow)
  from this [of "v2_reserve0 st" "v2_reserve1 st"] this [of "v2_reserve1 st" "v2_reserve0 st"]
  show ?thesis
    using assms fee by (auto simp: v2_quote_def simulate_v2_swap_def v2_reserve_out_def v2_wf_def)
qed

interpretation v2: bounded_quote v2_quote v2_reserve_out v2_wf
proof
  show "quotes_within (v2_quote st amount dir) (v2_reserve_out st dir)" if "v2_wf st" for st amount dir
    using v2_quote_exact_value [OF that, of amount dir] exact_quote_le
    by (auto simp: quotes_within_def word_le_nat_alt)
  show "v2_quote st 0 dir = Some 0" if "v2_wf st" for st dir
    using v2_quote_exact_value [OF that, of 0 dir] by (auto simp: exact_quote_def unat_eq_0)
qed

section \<open>Properties\<close>

text \<open>
  Property C2. For every pool whose reserves fit the pair contract's \<open>uint112\<close> and whose fee is a
  proper fraction with denominator at most 10000, \<open>get_amount_out\<close> never panics and returns the
  exact floor of the constant-product formula, for every 256-bit input amount: the 256-bit fast
  path and the 512-bit fallback are both exact.
\<close>

theorem v2_quote_exact_onchain:
  assumes "unat r_in < 2 ^ 112" and "unat r_out < 2 ^ 112" and "unat d \<le> 10000" and "f < d"
  shows "\<exists>q. get_amount_out x r_in r_out f d = Some q \<and>
    unat q = exact_quote (unat x) (unat r_in) (unat r_out) (unat f) (unat d)"
  using assms by (intro get_amount_out_exact onchain_no_overflow)

theorem v2_quote_exact_onchain_witness:
  "unat (5000000 :: u256) < 2 ^ 112 \<and> unat (7000000 :: u256) < 2 ^ 112 \<and>
   unat (1000 :: u256) \<le> 10000 \<and> (997 :: u256) < 1000 \<and>
   (\<exists>q. get_amount_out 1000 5000000 7000000 997 1000 = Some q \<and>
     unat q = exact_quote (unat (1000 :: u256)) (unat (5000000 :: u256)) (unat (7000000 :: u256))
       (unat (997 :: u256)) (unat (1000 :: u256)))"
  using v2_quote_exact_onchain [of 5000000 7000000 1000 997 1000] by simp

text \<open>
  Whenever the products fit, a swap never empties the output reserve and never lowers
  the fee-adjusted constant product: the quoted output always passes the pair contract's K check.
\<close>

theorem v2_quote_keeps_k:
  assumes "v2_no_overflow x r_in r_out f d" and "0 < unat r_out"
  shows "\<exists>q. get_amount_out x r_in r_out f d = Some q \<and> q < r_out \<and>
    unat r_in * unat d * unat r_out \<le> (unat r_in * unat d + unat x * unat f) * unat (r_out - q)"
proof -
  obtain q where q: "get_amount_out x r_in r_out f d = Some q"
      "unat q = exact_quote (unat x) (unat r_in) (unat r_out) (unat f) (unat d)"
    using get_amount_out_exact [OF assms(1)] by blast
  then have "q < r_out"
    using exact_quote_less [OF assms(2)] by (simp add: word_less_nat_alt)
  then have "unat (r_out - q) = unat r_out - unat q" by (simp add: unat_sub_nowrap)
  with q \<open>q < r_out\<close> exact_quote_k show ?thesis by auto
qed

theorem v2_quote_keeps_k_witness:
  "v2_no_overflow 1000 5000000 7000000 997 1000 \<and> 0 < unat (7000000 :: u256) \<and>
   (\<exists>q. get_amount_out 1000 5000000 7000000 997 1000 = Some q \<and> q < 7000000 \<and>
     unat (5000000 :: u256) * unat (1000 :: u256) * unat (7000000 :: u256) \<le>
       (unat (5000000 :: u256) * unat (1000 :: u256) + unat (1000 :: u256) * unat (997 :: u256))
         * unat (7000000 - q))"
proof -
  have "v2_no_overflow 1000 5000000 7000000 997 1000"
    by (simp add: v2_no_overflow_def fits_u128_iff)
  then show ?thesis using v2_quote_keeps_k [of 1000 5000000 7000000 997 1000] by simp
qed

text \<open>
  A larger input never quotes a smaller output (for the fees and reserves of deployed
  pairs), so the optimiser's search over input sizes sees a monotone output curve.
\<close>

theorem v2_quote_monotone:
  assumes "unat r_in < 2 ^ 112" and "unat r_out < 2 ^ 112" and "unat d \<le> 10000" and "f < d"
    and "x \<le> y" and "get_amount_out x r_in r_out f d = Some q"
    and "get_amount_out y r_in r_out f d = Some q'"
  shows "q \<le> q'"
proof -
  have "unat q = exact_quote (unat x) (unat r_in) (unat r_out) (unat f) (unat d)"
    and "unat q' = exact_quote (unat y) (unat r_in) (unat r_out) (unat f) (unat d)"
    using get_amount_out_exact [OF onchain_no_overflow [OF assms(1-4)], of x]
      get_amount_out_exact [OF onchain_no_overflow [OF assms(1-4)], of y] assms(6,7) by simp_all
  then show ?thesis
    using exact_quote_mono assms(5) by (simp add: word_le_nat_alt)
qed

theorem v2_quote_monotone_witness:
  "get_amount_out 1000 5000000 7000000 997 1000 = Some 1395 \<and>
   get_amount_out 2000 5000000 7000000 997 1000 = Some 2790 \<and> (1395 :: u256) \<le> 2790"
proof -
  have "get_amount_out 1000 5000000 7000000 997 1000 = Some 1395"
    and "get_amount_out 2000 5000000 7000000 997 1000 = Some 2790"
    by (simp_all add: get_amount_out_def fits_u128_def pdiv_def Let_def)
  then show ?thesis
    using v2_quote_monotone [of 5000000 7000000 1000 997 1000 2000 1395 2790] by simp
qed

text \<open>
  The fast path's guard does not exclude overflow: with amounts below \<open>2^128\<close> and a
  fee numerator below 10000 the 256-bit product can still wrap, and the quote is then far from the
  exact value. The comment beside the guard adds the bit widths up to at most 256; they add up to
  270.
\<close>

theorem v2_fast_path_can_wrap:
  "fits_u128 (2 ^ 127) (2 ^ 127) (2 ^ 127) \<and>
   get_amount_out (2 ^ 127) (2 ^ 127) (2 ^ 127) 9970 10000
     = Some 17039677862841184950594622305045979 \<and>
   exact_quote (2 ^ 127) (2 ^ 127) (2 ^ 127) 9970 10000
     = 84942794146263306978714192190654208017"
  by (simp add: fits_u128_def get_amount_out_def exact_quote_def pdiv_def Let_def)

end
