(* ===== verification/BoundedLoop.thy ===== *)
theory BoundedLoop
  imports Main
begin

text \<open>
  The counted loops of the program, \<open>for _ in 0..N { ... }\<close> with an early exit. One iteration
  either leaves the loop with a result or continues with a new state; a loop that runs out of
  iterations falls through to the code after it. Two locales carry the reasoning: an invariant that
  every iteration keeps, and a rank that every continued iteration lowers, which shows that the
  iteration cap does not cut the loop short.
\<close>

datatype ('s, 'r) iteration = Break 'r | Continue 's

primrec for_loop :: "nat \<Rightarrow> ('s \<Rightarrow> ('s, 'r) iteration) \<Rightarrow> ('s \<Rightarrow> 'r) \<Rightarrow> 's \<Rightarrow> 'r" where
  "for_loop 0 body after_loop s = after_loop s"
| "for_loop (Suc n) body after_loop s =
     (case body s of Break r \<Rightarrow> r | Continue s' \<Rightarrow> for_loop n body after_loop s')"

lemma for_loop_first: "body s = Break r \<Longrightarrow> 0 < n \<Longrightarrow> for_loop n body after_loop s = r"
  by (cases n) simp_all

locale loop_invariant =
  fixes body :: "'s \<Rightarrow> ('s, 'r) iteration" and after_loop :: "'s \<Rightarrow> 'r"
    and inv :: "'s \<Rightarrow> bool" and post :: "'r \<Rightarrow> bool"
  assumes break_post: "inv s \<Longrightarrow> body s = Break r \<Longrightarrow> post r"
    and continue_inv: "inv s \<Longrightarrow> body s = Continue s' \<Longrightarrow> inv s'"
    and after_post: "inv s \<Longrightarrow> post (after_loop s)"
begin

lemma for_loop_post: "inv s \<Longrightarrow> post (for_loop n body after_loop s)"
  by (induction n arbitrary: s)
    (auto simp: after_post dest: break_post continue_inv split: iteration.split)

end

locale ranked_loop = loop_invariant +
  fixes rank :: "'s \<Rightarrow> nat"
  assumes continue_rank: "inv s \<Longrightarrow> body s = Continue s' \<Longrightarrow> rank s' < rank s"
begin

lemma for_loop_cap_irrelevant:
  assumes "inv s" and "rank s < n" and "rank s < m"
  shows "for_loop n body after_loop s = for_loop m body after_loop s"
  using assms
proof (induction n arbitrary: m s)
  case (Suc n)
  then obtain k where m: "m = Suc k" by (cases m) auto
  show ?case
  proof (cases "body s")
    case (Continue s')
    then have "for_loop n body after_loop s' = for_loop k body after_loop s'"
      using Suc.prems m continue_rank [OF Suc.prems(1) Continue] continue_inv [OF Suc.prems(1) Continue]
      by (intro Suc.IH) linarith+
    with Continue m show ?thesis by simp
  qed (simp add: m)
qed simp

lemma for_loop_breaks:
  assumes "inv s" and "rank s < n"
  shows "\<exists>s'. inv s' \<and> body s' = Break (for_loop n body after_loop s)"
  using assms
proof (induction n arbitrary: s)
  case (Suc n)
  show ?case
  proof (cases "body s")
    case (Continue s')
    then have "\<exists>t. inv t \<and> body t = Break (for_loop n body after_loop s')"
      using Suc.prems continue_rank [OF Suc.prems(1) Continue] continue_inv [OF Suc.prems(1) Continue]
      by (intro Suc.IH) linarith+
    with Continue show ?thesis by simp
  qed (use Suc.prems in auto)
qed simp

end

end
