(* ===== verification/TickMath.thy ===== *)
theory TickMath
  imports Prelude
begin

text \<open>
  Ticks and square-root prices: \<open>src/core/math/tick_math.rs\<close>. \<open>get_sqrt_ratio_at_tick\<close>
  multiplies precomputed Q128 factors for the set bits of the tick's magnitude;
  \<open>get_tick_at_sqrt_ratio_in_range\<close> inverts it by bisection. The theory proves that the ratio is
  strictly increasing over the whole tick range, hence that the bisection is exact.
\<close>

section \<open>The code\<close>

definition MIN_TICK :: int where "MIN_TICK = - 887272"
definition MAX_TICK :: int where "MAX_TICK = 887272"

text \<open>\<open>U256::from_limbs\<close>: little-endian 64-bit limbs.\<close>

definition from_limbs :: "u256 \<Rightarrow> u256 \<Rightarrow> u256 \<Rightarrow> u256 \<Rightarrow> u256" where
  "from_limbs l0 l1 l2 l3 = l0 + push_bit 64 l1 + push_bit 128 l2 + push_bit 192 l3"

definition MIN_SQRT_RATIO :: u256 where "MIN_SQRT_RATIO = from_limbs 4295128739 0 0 0"
definition MAX_SQRT_RATIO :: u256 where
  "MAX_SQRT_RATIO = from_limbs 6743328256752651558 17280870778742802505 4294805859 0"
definition MAX_SQRT_RATIO_EXCLUSIVE :: u256 where
  "MAX_SQRT_RATIO_EXCLUSIVE = from_limbs 6743328256752651557 17280870778742802505 4294805859 0"
definition LOW_32_MASK :: u256 where "LOW_32_MASK = from_limbs 4294967295 0 0 0"

definition normalize_tick_search_bounds :: "int \<Rightarrow> int \<Rightarrow> int \<times> int" where
  "normalize_tick_search_bounds min_tick max_tick =
     (let lo = max MIN_TICK (min min_tick max_tick);
          hi = min MAX_TICK (max max_tick min_tick)
      in (lo, hi))"

definition mul_shift :: "u256 \<Rightarrow> u256 \<Rightarrow> u256" where
  "mul_shift r m = drop_bit 128 (r * m)"

text \<open>
  The factor of each bit of the magnitude, lowest bit first: the constants \<open>TICK_FFFCB933BD\<close> to
  \<open>TICK_48A170391F\<close> of the source with the bit mask they belong to.
\<close>

definition TICK_FFFCB933BD :: u256 where
  "TICK_FFFCB933BD = from_limbs 12262481743371124737 18445821805675392311 0 0"
definition TICK_1000000000 :: u256 where "TICK_1000000000 = from_limbs 0 0 1 0"

definition TICK_STEPS :: "(u32 \<times> u256) list" where
  "TICK_STEPS =
    [(2, from_limbs 6459403834229662010 18444899583751176498 0 0),
     (4, from_limbs 17226890335427755468 18443055278223354162 0 0),
     (8, from_limbs 2032852871939366096 18439367220385604838 0 0),
     (16, from_limbs 14545316742740207172 18431993317065449817 0 0),
     (32, from_limbs 5129152022828963008 18417254355718160513 0 0),
     (64, from_limbs 4894419605888772193 18387811781193591352 0 0),
     (128, from_limbs 1280255884321894483 18329067761203520168 0 0),
     (256, from_limbs 15924666964335305636 18212142134806087854 0 0),
     (512, from_limbs 8010504389359918676 17980523815641551639 0 0),
     (1024, from_limbs 10668036004952895731 17526086738831147013 0 0),
     (2048, from_limbs 4878133418470705625 16651378430235024244 0 0),
     (4096, from_limbs 9537173718739605541 15030750278693429944 0 0),
     (8192, from_limbs 9972618978014552549 12247334978882834399 0 0),
     (16384, from_limbs 10428997489610666743 8131365268884726200 0 0),
     (32768, from_limbs 9305304367709015974 3584323654723342297 0 0),
     (65536, from_limbs 14301143598189091785 696457651847595233 0 0),
     (131072, from_limbs 7393154844743099908 26294789957452057 0 0),
     (262144, from_limbs 2209338891292245656 37481735321082 0 0),
     (524288, from_limbs 10518117631919034274 76158723 0 0)]"

text \<open>The nineteen conditional multiplications, in the source's order.\<close>

fun tick_steps :: "u32 \<Rightarrow> (u32 \<times> u256) list \<Rightarrow> u256 \<Rightarrow> u256" where
  "tick_steps abs_tick [] ratio = ratio"
| "tick_steps abs_tick ((msk, factor) # steps) ratio =
     tick_steps abs_tick steps (if abs_tick AND msk \<noteq> 0 then mul_shift ratio factor else ratio)"

definition get_sqrt_ratio_at_tick :: "int \<Rightarrow> u256 option" where
  "get_sqrt_ratio_at_tick tick =
     (if \<not> (MIN_TICK \<le> tick \<and> tick \<le> MAX_TICK) then None
      else
        let abs_tick = (of_int \<bar>tick\<bar> :: u32);
            ratio = (if abs_tick AND 1 \<noteq> 0 then TICK_FFFCB933BD else TICK_1000000000);
            ratio = tick_steps abs_tick TICK_STEPS ratio;
            ratio = (if tick > 0 then (- 1) div ratio else ratio);
            shifted = drop_bit 32 ratio
        in Some (if ratio AND LOW_32_MASK = 0 then shifted else shifted + 1))"

text \<open>\<open>i32::midpoint\<close> rounds towards zero.\<close>

definition midpoint :: "int \<Rightarrow> int \<Rightarrow> int" where
  "midpoint a b = (if a + b < 0 then - ((- (a + b)) div 2) else (a + b) div 2)"

lemma midpoint_between: "a \<le> b \<Longrightarrow> a \<le> midpoint a b \<and> midpoint a b \<le> b"
  by (simp add: midpoint_def) arith

function tick_search :: "u256 \<Rightarrow> int \<Rightarrow> int \<Rightarrow> int \<Rightarrow> int option" where
  "tick_search p low high answer =
     (if low \<le> high then
        (let mid = midpoint low high
         in case get_sqrt_ratio_at_tick mid of
              None \<Rightarrow> None
            | Some r \<Rightarrow> if r \<le> p then tick_search p (mid + 1) high mid
                        else tick_search p low (mid - 1) answer)
      else Some answer)"
  by pat_completeness auto
termination
proof (relation "measure (\<lambda>(p, low, high, answer). nat (high + 1 - low))", goal_cases)
  case (2 p low high answer mid r)
  with midpoint_between [of low high] show ?case by simp
next
  case (3 p low high answer mid r)
  with midpoint_between [of low high] show ?case by simp
qed simp

declare tick_search.simps [simp del]

definition get_tick_at_sqrt_ratio_in_range :: "u256 \<Rightarrow> int \<Rightarrow> int \<Rightarrow> int option" where
  "get_tick_at_sqrt_ratio_in_range sqrt_price_x96 min_tick max_tick =
     (if sqrt_price_x96 < MIN_SQRT_RATIO \<or> sqrt_price_x96 \<ge> MAX_SQRT_RATIO then None
      else let (lo, hi) = normalize_tick_search_bounds min_tick max_tick
           in tick_search sqrt_price_x96 lo hi lo)"

section \<open>The multiplication chain over the natural numbers\<close>

text \<open>
  \<open>chain cs n r\<close> multiplies \<open>r\<close> by the Q128 factor of every set bit of \<open>n\<close>, lowest bit
  first, rounding down after each product.
\<close>

fun chain :: "nat list \<Rightarrow> nat \<Rightarrow> nat \<Rightarrow> nat" where
  "chain [] n r = r"
| "chain (c # cs) n r = chain cs (n div 2) (if odd n then r * c div 2 ^ 128 else r)"

definition factors :: "nat list" where
  "factors = unat TICK_FFFCB933BD # map (\<lambda>(m, c). unat c) TICK_STEPS"

lemmas tick_consts = TICK_FFFCB933BD_def TICK_1000000000_def TICK_STEPS_def from_limbs_def

lemma length_factors: "length factors = 20"
  by (simp add: factors_def TICK_STEPS_def)

lemma factors_less: "\<forall>c \<in> set factors. c < 2 ^ 128"
  by (simp add: factors_def tick_consts)

lemma chain_mono: "r \<le> r' \<Longrightarrow> chain cs n r \<le> chain cs n r'"
proof (induction cs arbitrary: n r r')
  case (Cons c cs)
  have "r * c div 2 ^ 128 \<le> r' * c div 2 ^ 128"
    using Cons.prems by (intro div_le_mono mult_le_mono1)
  with Cons show ?case by simp
qed simp

lemma chain_le: "\<forall>c \<in> set cs. c < 2 ^ 128 \<Longrightarrow> chain cs n r \<le> r"
proof (induction cs arbitrary: n r)
  case (Cons c cs)
  have "r * c div 2 ^ 128 \<le> r" using Cons.prems by (intro mul_div_le_self) simp
  then show ?case
    using Cons.IH [of "n div 2" "r * c div 2 ^ 128"] Cons.IH [of "n div 2" r] Cons.prems
    by (auto intro: order_trans)
qed simp

text \<open>
  Two neighbouring magnitudes \<open>n\<close> and \<open>n + 1\<close> share their high bits; below, \<open>n\<close> ends in ones
  where \<open>n + 1\<close> ends in zeros. \<open>gap_ok\<close> compares the two partial products at each possible
  place of the first differing zero, with a relative gap of \<open>K\<close> parts in a million.
\<close>

fun gap_ok :: "nat \<Rightarrow> nat list \<Rightarrow> nat \<Rightarrow> nat \<Rightarrow> bool" where
  "gap_ok K [] a b = True"
| "gap_ok K (c # cs) a b =
     ((b * c div 2 ^ 128) * (1000000 + K) \<le> a * 1000000 \<and> gap_ok K cs (a * c div 2 ^ 128) b)"

lemma gap_ok_factors: "gap_ok 40 factors (2 ^ 128) (2 ^ 128)"
  by (simp add: factors_def tick_consts)

text \<open>Multiplying by the same further factors costs at most one part in a million per factor.\<close>

lemma gap_step:
  assumes gap: "b * (1000000 + Suc K) \<le> a * 1000000" and big: "1000000 \<le> b * c div 2 ^ 128"
  shows "(b * c div 2 ^ 128) * (1000000 + K) \<le> (a * c div 2 ^ 128) * 1000000"
proof -
  define B where "B = b * c div 2 ^ 128"
  define A where "A = a * c div 2 ^ 128"
  have "B * 2 ^ 128 \<le> b * c" by (simp add: B_def)
  then have "B * 2 ^ 128 * (1000000 + Suc K) \<le> b * c * (1000000 + Suc K)" by (rule mult_le_mono1)
  also have "\<dots> \<le> a * c * 1000000"
    using mult_le_mono1 [OF gap, of c] by (simp add: ac_simps)
  also have "\<dots> \<le> (A * 2 ^ 128 + 2 ^ 128) * 1000000"
  proof (rule mult_le_mono1)
    have "a * c = A * 2 ^ 128 + a * c mod 2 ^ 128" by (simp add: A_def)
    moreover have "a * c mod 2 ^ 128 < 2 ^ 128" by simp
    ultimately show "a * c \<le> A * 2 ^ 128 + 2 ^ 128" by linarith
  qed
  finally have "2 ^ 128 * (B * (1000000 + Suc K)) \<le> 2 ^ 128 * (A * 1000000 + 1000000)"
    by (simp only: algebra_simps)
  then have "B * (1000000 + Suc K) \<le> A * 1000000 + 1000000"
    by (simp only: nat_mult_le_cancel_disj) simp
  then have "B * (1000000 + K) + B \<le> A * 1000000 + 1000000"
    by (simp add: add_mult_distrib2)
  with big show ?thesis by (simp add: A_def B_def)
qed

lemma gap_chain:
  assumes "b * (1000000 + (K + length cs)) \<le> a * 1000000" and "1000000 \<le> chain cs n b"
    and "\<forall>c \<in> set cs. c < 2 ^ 128"
  shows "chain cs n b * (1000000 + K) \<le> chain cs n a * 1000000"
  using assms
proof (induction cs arbitrary: a b n)
  case (Cons c cs)
  let ?b = "if odd n then b * c div 2 ^ 128 else b"
  let ?a = "if odd n then a * c div 2 ^ 128 else a"
  have "1000000 \<le> ?b"
    using Cons.prems(2,3) chain_le [of cs "n div 2" ?b] by simp
  moreover have "b * (1000000 + (K + length cs)) \<le> a * 1000000"
    by (rule order_trans [OF mult_le_mono2 Cons.prems(1)]) simp
  ultimately have "?b * (1000000 + (K + length cs)) \<le> ?a * 1000000"
    using Cons.prems(1) gap_step [of b "K + length cs" a c] by auto
  then show ?case
    using Cons.IH [of ?b ?a "n div 2"] Cons.prems(2,3) by simp
qed simp

lemma chain_Suc_gap:
  assumes "gap_ok (K + length cs) cs a b" and "Suc n < 2 ^ length cs"
    and "1000000 \<le> chain cs (Suc n) b" and "\<forall>c \<in> set cs. c < 2 ^ 128"
  shows "chain cs (Suc n) b * (1000000 + K) \<le> chain cs n a * 1000000"
  using assms
proof (induction cs arbitrary: K a n)
  case (Cons c cs)
  show ?case
  proof (cases "even n")
    case True
    let ?b = "b * c div 2 ^ 128"
    have gap: "?b * (1000000 + (Suc K + length cs)) \<le> a * 1000000"
      using Cons.prems(1) by simp
    have big: "1000000 \<le> chain cs (n div 2) ?b"
      using Cons.prems(3) True by simp
    have "chain cs (n div 2) ?b * (1000000 + Suc K) \<le> chain cs (n div 2) a * 1000000"
      using Cons.prems(4) by (intro gap_chain gap big) simp
    then show ?thesis using True by (simp add: add_mult_distrib2)
  next
    case False
    let ?m = "n div 2"
    have m: "Suc n div 2 = Suc ?m" using False by (auto elim!: oddE)
    have "gap_ok (Suc K + length cs) cs (a * c div 2 ^ 128) b"
      using Cons.prems(1) by simp
    moreover have "Suc ?m < 2 ^ length cs"
      using Cons.prems(2) unfolding m [symmetric] by (intro less_mult_imp_div_less) simp
    moreover have "1000000 \<le> chain cs (Suc ?m) b"
      using Cons.prems(3) False by (simp add: m)
    ultimately have
      "chain cs (Suc ?m) b * (1000000 + Suc K) \<le> chain cs ?m (a * c div 2 ^ 128) * 1000000"
      using Cons.prems(4) by (intro Cons.IH) simp_all
    then show ?thesis using False m by (simp add: add_mult_distrib2)
  qed
qed simp

section \<open>The code computes the chain\<close>

lemma unat_mul_shift:
  assumes "unat r \<le> 2 ^ 128" and "unat m < 2 ^ 128"
  shows "unat (mul_shift r m) = unat r * unat m div 2 ^ 128"
proof -
  have "unat r * unat m \<le> 2 ^ 128 * (2 ^ 128 - 1)"
    using assms by (intro mult_le_mono) auto
  then have "unat (r * m) = unat r * unat m"
    by (simp add: unat_mult_nowrap)
  then show ?thesis
    by (simp only: mul_shift_def unat_drop_bit_eq drop_bit_eq_div [where 'a = nat])
qed

fun masks_from :: "nat \<Rightarrow> (u32 \<times> u256) list \<Rightarrow> bool" where
  "masks_from k [] = True"
| "masks_from k ((m, c) # steps) = (m = 2 ^ k \<and> unat c < 2 ^ 128 \<and> masks_from (Suc k) steps)"

lemma masks_TICK_STEPS: "masks_from 1 TICK_STEPS"
  by (simp add: tick_consts)

lemma mask_bit_iff: "n AND 2 ^ k \<noteq> 0 \<longleftrightarrow> odd (unat n div 2 ^ k)" for n :: "'a::len word"
proof -
  have "n AND 2 ^ k \<noteq> 0 \<longleftrightarrow> bit n k" by (simp add: and_exp_eq_0_iff_not_bit)
  also have "\<dots> \<longleftrightarrow> bit (unat n) k" by (simp add: bit_unsigned_iff)
  finally show ?thesis by (simp add: bit_iff_odd)
qed

lemma unat_tick_steps:
  assumes "masks_from k steps" and "unat r \<le> 2 ^ 128"
  shows "unat (tick_steps n steps r) = chain (map (\<lambda>(m, c). unat c) steps) (unat n div 2 ^ k) (unat r)"
  using assms
proof (induction steps arbitrary: k r)
  case (Cons s steps)
  obtain m c where s: "s = (m, c)" by (cases s)
  let ?r = "if odd (unat n div 2 ^ k) then mul_shift r c else r"
  have c: "m = 2 ^ k" "unat c < 2 ^ 128" "masks_from (Suc k) steps"
    using Cons.prems(1) s by auto
  have r: "unat ?r = (if odd (unat n div 2 ^ k) then unat r * unat c div 2 ^ 128 else unat r)"
    using unat_mul_shift Cons.prems(2) c(2) by simp
  have "unat r * unat c div 2 ^ 128 \<le> unat r" using c(2) by (intro mul_div_le_self) simp
  then have "unat ?r \<le> 2 ^ 128" using r Cons.prems(2) by (simp split: if_splits)
  then have "unat (tick_steps n steps ?r) =
      chain (map (\<lambda>(m, c). unat c) steps) (unat n div 2 ^ Suc k) (unat ?r)"
    using Cons.IH c(3) by blast
  moreover have "unat n div 2 ^ k div 2 = unat n div 2 ^ Suc k"
    by (simp only: div_mult2_eq [symmetric] power_Suc2)
  ultimately show ?case
    by (simp only: s c(1) tick_steps.simps mask_bit_iff list.map prod.case chain.simps r)
qed simp

definition raw_ratio :: "nat \<Rightarrow> nat" where
  "raw_ratio n = chain factors n (2 ^ 128)"

lemma unat_raw_ratio:
  "unat (tick_steps n TICK_STEPS (if n AND 1 \<noteq> 0 then TICK_FFFCB933BD else TICK_1000000000))
     = raw_ratio (unat n)"
proof -
  let ?r = "if n AND 1 \<noteq> 0 then TICK_FFFCB933BD else TICK_1000000000"
  have "unat ?r \<le> 2 ^ 128" by (simp add: tick_consts)
  then have "unat (tick_steps n TICK_STEPS ?r) =
      chain (map (\<lambda>(m, c). unat c) TICK_STEPS) (unat n div 2) (unat ?r)"
    using unat_tick_steps [OF masks_TICK_STEPS] by simp
  moreover have "unat ?r = (if odd (unat n) then 2 ^ 128 * unat TICK_FFFCB933BD div 2 ^ 128 else 2 ^ 128)"
    using mask_bit_iff [of n 0] by (simp add: tick_consts)
  ultimately show ?thesis
    by (simp add: raw_ratio_def factors_def)
qed

section \<open>Strict monotonicity\<close>

lemma raw_ratio_MAX: "raw_ratio 887272 = 18447437462383981825"
  by (simp add: raw_ratio_def factors_def tick_consts)

text \<open>The magnitudes are walked down from the largest, carrying the lower bound along.\<close>

lemma raw_ratio_gap_and_bound:
  "n \<le> 887272 \<Longrightarrow> 18447437462383981825 \<le> raw_ratio n \<and>
    (n < 887272 \<longrightarrow> raw_ratio (Suc n) * 1000020 \<le> raw_ratio n * 1000000)"
proof (induction n rule: inc_induct)
  case base
  show ?case by (simp add: raw_ratio_MAX)
next
  case (step n)
  have big: "18447437462383981825 \<le> raw_ratio (Suc n)" using step by simp
  have "raw_ratio (Suc n) * (1000000 + 20) \<le> raw_ratio n * 1000000"
    unfolding raw_ratio_def
  proof (rule chain_Suc_gap)
    show "gap_ok (20 + length factors) factors (2 ^ 128) (2 ^ 128)"
      using gap_ok_factors by (simp add: length_factors)
    show "Suc n < 2 ^ length factors" using step by (simp add: length_factors)
    show "1000000 \<le> chain factors (Suc n) (2 ^ 128)"
      using big by (simp add: raw_ratio_def)
  qed (rule factors_less)
  with big step show ?case by simp
qed

lemmas raw_ratio_ge = raw_ratio_gap_and_bound [THEN conjunct1]

lemma raw_ratio_gap: "n < 887272 \<Longrightarrow> raw_ratio (Suc n) * 1000020 \<le> raw_ratio n * 1000000"
  using raw_ratio_gap_and_bound [of n] by simp

lemma raw_ratio_le: "raw_ratio n \<le> 2 ^ 128"
  unfolding raw_ratio_def by (rule chain_le) (rule factors_less)

text \<open>The Q96 price of a tick over the natural numbers: the raw ratio or its inverse, rounded up.\<close>

definition sqrt_ratio_nat :: "int \<Rightarrow> nat" where
  "sqrt_ratio_nat t =
     ceil_div (if t > 0 then (2 ^ 256 - 1) div raw_ratio (nat t) else raw_ratio (nat (- t))) (2 ^ 32)"

lemma ceil_div_strict:
  assumes "0 < d" and "a + d \<le> b" shows "ceil_div a d < ceil_div b d"
proof -
  have "ceil_div a d * d < a + d" and "b \<le> ceil_div b d * d"
    using ceil_div_bounds assms(1) by simp_all
  then have "ceil_div a d * d < ceil_div b d * d" using assms(2) by linarith
  then show ?thesis by simp
qed

lemma inverse_gap:
  assumes "r' * 1000020 \<le> r * 1000000" and "r \<le> 2 ^ 128" and "0 < r'"
  shows "(2 ^ 256 - 1) div r + 2 ^ 32 \<le> (2 ^ 256 - 1 :: nat) div r'"
proof -
  let ?M = "2 ^ 256 - 1 :: nat" and ?q = "(2 ^ 256 - 1) div r"
  have "(?q + 2 ^ 32) * (r' * 1000020) \<le> (?q + 2 ^ 32) * (r * 1000000)"
    using assms(1) by (rule mult_le_mono2)
  also have "\<dots> = (?q * r) * 1000000 + 2 ^ 32 * 1000000 * r"
    by (simp only: algebra_simps)
  also have "\<dots> \<le> ?M * 1000000 + 2 ^ 32 * 1000000 * 2 ^ 128"
    using assms(2) by (intro add_mono mult_le_mono1 mult_le_mono2 div_times_less_eq_dividend)
  also have "\<dots> \<le> ?M * 1000020" by simp
  finally have "(?q + 2 ^ 32) * r' \<le> ?M"
    by (simp only: mult.assoc [symmetric] mult_le_cancel2)
  then show ?thesis
    using assms(3) by (simp only: less_eq_div_iff_mult_less_eq)
qed

lemma sqrt_ratio_nat_nonneg:
  "0 \<le> t \<Longrightarrow> sqrt_ratio_nat t = ceil_div ((2 ^ 256 - 1) div raw_ratio (nat t)) (2 ^ 32)"
proof (cases "t = 0")
  case True
  have "raw_ratio 0 = 2 ^ 128" by (simp add: raw_ratio_def factors_def TICK_STEPS_def)
  with True show ?thesis by (simp add: sqrt_ratio_nat_def ceil_div_def)
qed (simp add: sqrt_ratio_nat_def)

lemma sqrt_ratio_nat_Suc:
  assumes "MIN_TICK \<le> t" and "t < MAX_TICK"
  shows "sqrt_ratio_nat t < sqrt_ratio_nat (t + 1)"
proof (cases "0 \<le> t")
  case True
  let ?n = "nat t"
  have n: "?n < 887272" "nat (t + 1) = Suc ?n" using True assms(2) by (auto simp: MAX_TICK_def)
  have "0 < raw_ratio (Suc ?n)" using raw_ratio_ge [of "Suc ?n"] n by simp
  then have "(2 ^ 256 - 1) div raw_ratio ?n + 2 ^ 32 \<le> (2 ^ 256 - 1) div raw_ratio (Suc ?n)"
    by (intro inverse_gap raw_ratio_gap raw_ratio_le n)
  then show ?thesis
    using True n(2) by (simp only: sqrt_ratio_nat_nonneg) (rule ceil_div_strict, simp_all)
next
  case False
  let ?n = "nat (- t - 1)"
  have n: "?n < 887272" "nat (- t) = Suc ?n" "nat (- (t + 1)) = ?n"
    using False assms(1) by (auto simp: MIN_TICK_def)
  have "raw_ratio (Suc ?n) + 2 ^ 32 \<le> raw_ratio ?n"
    using raw_ratio_gap [OF n(1)] raw_ratio_ge [of "Suc ?n"] n(1) by simp
  then show ?thesis
    using False n(2,3) unfolding sqrt_ratio_nat_def
    by (simp only: not_le if_not_P linorder_not_less) (rule ceil_div_strict, simp_all)
qed

lemma sqrt_ratio_nat_strict_mono:
  assumes "MIN_TICK \<le> t" and "t' \<le> MAX_TICK" and "t < t'"
  shows "sqrt_ratio_nat t < sqrt_ratio_nat t'"
  using assms(3,2)
proof (induction t' rule: int_gr_induct)
  case base
  then show ?case using assms(1) by (intro sqrt_ratio_nat_Suc) simp_all
next
  case (step i)
  then have "sqrt_ratio_nat t < sqrt_ratio_nat i" by simp
  also have "\<dots> < sqrt_ratio_nat (i + 1)"
    using step assms(1) by (intro sqrt_ratio_nat_Suc) simp_all
  finally show ?case .
qed

lemma round_up_32:
  "unat (if r AND LOW_32_MASK = 0 then drop_bit 32 r else drop_bit 32 r + 1) = ceil_div (unat r) (2 ^ 32)"
  for r :: u256
proof -
  have "LOW_32_MASK = mask 32" by (simp add: LOW_32_MASK_def from_limbs_def mask_eq_exp_minus_1)
  then have "r AND LOW_32_MASK = take_bit 32 r" by (simp add: take_bit_eq_mask)
  moreover have "take_bit 32 r = 0 \<longleftrightarrow> unat r mod 2 ^ 32 = 0"
    by (metis unat_eq_zero unsigned_take_bit_eq take_bit_eq_mod)
  moreover have sh: "unat (drop_bit 32 r) = unat r div 2 ^ 32"
    by (simp only: unat_drop_bit_eq drop_bit_eq_div [where 'a = nat])
  moreover have "unat (drop_bit 32 r + 1) = unat r div 2 ^ 32 + 1"
    using unat_lt_256 [of r] by (subst unat_add_nowrap) (simp_all only: sh, simp_all)
  ultimately show ?thesis by (simp add: ceil_div_def)
qed

lemma get_sqrt_ratio_at_tick_nat:
  assumes "MIN_TICK \<le> t" and "t \<le> MAX_TICK"
  shows "\<exists>r. get_sqrt_ratio_at_tick t = Some r \<and> unat r = sqrt_ratio_nat t"
proof -
  define a where "a = (of_int \<bar>t\<bar> :: u32)"
  define raw where
    "raw = tick_steps a TICK_STEPS (if a AND 1 \<noteq> 0 then TICK_FFFCB933BD else TICK_1000000000)"
  define r where "r = (if t > 0 then (- 1) div raw else raw)"
  have "unat a = nat \<bar>t\<bar>"
    using assms
    by (simp add: a_def MIN_TICK_def MAX_TICK_def unsigned_of_int nat_take_bit_eq take_bit_nat_eq_self)
  then have "unat raw = raw_ratio (nat \<bar>t\<bar>)" by (simp only: raw_def unat_raw_ratio)
  then have "unat r = (if t > 0 then (2 ^ 256 - 1) div raw_ratio (nat t) else raw_ratio (nat (- t)))"
    by (simp add: r_def unat_div_word unat_max_word)
  then have "unat (if r AND LOW_32_MASK = 0 then drop_bit 32 r else drop_bit 32 r + 1) = sqrt_ratio_nat t"
    by (simp only: round_up_32 sqrt_ratio_nat_def)
  moreover have "get_sqrt_ratio_at_tick t =
      Some (if r AND LOW_32_MASK = 0 then drop_bit 32 r else drop_bit 32 r + 1)"
    using assms by (simp only: get_sqrt_ratio_at_tick_def Let_def a_def raw_def r_def) simp
  ultimately show ?thesis by blast
qed

lemma get_sqrt_ratio_at_tick_iff:
  "get_sqrt_ratio_at_tick t = Some r \<longleftrightarrow> MIN_TICK \<le> t \<and> t \<le> MAX_TICK \<and> unat r = sqrt_ratio_nat t"
proof (cases "MIN_TICK \<le> t \<and> t \<le> MAX_TICK")
  case True
  then obtain r' where "get_sqrt_ratio_at_tick t = Some r'" and "unat r' = sqrt_ratio_nat t"
    using get_sqrt_ratio_at_tick_nat by blast
  with True show ?thesis by (auto intro: word_unat_eqI)
qed (auto simp: get_sqrt_ratio_at_tick_def)

section \<open>The bisection\<close>

text \<open>
  \<open>splits p lo hi l\<close>: the prices of \<open>[lo, hi]\<close> that are at most \<open>p\<close> are exactly those of the
  ticks below \<open>l\<close>.
\<close>

definition splits :: "u256 \<Rightarrow> int \<Rightarrow> int \<Rightarrow> int \<Rightarrow> bool" where
  "splits p lo hi l \<longleftrightarrow> lo \<le> l \<and> l \<le> hi + 1 \<and>
     (\<forall>t. lo \<le> t \<and> t \<le> hi \<longrightarrow> (sqrt_ratio_nat t \<le> unat p \<longleftrightarrow> t < l))"

lemma sqrt_ratio_nat_mono:
  "MIN_TICK \<le> t \<Longrightarrow> t' \<le> MAX_TICK \<Longrightarrow> t \<le> t' \<Longrightarrow> sqrt_ratio_nat t \<le> sqrt_ratio_nat t'"
  using sqrt_ratio_nat_strict_mono [of t t'] by (cases "t = t'") auto

lemma tick_search_splits:
  assumes "MIN_TICK \<le> lo" and "hi \<le> MAX_TICK"
    and "lo \<le> low" and "high \<le> hi" and "low \<le> high + 1" and "answer = max lo (low - 1)"
    and "\<And>t. lo \<le> t \<Longrightarrow> t < low \<Longrightarrow> sqrt_ratio_nat t \<le> unat p"
    and "\<And>t. high < t \<Longrightarrow> t \<le> hi \<Longrightarrow> unat p < sqrt_ratio_nat t"
  shows "\<exists>l. tick_search p low high answer = Some (max lo (l - 1)) \<and> splits p lo hi l"
  using assms(3-)
proof (induction p low high answer rule: tick_search.induct)
  case (1 p low high answer)
  show ?case
  proof (cases "low \<le> high")
    case False
    with 1 have "low = high + 1" and "splits p lo hi low"
      by (fastforce simp: splits_def not_le [symmetric])+
    with False 1 show ?thesis
      by (intro exI [of _ low]) (simp add: tick_search.simps)
  next
    case True
    define mid where "mid = midpoint low high"
    have mid: "low \<le> mid" "mid \<le> high" using midpoint_between [OF True] by (simp_all add: mid_def)
    have rng: "MIN_TICK \<le> mid" "mid \<le> MAX_TICK" using mid 1 assms(1,2) by simp_all
    then obtain r where r: "get_sqrt_ratio_at_tick mid = Some r" "unat r = sqrt_ratio_nat mid"
      using get_sqrt_ratio_at_tick_nat by blast
    show ?thesis
    proof (cases "r \<le> p")
      case le: True
      have "sqrt_ratio_nat t \<le> unat p" if "lo \<le> t" "t < mid + 1" for t
        using sqrt_ratio_nat_mono [of t mid] that rng assms(1) le r(2) by (simp add: word_le_nat_alt)
      then have "\<exists>l. tick_search p (mid + 1) high mid = Some (max lo (l - 1)) \<and> splits p lo hi l"
        using 1 True mid le r(1) by (intro "1.IH"(1) [OF True mid_def r(1) le]) auto
      with True le r(1) show ?thesis
        by (simp add: tick_search.simps [of p low] Let_def flip: mid_def)
    next
      case gt: False
      have "unat p < sqrt_ratio_nat t" if "mid - 1 < t" "t \<le> hi" for t
        using sqrt_ratio_nat_mono [of mid t] that rng assms(2) gt r(2) by (simp add: word_le_nat_alt)
      then have "\<exists>l. tick_search p low (mid - 1) answer = Some (max lo (l - 1)) \<and> splits p lo hi l"
        using 1 True mid by (intro "1.IH"(2) [OF True mid_def r(1) gt]) auto
      with True gt r(1) show ?thesis
        by (simp add: tick_search.simps [of p low] Let_def flip: mid_def)
    qed
  qed
qed

lemma get_tick_splits:
  assumes "MIN_SQRT_RATIO \<le> p" and "p < MAX_SQRT_RATIO"
    and "normalize_tick_search_bounds min_tick max_tick = (lo, hi)" and "lo \<le> hi + 1"
  shows "\<exists>l. get_tick_at_sqrt_ratio_in_range p min_tick max_tick = Some (max lo (l - 1)) \<and>
    splits p lo hi l"
proof -
  have "MIN_TICK \<le> lo" and "hi \<le> MAX_TICK"
    using assms(3) by (auto simp: normalize_tick_search_bounds_def Let_def)
  then have "\<exists>l. tick_search p lo hi lo = Some (max lo (l - 1)) \<and> splits p lo hi l"
    using assms(4) by (intro tick_search_splits) auto
  then show ?thesis
    using assms(1-3) by (simp add: get_tick_at_sqrt_ratio_in_range_def not_less not_le)
qed

lemma normalize_full: "normalize_tick_search_bounds MIN_TICK MAX_TICK = (MIN_TICK, MAX_TICK)"
  by (simp add: normalize_tick_search_bounds_def MIN_TICK_def MAX_TICK_def)

lemma sqrt_ratio_nat_ends:
  "sqrt_ratio_nat MIN_TICK = unat MIN_SQRT_RATIO" "sqrt_ratio_nat MAX_TICK = unat MAX_SQRT_RATIO"
  by (simp_all add: sqrt_ratio_nat_def MIN_TICK_def MAX_TICK_def raw_ratio_MAX ceil_div_def
      MIN_SQRT_RATIO_def MAX_SQRT_RATIO_def from_limbs_def)

section \<open>Properties\<close>

text \<open>
  The square-root price is defined on every tick of the protocol's range, is strictly
  increasing in the tick, and its two end values are the constants \<open>MIN_SQRT_RATIO\<close> and
  \<open>MAX_SQRT_RATIO\<close> the swap code compares prices with.
\<close>

theorem tick_ratio_strictly_increasing:
  assumes "MIN_TICK \<le> t" and "t < t'" and "t' \<le> MAX_TICK"
  shows "\<exists>r r'. get_sqrt_ratio_at_tick t = Some r \<and> get_sqrt_ratio_at_tick t' = Some r' \<and>
    MIN_SQRT_RATIO \<le> r \<and> r < r' \<and> r' \<le> MAX_SQRT_RATIO \<and>
    (t = MIN_TICK \<longrightarrow> r = MIN_SQRT_RATIO) \<and> (t' = MAX_TICK \<longrightarrow> r' = MAX_SQRT_RATIO)"
proof -
  obtain r where r: "get_sqrt_ratio_at_tick t = Some r" "unat r = sqrt_ratio_nat t"
    using get_sqrt_ratio_at_tick_nat [of t] assms by auto
  obtain r' where r': "get_sqrt_ratio_at_tick t' = Some r'" "unat r' = sqrt_ratio_nat t'"
    using get_sqrt_ratio_at_tick_nat [of t'] assms by auto
  have "sqrt_ratio_nat MIN_TICK \<le> sqrt_ratio_nat t" and "sqrt_ratio_nat t' \<le> sqrt_ratio_nat MAX_TICK"
    using assms by (auto intro: sqrt_ratio_nat_mono)
  moreover have "sqrt_ratio_nat t < sqrt_ratio_nat t'"
    using assms by (intro sqrt_ratio_nat_strict_mono)
  ultimately show ?thesis
    using r r' sqrt_ratio_nat_ends
    by (auto simp: word_le_nat_alt word_less_nat_alt intro!: word_unat_eqI)
qed

theorem tick_ratio_strictly_increasing_witness:
  "MIN_TICK \<le> 0 \<and> (0 :: int) < 60 \<and> 60 \<le> MAX_TICK \<and>
   (\<exists>r r'. get_sqrt_ratio_at_tick 0 = Some r \<and> get_sqrt_ratio_at_tick 60 = Some r' \<and> r < r')"
  using tick_ratio_strictly_increasing [of 0 60] by (auto simp: MIN_TICK_def MAX_TICK_def)

text \<open>
  Property C6. For every price in the valid band the full-range search succeeds and returns the
  unique tick whose price interval contains it: the greatest tick whose price does not exceed it.
\<close>

theorem tick_search_finds_interval:
  assumes "MIN_SQRT_RATIO \<le> p" and "p < MAX_SQRT_RATIO"
  shows "\<exists>t r r'. get_tick_at_sqrt_ratio_in_range p MIN_TICK MAX_TICK = Some t \<and>
    MIN_TICK \<le> t \<and> t < MAX_TICK \<and>
    get_sqrt_ratio_at_tick t = Some r \<and> get_sqrt_ratio_at_tick (t + 1) = Some r' \<and> r \<le> p \<and> p < r'"
proof -
  obtain l where l: "get_tick_at_sqrt_ratio_in_range p MIN_TICK MAX_TICK = Some (max MIN_TICK (l - 1))"
      and sp: "splits p MIN_TICK MAX_TICK l"
    using get_tick_splits [OF assms normalize_full] by (auto simp: MIN_TICK_def MAX_TICK_def)
  have mm: "MIN_TICK < MAX_TICK" by (simp add: MIN_TICK_def MAX_TICK_def)
  then have "MIN_TICK < l" and "l \<le> MAX_TICK"
    using sp assms sqrt_ratio_nat_ends unfolding splits_def
    by (metis less_imp_le order_refl word_le_nat_alt, metis less_imp_le not_le word_less_nat_alt order_refl)
  moreover obtain r where "get_sqrt_ratio_at_tick (l - 1) = Some r" "unat r = sqrt_ratio_nat (l - 1)"
    using get_sqrt_ratio_at_tick_nat [of "l - 1"] calculation by auto
  moreover obtain r' where "get_sqrt_ratio_at_tick l = Some r'" "unat r' = sqrt_ratio_nat l"
    using get_sqrt_ratio_at_tick_nat [of l] calculation by auto
  moreover have "sqrt_ratio_nat (l - 1) \<le> unat p" and "unat p < sqrt_ratio_nat l"
    using sp calculation(1,2) by (simp_all add: splits_def flip: not_le)
  ultimately show ?thesis
    using l by (intro exI [of _ "l - 1"] exI [of _ r] exI [of _ r'])
       (simp add: word_le_nat_alt word_less_nat_alt)
qed

theorem tick_search_finds_interval_witness:
  "MIN_SQRT_RATIO \<le> 2 ^ 96 \<and> 2 ^ 96 < MAX_SQRT_RATIO \<and>
   (\<exists>t r r'. get_tick_at_sqrt_ratio_in_range (2 ^ 96) MIN_TICK MAX_TICK = Some t \<and>
    get_sqrt_ratio_at_tick t = Some r \<and> get_sqrt_ratio_at_tick (t + 1) = Some r' \<and>
    r \<le> 2 ^ 96 \<and> 2 ^ 96 < r')"
proof -
  have "MIN_SQRT_RATIO \<le> 2 ^ 96" and "2 ^ 96 < MAX_SQRT_RATIO"
    by (simp_all add: MIN_SQRT_RATIO_def MAX_SQRT_RATIO_def from_limbs_def)
  then show ?thesis using tick_search_finds_interval [of "2 ^ 96"] by blast
qed



end
