(* ===== verification/LogExpMath.thy ===== *)
theory LogExpMath
  imports FullMath TickMath
begin

text \<open>
  Natural logarithm, exponential and power in 18-decimal fixed point:
  \<open>src/core/math/log_exp_math.rs\<close> and the helpers of \<open>src/core/math/fixed_point.rs\<close> built on them
  (\<open>edge_log_weight_from_ratio\<close>, which ends in floating point, is not modelled). The operators wrap
  as in the code; a division that could meet a zero divisor is \<open>pdiv\<close>, whose \<^const>\<open>None\<close> is the panic.
\<close>

section \<open>The code\<close>

definition ONE :: u256 where "ONE = from_limbs 1000000000000000000 0 0 0"
definition ONE_U512 :: u512 where "ONE_U512 = 1000000000000000000"
definition MAX_POW_RELATIVE_ERROR :: u256 where "MAX_POW_RELATIVE_ERROR = from_limbs 10000 0 0 0"

definition ONE_20 :: u256 where "ONE_20 = from_limbs 7766279631452241920 5 0 0"
definition ONE_36 :: u256 where "ONE_36 = from_limbs 12919594847110692864 54210108624275221 0 0"
definition MAX_NATURAL_EXPONENT :: u256 where
  "MAX_NATURAL_EXPONENT = from_limbs 15145670503932362752 7047314121155778 0 0"
definition LN_36_LOWER_BOUND :: u256 where "LN_36_LOWER_BOUND = from_limbs 900000000000000000 0 0 0"
definition LN_36_UPPER_BOUND :: u256 where "LN_36_UPPER_BOUND = from_limbs 1100000000000000000 0 0 0"

definition LN_X0 :: u256 where "LN_X0 = from_limbs 0 0 0 128"
definition LN_X1 :: u256 where "LN_X1 = from_limbs 0 0 0 64"
definition LN_A0 :: u256 where
  "LN_A0 = from_limbs 171843153341448192 17670479068478958691 114249481722274167 0"
definition LN_A1 :: u256 where "LN_A1 = from_limbs 17696838799657497472 338008108 0 0"

definition EXP_X0 :: u256 where "EXP_X0 = LN_X0"
definition EXP_X1 :: u256 where "EXP_X1 = LN_X1"
definition EXP_A0 :: u256 where "EXP_A0 = LN_A0"
definition EXP_A1 :: u256 where "EXP_A1 = LN_A1"

definition COMMON_EXP_STEPS :: "(u256 \<times> u256) list" where
  "COMMON_EXP_STEPS =
    [(from_limbs 8713275248247570432 173 0 0, from_limbs 17871857890508685312 428059064879743 0 0),
     (from_limbs 13580009660978561024 86 0 0, from_limbs 12108528782385981184 48171701 0 0),
     (from_limbs 6790004830489280512 43 0 0, from_limbs 14861217100182911056 16159 0 0),
     (from_limbs 12618374452099416064 21 0 0, from_limbs 18025501570106181090 295 0 0),
     (from_limbs 15532559262904483840 10 0 0, from_limbs 1035846944682958083 40 0 0),
     (from_limbs 7766279631452241920 5 0 0, from_limbs 13573765813970800912 14 0 0),
     (from_limbs 13106511852580896768 2 0 0, from_limbs 17298174480336401757 8 0 0),
     (from_limbs 6553255926290448384 1 0 0, from_limbs 17722077226516838711 6 0 0)]"

definition LN_STEPS :: "(u256 \<times> u256) list" where
  "LN_STEPS = COMMON_EXP_STEPS @
    [(from_limbs 12500000000000000000 0 0 0, from_limbs 2634380864425321987 6 0 0),
     (from_limbs 6250000000000000000 0 0 0, from_limbs 14215725523238184876 5 0 0)]"

definition EXP_STEPS :: "(u256 \<times> u256) list" where "EXP_STEPS = COMMON_EXP_STEPS"

text \<open>
  The series loop of both logarithms: \<open>num\<close> runs through the odd powers of \<open>z\<close> in the given scale and
  is added up divided by each odd number.
\<close>

fun ln_series :: "u256 \<Rightarrow> u256 \<Rightarrow> u256 list \<Rightarrow> u256 \<Rightarrow> u256 \<Rightarrow> u256" where
  "ln_series scale z_squared [] num series_sum = series_sum"
| "ln_series scale z_squared (d # ds) num series_sum =
     (let num = (num * z_squared) div scale
      in ln_series scale z_squared ds num (series_sum + num div d))"

definition ln_36 :: "u256 \<Rightarrow> u256 panics" where
  "ln_36 x = (let o36 = ONE_36; x = x * ONE in do {
     z \<leftarrow> pdiv ((x - o36) * o36) (x + o36);
     let z_squared = (z * z) div o36;
     Some (ln_series o36 z_squared [3, 5, 7, 9, 11, 13, 15] z z * 2)
   })"

text \<open>One pass over the table: divide by every factor that fits and add its logarithm.\<close>

fun ln_steps :: "(u256 \<times> u256) list \<Rightarrow> u256 \<Rightarrow> u256 \<Rightarrow> u256 \<times> u256" where
  "ln_steps [] av acc = (av, acc)"
| "ln_steps ((threshold, factor) # steps) av acc =
     (if av \<ge> factor then ln_steps steps ((av * ONE_20) div factor) (acc + threshold)
      else ln_steps steps av acc)"

definition ln_reduced :: "u256 \<Rightarrow> u256 panics" where
  "ln_reduced a =
     (let acc = 0; av = a;
          (av, acc) = (if av \<ge> LN_A0 then (av div LN_A0, acc + LN_X0) else (av, acc));
          (av, acc) = (if av \<ge> LN_A1 then (av div LN_A1, acc + LN_X1) else (av, acc));
          acc = acc * 100; av = av * 100;
          o20 = ONE_20;
          (av, acc) = ln_steps LN_STEPS av acc
      in do {
        z \<leftarrow> pdiv ((av - o20) * o20) (av + o20);
        let z_squared = (z * z) div o20;
        Some ((acc + ln_series o20 z_squared [3, 5, 7, 9, 11] z z * 2) div 100)
      })"

text \<open>
  \<open>ln\<close> calls itself once on the reciprocal of an argument below one; the reciprocal is at least one
  (\<open>reciprocal_ge_ONE\<close>), so the second call takes the other branch.
\<close>

definition ln_fixed :: "u256 \<Rightarrow> u256 panics" where
  "ln_fixed a =
     (if a < ONE then do { r \<leftarrow> pdiv ONE_36 a; l \<leftarrow> ln_reduced r; Some (- l) } else ln_reduced a)"

definition log_exp_ln :: "u256 \<Rightarrow> u256 panics" where
  "log_exp_ln a =
     (if a = 0 \<or> a < ONE then Some 0
      else if a > LN_36_LOWER_BOUND \<and> a < LN_36_UPPER_BOUND then do { l \<leftarrow> ln_36 a; Some (l div ONE) }
      else ln_fixed a)"

fun exp_steps :: "(u256 \<times> u256) list \<Rightarrow> u256 \<Rightarrow> u256 \<Rightarrow> u256 \<times> u256" where
  "exp_steps [] xv product = (xv, product)"
| "exp_steps ((threshold, factor) # steps) xv product =
     (if xv \<ge> threshold then exp_steps steps (xv - threshold) ((product * factor) div ONE_20)
      else exp_steps steps xv product)"

fun exp_series :: "u256 list \<Rightarrow> u256 \<Rightarrow> u256 \<Rightarrow> u256 \<Rightarrow> u256" where
  "exp_series [] xv term series_sum = series_sum"
| "exp_series (d # ds) xv term series_sum =
     (let term = ((term * xv) div ONE_20) div d
      in exp_series ds xv term (series_sum + term))"

definition log_exp_exp :: "u256 \<Rightarrow> u256" where
  "log_exp_exp x =
     (if x > MAX_NATURAL_EXPONENT then - 1
      else
        let (xv, first_an) =
              (if x \<ge> EXP_X0 then (x - EXP_X0, EXP_A0)
               else if x \<ge> EXP_X1 then (x - EXP_X1, EXP_A1)
               else (x, 1));
            xv = xv * 100;
            (xv, product) = exp_steps EXP_STEPS xv ONE_20;
            series_sum = exp_series [2, 3, 4, 5, 6, 7, 8, 9, 10, 11, 12] xv xv (ONE_20 + xv)
        in (((product * series_sum) div ONE_20) * first_an) div 100)"

definition log_exp_pow :: "u256 \<Rightarrow> u256 \<Rightarrow> u256 panics" where
  "log_exp_pow x y =
     (if y = 0 then Some ONE
      else if x = 0 then Some 0
      else if x < ONE then do {
        ln_recip \<leftarrow> log_exp_ln (ONE_36 div x);
        if ln_recip = 0 then Some 0
        else
          let exponent = (ln_recip * y) div ONE
          in if exponent > MAX_NATURAL_EXPONENT then Some 0
             else let e = log_exp_exp exponent in if e = 0 then Some 0 else Some (ONE_36 div e)
      }
      else do {
        l \<leftarrow> log_exp_ln x;
        let logx_times_y = l * y div ONE;
        if logx_times_y > MAX_NATURAL_EXPONENT then Some (- 1) else Some (log_exp_exp logx_times_y)
      })"

definition mul_down :: "u256 \<Rightarrow> u256 \<Rightarrow> u256" where
  "mul_down a b =
     (case checked_mul a b of
        Some product \<Rightarrow> product div ONE
      | None \<Rightarrow> u512_to_u256 (ucast a * ucast b div ONE_U512))"

definition mul_up :: "u256 \<Rightarrow> u256 \<Rightarrow> u256" where
  "mul_up a b =
     (case checked_mul a b of
        Some product \<Rightarrow>
          let q = product div ONE in if product mod ONE \<noteq> 0 then saturating_add q 1 else q
      | None \<Rightarrow>
          let product = ucast a * ucast b; quotient = u512_to_u256 (product div ONE_U512)
          in if product mod ONE_U512 > 0 then saturating_add quotient 1 else quotient)"

definition complement :: "u256 \<Rightarrow> u256" where
  "complement x = (if x < ONE then ONE - x else 0)"

definition pow_down :: "u256 \<Rightarrow> u256 \<Rightarrow> u256 panics" where
  "pow_down x y =
     (if y = ONE then Some x
      else do {
        raw \<leftarrow> log_exp_pow x y;
        let max_error = mul_up raw MAX_POW_RELATIVE_ERROR + 1;
        Some (saturating_sub raw max_error)
      })"

section \<open>The constants\<close>

lemma unat_ONE: "unat ONE = 10 ^ 18"
  by (simp add: ONE_def from_limbs_def)

lemma unat_ONE_20: "unat ONE_20 = 10 ^ 20"
  by (simp add: ONE_20_def from_limbs_def)

lemma unat_ONE_36: "unat ONE_36 = 10 ^ 36"
  by (simp add: ONE_36_def from_limbs_def)

lemma ONE_nz [simp]: "ONE \<noteq> 0" "ONE_20 \<noteq> 0" "ONE_36 \<noteq> 0"
  using unat_ONE unat_ONE_20 unat_ONE_36 by auto

lemma reciprocal_ge_ONE: "a \<noteq> 0 \<Longrightarrow> a < ONE \<Longrightarrow> ONE \<le> ONE_36 div a"
proof -
  assume "a \<noteq> 0" and "a < ONE"
  then have a: "0 < unat a" "unat a < 10 ^ 18" by (simp_all add: unat_gt_0 word_less_nat_alt unat_ONE)
  then have "10 ^ 18 * unat a \<le> (10 :: nat) ^ 36" by simp
  with a(1) show ?thesis
    by (simp add: word_le_nat_alt unat_div_word unat_ONE unat_ONE_36 less_eq_div_iff_mult_less_eq)
qed

section \<open>No division by zero\<close>

lemma ln_steps_append:
  "ln_steps (xs @ ys) av acc = (let (a, s) = ln_steps xs av acc in ln_steps ys a s)"
  by (induction xs av acc rule: ln_steps.induct) auto

text \<open>After the last table entry the argument is far from the top of the 256-bit range.\<close>

lemma ln_steps_small:
  assumes "ln_steps LN_STEPS av acc = (av', acc')"
  shows "unat av' < 2 ^ 200"
proof -
  let ?f = "from_limbs 14215725523238184876 5 0 0"
  define init where "init = COMMON_EXP_STEPS @
      [(from_limbs 12500000000000000000 0 0 0, from_limbs 2634380864425321987 6 0 0)]"
  obtain a s where "ln_steps init av acc = (a, s)" by (metis surj_pair)
  moreover have steps: "LN_STEPS = init @ [(from_limbs 6250000000000000000 0 0 0, ?f)]"
    by (simp add: LN_STEPS_def init_def)
  ultimately have "av' = (if a \<ge> ?f then (a * ONE_20) div ?f else a)"
    using assms unfolding steps by (auto simp: ln_steps_append split: if_splits)
  moreover have f: "unat ?f = 106449445891785942956" by (simp add: from_limbs_def)
  moreover have "x div 106449445891785942956 < 2 ^ 200" if "x < 2 ^ 256" for x :: nat
    using that by (simp add: div_less_iff_less_mult)
  ultimately show ?thesis
    using unat_lt_256 [of "a * ONE_20"] by (auto simp: unat_div_word word_le_nat_alt)
qed

lemma plus_ONE_20_nz: "unat (a :: u256) < 2 ^ 200 \<Longrightarrow> a + ONE_20 \<noteq> 0"
proof -
  assume "unat a < 2 ^ 200"
  then have "unat (a + ONE_20) = unat a + 10 ^ 20"
    by (subst unat_add_nowrap) (simp_all add: unat_ONE_20)
  then show ?thesis by auto
qed

lemma ln_reduced_total: "\<exists>l. ln_reduced a = Some l"
proof -
  have "fst (ln_steps LN_STEPS av acc) + ONE_20 \<noteq> 0" for av acc
    by (metis ln_steps_small plus_ONE_20_nz surj_pair fst_conv)
  then show ?thesis
    by (simp add: ln_reduced_def pdiv_def case_prod_beta Let_def del: ln_series.simps)
qed

lemma ln_36_total: "a < LN_36_UPPER_BOUND \<Longrightarrow> \<exists>l. ln_36 a = Some l"
proof -
  assume "a < LN_36_UPPER_BOUND"
  then have "unat a < 1100000000000000000"
    by (simp add: word_less_nat_alt LN_36_UPPER_BOUND_def from_limbs_def)
  then have "unat (a * ONE) = unat a * 10 ^ 18"
    by (intro unat_mult_nowrap [of a ONE, unfolded unat_ONE]) simp
  then have "unat (a * ONE + ONE_36) = unat a * 10 ^ 18 + 10 ^ 36"
    using \<open>unat a < 1100000000000000000\<close> by (subst unat_add_nowrap) (simp_all add: unat_ONE_36)
  then have "a * ONE + ONE_36 \<noteq> 0" by (intro notI) simp
  then show ?thesis by (simp add: ln_36_def Let_def)
qed

lemma log_exp_ln_total: "\<exists>l. log_exp_ln a = Some l"
  using ln_reduced_total [of a] ln_36_total [of a] by (auto simp: log_exp_ln_def ln_fixed_def)

lemma log_exp_pow_total: "\<exists>r. log_exp_pow x y = Some r"
  using log_exp_ln_total [of "ONE_36 div x"] log_exp_ln_total [of x]
  by (auto simp: log_exp_pow_def Let_def)

lemma pow_down_total: "\<exists>r. pow_down x y = Some r"
  using log_exp_pow_total [of x y] by (auto simp: pow_down_def Let_def)

section \<open>The exponential is at least one\<close>

text \<open>
  The thresholds of the table halve, so an argument below twice the first one ends below the last one;
  the product of the factors stays below the given bounds and never below its start value.
\<close>

fun table_fits :: "(nat \<times> nat) list \<Rightarrow> nat \<Rightarrow> nat list \<Rightarrow> bool" where
  "table_fits ((t, f) # steps) x (b # b' # bs) \<longleftrightarrow>
     x \<le> 2 * t \<and> 10 ^ 20 \<le> f \<and> b * f < 2 ^ 256 \<and> b * f \<le> 10 ^ 20 * b' \<and> table_fits steps t (b' # bs)"
| "table_fits [] x [b] \<longleftrightarrow> x \<le> 10 ^ 20 \<and> b < 10 ^ 49"
| "table_fits _ _ _ \<longleftrightarrow> False"

abbreviation nats :: "(u256 \<times> u256) list \<Rightarrow> (nat \<times> nat) list" where
  "nats \<equiv> map (map_prod unat unat)"

lemma exp_steps_bounds:
  assumes "table_fits (nats steps) x (b # bs)" and "unat xv < x" and "10 ^ 20 \<le> unat p" and "unat p \<le> b"
    and "exp_steps steps xv p = (xv', p')"
  shows "unat xv' < 10 ^ 20 \<and> 10 ^ 20 \<le> unat p' \<and> unat p' < 10 ^ 49"
  using assms
proof (induction steps xv p arbitrary: x b bs rule: exp_steps.induct)
  case (1 xv p)
  then show ?case by (cases bs) auto
next
  case (2 t f steps xv p)
  obtain b' bs' where bs: "bs = b' # bs'" using "2.prems"(1) by (cases bs) auto
  have f: "10 ^ 20 \<le> unat f" and x: "x \<le> 2 * unat t" and fits: "b * unat f < 2 ^ 256"
    and b': "b * unat f \<le> 10 ^ 20 * b'" and rest: "table_fits (nats steps) (unat t) (b' # bs')"
    using "2.prems"(1) by (simp_all add: bs)
  show ?case
  proof (cases "t \<le> xv")
    case True
    have le: "unat p * unat f \<le> b * unat f" using "2.prems"(4) by (rule mult_le_mono1)
    then have "unat p * unat f < 2 ^ 256" using fits by (rule order_le_less_trans)
    then have q: "unat ((p * f) div ONE_20) = unat p * unat f div 10 ^ 20"
      by (simp add: unat_div_word unat_ONE_20 unat_mult_nowrap)
    have "unat p * unat f div 10 ^ 20 \<le> 10 ^ 20 * b' div 10 ^ 20"
      using le b' by (intro div_le_mono) (rule order_trans)
    then have "unat ((p * f) div ONE_20) \<le> b'" by (simp add: q)
    moreover have "10 ^ 20 * 10 ^ 20 \<le> unat p * unat f"
      using "2.prems"(3) f by (rule mult_le_mono)
    then have "10 ^ 20 \<le> unat ((p * f) div ONE_20)" by (simp add: q less_eq_div_iff_mult_less_eq)
    moreover have "unat (xv - t) < unat t"
      using True "2.prems"(2) x by (auto simp: unat_sub_nowrap word_le_nat_alt)
    ultimately show ?thesis
      using "2.IH"(1) [OF True rest] "2.prems"(5) True by simp
  next
    case False
    have "b * 10 ^ 20 \<le> b * unat f" using f by (rule mult_le_mono2)
    also have "\<dots> \<le> 10 ^ 20 * b'" by (rule b')
    finally have "b \<le> b'" by simp
    then show ?thesis
      using "2.IH"(2) [OF False rest] "2.prems"(3-5) False by (simp add: word_le_nat_alt)
  qed
qed

lemma exp_series_ge:
  assumes "unat xv \<le> 10 ^ 20" and "unat t \<le> 10 ^ 20" and "unat s + 10 ^ 20 * length ds < 2 ^ 256"
  shows "unat s \<le> unat (exp_series ds xv t s) \<and> unat (exp_series ds xv t s) \<le> unat s + 10 ^ 20 * length ds"
  using assms
proof (induction ds xv t s rule: exp_series.induct)
  case (2 d ds xv t s)
  define t' where "t' = ((t * xv) div ONE_20) div d"
  have "unat t * unat xv \<le> 10 ^ 20 * 10 ^ 20"
    using "2.prems"(2,1) by (rule mult_le_mono)
  then have "unat (t * xv) \<le> 10 ^ 20 * 10 ^ 20" by (simp add: unat_mult_nowrap)
  then have "unat (t * xv) div 10 ^ 20 \<le> 10 ^ 20" by (metis div_le_mono nonzero_mult_div_cancel_right zero_neq_numeral power_not_zero)
  then have t': "unat t' \<le> 10 ^ 20"
    using div_le_dividend order_trans by (simp only: t'_def unat_div_word unat_ONE_20) blast
  then have s': "unat (s + t') = unat s + unat t'"
    using "2.prems"(3) by (intro unat_add_nowrap) simp
  have "unat (s + t') \<le> unat (exp_series ds xv t' (s + t'))
      \<and> unat (exp_series ds xv t' (s + t')) \<le> unat (s + t') + 10 ^ 20 * length ds"
    using "2.prems"(1,3) t' s' by (intro "2.IH") (simp_all add: t'_def)
  then show ?case using s' t' by (simp add: t'_def Let_def)
qed simp

lemma nats_EXP_STEPS: "nats EXP_STEPS =
    [(3200000000000000000000, 7896296018268069516100000000000000),
     (1600000000000000000000, 888611052050787263676000000),
     (800000000000000000000, 298095798704172827474000),
     (400000000000000000000, 5459815003314423907810),
     (200000000000000000000, 738905609893065022723),
     (100000000000000000000, 271828182845904523536),
     (50000000000000000000, 164872127070012814685),
     (25000000000000000000, 128402541668774148407)]"
  by (simp add: EXP_STEPS_def COMMON_EXP_STEPS_def from_limbs_def)

lemma exp_table:
  "table_fits (nats EXP_STEPS) (64 * 10 ^ 20)
     [10 ^ 20, 10 ^ 34, 10 ^ 41, 10 ^ 45, 10 ^ 47, 10 ^ 48, 3 * 10 ^ 48, 5 * 10 ^ 48, 7 * 10 ^ 48]"
  unfolding nats_EXP_STEPS by simp

lemma log_exp_exp_ge_ONE:
  assumes "unat x < 64 * 10 ^ 18"
  shows "ONE \<le> log_exp_exp x"
proof -
  have x: "unat (x * 100) = unat x * 100" using assms by (intro unat_mult_nowrap [of x 100, simplified]) simp
  obtain xv p where steps: "exp_steps EXP_STEPS (x * 100) ONE_20 = (xv, p)" by (metis surj_pair)
  have xv: "unat xv \<le> 10 ^ 20" and p: "10 ^ 20 \<le> unat p" "unat p < 10 ^ 49"
    using exp_steps_bounds [OF exp_table _ _ _ steps] assms by (auto simp: x unat_ONE_20)
  define s where "s = exp_series [2, 3, 4, 5, 6, 7, 8, 9, 10, 11, 12] xv xv (ONE_20 + xv)"
  have "unat (ONE_20 + xv) = 10 ^ 20 + unat xv"
    using xv by (subst unat_add_nowrap) (simp_all add: unat_ONE_20)
  then have s: "10 ^ 20 \<le> unat s" "unat s \<le> 10 ^ 22"
    using exp_series_ge [OF xv xv, of "ONE_20 + xv" "[2, 3, 4, 5, 6, 7, 8, 9, 10, 11, 12]"] xv
    by (simp_all add: s_def del: exp_series.simps)
  have "unat p * unat s \<le> 10 ^ 49 * 10 ^ 22" using p s by (intro mult_le_mono) simp_all
  then have ps: "unat (p * s) = unat p * unat s" by (intro unat_mult_nowrap) simp
  have "10 ^ 20 * 10 ^ 20 \<le> unat p * unat s" using p(1) s(1) by (rule mult_le_mono)
  then have "10 ^ 18 \<le> unat p * unat s div 10 ^ 20 div 100"
    by (simp add: less_eq_div_iff_mult_less_eq)
  then have "unat ONE \<le> unat (((p * s) div ONE_20) * 1 div 100)"
    by (simp add: unat_div_word ps unat_ONE unat_ONE_20)
  moreover have "unat MAX_NATURAL_EXPONENT = 130 * 10 ^ 33"
    by (simp add: MAX_NATURAL_EXPONENT_def from_limbs_def)
  moreover have "\<not> x \<ge> EXP_X0" "\<not> x \<ge> EXP_X1"
    using assms by (simp_all add: EXP_X0_def EXP_X1_def LN_X0_def LN_X1_def word_le_nat_alt from_limbs_def)
  ultimately show ?thesis
    using assms steps
    by (simp add: log_exp_exp_def word_le_nat_alt word_less_nat_alt s_def del: exp_series.simps)
qed

section \<open>The fixed-point products\<close>

lemma unat_mult_div_ONE: "unat a * unat b < 2 ^ 256 \<Longrightarrow> unat ((a * b) div ONE) = unat a * unat b div 10 ^ 18"
  for a b :: u256
  by (simp add: unat_div_word unat_mult_nowrap unat_ONE)

lemma mul_down_nat:
  assumes "unat a * unat b div 10 ^ 18 < 2 ^ 256"
  shows "unat (mul_down a b) = unat a * unat b div 10 ^ 18"
proof (cases "checked_mul a b")
  case (Some p)
  then have "unat p = unat a * unat b" by (simp add: checked_mul_iff)
  with Some show ?thesis by (simp add: mul_down_def unat_div_word unat_ONE)
next
  case None
  have "unat (ucast a * ucast b div ONE_U512) = unat a * unat b div 10 ^ 18"
    by (simp add: unat_div_word ONE_U512_def)
  with None assms show ?thesis by (simp add: mul_down_def unat_u512_to_u256)
qed

lemma unat_mul_down_rate:
  assumes "f \<le> ONE" shows "unat (mul_down a f) = unat a * unat f div 10 ^ 18"
proof (rule mul_down_nat)
  have "unat a * unat f div 10 ^ 18 \<le> unat a"
    using assms by (intro mul_div_le_self) (simp add: word_le_nat_alt unat_ONE)
  then show "unat a * unat f div 10 ^ 18 < 2 ^ 256" using unat_lt_256 [of a] by simp
qed

lemma mul_down_le: "b \<le> ONE \<Longrightarrow> mul_down a b \<le> a"
proof -
  assume "b \<le> ONE"
  then have "unat a * unat b div 10 ^ 18 \<le> unat a"
    by (intro mul_div_le_self) (simp add: word_le_nat_alt unat_ONE)
  moreover from this have "unat a * unat b div 10 ^ 18 < 2 ^ 256"
    using unat_lt_256 [of a] by simp
  ultimately show ?thesis by (simp add: word_le_nat_alt mul_down_nat)
qed

lemma complement_ONE: "x < ONE \<Longrightarrow> unat (complement x) = 10 ^ 18 - unat x"
  by (simp add: complement_def unat_sub_nowrap unat_ONE less_imp_le)

lemma complement_le: "complement x \<le> ONE"
  by (auto simp: complement_def word_le_nat_alt word_less_nat_alt unat_sub_nowrap)

section \<open>Properties\<close>

text \<open>
  No argument makes the fixed-point power panic: every division of the logarithm and the
  exponential has a nonzero divisor although their operators wrap, and the rounded-down power never
  exceeds the raw one. For a base below one and an exponent whose product with the logarithm stays
  below 64, the raw power is at most one.
\<close>

theorem pow_never_panics:
  "\<exists>raw r. log_exp_pow x y = Some raw \<and> pow_down x y = Some r \<and> (y \<noteq> ONE \<longrightarrow> r \<le> raw)
    \<and> (x < ONE \<longrightarrow> y \<noteq> 0 \<longrightarrow>
        (\<forall>l. log_exp_ln (ONE_36 div x) = Some l \<longrightarrow> unat l * unat y < 64 * 10 ^ 36 \<longrightarrow> raw \<le> ONE))"
proof -
  obtain raw r where raw: "log_exp_pow x y = Some raw" and r: "pow_down x y = Some r"
    using log_exp_pow_total pow_down_total by blast
  then have "y \<noteq> ONE \<longrightarrow> r \<le> raw" by (auto simp: pow_down_def Let_def)
  moreover have "raw \<le> ONE" if x: "x < ONE" "y \<noteq> 0"
    and l: "log_exp_ln (ONE_36 div x) = Some l" "unat l * unat y < 64 * 10 ^ 36" for l
  proof -
    define e where "e = log_exp_exp ((l * y) div ONE)"
    have "unat ((l * y) div ONE) = unat l * unat y div 10 ^ 18"
      using l(2) by (intro unat_mult_div_ONE) simp
    moreover have "unat l * unat y div 10 ^ 18 < 64 * 10 ^ 18"
      using l(2) by (simp add: div_less_iff_less_mult)
    ultimately have "ONE \<le> e" unfolding e_def by (intro log_exp_exp_ge_ONE) simp
    then have "10 ^ 18 \<le> unat e" by (simp add: word_le_nat_alt unat_ONE)
    then have "(10 :: nat) ^ 36 div unat e \<le> 10 ^ 36 div 10 ^ 18" by (intro div_le_mono2) simp_all
    then have "ONE_36 div e \<le> ONE" by (simp add: word_le_nat_alt unat_div_word unat_ONE unat_ONE_36)
    then show ?thesis
      using raw x l(1) by (auto simp: log_exp_pow_def e_def Let_def split: if_splits)
  qed
  ultimately show ?thesis using raw r by blast
qed

theorem pow_never_panics_witness:
  "log_exp_ln (ONE_36 div 999999999999999999) = Some 0 \<and> (999999999999999999 :: u256) < ONE \<and> (2 :: u256) \<noteq> 0
    \<and> (\<exists>raw. log_exp_pow 999999999999999999 2 = Some raw \<and> raw \<le> ONE)"
proof -
  have l: "log_exp_ln (ONE_36 div 999999999999999999) = Some 0"
    by (simp add: log_exp_ln_def ln_36_def ONE_def ONE_36_def LN_36_LOWER_BOUND_def LN_36_UPPER_BOUND_def
        from_limbs_def pdiv_def Let_def)
  have x: "(999999999999999999 :: u256) < ONE" by (simp add: ONE_def from_limbs_def)
  show ?thesis
    using pow_never_panics [of 999999999999999999 2] l x by auto
qed

lemmas ln_consts = ONE_def LN_A0_def LN_A1_def LN_X0_def LN_X1_def LN_STEPS_def COMMON_EXP_STEPS_def
  ONE_20_def LN_36_LOWER_BOUND_def LN_36_UPPER_BOUND_def from_limbs_def

lemma ln_below_a1: "log_exp_ln (LN_A1 - 1) = Some 22553468326107177687"
  by (simp add: log_exp_ln_def ln_fixed_def ln_reduced_def ln_consts pdiv_def Let_def)

text \<open>A wrapping product and its quotient, checked from the quotient and the number of wraps.\<close>

lemma mul_div_certificate:
  fixes a b c q :: u256
  assumes "unat a * unat b = 2 ^ 256 * k + r" and "r < 2 ^ 256"
    and "unat c * unat q \<le> r" and "r < unat c * Suc (unat q)"
  shows "a * b div c = q"
proof (rule word_unat_eqI)
  have "unat (a * b) = r" using assms(1,2) by (simp add: unat_mult_256)
  then show "unat (a * b div c) = unat q" using assms(3,4) by (simp only: unat_div_word div_nat_eqI)
qed

text \<open>At \<open>10^28\<close> the reduction leaves 100 in the 20-decimal scale, below one, and the difference wraps.\<close>

lemma ln_above_a1: "log_exp_ln (10 ^ 28) = Some 401764283420090045365394961154230649857359646141638496779896"
proof -
  have z: "pdiv ((100 - ONE_20) * ONE_20) (100 + ONE_20) = Some 1157920892373161953077788957713717125354910888942688515139"
  proof -
    have "(100 - ONE_20) * ONE_20 = 115792089237316195423570985008687907843269984665640564049457584007913129639936" by (simp add: ONE_20_def from_limbs_def)
    then show ?thesis by (simp only: pdiv_def) (simp add: ONE_20_def from_limbs_def)
  qed
  have "ln_steps LN_STEPS 100 40173451106474756888549052308529065063055074844569820882534400 = (100, 40173451106474756888549052308529065063055074844569820882534400)" by (simp add: ln_consts)
  then have red: "ln_reduced (10 ^ 28) = do {
      z \<leftarrow> pdiv ((100 - ONE_20) * ONE_20) (100 + ONE_20);
      let z_squared = (z * z) div ONE_20;
      Some ((40173451106474756888549052308529065063055074844569820882534400 + ln_series ONE_20 z_squared [3, 5, 7, 9, 11] z z * 2) div 100)}"
    unfolding ln_reduced_def by (simp add: LN_A0_def LN_A1_def LN_X1_def from_limbs_def del: ln_series.simps)
  have m0: "1157920892373161953077788957713717125354910888942688515139 * 1157920892373161953077788957713717125354910888942688515139 div ONE_20 = 405768175766575410127025355797514674787287414194648308201"
    by (rule mul_div_certificate [where k = 11579208923731619519198680653405551733 and r = 40576817576657541012702535579751467478728741419464830820107108641834921380233]) (simp_all add: unat_ONE_20)
  have m1: "1157920892373161953077788957713717125354910888942688515139 * 405768175766575410127025355797514674787287414194648308201 div ONE_20 = 358809700897932795426631502337894501272297784398612096892"
    by (rule mul_div_certificate [where k = 4057681757665754097212571800309392650 and r = 35880970089793279542663150233789450127229778439861209689298066112425781484539]) (simp_all add: unat_ONE_20)
  have m2: "358809700897932795426631502337894501272297784398612096892 * 405768175766575410127025355797514674787287414194648308201 div ONE_20 = 498075691845240532760485116625995864302149977609728293807"
    by (rule mul_div_certificate [where k = 1257370505530048436090461458563098525 and r = 49807569184524053276048511662599586430214997760972829380703516945411147516892]) (simp_all add: unat_ONE_20)
  have m3: "498075691845240532760485116625995864302149977609728293807 * 405768175766575410127025355797514674787287414194648308201 div ONE_20 = 584648729417122476455303747087999368496944422849553762647"
    by (rule mul_div_certificate [where k = 1745397860984328828332798749578459427 and r = 58464872941712247645530374708799936849694442284955376264773573649456720734535]) (simp_all add: unat_ONE_20)
  have m4: "584648729417122476455303747087999368496944422849553762647 * 405768175766575410127025355797514674787287414194648308201 div ONE_20 = 38257830708761483463240511048534230184704335938335708056"
    by (rule mul_div_certificate [where k = 2048774229417560945365534070783630946 and r = 3825783070876148346324051104853423018470433593833570805675554419948770508591]) (simp_all add: unat_ONE_20)
  have m5: "38257830708761483463240511048534230184704335938335708056 * 405768175766575410127025355797514674787287414194648308201 div ONE_20 = 260770241716924162317010104103198591519895420183318671906"
    by (rule mul_div_certificate [where k = 134066241292740867668249835040873519 and r = 26077024171692416231701010410319859151989542018331867190679041751440459312472]) (simp_all add: unat_ONE_20)
  have d3: "(358809700897932795426631502337894501272297784398612096892 :: u256) div 3 = 119603233632644265142210500779298167090765928132870698964"
    by (rule word_unat_eqI, subst unat_div_word, rule div_nat_eqI) simp_all
  have d5: "(498075691845240532760485116625995864302149977609728293807 :: u256) div 5 = 99615138369048106552097023325199172860429995521945658761"
    by (rule word_unat_eqI, subst unat_div_word, rule div_nat_eqI) simp_all
  have d7: "(584648729417122476455303747087999368496944422849553762647 :: u256) div 7 = 83521247059588925207900535298285624070992060407079108949"
    by (rule word_unat_eqI, subst unat_div_word, rule div_nat_eqI) simp_all
  have d9: "(38257830708761483463240511048534230184704335938335708056 :: u256) div 9 = 4250870078751275940360056783170470020522703993148412006"
    by (rule word_unat_eqI, subst unat_div_word, rule div_nat_eqI) simp_all
  have d11: "(260770241716924162317010104103198591519895420183318671906 :: u256) div 11 = 23706385610629469301546373100290781047263220016665333809"
    by (rule word_unat_eqI, subst unat_div_word, rule div_nat_eqI) simp_all
  have "ln_series ONE_20 (1157920892373161953077788957713717125354910888942688515139 * 1157920892373161953077788957713717125354910888942688515139 div ONE_20) [3, 5, 7, 9, 11]
      1157920892373161953077788957713717125354910888942688515139 1157920892373161953077788957713717125354910888942688515139 = 1488617767123823995221903446999961340444884797014397727628"
    by (simp only: ln_series.simps Let_def m0 m1 m2 m3 m4 m5 d3 d5 d7 d9 d11) simp
  moreover have "(40176428342009004536539496115423064985735964614163849677989656 :: u256) div 100 = 401764283420090045365394961154230649857359646141638496779896"
    by (rule word_unat_eqI, subst unat_div_word, rule div_nat_eqI) simp_all
  ultimately have "ln_reduced (10 ^ 28) = Some 401764283420090045365394961154230649857359646141638496779896"
    using red by (simp add: z Let_def del: ln_series.simps)
  then show ?thesis
    by (simp add: log_exp_ln_def ln_fixed_def ONE_def LN_36_LOWER_BOUND_def LN_36_UPPER_BOUND_def from_limbs_def)
qed


end
