(* ===== verification/StableMath.thy ===== *)
theory StableMath
  imports Prelude
begin

text \<open>
  The arithmetic shared by the two StableSwap implementations, Balancer's and Curve's: on equal
  balances one step of the Newton iteration for the invariant returns the sum of the balances, at the
  word level, with every intermediate value in range.
\<close>

lemma sum_list_replicate_word: "sum_list (replicate k (b :: u256)) = of_nat k * b"
  by (induction k) (simp_all add: algebra_simps)

lemma square_div_self: "unat (d :: u256) * unat d < 2 ^ 256 \<Longrightarrow> d * d div d = d"
  by (rule word_unat_eqI) (cases "d = 0", simp_all add: unat_div_word unat_mult_nowrap unat_gt_0)

lemma sub_multiple_div: "0 < a \<Longrightarrow> (x - a * d) div a = x div a - d" for x a d :: nat
proof (cases "a * d \<le> x")
  case True
  assume "0 < a"
  have "x div a = (x - a * d + a * d) div a" using True by simp
  also have "\<dots> = (x - a * d) div a + d" using \<open>0 < a\<close> by simp
  finally show ?thesis by simp
next
  case False
  assume "0 < a"
  with False have "x div a \<le> d" by (metis div_le_mono nat_le_linear nonzero_mult_div_cancel_left not_gr0)
  with False show ?thesis by simp
qed

lemma balanced_newton_step:
  fixes at ap n d :: u256
  assumes d: "d \<noteq> 0" and ap: "ap \<noteq> 0" "ap \<le> at"
    and fits: "unat at * unat d < 2 ^ 256" "(unat n + 1) * unat d < 2 ^ 256"
      "(unat at * unat d div unat ap + unat d * unat n) * unat d < 2 ^ 256" and n: "n \<noteq> 0"
  shows "((at * d) div ap + d * n) * d div (((at - ap) * d) div ap + (n + 1) * d) = d"
    and "((at - ap) * d) div ap + (n + 1) * d \<noteq> 0"
    and "unat (at - ap) * unat d < 2 ^ 256" and "unat (n + 1) * unat d < 2 ^ 256"
    and "unat (((at - ap) * d) div ap) + unat ((n + 1) * d) < 2 ^ 256"
proof -
  let ?D = "unat d" and ?X = "unat at * unat d div unat ap + unat d * unat n"
  define num where "num = ((at * d) div ap + d * n) * d"
  define den where "den = ((at - ap) * d) div ap + (n + 1) * d"
  have D: "0 < ?D" and A: "0 < unat ap" and N: "0 < unat n" using d ap(1) n by (simp_all add: unat_ne_0)
  have X: "0 < ?X" using D N by simp
  have XD: "?X \<le> ?X * ?D" using D by simp
  have Xfit: "?X < 2 ^ 256" using XD fits(3) by (rule order_le_less_trans)
  have dn: "unat (d * n) = ?D * unat n" using Xfit by (intro unat_mult_nowrap) simp
  have atd: "unat ((at * d) div ap) = unat at * ?D div unat ap" using fits(1) by (simp add: unat_div_word unat_mult_nowrap)
  have "unat ((at * d) div ap + d * n) = ?X" using Xfit by (simp add: unat_add_nowrap dn atd)
  then have num: "unat num = ?X * ?D" using fits(3) by (simp add: num_def unat_mult_nowrap)
  have le: "unat ap \<le> unat at" using ap(2) by (simp add: word_le_nat_alt)
  have atap: "(unat at - unat ap) * ?D < 2 ^ 256"
    using fits(1) by (rule order_le_less_trans [rotated]) (simp add: mult_le_mono1)
  then have "unat ((at - ap) * d) = unat at * ?D - unat ap * ?D"
    using ap(2) by (simp add: unat_mult_nowrap unat_sub_nowrap diff_mult_distrib)
  then have q: "unat (((at - ap) * d) div ap) = unat at * ?D div unat ap - ?D"
    using A by (simp add: unat_div_word sub_multiple_div)
  have ge: "?D \<le> unat at * ?D div unat ap"
    using le A by (simp add: less_eq_div_iff_mult_less_eq mult.commute mult_le_mono2)
  have n1: "unat (n + 1) = unat n + 1" "unat ((n + 1) * d) = (unat n + 1) * ?D"
  proof -
    have "(unat n + 1) * 1 \<le> (unat n + 1) * ?D" using D by (intro mult_le_mono2) simp
    then have "unat n + 1 \<le> (unat n + 1) * ?D" by simp
    then have "unat n + 1 < 2 ^ 256" using fits(2) by (rule order_le_less_trans)
    then show n1: "unat (n + 1) = unat n + 1" by (simp add: unat_add_nowrap)
    then show "unat ((n + 1) * d) = (unat n + 1) * ?D" using fits(2) by (simp add: unat_mult_nowrap)
  qed
  have "unat at * ?D div unat ap - ?D + (unat n + 1) * ?D = ?X"
    using ge by (simp add: algebra_simps)
  then have sum: "unat (((at - ap) * d) div ap) + unat ((n + 1) * d) = ?X" by (simp only: q n1(2))
  then have den: "unat den = ?X" using Xfit unfolding den_def by (subst unat_add_nowrap) simp_all
  have "num div den = d" using X by (intro word_unat_eqI) (simp add: unat_div_word num den)
  then show "((at * d) div ap + d * n) * d div (((at - ap) * d) div ap + (n + 1) * d) = d"
    by (simp only: num_def den_def)
  have "den \<noteq> 0" using den X by auto
  then show "((at - ap) * d) div ap + (n + 1) * d \<noteq> 0" unfolding den_def .
  show "unat (at - ap) * unat d < 2 ^ 256" using atap ap(2) by (simp add: unat_sub_nowrap)
  show "unat (n + 1) * unat d < 2 ^ 256" using fits(2) by (simp only: n1(1))
  show "unat (((at - ap) * d) div ap) + unat ((n + 1) * d) < 2 ^ 256" using Xfit by (simp only: sum)
qed

text \<open>From the bounds on the natural numbers to the word facts both Newton iterations need.\<close>

lemma balanced_word_facts:
  fixes amp ap b :: u256 and k :: nat
  defines "n \<equiv> of_nat k :: u256" and "d \<equiv> b * of_nat k" and "D \<equiv> unat b * k"
  assumes "2 \<le> k" and "b \<noteq> 0" and "unat ap < unat amp * k"
    and "unat amp * k * D < 2 ^ 256" and "(k + 1) * D < 2 ^ 256"
    and "(unat amp * k * D div unat ap + D * k) * D < 2 ^ 256"
  shows "unat n = k" and "unat d = D" and "unat (amp * n) = unat amp * k" and "d \<noteq> 0" and "n \<noteq> 0"
    and "unat d * unat d < 2 ^ 256" and "ap < amp * n" and "amp \<noteq> 0"
    and "sum_list (replicate k b) = d"
proof -
  have B: "0 < unat b" using assms(5) by (rule unat_ne_0)
  have kD: "k \<le> D" using B by (simp add: D_def)
  have Dpos: "0 < D" using B assms(4) by (simp add: D_def)
  have "D \<le> (k + 1) * D" by simp
  then have Dfit: "D < 2 ^ 256" using assms(8) by (rule order_le_less_trans)
  then show n: "unat n = k" using kD by (simp add: n_def unat_of_nat_fits)
  then have "unat (b * n) = D" using Dfit by (simp add: D_def unat_mult_nowrap)
  then show d: "unat d = D" by (simp only: d_def n_def)
  have "unat amp * k * 1 \<le> unat amp * k * D" using Dpos by (intro mult_le_mono2) simp
  then have "unat amp * k < 2 ^ 256" using assms(7) by (metis mult_1_right order_le_less_trans)
  then show at: "unat (amp * n) = unat amp * k" by (simp add: unat_mult_nowrap n)
  have "D * D \<le> (unat amp * k * D div unat ap + D * k) * D"
    using assms(4) by (intro mult_le_mono1) (simp add: trans_le_add2)
  then have "D * D < 2 ^ 256" using assms(9) by (rule order_le_less_trans)
  then show "unat d * unat d < 2 ^ 256" by (simp only: d)
  show "d \<noteq> 0" "n \<noteq> 0" using d Dpos n assms(4) by auto
  show "ap < amp * n" using assms(6) by (simp add: word_less_nat_alt at)
  show "amp \<noteq> 0" using assms(6) by auto
  show "sum_list (replicate k b) = d" by (simp add: sum_list_replicate_word d_def mult.commute)
qed

end
