(* ===== verification/Balancer.thy ===== *)
theory Balancer
  imports BoundedLoop QuoteContract LogExpMath StableMath
begin

text \<open>
  Balancer pools: \<open>src/core/math/balancer.rs\<close>. Weighted pools price by the fixed-point power, stable
  pools by two Newton iterations, linear pools by their target range. Every function answers zero
  where the code returns \<open>U256::ZERO\<close>; \<^const>\<open>None\<close> is a panic.
\<close>

section \<open>The code\<close>

definition MAX_IN_RATIO :: u256 where "MAX_IN_RATIO = from_limbs 300000000000000000 0 0 0"

definition exceeds_balancer_max_in_ratio :: "u256 \<Rightarrow> u256 \<Rightarrow> bool" where
  "exceeds_balancer_max_in_ratio amount_in balance_in \<longleftrightarrow>
     balance_in = 0 \<or>
     (case checked_mul balance_in MAX_IN_RATIO of None \<Rightarrow> True | Some limit \<Rightarrow> amount_in > limit div ONE)"

fun position_of :: "'a \<Rightarrow> 'a list \<Rightarrow> nat option" where
  "position_of x [] = None"
| "position_of x (y # ys) = (if y = x then Some 0 else map_option Suc (position_of x ys))"

definition balancer_balance_in :: "BalancerPoolState \<Rightarrow> nat \<Rightarrow> address option \<Rightarrow> u256" where
  "balancer_balance_in pool token_in_idx token_in =
     (let idx = (case Option.bind token_in (\<lambda>addr. position_of addr (bal_tokens pool)) of
                   Some i \<Rightarrow> i | None \<Rightarrow> token_in_idx)
      in case nth_opt (bal_balances pool) idx of Some b \<Rightarrow> b | None \<Rightarrow> 0)"

definition balancer_fee_bps_from_pool :: "u256 \<Rightarrow> u32 option" where
  "balancer_fee_bps_from_pool fee =
     (if fee = 0 \<or> fee \<ge> ONE then None
      else let bps = (fee * 10000) div ONE in Some (ucast (min bps 9999)))"

definition DEFAULT_AMP_PRECISION :: u256 where "DEFAULT_AMP_PRECISION = from_limbs 1000 0 0 0"
definition BAL_MAX_ITERATIONS :: nat where "BAL_MAX_ITERATIONS = 255"

definition resolve_swap_fee :: "u256 \<Rightarrow> u256" where
  "resolve_swap_fee fee = (if fee \<noteq> 0 \<and> fee < ONE then fee else 0)"

text \<open>\<open>let Some(x) = e else { return U256::ZERO }\<close>, and \<open>a.checked_mul(b).map(|v| v / ONE)\<close>.\<close>

definition or_return_zero :: "'a option \<Rightarrow> ('a \<Rightarrow> u256 panics) \<Rightarrow> u256 panics" where
  "or_return_zero e k = (case e of None \<Rightarrow> Some 0 | Some x \<Rightarrow> k x)"

definition checked_mul_one :: "u256 \<Rightarrow> u256 \<Rightarrow> u256 option" where
  "checked_mul_one a b = map_option (\<lambda>v. v div ONE) (checked_mul a b)"

definition zero_unless_covered :: "u256 \<Rightarrow> u256 \<Rightarrow> u256" where
  "zero_unless_covered amount_out bal_out = (if amount_out = 0 \<or> amount_out > bal_out then 0 else amount_out)"

text \<open>The pricing part of a weighted swap, from the scaled amounts on.\<close>

definition weighted_out :: "u256 \<Rightarrow> u256 \<Rightarrow> u256 \<Rightarrow> u256 \<Rightarrow> u256 \<Rightarrow> u256 \<Rightarrow> u256 \<Rightarrow> u256 panics" where
  "weighted_out scaled_bal_in scaled_bal_out scaled_amount_in w_in w_out scaling_out bal_out =
     (let denominator = scaled_bal_in + scaled_amount_in
      in if denominator = 0 then Some 0
      else
        let base = (scaled_bal_in * ONE) div denominator
        in if base = 0 \<or> base > ONE then Some 0
        else do {
          exponent \<leftarrow> pdiv (w_in * ONE) w_out;
          if exponent = 0 then Some 0
          else do {
            power \<leftarrow> pow_down base exponent;
            if power > ONE then Some 0
            else or_return_zero (checked_mul_one scaled_bal_out (ONE - power)) (\<lambda>scaled_amount_out.
              if scaled_amount_out = 0 then Some 0
              else do {
                amount_out \<leftarrow> pdiv (scaled_amount_out * ONE) scaling_out;
                Some (zero_unless_covered amount_out bal_out)
              })
          }
        })"

definition get_balancer_weighted_amount_out :: "BalancerPoolState \<Rightarrow> u256 \<Rightarrow> nat \<Rightarrow> nat \<Rightarrow> u256 panics" where
  "get_balancer_weighted_amount_out pool amount_in in_idx out_idx =
     (let balances = bal_balances pool; weights = bal_weights pool; scaling = bal_scaling_factors pool
      in if in_idx \<ge> length balances \<or> out_idx \<ge> length balances
          \<or> in_idx \<ge> length weights \<or> out_idx \<ge> length weights then Some 0
      else if length scaling \<noteq> length balances \<or> scaling ! in_idx = 0 \<or> scaling ! out_idx = 0 then Some 0
      else
        let bal_in = balances ! in_idx; bal_out = balances ! out_idx;
            w_in = weights ! in_idx; w_out = weights ! out_idx;
            fee = resolve_swap_fee (bal_fee pool)
        in if bal_in = 0 \<or> bal_out = 0 \<or> w_in = 0 \<or> w_out = 0 then Some 0
        else if fee \<ge> ONE \<or> exceeds_balancer_max_in_ratio amount_in bal_in then Some 0
        else
          let fee_complement = complement fee
          in if fee_complement = 0 then Some 0
          else or_return_zero (checked_mul_one amount_in fee_complement) (\<lambda>amount_in_after_fee.
            or_return_zero (checked_mul_one amount_in_after_fee (scaling ! in_idx)) (\<lambda>scaled_amount_in.
              if scaled_amount_in = 0 then Some 0
              else or_return_zero (checked_mul_one bal_in (scaling ! in_idx)) (\<lambda>scaled_bal_in.
                or_return_zero (checked_mul_one bal_out (scaling ! out_idx)) (\<lambda>scaled_bal_out.
                  weighted_out scaled_bal_in scaled_bal_out scaled_amount_in w_in w_out
                    (scaling ! out_idx) bal_out)))))"

text \<open>\<open>d_p\<close> of one Newton step: it divides once by every balance times the number of tokens.\<close>

fun stable_dp :: "u256 \<Rightarrow> u256 \<Rightarrow> u256 list \<Rightarrow> u256 \<Rightarrow> u256 panics" where
  "stable_dp invariant num_tokens [] d_p = Some d_p"
| "stable_dp invariant num_tokens (b # bs) d_p = do {
     d \<leftarrow> pdiv (d_p * invariant) (b * num_tokens);
     stable_dp invariant num_tokens bs d
   }"

definition stable_newton ::
    "u256 \<Rightarrow> u256 \<Rightarrow> u256 \<Rightarrow> u256 \<Rightarrow> u256 list \<Rightarrow> u256 \<Rightarrow> (u256, u256 panics) iteration" where
  "stable_newton amp_times_total amp_precision num_tokens tot balances invariant =
     (case stable_dp invariant num_tokens balances invariant of
        None \<Rightarrow> Break None
      | Some d_p \<Rightarrow>
          let prev = invariant;
              numerator = ((amp_times_total * tot) div amp_precision + d_p * num_tokens) * invariant;
              denominator = ((amp_times_total - amp_precision) * invariant) div amp_precision
                            + (num_tokens + 1) * d_p
          in if denominator = 0 then Break (Some 0)
             else
               let invariant = numerator div denominator
               in if abs_diff invariant prev \<le> 1 then Break (Some invariant) else Continue invariant)"

definition calculate_balancer_stable_invariant :: "u256 \<Rightarrow> u256 list \<Rightarrow> u256 \<Rightarrow> u256 panics" where
  "calculate_balancer_stable_invariant amp balances amp_precision =
     (if length balances < 2 \<or> amp = 0 \<or> amp_precision = 0 then Some 0
      else
        let num_tokens = of_nat (length balances)
        in if \<exists>b \<in> set balances. b = 0 then Some 0
        else
          let tot = sum_list balances
          in if tot = 0 then Some 0
          else
            let amp_times_total = amp * num_tokens
            in if amp_times_total \<le> amp_precision then Some 0
            else for_loop BAL_MAX_ITERATIONS
                   (stable_newton amp_times_total amp_precision num_tokens tot balances)
                   (\<lambda>_. Some 0) tot)"

text \<open>The product and the sum over the balances after the first; the code answers zero at a zero balance.\<close>

fun stable_pd :: "u256 \<Rightarrow> u256 \<Rightarrow> u256 list \<Rightarrow> u256 \<times> u256 \<Rightarrow> (u256 \<times> u256) option" where
  "stable_pd invariant num_tokens [] (tot, p_d) = Some (tot, p_d)"
| "stable_pd invariant num_tokens (b # bs) (tot, p_d) =
     (if b = 0 then None
      else stable_pd invariant num_tokens bs (tot + b, (p_d * b * num_tokens) div invariant))"

definition balance_newton :: "u256 \<Rightarrow> u256 \<Rightarrow> u256 \<Rightarrow> u256 \<Rightarrow> (u256, u256) iteration" where
  "balance_newton invariant b c token_balance =
     (let prev = token_balance; denominator = 2 * token_balance + b - invariant
      in if denominator = 0 then Break 0
         else
           let token_balance = div_rounding_up_or_zero (token_balance * token_balance + c) denominator
           in if abs_diff token_balance prev \<le> 1 then Break token_balance else Continue token_balance)"

definition token_balance_given_invariant ::
    "u256 \<Rightarrow> u256 list \<Rightarrow> u256 \<Rightarrow> nat \<Rightarrow> u256 \<Rightarrow> u256 panics" where
  "token_balance_given_invariant amp balances invariant token_index amp_precision =
     (let num_tokens = of_nat (length balances); amp_times_total = amp * num_tokens
      in if amp_times_total = 0 \<or> invariant = 0 then Some 0
      else do {
        first \<leftarrow> nth_opt balances 0;
        case stable_pd invariant num_tokens (drop 1 balances) (first, first * num_tokens) of
          None \<Rightarrow> Some 0
        | Some (tot, p_d) \<Rightarrow> do {
            indexed \<leftarrow> nth_opt balances token_index;
            if indexed = 0 \<or> p_d = 0 then Some 0
            else
              let tot = tot - indexed;
                  inv2 = invariant * invariant;
                  c = div_rounding_up_or_zero (inv2 * amp_precision * indexed) (amp_times_total * p_d);
                  b = tot + (invariant * amp_precision) div amp_times_total
              in Some (for_loop BAL_MAX_ITERATIONS (balance_newton invariant b c) id
                         (div_rounding_up_or_zero (inv2 + c) (invariant + b)))
          }
      })"

text \<open>
  The pass over the balances of a stable pool: the pool's own token is left out, every other balance
  is scaled, and the positions of the two swapped tokens in the shorter list are remembered.
\<close>

fun stable_scale :: "nat option \<Rightarrow> nat \<Rightarrow> nat \<Rightarrow> nat \<Rightarrow> (u256 \<times> u256) list \<Rightarrow>
    u256 list \<times> nat option \<times> nat option \<Rightarrow> u256 list \<times> nat option \<times> nat option" where
  "stable_scale bpt in_idx out_idx i [] st = st"
| "stable_scale bpt in_idx out_idx i ((balance, factor) # rest) (scaled, stable_in, stable_out) =
     (if bpt = Some i then stable_scale bpt in_idx out_idx (Suc i) rest (scaled, stable_in, stable_out)
      else
        let stable_idx = length scaled
        in stable_scale bpt in_idx out_idx (Suc i) rest
             (scaled @ [(balance * factor) div ONE],
              if i = in_idx then Some stable_idx else stable_in,
              if i = out_idx then Some stable_idx else stable_out))"

definition stable_out ::
    "BalancerPoolState \<Rightarrow> u256 list \<Rightarrow> nat \<Rightarrow> nat \<Rightarrow> u256 \<Rightarrow> u256 \<Rightarrow> u256 \<Rightarrow> u256 panics" where
  "stable_out pool scaled_balances stable_in_idx stable_out_idx scaled_amount_in scaling_out bal_out =
     (let amp_precision = (if bal_amp_precision pool = 0 then DEFAULT_AMP_PRECISION else bal_amp_precision pool)
      in do {
        invariant \<leftarrow> calculate_balancer_stable_invariant (bal_amp pool) scaled_balances amp_precision;
        if invariant = 0 then Some 0
        else do {
          original_out \<leftarrow> nth_opt scaled_balances stable_out_idx;
          original_in \<leftarrow> nth_opt scaled_balances stable_in_idx;
          let scaled_balances = scaled_balances[stable_in_idx := original_in + scaled_amount_in];
          final_balance_out \<leftarrow>
            token_balance_given_invariant (bal_amp pool) scaled_balances invariant stable_out_idx amp_precision;
          if final_balance_out = 0 \<or> final_balance_out \<ge> original_out then Some 0
          else
            let scaled_amount_out = original_out - final_balance_out - 1
            in if scaled_amount_out = 0 then Some 0
            else do {
              amount_out \<leftarrow> pdiv (scaled_amount_out * ONE) scaling_out;
              Some (zero_unless_covered amount_out bal_out)
            }
        }
      })"

definition get_balancer_stable_amount_out :: "BalancerPoolState \<Rightarrow> u256 \<Rightarrow> nat \<Rightarrow> nat \<Rightarrow> u256 panics" where
  "get_balancer_stable_amount_out pool amount_in in_idx out_idx =
     (let balances = bal_balances pool; scaling = bal_scaling_factors pool; n = length balances
      in if length scaling \<noteq> length balances then Some 0
      else if bal_bpt_index pool = Some in_idx \<or> bal_bpt_index pool = Some out_idx then Some 0
      else if in_idx \<ge> n \<or> out_idx \<ge> n then Some 0
      else
        case stable_scale (bal_bpt_index pool) in_idx out_idx 0 (zip balances scaling) ([], None, None) of
          (scaled_balances, Some stable_in_idx, Some stable_out_idx) \<Rightarrow>
            if \<exists>b \<in> set scaled_balances. b = 0 then Some 0
            else
              let fee = resolve_swap_fee (bal_fee pool)
              in if fee \<ge> ONE \<or> scaling ! in_idx = 0 \<or> scaling ! out_idx = 0 then Some 0
              else if exceeds_balancer_max_in_ratio amount_in (balances ! in_idx) then Some 0
              else
                let amount_in_after_fee = (amount_in * complement fee) div ONE;
                    scaled_amount_in = (amount_in_after_fee * scaling ! in_idx) div ONE
                in if scaled_amount_in = 0 then Some 0
                else stable_out pool scaled_balances stable_in_idx stable_out_idx scaled_amount_in
                       (scaling ! out_idx) (balances ! out_idx)
        | _ \<Rightarrow> Some 0)"

definition linear_to_nominal :: "u256 \<Rightarrow> u256 \<Rightarrow> u256 \<Rightarrow> u256 \<Rightarrow> u256 option" where
  "linear_to_nominal real fee lower upper =
     (if real < lower then checked_sub real (mul_down (lower - real) fee)
      else if real \<le> upper then Some real
      else checked_sub real (mul_down (real - upper) fee))"

definition linear_from_nominal :: "u256 \<Rightarrow> u256 \<Rightarrow> u256 \<Rightarrow> u256 \<Rightarrow> u256 option" where
  "linear_from_nominal nominal fee lower upper =
     (if nominal < lower then do {
        denominator \<leftarrow> checked_add ONE fee;
        n \<leftarrow> checked_add nominal (mul_down fee lower);
        checked_div (n * ONE) denominator
      }
      else if nominal \<le> upper then Some nominal
      else do {
        denominator \<leftarrow> checked_sub ONE fee;
        n \<leftarrow> checked_sub nominal (mul_down fee upper);
        checked_div (n * ONE) denominator
      })"

text \<open>The scaled output of a linear swap; the outer option is the panic, the inner one \<open>return ZERO\<close>.\<close>

definition linear_scaled_out ::
    "BalancerLinearState \<Rightarrow> u256 \<Rightarrow> u256 \<Rightarrow> u256 \<Rightarrow> nat \<Rightarrow> nat \<Rightarrow> u256 option panics" where
  "linear_scaled_out linear main_balance scaled_in fee in_idx out_idx =
     (let lo = lower_target linear; hi = upper_target linear
      in if in_idx = main_index linear \<and> out_idx = wrapped_index linear then
           (case do { before \<leftarrow> linear_to_nominal main_balance fee lo hi;
                      after_balance \<leftarrow> checked_add main_balance scaled_in;
                      after \<leftarrow> linear_to_nominal after_balance fee lo hi;
                      Some (after - before) } of
              None \<Rightarrow> Some None
            | Some d \<Rightarrow> do { q \<leftarrow> pdiv (d * ONE) (wrapped_rate linear); Some (Some q) })
         else if in_idx = wrapped_index linear \<and> out_idx = main_index linear then
           Some (do { before \<leftarrow> linear_to_nominal main_balance fee lo hi;
                      after_nominal \<leftarrow> checked_sub before (mul_down scaled_in (wrapped_rate linear));
                      after_balance \<leftarrow> linear_from_nominal after_nominal fee lo hi;
                      checked_sub main_balance after_balance })
         else Some None)"

definition get_balancer_linear_amount_out :: "BalancerPoolState \<Rightarrow> u256 \<Rightarrow> nat \<Rightarrow> nat \<Rightarrow> u256 panics" where
  "get_balancer_linear_amount_out pool amount_in in_idx out_idx =
     (case bal_linear pool of
        None \<Rightarrow> Some 0
      | Some linear \<Rightarrow>
          let balances = bal_balances pool; scaling = bal_scaling_factors pool
          in if in_idx \<ge> length balances \<or> out_idx \<ge> length balances
              \<or> main_index linear \<ge> length balances \<or> wrapped_index linear \<ge> length balances
              \<or> length scaling \<noteq> length balances \<or> scaling ! in_idx = 0 \<or> scaling ! out_idx = 0
              \<or> wrapped_rate linear = 0 then Some 0
          else if exceeds_balancer_max_in_ratio amount_in (balances ! in_idx) then Some 0
          else
            let scaled_in = amount_in * scaling ! in_idx div ONE;
                main_balance = balances ! main_index linear * scaling ! main_index linear div ONE;
                fee = resolve_swap_fee (bal_fee pool)
            in do {
              scaled \<leftarrow> linear_scaled_out linear main_balance scaled_in fee in_idx out_idx;
              or_return_zero scaled (\<lambda>scaled_out. do {
                amount_out \<leftarrow> pdiv (scaled_out * ONE) (scaling ! out_idx);
                Some (if amount_out > balances ! out_idx then 0 else amount_out)
              })
            })"

definition simulate_balancer_swap :: "BalancerPoolState \<Rightarrow> u256 \<Rightarrow> nat \<Rightarrow> nat \<Rightarrow> u256 panics" where
  "simulate_balancer_swap pool amount_in in_idx out_idx =
     (if amount_in = 0 \<or> in_idx = out_idx then Some 0
      else if in_idx \<ge> length (bal_balances pool) \<or> out_idx \<ge> length (bal_balances pool) then Some 0
      else case bal_pool_type pool of
        Weighted \<Rightarrow> get_balancer_weighted_amount_out pool amount_in in_idx out_idx
      | Stable \<Rightarrow> get_balancer_stable_amount_out pool amount_in in_idx out_idx
      | Linear \<Rightarrow> get_balancer_linear_amount_out pool amount_in in_idx out_idx)"

section \<open>No panic, and never more than the balance\<close>

lemma or_return_zero_within:
  "(\<And>x. e = Some x \<Longrightarrow> quotes_within (k x) r) \<Longrightarrow> quotes_within (or_return_zero e k) r"
  by (cases e) (simp_all add: or_return_zero_def)

lemma zero_unless_covered_le [simp]: "zero_unless_covered a b \<le> b"
  by (auto simp: zero_unless_covered_def)

lemma weighted_out_within:
  assumes "w_out \<noteq> 0" and "scaling_out \<noteq> 0"
  shows "quotes_within (weighted_out sbi sbo sai w_in w_out scaling_out bal_out) bal_out"
proof -
  have pow: "quotes_within (Option.bind (pow_down b e) f) bal_out"
    if "\<And>p. quotes_within (f p) bal_out" for b e f
    using pow_down_total [of b e] that by auto
  show ?thesis
    unfolding weighted_out_def Let_def
    using assms by (auto intro!: pow or_return_zero_within)
qed

lemma weighted_within:
  assumes "out_idx < length (bal_balances pool)"
  shows "quotes_within (get_balancer_weighted_amount_out pool amount_in in_idx out_idx) (bal_balances pool ! out_idx)"
  unfolding get_balancer_weighted_amount_out_def Let_def
  by (auto intro!: or_return_zero_within weighted_out_within)

text \<open>The divisor of the stable product never wraps to zero: a scaled balance is below \<open>2^197\<close>.\<close>

lemma scaled_balance_small: "unat ((b * s) div ONE) < 2 ^ 197" for b s :: u256
  using unat_lt_256 [of "b * s"] by (simp add: unat_div_word unat_ONE div_less_iff_less_mult)

definition stable_small :: "u256 list \<Rightarrow> bool" where
  "stable_small bs \<longleftrightarrow> (\<forall>b \<in> set bs. unat b < 2 ^ 197) \<and> length bs < 2 ^ 32"

lemma times_tokens_nz:
  assumes "unat (b :: u256) < 2 ^ 197" and "b \<noteq> 0" and "0 < n" and "n < 2 ^ 32"
  shows "b * of_nat n \<noteq> 0"
proof -
  have n: "unat (of_nat n :: u256) = n" using assms(4) by (intro unat_of_nat_fits) simp
  have "unat b * n < 2 ^ 197 * 2 ^ 32" using assms by (intro mult_strict_mono) simp_all
  then have "unat (b * of_nat n) = unat b * n" by (simp add: unat_mult_nowrap n)
  moreover have "0 < unat b * n" using assms unat_ne_0 by simp
  ultimately show ?thesis by auto
qed

lemma stable_dp_total:
  assumes "\<forall>b \<in> set bs. b * n \<noteq> 0"
  shows "\<exists>d. stable_dp dd n bs dp = Some d"
  using assms by (induction bs arbitrary: dp) auto

lemma stable_newton_total:
  assumes "\<forall>b \<in> set bs. b * n \<noteq> 0"
  shows "stable_newton at ap n tot bs dd \<noteq> Break None"
  using stable_dp_total [OF assms, of dd dd] by (auto simp: stable_newton_def Let_def split: if_splits)

interpretation stable_loop: loop_invariant "stable_newton at ap n tot bs" "\<lambda>_. Some 0"
    "\<lambda>_. \<forall>b \<in> set bs. b * n \<noteq> 0" "\<lambda>r. r \<noteq> None" for at ap n tot bs
proof
  show "r \<noteq> None" if "\<forall>b \<in> set bs. b * n \<noteq> 0" and "stable_newton at ap n tot bs s = Break r" for s r
    using stable_newton_total [OF that(1), of at ap tot s] that(2) by auto
qed simp_all

lemma stable_invariant_total:
  assumes "stable_small bs"
  shows "\<exists>d. calculate_balancer_stable_invariant amp bs ap = Some d"
proof (cases "length bs < 2 \<or> (\<exists>b \<in> set bs. b = 0)")
  case True
  then show ?thesis by (auto simp: calculate_balancer_stable_invariant_def Let_def)
next
  case False
  then have nz: "\<forall>b \<in> set bs. b * of_nat (length bs) \<noteq> 0"
    using assms by (intro ballI times_tokens_nz) (auto simp: stable_small_def)
  then have "for_loop m (stable_newton at ap (of_nat (length bs)) tot bs) (\<lambda>_. Some 0) dd \<noteq> None"
    for m at tot dd by (rule stable_loop.for_loop_post)
  then show ?thesis by (auto simp: calculate_balancer_stable_invariant_def Let_def)
qed

lemma token_balance_total:
  assumes "token_index < length bs"
  shows "\<exists>b. token_balance_given_invariant amp bs dd token_index ap = Some b"
  using assms by (auto simp: token_balance_given_invariant_def nth_opt_def Let_def split: option.split)

lemma stable_out_within:
  assumes "stable_small bs" and "j < length bs" and "i < length bs" and "scaling_out \<noteq> 0"
  shows "quotes_within (stable_out pool bs i j amount scaling_out bal_out) bal_out"
proof -
  obtain dd where "calculate_balancer_stable_invariant (bal_amp pool) bs
      (if bal_amp_precision pool = 0 then DEFAULT_AMP_PRECISION else bal_amp_precision pool) = Some dd"
    using stable_invariant_total [OF assms(1)] by blast
  moreover obtain f where "token_balance_given_invariant (bal_amp pool) (bs[i := bs ! i + amount]) dd j
      (if bal_amp_precision pool = 0 then DEFAULT_AMP_PRECISION else bal_amp_precision pool) = Some f"
    using token_balance_total [of j "bs[i := bs ! i + amount]"] assms(2) by (metis length_list_update)
  ultimately show ?thesis
    using assms by (simp add: stable_out_def nth_opt_def Let_def del: if_split)
qed

text \<open>The scaling pass: its balances are small, and a found position is a position of the scaled list.\<close>

lemma stable_scale_props:
  assumes "stable_scale bpt in_idx out_idx k xs (scaled, si, so) = (scaled', si', so')"
    and "\<forall>b \<in> set scaled. unat b < 2 ^ 197"
    and "\<And>p. si = Some p \<Longrightarrow> p < length scaled" and "\<And>p. so = Some p \<Longrightarrow> p < length scaled"
  shows "(\<forall>b \<in> set scaled'. unat b < 2 ^ 197) \<and> length scaled' \<le> length scaled + length xs
    \<and> (\<forall>p. si' = Some p \<longrightarrow> p < length scaled') \<and> (\<forall>p. so' = Some p \<longrightarrow> p < length scaled')"
  using assms
proof (induction xs arbitrary: k scaled si so)
  case (Cons x xs)
  obtain b f where x: "x = (b, f)" by (cases x)
  show ?case
  proof (cases "bpt = Some k")
    case True
    then show ?thesis using Cons.IH [of "Suc k" scaled si so] Cons.prems by (simp add: x)
  next
    case False
    let ?si = "if k = in_idx then Some (length scaled) else si"
    let ?so = "if k = out_idx then Some (length scaled) else so"
    let ?sc = "scaled @ [(b * f) div ONE]"
    have "stable_scale bpt in_idx out_idx (Suc k) xs (?sc, ?si, ?so) = (scaled', si', so')"
      using Cons.prems(1) False by (simp add: x Let_def)
    moreover have "\<forall>b \<in> set ?sc. unat b < 2 ^ 197"
      using Cons.prems(2) scaled_balance_small [of b f] by simp
    moreover have "p < length ?sc" if "?si = Some p" for p
      using that Cons.prems(3) [of p] by (cases "k = in_idx") simp_all
    moreover have "p < length ?sc" if "?so = Some p" for p
      using that Cons.prems(4) [of p] by (cases "k = out_idx") simp_all
    ultimately have "(\<forall>b \<in> set scaled'. unat b < 2 ^ 197) \<and> length scaled' \<le> length ?sc + length xs
        \<and> (\<forall>p. si' = Some p \<longrightarrow> p < length scaled') \<and> (\<forall>p. so' = Some p \<longrightarrow> p < length scaled')"
      by (rule Cons.IH)
    then show ?thesis by simp
  qed
qed simp

lemma stable_within:
  assumes "out_idx < length (bal_balances pool)" and "length (bal_balances pool) < 2 ^ 32"
  shows "quotes_within (get_balancer_stable_amount_out pool amount_in in_idx out_idx) (bal_balances pool ! out_idx)"
proof -
  obtain bs si so where sc: "stable_scale (bal_bpt_index pool) in_idx out_idx 0
      (zip (bal_balances pool) (bal_scaling_factors pool)) ([], None, None) = (bs, si, so)"
    by (metis surj_pair)
  have "stable_small bs" and "\<And>p. si = Some p \<Longrightarrow> p < length bs" and "\<And>p. so = Some p \<Longrightarrow> p < length bs"
    using stable_scale_props [OF sc] assms(2) by (auto simp: stable_small_def)
  then show ?thesis
    by (cases si; cases so)
       (simp_all add: get_balancer_stable_amount_out_def sc Let_def stable_out_within)
qed

lemma linear_within:
  assumes "out_idx < length (bal_balances pool)"
  shows "quotes_within (get_balancer_linear_amount_out pool amount_in in_idx out_idx) (bal_balances pool ! out_idx)"
proof (cases "bal_linear pool")
  case (Some linear)
  have "\<exists>r. linear_scaled_out linear mb si fee in_idx out_idx = Some r" if "wrapped_rate linear \<noteq> 0" for mb si fee
    using that by (auto simp: linear_scaled_out_def Let_def split: option.split)
  then have bind: "quotes_within (Option.bind (linear_scaled_out linear mb si fee in_idx out_idx) f) r"
    if "wrapped_rate linear \<noteq> 0" and "\<And>x. quotes_within (f x) r" for mb si fee f r
    using that by (metis Option.bind.bind_lunit)
  then show ?thesis
    unfolding get_balancer_linear_amount_out_def Some
    by (auto simp: Let_def intro!: or_return_zero_within bind)
qed (simp add: get_balancer_linear_amount_out_def)

section \<open>The contract of a pool family\<close>

definition balancer_reserve :: "BalancerPoolState \<Rightarrow> nat \<times> nat \<Rightarrow> u256" where
  "balancer_reserve pool dir =
     (if snd dir < length (bal_balances pool) then bal_balances pool ! snd dir else 0)"

definition balancer_quote :: "BalancerPoolState \<Rightarrow> u256 \<Rightarrow> nat \<times> nat \<Rightarrow> u256 panics" where
  "balancer_quote pool amount dir = simulate_balancer_swap pool amount (fst dir) (snd dir)"

interpretation balancer: bounded_quote balancer_quote balancer_reserve
    "\<lambda>pool. length (bal_balances pool) < 2 ^ 32"
proof
  show "quotes_within (balancer_quote pool amount dir) (balancer_reserve pool dir)"
    if "length (bal_balances pool) < 2 ^ 32" for pool amount dir
    using that weighted_within [of "snd dir" pool amount "fst dir"]
      stable_within [of "snd dir" pool amount "fst dir"] linear_within [of "snd dir" pool amount "fst dir"]
    by (auto simp: balancer_quote_def balancer_reserve_def simulate_balancer_swap_def
        split: BalancerPoolKind.split)
  show "balancer_quote pool 0 dir = Some 0" for pool dir
    by (simp add: balancer_quote_def simulate_balancer_swap_def)
qed

section \<open>The input limit\<close>

lemma max_in_ratio:
  assumes "\<not> exceeds_balancer_max_in_ratio a b"
  shows "10 * unat a \<le> 3 * unat b"
proof -
  obtain l where l: "checked_mul b MAX_IN_RATIO = Some l" and a: "a \<le> l div ONE"
    using assms by (auto simp: exceeds_balancer_max_in_ratio_def not_less split: option.splits)
  have "unat l = unat b * 300000000000000000"
    using l by (simp add: checked_mul_iff MAX_IN_RATIO_def from_limbs_def)
  then have "unat a \<le> unat b * 300000000000000000 div 10 ^ 18"
    using a by (simp add: word_le_nat_alt unat_div_word unat_ONE)
  then show ?thesis by (simp add: less_eq_div_iff_mult_less_eq)
qed

lemma or_return_zero_SomeD: "or_return_zero e k = Some out \<Longrightarrow> out \<noteq> 0 \<Longrightarrow> \<exists>x. e = Some x \<and> k x = Some out"
  by (cases e) (simp_all add: or_return_zero_def)

lemma positive_quote_respects_limit:
  assumes "simulate_balancer_swap pool amount i j = Some out" and "out \<noteq> 0"
  shows "\<not> exceeds_balancer_max_in_ratio amount (bal_balances pool ! i)"
proof (cases "bal_pool_type pool")
  case Weighted
  then show ?thesis
    using assms by (auto simp: simulate_balancer_swap_def get_balancer_weighted_amount_out_def Let_def
        split: if_splits)
next
  case Stable
  then show ?thesis
    using assms by (auto simp: simulate_balancer_swap_def get_balancer_stable_amount_out_def Let_def
        split: if_splits prod.splits option.splits)
next
  case Linear
  then show ?thesis
    using assms by (auto simp: simulate_balancer_swap_def get_balancer_linear_amount_out_def Let_def
        split: if_splits option.splits)
qed

section \<open>The linear target range\<close>

lemma mul_div_add_le: "f \<le> S \<Longrightarrow> 0 < S \<Longrightarrow> (x + d) * f div S \<le> x * f div S + d" for x d f S :: nat
proof -
  assume "f \<le> S" and "0 < S"
  then have "(x + d) * f \<le> x * f + d * S" by (simp add: add_mult_distrib)
  then have "(x + d) * f div S \<le> (x * f + d * S) div S" by (rule div_le_mono)
  with \<open>0 < S\<close> show ?thesis by simp
qed

definition nominal :: "nat \<Rightarrow> nat \<Rightarrow> nat \<Rightarrow> nat \<Rightarrow> int" where
  "nominal f lo hi r =
     (if r < lo then int r - int ((lo - r) * f div 10 ^ 18)
      else if r \<le> hi then int r else int r - int ((r - hi) * f div 10 ^ 18))"

lemma linear_to_nominal_int:
  assumes "f \<le> ONE" and "linear_to_nominal r f lo hi = Some x"
  shows "int (unat x) = nominal (unat f) (unat lo) (unat hi) (unat r)"
  using assms(2)
  by (auto simp: linear_to_nominal_def nominal_def checked_sub_iff unat_mul_down_rate [OF assms(1)]
      unat_sub_nowrap word_less_nat_alt word_le_nat_alt simp del: of_nat_unat split: if_splits)

lemma nominal_mono:
  assumes "f \<le> 10 ^ 18" and "lo \<le> hi" and "a \<le> b"
  shows "nominal f lo hi a \<le> nominal f lo hi b"
proof -
  have below: "nominal f lo hi a \<le> int a" for a by (simp add: nominal_def)
  have drop: "(lo - b) * f div 10 ^ 18 \<le> (lo - a) * f div 10 ^ 18"
    using assms(3) by (intro div_le_mono mult_le_mono1) simp
  have grow: "(b - hi) * f div 10 ^ 18 \<le> (a' - hi) * f div 10 ^ 18 + (b - a')" if "hi \<le> a'" "a' \<le> b" for a'
    using mul_div_add_le [OF assms(1), of "a' - hi" "b - a'"] that by simp
  consider "b < lo" | "lo \<le> b" "b \<le> hi" | "hi < b" "a \<le> hi" | "hi < a" using assms(3) by linarith
  then show ?thesis
  proof cases
    case 1 then show ?thesis using drop assms(3) by (simp add: nominal_def)
  next
    case 2 then show ?thesis using below [of a] assms(3) by (simp add: nominal_def)
  next
    case 3
    have "int hi \<le> nominal f lo hi b" using grow [of hi] 3 assms(2) by (simp add: nominal_def)
    with below [of a] 3 show ?thesis by simp
  next
    case 4 then show ?thesis using grow [of a] assms(2,3) by (simp add: nominal_def)
  qed
qed

section \<open>A balanced stable pool\<close>

lemma stable_dp_balanced:
  assumes "b * n = d" and "d \<noteq> 0" and "unat d * unat d < 2 ^ 256"
  shows "stable_dp d n (replicate m b) d = Some d"
  using assms by (induction m) (simp_all add: square_div_self)

lemma stable_newton_balanced:
  fixes at ap n d :: u256
  assumes d: "b * n = d" "d \<noteq> 0" "unat d * unat d < 2 ^ 256" and ap: "ap \<noteq> 0" "ap \<le> at"
    and fits: "unat at * unat d < 2 ^ 256" "(unat n + 1) * unat d < 2 ^ 256"
      "(unat at * unat d div unat ap + unat d * unat n) * unat d < 2 ^ 256" and n: "n \<noteq> 0"
  shows "stable_newton at ap n d (replicate m b) d = Break (Some d)"
  using balanced_newton_step [OF d(2) ap fits n]
  by (simp add: stable_newton_def stable_dp_balanced [OF d] Let_def abs_diff_def)

section \<open>Properties\<close>

text \<open>
  Property C24. A Balancer quote of any pool kind, for any input and any pair of indices, never panics and
  never exceeds the pool's balance of the output token; a quote above zero means that the input respects
  the vault's limit of 30 percent of the input balance.
\<close>

theorem balancer_quote_bounded:
  assumes "length (bal_balances pool) < 2 ^ 32"
  shows "\<exists>out. simulate_balancer_swap pool amount i j = Some out
    \<and> (j < length (bal_balances pool) \<longrightarrow> out \<le> bal_balances pool ! j)
    \<and> (out \<noteq> 0 \<longrightarrow> 10 * unat amount \<le> 3 * unat (bal_balances pool ! i))"
proof -
  obtain out where out: "simulate_balancer_swap pool amount i j = Some out"
    using balancer.quote_total [OF assms, of amount "(i, j)"] by (auto simp: balancer_quote_def)
  then have "out \<le> balancer_reserve pool (i, j)"
    using balancer.quote_le_reserve [OF assms, of amount "(i, j)" out] by (simp add: balancer_quote_def)
  moreover have "10 * unat amount \<le> 3 * unat (bal_balances pool ! i)" if "out \<noteq> 0"
    using positive_quote_respects_limit [OF out that] by (rule max_in_ratio)
  ultimately show ?thesis using out by (auto simp: balancer_reserve_def)
qed

definition sample_weighted_pool :: BalancerPoolState where
  "sample_weighted_pool =
     \<lparr>bal_pool_id = None, bal_tokens = [1, 2], bal_balances = [1000000, 2000000],
      bal_weights = [ONE, ONE], bal_scaling_factors = [ONE, ONE], bal_amp = 0, bal_amp_precision = 0,
      bal_fee = 0, bal_pool_type = Weighted, bal_linear = None, bal_bpt_index = None,
      bal_is_updating = False, bal_last_change_block = 0\<rparr>"

theorem balancer_quote_bounded_witness:
  "length (bal_balances sample_weighted_pool) < 2 ^ 32
    \<and> (\<exists>out. simulate_balancer_swap sample_weighted_pool 100 0 1 = Some out
          \<and> out \<le> bal_balances sample_weighted_pool ! 1)"
  using balancer_quote_bounded [of sample_weighted_pool 100 0 1] by (auto simp: sample_weighted_pool_def)

text \<open>
  On a balanced stable pool the Newton iteration is exact: with \<open>k\<close> equal scaled balances
  whose products fit 256 bits, the first iteration already returns the sum of the balances, whatever the
  amplification and its precision.
\<close>

theorem stable_invariant_balanced:
  fixes amp ap b :: u256 and k :: nat
  defines "D \<equiv> unat b * k"
  assumes "2 \<le> k" and "b \<noteq> 0" and "ap \<noteq> 0" and "unat ap < unat amp * k"
    and "unat amp * k * D < 2 ^ 256" and "(k + 1) * D < 2 ^ 256"
    and "(unat amp * k * D div unat ap + D * k) * D < 2 ^ 256"
  shows "\<exists>d. calculate_balancer_stable_invariant amp (replicate k b) ap = Some d \<and> unat d = D"
proof -
  define n where "n = (of_nat k :: u256)"
  define d where "d = b * n"
  note facts = balanced_word_facts [OF assms(2,3,5) assms(6-8) [unfolded D_def], folded n_def, folded d_def D_def]
  have "stable_newton (amp * n) ap n d (replicate k b) d = Break (Some d)"
    using assms(4,6-8) facts by (intro stable_newton_balanced) (simp_all add: d_def [symmetric])
  then have "for_loop BAL_MAX_ITERATIONS (stable_newton (amp * n) ap n d (replicate k b)) (\<lambda>_. Some 0) d = Some d"
    by (simp add: BAL_MAX_ITERATIONS_def numeral_eq_Suc)
  then have "calculate_balancer_stable_invariant amp (replicate k b) ap = Some d"
    using assms(2-4) facts
    by (simp add: calculate_balancer_stable_invariant_def Let_def not_less not_le flip: n_def)
  then show ?thesis using facts(2) by blast
qed

theorem stable_invariant_balanced_witness:
  "2 \<le> (2 :: nat) \<and> (\<exists>d. calculate_balancer_stable_invariant 100000 (replicate 2 (10 ^ 24)) 1000 = Some d
     \<and> unat d = 2 * 10 ^ 24)"
  using stable_invariant_balanced [of 2 "10 ^ 24" 1000 100000] by simp

text \<open>
  In a linear pool the conversion from real to nominal balances is monotone for every fee up
  to one, so the subtraction \<open>after - before\<close> of a main-token deposit never wraps.
\<close>

theorem linear_nominal_monotone:
  assumes "fee \<le> ONE" and "lo \<le> hi" and "before \<le> after"
    and "linear_to_nominal before fee lo hi = Some x" and "linear_to_nominal after fee lo hi = Some y"
  shows "x \<le> y"
proof -
  have "unat fee \<le> 10 ^ 18" "unat lo \<le> unat hi" "unat before \<le> unat after"
    using assms(1-3) by (simp_all add: word_le_nat_alt unat_ONE)
  from nominal_mono [OF this] have "int (unat x) \<le> int (unat y)"
    by (simp only: linear_to_nominal_int [OF assms(1,4)] linear_to_nominal_int [OF assms(1,5)])
  then show ?thesis by (simp only: of_nat_le_iff word_le_nat_alt)
qed

theorem linear_nominal_monotone_witness:
  "\<exists>x y. (10 ^ 16 :: u256) \<le> ONE \<and> linear_to_nominal 50 (10 ^ 16) 100 200 = Some x
     \<and> linear_to_nominal 400 (10 ^ 16) 100 200 = Some y \<and> x \<le> y"
proof -
  have "linear_to_nominal 50 (10 ^ 16) 100 200 = Some 50" "linear_to_nominal 400 (10 ^ 16) 100 200 = Some 398"
    by (simp_all add: linear_to_nominal_def mul_down_def checked_defs ONE_def from_limbs_def)
  moreover have "(10 ^ 16 :: u256) \<le> ONE" by (simp add: ONE_def from_limbs_def)
  ultimately show ?thesis using linear_nominal_monotone [of "10 ^ 16" 100 200 50 400 50 398] by auto
qed

end
