(* ===== verification/Curve.thy ===== *)
theory Curve
  imports BoundedLoop QuoteContract LogExpMath StableMath
begin

text \<open>
  Curve stable pools: \<open>src/core/math/curve.rs\<close>. The invariant \<open>D\<close> and the new balance \<open>y\<close> are Newton
  iterations of at most 128 steps; both return an option as the code does, and the outer option of
  \<open>get_y\<close> is the panic of its one unguarded division.
\<close>

section \<open>The code\<close>

definition CURVE_FEE_DENOMINATOR :: u256 where "CURVE_FEE_DENOMINATOR = from_limbs 10000000000 0 0 0"
definition A_PRECISION :: u256 where "A_PRECISION = from_limbs 100 0 0 0"
definition CURVE_MAX_ITERATIONS :: nat where "CURVE_MAX_ITERATIONS = 128"
definition CURVE_OUTPUT_BUFFER :: u256 where "CURVE_OUTPUT_BUFFER = from_limbs 5000000 0 0 0"

definition curve_fee_bps_from_pool :: "u256 \<Rightarrow> u32 option" where
  "curve_fee_bps_from_pool fee =
     (if fee = 0 \<or> fee \<ge> CURVE_FEE_DENOMINATOR then None
      else let bps = (fee * 10000) div CURVE_FEE_DENOMINATOR in Some (ucast (min bps 9999)))"

definition dynamic_fee :: "u256 \<Rightarrow> u256 \<Rightarrow> u256 \<Rightarrow> u256 \<Rightarrow> u256" where
  "dynamic_fee xpi xpj fee offpeg_mult =
     (if offpeg_mult \<le> CURVE_FEE_DENOMINATOR \<or> xpi = 0 \<or> xpj = 0 then fee
      else
        let s = xpi + xpj; xps2 = saturating_mul s s
        in if xps2 = 0 then fee
        else
          let numerator = saturating_mul offpeg_mult fee;
              prod = saturating_mul (saturating_mul xpi xpj) 4;
              imbalance = saturating_mul (offpeg_mult - CURVE_FEE_DENOMINATOR) prod div xps2;
              denom = saturating_add imbalance CURVE_FEE_DENOMINATOR
          in if denom = 0 then fee else numerator div denom)"

fun curve_dp :: "u256 \<Rightarrow> u256 \<Rightarrow> u256 list \<Rightarrow> u256 \<Rightarrow> u256 option" where
  "curve_dp d n [] d_p = Some d_p"
| "curve_dp d n (x # xp) d_p =
     (let xn = x * n in if xn = 0 then None else curve_dp d n xp ((d_p * d) div xn))"

definition get_d_step ::
    "u256 list \<Rightarrow> u256 \<Rightarrow> u256 \<Rightarrow> u256 \<Rightarrow> u256 \<Rightarrow> u256 \<Rightarrow> (u256, u256 option) iteration" where
  "get_d_step xp n ann_s ann_minus_p n_plus_1 d =
     (case do { d_p \<leftarrow> curve_dp d n xp d;
                ann_d \<leftarrow> checked_mul ann_minus_p d;
                hop_term \<leftarrow> checked_mul n_plus_1 d_p;
                denominator \<leftarrow> checked_add (ann_d div A_PRECISION) hop_term;
                if denominator = 0 then None else Some (d_p, denominator) } of
        None \<Rightarrow> Break None
      | Some (d_p, denominator) \<Rightarrow>
          let d_prev = d;
              d = ((ann_s + d_p * n) * d) div denominator
          in if abs_diff d d_prev \<le> 1 then Break (Some d) else Continue d)"

definition get_d :: "u256 list \<Rightarrow> u256 \<Rightarrow> u256 option" where
  "get_d xp a =
     (if a = 0 \<or> length xp < 2 \<or> (\<exists>x \<in> set xp. x = 0) then None
      else
        let n = of_nat (length xp); s = sum_list xp
        in if s = 0 then Some 0
        else
          let ann = a * n
          in if ann \<le> A_PRECISION then None
          else for_loop CURVE_MAX_ITERATIONS
                 (get_d_step xp n ((ann * s) div A_PRECISION) (ann - A_PRECISION) (n + 1)) Some s)"

text \<open>The pass of \<open>get_y\<close> over all coins but \<open>j\<close>, with the new balance \<open>x\<close> of coin \<open>i\<close>.\<close>

fun curve_sc :: "u256 \<Rightarrow> u256 \<Rightarrow> u256 \<Rightarrow> nat \<Rightarrow> nat \<Rightarrow> nat \<Rightarrow> u256 list \<Rightarrow> u256 \<times> u256 \<Rightarrow> (u256 \<times> u256) option" where
  "curve_sc d n x i j k [] (s, c) = Some (s, c)"
| "curve_sc d n x i j k (xk # xp) (s, c) =
     (if k = j then curve_sc d n x i j (Suc k) xp (s, c)
      else
        let val = (if k = i then x else xk); vn = val * n
        in if vn = 0 then None else curve_sc d n x i j (Suc k) xp (s + val, (c * d) div vn))"

definition get_y_step :: "u256 \<Rightarrow> u256 \<Rightarrow> u256 \<Rightarrow> u256 \<Rightarrow> (u256, u256 option) iteration" where
  "get_y_step d b c y =
     (let y_prev = y; denominator = saturating_sub (2 * y + b) d
      in if denominator = 0 then Break None
         else
           let y = (y * y + c) div denominator
           in if abs_diff y y_prev \<le> 1 then Break (Some y) else Continue y)"

definition get_y :: "u256 \<Rightarrow> nat \<Rightarrow> nat \<Rightarrow> u256 list \<Rightarrow> u256 \<Rightarrow> u256 \<Rightarrow> u256 option panics" where
  "get_y x i j xp a d =
     (let n = of_nat (length xp); ann = a * n
      in if ann = 0 \<or> d = 0 then Some None
      else case curve_sc d n x i j 0 xp (0, d) of
             None \<Rightarrow> Some None
           | Some (s, c) \<Rightarrow> do {
               c \<leftarrow> pdiv (c * d * A_PRECISION) (ann * n);
               let b = s + (d * A_PRECISION) div ann;
               Some (for_loop CURVE_MAX_ITERATIONS (get_y_step d b c) Some d)
             })"

definition to_xp :: "u256 list \<Rightarrow> u256 list \<Rightarrow> u256 list option" where
  "to_xp balances rates =
     (if rates \<noteq> [] \<and> length rates \<noteq> length balances then None
      else if rates = [] then Some balances
      else Some (map (\<lambda>(balance, rate). (balance * rate) div ONE) (zip balances rates)))"

definition curve_stable_cache_d :: "u256 list \<Rightarrow> u256 list \<Rightarrow> u256 \<Rightarrow> u256 option" where
  "curve_stable_cache_d balances rates a = do { xp \<leftarrow> to_xp balances rates; get_d xp a }"

datatype CurveStableReject = SZeroAmount | SInvalidIndices | SFeeTooHigh | SXp | SDInvariant | SY | SZeroOut

text \<open>\<open>v.get(i).copied().unwrap_or(ONE)\<close>, and \<open>Option::filter(|d| !d.is_zero())\<close>.\<close>

definition rate_at :: "u256 list \<Rightarrow> nat \<Rightarrow> u256" where
  "rate_at rates i = (case nth_opt rates i of Some r \<Rightarrow> r | None \<Rightarrow> ONE)"

definition nonzero :: "u256 option \<Rightarrow> u256 option" where
  "nonzero d = (case d of Some v \<Rightarrow> if v = 0 then None else Some v | None \<Rightarrow> None)"

text \<open>The fee of a swap: the live dynamic fee of a newer pool, or the static one of a classic pool.\<close>

definition curve_swap_fee :: "CurvePoolState \<Rightarrow> u256 \<Rightarrow> u256 \<Rightarrow> u256 \<Rightarrow> u256 \<Rightarrow> u256 panics" where
  "curve_swap_fee pool xpi x xpj y =
     (case cv_offpeg_fee_multiplier pool of
        Some offpeg \<Rightarrow> Some (dynamic_fee ((xpi + x) div 2) ((xpj + y) div 2) (cv_fee pool) offpeg)
      | None \<Rightarrow>
          let n_coins = of_nat (length (cv_balances pool))
          in pdiv (cv_fee pool * n_coins) (4 * (n_coins - 1)))"

text \<open>From the difference of the balances to the output: fee, safety buffer, and back to token units.\<close>

definition curve_payout :: "u256 \<Rightarrow> u256 \<Rightarrow> u256 \<Rightarrow> CurveStableReject + u256" where
  "curve_payout dy fee out_rate =
     (let fee_amount = (dy * fee) div CURVE_FEE_DENOMINATOR;
          dy_after_fee = saturating_sub dy fee_amount;
          dy_buffered = saturating_sub dy_after_fee
                          ((dy_after_fee * CURVE_OUTPUT_BUFFER) div CURVE_FEE_DENOMINATOR)
      in if dy_buffered = 0 then Inl SZeroOut
      else if out_rate = 0 then Inl SZeroOut
      else Inr ((dy_buffered * ONE) div out_rate))"

definition try_curve_stable_amount_out ::
    "CurvePoolState \<Rightarrow> u256 \<Rightarrow> nat \<Rightarrow> nat \<Rightarrow> (CurveStableReject + u256) panics" where
  "try_curve_stable_amount_out pool amount_in token_in_idx token_out_idx =
     (if amount_in = 0 then Some (Inl SZeroAmount)
      else if cv_a pool = 0 \<or> token_in_idx = token_out_idx \<or> token_in_idx \<ge> length (cv_balances pool)
          \<or> token_out_idx \<ge> length (cv_balances pool) then Some (Inl SInvalidIndices)
      else if cv_fee pool \<ge> CURVE_FEE_DENOMINATOR then Some (Inl SFeeTooHigh)
      else case to_xp (cv_balances pool) (cv_rates pool) of
        None \<Rightarrow> Some (Inl SXp)
      | Some xp \<Rightarrow>
          case nonzero (case nonzero (cv_d pool) of Some d \<Rightarrow> Some d | None \<Rightarrow> get_d xp (cv_a pool)) of
            None \<Rightarrow> Some (Inl SDInvariant)
          | Some d \<Rightarrow> do {
              let in_rate = rate_at (cv_rates pool) token_in_idx;
              let x = xp ! token_in_idx + (amount_in * in_rate) div ONE;
              r \<leftarrow> get_y x token_in_idx token_out_idx xp (cv_a pool) d;
              case r of
                None \<Rightarrow> Some (Inl SY)
              | Some y \<Rightarrow>
                  let dy = saturating_sub (saturating_sub (xp ! token_out_idx) y) 1
                  in if dy = 0 then Some (Inl SZeroOut)
                  else do {
                    fee \<leftarrow> curve_swap_fee pool (xp ! token_in_idx) x (xp ! token_out_idx) y;
                    Some (curve_payout dy fee (rate_at (cv_rates pool) token_out_idx))
                  }
            })"

definition get_curve_stable_amount_out :: "CurvePoolState \<Rightarrow> u256 \<Rightarrow> nat \<Rightarrow> nat \<Rightarrow> u256 panics" where
  "get_curve_stable_amount_out pool amount_in token_in_idx token_out_idx = do {
     r \<leftarrow> try_curve_stable_amount_out pool amount_in token_in_idx token_out_idx;
     Some (case r of Inr out \<Rightarrow> out | Inl _ \<Rightarrow> 0)
   }"

section \<open>Never more than the balance\<close>

lemma unat_mult_le: "unat (a * b) \<le> unat a * unat b" for a b :: u256
  by (simp add: unat_mult_256 del: power_numeral)

lemma to_xp_nth:
  assumes "to_xp balances rates = Some xp" and "j < length balances"
  shows "length xp = length balances"
    and "unat (xp ! j) * 10 ^ 18 \<le> unat (balances ! j) * unat (rate_at rates j)"
proof -
  show "length xp = length balances" using assms by (auto simp: to_xp_def split: if_splits)
  show "unat (xp ! j) * 10 ^ 18 \<le> unat (balances ! j) * unat (rate_at rates j)"
  proof (cases "rates = []")
    case True
    then show ?thesis using assms by (simp add: to_xp_def rate_at_def nth_opt_def unat_ONE)
  next
    case False
    then have len: "length rates = length balances"
        and xp: "xp = map (\<lambda>(balance, rate). (balance * rate) div ONE) (zip balances rates)"
      using assms(1) by (auto simp: to_xp_def split: if_splits)
    have "unat ((balances ! j * rates ! j) div ONE) * 10 ^ 18 \<le> unat (balances ! j * rates ! j)"
      by (simp add: unat_div_word unat_ONE)
    also have "\<dots> \<le> unat (balances ! j) * unat (rates ! j)" by (rule unat_mult_le)
    finally show ?thesis using assms(2) len by (simp add: xp rate_at_def nth_opt_def)
  qed
qed

lemma unscaled_within:
  assumes "unat v \<le> x" and "x * 10 ^ 18 \<le> b * unat r" and "r \<noteq> 0"
  shows "unat ((v * ONE) div r) \<le> b"
proof -
  have "unat (v * ONE) \<le> unat v * 10 ^ 18" using unat_mult_le [of v ONE] by (simp add: unat_ONE)
  also have "\<dots> \<le> b * unat r" using mult_le_mono1 [OF assms(1), of "10 ^ 18"] assms(2) by (rule order_trans)
  finally have "unat (v * ONE) div unat r \<le> b * unat r div unat r" by (rule div_le_mono)
  then show ?thesis using assms(3) by (simp add: unat_div_word unat_gt_0)
qed

lemma curve_payout_OkD:
  assumes "curve_payout dy fee r = Inr out"
  shows "\<exists>v. v \<le> dy \<and> r \<noteq> 0 \<and> out = (v * ONE) div r"
proof -
  define v where "v = saturating_sub (saturating_sub dy ((dy * fee) div CURVE_FEE_DENOMINATOR))
    ((saturating_sub dy ((dy * fee) div CURVE_FEE_DENOMINATOR) * CURVE_OUTPUT_BUFFER) div CURVE_FEE_DENOMINATOR)"
  have "v \<le> dy" unfolding v_def by (rule order_trans [OF saturating_sub_le saturating_sub_le])
  moreover have "r \<noteq> 0 \<and> out = (v * ONE) div r"
    using assms by (simp add: curve_payout_def Let_def split: if_splits flip: v_def)
  ultimately show ?thesis by blast
qed

lemma curve_stable_OkD:
  assumes "try_curve_stable_amount_out pool amount i j = Some (Inr out)"
    and "to_xp (cv_balances pool) (cv_rates pool) = Some xp"
  shows "\<exists>dy fee. dy \<le> xp ! j \<and> curve_payout dy fee (rate_at (cv_rates pool) j) = Inr out"
proof -
  have "saturating_sub (saturating_sub (xp ! j) y) 1 \<le> xp ! j" for y
    using saturating_sub_le order_trans by blast
  then show ?thesis
    using assms
    by (auto simp: try_curve_stable_amount_out_def Let_def Option.bind_eq_Some_conv
        split: if_splits option.splits)
qed

lemma curve_stable_out_le:
  assumes "try_curve_stable_amount_out pool amount i j = Some (Inr out)"
  shows "j < length (cv_balances pool)" and "out \<le> cv_balances pool ! j"
proof -
  show j: "j < length (cv_balances pool)"
    using assms by (auto simp: try_curve_stable_amount_out_def split: if_splits)
  obtain xp where xp: "to_xp (cv_balances pool) (cv_rates pool) = Some xp"
    using assms by (auto simp: try_curve_stable_amount_out_def split: if_splits option.splits)
  obtain dy fee where dy: "dy \<le> xp ! j" and pay: "curve_payout dy fee (rate_at (cv_rates pool) j) = Inr out"
    using curve_stable_OkD [OF assms xp] by blast
  obtain v where v: "v \<le> dy" "rate_at (cv_rates pool) j \<noteq> 0"
      and out: "out = (v * ONE) div rate_at (cv_rates pool) j"
    using curve_payout_OkD [OF pay] by blast
  have "unat out \<le> unat (cv_balances pool ! j)"
    unfolding out using v dy to_xp_nth [OF xp j] by (intro unscaled_within) (simp_all add: word_le_nat_alt)
  then show "out \<le> cv_balances pool ! j" by (simp add: word_le_nat_alt)
qed

section \<open>No panic\<close>

definition curve_wf :: "CurvePoolState \<Rightarrow> bool" where
  "curve_wf pool \<longleftrightarrow> unat (cv_a pool) < 2 ^ 128 \<and> length (cv_balances pool) < 2 ^ 32"

lemma of_nat_coins:
  assumes "k < 2 ^ 32" shows "unat (of_nat k :: u256) = k"
  using assms by (intro unat_of_nat_fits) simp

lemma ann_n_nz:
  assumes "unat (a :: u256) < 2 ^ 128" and "a \<noteq> 0" and "0 < k" and "k < 2 ^ 32"
  shows "a * of_nat k * of_nat k \<noteq> 0"
proof -
  have a: "0 < unat a" using assms(2) by (rule unat_ne_0)
  have "unat a * k < 2 ^ 128 * 2 ^ 32" using assms by (intro mult_strict_mono) simp_all
  then have ak: "unat (a * of_nat k) = unat a * k" by (simp add: unat_mult_nowrap of_nat_coins [OF assms(4)])
  have "unat a * k * k < 2 ^ 160 * 2 ^ 32"
    using \<open>unat a * k < 2 ^ 128 * 2 ^ 32\<close> assms(3,4) by (intro mult_strict_mono) simp_all
  then have "unat (a * of_nat k * of_nat k) = unat a * k * k"
    by (simp add: unat_mult_nowrap ak of_nat_coins [OF assms(4)])
  moreover have "0 < unat a * k * k" using a assms(3) by simp
  ultimately show ?thesis by auto
qed

lemma get_y_total:
  assumes "unat a < 2 ^ 128" and "a \<noteq> 0" and "0 < length xp" and "length xp < 2 ^ 32"
  shows "\<exists>r. get_y x i j xp a d = Some r"
  using ann_n_nz [OF assms] by (auto simp: get_y_def Let_def split: option.split)

lemma curve_swap_fee_total:
  assumes "2 \<le> length (cv_balances pool)" and "length (cv_balances pool) < 2 ^ 32"
  shows "\<exists>fee. curve_swap_fee pool xpi x xpj y = Some fee"
proof -
  let ?k = "length (cv_balances pool)"
  have k: "unat (of_nat ?k :: u256) = ?k" using assms(2) by (rule of_nat_coins)
  have "1 \<le> (of_nat ?k :: u256)" using assms(1) by (simp add: word_le_nat_alt k)
  then have "unat (of_nat ?k - 1 :: u256) = ?k - 1" by (simp add: unat_sub_nowrap k)
  then have "unat (4 * (of_nat ?k - 1) :: u256) = 4 * (?k - 1)"
    using assms(2) by (subst unat_mult_nowrap) simp_all
  then have "4 * (of_nat ?k - 1 :: u256) \<noteq> 0" using assms(1) by (intro notI) simp
  then show ?thesis by (auto simp: curve_swap_fee_def Let_def split: option.split)
qed

lemma curve_stable_total:
  assumes "curve_wf pool"
  shows "\<exists>r. try_curve_stable_amount_out pool amount i j = Some r"
proof (cases "cv_a pool = 0 \<or> i = j \<or> i \<ge> length (cv_balances pool) \<or> j \<ge> length (cv_balances pool)")
  case True
  then show ?thesis by (auto simp: try_curve_stable_amount_out_def)
next
  case False
  then have two: "2 \<le> length (cv_balances pool)" and small: "length (cv_balances pool) < 2 ^ 32"
    using assms by (auto simp: curve_wf_def)
  have y: "\<exists>r. get_y x i j xp (cv_a pool) d = Some r"
    if "to_xp (cv_balances pool) (cv_rates pool) = Some xp" for x xp d
  proof -
    have "length xp = length (cv_balances pool)" using to_xp_nth(1) [OF that, of i] False by simp
    then show ?thesis using two small False assms by (intro get_y_total) (auto simp: curve_wf_def)
  qed
  have fee: "\<exists>fee. curve_swap_fee pool xpi x xpj y = Some fee" for xpi x xpj y
    using two small by (rule curve_swap_fee_total)
  show ?thesis
  proof (cases "to_xp (cv_balances pool) (cv_rates pool)")
    case None
    then show ?thesis by (auto simp: try_curve_stable_amount_out_def)
  next
    case (Some xp)
    have bind: "\<exists>r. Option.bind e f = Some r" if "\<exists>v. e = Some v" "\<And>v. \<exists>r. f v = Some r" for e f
      using that by (metis Option.bind.bind_lunit)
    show ?thesis
      unfolding try_curve_stable_amount_out_def Some
      by (auto simp: Let_def split: option.split intro!: bind fee y [OF Some])
  qed
qed

section \<open>The contract of a pool family\<close>

definition curve_reserve :: "CurvePoolState \<Rightarrow> nat \<times> nat \<Rightarrow> u256" where
  "curve_reserve pool dir =
     (if snd dir < length (cv_balances pool) then cv_balances pool ! snd dir else 0)"

definition curve_stable_quote :: "CurvePoolState \<Rightarrow> u256 \<Rightarrow> nat \<times> nat \<Rightarrow> u256 panics" where
  "curve_stable_quote pool amount dir = get_curve_stable_amount_out pool amount (fst dir) (snd dir)"

interpretation curve_stable: bounded_quote curve_stable_quote curve_reserve curve_wf
proof
  show "quotes_within (curve_stable_quote pool amount dir) (curve_reserve pool dir)"
    if "curve_wf pool" for pool amount dir
    using curve_stable_total [OF that, of amount "fst dir" "snd dir"]
      curve_stable_out_le [of pool amount "fst dir" "snd dir"]
    by (auto simp: curve_stable_quote_def get_curve_stable_amount_out_def curve_reserve_def split: sum.split)
  show "curve_stable_quote pool 0 dir = Some 0" for pool dir
    by (simp add: curve_stable_quote_def get_curve_stable_amount_out_def try_curve_stable_amount_out_def)
qed

section \<open>A balanced pool\<close>

lemma unat_A_PRECISION: "unat A_PRECISION = 100"
  by (simp add: A_PRECISION_def from_limbs_def)

lemma curve_dp_balanced:
  assumes "b * n = d" and "d \<noteq> 0" and "unat d * unat d < 2 ^ 256"
  shows "curve_dp d n (replicate m b) d = Some d"
  using assms by (induction m) (simp_all add: square_div_self Let_def)

lemma get_d_step_balanced:
  fixes ann n d :: u256
  assumes d: "b * n = d" "d \<noteq> 0" "unat d * unat d < 2 ^ 256" and ap: "A_PRECISION \<noteq> 0" "A_PRECISION \<le> ann"
    and fits: "unat ann * unat d < 2 ^ 256" "(unat n + 1) * unat d < 2 ^ 256"
      "(unat ann * unat d div unat A_PRECISION + unat d * unat n) * unat d < 2 ^ 256" and n: "n \<noteq> 0"
  shows "get_d_step (replicate m b) n ((ann * d) div A_PRECISION) (ann - A_PRECISION) (n + 1) d = Break (Some d)"
proof -
  note step = balanced_newton_step [OF d(2) ap fits n]
  have "checked_mul (ann - A_PRECISION) d = Some ((ann - A_PRECISION) * d)"
    and "checked_mul (n + 1) d = Some ((n + 1) * d)"
    and "checked_add (((ann - A_PRECISION) * d) div A_PRECISION) ((n + 1) * d)
           = Some (((ann - A_PRECISION) * d) div A_PRECISION + (n + 1) * d)"
    using step(3-5) by (simp_all add: checked_mul_def checked_add_def)
  then show ?thesis
    using step(1,2) by (simp add: get_d_step_def curve_dp_balanced [OF d] Let_def abs_diff_def)
qed

lemma get_d_balanced:
  fixes a b :: u256 and k :: nat
  defines "D \<equiv> unat b * k"
  assumes "2 \<le> k" and "b \<noteq> 0" and "100 < unat a * k"
    and "unat a * k * D < 2 ^ 256" and "(k + 1) * D < 2 ^ 256"
    and "(unat a * k * D div 100 + D * k) * D < 2 ^ 256"
  shows "\<exists>d. get_d (replicate k b) a = Some d \<and> unat d = D"
proof -
  define n where "n = (of_nat k :: u256)"
  define d where "d = b * n"
  note facts = balanced_word_facts [where ap = A_PRECISION, unfolded unat_A_PRECISION, OF assms(2-4)
      assms(5-7) [unfolded D_def], folded n_def, folded d_def D_def]
  have "A_PRECISION \<noteq> 0" using unat_A_PRECISION by auto
  then have "get_d_step (replicate k b) n ((a * n * d) div A_PRECISION) (a * n - A_PRECISION) (n + 1) d = Break (Some d)"
    using assms(5-7) facts
    by (intro get_d_step_balanced) (simp_all add: d_def [symmetric] unat_A_PRECISION)
  then have "for_loop CURVE_MAX_ITERATIONS
      (get_d_step (replicate k b) n ((a * n * d) div A_PRECISION) (a * n - A_PRECISION) (n + 1)) Some d = Some d"
    by (simp add: CURVE_MAX_ITERATIONS_def numeral_eq_Suc)
  then have "get_d (replicate k b) a = Some d"
    using assms(2,3) facts by (simp add: get_d_def Let_def not_less not_le flip: n_def)
  then show ?thesis using facts(2) by blast
qed

section \<open>The dynamic fee\<close>

lemma four_mult_le_square: "4 * x * y \<le> (x + y) * (x + y)" for x y :: nat
proof -
  have "0 \<le> (int x - int y)\<^sup>2" by simp
  then have "4 * int x * int y \<le> (int x + int y) * (int x + int y)"
    by (simp add: power2_eq_square algebra_simps)
  then have "int (4 * x * y) \<le> int ((x + y) * (x + y))" by simp
  then show ?thesis by (simp only: of_nat_le_iff)
qed

lemma unat_saturating_mul_fits:
  "unat a * unat b < 2 ^ 256 \<Longrightarrow> unat (saturating_mul a b) = unat a * unat (b :: u256)"
  by (simp add: unat_saturating_mul)

lemma saturating_mul_le: "unat (saturating_mul a b) \<le> unat a * unat (b :: u256)"
  by (simp add: unat_saturating_mul)

lemma unat_FEE_DENOMINATOR: "unat CURVE_FEE_DENOMINATOR = 10 ^ 10"
  by (simp add: CURVE_FEE_DENOMINATOR_def from_limbs_def)

section \<open>Properties\<close>

text \<open>
  A Curve stable quote never panics on a pool with an amplification below \<open>2^128\<close>, and an
  accepted quote never exceeds the pool's balance of the output coin, whatever the rates, the cached
  invariant or the fee are, although every product may wrap.
\<close>

theorem curve_stable_quote_bounded:
  assumes "curve_wf pool"
  shows "\<exists>r. try_curve_stable_amount_out pool amount i j = Some r
    \<and> (\<forall>out. r = Inr out \<longrightarrow> i \<noteq> j \<and> j < length (cv_balances pool) \<and> out \<le> cv_balances pool ! j)"
proof -
  obtain r where r: "try_curve_stable_amount_out pool amount i j = Some r"
    using curve_stable_total [OF assms] by blast
  moreover have "i \<noteq> j" if "r = Inr out" for out
    using r that by (auto simp: try_curve_stable_amount_out_def split: if_splits)
  ultimately show ?thesis using curve_stable_out_le by blast
qed

definition sample_curve_pool :: CurvePoolState where
  "sample_curve_pool =
     \<lparr>cv_balances = [1000000, 1000000], cv_a = 2000, cv_fee = 4000000, cv_rates = [], cv_n_coins = 2,
      cv_gamma = None, cv_d = None, cv_offpeg_fee_multiplier = None\<rparr>"

theorem curve_stable_quote_bounded_witness:
  "curve_wf sample_curve_pool
    \<and> (\<exists>r. try_curve_stable_amount_out sample_curve_pool 1000 0 1 = Some r
          \<and> (\<forall>out. r = Inr out \<longrightarrow> out \<le> 1000000))"
proof -
  have "curve_wf sample_curve_pool" by (simp add: curve_wf_def sample_curve_pool_def)
  from this curve_stable_quote_bounded [OF this, of 1000 0 1] show ?thesis
    by (auto simp: sample_curve_pool_def)
qed

text \<open>
  The invariant cached at decode time is the one a quote would compute: a quote with the
  cached value and a quote that recomputes it agree, result and error alike.
\<close>

theorem curve_cached_d_equivalent:
  assumes "curve_stable_cache_d (cv_balances pool) (cv_rates pool) (cv_a pool) = Some d"
  shows "try_curve_stable_amount_out (pool\<lparr>cv_d := Some d\<rparr>) amount i j
    = try_curve_stable_amount_out (pool\<lparr>cv_d := None\<rparr>) amount i j"
proof -
  obtain xp where "to_xp (cv_balances pool) (cv_rates pool) = Some xp" and "get_d xp (cv_a pool) = Some d"
    using assms by (auto simp: curve_stable_cache_d_def Option.bind_eq_Some_conv)
  moreover have "curve_swap_fee (pool\<lparr>cv_d := e\<rparr>) = curve_swap_fee pool" for e
    by (intro ext) (simp add: curve_swap_fee_def split: option.split)
  ultimately show ?thesis
    by (simp add: try_curve_stable_amount_out_def nonzero_def Let_def cong: if_cong option.case_cong)
qed

text \<open>
  On a balanced Curve pool the invariant is the sum of the scaled balances, found in one
  iteration with no checked product failing.
\<close>

theorem curve_d_balanced:
  fixes a b :: u256 and k :: nat
  defines "D \<equiv> unat b * k"
  assumes "2 \<le> k" and "b \<noteq> 0" and "100 < unat a * k"
    and "unat a * k * D < 2 ^ 256" and "(k + 1) * D < 2 ^ 256"
    and "(unat a * k * D div 100 + D * k) * D < 2 ^ 256"
  shows "\<exists>d. get_d (replicate k b) a = Some d \<and> unat d = D"
  unfolding D_def using get_d_balanced [OF assms(2-4) assms(5-7) [unfolded D_def]] .

theorem curve_d_balanced_witness:
  "2 \<le> (2 :: nat) \<and> (\<exists>d. get_d (replicate 2 (10 ^ 24)) 2000 = Some d \<and> unat d = 2 * 10 ^ 24)"
  using curve_d_balanced [of 2 "10 ^ 24" 2000] by simp

theorem curve_cached_d_equivalent_witness:
  "\<exists>d. curve_stable_cache_d (cv_balances sample_curve_pool) (cv_rates sample_curve_pool) (cv_a sample_curve_pool) = Some d
    \<and> try_curve_stable_amount_out (sample_curve_pool\<lparr>cv_d := Some d\<rparr>) 1000 0 1
        = try_curve_stable_amount_out (sample_curve_pool\<lparr>cv_d := None\<rparr>) 1000 0 1"
proof -
  have "replicate 2 (1000000 :: u256) = [1000000, 1000000]" by (simp add: numeral_eq_Suc)
  moreover have "\<exists>d. get_d (replicate 2 (1000000 :: u256)) 2000 = Some d"
    using get_d_balanced [of 2 1000000 2000] by auto
  ultimately have "\<exists>d. curve_stable_cache_d (cv_balances sample_curve_pool) (cv_rates sample_curve_pool)
      (cv_a sample_curve_pool) = Some d"
    by (simp add: curve_stable_cache_d_def to_xp_def sample_curve_pool_def)
  then show ?thesis using curve_cached_d_equivalent by blast
qed

text \<open>
  The dynamic fee of a newer pool never falls below the base fee and never exceeds the base
  fee times the off-peg multiplier, as long as its products fit 256 bits: it grows as the two balances
  drift apart.
\<close>

theorem dynamic_fee_bounds:
  assumes "CURVE_FEE_DENOMINATOR < offpeg" and "x \<noteq> 0" and "y \<noteq> 0"
    and "unat x + unat y < 2 ^ 120" and "unat offpeg < 2 ^ 64" and "unat fee < 2 ^ 64"
  shows "fee \<le> dynamic_fee x y fee offpeg
    \<and> unat (dynamic_fee x y fee offpeg) * 10 ^ 10 \<le> unat offpeg * unat fee"
proof -
  let ?X = "unat x" and ?Y = "unat y" and ?O = "unat offpeg" and ?F = "unat fee"
  have O: "10 ^ 10 < ?O" using assms(1) by (simp add: word_less_nat_alt unat_FEE_DENOMINATOR)
  have pos: "0 < ?X" "0 < ?Y" using assms(2,3) by (simp_all add: unat_ne_0)
  have s: "unat (x + y) = ?X + ?Y" using assms(4) by (intro unat_add_nowrap) simp
  have ss: "(?X + ?Y) * (?X + ?Y) < 2 ^ 120 * 2 ^ 120" using assms(4) by (intro mult_strict_mono) simp_all
  then have xps2: "unat (saturating_mul (x + y) (x + y)) = (?X + ?Y) * (?X + ?Y)"
    by (subst unat_saturating_mul_fits) (simp_all add: s)
  have four: "4 * ?X * ?Y \<le> (?X + ?Y) * (?X + ?Y)" by (rule four_mult_le_square)
  then have xy: "?X * ?Y * 4 < 2 ^ 240" using ss by simp
  have xy1: "unat (saturating_mul x y) = ?X * ?Y" using xy by (intro unat_saturating_mul_fits) simp
  have prod: "unat (saturating_mul (saturating_mul x y) 4) = ?X * ?Y * 4"
    using xy by (subst unat_saturating_mul_fits) (simp_all add: xy1)
  have om: "unat (offpeg - CURVE_FEE_DENOMINATOR) = ?O - 10 ^ 10"
    using assms(1) by (simp add: unat_sub_nowrap unat_FEE_DENOMINATOR less_imp_le)
  define im where "im = saturating_mul (offpeg - CURVE_FEE_DENOMINATOR) (saturating_mul (saturating_mul x y) 4)
      div saturating_mul (x + y) (x + y)"
  have "unat (saturating_mul (offpeg - CURVE_FEE_DENOMINATOR) (saturating_mul (saturating_mul x y) 4))
      \<le> (?O - 10 ^ 10) * (?X * ?Y * 4)"
    using saturating_mul_le [of "offpeg - CURVE_FEE_DENOMINATOR" "saturating_mul (saturating_mul x y) 4"]
    by (simp only: om prod)
  also have "\<dots> \<le> (?O - 10 ^ 10) * ((?X + ?Y) * (?X + ?Y))" using four by (intro mult_le_mono2) simp
  finally have im: "unat im \<le> ?O - 10 ^ 10"
    using pos unfolding im_def unat_div_word xps2
    by (metis add_gr_0 div_le_mono mult_pos_pos nonzero_mult_div_cancel_right less_not_refl)
  have den: "unat (saturating_add im CURVE_FEE_DENOMINATOR) = unat im + 10 ^ 10"
    using im assms(5) by (simp add: unat_saturating_add unat_FEE_DENOMINATOR)
  have "?O * ?F < 2 ^ 64 * 2 ^ 64" using assms(5,6) by (intro mult_strict_mono) simp_all
  then have num: "unat (saturating_mul offpeg fee) = ?O * ?F" by (intro unat_saturating_mul_fits) simp
  have "dynamic_fee x y fee offpeg = saturating_mul offpeg fee div saturating_add im CURVE_FEE_DENOMINATOR"
  proof -
    have "saturating_mul (x + y) (x + y) \<noteq> 0" "saturating_add im CURVE_FEE_DENOMINATOR \<noteq> 0"
      using xps2 pos den by (metis add_gr_0 mult_pos_pos less_not_refl unat_0, metis unat_0 add_is_0 power_not_zero zero_neq_numeral)
    moreover have "\<not> offpeg \<le> CURVE_FEE_DENOMINATOR" using assms(1) by simp
    ultimately show ?thesis using assms(2,3) by (simp add: dynamic_fee_def Let_def im_def)
  qed
  then have fee: "unat (dynamic_fee x y fee offpeg) = ?O * ?F div (unat im + 10 ^ 10)"
    by (simp add: unat_div_word num den)
  have "?F * (unat im + 10 ^ 10) \<le> ?F * ?O" using im O by (intro mult_le_mono2) simp
  then have "?F \<le> ?O * ?F div (unat im + 10 ^ 10)"
    by (simp add: less_eq_div_iff_mult_less_eq mult.commute)
  moreover have "?O * ?F div (unat im + 10 ^ 10) * 10 ^ 10 \<le> ?O * ?F div (unat im + 10 ^ 10) * (unat im + 10 ^ 10)"
    by (intro mult_le_mono2) simp
  then have "?O * ?F div (unat im + 10 ^ 10) * 10 ^ 10 \<le> ?O * ?F"
    by (rule order_trans) simp
  ultimately show ?thesis by (simp add: word_le_nat_alt fee)
qed

theorem dynamic_fee_bounds_witness:
  "CURVE_FEE_DENOMINATOR < 20000000000 \<and> 4000000 \<le> dynamic_fee (10 ^ 24) (3 * 10 ^ 24) 4000000 20000000000"
  using dynamic_fee_bounds [of 20000000000 "10 ^ 24" "3 * 10 ^ 24" 4000000]
  by (simp add: CURVE_FEE_DENOMINATOR_def from_limbs_def)

end
