(* ===== verification/Dodo.thy ===== *)
theory Dodo
  imports QuoteContract LogExpMath
begin

text \<open>
  The proactive-market-maker pools of \<open>src/core/math/dodo.rs\<close>: the quadratic solver, the integral, the
  six combinations of R state and direction, and the fees. An early \<open>return U256::ZERO\<close> inside the
  solver is \<^const>\<open>None\<close> of the inner computation and becomes zero at the call. No division of this
  file can panic, since every divisor is checked before it is used.
\<close>

section \<open>Floor square root\<close>

text \<open>\<open>root(2)\<close> of the integer library is the floor of the square root; here it is computed two bits at a time.\<close>

fun isqrt :: "nat \<Rightarrow> nat" where
  "isqrt n =
     (if n = 0 then 0
      else let r = 2 * isqrt (n div 4) in if (r + 1) * (r + 1) \<le> n then r + 1 else r)"

declare isqrt.simps [simp del]

lemma isqrt_spec: "isqrt n * isqrt n \<le> n \<and> n < (isqrt n + 1) * (isqrt n + 1)"
proof (induction n rule: isqrt.induct)
  case (1 n)
  show ?case
  proof (cases "n = 0")
    case True
    then show ?thesis by (simp add: isqrt.simps)
  next
    case False
    define s where "s = isqrt (n div 4)"
    have IH: "s * s \<le> n div 4" "n div 4 < (s + 1) * (s + 1)" using 1 [OF False] by (simp_all add: s_def)
    have "isqrt n = (if (2 * s + 1) * (2 * s + 1) \<le> n then 2 * s + 1 else 2 * s)"
      using False by (subst isqrt.simps) (simp add: s_def Let_def)
    moreover have "(2 * s) * (2 * s) \<le> n" using IH(1) by auto
    moreover have "n < (2 * s + 2) * (2 * s + 2)" using IH(2) by auto
    ultimately show ?thesis by (auto simp: algebra_simps)
  qed
qed

definition root2 :: "u256 \<Rightarrow> u256" where
  "root2 x = of_nat (isqrt (unat x))"

lemma unat_root2: "unat (root2 x) = isqrt (unat x)"
proof -
  have "isqrt (unat x) \<le> isqrt (unat x) * isqrt (unat x)" by (cases "isqrt (unat x)") auto
  also have "\<dots> \<le> unat x" using isqrt_spec [of "unat x"] by blast
  also have "\<dots> < 2 ^ LENGTH(256)" by (rule unsigned_less)
  finally show ?thesis by (simp add: root2_def unat_of_nat_fits)
qed

section \<open>The model\<close>

definition ONE2 :: u256 where "ONE2 = 1000000000000000000000000000000000000"

definition div_ceil :: "u256 \<Rightarrow> u256 \<Rightarrow> u256" where
  "div_ceil a b =
     (if b = 0 then 0
      else let product = ucast a * ONE_U512; result = (product + ucast b - 1) div ucast b
           in u512_to_u256 result)"

definition reciprocal_floor :: "u256 \<Rightarrow> u256" where
  "reciprocal_floor target =
     (if target = 0 then 0 else u512_to_u256 (ucast ONE2 div ucast target))"

text \<open>The branch for \<open>k = 1\<close>, the second summand of the general branch, and the general branch.\<close>

definition quadratic_k_one :: "u256 \<Rightarrow> u256 \<Rightarrow> u256 \<Rightarrow> u256 \<Rightarrow> u256 option" where
  "quadratic_k_one v0 v1 delta i =
     (let idelta = ucast i * ucast delta :: u512; v0_sq = ucast v0 * ucast v0
      in if v0_sq = 0 then None
      else do {
        temp \<leftarrow> u512_to_u256_checked (idelta * ucast v1 div v0_sq);
        if temp = 0 then None
        else
          let denom = ucast temp + ONE_U512
          in u512_to_u256_checked (ucast v1 * ucast temp div denom)
      })"

definition quadratic_part2 :: "u256 \<Rightarrow> u256 \<Rightarrow> u256 \<Rightarrow> u256 \<Rightarrow> u256 \<Rightarrow> u256 option" where
  "quadratic_part2 v0 v1 delta i k = do {
     let k_v0 = (ucast k * ucast v0 :: u512);
     let k_div = k_v0 div ucast v1;
     k_term \<leftarrow> u512_to_u256_checked (k_div * ucast v0);
     i_delta \<leftarrow> u512_to_u256_checked (ucast i * ucast delta);
     checked_add k_term i_delta
   }"

definition quadratic_sqrt :: "u256 \<Rightarrow> u256 \<Rightarrow> u256 option" where
  "quadratic_sqrt b_abs square_root_input =
     (if square_root_input = 0 then Some b_abs
      else do {
        rad \<leftarrow> u512_to_u256_checked (ucast b_abs * ucast b_abs + ucast square_root_input);
        Some (root2 rad)
      })"

definition quadratic_general :: "u256 \<Rightarrow> u256 \<Rightarrow> u256 \<Rightarrow> u256 \<Rightarrow> u256 \<Rightarrow> u256 option" where
  "quadratic_general v0 v1 delta i k = do {
     part2 \<leftarrow> quadratic_part2 v0 v1 delta i k;
     let one_minus_k = ONE - k;
     part1 \<leftarrow> u512_to_u256_checked (ucast one_minus_k * ucast v1);
     let (b_abs, b_sig) = (if part1 \<ge> part2 then (part1 - part2, False) else (part2 - part1, True));
     let b_abs = b_abs div ONE;
     let mfl_k_v0 = mul_down k v0;
     mfl_times_v0 \<leftarrow> u512_to_u256_checked (ucast mfl_k_v0 * ucast v0);
     let square_root_input = mul_down (one_minus_k * 4) mfl_times_v0;
     square_root \<leftarrow> quadratic_sqrt b_abs square_root_input;
     let denominator = one_minus_k * 2;
     if denominator = 0 then None
     else do {
       numerator \<leftarrow>
         (if b_sig then (if square_root \<le> b_abs then None else Some (square_root - b_abs))
          else checked_add b_abs square_root);
       let v2 = div_ceil numerator denominator;
       Some (if v2 > v1 then 0 else v1 - v2)
     }
   }"

definition solve_quadratic_function_for_trade :: "u256 \<Rightarrow> u256 \<Rightarrow> u256 \<Rightarrow> u256 \<Rightarrow> u256 \<Rightarrow> u256" where
  "solve_quadratic_function_for_trade v0 v1 delta i k =
     (if v0 = 0 \<or> v1 = 0 \<or> delta = 0 \<or> i = 0 \<or> k > ONE then 0
      else if k = 0 then (let linear = mul_down i delta in if linear > v1 then v1 else linear)
      else if k = ONE then (case quadratic_k_one v0 v1 delta i of Some r \<Rightarrow> r | None \<Rightarrow> 0)
      else (case quadratic_general v0 v1 delta i k of Some r \<Rightarrow> r | None \<Rightarrow> 0))"

definition general_integrate :: "u256 \<Rightarrow> u256 \<Rightarrow> u256 \<Rightarrow> u256 \<Rightarrow> u256 \<Rightarrow> u256" where
  "general_integrate v0 v1 v2 i k =
     (if v0 = 0 \<or> v1 < v2 \<or> v2 = 0 \<or> i = 0 \<or> k > ONE then 0
      else
        let delta = v1 - v2; fair_amount = ucast i * ucast delta :: u512
        in if k = 0 then u512_to_u256 (fair_amount div ONE_U512)
        else
          let denom = ucast v1 * ucast v2 :: u512;
              ratio = (if denom = 0 then 0 else ucast ONE * ucast v0 * ucast v0 div denom);
              penalty = ucast k * ratio div ONE_U512;
              factor = ucast (ONE - k) + penalty
          in u512_to_u256 (factor * fair_amount div ucast ONE2))"

definition get_dodo_gross_amount_out :: "DodoPoolState \<Rightarrow> u256 \<Rightarrow> bool \<Rightarrow> u256" where
  "get_dodo_gross_amount_out pool amount_in base_to_quote =
     (let b = dd_base_reserve pool; q = dd_quote_reserve pool; i = dd_i pool; k = dd_k pool;
          bt = dd_base_target pool; qt = dd_quote_target pool
      in if amount_in = 0 then 0
      else if i = 0 \<or> k > ONE \<or> b = 0 \<or> q = 0 then 0
      else case (dd_r_state pool, base_to_quote) of
        (ROne, True) \<Rightarrow> solve_quadratic_function_for_trade qt qt amount_in i k
      | (ROne, False) \<Rightarrow> solve_quadratic_function_for_trade bt bt amount_in (reciprocal_floor i) k
      | (AboveOne, True) \<Rightarrow>
          (let back_in = saturating_sub bt b; back_out = saturating_sub q qt
           in if amount_in < back_in then min (general_integrate bt (b + amount_in) b i k) back_out
              else if amount_in = back_in then back_out
              else back_out + solve_quadratic_function_for_trade qt qt (amount_in - back_in) i k)
      | (AboveOne, False) \<Rightarrow> solve_quadratic_function_for_trade bt b amount_in (reciprocal_floor i) k
      | (BelowOne, True) \<Rightarrow> solve_quadratic_function_for_trade qt q amount_in i k
      | (BelowOne, False) \<Rightarrow>
          (let back_in = saturating_sub qt q; back_out = saturating_sub b bt; inv_i = reciprocal_floor i
           in if amount_in < back_in then min (general_integrate qt (q + amount_in) q inv_i k) back_out
              else if amount_in = back_in then back_out
              else back_out + solve_quadratic_function_for_trade bt bt (amount_in - back_in) inv_i k))"

definition get_dodo_amount_out :: "DodoPoolState \<Rightarrow> u256 \<Rightarrow> bool \<Rightarrow> u256" where
  "get_dodo_amount_out pool amount_in base_to_quote =
     (let gross = get_dodo_gross_amount_out pool amount_in base_to_quote;
          lp = dd_lp_fee_rate pool; mt = dd_mt_fee_rate pool
      in if gross = 0 then 0
      else if lp \<ge> ONE \<or> mt \<ge> ONE \<or> saturating_add lp mt \<ge> ONE then 0
      else gross - mul_down gross lp - mul_down gross mt)"

definition dodo_fee_bps_from_pool :: "u256 \<Rightarrow> u256 \<Rightarrow> u32 option" where
  "dodo_fee_bps_from_pool lp_fee_rate mt_fee_rate =
     (let tot = saturating_add lp_fee_rate mt_fee_rate
      in if tot = 0 \<or> tot \<ge> ONE then None
         else let bps = (tot * 10000) div ONE in Some (ucast (min bps 9999)))"

definition estimate_dodo_hop_capacity :: "DodoPoolState \<Rightarrow> bool \<Rightarrow> u256" where
  "estimate_dodo_hop_capacity pool base_to_quote =
     (let b = dd_base_reserve pool; q = dd_quote_reserve pool;
          reserve_fraction = (\<lambda>reserve. let tenth = reserve div 10 in if tenth > 0 then tenth else reserve)
      in if b = 0 \<or> q = 0 then 0 else reserve_fraction (if base_to_quote then b else q))"

section \<open>A trade never takes more than its side holds\<close>

lemma quadratic_k_one_le: "quadratic_k_one v0 v1 delta i = Some r \<Longrightarrow> r \<le> v1"
proof -
  assume "quadratic_k_one v0 v1 delta i = Some r"
  then obtain temp :: u256 where r: "unat r = unat (ucast v1 * ucast temp div (ucast temp + ONE_U512) :: u512)"
    by (auto simp: quadratic_k_one_def Let_def u512_to_u256_checked_iff Option.bind_eq_Some_conv split: if_splits)
  have one: "unat ONE_U512 = 10 ^ 18" by (simp add: ONE_U512_def)
  have "unat temp + 10 ^ 18 < 2 ^ 512"
    using unat_lt_256 [of temp] by simp
  then have "unat (ucast temp + ONE_U512) = unat temp + 10 ^ 18"
    by (subst unat_add_nowrap) (simp_all add: one)
  then have "unat r = unat v1 * unat temp div (unat temp + 10 ^ 18)"
    using r by (simp add: unat_div_word)
  then show ?thesis by (simp add: word_le_nat_alt mul_div_le_self)
qed

lemma quadratic_general_le: "quadratic_general v0 v1 delta i k = Some r \<Longrightarrow> r \<le> v1"
  by (auto simp: quadratic_general_def Let_def Option.bind_eq_Some_conv not_less word_sub_le
      split: if_splits prod.splits)

lemma solve_quadratic_le: "solve_quadratic_function_for_trade v0 v1 delta i k \<le> v1"
  by (auto simp: solve_quadratic_function_for_trade_def Let_def not_less
      intro: quadratic_k_one_le quadratic_general_le split: option.split)

text \<open>
  The R state records on which side of its targets a pool stands. A state is consistent when the
  reserves agree with it.
\<close>

definition dodo_consistent :: "DodoPoolState \<Rightarrow> bool" where
  "dodo_consistent pool \<longleftrightarrow>
     (case dd_r_state pool of
        ROne \<Rightarrow> dd_quote_target pool \<le> dd_quote_reserve pool \<and> dd_base_target pool \<le> dd_base_reserve pool
      | AboveOne \<Rightarrow> dd_quote_target pool \<le> dd_quote_reserve pool
      | BelowOne \<Rightarrow> dd_base_target pool \<le> dd_base_reserve pool)"

definition dodo_reserve :: "DodoPoolState \<Rightarrow> bool \<Rightarrow> u256" where
  "dodo_reserve pool base_to_quote = (if base_to_quote then dd_quote_reserve pool else dd_base_reserve pool)"

lemma back_to_target_le:
  assumes "target \<le> reserve" and "x \<le> target"
  shows "saturating_sub reserve target + x \<le> (reserve :: u256)"
proof -
  have "unat (saturating_sub reserve target) + unat x \<le> unat reserve"
    using assms by (simp add: unat_saturating_sub word_le_nat_alt)
  then show ?thesis
    using unat_lt_256 [of reserve] by (simp add: word_le_nat_alt unat_add_nowrap)
qed

lemma saturating_sub_min_le: "min x (saturating_sub reserve t) \<le> (reserve :: u256)"
  by (rule order_trans [OF min.cobounded2 saturating_sub_le])

lemma dodo_gross_le:
  assumes "dodo_consistent pool"
  shows "get_dodo_gross_amount_out pool amount dir \<le> dodo_reserve pool dir"
  using assms
  by (cases "dd_r_state pool"; cases dir)
     (auto simp: get_dodo_gross_amount_out_def dodo_reserve_def dodo_consistent_def Let_def
        saturating_sub_min_le intro: solve_quadratic_le order_trans [OF solve_quadratic_le]
        intro!: back_to_target_le)

text \<open>The two fees never exceed the gross amount, so both subtractions are exact.\<close>

lemma floor_add_le: "x div d + y div d \<le> (x + y) div (d::nat)"
proof (cases "d = 0")
  case False
  have "(x div d + y div d) * d \<le> x + y"
    using add_mono [OF div_times_less_eq_dividend div_times_less_eq_dividend] by (simp add: add_mult_distrib)
  with False show ?thesis by (simp add: less_eq_div_iff_mult_less_eq)
qed simp

lemma dodo_fees:
  assumes "lp < ONE" and "mt < ONE" and "saturating_add lp mt < ONE"
  shows "unat (gross - mul_down gross lp - mul_down gross mt)
    = unat gross - unat gross * unat lp div 10 ^ 18 - unat gross * unat mt div 10 ^ 18"
    and "unat gross * unat lp div 10 ^ 18 + unat gross * unat mt div 10 ^ 18 \<le> unat gross"
proof -
  have "unat (saturating_add lp mt) = unat lp + unat mt"
    using assms by (auto simp: unat_saturating_add word_less_nat_alt unat_ONE)
  then have rate: "unat lp + unat mt < 10 ^ 18" using assms(3) by (simp add: word_less_nat_alt unat_ONE)
  have l: "unat (mul_down gross lp) = unat gross * unat lp div 10 ^ 18"
    and m: "unat (mul_down gross mt) = unat gross * unat mt div 10 ^ 18"
    using assms by (simp_all add: unat_mul_down_rate less_imp_le)
  have "unat gross * unat lp div 10 ^ 18 + unat gross * unat mt div 10 ^ 18
      \<le> (unat gross * unat lp + unat gross * unat mt) div 10 ^ 18"
    by (rule floor_add_le)
  also have "\<dots> = unat gross * (unat lp + unat mt) div 10 ^ 18" by (simp only: add_mult_distrib2)
  also have "\<dots> \<le> unat gross" using rate by (intro mul_div_le_self) simp
  finally show fits: "unat gross * unat lp div 10 ^ 18 + unat gross * unat mt div 10 ^ 18 \<le> unat gross" .
  have a: "mul_down gross lp \<le> gross" using fits l by (simp add: word_le_nat_alt)
  then have "mul_down gross mt \<le> gross - mul_down gross lp"
    using fits l m by (simp add: word_le_nat_alt unat_sub_nowrap)
  with a show "unat (gross - mul_down gross lp - mul_down gross mt)
      = unat gross - unat gross * unat lp div 10 ^ 18 - unat gross * unat mt div 10 ^ 18"
    by (simp add: unat_sub_nowrap l m)
qed

lemma dodo_net_le_gross: "get_dodo_amount_out pool amount dir \<le> get_dodo_gross_amount_out pool amount dir"
proof -
  have "gross - mul_down gross lp - mul_down gross mt \<le> gross"
    if "\<not> (lp \<ge> ONE \<or> mt \<ge> ONE \<or> saturating_add lp mt \<ge> ONE)" for gross lp mt :: u256
    using that dodo_fees(1) [of lp mt gross] by (simp add: word_le_nat_alt [of _ gross] not_le)
  then show ?thesis by (auto simp: get_dodo_amount_out_def Let_def simp del: de_Morgan_disj)
qed

definition dodo_quote :: "DodoPoolState \<Rightarrow> u256 \<Rightarrow> bool \<Rightarrow> u256 panics" where
  "dodo_quote pool amount dir = Some (get_dodo_amount_out pool amount dir)"

lemma dodo_nothing_in: "get_dodo_amount_out pool 0 dir = 0"
  by (simp add: get_dodo_amount_out_def get_dodo_gross_amount_out_def)

interpretation dodo: bounded_quote dodo_quote dodo_reserve dodo_consistent
  by unfold_locales
     (simp_all add: dodo_quote_def dodo_nothing_in order_trans [OF dodo_net_le_gross dodo_gross_le])

section \<open>Properties\<close>

text \<open>
  A DODO quote never takes more than the pool holds of the token it pays, in every R state
  whose reserves agree with it and for every price, slope and amount, on the linear, the quadratic and
  the back-to-target path alike; the net amount is the gross amount less the two fees, each rounded down,
  with no subtraction wrapping, and no fee rate at or above one ever pays anything.
\<close>

theorem dodo_quote_bounded:
  fixes pool :: DodoPoolState and amount :: u256 and dir :: bool
  assumes "dodo_consistent pool"
  defines "gross \<equiv> unat (get_dodo_gross_amount_out pool amount dir)"
    and "lp \<equiv> unat (dd_lp_fee_rate pool)" and "mt \<equiv> unat (dd_mt_fee_rate pool)"
  shows "gross \<le> unat (dodo_reserve pool dir)
    \<and> unat (get_dodo_amount_out pool amount dir)
        = (if lp + mt < 10 ^ 18 then gross - gross * lp div 10 ^ 18 - gross * mt div 10 ^ 18 else 0)"
proof (intro conjI)
  show "gross \<le> unat (dodo_reserve pool dir)"
    unfolding gross_def using dodo_gross_le [OF assms(1)] by (simp flip: word_le_nat_alt)
  let ?lp = "dd_lp_fee_rate pool" and ?mt = "dd_mt_fee_rate pool"
  have rate: "lp + mt < 10 ^ 18 \<longleftrightarrow> ?lp < ONE \<and> ?mt < ONE \<and> saturating_add ?lp ?mt < ONE"
    by (auto simp: lp_def mt_def word_less_nat_alt unat_ONE unat_saturating_add)
  show "unat (get_dodo_amount_out pool amount dir)
      = (if lp + mt < 10 ^ 18 then gross - gross * lp div 10 ^ 18 - gross * mt div 10 ^ 18 else 0)"
  proof (cases "lp + mt < 10 ^ 18")
    case True
    then have fees: "?lp < ONE" "?mt < ONE" "saturating_add ?lp ?mt < ONE" using rate by auto
    show ?thesis
      using True fees dodo_fees(1) [OF fees, of "get_dodo_gross_amount_out pool amount dir"]
      by (auto simp: get_dodo_amount_out_def Let_def gross_def lp_def mt_def not_le)
  next
    case False
    with rate show ?thesis by (auto simp: get_dodo_amount_out_def Let_def not_less)
  qed
qed

definition sample_dodo_pool :: DodoPoolState where
  "sample_dodo_pool = \<lparr>dd_base_reserve = 1000000, dd_quote_reserve = 2000000, dd_base_token = 1, dd_quote_token = 2,
     dd_base_target = 1100000, dd_quote_target = 1900000, dd_r_state = AboveOne, dd_i = 2 * 10 ^ 18, dd_k = 0,
     dd_lp_fee_rate = 3 * 10 ^ 15, dd_mt_fee_rate = 0\<rparr>"

theorem dodo_quote_bounded_witness:
  "dodo_consistent sample_dodo_pool
    \<and> get_dodo_gross_amount_out sample_dodo_pool 150000 True = 200000
    \<and> unat (get_dodo_amount_out sample_dodo_pool 150000 True) = 199400"
proof -
  have con: "dodo_consistent sample_dodo_pool"
    by (simp add: dodo_consistent_def sample_dodo_pool_def)
  have gross: "get_dodo_gross_amount_out sample_dodo_pool 150000 True = 200000"
    by (simp add: get_dodo_gross_amount_out_def sample_dodo_pool_def solve_quadratic_function_for_trade_def
        saturating_sub_def mul_down_def checked_mul_def ONE_def from_limbs_def)
  show ?thesis
    using con gross dodo_quote_bounded [OF con, of 150000 True] by (simp add: sample_dodo_pool_def)
qed

end
