(* ===== verification/Woofi.thy ===== *)
theory Woofi
  imports QuoteContract LogExpMath
begin

text \<open>
  The oracle-priced pools of \<open>src/core/math/woofi.rs\<close>: the triple multiply-and-divide with its 512-bit
  fallback, the two one-sided quotes, the fee, and the swap entry point with its three routes (base to
  quote, quote to base, base to base). A zero divisor panics; the quotes guard their decimals, and the
  lemmas show that no pool with decimals below \<open>2^190\<close> reaches a panic.
\<close>

section \<open>The model\<close>

definition WOOFI_FEE_DENOMINATOR :: u256 where "WOOFI_FEE_DENOMINATOR = from_limbs 100000 0 0 0"

definition mul_div_triple :: "u256 \<Rightarrow> u256 \<Rightarrow> u256 \<Rightarrow> u256 \<Rightarrow> u256 \<Rightarrow> u256 panics" where
  "mul_div_triple a b c d e =
     (case do { ab \<leftarrow> checked_mul a b; abc \<leftarrow> checked_mul ab c; de \<leftarrow> checked_mul d e;
                if de \<noteq> 0 then Some (abc div de) else None } of
        Some r \<Rightarrow> Some r
      | None \<Rightarrow> do {
          result \<leftarrow> pdiv (ucast a * ucast b * ucast c :: u512) (ucast d * ucast e);
          if result > ucast (- 1 :: u256) then Some 0 else Some (u512_to_u256 result)
        })"

definition has_positive_swap_factor :: "u256 \<Rightarrow> u256 \<Rightarrow> bool" where
  "has_positive_swap_factor gamma spread \<longleftrightarrow> gamma \<le> ONE \<and> spread \<le> ONE \<and> gamma + spread < ONE"

text \<open>The guard that both quotes open with: an amount or an oracle field of zero quotes zero.\<close>

definition woofi_unusable :: "WoofiBaseTokenState \<Rightarrow> u256 \<Rightarrow> bool" where
  "woofi_unusable base amount \<longleftrightarrow>
     amount = 0 \<or> wb_price base = 0 \<or> wb_base_dec base = 0 \<or> wb_quote_dec base = 0 \<or> wb_price_dec base = 0"

definition calc_quote_amount_sell_base :: "WoofiBaseTokenState \<Rightarrow> u256 \<Rightarrow> u256 option \<Rightarrow> u256 panics" where
  "calc_quote_amount_sell_base base base_amount spread_override =
     (let spread = (case spread_override of Some s \<Rightarrow> s | None \<Rightarrow> wb_spread base)
      in if woofi_unusable base base_amount then Some 0
      else do {
        notional_swap \<leftarrow> mul_div_triple base_amount (wb_price base) (wb_quote_dec base)
                            (wb_base_dec base) (wb_price_dec base);
        if notional_swap > wb_max_notional_swap base then Some 0
        else do {
          gamma \<leftarrow> mul_div_triple base_amount (wb_price base) (wb_coeff base)
                      (wb_price_dec base) (wb_base_dec base);
          if gamma > wb_max_gamma base then Some 0
          else if \<not> has_positive_swap_factor gamma spread then Some 0
          else do {
            quote_no_spread \<leftarrow> mul_div_triple base_amount (wb_price base) (wb_quote_dec base)
                                  (wb_price_dec base) 1;
            pdiv (quote_no_spread * (ONE - gamma - spread)) (ONE * wb_base_dec base)
          }
        }
      })"

definition calc_base_amount_sell_quote :: "WoofiBaseTokenState \<Rightarrow> u256 \<Rightarrow> u256 option \<Rightarrow> u256 panics" where
  "calc_base_amount_sell_quote base quote_amount spread_override =
     (let spread = (case spread_override of Some s \<Rightarrow> s | None \<Rightarrow> wb_spread base)
      in if woofi_unusable base quote_amount then Some 0
      else if quote_amount > wb_max_notional_swap base then Some 0
      else do {
        gamma \<leftarrow> pdiv (quote_amount * wb_coeff base) (wb_quote_dec base);
        if gamma > wb_max_gamma base then Some 0
        else if \<not> has_positive_swap_factor gamma spread then Some 0
        else do {
          base_no_spread \<leftarrow> mul_div_triple quote_amount (wb_base_dec base) (wb_price_dec base)
                               (wb_price base) 1;
          pdiv (base_no_spread * (ONE - gamma - spread)) (ONE * wb_quote_dec base)
        }
      })"

definition apply_woofi_fee :: "u256 \<Rightarrow> u256 \<Rightarrow> u256" where
  "apply_woofi_fee amount fee_rate =
     (if amount = 0 \<or> fee_rate \<ge> WOOFI_FEE_DENOMINATOR then 0
      else amount - (amount * fee_rate) div WOOFI_FEE_DENOMINATOR)"

definition woofi_fee_rate_to_bps :: "u256 \<Rightarrow> u32" where
  "woofi_fee_rate_to_bps fee_rate =
     (if fee_rate \<ge> WOOFI_FEE_DENOMINATOR then 9999
      else ucast (min ((fee_rate * 10000) div WOOFI_FEE_DENOMINATOR) 9999))"

definition woofi_fee_bps_from_edge :: "WoofiPoolState \<Rightarrow> u8 \<Rightarrow> u8 \<Rightarrow> u32 option" where
  "woofi_fee_bps_from_edge pool token_in_idx token_out_idx =
     (let quote_idx = length (wf_base_states pool); tin = unat token_in_idx; tout = unat token_out_idx
      in if tin = tout \<or> tin > quote_idx \<or> tout > quote_idx then None
      else do {
        tot \<leftarrow>
          (if tout = quote_idx then
             map_option (\<lambda>b. woofi_fee_rate_to_bps (wb_fee_rate b)) (nth_opt (wf_base_states pool) tin)
           else if tin = quote_idx then
             map_option (\<lambda>b. woofi_fee_rate_to_bps (wb_fee_rate b)) (nth_opt (wf_base_states pool) tout)
           else do {
             sell \<leftarrow> nth_opt (wf_base_states pool) tin;
             buy \<leftarrow> nth_opt (wf_base_states pool) tout;
             Some (max (woofi_fee_rate_to_bps (wb_fee_rate sell)) (woofi_fee_rate_to_bps (wb_fee_rate buy)))
           });
        Some (min tot 9999)
      })"

text \<open>The three routes of the swap entry point, each with its reserve guard.\<close>

definition woofi_sell_base :: "WoofiPoolState \<Rightarrow> u256 \<Rightarrow> WoofiBaseTokenState \<Rightarrow> u256 panics" where
  "woofi_sell_base pool amount_in base = do {
     gross_quote_out \<leftarrow> calc_quote_amount_sell_base base amount_in None;
     let quote_out = apply_woofi_fee gross_quote_out (wb_fee_rate base);
     Some (if wf_quote_reserve pool = 0 \<or> quote_out > wf_quote_reserve pool then 0 else quote_out)
   }"

definition woofi_sell_quote :: "u256 \<Rightarrow> WoofiBaseTokenState \<Rightarrow> u256 panics" where
  "woofi_sell_quote amount_in base = do {
     let fee_adjusted = apply_woofi_fee amount_in (wb_fee_rate base);
     base_out \<leftarrow> calc_base_amount_sell_quote base fee_adjusted None;
     Some (if wb_reserve base = 0 \<or> base_out > wb_reserve base then 0 else base_out)
   }"

definition woofi_base_to_base ::
    "WoofiPoolState \<Rightarrow> u256 \<Rightarrow> WoofiBaseTokenState \<Rightarrow> WoofiBaseTokenState \<Rightarrow> u256 panics" where
  "woofi_base_to_base pool amount_in sell buy =
     (if amount_in > wb_reserve sell \<or> wb_reserve sell = 0 then Some 0
      else
        let spread = max (wb_spread sell) (wb_spread buy) div 2;
            fee_rate = max (wb_fee_rate sell) (wb_fee_rate buy)
        in do {
          quote_gross \<leftarrow> calc_quote_amount_sell_base sell amount_in (Some spread);
          if quote_gross = 0 \<or> quote_gross > wf_quote_reserve pool then Some 0
          else do {
            let quote_amount = apply_woofi_fee quote_gross fee_rate;
            base_out \<leftarrow> calc_base_amount_sell_quote buy quote_amount (Some spread);
            Some (if wb_reserve buy = 0 \<or> base_out > wb_reserve buy then 0 else base_out)
          }
        })"

definition get_woofi_amount_out ::
    "WoofiPoolState \<Rightarrow> u256 \<Rightarrow> bool \<Rightarrow> bool \<Rightarrow> nat option \<Rightarrow> nat option \<Rightarrow> u256 panics" where
  "get_woofi_amount_out pool amount_in token_in_is_quote token_out_is_quote base_in_idx base_out_idx =
     (let get = (\<lambda>idx. Option.bind idx (nth_opt (wf_base_states pool)))
      in if amount_in = 0 then Some 0
      else if token_out_is_quote then
        (case get base_in_idx of None \<Rightarrow> Some 0 | Some base \<Rightarrow> woofi_sell_base pool amount_in base)
      else if token_in_is_quote then
        (case get base_out_idx of None \<Rightarrow> Some 0 | Some base \<Rightarrow> woofi_sell_quote amount_in base)
      else
        (case (get base_in_idx, get base_out_idx) of
           (Some sell, Some buy) \<Rightarrow> woofi_base_to_base pool amount_in sell buy
         | _ \<Rightarrow> Some 0))"

section \<open>No panic, and never more than the oracle value\<close>

definition woofi_base_ok :: "WoofiBaseTokenState \<Rightarrow> bool" where
  "woofi_base_ok base \<longleftrightarrow> unat (wb_base_dec base) < 2 ^ 190 \<and> unat (wb_quote_dec base) < 2 ^ 190"

definition woofi_wf :: "WoofiPoolState \<Rightarrow> bool" where
  "woofi_wf pool \<longleftrightarrow> (\<forall>base \<in> set (wf_base_states pool). woofi_base_ok base)"

text \<open>
  Wrapping can only lose value here: each product is taken modulo a power of two and then divided by an
  exact divisor, so the computed ratio is at most the true one.
\<close>

lemma unat_mult_le_exact: "unat (a * b) \<le> unat a * unat (b :: 'a::len word)"
  by (simp add: unat_word_ariths)

lemma mul_div_triple_bound:
  assumes "d \<noteq> 0" and "e \<noteq> 0"
  obtains r where "mul_div_triple a b c d e = Some r"
    and "unat r * (unat d * unat e) \<le> unat a * unat b * unat c"
proof (cases "do { ab \<leftarrow> checked_mul a b; abc \<leftarrow> checked_mul ab c; de \<leftarrow> checked_mul d e;
                if de \<noteq> 0 then Some (abc div de) else None }")
  case (Some r)
  then obtain ab abc de where "checked_mul a b = Some ab" and "checked_mul ab c = Some abc"
    and "checked_mul d e = Some de" and r: "r = abc div de"
    by (simp only: Option.bind_eq_Some_conv option.inject split: if_splits) blast
  then have "unat abc = unat a * unat b * unat c" and "unat de = unat d * unat e"
    by (simp_all add: checked_mul_iff)
  then have "unat r * (unat d * unat e) \<le> unat a * unat b * unat c" by (simp add: r unat_div_word)
  with Some that show ?thesis by (simp add: mul_div_triple_def)
next
  case None
  define n :: u512 where "n = ucast a * ucast b * ucast c"
  define q :: u512 where "q = n div (ucast d * ucast e)"
  have de: "unat (ucast d * ucast e :: u512) = unat d * unat e" by simp
  with assms have nz: "(ucast d * ucast e :: u512) \<noteq> 0"
    by (metis mult_is_0 unat_eq_zero)
  have "unat n \<le> unat (ucast a * ucast b :: u512) * unat (ucast c :: u512)"
    unfolding n_def by (rule unat_mult_le_exact)
  then have n: "unat n \<le> unat a * unat b * unat c" by simp
  have "unat q * (unat d * unat e) \<le> unat n"
    unfolding q_def by (simp add: unat_div_word de)
  with n have q: "unat q * (unat d * unat e) \<le> unat a * unat b * unat c" by linarith
  have res: "mul_div_triple a b c d e
      = (if q > ucast (- 1 :: u256) then Some 0 else Some (u512_to_u256 q))"
    using None nz by (simp add: mul_div_triple_def n_def q_def)
  show ?thesis
  proof (cases "q > ucast (- 1 :: u256)")
    case True
    then show ?thesis using res that [of 0] by simp
  next
    case False
    then have "unat q \<le> unat (ucast (- 1 :: u256) :: u512)" by (simp add: word_le_nat_alt not_less)
    then have "unat q < 2 ^ 256" by (simp only: unat_ucast_512 unat_max_word) simp
    then show ?thesis using res False q that by (simp add: unat_u512_to_u256)
  qed
qed

lemma times_ONE_nz:
  assumes "x \<noteq> 0" and "unat x < 2 ^ 190"
  shows "unat (ONE * x) = 10 ^ 18 * unat x" and "ONE * x \<noteq> 0"
proof -
  show u: "unat (ONE * x) = 10 ^ 18 * unat x"
    using assms(2) by (subst unat_mult_nowrap) (simp_all add: unat_ONE)
  show "ONE * x \<noteq> 0" using u assms(1) by (metis mult_is_0 power_not_zero unat_eq_zero zero_neq_numeral)
qed

text \<open>The last step of both quotes: the spread factor is at most one, so it only lowers the value.\<close>

lemma spread_step_bound:
  assumes "has_positive_swap_factor gamma spread" and "dec \<noteq> 0" and "unat dec < 2 ^ 190"
  obtains out where "pdiv (v * (ONE - gamma - spread)) (ONE * dec) = Some out"
    and "unat out * unat dec \<le> unat v"
proof -
  let ?f = "ONE - gamma - spread"
  have "gamma \<le> ONE" and "unat (gamma + spread) = unat gamma + unat spread" and "gamma + spread < ONE"
    using assms(1)
    by (auto simp: has_positive_swap_factor_def word_le_nat_alt unat_ONE intro!: unat_add_nowrap)
  then have "?f \<le> ONE"
    by (simp add: word_le_nat_alt word_less_nat_alt unat_sub_nowrap)
  then have f: "unat ?f \<le> 10 ^ 18" by (simp add: word_le_nat_alt unat_ONE)
  let ?out = "(v * ?f) div (ONE * dec)"
  have "unat ?out * (10 ^ 18 * unat dec) \<le> unat (v * ?f)"
    by (simp only: unat_div_word times_ONE_nz [OF assms(2,3)] div_times_less_eq_dividend)
  also have "\<dots> \<le> unat v * 10 ^ 18"
    using unat_mult_le_exact [of v ?f] mult_le_mono2 [OF f, of "unat v"] by linarith
  finally have "unat ?out * unat dec * 10 ^ 18 \<le> unat v * 10 ^ 18" by (simp add: algebra_simps)
  then have "unat ?out * unat dec \<le> unat v" by simp
  with times_ONE_nz(2) [OF assms(2,3)] that show ?thesis by simp
qed

lemma sell_base_bound:
  assumes "woofi_base_ok base"
  obtains out where "calc_quote_amount_sell_base base amount sp = Some out"
    and "unat out * (unat (wb_base_dec base) * unat (wb_price_dec base))
           \<le> unat amount * unat (wb_price base) * unat (wb_quote_dec base)"
proof (cases "woofi_unusable base amount")
  case True
  then show ?thesis using that [of 0] by (simp add: calc_quote_amount_sell_base_def)
next
  case False
  then have bd: "wb_base_dec base \<noteq> 0" and pd: "wb_price_dec base \<noteq> 0"
    by (auto simp: woofi_unusable_def)
  have small: "unat (wb_base_dec base) < 2 ^ 190" using assms by (simp add: woofi_base_ok_def)
  obtain notional where n: "mul_div_triple amount (wb_price base) (wb_quote_dec base)
      (wb_base_dec base) (wb_price_dec base) = Some notional"
    using mul_div_triple_bound [OF bd pd] by blast
  obtain gamma where g: "mul_div_triple amount (wb_price base) (wb_coeff base)
      (wb_price_dec base) (wb_base_dec base) = Some gamma"
    using mul_div_triple_bound [OF pd bd] by blast
  obtain v where v: "mul_div_triple amount (wb_price base) (wb_quote_dec base) (wb_price_dec base) 1 = Some v"
    and vb: "unat v * unat (wb_price_dec base) \<le> unat amount * unat (wb_price base) * unat (wb_quote_dec base)"
    using mul_div_triple_bound [OF pd one_neq_zero] by (metis mult.right_neutral unsigned_1)
  define spread where "spread = (case sp of Some s \<Rightarrow> s | None \<Rightarrow> wb_spread base)"
  show ?thesis
  proof (cases "notional > wb_max_notional_swap base \<or> gamma > wb_max_gamma base
      \<or> \<not> has_positive_swap_factor gamma spread")
    case True
    then show ?thesis
      using that [of 0] False n g by (auto simp: calc_quote_amount_sell_base_def spread_def Let_def)
  next
    case ok: False
    then have "has_positive_swap_factor gamma spread" by simp
    then obtain out where out: "pdiv (v * (ONE - gamma - spread)) (ONE * wb_base_dec base) = Some out"
      and ob: "unat out * unat (wb_base_dec base) \<le> unat v"
      using spread_step_bound [OF _ bd small] by blast
    have "unat out * (unat (wb_base_dec base) * unat (wb_price_dec base)) \<le> unat v * unat (wb_price_dec base)"
      using mult_le_mono1 [OF ob, of "unat (wb_price_dec base)"] by (simp add: mult.assoc)
    then have "unat out * (unat (wb_base_dec base) * unat (wb_price_dec base))
        \<le> unat amount * unat (wb_price base) * unat (wb_quote_dec base)"
      using vb by (rule order_trans)
    moreover have "calc_quote_amount_sell_base base amount sp = Some out"
      using False ok n g v out by (auto simp: calc_quote_amount_sell_base_def spread_def Let_def)
    ultimately show ?thesis using that by blast
  qed
qed

lemma sell_quote_bound:
  assumes "woofi_base_ok base"
  obtains out where "calc_base_amount_sell_quote base amount sp = Some out"
    and "unat out * (unat (wb_quote_dec base) * unat (wb_price base))
           \<le> unat amount * unat (wb_base_dec base) * unat (wb_price_dec base)"
proof (cases "woofi_unusable base amount \<or> amount > wb_max_notional_swap base")
  case True
  then show ?thesis using that [of 0] by (auto simp: calc_base_amount_sell_quote_def Let_def)
next
  case False
  then have qd: "wb_quote_dec base \<noteq> 0" and pr: "wb_price base \<noteq> 0"
    by (auto simp: woofi_unusable_def)
  have small: "unat (wb_quote_dec base) < 2 ^ 190" using assms by (simp add: woofi_base_ok_def)
  define gamma where "gamma = (amount * wb_coeff base) div wb_quote_dec base"
  obtain v where v: "mul_div_triple amount (wb_base_dec base) (wb_price_dec base) (wb_price base) 1 = Some v"
    and vb: "unat v * unat (wb_price base) \<le> unat amount * unat (wb_base_dec base) * unat (wb_price_dec base)"
    using mul_div_triple_bound [OF pr one_neq_zero] by (metis mult.right_neutral unsigned_1)
  define spread where "spread = (case sp of Some s \<Rightarrow> s | None \<Rightarrow> wb_spread base)"
  show ?thesis
  proof (cases "gamma > wb_max_gamma base \<or> \<not> has_positive_swap_factor gamma spread")
    case True
    then show ?thesis
      using that [of 0] False qd by (auto simp: calc_base_amount_sell_quote_def Let_def spread_def gamma_def)
  next
    case ok: False
    then have "has_positive_swap_factor gamma spread" by simp
    then obtain out where out: "pdiv (v * (ONE - gamma - spread)) (ONE * wb_quote_dec base) = Some out"
      and ob: "unat out * unat (wb_quote_dec base) \<le> unat v"
      using spread_step_bound [OF _ qd small] by blast
    have "unat out * (unat (wb_quote_dec base) * unat (wb_price base)) \<le> unat v * unat (wb_price base)"
      using mult_le_mono1 [OF ob, of "unat (wb_price base)"] by (simp add: mult.assoc)
    then have "unat out * (unat (wb_quote_dec base) * unat (wb_price base))
        \<le> unat amount * unat (wb_base_dec base) * unat (wb_price_dec base)"
      using vb by (rule order_trans)
    moreover have "calc_base_amount_sell_quote base amount sp = Some out"
      using False ok v out qd by (auto simp: calc_base_amount_sell_quote_def Let_def spread_def gamma_def)
    ultimately show ?thesis using that by blast
  qed
qed

lemma apply_woofi_fee_le: "apply_woofi_fee amount fee \<le> amount"
proof (cases "amount = 0 \<or> fee \<ge> WOOFI_FEE_DENOMINATOR")
  case False
  then have fee: "unat fee \<le> 100000"
    by (simp add: WOOFI_FEE_DENOMINATOR_def from_limbs_def word_le_nat_alt)
  have "unat ((amount * fee) div WOOFI_FEE_DENOMINATOR) \<le> unat amount * unat fee div 100000"
    using div_le_mono [OF unat_mult_le_exact [of amount fee], of 100000]
    by (simp add: unat_div_word WOOFI_FEE_DENOMINATOR_def from_limbs_def)
  also have "\<dots> \<le> unat amount" by (rule mul_div_le_self [OF fee])
  finally show ?thesis
    using False by (auto simp: apply_woofi_fee_def word_le_nat_alt unat_sub_nowrap)
qed (auto simp: apply_woofi_fee_def)

section \<open>The pool as a bounded quote\<close>

text \<open>A direction is the argument tuple of the entry point.\<close>

type_synonym woofi_dir = "bool \<times> bool \<times> nat option \<times> nat option"

definition woofi_quote :: "WoofiPoolState \<Rightarrow> u256 \<Rightarrow> woofi_dir \<Rightarrow> u256 panics" where
  "woofi_quote pool amount dir =
     (case dir of (inq, outq, bi, bo) \<Rightarrow> get_woofi_amount_out pool amount inq outq bi bo)"

definition woofi_reserve :: "WoofiPoolState \<Rightarrow> woofi_dir \<Rightarrow> u256" where
  "woofi_reserve pool dir =
     (case dir of (inq, outq, bi, bo) \<Rightarrow>
        if outq then wf_quote_reserve pool
        else case Option.bind bo (nth_opt (wf_base_states pool)) of None \<Rightarrow> 0 | Some base \<Rightarrow> wb_reserve base)"

lemma woofi_get_ok:
  "woofi_wf pool \<Longrightarrow> Option.bind idx (nth_opt (wf_base_states pool)) = Some base \<Longrightarrow> woofi_base_ok base"
  by (cases idx) (auto simp: woofi_wf_def dest!: nth_opt_SomeD)

text \<open>The reserve guard: what passes it is at most the reserve and at most the computed amount.\<close>

definition covered :: "u256 \<Rightarrow> u256 \<Rightarrow> u256" where
  "covered out reserve = (if reserve = 0 \<or> out > reserve then 0 else out)"

lemma covered_le: "covered out reserve \<le> reserve" "covered out reserve \<le> out"
  by (auto simp: covered_def not_less)

lemma woofi_sell_base_eq:
  "calc_quote_amount_sell_base base amount None = Some g \<Longrightarrow>
   woofi_sell_base pool amount base = Some (covered (apply_woofi_fee g (wb_fee_rate base)) (wf_quote_reserve pool))"
  by (simp add: woofi_sell_base_def covered_def Let_def)

lemma woofi_sell_quote_eq:
  "calc_base_amount_sell_quote base (apply_woofi_fee amount (wb_fee_rate base)) None = Some b \<Longrightarrow>
   woofi_sell_quote amount base = Some (covered b (wb_reserve base))"
  by (simp add: woofi_sell_quote_def covered_def Let_def)

lemma woofi_sell_base_within:
  assumes "woofi_base_ok base"
  shows "quotes_within (woofi_sell_base pool amount base) (wf_quote_reserve pool)"
proof -
  obtain g where "calc_quote_amount_sell_base base amount None = Some g"
    using sell_base_bound [OF assms] by blast
  then show ?thesis by (simp add: woofi_sell_base_eq covered_le)
qed

lemma woofi_sell_quote_within:
  assumes "woofi_base_ok base"
  shows "quotes_within (woofi_sell_quote amount base) (wb_reserve base)"
proof -
  obtain b where "calc_base_amount_sell_quote base (apply_woofi_fee amount (wb_fee_rate base)) None = Some b"
    using sell_quote_bound [OF assms] by blast
  then show ?thesis by (simp add: woofi_sell_quote_eq covered_le)
qed

lemma woofi_base_to_base_within:
  assumes "woofi_base_ok sell" and "woofi_base_ok buy"
  shows "quotes_within (woofi_base_to_base pool amount sell buy) (wb_reserve buy)"
proof -
  let ?spread = "max (wb_spread sell) (wb_spread buy) div 2"
  obtain g where g: "calc_quote_amount_sell_base sell amount (Some ?spread) = Some g"
    using sell_base_bound [OF assms(1)] by blast
  obtain b where "calc_base_amount_sell_quote buy
      (apply_woofi_fee g (max (wb_fee_rate sell) (wb_fee_rate buy))) (Some ?spread) = Some b"
    using sell_quote_bound [OF assms(2)] by blast
  with g show ?thesis by (auto simp: woofi_base_to_base_def Let_def not_less)
qed

interpretation woofi: bounded_quote woofi_quote woofi_reserve woofi_wf
proof
  show "quotes_within (woofi_quote pool amount dir) (woofi_reserve pool dir)"
    if "woofi_wf pool" for pool amount dir
    using woofi_get_ok [OF that]
    by (auto simp: woofi_quote_def woofi_reserve_def get_woofi_amount_out_def Let_def
        woofi_sell_base_within woofi_sell_quote_within woofi_base_to_base_within
        split: prod.splits option.splits simp del: bind_eq_Some_conv)
  show "woofi_quote pool 0 dir = Some 0" for pool dir
    by (simp add: woofi_quote_def get_woofi_amount_out_def split: prod.splits)
qed

text \<open>Both one-sided routes in closed form; an empty amount is covered, since its quote is zero.\<close>

lemma get_woofi_sell_base:
  assumes "nth_opt (wf_base_states pool) k = Some base"
    and "calc_quote_amount_sell_base base amount None = Some g"
  shows "get_woofi_amount_out pool amount False True (Some k) None
    = Some (covered (apply_woofi_fee g (wb_fee_rate base)) (wf_quote_reserve pool))"
  using assms woofi_sell_base_eq [OF assms(2)]
  by (auto simp: get_woofi_amount_out_def calc_quote_amount_sell_base_def woofi_unusable_def
      apply_woofi_fee_def covered_def)

lemma get_woofi_sell_quote:
  assumes "nth_opt (wf_base_states pool) k = Some base"
    and "calc_base_amount_sell_quote base (apply_woofi_fee amount (wb_fee_rate base)) None = Some b"
  shows "get_woofi_amount_out pool amount True False None (Some k) = Some (covered b (wb_reserve base))"
  using assms woofi_sell_quote_eq [OF assms(2)]
  by (auto simp: get_woofi_amount_out_def calc_base_amount_sell_quote_def woofi_unusable_def
      apply_woofi_fee_def covered_def)

section \<open>Properties\<close>

text \<open>
  A WooFi quote never panics and never exceeds the reserve it is paid from, and a sale of a
  base token never pays more than its oracle value
  \<open>amount * price * quote_dec / (base_dec * price_dec)\<close>, although every product of the code may wrap;
  likewise a purchase never returns more base tokens than the quote amount buys at the oracle price.
  This holds for every oracle state with decimals below \<open>2^190\<close>.
\<close>

theorem woofi_at_most_oracle_value:
  assumes "woofi_wf pool" and "nth_opt (wf_base_states pool) k = Some base"
  shows "(\<exists>out. get_woofi_amount_out pool amount False True (Some k) None = Some out
      \<and> out \<le> wf_quote_reserve pool
      \<and> unat out * (unat (wb_base_dec base) * unat (wb_price_dec base))
          \<le> unat amount * unat (wb_price base) * unat (wb_quote_dec base))
    \<and> (\<exists>out. get_woofi_amount_out pool amount True False None (Some k) = Some out
      \<and> out \<le> wb_reserve base
      \<and> unat out * (unat (wb_quote_dec base) * unat (wb_price base))
          \<le> unat amount * unat (wb_base_dec base) * unat (wb_price_dec base))"
proof (rule conjI)
  have ok: "woofi_base_ok base" using woofi_get_ok [OF assms(1), of "Some k"] assms(2) by simp
  obtain g where g: "calc_quote_amount_sell_base base amount None = Some g"
    and gb: "unat g * (unat (wb_base_dec base) * unat (wb_price_dec base))
        \<le> unat amount * unat (wb_price base) * unat (wb_quote_dec base)"
    using sell_base_bound [OF ok] by blast
  let ?out = "covered (apply_woofi_fee g (wb_fee_rate base)) (wf_quote_reserve pool)"
  have "unat ?out \<le> unat g"
    using order_trans [OF covered_le(2) apply_woofi_fee_le] by (simp flip: word_le_nat_alt)
  from order_trans [OF mult_le_mono1 [OF this] gb]
  show "\<exists>out. get_woofi_amount_out pool amount False True (Some k) None = Some out
      \<and> out \<le> wf_quote_reserve pool
      \<and> unat out * (unat (wb_base_dec base) * unat (wb_price_dec base))
          \<le> unat amount * unat (wb_price base) * unat (wb_quote_dec base)"
    using get_woofi_sell_base [OF assms(2) g] covered_le(1) by blast
  let ?a = "apply_woofi_fee amount (wb_fee_rate base)"
  obtain b where b: "calc_base_amount_sell_quote base ?a None = Some b"
    and bb: "unat b * (unat (wb_quote_dec base) * unat (wb_price base))
        \<le> unat ?a * unat (wb_base_dec base) * unat (wb_price_dec base)"
    using sell_quote_bound [OF ok] by blast
  have a: "unat ?a * unat (wb_base_dec base) * unat (wb_price_dec base)
      \<le> unat amount * unat (wb_base_dec base) * unat (wb_price_dec base)"
    by (intro mult_le_mono1) (simp add: apply_woofi_fee_le flip: word_le_nat_alt)
  have "unat (covered b (wb_reserve base)) \<le> unat b"
    using covered_le(2) by (simp flip: word_le_nat_alt)
  from order_trans [OF mult_le_mono1 [OF this] order_trans [OF bb a]]
  show "\<exists>out. get_woofi_amount_out pool amount True False None (Some k) = Some out
      \<and> out \<le> wb_reserve base
      \<and> unat out * (unat (wb_quote_dec base) * unat (wb_price base))
          \<le> unat amount * unat (wb_base_dec base) * unat (wb_price_dec base)"
    using get_woofi_sell_quote [OF assms(2) b] covered_le(1) by blast
qed

definition sample_woofi_base :: WoofiBaseTokenState where
  "sample_woofi_base = \<lparr>wb_price = 200, wb_spread = 0, wb_coeff = 0, wb_reserve = 5000, wb_base_dec = 10,
     wb_quote_dec = 10, wb_price_dec = 100, wb_fee_rate = 25, wb_max_gamma = 1, wb_max_notional_swap = 100000\<rparr>"

definition sample_woofi_pool :: WoofiPoolState where
  "sample_woofi_pool = \<lparr>wf_tokens = [1, 2], wf_quote_reserve = 9000, wf_base_states = [sample_woofi_base],
     wf_fee = 0\<rparr>"

theorem woofi_at_most_oracle_value_witness:
  "woofi_wf sample_woofi_pool
    \<and> (\<exists>out. get_woofi_amount_out sample_woofi_pool 1000 False True (Some 0) None = Some out
        \<and> out \<le> 9000 \<and> unat out * 1000 \<le> 1000 * 200 * 10)"
proof -
  have wf: "woofi_wf sample_woofi_pool"
    by (simp add: woofi_wf_def woofi_base_ok_def sample_woofi_pool_def sample_woofi_base_def)
  have "nth_opt (wf_base_states sample_woofi_pool) 0 = Some sample_woofi_base"
    by (simp add: sample_woofi_pool_def nth_opt_def)
  from woofi_at_most_oracle_value [OF wf this, of 1000]
  have "\<exists>out. get_woofi_amount_out sample_woofi_pool 1000 False True (Some 0) None = Some out
      \<and> out \<le> 9000 \<and> unat out * 1000 \<le> 1000 * 200 * 10"
    by (elim conjE) (simp add: sample_woofi_pool_def sample_woofi_base_def)
  with wf show ?thesis by blast
qed

end
