(* ===== verification/Realign.thy ===== *)
theory Realign
  imports Arena UniswapV2 Balancer Curve Dodo Woofi
begin

text \<open>
  The agreement between the edges of a cycle and the pools they name, first half of
  \<open>src/pipeline/local_sim.rs\<close>. Edges are cached while pool states are refreshed, so before a cycle is
  simulated its protocol tags, its fee and direction, and the token positions of its Balancer, WooFi and
  DODO hops are brought in line with the live states.

  An edge that the code mutates in place is returned updated; \<open>None\<close> is the answer \<open>false\<close> of a repair,
  which leaves the edge as it was. The two floating-point scores of a cycle are never read here and are a
  type parameter of the record.
\<close>

section \<open>Cycles and list searches\<close>

record 'score FoundCycle =
  fc_start_token :: u32
  fc_edges :: "Edge list"
  fc_hop_count :: u32
  fc_log_weight :: 'score
  fc_cumulative_fee_bps :: u32
  fc_score :: 'score
  fc_cycle_ratio :: u256

definition edge_hops :: "'score FoundCycle \<Rightarrow> u32" where
  "edge_hops cycle =
     (if length (fc_edges cycle) < 2 ^ 32 then of_nat (length (fc_edges cycle)) else fc_hop_count cycle)"

definition u8_try_from :: "nat \<Rightarrow> u8 option" where
  "u8_try_from n = (if n < 256 then Some (of_nat n) else None)"

section \<open>Protocol tags and states\<close>

datatype UnsupportedStateKind =
  KInvalid | KV2 | KV3 | KV4 | KCurve | KBalancer | KDodo | KWoofi

fun pool_state_kind :: "PoolState \<Rightarrow> UnsupportedStateKind" where
  "pool_state_kind PInvalid = KInvalid"
| "pool_state_kind (PV2 _) = KV2"
| "pool_state_kind (PV3 _) = KV3"
| "pool_state_kind (PV4 _) = KV4"
| "pool_state_kind (PCurve _) = KCurve"
| "pool_state_kind (PBalancer _) = KBalancer"
| "pool_state_kind (PDodo _) = KDodo"
| "pool_state_kind (PWoofi _) = KWoofi"

fun protocol_matches_pool_state :: "ProtocolType \<Rightarrow> PoolState \<Rightarrow> bool" where
  "protocol_matches_pool_state protocol (PV2 _) = (protocol = UniswapV2)"
| "protocol_matches_pool_state protocol (PV3 _) = (protocol = UniswapV3)"
| "protocol_matches_pool_state protocol (PV4 _) = (protocol = UniswapV4)"
| "protocol_matches_pool_state protocol (PCurve _) = (protocol = CurveStable \<or> protocol = CurveCrypto)"
| "protocol_matches_pool_state protocol (PBalancer _) = (protocol = BalancerV2)"
| "protocol_matches_pool_state protocol (PDodo _) = (protocol = Dodo)"
| "protocol_matches_pool_state protocol (PWoofi _) = (protocol = Woofi)"
| "protocol_matches_pool_state protocol PInvalid = False"

fun protocol_from_pool_state :: "PoolState \<Rightarrow> ProtocolType \<Rightarrow> ProtocolType" where
  "protocol_from_pool_state (PV2 _) fallback = UniswapV2"
| "protocol_from_pool_state (PV3 _) fallback = UniswapV3"
| "protocol_from_pool_state (PV4 _) fallback = UniswapV4"
| "protocol_from_pool_state (PCurve _) fallback =
     (if fallback = CurveStable \<or> fallback = CurveCrypto then fallback else CurveStable)"
| "protocol_from_pool_state (PBalancer _) fallback = BalancerV2"
| "protocol_from_pool_state (PDodo _) fallback = Dodo"
| "protocol_from_pool_state (PWoofi _) fallback = Woofi"
| "protocol_from_pool_state PInvalid fallback = fallback"

definition protocol_is_pair :: "ProtocolType \<Rightarrow> bool" where
  "protocol_is_pair protocol \<longleftrightarrow> protocol = UniswapV2 \<or> protocol = UniswapV3 \<or> protocol = UniswapV4"

definition cycle_edges_match_arena_state :: "StateArena \<Rightarrow> Edge list \<Rightarrow> bool" where
  "cycle_edges_match_arena_state arena edges =
     list_all (\<lambda>edge. case pool_state arena (e_pool_index edge) of
         None \<Rightarrow> False
       | Some st \<Rightarrow> protocol_matches_pool_state (e_protocol edge) st) edges"

fun pool_state_matches_protocol :: "PoolState \<Rightarrow> ProtocolType \<Rightarrow> bool" where
  "pool_state_matches_protocol (PV2 _) UniswapV2 = True"
| "pool_state_matches_protocol (PV3 _) UniswapV3 = True"
| "pool_state_matches_protocol (PV4 _) UniswapV4 = True"
| "pool_state_matches_protocol (PCurve _) CurveStable = True"
| "pool_state_matches_protocol (PCurve _) CurveCrypto = True"
| "pool_state_matches_protocol (PBalancer _) BalancerV2 = True"
| "pool_state_matches_protocol (PDodo _) Dodo = True"
| "pool_state_matches_protocol (PWoofi _) Woofi = True"
| "pool_state_matches_protocol _ _ = False"

fun mismatch_from :: "nat \<Rightarrow> StateArena \<Rightarrow> Edge list \<Rightarrow> (nat \<times> ProtocolType \<times> UnsupportedStateKind) option" where
  "mismatch_from hop arena [] = None"
| "mismatch_from hop arena (edge # edges) =
     (case pool_state arena (e_pool_index edge) of
        None \<Rightarrow> mismatch_from (Suc hop) arena edges
      | Some st \<Rightarrow>
          if \<not> pool_state_matches_protocol st (e_protocol edge)
          then Some (hop, e_protocol edge, pool_state_kind st)
          else mismatch_from (Suc hop) arena edges)"

definition first_protocol_state_mismatch ::
    "StateArena \<Rightarrow> Edge list \<Rightarrow> (nat \<times> ProtocolType \<times> UnsupportedStateKind) option" where
  "first_protocol_state_mismatch arena edges = mismatch_from 0 arena edges"

section \<open>Token positions of Balancer, WooFi and DODO hops\<close>

definition multi_token_protocol :: "ProtocolType \<Rightarrow> bool" where
  "multi_token_protocol protocol \<longleftrightarrow> protocol = BalancerV2 \<or> protocol = Woofi \<or> protocol = Dodo"

definition legs_at :: "address list \<Rightarrow> Edge \<Rightarrow> address \<Rightarrow> address \<Rightarrow> bool" where
  "legs_at tokens edge token_in token_out \<longleftrightarrow>
     nth_opt tokens (unat (e_token_in_idx edge)) = Some token_in \<and>
     nth_opt tokens (unat (e_token_out_idx edge)) = Some token_out"

fun multi_token_edge_aligned :: "PoolState \<Rightarrow> Edge \<Rightarrow> address \<Rightarrow> address \<Rightarrow> bool" where
  "multi_token_edge_aligned (PBalancer s) edge token_in token_out =
     (if bal_tokens s \<noteq> [] then legs_at (bal_tokens s) edge token_in token_out else True)"
| "multi_token_edge_aligned (PWoofi s) edge token_in token_out =
     (if wf_tokens s \<noteq> [] then legs_at (wf_tokens s) edge token_in token_out else True)"
| "multi_token_edge_aligned (PDodo s) edge token_in token_out =
     (if dd_base_token s \<noteq> 0 \<and> dd_quote_token s \<noteq> 0
      then legs_at [dd_base_token s, dd_quote_token s] edge token_in token_out else True)"
| "multi_token_edge_aligned _ edge token_in token_out = True"

definition resolve_multi_token_vault_indices ::
    "address list \<Rightarrow> address \<Rightarrow> address \<Rightarrow> (u8 \<times> u8) option" where
  "resolve_multi_token_vault_indices tokens token_in token_out =
     (if token_in = token_out then None
      else do {
        in_idx \<leftarrow> position_of token_in tokens;
        out_idx \<leftarrow> position_of token_out tokens;
        i \<leftarrow> u8_try_from in_idx;
        j \<leftarrow> u8_try_from out_idx;
        Some (i, j)
      })"

text \<open>The token list that a realignment uses; \<open>None\<close> where the code has nothing to align.\<close>

fun vault_tokens :: "PoolState \<Rightarrow> address list option" where
  "vault_tokens (PBalancer s) = (if bal_tokens s \<noteq> [] then Some (bal_tokens s) else None)"
| "vault_tokens (PWoofi s) = (if wf_tokens s \<noteq> [] then Some (wf_tokens s) else None)"
| "vault_tokens (PDodo s) =
     (if dd_base_token s \<noteq> 0 \<and> dd_quote_token s \<noteq> 0 then Some [dd_base_token s, dd_quote_token s] else None)"
| "vault_tokens _ = None"

definition realign_multi_token_edge :: "StateArena \<Rightarrow> PoolState \<Rightarrow> Edge \<Rightarrow> Edge option" where
  "realign_multi_token_edge arena st edge =
     (if \<not> multi_token_protocol (e_protocol edge) then Some edge
      else case vault_tokens st of
        None \<Rightarrow> Some edge
      | Some tokens \<Rightarrow> do {
          tin \<leftarrow> token_address arena (e_token_in edge);
          tout \<leftarrow> token_address arena (e_token_out edge);
          if multi_token_edge_aligned st edge tin tout then Some edge
          else do {
            (in_idx, out_idx) \<leftarrow> resolve_multi_token_vault_indices tokens tin tout;
            if \<not> hop_pair_routable st (unat in_idx) (unat out_idx) then None
            else Some (edge\<lparr>e_token_in_idx := in_idx, e_token_out_idx := out_idx,
                            e_zero_for_one := in_idx < out_idx\<rparr>)
          }
        })"

fun realign_edges :: "StateArena \<Rightarrow> Edge list \<Rightarrow> Edge list option" where
  "realign_edges arena [] = Some []"
| "realign_edges arena (edge # edges) =
     (if \<not> multi_token_protocol (e_protocol edge) then
        map_option (\<lambda>rest. edge # rest) (realign_edges arena edges)
      else do {
        st \<leftarrow> pool_state arena (e_pool_index edge);
        edge' \<leftarrow> (if \<not> protocol_matches_pool_state (e_protocol edge) st then Some edge
                  else realign_multi_token_edge arena st edge);
        map_option (\<lambda>rest. edge' # rest) (realign_edges arena edges)
      })"

definition realign_multi_token_found_cycle ::
    "StateArena \<Rightarrow> 'score FoundCycle \<Rightarrow> 'score FoundCycle option" where
  "realign_multi_token_found_cycle arena cycle =
     (let needs_scan = list_ex (\<lambda>edge. multi_token_protocol (e_protocol edge)) (fc_edges cycle)
      in if \<not> needs_scan then Some cycle
         else map_option (\<lambda>edges. cycle\<lparr>fc_edges := edges\<rparr>) (realign_edges arena (fc_edges cycle)))"

section \<open>Fees, tags and directions\<close>

fun sync_edge_fee_bps_from_state :: "Edge \<Rightarrow> PoolState \<Rightarrow> Edge" where
  "sync_edge_fee_bps_from_state edge (PV2 v2) =
     (case v2_fee_bps_from_pool v2 of Some bps \<Rightarrow> edge\<lparr>e_fee_bps := bps\<rparr> | None \<Rightarrow> edge)"
| "sync_edge_fee_bps_from_state edge (PV3 cl) =
     (let pips = (ucast (cl_fee cl) :: u32)
      in if 1 \<le> pips \<and> pips < 0x800000 then edge\<lparr>e_fee_bps := min (pips div 100) 9999\<rparr> else edge)"
| "sync_edge_fee_bps_from_state edge (PV4 cl) =
     (let pips = (ucast (cl_fee cl) :: u32)
      in if pips < 0x800000 then edge\<lparr>e_fee_bps := min (pips div 100) 9999\<rparr> else edge)"
| "sync_edge_fee_bps_from_state edge (PCurve c) =
     (case curve_fee_bps_from_pool (cv_fee c) of Some bps \<Rightarrow> edge\<lparr>e_fee_bps := bps\<rparr> | None \<Rightarrow> edge)"
| "sync_edge_fee_bps_from_state edge (PBalancer b) =
     (case balancer_fee_bps_from_pool (bal_fee b) of Some bps \<Rightarrow> edge\<lparr>e_fee_bps := bps\<rparr> | None \<Rightarrow> edge)"
| "sync_edge_fee_bps_from_state edge (PDodo d) =
     (case dodo_fee_bps_from_pool (dd_lp_fee_rate d) (dd_mt_fee_rate d) of
        Some bps \<Rightarrow> edge\<lparr>e_fee_bps := bps\<rparr> | None \<Rightarrow> edge)"
| "sync_edge_fee_bps_from_state edge (PWoofi w) =
     (case woofi_fee_bps_from_edge w (e_token_in_idx edge) (e_token_out_idx edge) of
        Some bps \<Rightarrow> edge\<lparr>e_fee_bps := bps\<rparr> | None \<Rightarrow> edge)"
| "sync_edge_fee_bps_from_state edge PInvalid = edge"

text \<open>The direction flag of a pair edge follows the address order of its tokens.\<close>

definition sync_zero_for_one :: "StateArena \<Rightarrow> Edge \<Rightarrow> Edge" where
  "sync_zero_for_one arena edge =
     (if protocol_is_pair (e_protocol edge) then
        (case (token_address arena (e_token_in edge), token_address arena (e_token_out edge)) of
           (Some a_in, Some a_out) \<Rightarrow> edge\<lparr>e_zero_for_one := a_in < a_out\<rparr>
         | _ \<Rightarrow> edge)
      else edge)"

definition heal_edge :: "StateArena \<Rightarrow> Edge \<Rightarrow> Edge option" where
  "heal_edge arena edge = do {
     st \<leftarrow> pool_state arena (e_pool_index edge);
     if st = PInvalid then None
     else do {
       edge \<leftarrow> (if \<not> protocol_matches_pool_state (e_protocol edge) st then
                  let corrected = protocol_from_pool_state st (e_protocol edge)
                  in if corrected = e_protocol edge then None
                     else if protocol_is_pair (e_protocol edge) \<noteq> protocol_is_pair corrected then None
                     else Some (edge\<lparr>e_protocol := corrected\<rparr>)
                else Some edge);
       Some (sync_zero_for_one arena (sync_edge_fee_bps_from_state edge st))
     }
   }"

fun heal_edges :: "StateArena \<Rightarrow> Edge list \<Rightarrow> Edge list option" where
  "heal_edges arena [] = Some []"
| "heal_edges arena (edge # edges) = do {
     edge' \<leftarrow> heal_edge arena edge;
     map_option (\<lambda>rest. edge' # rest) (heal_edges arena edges)
   }"

text \<open>
  \<open>changed\<close> is set by every assignment that alters an edge, so at the end of the loop it says whether the
  edges differ from the original ones.
\<close>

definition heal_cycle_edge_protocols ::
    "StateArena \<Rightarrow> 'score FoundCycle \<Rightarrow> 'score FoundCycle option" where
  "heal_cycle_edge_protocols arena cycle =
     map_option (\<lambda>edges.
         let changed = (edges \<noteq> fc_edges cycle)
         in if changed then
              cycle\<lparr>fc_edges := edges,
                    fc_cumulative_fee_bps := foldl (\<lambda>acc e. saturating_add acc (e_fee_bps e)) 0 edges\<rparr>
            else cycle)
       (heal_edges arena (fc_edges cycle))"

section \<open>The duplicated tag check\<close>

lemma pool_state_matches_protocol_eq: "pool_state_matches_protocol st p = protocol_matches_pool_state p st"
  by (cases st; cases p) simp_all

lemma protocol_from_pool_state_matches:
  "st \<noteq> PInvalid \<Longrightarrow> protocol_matches_pool_state (protocol_from_pool_state st fallback) st"
  by (cases st) simp_all

lemma mismatch_from_None_iff:
  "mismatch_from hop arena edges = None \<longleftrightarrow>
   (\<forall>edge \<in> set edges. case pool_state arena (e_pool_index edge) of
      None \<Rightarrow> True | Some st \<Rightarrow> protocol_matches_pool_state (e_protocol edge) st)"
  by (induction hop arena edges rule: mismatch_from.induct)
     (auto simp: pool_state_matches_protocol_eq split: option.splits)

lemma edges_match_iff_no_mismatch:
  "cycle_edges_match_arena_state arena edges \<longleftrightarrow>
   first_protocol_state_mismatch arena edges = None \<and>
   (\<forall>edge \<in> set edges. pool_state arena (e_pool_index edge) \<noteq> None)"
  by (fastforce simp: cycle_edges_match_arena_state_def first_protocol_state_mismatch_def
      mismatch_from_None_iff list_all_iff split: option.splits)

section \<open>Realigned token positions\<close>

lemma position_of_nth: "position_of x xs = Some i \<Longrightarrow> nth_opt xs i = Some x"
proof (induction x xs arbitrary: i rule: position_of.induct)
  case (2 x y ys)
  then show ?case by (cases "y = x") (auto simp: nth_opt_def split: if_splits)
qed simp

lemma position_of_mem: "x \<in> set xs \<Longrightarrow> \<exists>i < length xs. position_of x xs = Some i"
  by (induction x xs rule: position_of.induct) fastforce+

lemma u8_try_from_SomeD: "u8_try_from n = Some b \<Longrightarrow> unat b = n"
  by (auto simp: u8_try_from_def unat_of_nat_fits split: if_splits)

lemma resolve_legs_at:
  assumes "resolve_multi_token_vault_indices tokens tin tout = Some (i, j)"
  shows "nth_opt tokens (unat i) = Some tin \<and> nth_opt tokens (unat j) = Some tout \<and> tin \<noteq> tout"
  using assms
  by (auto simp: resolve_multi_token_vault_indices_def bind_eq_Some_conv position_of_nth
      dest!: u8_try_from_SomeD split: if_splits)

lemma aligned_iff_legs:
  "vault_tokens st = Some tokens \<Longrightarrow>
   multi_token_edge_aligned st edge tin tout = legs_at tokens edge tin tout"
  by (cases st) (auto split: if_splits)

lemma realign_cases:
  assumes "realign_multi_token_edge arena st edge = Some edge'"
  shows "edge' = edge \<or>
    (\<exists>tokens tin tout i j. vault_tokens st = Some tokens \<and>
       token_address arena (e_token_in edge) = Some tin \<and> token_address arena (e_token_out edge) = Some tout \<and>
       resolve_multi_token_vault_indices tokens tin tout = Some (i, j) \<and>
       hop_pair_routable st (unat i) (unat j) \<and>
       edge' = edge\<lparr>e_token_in_idx := i, e_token_out_idx := j, e_zero_for_one := i < j\<rparr>)"
  using assms
  by (auto simp: realign_multi_token_edge_def bind_eq_Some_conv simp del: hop_pair_routable.simps
      split: if_splits option.splits)

lemma realign_keeps_route:
  assumes "realign_multi_token_edge arena st edge = Some edge'"
  shows "e_pool_index edge' = e_pool_index edge \<and> e_token_in edge' = e_token_in edge \<and>
         e_token_out edge' = e_token_out edge \<and> e_protocol edge' = e_protocol edge \<and>
         e_fee_bps edge' = e_fee_bps edge"
  using realign_cases [OF assms] by auto

lemma realign_aligned:
  assumes "realign_multi_token_edge arena st edge = Some edge'"
    and "multi_token_protocol (e_protocol edge)" and "vault_tokens st = Some tokens"
  shows "\<exists>tin tout. token_address arena (e_token_in edge') = Some tin \<and>
           token_address arena (e_token_out edge') = Some tout \<and>
           multi_token_edge_aligned st edge' tin tout"
proof -
  obtain tin tout where addr: "token_address arena (e_token_in edge) = Some tin"
      "token_address arena (e_token_out edge) = Some tout"
    using assms by (auto simp: realign_multi_token_edge_def bind_eq_Some_conv split: if_splits)
  show ?thesis
  proof (cases "multi_token_edge_aligned st edge tin tout")
    case True
    then have "edge' = edge" using assms addr by (simp add: realign_multi_token_edge_def)
    then show ?thesis using True addr by simp
  next
    case False
    then obtain i j where "resolve_multi_token_vault_indices tokens tin tout = Some (i, j)"
      and edge': "edge' = edge\<lparr>e_token_in_idx := i, e_token_out_idx := j, e_zero_for_one := i < j\<rparr>"
      using assms addr
      by (auto simp: realign_multi_token_edge_def bind_eq_Some_conv simp del: hop_pair_routable.simps
          split: if_splits)
    from this(1) have "multi_token_edge_aligned st edge' tin tout"
      using resolve_legs_at by (simp add: aligned_iff_legs [OF assms(3)] legs_at_def edge')
    then show ?thesis using addr by (simp add: edge')
  qed
qed

lemma realign_fixed:
  assumes "realign_multi_token_edge arena st edge = Some edge'"
  shows "realign_multi_token_edge arena st edge' = Some edge'"
proof (cases "multi_token_protocol (e_protocol edge) \<and> vault_tokens st \<noteq> None")
  case True
  then obtain tokens where tokens: "vault_tokens st = Some tokens" by auto
  show ?thesis
    using realign_aligned [OF assms _ tokens] True tokens realign_keeps_route [OF assms]
    by (auto simp: realign_multi_token_edge_def)
next
  case False
  then show ?thesis using assms by (auto simp: realign_multi_token_edge_def split: if_splits)
qed

section \<open>Healed edges\<close>

lemma sync_fee_frame:
  "e_protocol (sync_edge_fee_bps_from_state edge st) = e_protocol edge \<and>
   e_pool_index (sync_edge_fee_bps_from_state edge st) = e_pool_index edge \<and>
   e_token_in (sync_edge_fee_bps_from_state edge st) = e_token_in edge \<and>
   e_token_out (sync_edge_fee_bps_from_state edge st) = e_token_out edge \<and>
   e_token_in_idx (sync_edge_fee_bps_from_state edge st) = e_token_in_idx edge \<and>
   e_token_out_idx (sync_edge_fee_bps_from_state edge st) = e_token_out_idx edge"
  by (cases st) (simp_all add: Let_def split: option.split)

lemma sync_fee_twice:
  "sync_edge_fee_bps_from_state (sync_edge_fee_bps_from_state edge st) st =
   sync_edge_fee_bps_from_state edge st"
  by (cases st) (simp_all add: Let_def split: option.split)

lemma sync_fee_zfo:
  "sync_edge_fee_bps_from_state (edge\<lparr>e_zero_for_one := z\<rparr>) st =
   (sync_edge_fee_bps_from_state edge st)\<lparr>e_zero_for_one := z\<rparr>"
  by (cases st) (simp_all add: Let_def split: option.split)

lemma sync_zfo_cases: "sync_zero_for_one arena edge = edge \<or> (\<exists>z. sync_zero_for_one arena edge = edge\<lparr>e_zero_for_one := z\<rparr>)"
  by (auto simp: sync_zero_for_one_def split: option.split)

lemma sync_zfo_twice: "sync_zero_for_one arena (sync_zero_for_one arena edge) = sync_zero_for_one arena edge"
  by (simp add: sync_zero_for_one_def split: option.split)

lemma sync_zfo_fee:
  "sync_edge_fee_bps_from_state (sync_zero_for_one arena (sync_edge_fee_bps_from_state edge st)) st =
   sync_zero_for_one arena (sync_edge_fee_bps_from_state edge st)"
  using sync_zfo_cases [of arena "sync_edge_fee_bps_from_state edge st"]
  by (auto simp: sync_fee_zfo sync_fee_twice)

lemma sync_zfo_frame:
  "e_protocol (sync_zero_for_one arena edge) = e_protocol edge \<and>
   e_pool_index (sync_zero_for_one arena edge) = e_pool_index edge \<and>
   e_token_in (sync_zero_for_one arena edge) = e_token_in edge \<and>
   e_token_out (sync_zero_for_one arena edge) = e_token_out edge"
  using sync_zfo_cases [of arena edge] by auto

lemma heal_edge_cases:
  assumes "heal_edge arena edge = Some edge'"
  shows "\<exists>st p. pool_state arena (e_pool_index edge) = Some st \<and> protocol_matches_pool_state p st \<and>
    edge' = sync_zero_for_one arena (sync_edge_fee_bps_from_state (edge\<lparr>e_protocol := p\<rparr>) st)"
proof -
  have same: "edge\<lparr>e_protocol := e_protocol edge\<rparr> = edge" by (cases edge) simp
  obtain st where st: "pool_state arena (e_pool_index edge) = Some st" and valid: "st \<noteq> PInvalid"
    using assms by (auto simp: heal_edge_def bind_eq_Some_conv split: if_splits)
  show ?thesis
  proof (cases "protocol_matches_pool_state (e_protocol edge) st")
    case True
    then have "edge' = sync_zero_for_one arena (sync_edge_fee_bps_from_state edge st)"
      using assms st valid by (simp add: heal_edge_def)
    then show ?thesis using True st same by metis
  next
    case False
    then have "edge' = sync_zero_for_one arena (sync_edge_fee_bps_from_state
        (edge\<lparr>e_protocol := protocol_from_pool_state st (e_protocol edge)\<rparr>) st)"
      using assms st valid by (auto simp: heal_edge_def Let_def split: if_splits)
    then show ?thesis using st protocol_from_pool_state_matches [OF valid] by blast
  qed
qed

lemma heal_edge_sound:
  assumes "heal_edge arena edge = Some edge'"
  shows "(\<exists>st. pool_state arena (e_pool_index edge') = Some st \<and>
            protocol_matches_pool_state (e_protocol edge') st) \<and>
         heal_edge arena edge' = Some edge' \<and>
         e_pool_index edge' = e_pool_index edge \<and> e_token_in edge' = e_token_in edge \<and>
         e_token_out edge' = e_token_out edge"
proof -
  obtain st p where h: "pool_state arena (e_pool_index edge) = Some st" "protocol_matches_pool_state p st"
    "edge' = sync_zero_for_one arena (sync_edge_fee_bps_from_state (edge\<lparr>e_protocol := p\<rparr>) st)"
    using heal_edge_cases [OF assms] by blast
  let ?tagged = "edge\<lparr>e_protocol := p\<rparr>"
  have frame: "e_pool_index edge' = e_pool_index edge" "e_token_in edge' = e_token_in edge"
    "e_token_out edge' = e_token_out edge" "e_protocol edge' = p"
    using sync_fee_frame [of ?tagged st] sync_zfo_frame [of arena "sync_edge_fee_bps_from_state ?tagged st"]
    by (simp_all add: h(3))
  moreover have "st \<noteq> PInvalid" using h(2) by auto
  moreover have "sync_zero_for_one arena (sync_edge_fee_bps_from_state edge' st) = edge'"
    by (simp add: h(3) sync_zfo_fee sync_zfo_twice)
  ultimately show ?thesis
    using h(1,2) by (simp add: heal_edge_def)
qed

lemma heal_edges_sound:
  "heal_edges arena edges = Some edges' \<Longrightarrow>
   cycle_edges_match_arena_state arena edges' \<and> heal_edges arena edges' = Some edges' \<and>
   map e_pool_index edges' = map e_pool_index edges \<and> map e_token_in edges' = map e_token_in edges \<and>
   map e_token_out edges' = map e_token_out edges"
proof (induction arena edges arbitrary: edges' rule: heal_edges.induct)
  case (2 arena edge edges)
  then obtain edge' rest where e: "heal_edge arena edge = Some edge'" "heal_edges arena edges = Some rest"
    and "edges' = edge' # rest"
    by (auto simp: bind_eq_Some_conv)
  then show ?case
    using "2.IH" [OF e] heal_edge_sound [OF e(1)] by (auto simp: cycle_edges_match_arena_state_def)
qed (simp add: cycle_edges_match_arena_state_def)

lemma realign_edges_sound:
  "realign_edges arena edges = Some edges' \<Longrightarrow>
   list_all2 (\<lambda>edge edge'. e_pool_index edge' = e_pool_index edge \<and> e_protocol edge' = e_protocol edge \<and>
       e_token_in edge' = e_token_in edge \<and> e_token_out edge' = e_token_out edge) edges edges' \<and>
   realign_edges arena edges' = Some edges' \<and>
   (\<forall>edge \<in> set edges'. \<forall>st tokens. multi_token_protocol (e_protocol edge) \<longrightarrow>
      pool_state arena (e_pool_index edge) = Some st \<longrightarrow>
      protocol_matches_pool_state (e_protocol edge) st \<longrightarrow> vault_tokens st = Some tokens \<longrightarrow>
      (\<exists>tin tout. token_address arena (e_token_in edge) = Some tin \<and>
         token_address arena (e_token_out edge) = Some tout \<and> multi_token_edge_aligned st edge tin tout))"
proof (induction arena edges arbitrary: edges' rule: realign_edges.induct)
  case (2 arena edge edges)
  show ?case
  proof (cases "multi_token_protocol (e_protocol edge)")
    case False
    then show ?thesis using "2.IH"(1) "2.prems" by auto
  next
    case True
    then obtain st edge' rest where st: "pool_state arena (e_pool_index edge) = Some st"
      and e: "(if \<not> protocol_matches_pool_state (e_protocol edge) st then Some edge
               else realign_multi_token_edge arena st edge) = Some edge'"
      and rest: "realign_edges arena edges = Some rest" and edges': "edges' = edge' # rest"
      using "2.prems" by (auto simp: bind_eq_Some_conv)
    have same: "e_pool_index edge' = e_pool_index edge \<and> e_token_in edge' = e_token_in edge \<and>
        e_token_out edge' = e_token_out edge \<and> e_protocol edge' = e_protocol edge"
      using e realign_keeps_route [of arena st edge edge'] by (auto split: if_splits)
    have again: "(if \<not> protocol_matches_pool_state (e_protocol edge') st then Some edge'
               else realign_multi_token_edge arena st edge') = Some edge'"
    proof (cases "protocol_matches_pool_state (e_protocol edge) st")
      case True
      then show ?thesis using e same realign_fixed by simp
    qed (use same in simp)
    have aligned: "\<exists>tin tout. token_address arena (e_token_in edge') = Some tin \<and>
        token_address arena (e_token_out edge') = Some tout \<and> multi_token_edge_aligned st edge' tin tout"
      if "protocol_matches_pool_state (e_protocol edge) st" and "vault_tokens st = Some tokens" for tokens
      using that e True by (intro realign_aligned) simp_all
    have "realign_edges arena edges' = Some edges'"
      using "2.IH"(2) [OF _ st e rest] True same again st by (simp add: edges')
    moreover have "list_all2 (\<lambda>edge edge'. e_pool_index edge' = e_pool_index edge \<and>
        e_protocol edge' = e_protocol edge \<and> e_token_in edge' = e_token_in edge \<and>
        e_token_out edge' = e_token_out edge) (edge # edges) edges'"
      using "2.IH"(2) [OF _ st e rest] True same by (simp add: edges')
    ultimately show ?thesis
      using "2.IH"(2) [OF _ st e rest] True same st aligned by (simp add: edges') blast
  qed
qed simp

lemma realign_edges_none_multi:
  "\<not> list_ex (\<lambda>edge. multi_token_protocol (e_protocol edge)) edges \<Longrightarrow> realign_edges arena edges = Some edges"
  by (induction edges) auto

lemma realign_found_cycle_eq:
  "realign_multi_token_found_cycle arena cycle =
   map_option (\<lambda>edges. cycle\<lparr>fc_edges := edges\<rparr>) (realign_edges arena (fc_edges cycle))"
  by (cases cycle) (auto simp: realign_multi_token_found_cycle_def realign_edges_none_multi)

section \<open>Properties\<close>

text \<open>
  A healed cycle agrees with the live pools: every edge's protocol tag matches the family of
  its pool's state, so the mismatch scan finds nothing; healing neither reroutes the cycle nor changes its
  tokens, and healing again changes nothing.
\<close>

theorem healed_cycle_matches_arena:
  assumes "heal_cycle_edge_protocols arena cycle = Some cycle'"
  shows "cycle_edges_match_arena_state arena (fc_edges cycle') \<and>
         first_protocol_state_mismatch arena (fc_edges cycle') = None \<and>
         heal_cycle_edge_protocols arena cycle' = Some cycle' \<and>
         map e_pool_index (fc_edges cycle') = map e_pool_index (fc_edges cycle) \<and>
         map e_token_in (fc_edges cycle') = map e_token_in (fc_edges cycle) \<and>
         map e_token_out (fc_edges cycle') = map e_token_out (fc_edges cycle)"
proof -
  obtain edges' where h: "heal_edges arena (fc_edges cycle) = Some edges'"
    using assms by (auto simp: heal_cycle_edge_protocols_def)
  then have "fc_edges cycle' = edges'"
    using assms by (auto simp: heal_cycle_edge_protocols_def Let_def split: if_splits)
  then show ?thesis
    using heal_edges_sound [OF h] edges_match_iff_no_mismatch [of arena edges']
    by (simp add: heal_cycle_edge_protocols_def)
qed

text \<open>
  A realigned cycle sells and buys the tokens its edges name: every Balancer, WooFi or DODO
  hop whose pool lists its tokens has its positions at the addresses of the edge's tokens; the route is
  unchanged and realigning again changes nothing.
\<close>

theorem realigned_cycle_positions:
  assumes "realign_multi_token_found_cycle arena cycle = Some cycle'"
  shows "(\<forall>edge st tokens. edge \<in> set (fc_edges cycle') \<and> multi_token_protocol (e_protocol edge) \<and>
            pool_state arena (e_pool_index edge) = Some st \<and>
            protocol_matches_pool_state (e_protocol edge) st \<and> vault_tokens st = Some tokens \<longrightarrow>
            (\<exists>tin tout. token_address arena (e_token_in edge) = Some tin \<and>
               token_address arena (e_token_out edge) = Some tout \<and>
               legs_at tokens edge tin tout)) \<and>
         map e_pool_index (fc_edges cycle') = map e_pool_index (fc_edges cycle) \<and>
         map e_token_in (fc_edges cycle') = map e_token_in (fc_edges cycle) \<and>
         map e_token_out (fc_edges cycle') = map e_token_out (fc_edges cycle) \<and>
         realign_multi_token_found_cycle arena cycle' = Some cycle'"
proof -
  obtain edges' where h: "realign_edges arena (fc_edges cycle) = Some edges'"
    and c: "cycle' = cycle\<lparr>fc_edges := edges'\<rparr>"
    using assms by (auto simp: realign_found_cycle_eq)
  have maps: "map f (fc_edges cycle) = map f edges'"
    if "f = e_pool_index \<or> f = e_token_in \<or> f = e_token_out" for f
    using realign_edges_sound [OF h] that by (auto simp: list_all2_conv_all_nth intro!: nth_equalityI)
  have again: "realign_multi_token_found_cycle arena cycle' = Some cycle'"
    using realign_edges_sound [OF h] by (simp add: realign_found_cycle_eq c)
  show ?thesis
    using realign_edges_sound [OF h] maps again by (fastforce simp: c aligned_iff_legs)
qed

definition sample_balancer_vault :: BalancerPoolState where
  "sample_balancer_vault = \<lparr>bal_pool_id = None, bal_tokens = [20, 10], bal_balances = [1000, 2000],
     bal_weights = [500000000000000000, 500000000000000000], bal_scaling_factors = [1, 1], bal_amp = 0,
     bal_amp_precision = 1000, bal_fee = 1000000000000000, bal_pool_type = Weighted, bal_linear = None,
     bal_bpt_index = None, bal_is_updating = False, bal_last_change_block = 0\<rparr>"

definition sample_v3_pool :: CLPoolState where
  "sample_v3_pool = \<lparr>cl_sqrt_price_x96 = 79228162514264337593543950336, cl_tick = 0,
     cl_liquidity = 1000000000, cl_fee = 500, cl_tick_spacing = 10, cl_ticks = [], cl_unlocked = True,
     cl_fee_protocol = 0, cl_observation_cardinality = 1\<rparr>"

definition two_pool_arena :: StateArena where
  "two_pool_arena = \<lparr>ar_tokens = [10, 20], ar_token_decimals = [18, 18],
     ar_pools = [PBalancer sample_balancer_vault, PV3 sample_v3_pool], ar_pool_addresses = [1, 2],
     ar_address_to_pool = [1 \<mapsto> 0, 2 \<mapsto> 1], ar_address_to_token = [10 \<mapsto> 0, 20 \<mapsto> 1],
     ar_layout_fingerprint = 0, ar_hot_overlay = [], ar_hot_revisions = []\<rparr>"

text \<open>A round trip over both pools with stale positions on the first hop and a stale tag on the second.\<close>

definition stale_cycle :: "unit FoundCycle" where
  "stale_cycle = \<lparr>fc_start_token = 0,
     fc_edges = [\<lparr>e_pool_index = 0, e_token_in = 0, e_token_out = 1, e_token_in_idx = 0,
                  e_token_out_idx = 1, e_protocol = BalancerV2, e_fee_bps = 10, e_zero_for_one = True\<rparr>,
                 \<lparr>e_pool_index = 1, e_token_in = 1, e_token_out = 0, e_token_in_idx = 1,
                  e_token_out_idx = 0, e_protocol = UniswapV2, e_fee_bps = 30, e_zero_for_one = True\<rparr>],
     fc_hop_count = 2, fc_log_weight = (), fc_cumulative_fee_bps = 40, fc_score = (), fc_cycle_ratio = 0\<rparr>"

lemma sample_vault_fee: "balancer_fee_bps_from_pool 1000000000000000 = Some 10"
  by (simp add: balancer_fee_bps_from_pool_def ONE_def from_limbs_def)

lemma heal_stale_edge_0:
  "heal_edge two_pool_arena (fc_edges stale_cycle ! 0) = Some (fc_edges stale_cycle ! 0)"
  by (simp add: stale_cycle_def two_pool_arena_def heal_edge_def pool_state_def nth_opt_def
      sample_balancer_vault_def sync_zero_for_one_def protocol_is_pair_def sample_vault_fee)

lemma heal_stale_edge_1:
  "heal_edge two_pool_arena (fc_edges stale_cycle ! 1) =
   Some ((fc_edges stale_cycle ! 1)\<lparr>e_protocol := UniswapV3, e_fee_bps := 5, e_zero_for_one := False\<rparr>)"
  by (simp add: stale_cycle_def two_pool_arena_def heal_edge_def pool_state_def nth_opt_def
      sample_v3_pool_def sync_zero_for_one_def protocol_is_pair_def token_address_def)

lemma heal_stale_cycle:
  "heal_cycle_edge_protocols two_pool_arena stale_cycle = Some (stale_cycle\<lparr>fc_edges :=
     [fc_edges stale_cycle ! 0, (fc_edges stale_cycle ! 1)\<lparr>e_protocol := UniswapV3, e_fee_bps := 5,
        e_zero_for_one := False\<rparr>], fc_cumulative_fee_bps := 15\<rparr>)"
proof -
  have pair: "heal_edges arena [x, y] = Some [x', y']"
    if "heal_edge arena x = Some x'" and "heal_edge arena y = Some y'" for arena x y x' y'
    using that by simp
  have "fc_edges stale_cycle = [fc_edges stale_cycle ! 0, fc_edges stale_cycle ! 1]"
    by (simp add: stale_cycle_def)
  then have "heal_edges two_pool_arena (fc_edges stale_cycle) = Some [fc_edges stale_cycle ! 0,
      (fc_edges stale_cycle ! 1)\<lparr>e_protocol := UniswapV3, e_fee_bps := 5, e_zero_for_one := False\<rparr>]"
    using pair [OF heal_stale_edge_0 heal_stale_edge_1] by metis
  then show ?thesis
    by (simp add: heal_cycle_edge_protocols_def) (simp add: stale_cycle_def saturating_add_def)
qed

theorem healed_cycle_matches_arena_witness:
  "\<exists>cycle'. heal_cycle_edge_protocols two_pool_arena stale_cycle = Some cycle' \<and> cycle' \<noteq> stale_cycle \<and>
     cycle_edges_match_arena_state two_pool_arena (fc_edges cycle')"
  using healed_cycle_matches_arena [OF heal_stale_cycle] heal_stale_cycle
  by (auto simp: stale_cycle_def)

lemma realign_stale_cycle:
  "realign_multi_token_found_cycle two_pool_arena stale_cycle = Some (stale_cycle\<lparr>fc_edges :=
     [(fc_edges stale_cycle ! 0)\<lparr>e_token_in_idx := 1, e_token_out_idx := 0, e_zero_for_one := False\<rparr>,
      fc_edges stale_cycle ! 1]\<rparr>)"
  by (simp add: realign_multi_token_found_cycle_def stale_cycle_def two_pool_arena_def
      pool_state_def nth_opt_def sample_balancer_vault_def multi_token_protocol_def
      realign_multi_token_edge_def token_address_def legs_at_def resolve_multi_token_vault_indices_def
      u8_try_from_def balance_at_least_def MIN_HOP_TOKEN_BALANCE_def Let_def)

theorem realigned_cycle_positions_witness:
  "\<exists>cycle'. realign_multi_token_found_cycle two_pool_arena stale_cycle = Some cycle' \<and> cycle' \<noteq> stale_cycle \<and>
     legs_at [20, 10] (fc_edges cycle' ! 0) 10 20"
proof -
  let ?edge = "(fc_edges stale_cycle ! 0)\<lparr>e_token_in_idx := 1, e_token_out_idx := 0, e_zero_for_one := False\<rparr>"
  have "\<exists>tin tout. token_address two_pool_arena (e_token_in ?edge) = Some tin \<and>
      token_address two_pool_arena (e_token_out ?edge) = Some tout \<and> legs_at [20, 10] ?edge tin tout"
    using realigned_cycle_positions [OF realign_stale_cycle, THEN conjunct1, rule_format,
        of ?edge "PBalancer sample_balancer_vault" "[20, 10]"]
    by (simp add: stale_cycle_def two_pool_arena_def multi_token_protocol_def pool_state_def nth_opt_def
        sample_balancer_vault_def)
  then show ?thesis
    using realign_stale_cycle
    by (simp add: stale_cycle_def two_pool_arena_def token_address_def nth_opt_def)
qed

end
