(* ===== verification/RouteGas.thy ===== *)
theory RouteGas
  imports Arena FullMath
begin

text \<open>
  Budgets of a route before it is simulated: the executor calls it packs into
  (\<open>src/pipeline/route_calls.rs\<close>), the gas seeds of \<open>src/core/constants.rs\<close>, the gas estimates, gas
  limits and gas prices of the section \<open>gas\<close> of \<open>src/services/execution/support.rs\<close>, the per-route
  estimates at the head of \<open>src/pipeline/local_sim.rs\<close>, and the decimal-aware probe amounts of
  \<open>src/pipeline/spot_price.rs\<close> with the powers of ten of \<open>src/util.rs\<close>.

  Gas is a 32-bit word: in the release build its sums wrap. The lemmas show that they do not for every
  route within the hop cap.
\<close>

section \<open>Powers of ten and probe amounts\<close>

definition ten_pow_u256 :: "u8 \<Rightarrow> u256" where
  "ten_pow_u256 decimals =
     (if decimals = 0 then 1
      else if decimals = 2 then 100
      else if decimals = 6 then 1000000
      else if decimals = 8 then 100000000
      else if decimals = 9 then 1000000000
      else if decimals = 12 then 1000000000000
      else if decimals = 18 then 1000000000000000000
      else 10 ^ unat decimals)"

text \<open>The table of the hot path holds the same powers, for \<open>0..=30\<close>.\<close>

definition TEN_POW_BY_DECIMALS :: "u256 list" where
  "TEN_POW_BY_DECIMALS = map (\<lambda>d. ten_pow_u256 (of_nat d)) [0..<31]"

definition ten_pow_u256_cached :: "u8 \<Rightarrow> u256" where
  "ten_pow_u256_cached decimals =
     (if decimals \<le> 30 then TEN_POW_BY_DECIMALS ! unat decimals else ten_pow_u256 decimals)"

definition spot_probe_for_decimals :: "u8 \<Rightarrow> u256" where
  "spot_probe_for_decimals decimals =
     (let scale = ten_pow_u256_cached decimals;
          exp_probe = (if decimals \<ge> 6 then ten_pow_u256_cached (decimals - 6) else 1);
          dust_floor = scale div 1000;
          cap = scale div 100
      in min (max (max exp_probe dust_floor) 1000) cap)"

definition spot_probe_for_token :: "StateArena \<Rightarrow> u32 \<Rightarrow> u256" where
  "spot_probe_for_token arena token = spot_probe_for_decimals (token_decimals arena token)"

section \<open>Executor calls\<close>

definition MAX_EXECUTOR_CALLS :: nat where "MAX_EXECUTOR_CALLS = 12"
definition MAX_BALANCER_BATCH_HOPS :: nat where "MAX_BALANCER_BATCH_HOPS = 4"

fun estimate_hop_calls :: "ProtocolType \<Rightarrow> nat" where
  "estimate_hop_calls UniswapV3 = 1"
| "estimate_hop_calls _ = 2"

text \<open>The loop over the edges; its state is the call count and whether the previous hop was V2.\<close>

fun route_calls_loop :: "nat \<Rightarrow> bool \<Rightarrow> Edge list \<Rightarrow> nat" where
  "route_calls_loop calls previous_v2 [] = calls"
| "route_calls_loop calls previous_v2 (edge # edges) =
     (if e_protocol edge = UniswapV2
      then route_calls_loop (calls + (1 + (if previous_v2 then 0 else 1))) True edges
      else route_calls_loop (calls + estimate_hop_calls (e_protocol edge)) False edges)"

definition estimate_route_calls :: "Edge list \<Rightarrow> nat" where
  "estimate_route_calls edges = route_calls_loop 0 False edges"

definition balancer_direct_batch_eligible :: "Edge list \<Rightarrow> bool" where
  "balancer_direct_batch_eligible edges \<longleftrightarrow>
     edges \<noteq> [] \<and> list_all (\<lambda>e. e_protocol e = BalancerV2) edges \<and> length edges \<le> MAX_BALANCER_BATCH_HOPS"

definition dodo_flash_batch_eligible :: "Edge list \<Rightarrow> bool" where
  "dodo_flash_batch_eligible edges \<longleftrightarrow>
     edges \<noteq> [] \<and> list_all (\<lambda>e. e_protocol e = Dodo) edges \<and> length edges \<le> MAX_BALANCER_BATCH_HOPS"

definition estimate_packed_route_calls :: "Edge list \<Rightarrow> nat" where
  "estimate_packed_route_calls edges =
     (if balancer_direct_batch_eligible edges then 1 else estimate_route_calls edges)"

record RouteExecutorBudget =
  rb_hops :: nat
  rb_packed_calls :: nat
  rb_per_hop_calls :: nat
  rb_balancer_batch :: bool

definition route_executor_budget :: "Edge list \<Rightarrow> RouteExecutorBudget" where
  "route_executor_budget edges =
     \<lparr>rb_hops = length edges, rb_packed_calls = estimate_packed_route_calls edges,
      rb_per_hop_calls = estimate_route_calls edges,
      rb_balancer_batch = balancer_direct_batch_eligible edges\<rparr>"

definition packed_calls_fit_executor :: "nat \<Rightarrow> bool" where
  "packed_calls_fit_executor packed_calls \<longleftrightarrow> packed_calls \<le> MAX_EXECUTOR_CALLS"

definition route_fits_executor :: "Edge list \<Rightarrow> bool" where
  "route_fits_executor edges = packed_calls_fit_executor (estimate_packed_route_calls edges)"

section \<open>Gas seeds and estimates\<close>

definition GAS_V2_HOP :: u32 where "GAS_V2_HOP = 85000"
definition GAS_V4_BASE :: u32 where "GAS_V4_BASE = 170000"
definition GAS_CURVE_HOP :: u32 where "GAS_CURVE_HOP = 250000"
definition GAS_BALANCER_HOP :: u32 where "GAS_BALANCER_HOP = 300000"
definition GAS_DODO_HOP :: u32 where "GAS_DODO_HOP = 180000"
definition GAS_WOOFI_HOP :: u32 where "GAS_WOOFI_HOP = 150000"
definition ROUTE_EXECUTION_GAS_OVERHEAD :: u32 where "ROUTE_EXECUTION_GAS_OVERHEAD = 100000"
definition PER_HOP_EXECUTOR_GAS_OVERHEAD :: u32 where "PER_HOP_EXECUTOR_GAS_OVERHEAD = 18000"
definition GAS_COLD_SLOAD :: u32 where "GAS_COLD_SLOAD = 2100"
definition GAS_WARM_SLOAD :: u32 where "GAS_WARM_SLOAD = 100"

definition balancer_direct_batch_gas :: "nat \<Rightarrow> u32" where
  "balancer_direct_batch_gas hop_count =
     (if hop_count = 0 \<or> hop_count = 1 then 180000
      else if hop_count = 2 then 220000
      else if hop_count = 3 then 250000
      else 280000)"

definition dodo_flash_batch_gas :: "nat \<Rightarrow> u32" where
  "dodo_flash_batch_gas hop_count =
     (if hop_count = 0 \<or> hop_count = 1 then 220000
      else if hop_count = 2 then 293000
      else if hop_count = 3 then 350000
      else 410000)"

definition estimate_route_storage_gas :: "nat \<Rightarrow> u32 \<Rightarrow> u32" where
  "estimate_route_storage_gas hop_count cold_pool_slots =
     (let hops = (of_nat hop_count :: u32)
      in if hops = 0 then 0
      else let cold = min cold_pool_slots hops;
               warm_base = saturating_mul (saturating_mul hops 4) GAS_WARM_SLOAD;
               cold_premium = saturating_mul cold (saturating_sub GAS_COLD_SLOAD GAS_WARM_SLOAD)
           in saturating_add warm_base cold_premium)"

definition estimate_route_gas_from_hops :: "u32 \<Rightarrow> nat \<Rightarrow> u32" where
  "estimate_route_gas_from_hops hop_gas hop_count =
     hop_gas + ROUTE_EXECUTION_GAS_OVERHEAD + of_nat hop_count * PER_HOP_EXECUTOR_GAS_OVERHEAD"

definition estimate_route_gas_from_hops_evm :: "u32 \<Rightarrow> nat \<Rightarrow> u32 \<Rightarrow> u32" where
  "estimate_route_gas_from_hops_evm hop_gas hop_count cold_pool_slots =
     saturating_add (estimate_route_gas_from_hops hop_gas hop_count)
       (estimate_route_storage_gas hop_count cold_pool_slots)"

fun estimate_hop_gas :: "ProtocolType \<Rightarrow> u32" where
  "estimate_hop_gas UniswapV2 = GAS_V2_HOP"
| "estimate_hop_gas UniswapV3 = GAS_V3_BASE"
| "estimate_hop_gas UniswapV4 = GAS_V4_BASE"
| "estimate_hop_gas CurveStable = GAS_CURVE_HOP"
| "estimate_hop_gas CurveCrypto = GAS_CURVE_HOP"
| "estimate_hop_gas BalancerV2 = GAS_BALANCER_HOP"
| "estimate_hop_gas Dodo = GAS_DODO_HOP"
| "estimate_hop_gas Woofi = GAS_WOOFI_HOP"

definition route_hop_gas_budget :: "Edge list \<Rightarrow> u32" where
  "route_hop_gas_budget edges =
     (if balancer_direct_batch_eligible edges then balancer_direct_batch_gas (length edges)
      else if dodo_flash_batch_eligible edges then dodo_flash_batch_gas (length edges)
      else sum_list (map (\<lambda>e. estimate_hop_gas (e_protocol e)) edges))"

definition finalize_route_total_gas :: "Edge list \<Rightarrow> u32 \<Rightarrow> u32" where
  "finalize_route_total_gas edges walked_hop_gas =
     (let hop_count = length edges
      in if hop_count = 0 then ROUTE_EXECUTION_GAS_OVERHEAD
      else if balancer_direct_batch_eligible edges then balancer_direct_batch_gas hop_count
      else if dodo_flash_batch_eligible edges then dodo_flash_batch_gas hop_count
      else
        let hop_budget = route_hop_gas_budget edges;
            static_gas = estimate_route_gas_from_hops_evm hop_budget hop_count (of_nat hop_count)
        in if walked_hop_gas = 0 then static_gas
        else
          let dynamic = saturating_add (estimate_route_gas_from_hops walked_hop_gas hop_count)
                          (estimate_route_storage_gas hop_count (of_nat hop_count))
          in max static_gas dynamic)"

definition estimate_route_gas :: "Edge list \<Rightarrow> u32" where
  "estimate_route_gas edges =
     (if edges = [] then ROUTE_EXECUTION_GAS_OVERHEAD
      else if balancer_direct_batch_eligible edges then balancer_direct_batch_gas (length edges)
      else if dodo_flash_batch_eligible edges then dodo_flash_batch_gas (length edges)
      else
        let hop_gas = sum_list (map (\<lambda>e. estimate_hop_gas (e_protocol e)) edges);
            cold_slots = (of_nat (length edges) :: u32)
        in estimate_route_gas_from_hops_evm hop_gas (length edges) cold_slots)"

section \<open>Gas limits and gas prices\<close>

definition MIN_PRIORITY_FEE_PER_GAS :: u256 where "MIN_PRIORITY_FEE_PER_GAS = 25000000000"
definition GAS_LIMIT_BUFFER_BPS :: u64 where "GAS_LIMIT_BUFFER_BPS = 2500"
definition GAS_FALLBACK_MIN_SCALE_BPS :: u64 where "GAS_FALLBACK_MIN_SCALE_BPS = 20000"

record FeeSnapshot =
  fs_base_fee :: u256
  fs_priority_fee :: u256

text \<open>\<open>u32::try_from\<close> of a 64-bit value: \<open>None\<close> when it does not fit.\<close>

definition u32_try_from :: "'a::len word \<Rightarrow> u32 option" where
  "u32_try_from v = (if unat v < 2 ^ 32 then Some (ucast v) else None)"

definition or_default :: "'a option \<Rightarrow> 'a \<Rightarrow> 'a" where
  "or_default x d = (case x of Some v \<Rightarrow> v | None \<Rightarrow> d)"

definition u256_to_u128 :: "u256 \<Rightarrow> u128 option" where
  "u256_to_u128 v = (if unat v < 2 ^ 128 then Some (ucast v) else None)"

definition buffer_gas_limit :: "u32 \<Rightarrow> u256 option" where
  "buffer_gas_limit simulated_gas =
     (if simulated_gas = 0 then None
      else let units = (ucast simulated_gas :: u256);
               buffer = units * ucast GAS_LIMIT_BUFFER_BPS div 10000
           in Some (units + buffer + 1))"

definition pick_buffered_gas_limit :: "u32 \<Rightarrow> u64 option \<Rightarrow> u256 option" where
  "pick_buffered_gas_limit simulated_gas dry_run_gas =
     (let observed = or_default (map_option (\<lambda>gas. or_default (u32_try_from gas) (-1)) dry_run_gas) 0;
          base = max simulated_gas observed
      in buffer_gas_limit base)"

text \<open>The errors of the live variant are both \<open>None\<close>: a zero estimate, and a limit above 128 bits.\<close>

definition pick_live_gas_limit_with_buffer :: "u32 \<Rightarrow> u64 \<Rightarrow> u64 \<Rightarrow> u64 option" where
  "pick_live_gas_limit_with_buffer simulated_gas dry_run_gas buffer_bps =
     (if simulated_gas = 0 \<or> dry_run_gas = 0 then None
      else let base = max simulated_gas (or_default (u32_try_from dry_run_gas) simulated_gas);
               units = (ucast base :: u256);
               buffer = units * ucast buffer_bps div 10000;
               limit = units + buffer + 1
           in map_option (\<lambda>g. ucast g) (u256_to_u128 limit))"

definition pick_live_gas_limit :: "u32 \<Rightarrow> u64 \<Rightarrow> u64 option" where
  "pick_live_gas_limit simulated_gas dry_run_gas =
     pick_live_gas_limit_with_buffer simulated_gas dry_run_gas GAS_LIMIT_BUFFER_BPS"

definition scaled_simulated_gas :: "u32 \<Rightarrow> u64 \<Rightarrow> u32" where
  "scaled_simulated_gas simulated_gas scale_bps =
     (let scaled = saturating_mul (ucast simulated_gas :: u128) (ucast (max scale_bps 10000)) div 10000
      in max (or_default (u32_try_from scaled) (-1)) simulated_gas)"

definition profit_reassess_gas :: "u32 option \<Rightarrow> u32 \<Rightarrow> u64 option \<Rightarrow> bool \<Rightarrow> u64 \<Rightarrow> u64" where
  "profit_reassess_gas observed_route_gas simulated_gas dry_run_gas gas_fallback sim_scale_bps =
     (case dry_run_gas of
        Some g \<Rightarrow> g
      | None \<Rightarrow> (case observed_route_gas of
          Some observed \<Rightarrow> ucast observed
        | None \<Rightarrow>
            if gas_fallback
            then ucast (scaled_simulated_gas simulated_gas (max sim_scale_bps GAS_FALLBACK_MIN_SCALE_BPS))
            else ucast simulated_gas))"

definition submit_gas_basis :: "u32 option \<Rightarrow> u64 \<Rightarrow> u32 \<Rightarrow> u64 option \<Rightarrow> u64" where
  "submit_gas_basis observed_route_gas sim_scale_bps simulated_gas dry_run_gas =
     (case dry_run_gas of
        Some g \<Rightarrow> g
      | None \<Rightarrow> ucast (or_default observed_route_gas
          (scaled_simulated_gas simulated_gas (max sim_scale_bps GAS_FALLBACK_MIN_SCALE_BPS))))"

definition compute_conservative_gas_price :: "FeeSnapshot \<Rightarrow> u256" where
  "compute_conservative_gas_price snapshot =
     (let priority = max (fs_priority_fee snapshot) MIN_PRIORITY_FEE_PER_GAS
      in fs_base_fee snapshot * 11250 div 10000 + priority)"

definition compute_assessment_gas_price :: "FeeSnapshot \<Rightarrow> u256" where
  "compute_assessment_gas_price snapshot =
     saturating_add (fs_base_fee snapshot) (max (fs_priority_fee snapshot) MIN_PRIORITY_FEE_PER_GAS)"

section \<open>Powers of ten\<close>

lemma ten_pow_u256_eq: "ten_pow_u256 decimals = 10 ^ unat decimals"
  by (auto simp: ten_pow_u256_def)

lemma ten_pow_u256_cached_eq: "ten_pow_u256_cached decimals = 10 ^ unat decimals"
proof (cases "decimals \<le> 30")
  case True
  then have "unat decimals < 31" by (simp add: word_le_nat_alt)
  moreover have "unat (of_nat (unat decimals) :: u8) = unat decimals" by simp
  ultimately show ?thesis
    using True by (simp add: ten_pow_u256_cached_def TEN_POW_BY_DECIMALS_def ten_pow_u256_eq)
qed (simp add: ten_pow_u256_cached_def ten_pow_u256_eq)

lemma unat_ten_pow: "unat decimals \<le> 77 \<Longrightarrow> unat (10 ^ unat decimals :: u256) = 10 ^ unat decimals"
proof -
  assume "unat decimals \<le> 77"
  then have "(10::nat) ^ unat decimals \<le> 10 ^ 77" by (rule power_increasing) simp
  also have "\<dots> < 2 ^ 256" by simp
  finally have "unat (of_nat (10 ^ unat decimals) :: u256) = 10 ^ unat decimals"
    by (intro unat_of_nat_fits) simp
  then show ?thesis by simp
qed

section \<open>Executor calls\<close>

lemma hop_calls_range: "1 \<le> estimate_hop_calls p \<and> estimate_hop_calls p \<le> 2"
  by (cases p) simp_all

lemma route_calls_loop_range:
  "calls + length edges \<le> route_calls_loop calls prev edges \<and>
   route_calls_loop calls prev edges \<le> calls + 2 * length edges"
proof (induction calls prev edges rule: route_calls_loop.induct)
  case (2 calls prev edge edges)
  then show ?case using hop_calls_range [of "e_protocol edge"] by (auto split: if_splits)
qed simp

lemma estimate_route_calls_range:
  "length edges \<le> estimate_route_calls edges \<and> estimate_route_calls edges \<le> 2 * length edges"
  using route_calls_loop_range [of 0 edges False] by (simp add: estimate_route_calls_def)

section \<open>Gas sums do not wrap within the hop cap\<close>

lemmas gas_constants =
  GAS_V2_HOP_def GAS_V3_BASE_def GAS_V4_BASE_def GAS_CURVE_HOP_def GAS_BALANCER_HOP_def
  GAS_DODO_HOP_def GAS_WOOFI_HOP_def ROUTE_EXECUTION_GAS_OVERHEAD_def
  PER_HOP_EXECUTOR_GAS_OVERHEAD_def GAS_COLD_SLOAD_def GAS_WARM_SLOAD_def

lemma unat_hop_gas_range: "85000 \<le> unat (estimate_hop_gas p) \<and> unat (estimate_hop_gas p) \<le> 300000"
  by (cases p) (simp_all add: gas_constants)

definition hop_gas_sum :: "Edge list \<Rightarrow> nat" where
  "hop_gas_sum edges = sum_list (map (\<lambda>e. unat (estimate_hop_gas (e_protocol e))) edges)"

lemma hop_gas_sum_range:
  "85000 * length edges \<le> hop_gas_sum edges \<and> hop_gas_sum edges \<le> 300000 * length edges"
  unfolding hop_gas_sum_def
proof (induction edges)
  case (Cons e es)
  then show ?case using unat_hop_gas_range [of "e_protocol e"] by simp
qed simp

lemma unat_hop_gas_sum:
  assumes "length edges \<le> HOP_CAP"
  shows "unat (sum_list (map (\<lambda>e. estimate_hop_gas (e_protocol e)) edges)) = hop_gas_sum edges"
  using assms
proof (induction edges)
  case (Cons e es)
  have "unat (estimate_hop_gas (e_protocol e)) + hop_gas_sum es < 2 ^ 32"
    using hop_gas_sum_range [of es] unat_hop_gas_range [of "e_protocol e"] Cons.prems
    by (simp add: HOP_CAP_def)
  with Cons show ?case by (simp add: hop_gas_sum_def unat_add_lem [THEN iffD1])
qed (simp add: hop_gas_sum_def)

lemma unat_of_nat_hops: "n \<le> HOP_CAP \<Longrightarrow> unat (of_nat n :: u32) = n"
  by (simp add: HOP_CAP_def unat_of_nat_fits)

lemma unat_storage_gas:
  assumes "n \<le> HOP_CAP"
  shows "unat (estimate_route_storage_gas n (of_nat n)) = 2400 * n"
proof (cases "(of_nat n :: u32) = 0")
  case True
  then have "n = 0" using unat_of_nat_hops [OF assms] by simp
  with True show ?thesis by (simp add: estimate_route_storage_gas_def)
next
  case False
  have n: "n \<le> 8" using assms by (simp add: HOP_CAP_def)
  show ?thesis
    using n False
    by (simp add: estimate_route_storage_gas_def Let_def gas_constants unat_saturating_add
        unat_saturating_mul unat_saturating_sub unat_of_nat_hops [OF assms])
qed

lemma unat_gas_from_hops:
  assumes "n \<le> HOP_CAP" and "unat w < 2 ^ 31"
  shows "unat (estimate_route_gas_from_hops w n) = unat w + 100000 + 18000 * n"
proof -
  have n: "n \<le> 8" using assms(1) by (simp add: HOP_CAP_def)
  have "unat (of_nat n * 18000 :: u32) = n * 18000"
    using n unat_of_nat_hops [OF assms(1)] by (simp add: unat_mult_lem [THEN iffD1])
  moreover have "unat (w + 100000) = unat w + 100000" using assms(2) by (simp add: unat_add_lem [THEN iffD1])
  ultimately show ?thesis
    using n assms(2)
    by (simp add: estimate_route_gas_from_hops_def gas_constants unat_add_lem [THEN iffD1])
qed

lemma u32_try_from_64: "unat (or_default (u32_try_from (g :: u64)) (- 1)) = min (unat g) (2 ^ 32 - 1)"
  by (auto simp: u32_try_from_def or_default_def unsigned_ucast_eq take_bit_nat_eq_self unat_max_word)

lemma unat_ucast_32_256 [simp]: "unat (ucast (g :: u32) :: u256) = unat g"
proof -
  have "unat g < 2 ^ 32" using unsigned_less [of g] by simp
  also have "\<dots> < 2 ^ 256" by simp
  finally show ?thesis by (simp add: unsigned_ucast_eq take_bit_nat_eq_self)
qed

lemma unat_buffered:
  fixes g :: u32
  shows "unat ((ucast g :: u256) + ucast g * ucast GAS_LIMIT_BUFFER_BPS div 10000 + 1) =
         unat g + unat g * 2500 div 10000 + 1"
proof -
  have g: "unat g < 2 ^ 32" using unsigned_less [of g] by simp
  have b: "(ucast GAS_LIMIT_BUFFER_BPS :: u256) = 2500" by (simp add: GAS_LIMIT_BUFFER_BPS_def)
  have "unat ((ucast g :: u256) * 2500) = unat g * 2500"
    using g by (subst unat_mult_nowrap) simp_all
  then have q: "unat ((ucast g :: u256) * 2500 div 10000) = unat g * 2500 div 10000"
    by (simp add: unat_div_word)
  have "unat ((ucast g :: u256) + ucast g * 2500 div 10000) = unat g + unat g * 2500 div 10000"
    using g q by (subst unat_add_nowrap) simp_all
  then show ?thesis
    unfolding b using g by (subst unat_add_nowrap) simp_all
qed

lemma unat_max_32: "unat (max a b :: u32) = max (unat a) (unat b)"
  by (simp add: max_def word_le_nat_alt)

lemma scaled_simulated_gas_ge: "simulated_gas \<le> scaled_simulated_gas simulated_gas scale_bps"
  by (simp add: scaled_simulated_gas_def Let_def)

lemma short_routes_fit_executor: "length edges \<le> 6 \<Longrightarrow> route_fits_executor edges"
  using estimate_route_calls_range [of edges]
  by (simp add: route_fits_executor_def packed_calls_fit_executor_def estimate_packed_route_calls_def
      MAX_EXECUTOR_CALLS_def)

section \<open>Properties\<close>

text \<open>
  Within the hop cap no gas sum wraps. Outside the two batch shapes the ranking estimate of
  a route is exactly the sum of the hop seeds plus the flash overhead and 20400 per hop, and the gas
  reported after a simulation is the same with the walked hop gas in place of the seeds whenever that is
  larger: the simulation never reports less gas than the ranking assumed.
\<close>

theorem route_gas_exact:
  assumes "edges \<noteq> []" and "length edges \<le> HOP_CAP"
    and "\<not> balancer_direct_batch_eligible edges" and "\<not> dodo_flash_batch_eligible edges"
    and "unat walked < 2 ^ 31"
  shows "unat (estimate_route_gas edges) = hop_gas_sum edges + 100000 + 20400 * length edges \<and>
         unat (finalize_route_total_gas edges walked) =
           max (hop_gas_sum edges) (unat walked) + 100000 + 20400 * length edges"
proof -
  let ?n = "length edges" and ?s = "sum_list (map (\<lambda>e. estimate_hop_gas (e_protocol e)) edges)"
  have n: "?n \<le> 8" using assms(2) by (simp add: HOP_CAP_def)
  have s: "unat ?s = hop_gas_sum edges" by (rule unat_hop_gas_sum) (rule assms(2))
  have small: "unat ?s < 2 ^ 31" using s hop_gas_sum_range [of edges] n by simp
  have evm: "unat (saturating_add (estimate_route_gas_from_hops w ?n)
      (estimate_route_storage_gas ?n (of_nat ?n))) = unat w + 100000 + 20400 * ?n"
    if "unat w < 2 ^ 31" for w
    using unat_gas_from_hops [OF assms(2) that] unat_storage_gas [OF assms(2)] that n
    by (simp add: unat_saturating_add)
  have est: "unat (estimate_route_gas edges) = hop_gas_sum edges + 100000 + 20400 * ?n"
    using assms(1,3,4) evm [OF small] s
    by (simp add: estimate_route_gas_def estimate_route_gas_from_hops_evm_def)
  have "finalize_route_total_gas edges walked =
      (if walked = 0 then estimate_route_gas edges
       else max (estimate_route_gas edges) (saturating_add (estimate_route_gas_from_hops walked ?n)
         (estimate_route_storage_gas ?n (of_nat ?n))))"
    using assms(1,3,4)
    by (simp add: finalize_route_total_gas_def estimate_route_gas_def route_hop_gas_budget_def
        estimate_route_gas_from_hops_evm_def Let_def)
  then show ?thesis
    using est evm [OF assms(5)] by (auto simp: unat_max_32)
qed

definition sample_v2_edge :: Edge where
  "sample_v2_edge = \<lparr>e_pool_index = 0, e_token_in = 0, e_token_out = 1, e_token_in_idx = 0,
     e_token_out_idx = 1, e_protocol = UniswapV2, e_fee_bps = 30, e_zero_for_one = True\<rparr>"

theorem route_gas_exact_witness:
  "unat (finalize_route_total_gas [sample_v2_edge, sample_v2_edge] 190000) = 330800"
  using route_gas_exact [of "[sample_v2_edge, sample_v2_edge]" 190000]
  by (simp add: sample_v2_edge_def HOP_CAP_def balancer_direct_batch_eligible_def
      dodo_flash_batch_eligible_def hop_gas_sum_def GAS_V2_HOP_def)

text \<open>
  The buffered gas limit covers both the simulated and the observed gas: there is a limit
  exactly when one of them is nonzero, and it is the larger of the two (an observation above 32 bits
  counts as the largest 32-bit value) plus a quarter plus one, with no wrap.
\<close>

theorem buffered_gas_limit_covers:
  "(case pick_buffered_gas_limit simulated_gas dry_run_gas of
      None \<Rightarrow> simulated_gas = 0 \<and> (dry_run_gas = None \<or> dry_run_gas = Some 0)
    | Some limit \<Rightarrow>
        let base = max (unat simulated_gas)
                     (case dry_run_gas of None \<Rightarrow> 0 | Some g \<Rightarrow> min (unat g) (2 ^ 32 - 1))
        in 0 < base \<and> unat limit = base + base div 4 + 1)"
proof -
  let ?o = "or_default (map_option (\<lambda>gas. or_default (u32_try_from gas) (- 1)) dry_run_gas) (0 :: u32)"
  let ?b = "max simulated_gas ?o"
  have o: "unat ?o = (case dry_run_gas of None \<Rightarrow> 0 | Some g \<Rightarrow> min (unat g) (2 ^ 32 - 1))"
  proof (cases dry_run_gas)
    case (Some g)
    then show ?thesis using u32_try_from_64 [of g] by (simp add: or_default_def [of "Some _"])
  qed (simp add: or_default_def)
  then have zero: "?o = 0 \<longleftrightarrow> dry_run_gas = None \<or> dry_run_gas = Some 0"
    by (auto simp: unat_eq_0 min_def simp flip: unat_eq_0 split: option.splits)
  have b: "unat ?b = max (unat simulated_gas) (unat ?o)" by (rule unat_max_32)
  have quarter: "unat ?b * 2500 div 10000 = unat ?b div 4" by simp
  show ?thesis
  proof (cases "?b = 0")
    case True
    then have "unat simulated_gas = 0 \<and> unat ?o = 0" using b by (metis max_0_1(2) max.commute max_nat.eq_neutr_iff unat_0)
    then have "simulated_gas = 0" and "?o = 0" by (simp_all add: unat_eq_0)
    then show ?thesis
      using zero True by (simp add: pick_buffered_gas_limit_def buffer_gas_limit_def)
  next
    case False
    then have "pick_buffered_gas_limit simulated_gas dry_run_gas =
        Some ((ucast ?b :: u256) + ucast ?b * ucast GAS_LIMIT_BUFFER_BPS div 10000 + 1)"
      by (simp add: pick_buffered_gas_limit_def buffer_gas_limit_def Let_def)
    then show ?thesis
      using unat_buffered [of ?b] quarter b o unat_ne_0 [OF False] by (simp add: Let_def)
  qed
qed

end
