(* ===== verification/CurveCrypto.thy ===== *)
theory CurveCrypto
  imports Curve
begin

text \<open>
  Curve crypto pools, \<open>src/core/math/curve_crypto.rs\<close>, and the hop quote that chooses between the two
  Curve families and counts its outcomes, \<open>src/pipeline/curve_sim.rs\<close>. The Newton iterations are
  counted loops; \<^const>\<open>None\<close> is the panic of an unguarded division.
\<close>

section \<open>The code\<close>

definition CURVE_CRYPTO_OUTPUT_BUFFER :: u256 where "CURVE_CRYPTO_OUTPUT_BUFFER = from_limbs 5000000 0 0 0"
definition A_MULTIPLIER :: u256 where "A_MULTIPLIER = from_limbs 10000 0 0 0"
definition POW_10_10 :: u256 where "POW_10_10 = from_limbs 10000000000 0 0 0"
definition POW_10_14 :: u256 where "POW_10_14 = from_limbs 100000000000000 0 0 0"
definition POW_10_16 :: u256 where "POW_10_16 = from_limbs 10000000000000000 0 0 0"
definition POW_10_20 :: u256 where "POW_10_20 = from_limbs 0x6BC75E2D63100000 5 0 0"

record NewtonResult =
  nr_value :: u256
  nr_converged :: bool

definition newton_failed :: NewtonResult where
  "newton_failed = \<lparr>nr_value = 0, nr_converged = False\<rparr>"

definition sort_desc :: "u256 list \<Rightarrow> u256 list" where
  "sort_desc values = rev (sort values)"

definition abs_diff_add_one :: "u256 \<Rightarrow> u256 \<Rightarrow> u256" where
  "abs_diff_add_one a b = (if a > b then a - b else b - a) + 1"

fun geometric_tmp :: "u256 list \<Rightarrow> u256 \<Rightarrow> u256 \<Rightarrow> u256 panics" where
  "geometric_tmp [] d tmp = Some tmp"
| "geometric_tmp (xi # x) d tmp = do { t \<leftarrow> pdiv (tmp * xi) d; geometric_tmp x d t }"

definition geometric_step :: "u256 list \<Rightarrow> u256 \<Rightarrow> u256 \<Rightarrow> (u256, u256 panics) iteration" where
  "geometric_step x n d =
     (case do { tmp \<leftarrow> geometric_tmp x d ONE; pdiv (d * ((n - 1) * ONE + tmp)) (n * ONE) } of
        None \<Rightarrow> Break None
      | Some d' \<Rightarrow>
          let diff = abs_diff d' d
          in if diff \<le> 1 \<or> diff * ONE < d' then Break (Some d') else Continue d')"

definition geometric_mean :: "u256 list \<Rightarrow> u256 panics" where
  "geometric_mean x =
     (if \<exists>xi \<in> set x. xi = 0 then Some 0
      else do {
        first \<leftarrow> nth_opt x 0;
        for_loop CURVE_MAX_ITERATIONS (geometric_step x (of_nat (length x))) (\<lambda>_. Some 0) first
      })"

definition compute_k0 :: "u256 list \<Rightarrow> u256 \<Rightarrow> u256 \<Rightarrow> u256" where
  "compute_k0 xp d n = (if d = 0 then 0 else foldl (\<lambda>k0 x. (k0 * x * n) div d) ONE xp)"

text \<open>\<open>mul1\<close> of both iterations, computed with 512 bits and truncated; gamma and ann are nonzero here.\<close>

definition crypto_mul1 :: "u256 \<Rightarrow> u256 \<Rightarrow> u256 \<Rightarrow> u256 \<Rightarrow> u256" where
  "crypto_mul1 d gamma g1k0 ann =
     u512_to_u256 ((ucast ONE * ucast d div ucast gamma * ucast g1k0 div ucast gamma * ucast g1k0
                    * ucast A_MULTIPLIER) div (ucast ann :: u512))"

definition newton_d_step ::
    "u256 \<Rightarrow> u256 \<Rightarrow> u256 list \<Rightarrow> u256 \<Rightarrow> u256 \<Rightarrow> u256 \<Rightarrow> (u256, NewtonResult) iteration" where
  "newton_d_step ann gamma xp n s d =
     (if d = 0 then Break newton_failed
      else
        let d_prev = d; k0 = compute_k0 xp d n
        in if k0 = 0 then Break newton_failed
        else
          let g1k0 = abs_diff_add_one (gamma + ONE) k0
          in if g1k0 = 0 then Break newton_failed
          else
            let mul1 = crypto_mul1 d gamma g1k0 ann;
                mul2 = (2 * ONE * n * k0) div g1k0;
                neg_fprime = saturating_sub (s + (s * mul2) div ONE + (mul1 * n) div k0) ((mul2 * d) div ONE)
            in if neg_fprime = 0 then Break newton_failed
            else
              let dplus = (d * (neg_fprime + s)) div neg_fprime;
                  dminus = (d * d) div neg_fprime;
                  dminus =
                    (if ONE > k0 then dminus + (((d * mul1) div neg_fprime) div ONE * (ONE - k0)) div k0
                     else saturating_sub dminus ((((d * mul1) div neg_fprime) div ONE * (k0 - ONE)) div k0));
                  d = (if dplus > dminus then dplus - dminus else (dminus - dplus) div 2);
                  diff = abs_diff d d_prev;
                  threshold = max POW_10_16 d
              in if diff * POW_10_14 < threshold then Break \<lparr>nr_value = d, nr_converged = True\<rparr>
                 else Continue d)"

definition curve_crypto_newton_d :: "u256 \<Rightarrow> u256 \<Rightarrow> u256 list \<Rightarrow> NewtonResult panics" where
  "curve_crypto_newton_d ann gamma xp =
     (if length xp < 2 \<or> ann = 0 \<or> gamma = 0 \<or> (\<exists>x \<in> set xp. x = 0) then Some newton_failed
      else do {
        let n = of_nat (length xp);
        let s = sum_list xp;
        g \<leftarrow> geometric_mean xp;
        let d = n * g;
        if d = 0 then Some newton_failed
        else Some (for_loop CURVE_MAX_ITERATIONS (newton_d_step ann gamma xp n s) (\<lambda>_. newton_failed) d)
      })"

definition curve_crypto_cache_d :: "u256 list \<Rightarrow> u256 list \<Rightarrow> u256 \<Rightarrow> u256 \<Rightarrow> u256 option panics" where
  "curve_crypto_cache_d balances rates a gamma =
     (if a = 0 \<or> gamma = 0 \<or> length balances \<noteq> length rates then Some None
      else
        let n = of_nat (length balances)
        in if n < 2 then Some None
        else do {
          let xp = map (\<lambda>(b, r). (b * r) div ONE) (zip balances rates);
          result \<leftarrow> curve_crypto_newton_d (a * n * A_MULTIPLIER) gamma xp;
          Some (if nr_converged result \<and> nr_value result \<noteq> 0 then Some (nr_value result) else None)
        })"

text \<open>The first loop of \<open>newton_y\<close> over the sorted balances, smallest first; the inner option is the failure.\<close>

fun newton_y_start :: "u256 \<Rightarrow> u256 \<Rightarrow> u256 list \<Rightarrow> u256 \<times> u256 \<Rightarrow> (u256 \<times> u256) option panics" where
  "newton_y_start d n [] (y, si) = Some (Some (y, si))"
| "newton_y_start d n (xj # xs) (y, si) =
     (if xj = 0 then Some None
      else do { y' \<leftarrow> pdiv (y * d) (xj * n); newton_y_start d n xs (y', si + xj) })"

definition newton_y_limit :: "u256 \<Rightarrow> u256 \<Rightarrow> u256" where
  "newton_y_limit largest d =
     (let a = largest div POW_10_14; b = d div POW_10_14
      in if a > b then (if a > 100 then a else 100) else if b > 100 then b else 100)"

definition newton_y_step ::
    "u256 \<Rightarrow> u256 \<Rightarrow> u256 \<Rightarrow> u256 \<Rightarrow> u256 \<Rightarrow> u256 \<Rightarrow> u256 \<Rightarrow> u256 \<Rightarrow> (u256, NewtonResult) iteration" where
  "newton_y_step ann gamma d n k0i si convergence_limit y =
     (if y = 0 \<or> d = 0 then Break newton_failed
      else
        let y_prev = y; k0 = (k0i * y * n) div d
        in if k0 = 0 then Break newton_failed
        else
          let s = si + y; g1k0 = abs_diff_add_one (gamma + ONE) k0
          in if g1k0 = 0 then Break newton_failed
          else
            let mul1 = crypto_mul1 d gamma g1k0 ann;
                mul2 = ONE + (2 * ONE * k0) div g1k0;
                yfprime = ONE * y + s * mul2 + mul1;
                dyfprime = d * mul2
            in if yfprime < dyfprime then Continue (y_prev div 2)
            else
              let yfprime = yfprime - dyfprime
              in if y = 0 then Break newton_failed
              else let fprime = yfprime div y
              in if fprime = 0 then Break newton_failed
              else
                let y_minus = mul1 div fprime;
                    y_plus = (yfprime + ONE * d) div fprime + (y_minus * ONE) div k0;
                    y_minus = y_minus + (ONE * s) div fprime;
                    y = (if y_plus < y_minus then y_prev div 2 else y_plus - y_minus);
                    diff = abs_diff y y_prev;
                    y_scaled = y div POW_10_14;
                    limit = (if convergence_limit > y_scaled then convergence_limit else y_scaled)
                in if diff < limit then
                     (let frac = (y * ONE) div d
                      in if frac > POW_10_16 - 1 \<and> frac < POW_10_20 + 1
                         then Break \<lparr>nr_value = y, nr_converged = True\<rparr>
                         else Break newton_failed)
                   else Continue y)"

definition curve_crypto_newton_y ::
    "u256 \<Rightarrow> u256 \<Rightarrow> u256 list \<Rightarrow> u256 \<Rightarrow> nat \<Rightarrow> NewtonResult panics" where
  "curve_crypto_newton_y ann gamma xp d out_idx =
     (let n = length xp
      in if out_idx \<ge> n \<or> ann = 0 \<or> gamma = 0 \<or> d = 0 then Some newton_failed
      else do {
        let n_u256 = of_nat n;
        let sorted = sort_desc (xp[out_idx := 0]);
        largest \<leftarrow> nth_opt sorted 0;
        y \<leftarrow> pdiv d n_u256;
        start \<leftarrow> newton_y_start d n_u256 (rev (take (n - 1) sorted)) (y, 0);
        case start of
          None \<Rightarrow> Some newton_failed
        | Some (y, si) \<Rightarrow>
            let k0i = foldl (\<lambda>k0i item. (k0i * item * n_u256) div d) ONE (take (n - 1) sorted)
            in Some (for_loop CURVE_MAX_ITERATIONS
                       (newton_y_step ann gamma d n_u256 k0i si (newton_y_limit largest d))
                       (\<lambda>_. newton_failed) y)
      })"

datatype CurveCryptoReject =
  CZeroAmount | CInvalidIndices | CMissingGamma | CNewtonD | CNewtonY | CImplausibleOutput | CZeroOut

definition crypto_rates :: "CurvePoolState \<Rightarrow> u256 list" where
  "crypto_rates pool =
     (if cv_rates pool = [] then replicate (unat (cv_n_coins pool)) ONE else cv_rates pool)"

definition crypto_xp :: "CurvePoolState \<Rightarrow> u256 list" where
  "crypto_xp pool = map (\<lambda>(b, r). (b * r) div ONE) (zip (cv_balances pool) (crypto_rates pool))"

text \<open>\<open>D\<close> of a quote: the cached value when it is usable, otherwise a converged Newton iteration.\<close>

definition crypto_d :: "CurvePoolState \<Rightarrow> u256 \<Rightarrow> u256 \<Rightarrow> u256 option panics" where
  "crypto_d pool ann gamma =
     (case nonzero (cv_d pool) of
        Some d \<Rightarrow> Some (Some d)
      | None \<Rightarrow> do {
          d_result \<leftarrow> curve_crypto_newton_d ann gamma (crypto_xp pool);
          Some (if nr_converged d_result then Some (nr_value d_result) else None)
        })"

text \<open>From the difference of the balances to the output: plausibility check, token units, fee, buffer.\<close>

definition crypto_payout :: "u256 \<Rightarrow> u256 \<Rightarrow> u256 \<Rightarrow> u256 \<Rightarrow> CurveCryptoReject + u256" where
  "crypto_payout input_xp dy fee out_rate =
     (if (case checked_mul input_xp 2 of Some max_output \<Rightarrow> dy > max_output | None \<Rightarrow> False)
      then Inl CImplausibleOutput
      else if out_rate = 0 then Inl CZeroOut
      else
        let out = (dy * ONE) div out_rate;
            fee_amount = (out * fee) div POW_10_10;
            out_after_fee = saturating_sub out fee_amount;
            buffered = saturating_sub out_after_fee
                         ((out_after_fee * CURVE_CRYPTO_OUTPUT_BUFFER) div CURVE_FEE_DENOMINATOR)
        in if buffered = 0 then Inl CZeroOut else Inr buffered)"

definition try_curve_crypto_amount_out ::
    "CurvePoolState \<Rightarrow> u256 \<Rightarrow> nat \<Rightarrow> nat \<Rightarrow> (CurveCryptoReject + u256) panics" where
  "try_curve_crypto_amount_out pool amount_in token_in_idx token_out_idx =
     (let n_coins = unat (cv_n_coins pool)
      in if amount_in = 0 then Some (Inl CZeroAmount)
      else if token_in_idx \<ge> n_coins \<or> token_out_idx \<ge> n_coins \<or> token_in_idx = token_out_idx
      then Some (Inl CInvalidIndices)
      else
        let gamma = (case cv_gamma pool of Some g \<Rightarrow> g | None \<Rightarrow> 0); a = cv_a pool
        in if gamma = 0 \<or> a = 0 then Some (Inl CMissingGamma)
        else
          let n = ucast (cv_n_coins pool); ann = a * n * A_MULTIPLIER;
              rates = crypto_rates pool; xp = crypto_xp pool
          in if token_in_idx \<ge> length xp \<or> token_out_idx \<ge> length xp then Some (Inl CInvalidIndices)
          else do {
            d_opt \<leftarrow> crypto_d pool ann gamma;
            case d_opt of
              None \<Rightarrow> Some (Inl CNewtonD)
            | Some d \<Rightarrow> do {
                let input_xp = (amount_in * rates ! token_in_idx) div ONE;
                let xp = xp[token_in_idx := xp ! token_in_idx + input_xp];
                y_result \<leftarrow> curve_crypto_newton_y ann gamma xp d token_out_idx;
                if \<not> nr_converged y_result then Some (Inl CNewtonY)
                else
                  let dy = saturating_sub (xp ! token_out_idx) (nr_value y_result)
                  in Some (crypto_payout input_xp dy (cv_fee pool) (rates ! token_out_idx))
              }
          })"

definition get_curve_crypto_amount_out :: "CurvePoolState \<Rightarrow> u256 \<Rightarrow> nat \<Rightarrow> nat \<Rightarrow> u256 panics" where
  "get_curve_crypto_amount_out pool amount_in token_in_idx token_out_idx = do {
     r \<leftarrow> try_curve_crypto_amount_out pool amount_in token_in_idx token_out_idx;
     Some (case r of Inr out \<Rightarrow> out | Inl _ \<Rightarrow> 0)
   }"

section \<open>The hop quote and its counters\<close>

text \<open>The process-wide counters of \<open>curve_sim.rs\<close>, 32-bit and wrapping as \<open>fetch_add\<close> is.\<close>

record CurveStats =
  STABLE_OK :: u32
  STABLE_ZERO_OUT :: u32
  STABLE_D :: u32
  STABLE_Y :: u32
  STABLE_OTHER :: u32
  CRYPTO_OK :: u32
  CRYPTO_ZERO_OUT :: u32
  CRYPTO_NEWTON_D :: u32
  CRYPTO_NEWTON_Y :: u32
  CRYPTO_OTHER :: u32

fun record_stable_reject :: "CurveStableReject \<Rightarrow> CurveStats \<Rightarrow> CurveStats" where
  "record_stable_reject SZeroOut st = st\<lparr>STABLE_ZERO_OUT := STABLE_ZERO_OUT st + 1\<rparr>"
| "record_stable_reject SDInvariant st = st\<lparr>STABLE_D := STABLE_D st + 1\<rparr>"
| "record_stable_reject SY st = st\<lparr>STABLE_Y := STABLE_Y st + 1\<rparr>"
| "record_stable_reject _ st = st\<lparr>STABLE_OTHER := STABLE_OTHER st + 1\<rparr>"

fun record_crypto_reject :: "CurveCryptoReject \<Rightarrow> CurveStats \<Rightarrow> CurveStats" where
  "record_crypto_reject CZeroOut st = st\<lparr>CRYPTO_ZERO_OUT := CRYPTO_ZERO_OUT st + 1\<rparr>"
| "record_crypto_reject CNewtonD st = st\<lparr>CRYPTO_NEWTON_D := CRYPTO_NEWTON_D st + 1\<rparr>"
| "record_crypto_reject CNewtonY st = st\<lparr>CRYPTO_NEWTON_Y := CRYPTO_NEWTON_Y st + 1\<rparr>"
| "record_crypto_reject _ st = st\<lparr>CRYPTO_OTHER := CRYPTO_OTHER st + 1\<rparr>"

definition curve_hop_amount_out ::
    "CurvePoolState \<Rightarrow> ProtocolType \<Rightarrow> u256 \<Rightarrow> nat \<Rightarrow> nat \<Rightarrow> CurveStats \<Rightarrow> (u256 option \<times> CurveStats) panics" where
  "curve_hop_amount_out pool protocol amount_in token_in_idx token_out_idx st =
     (case protocol of
        CurveStable \<Rightarrow> do {
          r \<leftarrow> try_curve_stable_amount_out pool amount_in token_in_idx token_out_idx;
          Some (case r of
                  Inr out \<Rightarrow> if out \<noteq> 0 then (Some out, st\<lparr>STABLE_OK := STABLE_OK st + 1\<rparr>)
                             else (None, record_stable_reject SZeroOut st)
                | Inl reason \<Rightarrow> (None, record_stable_reject reason st))
        }
      | CurveCrypto \<Rightarrow> do {
          r \<leftarrow> try_curve_crypto_amount_out pool amount_in token_in_idx token_out_idx;
          Some (case r of
                  Inr out \<Rightarrow> if out \<noteq> 0 then (Some out, st\<lparr>CRYPTO_OK := CRYPTO_OK st + 1\<rparr>)
                             else (None, record_crypto_reject CZeroOut st)
                | Inl reason \<Rightarrow> (None, record_crypto_reject reason st))
        }
      | _ \<Rightarrow> Some (None, st))"

section \<open>Accepted quotes\<close>

lemma crypto_payout_OkD:
  assumes "crypto_payout input_xp dy fee out_rate = Inr out"
  shows "out_rate \<noteq> 0" and "out \<noteq> 0" and "out \<le> (dy * ONE) div out_rate"
    and "unat input_xp * 2 < 2 ^ 256 \<Longrightarrow> unat dy \<le> unat input_xp * 2"
proof -
  let ?o = "(dy * ONE) div out_rate"
  define v where "v = saturating_sub (saturating_sub ?o ((?o * fee) div POW_10_10))
    ((saturating_sub ?o ((?o * fee) div POW_10_10) * CURVE_CRYPTO_OUTPUT_BUFFER) div CURVE_FEE_DENOMINATOR)"
  have le: "v \<le> ?o" unfolding v_def by (rule order_trans [OF saturating_sub_le saturating_sub_le])
  have r: "out_rate \<noteq> 0 \<and> out = v \<and> v \<noteq> 0
      \<and> \<not> (case checked_mul input_xp 2 of Some m \<Rightarrow> m < dy | None \<Rightarrow> False)"
    using assms by (simp add: crypto_payout_def Let_def split: if_splits flip: v_def)
  then show "out_rate \<noteq> 0" "out \<noteq> 0" "out \<le> ?o" using le by auto
  assume fits: "unat input_xp * 2 < 2 ^ 256"
  then have "checked_mul input_xp 2 = Some (input_xp * 2)" by (simp add: checked_mul_def)
  with r have "dy \<le> input_xp * 2" by (simp add: not_less)
  then show "unat dy \<le> unat input_xp * 2"
    using fits by (simp add: word_le_nat_alt unat_mult_nowrap)
qed

lemma crypto_OkD:
  assumes "try_curve_crypto_amount_out pool amount i j = Some (Inr out)"
  shows "i \<noteq> j \<and> j < length (crypto_xp pool) \<and> (\<exists>dy. dy \<le> crypto_xp pool ! j
    \<and> crypto_payout ((amount * crypto_rates pool ! i) div ONE) dy (cv_fee pool) (crypto_rates pool ! j) = Inr out)"
  using assms
  by (auto simp: try_curve_crypto_amount_out_def Let_def Option.bind_eq_Some_conv
      split: if_splits option.splits intro!: exI [of _ "saturating_sub _ _"])

lemma crypto_xp_nth:
  assumes "j < length (crypto_xp pool)"
  shows "j < length (cv_balances pool)"
    and "unat (crypto_xp pool ! j) * 10 ^ 18 \<le> unat (cv_balances pool ! j) * unat (crypto_rates pool ! j)"
proof -
  show j: "j < length (cv_balances pool)" using assms by (simp add: crypto_xp_def)
  have "unat ((cv_balances pool ! j * crypto_rates pool ! j) div ONE) * 10 ^ 18
      \<le> unat (cv_balances pool ! j * crypto_rates pool ! j)" by (simp add: unat_div_word unat_ONE)
  also have "\<dots> \<le> unat (cv_balances pool ! j) * unat (crypto_rates pool ! j)" by (rule unat_mult_le)
  finally show "unat (crypto_xp pool ! j) * 10 ^ 18 \<le> unat (cv_balances pool ! j) * unat (crypto_rates pool ! j)"
    using assms by (simp add: crypto_xp_def)
qed

lemma crypto_out_le:
  assumes "try_curve_crypto_amount_out pool amount i j = Some (Inr out)"
  shows "j < length (cv_balances pool)" and "out \<le> cv_balances pool ! j"
proof -
  obtain dy where j: "j < length (crypto_xp pool)" and dy: "dy \<le> crypto_xp pool ! j"
    and pay: "crypto_payout ((amount * crypto_rates pool ! i) div ONE) dy (cv_fee pool) (crypto_rates pool ! j) = Inr out"
    using crypto_OkD [OF assms] by blast
  note xp = crypto_xp_nth [OF j] and out = crypto_payout_OkD(1-3) [OF pay]
  show "j < length (cv_balances pool)" by (rule xp(1))
  have "unat ((dy * ONE) div crypto_rates pool ! j) \<le> unat (cv_balances pool ! j)"
    using dy xp(2) out(1) by (intro unscaled_within) (simp_all add: word_le_nat_alt)
  with out(3) show "out \<le> cv_balances pool ! j" by (simp add: word_le_nat_alt)
qed

text \<open>A converged iteration for the new balance ends inside the protocol's band around \<open>D\<close>.\<close>

definition y_in_band :: "u256 \<Rightarrow> NewtonResult \<Rightarrow> bool" where
  "y_in_band d r \<longleftrightarrow> nr_converged r \<longrightarrow>
     POW_10_16 - 1 < (nr_value r * ONE) div d \<and> (nr_value r * ONE) div d < POW_10_20 + 1"

interpretation newton_y: loop_invariant "newton_y_step ann gamma d n k0i si lim" "\<lambda>_. newton_failed"
    "\<lambda>_. True" "y_in_band d" for ann gamma d n k0i si lim
  by unfold_locales
     (auto simp: newton_y_step_def y_in_band_def newton_failed_def Let_def split: if_splits)

interpretation newton_d: loop_invariant "newton_d_step ann gamma xp n s" "\<lambda>_. newton_failed"
    "\<lambda>_. True" "\<lambda>r. \<not> nr_converged r \<longrightarrow> nr_value r = 0" for ann gamma xp n s
  by unfold_locales (auto simp: newton_d_step_def newton_failed_def Let_def split: if_splits)

lemma newton_y_band:
  assumes "curve_crypto_newton_y ann gamma xp d out_idx = Some r"
  shows "y_in_band d r"
proof -
  have "y_in_band d newton_failed" by (simp add: y_in_band_def newton_failed_def)
  then show ?thesis
    using assms newton_y.for_loop_post
    by (auto simp: curve_crypto_newton_y_def Let_def Option.bind_eq_Some_conv split: if_splits option.splits)
qed

section \<open>Properties\<close>

definition sample_crypto_pool :: CurvePoolState where
  "sample_crypto_pool =
     \<lparr>cv_balances = [1000000000000000000, 1000000000000000000], cv_a = 10000, cv_fee = 0, cv_rates = [],
      cv_n_coins = 2, cv_gamma = Some 1000000000000000000, cv_d = Some 2000000000000000000,
      cv_offpeg_fee_multiplier = None\<rparr>"

text \<open>One quote on this pool, evaluated step by step.\<close>

lemma sample_crypto_mul1: "crypto_mul1 2000000000000000000 1000000000000000000 1000000000000000002 200000000 = 100000000000000000400000000000000"
  by (simp add: crypto_mul1_def u512_to_u256_def ONE_def A_MULTIPLIER_def from_limbs_def)

lemma sample_crypto_g1k0: "abs_diff_add_one (1000000000000000000 + ONE) 999999999999999999 = 1000000000000000002"
  by (simp add: abs_diff_add_one_def ONE_def from_limbs_def)

lemma sample_crypto_step:
  "newton_y_step 200000000 1000000000000000000 2000000000000000000 2 1000000000000030000 1000000000000030000 20000 999999999999970000
     = Break \<lparr>nr_value = 999999999999970000, nr_converged = True\<rparr>"
proof -
  have one: "ONE = 1000000000000000000" by (simp add: ONE_def from_limbs_def)
  have k0: "1000000000000030000 * 999999999999970000 * 2 div 2000000000000000000 = (999999999999999999 :: u256)" by (simp)
  have mul2: "1000000000000000000 + (2 * 1000000000000000000 * 999999999999999999) div 1000000000000000002 = (2999999999999999994 :: u256)" by (simp)
  have yf: "1000000000000000000 * 999999999999970000 + 5999999999999999988000000000000000000 + 100000000000000000400000000000000 = (7000099999999969988000400000000000000 :: u256)" by (simp)
  have dyf: "2000000000000000000 * 2999999999999999994 = (5999999999999999988000000000000000000 :: u256)" by (simp)
  have sub: "7000099999999969988000400000000000000 - 5999999999999999988000000000000000000 = (1000099999999970000000400000000000000 :: u256)" by (simp)
  have fp: "1000099999999970000000400000000000000 div 999999999999970000 = (1000100000000000003 :: u256)" by (simp)
  have ym: "100000000000000000400000000000000 div 1000100000000000003 = (99990000999900 :: u256)" by (simp)
  have yp: "(1000099999999970000000400000000000000 + 1000000000000000000 * 2000000000000000000) div 1000100000000000003 + (99990000999900 * 1000000000000000000) div 999999999999999999 = (2999900009998970093 :: u256)" by (simp)
  have ym2: "99990000999900 + (1000000000000000000 * 2000000000000000000) div 1000100000000000003 = (1999900009999000093 :: u256)" by (simp)
  have y: "2999900009998970093 - 1999900009999000093 = (999999999999970000 :: u256)" by (simp)
  have s: "1000000000000030000 + 999999999999970000 = (2000000000000000000 :: u256)" by (simp)
  have ys: "999999999999970000 div 100000000000000 = (9999 :: u256)" by (simp)
  have frac: "(999999999999970000 * 1000000000000000000) div 2000000000000000000 = (499999999999985000 :: u256)" by (simp)
  have ad: "abs_diff 999999999999970000 999999999999970000 = (0 :: u256)" by (simp add: abs_diff_def)
  have c1: "((2000000000000000000 :: u256) = 0) = False" by (simp add: POW_10_16_def POW_10_20_def from_limbs_def)
  have c2: "((999999999999999999 :: u256) = 0) = False" by (simp add: POW_10_16_def POW_10_20_def from_limbs_def)
  have c3: "((1000000000000000002 :: u256) = 0) = False" by (simp add: POW_10_16_def POW_10_20_def from_limbs_def)
  have c4: "((7000099999999969988000400000000000000 :: u256) < 5999999999999999988000000000000000000) = False" by (simp add: POW_10_16_def POW_10_20_def from_limbs_def)
  have c5: "((1000100000000000003 :: u256) = 0) = False" by (simp add: POW_10_16_def POW_10_20_def from_limbs_def)
  have c6: "((2999900009998970093 :: u256) < 1999900009999000093) = False" by (simp add: POW_10_16_def POW_10_20_def from_limbs_def)
  have c7: "((9999 :: u256) < 20000) = True" by (simp add: POW_10_16_def POW_10_20_def from_limbs_def)
  have c8: "((0 :: u256) < 20000) = True" by (simp add: POW_10_16_def POW_10_20_def from_limbs_def)
  have c9: "(POW_10_16 - 1 < 499999999999985000 \<and> 499999999999985000 < POW_10_20 + 1) = True" by (simp add: POW_10_16_def POW_10_20_def from_limbs_def)
  have c10: "((999999999999970000 :: u256) = 0) = False" by (simp add: POW_10_16_def POW_10_20_def from_limbs_def)
  have p14: "POW_10_14 = 100000000000000" by (simp add: POW_10_14_def from_limbs_def)
  have g1k0: "abs_diff_add_one (1000000000000000000 + 1000000000000000000) 999999999999999999 = 1000000000000000002"
    using sample_crypto_g1k0 unfolding one .
  show ?thesis
    unfolding newton_y_step_def Let_def
    by (simp only: one g1k0 sample_crypto_mul1 k0 s mul2 yf dyf sub fp ym yp ym2 y ys frac ad p14
        c1 c2 c3 c4 c5 c6 c7 c8 c9 c10 if_False if_True simp_thms)
qed

lemma sample_crypto_y:
  "curve_crypto_newton_y 200000000 1000000000000000000 [1000000000000030000, 1000000000000000000]
     2000000000000000000 1 = Some \<lparr>nr_value = 999999999999970000, nr_converged = True\<rparr>"
proof -
  have "sort_desc [1000000000000030000, 0] = [1000000000000030000, 0]" by (simp add: sort_desc_def)
  moreover have "newton_y_limit 1000000000000030000 2000000000000000000 = 20000"
    by (simp add: newton_y_limit_def POW_10_14_def from_limbs_def)
  moreover have "0 < CURVE_MAX_ITERATIONS" by (simp add: CURVE_MAX_ITERATIONS_def)
  then have "for_loop CURVE_MAX_ITERATIONS (newton_y_step 200000000 1000000000000000000 2000000000000000000 2 1000000000000030000 1000000000000030000 20000)
      (\<lambda>_. newton_failed) 999999999999970000 = \<lparr>nr_value = 999999999999970000, nr_converged = True\<rparr>"
    by (intro for_loop_first [OF _ _] sample_crypto_step)
  ultimately show ?thesis
    by (simp add: curve_crypto_newton_y_def nth_opt_def ONE_def from_limbs_def Let_def)
qed

lemma sample_crypto_quote: "try_curve_crypto_amount_out sample_crypto_pool 30000 0 1 = Some (Inr 29985)"
proof -
  have rates: "crypto_rates sample_crypto_pool = [ONE, ONE]"
  proof -
    have "replicate 2 ONE = [ONE, ONE]" by (simp add: numeral_2_eq_2)
    then show ?thesis by (simp add: crypto_rates_def sample_crypto_pool_def)
  qed
  have xp: "crypto_xp sample_crypto_pool = [1000000000000000000, 1000000000000000000]"
    unfolding crypto_xp_def rates by (simp add: sample_crypto_pool_def ONE_def from_limbs_def)
  have pay: "crypto_payout 30000 30000 0 ONE = Inr 29985"
    by (simp add: crypto_payout_def checked_mul_def ONE_def POW_10_10_def CURVE_CRYPTO_OUTPUT_BUFFER_def
        CURVE_FEE_DENOMINATOR_def from_limbs_def saturating_sub_def Let_def)
  have ann: "cv_a sample_crypto_pool * ucast (cv_n_coins sample_crypto_pool) * A_MULTIPLIER = 200000000"
    by (simp add: sample_crypto_pool_def A_MULTIPLIER_def from_limbs_def)
  have inp: "(30000 * ONE) div ONE = 30000" by (simp add: ONE_def from_limbs_def)
  show ?thesis
    using sample_crypto_y pay
    by (simp add: try_curve_crypto_amount_out_def rates xp ann inp Let_def)
       (simp add: sample_crypto_pool_def crypto_d_def nonzero_def saturating_sub_def inp)
qed

text \<open>The invariant of a balanced crypto pool, evaluated: one step of each iteration is enough.\<close>

lemma sample_geometric_mean: "geometric_mean [1000000000000000000, 1000000000000000000] = Some 1000000000000000000"
proof -
  have one: "ONE = 1000000000000000000" by (simp add: ONE_def from_limbs_def)
  have "geometric_step [1000000000000000000, 1000000000000000000] 2 1000000000000000000 = Break (Some 1000000000000000000)"
    by (simp add: geometric_step_def one abs_diff_def Let_def)
  moreover have "0 < CURVE_MAX_ITERATIONS" by (simp add: CURVE_MAX_ITERATIONS_def)
  ultimately have "for_loop CURVE_MAX_ITERATIONS (geometric_step [1000000000000000000, 1000000000000000000] 2)
      (\<lambda>_. Some 0) 1000000000000000000 = Some 1000000000000000000" by (intro for_loop_first [OF _ _])
  then show ?thesis by (simp add: geometric_mean_def nth_opt_def)
qed

lemma sample_newton_d_step:
  "newton_d_step 200000000 1000000000000000000 [1000000000000000000, 1000000000000000000] 2 2000000000000000000 2000000000000000000
     = Break \<lparr>nr_value = 2000000000000000000, nr_converged = True\<rparr>"
proof -
  have one: "ONE = 1000000000000000000" by (simp add: ONE_def from_limbs_def)
  have k0: "compute_k0 [1000000000000000000, 1000000000000000000] 2000000000000000000 2 = 1000000000000000000" by (simp add: compute_k0_def one)
  have mul1: "crypto_mul1 2000000000000000000 1000000000000000000 1000000000000000001 200000000 = 100000000000000000200000000000000"
    by (simp add: crypto_mul1_def u512_to_u256_def ONE_def A_MULTIPLIER_def from_limbs_def)
  have mul2: "2 * 1000000000000000000 * 2 * 1000000000000000000 div 1000000000000000001 = (3999999999999999996 :: u256)" by (simp)
  have nf0: "2000000000000000000 + 2000000000000000000 * 3999999999999999996 div 1000000000000000000 + 100000000000000000200000000000000 * 2 div 1000000000000000000 = (10000199999999999992 :: u256)" by (simp)
  have nfs: "3999999999999999996 * 2000000000000000000 div 1000000000000000000 = (7999999999999999992 :: u256)" by (simp)
  have nf: "saturating_sub 10000199999999999992 7999999999999999992 = (2000200000000000000 :: u256)" by (simp add: saturating_sub_def)
  have dplus: "2000000000000000000 * (2000200000000000000 + 2000000000000000000) div 2000200000000000000 = (3999800019998000199 :: u256)" by (simp)
  have dm: "2000000000000000000 * 2000000000000000000 div 2000200000000000000 = (1999800019998000199 :: u256)" by (simp)
  have z: "2000000000000000000 * 100000000000000000200000000000000 div 2000200000000000000 div 1000000000000000000 * (1000000000000000000 - 1000000000000000000) div 1000000000000000000 = (0 :: u256)" by (simp)
  have sz: "saturating_sub 1999800019998000199 0 = (1999800019998000199 :: u256)" by (simp add: saturating_sub_def)
  have dn: "3999800019998000199 - 1999800019998000199 = (2000000000000000000 :: u256)" by (simp)
  have ad: "abs_diff 2000000000000000000 2000000000000000000 = (0 :: u256)" by (simp add: abs_diff_def)
  have g1: "abs_diff_add_one (1000000000000000000 + 1000000000000000000) 1000000000000000000 = (1000000000000000001 :: u256)" by (simp add: abs_diff_add_one_def)
  have c1: "((2000000000000000000 :: u256) = 0) = False" by (simp add: POW_10_14_def POW_10_16_def from_limbs_def)
  have c2: "((1000000000000000000 :: u256) = 0) = False" by (simp add: POW_10_14_def POW_10_16_def from_limbs_def)
  have c3: "((1000000000000000001 :: u256) = 0) = False" by (simp add: POW_10_14_def POW_10_16_def from_limbs_def)
  have c4: "((2000200000000000000 :: u256) = 0) = False" by (simp add: POW_10_14_def POW_10_16_def from_limbs_def)
  have c5: "((1000000000000000000 :: u256) < 1000000000000000000) = False" by (simp add: POW_10_14_def POW_10_16_def from_limbs_def)
  have c6: "((1999800019998000199 :: u256) < 3999800019998000199) = True" by (simp add: POW_10_14_def POW_10_16_def from_limbs_def)
  have c7: "((0 :: u256) * POW_10_14 < max POW_10_16 2000000000000000000) = True" by (simp add: POW_10_14_def POW_10_16_def from_limbs_def)
  show ?thesis
    unfolding newton_d_step_def Let_def
    by (simp only: one k0 g1 mul1 mul2 nf0 nfs nf dplus dm z sz dn ad c1 c2 c3 c4 c5 c6 c7 if_False if_True)
qed

lemma sample_crypto_cache:
  "curve_crypto_cache_d [1000000000000000000, 1000000000000000000] [ONE, ONE] 10000 1000000000000000000 = Some (Some 2000000000000000000)"
proof -
  have "0 < CURVE_MAX_ITERATIONS" by (simp add: CURVE_MAX_ITERATIONS_def)
  with sample_newton_d_step have loop: "for_loop CURVE_MAX_ITERATIONS
      (newton_d_step 200000000 1000000000000000000 [1000000000000000000, 1000000000000000000] 2 2000000000000000000)
      (\<lambda>_. newton_failed) 2000000000000000000 = \<lparr>nr_value = 2000000000000000000, nr_converged = True\<rparr>"
    by (intro for_loop_first [OF _ _])
  have "curve_crypto_newton_d 200000000 1000000000000000000 [1000000000000000000, 1000000000000000000]
      = Some \<lparr>nr_value = 2000000000000000000, nr_converged = True\<rparr>"
    using loop by (simp add: curve_crypto_newton_d_def sample_geometric_mean Let_def)
  moreover have "(1000000000000000000 * ONE) div ONE = 1000000000000000000" by (simp add: ONE_def from_limbs_def)
  moreover have "10000 * 2 * A_MULTIPLIER = 200000000" by (simp add: A_MULTIPLIER_def from_limbs_def)
  ultimately show ?thesis by (simp add: curve_crypto_cache_d_def Let_def)
qed

text \<open>
  An accepted crypto quote never exceeds the pool's balance of the output coin, and in the
  pool's internal units it is worth at most twice the input: whatever the Newton iterations return, a
  nonsensical balance cannot turn into an oversized quote.
\<close>

theorem crypto_quote_bounded:
  assumes "try_curve_crypto_amount_out pool amount i j = Some (Inr out)"
  defines "input_xp \<equiv> (amount * crypto_rates pool ! i) div ONE"
  shows "i \<noteq> j \<and> out \<noteq> 0 \<and> j < length (cv_balances pool) \<and> out \<le> cv_balances pool ! j
    \<and> (unat input_xp * 2 < 2 ^ 256 \<longrightarrow>
        unat out * unat (crypto_rates pool ! j) \<le> unat input_xp * 2 * 10 ^ 18)"
proof -
  let ?r = "crypto_rates pool ! j"
  obtain dy where "i \<noteq> j" and pay: "crypto_payout input_xp dy (cv_fee pool) ?r = Inr out"
    using crypto_OkD [OF assms(1)] unfolding input_xp_def by blast
  note out = crypto_payout_OkD [OF pay]
  have "unat out * unat ?r \<le> unat input_xp * 2 * 10 ^ 18" if "unat input_xp * 2 < 2 ^ 256"
  proof -
    have "unat out * unat ?r \<le> unat ((dy * ONE) div ?r) * unat ?r"
      using out(3) by (intro mult_le_mono1) (simp add: word_le_nat_alt)
    also have "\<dots> \<le> unat (dy * ONE)" by (simp add: unat_div_word)
    also have "\<dots> \<le> unat dy * 10 ^ 18" using unat_mult_le [of dy ONE] by (simp add: unat_ONE)
    also have "\<dots> \<le> unat input_xp * 2 * 10 ^ 18" using out(4) [OF that] by (rule mult_le_mono1)
    finally show ?thesis .
  qed
  then show ?thesis using \<open>i \<noteq> j\<close> out(2) crypto_out_le [OF assms(1)] by blast
qed

theorem crypto_quote_bounded_witness:
  "try_curve_crypto_amount_out sample_crypto_pool 30000 0 1 = Some (Inr 29985)
    \<and> (29985 :: u256) \<le> cv_balances sample_crypto_pool ! 1"
  using crypto_quote_bounded [OF sample_crypto_quote] sample_crypto_quote by simp

text \<open>
  A converged iteration for the new balance stays inside the band the protocol allows:
  with \<open>d\<close> the invariant, \<open>y / d\<close> lies strictly between \<open>10^16 - 1\<close> and \<open>10^20 + 1\<close> in 18 decimals.
\<close>

theorem crypto_newton_y_in_band:
  assumes "curve_crypto_newton_y ann gamma xp d out_idx = Some r" and "nr_converged r"
  shows "POW_10_16 - 1 < (nr_value r * ONE) div d \<and> (nr_value r * ONE) div d < POW_10_20 + 1"
  using newton_y_band [OF assms(1)] assms(2) by (simp add: y_in_band_def)

theorem crypto_newton_y_in_band_witness:
  "\<exists>r. curve_crypto_newton_y 200000000 1000000000000000000 [1000000000000030000, 1000000000000000000]
         2000000000000000000 1 = Some r \<and> nr_converged r
     \<and> (nr_value r * ONE) div 2000000000000000000 < POW_10_20 + 1"
  using crypto_newton_y_in_band [OF sample_crypto_y] sample_crypto_y by auto

text \<open>
  The crypto invariant cached at decode time is the one a quote would compute, for a pool
  whose coin count is the number of its balances and whose rates are known: quotes with the cached value
  and quotes that recompute it agree.
\<close>

theorem crypto_cached_d_equivalent:
  assumes "curve_crypto_cache_d (cv_balances pool) (cv_rates pool) (cv_a pool) gamma = Some (Some d)"
    and "cv_gamma pool = Some gamma" and "unat (cv_n_coins pool) = length (cv_balances pool)"
    and "cv_rates pool \<noteq> []"
  shows "try_curve_crypto_amount_out (pool\<lparr>cv_d := Some d\<rparr>) amount i j
    = try_curve_crypto_amount_out (pool\<lparr>cv_d := None\<rparr>) amount i j"
proof -
  have n: "of_nat (length (cv_balances pool)) = (ucast (cv_n_coins pool) :: u256)"
    by (simp flip: assms(3))
  have xp: "crypto_xp pool = map (\<lambda>(b, r). (b * r) div ONE) (zip (cv_balances pool) (cv_rates pool))"
    using assms(4) by (simp add: crypto_xp_def crypto_rates_def)
  obtain r where "curve_crypto_newton_d (cv_a pool * ucast (cv_n_coins pool) * A_MULTIPLIER) gamma (crypto_xp pool) = Some r"
      and "nr_converged r" and "nr_value r = d" and "d \<noteq> 0"
    using assms(1) unfolding curve_crypto_cache_d_def n xp
    by (auto simp: Let_def Option.bind_eq_Some_conv split: if_splits)
  then have "crypto_d (pool\<lparr>cv_d := e\<rparr>) (cv_a pool * ucast (cv_n_coins pool) * A_MULTIPLIER) gamma = Some (Some d)"
    if "e = Some d \<or> e = None" for e
    using that by (auto simp: crypto_d_def nonzero_def crypto_xp_def crypto_rates_def)
  then show ?thesis
    using assms(2)
    by (simp add: try_curve_crypto_amount_out_def Let_def crypto_xp_def crypto_rates_def
        cong: if_cong option.case_cong)
qed

theorem crypto_cached_d_equivalent_witness:
  "curve_crypto_cache_d [1000000000000000000, 1000000000000000000] [ONE, ONE] 10000 1000000000000000000 = Some (Some 2000000000000000000)
    \<and> try_curve_crypto_amount_out (sample_crypto_pool\<lparr>cv_rates := [ONE, ONE], cv_d := Some 2000000000000000000\<rparr>) 30000 0 1
      = try_curve_crypto_amount_out (sample_crypto_pool\<lparr>cv_rates := [ONE, ONE], cv_d := None\<rparr>) 30000 0 1"
  using crypto_cached_d_equivalent [of "sample_crypto_pool\<lparr>cv_rates := [ONE, ONE]\<rparr>" 1000000000000000000 2000000000000000000 30000 0 1]
    sample_crypto_cache by (simp add: sample_crypto_pool_def)

definition curve_calls :: "CurveStats \<Rightarrow> u32" where
  "curve_calls st = STABLE_OK st + STABLE_ZERO_OUT st + STABLE_D st + STABLE_Y st + STABLE_OTHER st
     + CRYPTO_OK st + CRYPTO_ZERO_OUT st + CRYPTO_NEWTON_D st + CRYPTO_NEWTON_Y st + CRYPTO_OTHER st"

definition curve_successes :: "CurveStats \<Rightarrow> u32" where
  "curve_successes st = STABLE_OK st + CRYPTO_OK st"

lemma record_ok_counts:
  "curve_calls (st\<lparr>STABLE_OK := STABLE_OK st + 1\<rparr>) = curve_calls st + 1"
  "curve_successes (st\<lparr>STABLE_OK := STABLE_OK st + 1\<rparr>) = curve_successes st + 1"
  "curve_calls (st\<lparr>CRYPTO_OK := CRYPTO_OK st + 1\<rparr>) = curve_calls st + 1"
  "curve_successes (st\<lparr>CRYPTO_OK := CRYPTO_OK st + 1\<rparr>) = curve_successes st + 1"
  by (simp_all add: curve_calls_def curve_successes_def)

lemma record_stable_reject_counts:
  "curve_calls (record_stable_reject e st) = curve_calls st + 1
    \<and> curve_successes (record_stable_reject e st) = curve_successes st"
  by (cases e) (simp_all add: curve_calls_def curve_successes_def)

lemma record_crypto_reject_counts:
  "curve_calls (record_crypto_reject e st) = curve_calls st + 1
    \<and> curve_successes (record_crypto_reject e st) = curve_successes st"
  by (cases e) (simp_all add: curve_calls_def curve_successes_def)

text \<open>
  Every Curve hop quote is counted exactly once: a call on either Curve family adds one to the
  sum of the ten counters, and adds it to a success counter exactly when it returns an amount, which is
  then nonzero; any other protocol leaves the counters alone and returns nothing.
\<close>

theorem curve_hop_counted_once:
  assumes "curve_hop_amount_out pool protocol amount i j st = Some (r, st')"
  shows "if protocol = CurveStable \<or> protocol = CurveCrypto
    then curve_calls st' = curve_calls st + 1
      \<and> curve_successes st' = curve_successes st + (if r = None then 0 else 1) \<and> r \<noteq> Some 0
    else r = None \<and> st' = st"
proof (cases protocol)
  case CurveStable
  obtain y where res: "(r, st') = (case y of
      Inr out \<Rightarrow> if out \<noteq> 0 then (Some out, st\<lparr>STABLE_OK := STABLE_OK st + 1\<rparr>)
                 else (None, record_stable_reject SZeroOut st)
    | Inl reason \<Rightarrow> (None, record_stable_reject reason st))"
    using assms CurveStable unfolding curve_hop_amount_out_def
    by (simp add: Option.bind_eq_Some_conv) (metis (no_types, lifting))
  show ?thesis
    using res CurveStable
    by (cases y) (auto simp: record_ok_counts record_stable_reject_counts
        simp del: record_stable_reject.simps split: if_splits)
next
  case CurveCrypto
  obtain y where res: "(r, st') = (case y of
      Inr out \<Rightarrow> if out \<noteq> 0 then (Some out, st\<lparr>CRYPTO_OK := CRYPTO_OK st + 1\<rparr>)
                 else (None, record_crypto_reject CZeroOut st)
    | Inl reason \<Rightarrow> (None, record_crypto_reject reason st))"
    using assms CurveCrypto unfolding curve_hop_amount_out_def
    by (simp add: Option.bind_eq_Some_conv) (metis (no_types, lifting))
  show ?thesis
    using res CurveCrypto
    by (cases y) (auto simp: record_ok_counts record_crypto_reject_counts
        simp del: record_crypto_reject.simps split: if_splits)
qed (use assms in \<open>simp_all add: curve_hop_amount_out_def\<close>)

definition no_stats :: CurveStats where
  "no_stats = \<lparr>STABLE_OK = 0, STABLE_ZERO_OUT = 0, STABLE_D = 0, STABLE_Y = 0, STABLE_OTHER = 0,
     CRYPTO_OK = 0, CRYPTO_ZERO_OUT = 0, CRYPTO_NEWTON_D = 0, CRYPTO_NEWTON_Y = 0, CRYPTO_OTHER = 0\<rparr>"

theorem curve_hop_counted_once_witness:
  "\<exists>st'. curve_hop_amount_out sample_crypto_pool CurveCrypto 30000 0 1 no_stats = Some (Some 29985, st')
     \<and> curve_calls st' = curve_calls no_stats + 1"
proof -
  have "\<exists>st'. curve_hop_amount_out sample_crypto_pool CurveCrypto 30000 0 1 no_stats = Some (Some 29985, st')"
    unfolding curve_hop_amount_out_def by (simp add: sample_crypto_quote del: One_nat_def)
  then show ?thesis using curve_hop_counted_once by fastforce
qed

end
