(* ===== verification/SwapMath.thy ===== *)
theory SwapMath
  imports FullMath PoolTypes
begin

text \<open>
  Concentrated-liquidity price steps: \<open>src/core/math/sqrt_price_math.rs\<close> and
  \<open>src/core/math/swap_math.rs\<close>. The amounts and prices of one step at constant liquidity, with
  the rounding directions of the protocol. The theorems show that a step stays between the current
  and the target price, never consumes more than the remaining input, and never pays out more than
  the input is worth at the step's prices.
\<close>

section \<open>Square-root price arithmetic\<close>

definition Q96 :: u256 where "Q96 = push_bit 64 (push_bit 32 1)"

definition get_next_sqrt_price_from_amount0_rounding_up ::
    "u256 \<Rightarrow> u256 \<Rightarrow> u256 \<Rightarrow> bool \<Rightarrow> u256 option" where
  "get_next_sqrt_price_from_amount0_rounding_up sqrt_px96 liquidity amount add =
     (if amount = 0 then Some sqrt_px96
      else do {
        numerator1 \<leftarrow> checked_shl liquidity 96;
        if add then
          (case Option.bind (checked_mul amount sqrt_px96) (checked_add numerator1) of
             Some denominator \<Rightarrow> do {
               nxt \<leftarrow> mul_div_ceil numerator1 sqrt_px96 denominator;
               if nxt \<noteq> 0 then Some nxt else None
             }
           | None \<Rightarrow> do {
               \<comment> \<open>an overflowing product has a nonzero price, so this division does not panic\<close>
               nxt \<leftarrow> div_rounding_up numerator1 (numerator1 div sqrt_px96 + amount);
               if nxt \<noteq> 0 then Some nxt else None
             })
        else do {
          product \<leftarrow> checked_mul amount sqrt_px96;
          denominator \<leftarrow> checked_sub numerator1 product;
          nxt \<leftarrow> mul_div_ceil numerator1 sqrt_px96 denominator;
          if nxt \<noteq> 0 then Some nxt else None
        }
      })"

definition get_next_sqrt_price_from_amount1_rounding_down ::
    "u256 \<Rightarrow> u256 \<Rightarrow> u256 \<Rightarrow> bool \<Rightarrow> u256 option" where
  "get_next_sqrt_price_from_amount1_rounding_down sqrt_px96 liquidity amount add =
     (if liquidity = 0 then None
      else if add then do {
        quotient \<leftarrow> mul_div_floor amount Q96 liquidity;
        checked_add sqrt_px96 quotient
      } else do {
        quotient \<leftarrow> mul_div_ceil amount Q96 liquidity;
        checked_sub sqrt_px96 quotient
      })"

definition get_next_sqrt_price_from_input :: "u256 \<Rightarrow> u256 \<Rightarrow> u256 \<Rightarrow> bool \<Rightarrow> u256 option" where
  "get_next_sqrt_price_from_input sqrt_px96 liquidity amount_in zero_for_one =
     (if sqrt_px96 = 0 \<or> liquidity = 0 then None
      else if zero_for_one then
        get_next_sqrt_price_from_amount0_rounding_up sqrt_px96 liquidity amount_in True
      else get_next_sqrt_price_from_amount1_rounding_down sqrt_px96 liquidity amount_in True)"

definition get_amount0_delta :: "u256 \<Rightarrow> u256 \<Rightarrow> u256 \<Rightarrow> bool \<Rightarrow> u256 option" where
  "get_amount0_delta sqrt_ratio_a sqrt_ratio_b liquidity round_up =
     (let (a, b) = (if sqrt_ratio_a > sqrt_ratio_b then (sqrt_ratio_b, sqrt_ratio_a)
                    else (sqrt_ratio_a, sqrt_ratio_b))
      in if a = 0 then None
         else do {
           numerator1 \<leftarrow> checked_shl liquidity 96;
           let numerator2 = b - a;
           if round_up then do {
             inner \<leftarrow> mul_div_ceil numerator1 numerator2 b;
             div_rounding_up inner a
           } else do {
             inner \<leftarrow> mul_div_floor numerator1 numerator2 b;
             Some (inner div a)
           }
         })"

definition get_amount1_delta :: "u256 \<Rightarrow> u256 \<Rightarrow> u256 \<Rightarrow> bool \<Rightarrow> u256 option" where
  "get_amount1_delta sqrt_ratio_a sqrt_ratio_b liquidity round_up =
     (let (a, b) = (if sqrt_ratio_a > sqrt_ratio_b then (sqrt_ratio_b, sqrt_ratio_a)
                    else (sqrt_ratio_a, sqrt_ratio_b));
          delta = b - a
      in if round_up then mul_div_ceil liquidity delta Q96
         else mul_div_floor liquidity delta Q96)"

section \<open>One swap step\<close>

record SwapStepResult =
  sqrt_ratio_next_x96 :: u256
  step_amount_in :: u256
  step_amount_out :: u256
  step_fee_amount :: u256

definition compute_swap_step ::
    "u256 \<Rightarrow> u256 \<Rightarrow> u256 \<Rightarrow> u256 \<Rightarrow> u256 \<Rightarrow> SwapStepResult option" where
  "compute_swap_step sqrt_ratio_current sqrt_ratio_target liquidity amount_remaining fee_pips =
     (let zero_for_one = sqrt_ratio_current \<ge> sqrt_ratio_target in do {
        amount_remaining_less_fee \<leftarrow>
          mul_div amount_remaining (FEE_PIPS_SCALE - fee_pips) FEE_PIPS_SCALE;
        amount_in \<leftarrow>
          (if zero_for_one
           then get_amount0_delta sqrt_ratio_target sqrt_ratio_current liquidity True
           else get_amount1_delta sqrt_ratio_current sqrt_ratio_target liquidity True);
        sqrt_ratio_next \<leftarrow>
          (if amount_remaining_less_fee \<ge> amount_in then Some sqrt_ratio_target
           else get_next_sqrt_price_from_input sqrt_ratio_current liquidity
                  amount_remaining_less_fee zero_for_one);
        let target_reached = (sqrt_ratio_target = sqrt_ratio_next);
        actual_in \<leftarrow>
          (if target_reached then Some amount_in
           else if zero_for_one
           then get_amount0_delta sqrt_ratio_next sqrt_ratio_current liquidity True
           else get_amount1_delta sqrt_ratio_current sqrt_ratio_next liquidity True);
        actual_out \<leftarrow>
          (if zero_for_one
           then get_amount1_delta sqrt_ratio_next sqrt_ratio_current liquidity False
           else get_amount0_delta sqrt_ratio_current sqrt_ratio_next liquidity False);
        fee_amount \<leftarrow>
          (if target_reached
           then mul_div_rounding_up actual_in fee_pips (FEE_PIPS_SCALE - fee_pips)
           else Some (saturating_sub amount_remaining actual_in));
        Some \<lparr>sqrt_ratio_next_x96 = sqrt_ratio_next, step_amount_in = actual_in,
              step_amount_out = actual_out, step_fee_amount = fee_amount\<rparr>
      })"

section \<open>The deltas over the natural numbers\<close>

lemma unat_Q96: "unat Q96 = 2 ^ 96"
  by (simp add: Q96_def)

lemma Q96_nz: "Q96 \<noteq> 0"
  by (simp add: Q96_def)

text \<open>The deltas for an ordered pair of prices \<open>a \<le> b\<close> and liquidity \<open>L\<close>.\<close>

lemma amount0_delta_up_iff:
  assumes "a \<le> b"
  shows "get_amount0_delta a b L True = Some q \<Longrightarrow>
    0 < unat a \<and> unat q = ceil_div (unat L * 2 ^ 96 * (unat b - unat a)) (unat b * unat a)"
proof -
  assume "get_amount0_delta a b L True = Some q"
  then obtain n inner where "a \<noteq> 0" and n: "unat n = unat L * 2 ^ 96"
      and inner: "mul_div_ceil n (b - a) b = Some inner" and q: "div_rounding_up inner a = Some q"
    using assms by (auto simp: get_amount0_delta_def Let_def Option.bind_eq_Some_conv checked_shl_iff
        split: if_splits)
  then have "0 < unat a" and "0 < unat b"
    using assms by (auto simp: unat_gt_0)
  moreover have "unat inner = ceil_div (unat n * (unat b - unat a)) (unat b)"
    using inner assms by (simp add: mul_div_ceil_iff unat_sub_nowrap)
  ultimately show ?thesis
    using q n by (simp add: div_rounding_up_iff ceil_div_ceil_div)
qed

lemma amount0_delta_down_iff:
  assumes "a \<le> b"
  shows "get_amount0_delta a b L False = Some q \<Longrightarrow>
    0 < unat a \<and> unat q = unat L * 2 ^ 96 * (unat b - unat a) div (unat b * unat a)"
proof -
  assume "get_amount0_delta a b L False = Some q"
  then obtain n inner where "a \<noteq> 0" and n: "unat n = unat L * 2 ^ 96"
      and inner: "mul_div_floor n (b - a) b = Some inner" and q: "q = inner div a"
    using assms by (auto simp: get_amount0_delta_def Let_def Option.bind_eq_Some_conv checked_shl_iff
        split: if_splits)
  then have "0 < unat a" by (auto simp: unat_gt_0)
  moreover have "unat inner = unat n * (unat b - unat a) div unat b"
    using inner assms by (simp add: mul_div_floor_iff unat_sub_nowrap)
  ultimately show ?thesis
    using q n by (simp add: unat_div_word div_mult2_eq)
qed

lemma amount1_delta_up_iff:
  "a \<le> b \<Longrightarrow> get_amount1_delta a b L True = Some q \<longleftrightarrow>
    unat q = ceil_div (unat L * (unat b - unat a)) (2 ^ 96)"
  by (simp add: get_amount1_delta_def mul_div_ceil_iff Q96_nz unat_Q96 unat_sub_nowrap not_less [symmetric])

lemma amount1_delta_down_iff:
  "a \<le> b \<Longrightarrow> get_amount1_delta a b L False = Some q \<longleftrightarrow>
    unat q = unat L * (unat b - unat a) div 2 ^ 96"
  by (simp add: get_amount1_delta_def mul_div_floor_iff Q96_nz unat_Q96 unat_sub_nowrap not_less [symmetric])

section \<open>The next price\<close>

text \<open>
  Token 0 paid in, on the naturals: \<open>N = L * 2^96\<close>, current price \<open>p\<close>, amount \<open>x\<close>, and a target
  \<open>a\<close> that \<open>x\<close> is not enough to reach. Both formulas of the code lie strictly above the target, at
  most at the current price, and cost at most \<open>x\<close>.
\<close>

lemma next0_main_path:
  fixes N p x a :: nat
  assumes "0 < N + x * p" and "a \<le> p" and "x * a * p < N * (p - a)"
  defines "n \<equiv> ceil_div (N * p) (N + x * p)"
  shows "a < n" and "n \<le> p" and "N * p \<le> n * (N + x * p)"
proof -
  show "N * p \<le> n * (N + x * p)" using ceil_div_bounds [OF assms(1)] by (simp add: n_def)
  show "n \<le> p" unfolding n_def by (subst ceil_div_le_iff [OF assms(1)]) (simp add: algebra_simps)
  have "N * a + N * (p - a) = N * p" using assms(2) by (simp add: diff_mult_distrib2)
  then have "\<not> N * p \<le> a * (N + x * p)" using assms(3) by (simp add: algebra_simps)
  then show "a < n" unfolding n_def by (simp add: ceil_div_le_iff [OF assms(1)] flip: not_le)
qed

lemma next0_overflow_path:
  fixes N p x a :: nat
  assumes "0 < p" and "0 < x" and "a \<le> p" and "x * a * p < N * (p - a)"
  defines "n \<equiv> ceil_div N (N div p + x)"
  shows "a < n" and "n \<le> p" and "N * p \<le> n * (N + x * p)" and "(N div p + x) * a \<le> N"
proof -
  have D: "0 < N div p + x" using assms(2) by simp
  have np: "p * (N div p) \<le> N" by simp
  have lt: "a * (N div p + x) * p < N * p"
  proof -
    have "a * (N div p + x) * p = a * (p * (N div p)) + x * a * p" by (simp add: algebra_simps)
    also have "\<dots> < a * N + N * (p - a)" using assms(4) np by (intro add_le_less_mono mult_le_mono2)
    also have "\<dots> = N * p" using assms(3) by (simp add: diff_mult_distrib2 mult.commute)
    finally show ?thesis .
  qed
  then have lt': "a * (N div p + x) < N" by simp
  then show "(N div p + x) * a \<le> N" by (simp add: mult.commute)
  show "a < n" unfolding n_def using lt' by (simp add: ceil_div_le_iff [OF D] flip: not_le)
  have "N < p * (N div p + 1)"
    using assms(1) by (metis dividend_less_times_div mult.commute mult_Suc_right Suc_eq_plus1 add.commute)
  also have "\<dots> \<le> p * (N div p + x)" using assms(2) by (intro mult_le_mono2) simp
  finally show "n \<le> p" unfolding n_def by (subst ceil_div_le_iff [OF D]) simp
  have "N \<le> n * (N div p + x)" using ceil_div_bounds [OF D] by (simp add: n_def)
  then have "N * p \<le> n * (N div p + x) * p" by (rule mult_le_mono1)
  also have "\<dots> = n * (p * (N div p) + x * p)" by (simp add: algebra_simps)
  also have "\<dots> \<le> n * (N + x * p)" using np by (intro mult_le_mono2 add_le_mono1)
  finally show "N * p \<le> n * (N + x * p)" .
qed

lemma next_price0:
  assumes nx: "get_next_sqrt_price_from_amount0_rounding_up p L x True = Some n" and "p \<noteq> 0"
    and a: "a \<le> unat p" "0 < a" and short: "unat x * a * unat p < unat L * 2 ^ 96 * (unat p - a)"
  shows "a < unat n" and "n \<le> p"
    and "unat L * 2 ^ 96 * unat p \<le> unat n * (unat L * 2 ^ 96 + unat x * unat p)"
proof -
  let ?N = "unat L * 2 ^ 96" and ?p = "unat p" and ?x = "unat x"
  have p: "0 < ?p" using assms(2) by (rule unat_ne_0)
  have "a < unat n \<and> unat n \<le> ?p \<and> ?N * ?p \<le> unat n * (?N + ?x * ?p)"
  proof (cases "x = 0")
    case True
    then have "n = p" using nx by (simp add: get_next_sqrt_price_from_amount0_rounding_up_def)
    moreover have "a \<noteq> ?p" using short by auto
    ultimately show ?thesis using True a by simp
  next
    case False
    then have x: "0 < ?x" by (rule unat_ne_0)
    obtain n1 where n1: "unat n1 = ?N" and step:
        "(case Option.bind (checked_mul x p) (checked_add n1) of
           Some denominator \<Rightarrow> Option.bind (mul_div_ceil n1 p denominator) (\<lambda>nxt. if nxt \<noteq> 0 then Some nxt else None)
         | None \<Rightarrow> Option.bind (div_rounding_up n1 (n1 div p + x)) (\<lambda>nxt. if nxt \<noteq> 0 then Some nxt else None)) = Some n"
      using nx False
      by (auto simp: get_next_sqrt_price_from_amount0_rounding_up_def Option.bind_eq_Some_conv checked_shl_iff)
    show ?thesis
    proof (cases "Option.bind (checked_mul x p) (checked_add n1)")
      case (Some d)
      then have d: "unat d = ?N + ?x * ?p"
        by (auto simp: Option.bind_eq_Some_conv checked_iff n1)
      from Some step have "unat n = ceil_div (?N * ?p) (?N + ?x * ?p)"
        by (auto simp: Option.bind_eq_Some_conv mul_div_ceil_iff d n1 split: if_splits)
      then show ?thesis
        using next0_main_path [of ?N ?x ?p a] x p a short by simp
    next
      case None
      note path = next0_overflow_path [OF p x a(1) short]
      have "?N div ?p + ?x \<le> (?N div ?p + ?x) * a" using a(2) by simp
      with path(4) have "?N div ?p + ?x \<le> ?N" by (rule order_trans [rotated])
      moreover have "?N < 2 ^ 256" using unat_lt_256 [of n1] n1 by simp
      ultimately have "unat (n1 div p + x) = ?N div ?p + ?x"
        by (subst unat_add_nowrap) (simp_all add: unat_div_word n1)
      with None step have "unat n = ceil_div ?N (?N div ?p + ?x)"
        by (auto simp: Option.bind_eq_Some_conv div_rounding_up_iff n1 split: if_splits)
      then show ?thesis using path by simp
    qed
  qed
  then show "a < unat n" and "n \<le> p" and "?N * ?p \<le> unat n * (?N + ?x * ?p)"
    by (simp_all add: word_le_nat_alt)
qed

lemma next_price1:
  assumes "get_next_sqrt_price_from_amount1_rounding_down p L x True = Some n"
  shows "p \<le> n" and "unat L * (unat n - unat p) \<le> unat x * 2 ^ 96"
    and "unat x * 2 ^ 96 < unat L * (b - unat p) \<Longrightarrow> unat n < b"
proof -
  have n: "unat n = unat p + unat x * 2 ^ 96 div unat L"
    using assms by (auto simp: get_next_sqrt_price_from_amount1_rounding_down_def mul_div_floor_iff
        checked_iff Option.bind_eq_Some_conv unat_Q96 split: if_splits)
  show "p \<le> n" using n by (simp add: word_le_nat_alt)
  show le: "unat L * (unat n - unat p) \<le> unat x * 2 ^ 96" by (simp add: n)
  assume "unat x * 2 ^ 96 < unat L * (b - unat p)"
  with le have "unat L * (unat n - unat p) < unat L * (b - unat p)" by (rule order_le_less_trans)
  then have "unat n - unat p < b - unat p" by simp
  then show "unat n < b" by simp
qed

section \<open>The step\<close>

lemma fee_within_remaining:
  fixes x rem f S :: nat
  assumes "x \<le> rem * (S - f) div S" and "f < S"
  shows "x + ceil_div (x * f) (S - f) \<le> rem"
proof -
  have "x * S \<le> rem * (S - f)"
    using assms by (simp add: less_eq_div_iff_mult_less_eq)
  moreover have "x * S = x * f + x * (S - f)" using assms(2) by (simp add: diff_mult_distrib2)
  ultimately have le: "x * f + x * (S - f) \<le> rem * (S - f)" by simp
  then have "x * (S - f) \<le> rem * (S - f)" by linarith
  then have "x \<le> rem" using assms(2) by simp
  moreover have "ceil_div (x * f) (S - f) \<le> rem - x"
    using assms(2) le by (subst ceil_div_le_iff) (simp_all add: diff_mult_distrib)
  ultimately show ?thesis by linarith
qed

lemma fee_covers_rate:
  fixes x f S :: nat
  assumes "f < S"
  shows "x * S \<le> (x + ceil_div (x * f) (S - f)) * (S - f)"
proof -
  have "x * f \<le> ceil_div (x * f) (S - f) * (S - f)"
    using assms ceil_div_bounds [of "S - f"] by simp
  moreover have "x * S = x * (S - f) + x * f"
    using assms by (simp flip: add_mult_distrib2)
  ultimately show ?thesis by (simp add: add_mult_distrib)
qed

lemma remainder_covers_rate:
  fixes x rem f S :: nat
  assumes "x \<le> rem * (S - f) div S" and "x + fee = rem" and "f < S"
  shows "x * S \<le> (x + fee) * (S - f)"
proof -
  have "x * S \<le> rem * (S - f) div S * S" using assms(1) by (rule mult_le_mono1)
  also have "\<dots> \<le> rem * (S - f)" by simp
  finally show ?thesis using assms(2) by simp
qed

lemma unat_fee_scale: "unat FEE_PIPS_SCALE = 1000000"
  by (simp add: FEE_PIPS_SCALE_def)

lemma less_fee_le:
  assumes "mul_div rem (FEE_PIPS_SCALE - f) FEE_PIPS_SCALE = Some lf" and "f < FEE_PIPS_SCALE"
  shows "unat lf = unat rem * (1000000 - unat f) div 1000000" and "unat lf \<le> unat rem"
proof -
  show "unat lf = unat rem * (1000000 - unat f) div 1000000"
    using assms by (simp add: mul_div_iff unat_sub_nowrap unat_fee_scale less_imp_le)
  then show "unat lf \<le> unat rem" by (simp add: mul_div_le_self)
qed

text \<open>
  What a step of either direction guarantees, with the exact input of the price move:
  \<open>cost0\<close> and \<open>cost1\<close> round the amount of token 0 and token 1 up, \<open>pay0\<close> and \<open>pay1\<close> down.
\<close>

definition cost0 :: "nat \<Rightarrow> nat \<Rightarrow> nat \<Rightarrow> nat" where
  "cost0 L a b = ceil_div (L * 2 ^ 96 * (b - a)) (b * a)"
definition pay0 :: "nat \<Rightarrow> nat \<Rightarrow> nat \<Rightarrow> nat" where
  "pay0 L a b = L * 2 ^ 96 * (b - a) div (b * a)"
definition cost1 :: "nat \<Rightarrow> nat \<Rightarrow> nat \<Rightarrow> nat" where
  "cost1 L a b = ceil_div (L * (b - a)) (2 ^ 96)"
definition pay1 :: "nat \<Rightarrow> nat \<Rightarrow> nat \<Rightarrow> nat" where
  "pay1 L a b = L * (b - a) div 2 ^ 96"

lemmas delta_defs = cost0_def pay0_def cost1_def pay1_def

lemma swap_step_zero_for_one:
  assumes step: "compute_swap_step cur tgt L rem f = Some s" and dir: "tgt \<le> cur"
    and fee: "f < FEE_PIPS_SCALE"
  defines "n \<equiv> sqrt_ratio_next_x96 s"
  shows "tgt \<le> n \<and> n \<le> cur \<and> 0 < unat n
    \<and> unat (step_amount_in s) = cost0 (unat L) (unat n) (unat cur)
    \<and> unat (step_amount_out s) = pay1 (unat L) (unat n) (unat cur)
    \<and> unat (step_amount_in s) + unat (step_fee_amount s) \<le> unat rem
    \<and> (n \<noteq> tgt \<longrightarrow> unat (step_amount_in s) + unat (step_fee_amount s) = unat rem)
    \<and> unat (step_amount_in s) * 1000000
        \<le> (unat (step_amount_in s) + unat (step_fee_amount s)) * (1000000 - unat f)"
proof -
  have d: "(tgt \<le> cur) = True" using dir by simp
  obtain lf ain nx ac out fa where
      lf: "mul_div rem (FEE_PIPS_SCALE - f) FEE_PIPS_SCALE = Some lf"
    and ain: "get_amount0_delta tgt cur L True = Some ain"
    and nx: "(if ain \<le> lf then Some tgt else get_next_sqrt_price_from_input cur L lf True) = Some nx"
    and ac: "(if tgt = nx then Some ain else get_amount0_delta nx cur L True) = Some ac"
    and out: "get_amount1_delta nx cur L False = Some out"
    and fa: "(if tgt = nx then mul_div_rounding_up ac f (FEE_PIPS_SCALE - f)
              else Some (saturating_sub rem ac)) = Some fa"
    and s: "\<lparr>sqrt_ratio_next_x96 = nx, step_amount_in = ac, step_amount_out = out, step_fee_amount = fa\<rparr> = s"
    using step unfolding compute_swap_step_def Let_def d
    by (simp only: if_True if_False simp_thms Option.bind_eq_Some_conv option.inject) blast
  note lf' = less_fee_le [OF lf fee]
  have f: "unat f < 1000000" using fee by (simp add: word_less_nat_alt unat_fee_scale)
  have a: "0 < unat tgt" and ain': "unat ain = cost0 (unat L) (unat tgt) (unat cur)"
    using amount0_delta_up_iff [OF dir ain] by (simp_all add: cost0_def)
  show ?thesis
  proof (cases "ain \<le> lf")
    case True
    with nx have n: "nx = tgt" by simp
    have "unat out = pay1 (unat L) (unat tgt) (unat cur)"
      using out n by (simp add: amount1_delta_down_iff [OF dir] pay1_def)
    moreover have "unat fa = ceil_div (unat ain * unat f) (1000000 - unat f)"
      using fa ac n fee
      by (simp add: mul_div_rounding_up_eq mul_div_ceil_iff unat_sub_nowrap unat_fee_scale less_imp_le)
    moreover have "unat ain + ceil_div (unat ain * unat f) (1000000 - unat f) \<le> unat rem"
      using True lf'(1) fee
      by (intro fee_within_remaining) (simp_all add: word_le_nat_alt word_less_nat_alt unat_fee_scale)
    ultimately show ?thesis
      using n ac dir a ain' fee_covers_rate [OF f, of "unat ain"] by (simp add: n_def flip: s)
  next
    case False
    then have nxt: "cur \<noteq> 0" "get_next_sqrt_price_from_amount0_rounding_up cur L lf True = Some nx"
      using nx by (auto simp: get_next_sqrt_price_from_input_def split: if_splits)
    have "\<not> cost0 (unat L) (unat tgt) (unat cur) \<le> unat lf"
      using False ain' by (simp add: word_le_nat_alt)
    then have "unat lf * unat tgt * unat cur < unat L * 2 ^ 96 * (unat cur - unat tgt)"
      using a nxt(1) by (simp add: cost0_def ceil_div_le_iff unat_gt_0 ac_simps)
    note nb = next_price0 [OF nxt(2,1) _ a this]
    have tgt_le: "unat tgt \<le> unat cur" using dir by (simp add: word_le_nat_alt)
    have n: "unat tgt < unat nx" "nx \<le> cur" using nb tgt_le by simp_all
    then have ne: "tgt \<noteq> nx" and n0: "0 < unat nx" by auto
    have ac': "unat ac = cost0 (unat L) (unat nx) (unat cur)"
      using ac ne amount0_delta_up_iff [OF n(2), of L ac] by (simp add: cost0_def)
    have "unat ac \<le> unat lf"
    proof -
      have "unat L * 2 ^ 96 * (unat cur - unat nx) + unat L * 2 ^ 96 * unat nx = unat L * 2 ^ 96 * unat cur"
        using n(2) by (simp add: word_le_nat_alt diff_mult_distrib2)
      then have "unat L * 2 ^ 96 * (unat cur - unat nx) \<le> unat lf * (unat cur * unat nx)"
        using nb(3) tgt_le by (simp add: algebra_simps)
      then show ?thesis
        using n0 nxt(1) by (simp add: ac' cost0_def ceil_div_le_iff unat_gt_0)
    qed
    then have "unat fa = unat rem - unat ac" and "unat ac \<le> unat rem"
      using fa ne lf'(2) by (auto simp: unat_saturating_sub)
    moreover have "unat out = pay1 (unat L) (unat nx) (unat cur)"
      using out by (simp add: amount1_delta_down_iff [OF n(2)] pay1_def)
    moreover have "unat ac * 1000000 \<le> (unat ac + unat fa) * (1000000 - unat f)"
      using calculation \<open>unat ac \<le> unat lf\<close> lf'(1) f by (intro remainder_covers_rate [of _ "unat rem"]) simp_all
    ultimately show ?thesis
      using n n0 ac' by (simp add: n_def word_le_nat_alt flip: s)
  qed
qed

lemma swap_step_one_for_zero:
  assumes step: "compute_swap_step cur tgt L rem f = Some s" and dir: "cur < tgt"
    and fee: "f < FEE_PIPS_SCALE"
  defines "n \<equiv> sqrt_ratio_next_x96 s"
  shows "cur \<le> n \<and> n \<le> tgt \<and> 0 < unat cur
    \<and> unat (step_amount_in s) = cost1 (unat L) (unat cur) (unat n)
    \<and> unat (step_amount_out s) = pay0 (unat L) (unat cur) (unat n)
    \<and> unat (step_amount_in s) + unat (step_fee_amount s) \<le> unat rem
    \<and> (n \<noteq> tgt \<longrightarrow> unat (step_amount_in s) + unat (step_fee_amount s) = unat rem)
    \<and> unat (step_amount_in s) * 1000000
        \<le> (unat (step_amount_in s) + unat (step_fee_amount s)) * (1000000 - unat f)"
proof -
  have d: "(tgt \<le> cur) = False" using dir by simp
  obtain lf ain nx ac out fa where
      lf: "mul_div rem (FEE_PIPS_SCALE - f) FEE_PIPS_SCALE = Some lf"
    and ain: "get_amount1_delta cur tgt L True = Some ain"
    and nx: "(if ain \<le> lf then Some tgt else get_next_sqrt_price_from_input cur L lf False) = Some nx"
    and ac: "(if tgt = nx then Some ain else get_amount1_delta cur nx L True) = Some ac"
    and out: "get_amount0_delta cur nx L False = Some out"
    and fa: "(if tgt = nx then mul_div_rounding_up ac f (FEE_PIPS_SCALE - f)
              else Some (saturating_sub rem ac)) = Some fa"
    and s: "\<lparr>sqrt_ratio_next_x96 = nx, step_amount_in = ac, step_amount_out = out, step_fee_amount = fa\<rparr> = s"
    using step unfolding compute_swap_step_def Let_def d
    by (simp only: if_True if_False simp_thms Option.bind_eq_Some_conv option.inject) blast
  note lf' = less_fee_le [OF lf fee]
  have f: "unat f < 1000000" using fee by (simp add: word_less_nat_alt unat_fee_scale)
  have ain': "unat ain = cost1 (unat L) (unat cur) (unat tgt)"
    using ain dir by (simp add: amount1_delta_up_iff cost1_def)
  show ?thesis
  proof (cases "ain \<le> lf")
    case True
    with nx have n: "nx = tgt" by simp
    have out': "0 < unat cur \<and> unat out = pay0 (unat L) (unat cur) (unat tgt)"
      using out n dir amount0_delta_down_iff [of cur tgt L out] by (simp add: pay0_def)
    moreover have "unat fa = ceil_div (unat ain * unat f) (1000000 - unat f)"
      using fa ac n fee
      by (simp add: mul_div_rounding_up_eq mul_div_ceil_iff unat_sub_nowrap unat_fee_scale less_imp_le)
    moreover have "unat ain + ceil_div (unat ain * unat f) (1000000 - unat f) \<le> unat rem"
      using True lf'(1) fee
      by (intro fee_within_remaining) (simp_all add: word_le_nat_alt word_less_nat_alt unat_fee_scale)
    ultimately show ?thesis
      using n ac dir ain' fee_covers_rate [OF f, of "unat ain"] by (simp add: n_def flip: s)
  next
    case False
    then have nxt: "get_next_sqrt_price_from_amount1_rounding_down cur L lf True = Some nx"
      using nx by (auto simp: get_next_sqrt_price_from_input_def split: if_splits)
    have "\<not> cost1 (unat L) (unat cur) (unat tgt) \<le> unat lf"
      using False ain' by (simp add: word_le_nat_alt)
    then have "unat lf * 2 ^ 96 < unat L * (unat tgt - unat cur)"
      by (simp add: cost1_def ceil_div_le_iff)
    then have n: "unat nx < unat tgt" "cur \<le> nx" and le: "unat L * (unat nx - unat cur) \<le> unat lf * 2 ^ 96"
      using next_price1 [OF nxt] by simp_all
    then have ne: "tgt \<noteq> nx" by auto
    have ac': "unat ac = cost1 (unat L) (unat cur) (unat nx)"
      using ac ne by (simp add: amount1_delta_up_iff [OF n(2)] cost1_def)
    have "unat ac \<le> unat lf"
      using le by (simp add: ac' cost1_def ceil_div_le_iff)
    then have "unat fa = unat rem - unat ac" and "unat ac \<le> unat rem"
      using fa ne lf'(2) by (auto simp: unat_saturating_sub)
    moreover have "0 < unat cur \<and> unat out = pay0 (unat L) (unat cur) (unat nx)"
      using out amount0_delta_down_iff [OF n(2), of L out] by (simp add: pay0_def)
    moreover have "unat ac * 1000000 \<le> (unat ac + unat fa) * (1000000 - unat f)"
      using calculation \<open>unat ac \<le> unat lf\<close> lf'(1) f by (intro remainder_covers_rate [of _ "unat rem"]) simp_all
    ultimately show ?thesis
      using n ac' by (simp add: n_def word_le_nat_alt flip: s)
  qed
qed

section \<open>Properties\<close>

text \<open>
  One swap step, in either direction and for any liquidity: the new price lies between
  the current and the target price; input plus fee never exceeds the remaining amount; and a step
  that stops short of its target consumes exactly the remaining amount, so the saturating
  subtraction of the fee never saturates.
\<close>

theorem swap_step_consumes_at_most_remaining:
  assumes "compute_swap_step cur tgt L rem f = Some s" and "f < FEE_PIPS_SCALE"
  shows "min cur tgt \<le> sqrt_ratio_next_x96 s \<and> sqrt_ratio_next_x96 s \<le> max cur tgt
    \<and> unat (step_amount_in s) + unat (step_fee_amount s) \<le> unat rem
    \<and> (sqrt_ratio_next_x96 s \<noteq> tgt \<longrightarrow>
        unat (step_amount_in s) + unat (step_fee_amount s) = unat rem)"
proof (cases "tgt \<le> cur")
  case True
  with swap_step_zero_for_one [OF assms(1) True assms(2)] show ?thesis
    by (auto simp: min_def max_def)
next
  case False
  then have "cur < tgt" by simp
  with swap_step_one_for_zero [OF assms(1) this assms(2)] show ?thesis
    by (auto simp: min_def max_def)
qed

theorem swap_step_consumes_at_most_remaining_witness:
  "\<exists>s. compute_swap_step (2 ^ 96) (2 ^ 95) 1000000 1000 3000 = Some s \<and> (3000 :: u256) < FEE_PIPS_SCALE
    \<and> unat (step_amount_in s) + unat (step_fee_amount s) \<le> unat (1000 :: u256)"
proof -
  have "\<exists>s. compute_swap_step (2 ^ 96) (2 ^ 95) 1000000 1000 3000 = Some s"
    by (simp add: compute_swap_step_def mul_div_def mul_div_floor_def mul_div_ceil_def checked_defs
        get_amount0_delta_def get_amount1_delta_def get_next_sqrt_price_from_input_def div_rounding_up_def
        get_next_sqrt_price_from_amount0_rounding_up_def FEE_PIPS_SCALE_def Q96_def Let_def)
  moreover have "(3000 :: u256) < FEE_PIPS_SCALE" by (simp add: FEE_PIPS_SCALE_def)
  ultimately show ?thesis
    using swap_step_consumes_at_most_remaining by blast
qed

text \<open>
  Property C16. No step pays out more than its input is worth at the step's own prices: with
  \<open>P = (sqrt_cur * sqrt_next) / 2^192\<close> the geometric-mean price, the token-1 output is at most the
  token-0 input times \<open>P\<close>, and the token-0 output times \<open>P\<close> at most the token-1 input. Rounding always
  favours the pool.
\<close>

theorem swap_step_no_free_lunch:
  assumes "compute_swap_step cur tgt L rem f = Some s" and "f < FEE_PIPS_SCALE"
  shows "if tgt \<le> cur
    then unat (step_amount_out s) * 2 ^ 192
           \<le> unat (step_amount_in s) * (unat cur * unat (sqrt_ratio_next_x96 s))
    else unat (step_amount_out s) * (unat cur * unat (sqrt_ratio_next_x96 s))
           \<le> unat (step_amount_in s) * 2 ^ 192"
proof (cases "tgt \<le> cur")
  case True
  let ?n = "unat (sqrt_ratio_next_x96 s)" and ?p = "unat cur" and ?L = "unat L"
  note st = swap_step_zero_for_one [OF assms(1) True assms(2)]
  have "0 < ?p * ?n" using st by (auto simp: word_le_nat_alt)
  then have "?L * 2 ^ 96 * (?p - ?n) \<le> unat (step_amount_in s) * (?p * ?n)"
    using st ceil_div_bounds [of "?p * ?n"] by (simp add: cost0_def)
  moreover have "unat (step_amount_out s) * 2 ^ 96 \<le> ?L * (?p - ?n)"
    using st by (simp add: pay1_def)
  then have "unat (step_amount_out s) * 2 ^ 96 * 2 ^ 96 \<le> ?L * (?p - ?n) * 2 ^ 96"
    by (rule mult_le_mono1)
  ultimately show ?thesis using True by (simp add: ac_simps)
next
  case False
  let ?n = "unat (sqrt_ratio_next_x96 s)" and ?p = "unat cur" and ?L = "unat L"
  have "cur < tgt" using False by simp
  note st = swap_step_one_for_zero [OF assms(1) this assms(2)]
  have "?L * (?n - ?p) \<le> unat (step_amount_in s) * 2 ^ 96"
    using st ceil_div_bounds [of "2 ^ 96"] by (simp add: cost1_def)
  then have "?L * (?n - ?p) * 2 ^ 96 \<le> unat (step_amount_in s) * 2 ^ 96 * 2 ^ 96"
    by (rule mult_le_mono1)
  moreover have "unat (step_amount_out s) * (?n * ?p) \<le> ?L * 2 ^ 96 * (?n - ?p)"
    using st by (simp add: pay0_def)
  ultimately show ?thesis using False by (simp add: ac_simps)
qed

theorem swap_step_no_free_lunch_witness:
  "\<exists>s. compute_swap_step (2 ^ 96) (2 ^ 97) 1000000 1000 3000 = Some s \<and> (3000 :: u256) < FEE_PIPS_SCALE
    \<and> unat (step_amount_out s) * (unat ((2 :: u256) ^ 96) * unat (sqrt_ratio_next_x96 s))
           \<le> unat (step_amount_in s) * 2 ^ 192"
proof -
  have "\<exists>s. compute_swap_step (2 ^ 96) (2 ^ 97) 1000000 1000 3000 = Some s"
    by (simp add: compute_swap_step_def mul_div_def mul_div_floor_def mul_div_ceil_def checked_defs
        get_amount0_delta_def get_amount1_delta_def get_next_sqrt_price_from_input_def
        get_next_sqrt_price_from_amount1_rounding_down_def FEE_PIPS_SCALE_def Q96_def Let_def)
  then obtain s where s: "compute_swap_step (2 ^ 96) (2 ^ 97) 1000000 1000 3000 = Some s" by blast
  moreover have "(3000 :: u256) < FEE_PIPS_SCALE" by (simp add: FEE_PIPS_SCALE_def)
  ultimately show ?thesis
    using swap_step_no_free_lunch [OF s] by auto
qed

end
