(* ===== verification/V4Storage.thy ===== *)
theory V4Storage
  imports Prelude
begin

text \<open>
  Uniswap V4 storage words: \<open>src/core/v4_storage.rs\<close> and \<open>sign_extend_tick24\<close> of
  \<open>src/util.rs\<close>. The Keccak hash is code outside the repository, so it is a parameter of the slot
  computations. Byte strings are lists of 8-bit words, most significant byte first.
\<close>

section \<open>The code\<close>

definition V4_LIQUIDITY_OFFSET :: u64 where "V4_LIQUIDITY_OFFSET = 3"
definition V4_TICKS_OFFSET :: u64 where "V4_TICKS_OFFSET = 4"
definition V4_TICK_BITMAP_OFFSET :: u64 where "V4_TICK_BITMAP_OFFSET = 5"

record DecodedV4Slot0 =
  s0_sqrt_price_x96 :: u256
  s0_tick :: int
  s0_protocol_fee :: u32
  s0_lp_fee :: u32

text \<open>\<open>n\<close> big-endian bytes of a word.\<close>

definition be_bytes :: "nat \<Rightarrow> 'a::len word \<Rightarrow> u8 list" where
  "be_bytes n w = map (\<lambda>i. ucast (drop_bit (8 * (n - 1 - i)) w)) [0..<n]"

definition compute_v4_pool_field_slot :: "(u8 list \<Rightarrow> u256) \<Rightarrow> u256 \<Rightarrow> u64 \<Rightarrow> u256" where
  "compute_v4_pool_field_slot keccak256 pool_id offset =
     (let buf = be_bytes 32 pool_id @ replicate 28 0 @ be_bytes 4 (6 :: u32);
          base = keccak256 buf
      in (base + ucast offset) AND (- 1))"

definition decode_v4_slot0 :: "u256 \<Rightarrow> DecodedV4Slot0" where
  "decode_v4_slot0 raw =
     (let m = (0xffffff :: u256);
          sqrt_price_x96 = raw AND (2 ^ 160 - 1);
          tick_u = (ucast (drop_bit 160 raw AND m) :: u32);
          tick = wrap_i32 (sint tick_u - (if tick_u \<ge> 0x800000 then 0x1000000 else 0));
          protocol_fee = (ucast (drop_bit 184 raw AND m) :: u32);
          lp_fee = (ucast (drop_bit 208 raw AND m) :: u32)
      in \<lparr>s0_sqrt_price_x96 = sqrt_price_x96, s0_tick = tick,
          s0_protocol_fee = protocol_fee, s0_lp_fee = lp_fee\<rparr>)"

definition v4_direction_protocol_fee_pips :: "u32 \<Rightarrow> bool \<Rightarrow> u32" where
  "v4_direction_protocol_fee_pips protocol_fee zero_for_one =
     (if zero_for_one then protocol_fee AND 0xfff else drop_bit 12 protocol_fee AND 0xfff)"

definition v4_combined_swap_fee_pips :: "u32 \<Rightarrow> u32 \<Rightarrow> u32" where
  "v4_combined_swap_fee_pips protocol_fee_pips lp_fee_pips =
     (if protocol_fee_pips = 0 then lp_fee_pips
      else let proto = (ucast protocol_fee_pips :: u64); lp = (ucast lp_fee_pips :: u64)
           in ucast (proto + lp - (proto * lp) div 1000000))"

definition decode_v4_liquidity :: "u256 \<Rightarrow> u128" where
  "decode_v4_liquidity raw = ucast (raw AND (2 ^ 128 - 1))"

definition decode_v4_tick_liquidity :: "u256 \<Rightarrow> u128 \<times> int" where
  "decode_v4_tick_liquidity raw =
     (let liquidity_gross = (ucast (raw AND (2 ^ 128 - 1)) :: u128);
          liquidity_net = sint (ucast (drop_bit 128 raw) :: u128)
      in (liquidity_gross, liquidity_net))"

definition sign_extend_i16 :: "int \<Rightarrow> u8 list" where
  "sign_extend_i16 value =
     replicate 30 (if value < 0 then 0xff else 0) @ be_bytes 2 (of_int value :: 16 word)"

definition sign_extend_i24 :: "int \<Rightarrow> u8 list" where
  "sign_extend_i24 value =
     replicate 29 (if value < 0 then 0xff else 0) @ drop 1 (be_bytes 4 (of_int value :: u32))"

definition mapping_slot :: "(u8 list \<Rightarrow> u256) \<Rightarrow> u8 list \<Rightarrow> u256 \<Rightarrow> u256" where
  "mapping_slot keccak256 key mapping_base = keccak256 (key @ be_bytes 32 mapping_base)"

definition compute_v4_tick_bitmap_slot :: "(u8 list \<Rightarrow> u256) \<Rightarrow> u256 \<Rightarrow> int \<Rightarrow> u256" where
  "compute_v4_tick_bitmap_slot keccak256 pool_id wrd =
     (let mapping_base = compute_v4_pool_field_slot keccak256 pool_id V4_TICK_BITMAP_OFFSET
      in mapping_slot keccak256 (sign_extend_i16 wrd) mapping_base)"

definition compute_v4_tick_info_slot :: "(u8 list \<Rightarrow> u256) \<Rightarrow> u256 \<Rightarrow> int \<Rightarrow> u256" where
  "compute_v4_tick_info_slot keccak256 pool_id tick =
     (let mapping_base = compute_v4_pool_field_slot keccak256 pool_id V4_TICKS_OFFSET
      in mapping_slot keccak256 (sign_extend_i24 tick) mapping_base)"

definition sign_extend_tick24 :: "u256 \<Rightarrow> int" where
  "sign_extend_tick24 tick_word =
     (let tick_raw = (ucast (tick_word AND 0xFFFFFF) :: u32)
      in if tick_raw AND 0x800000 \<noteq> 0 then sint (tick_raw OR NOT 0xFFFFFF) else sint tick_raw)"

section \<open>Fees\<close>

lemma and_mask_bound: "unat (x AND (mask k :: 'a::len word)) < 2 ^ k"
  by (metis take_bit_eq_mask take_bit_nat_less_exp unsigned_take_bit_eq)

lemma direction_fee_bound: "unat (v4_direction_protocol_fee_pips pf zfo) < 4096"
  using and_mask_bound [of pf 12] and_mask_bound [of "drop_bit 12 pf" 12]
  by (simp add: v4_direction_protocol_fee_pips_def mask_eq_exp_minus_1)

lemma combined_fee_nat:
  fixes p l :: nat
  assumes "p \<le> 1000000" and "l \<le> 1000000"
  shows "p \<le> p + l - p * l div 1000000" and "l \<le> p + l - p * l div 1000000"
    and "p + l - p * l div 1000000 \<le> 1000000"
proof -
  have pl: "p * l div 1000000 \<le> l" "p * l div 1000000 \<le> p"
    using assms mul_div_le_self [of p 1000000 l] mul_div_le_self [of l 1000000 p]
    by (simp_all add: mult.commute)
  then show "p \<le> p + l - p * l div 1000000" and "l \<le> p + l - p * l div 1000000" by simp_all
  have "(1000000 - p) * (1000000 - l) + p * 1000000 + l * 1000000 = 1000000 * 1000000 + p * l"
  proof -
    obtain a b where ab: "1000000 = p + a" "1000000 = l + b"
      using assms by (metis le_Suc_ex)
    then have "1000000 - p = a" "1000000 - l = b" by simp_all
    moreover have "a * b + p * (l + b) + l * (p + a) = (p + a) * (l + b) + p * l"
      by (simp add: algebra_simps)
    ultimately show ?thesis using ab by metis
  qed
  then have "(p + l) * 1000000 \<le> 1000000 * 1000000 + p * l" by (simp add: algebra_simps)
  moreover have "p * l < (p * l div 1000000 + 1) * 1000000"
    by (simp add: dividend_less_div_times)
  ultimately have "(p + l) * 1000000 < (1000000 + p * l div 1000000 + 1) * 1000000"
    by (simp add: algebra_simps)
  then have "p + l < 1000000 + p * l div 1000000 + 1" by simp
  then show "p + l - p * l div 1000000 \<le> 1000000" by simp
qed

lemma unat_combined_fee:
  assumes "unat p \<le> 1000000" and "unat l \<le> 1000000"
  shows "unat (v4_combined_swap_fee_pips p l) = unat p + unat l - unat p * unat l div 1000000"
proof (cases "p = 0")
  case True
  then show ?thesis by (simp add: v4_combined_swap_fee_pips_def)
next
  case False
  let ?p = "ucast p :: u64" and ?l = "ucast l :: u64"
  have c: "unat ?p = unat p" "unat ?l = unat l"
    using assms by (simp_all add: unsigned_ucast_eq take_bit_nat_eq_self)
  have "unat p * unat l \<le> 1000000 * 1000000" using assms by (rule mult_le_mono)
  then have m: "unat (?p * ?l div 1000000) = unat p * unat l div 1000000"
    using c by (simp add: unat_div_word unat_mult_nowrap)
  have s: "unat (?p + ?l) = unat p + unat l"
    using c assms by (simp add: unat_add_nowrap)
  have "unat p * unat l div 1000000 \<le> unat p + unat l"
    using combined_fee_nat(1) [OF assms] mul_div_le_self [of "unat l" 1000000 "unat p"] assms by simp
  then have "unat (?p + ?l - ?p * ?l div 1000000) = unat p + unat l - unat p * unat l div 1000000"
    by (subst unat_sub_nowrap) (simp_all add: word_le_nat_alt m s)
  then show ?thesis
    using False combined_fee_nat(3) [OF assms]
    by (simp add: v4_combined_swap_fee_pips_def Let_def unsigned_ucast_eq take_bit_nat_eq_self)
qed

text \<open>
  The combined V4 swap fee of a directional protocol fee and an LP fee of at most 100\%
  is at least either component and never exceeds 100\%, so it never wraps and never makes the
  fee-complement of the swap step negative.
\<close>

theorem v4_combined_fee_bounds:
  assumes "unat lp \<le> 1000000"
  shows "let p = v4_direction_protocol_fee_pips pf zfo; c = v4_combined_swap_fee_pips p lp
     in p \<le> c \<and> lp \<le> c \<and> unat c \<le> 1000000"
proof -
  have "unat (v4_direction_protocol_fee_pips pf zfo) \<le> 1000000"
    using direction_fee_bound [of pf zfo] by simp
  with assms show ?thesis
    using combined_fee_nat [of "unat (v4_direction_protocol_fee_pips pf zfo)" "unat lp"]
    by (simp add: Let_def word_le_nat_alt unat_combined_fee)
qed

theorem v4_combined_fee_bounds_witness:
  "unat (3000 :: u32) \<le> 1000000 \<and>
   (let p = v4_direction_protocol_fee_pips 0x123050 True; c = v4_combined_swap_fee_pips p 3000
     in p \<le> c \<and> 3000 \<le> c \<and> unat c \<le> 1000000)"
  using v4_combined_fee_bounds [where lp = 3000 and pf = "0x123050" and zfo = True] by simp

section \<open>Ticks in storage words\<close>

lemma sint_wrap32: "sint (x :: u32) = wrap_i32 (uint x)"
  using int_word_sint [of "uint x", where 'a = 32] by (simp add: wrap_signed_def)

lemma uint_and_24: "uint (w AND 0xFFFFFF :: u256) = uint w mod 2 ^ 24"
proof -
  have "(0xFFFFFF :: u256) = mask 24" by (simp add: mask_eq_exp_minus_1)
  then have "w AND 0xFFFFFF = take_bit 24 w" by (simp only: take_bit_eq_mask)
  then show ?thesis by (simp only: unsigned_take_bit_eq take_bit_eq_mod [where 'a = int])
qed

lemma uint_tick_raw: "uint (ucast (w AND 0xFFFFFF :: u256) :: u32) = uint w mod 2 ^ 24"
proof -
  have "uint w mod 2 ^ 24 < 2 ^ 32"
    by (rule order_less_le_trans [OF pos_mod_bound]) simp_all
  then show ?thesis
    by (simp only: unsigned_ucast_eq uint_and_24 take_bit_eq_mod) (simp add: mod_pos_pos_trivial)
qed

lemma uint_of_int_mod_24: "uint (of_int t :: u256) mod 2 ^ 24 = t mod 2 ^ 24"
  by (simp add: uint_word_of_int mod_mod_cancel)

text \<open>The high bits set by the sign extension subtract \<open>2^24\<close>.\<close>

lemma or_high_bits:
  assumes "uint (x :: u32) < 2 ^ 24" shows "x OR - 16777216 = x - 16777216"
proof -
  have x: "take_bit 24 x = x"
    using assms by (intro word_uint_eqI) (simp only: unsigned_take_bit_eq take_bit_int_eq_self_iff uint_ge_0 simp_thms)
  have m: "(- 16777216 :: u32) = NOT (mask 24)" by (simp add: mask_eq_exp_minus_1)
  have "take_bit 24 x AND NOT (mask 24) = 0"
    by (simp only: take_bit_eq_mask and.assoc bit.conj_cancel_right bit.conj_zero_right)
  then have z: "x AND NOT (mask 24) = 0" by (simp only: x)
  have "x OR - 16777216 = x + - 16777216"
    using word_plus_and_or [of x "NOT (mask 24)"] by (simp only: m z add_0)
  then show ?thesis by simp
qed

lemma bit_23_iff: "uint (x :: u32) < 2 ^ 24 \<Longrightarrow> x AND 0x800000 \<noteq> 0 \<longleftrightarrow> 2 ^ 23 \<le> uint x"
proof -
  assume lt: "uint x < 2 ^ 24"
  have "x AND 0x800000 \<noteq> 0 \<longleftrightarrow> bit x 23"
    using and_exp_eq_0_iff_not_bit [of x 23] by simp
  also have "\<dots> \<longleftrightarrow> odd (uint x div 2 ^ 23)"
  proof -
    have "bit x 23 \<longleftrightarrow> bit (uint x) 23" by (simp add: bit_uint_iff)
    then show ?thesis by (simp only: bit_iff_odd [of "uint x"])
  qed
  also have "\<dots> \<longleftrightarrow> 2 ^ 23 \<le> uint x"
  proof -
    have "0 \<le> uint x div 2 ^ 23" and "uint x div 2 ^ 23 < 2"
      using lt by (simp_all add: div_less_iff_less_mult pos_imp_zdiv_nonneg_iff)
    moreover have "odd n \<longleftrightarrow> 1 \<le> n" if "0 \<le> n" "n < 2" for n :: int
      using that by presburger
    ultimately have "odd (uint x div 2 ^ 23) \<longleftrightarrow> 1 \<le> uint x div 2 ^ 23" by blast
    then show ?thesis by (simp add: pos_imp_zdiv_pos_iff int_one_le_iff_zero_less)
  qed
  finally show ?thesis .
qed

lemma mod_24_cases:
  assumes "- (2 ^ 23) \<le> t" and "t < (2 ^ 23 :: int)"
  shows "t mod 2 ^ 24 = (if t < 0 then t + 2 ^ 24 else t)"
proof (cases "t < 0")
  case True
  then have "t mod 2 ^ 24 = (t + 2 ^ 24) mod 2 ^ 24" by simp
  also have "\<dots> = t + 2 ^ 24" using True assms by (intro mod_pos_pos_trivial) simp_all
  finally show ?thesis using True by simp
next
  case False
  then show ?thesis using assms by (simp add: mod_pos_pos_trivial)
qed

text \<open>
  Sign extension inverts the 24-bit two's-complement encoding: a tick written into the
  low three bytes of a storage or ABI word is read back unchanged, for every tick an \<open>int24\<close> holds.
\<close>

theorem sign_extend_tick24_round_trip:
  assumes "- (2 ^ 23) \<le> t" and "t < 2 ^ 23"
  shows "sign_extend_tick24 (of_int t) = t"
proof -
  let ?x = "ucast ((of_int t :: u256) AND 0xFFFFFF) :: u32"
  have x: "uint ?x = (if t < 0 then t + 2 ^ 24 else t)"
    using uint_tick_raw [of "of_int t"] uint_of_int_mod_24 [of t] mod_24_cases [OF assms] by simp
  then have lt: "uint ?x < 2 ^ 24" using assms by (simp split: if_splits)
  show ?thesis
  proof (cases "t < 0")
    case True
    then have hi: "?x AND 0x800000 \<noteq> 0" using bit_23_iff [OF lt] x assms by simp
    have "sint (?x - 0x1000000) = wrap_i32 (uint (?x - 0x1000000))" by (rule sint_wrap32)
    also have "uint (?x - 0x1000000) = (uint ?x - 2 ^ 24) mod 2 ^ 32"
      by (simp add: uint_word_ariths)
    also have "\<dots> = t mod 2 ^ 32" using True x by simp
    also have "\<dots> = t + 2 ^ 32" using True assms mod_pos_pos_trivial [of "t + 2 ^ 32" "2 ^ 32"] by simp
    also have "wrap_i32 (t + 2 ^ 32) = t"
    proof -
      have "(t + 2 ^ 32 + 2 ^ 31) mod 2 ^ 32 = (t + 2 ^ 31) mod (2 ^ 32 :: int)"
        using mod_add_self2 [of "t + 2 ^ 31" "2 ^ 32"] by (simp add: add.commute add.left_commute)
      also have "\<dots> = t + 2 ^ 31" using True assms by (intro mod_pos_pos_trivial) simp_all
      finally show ?thesis by (simp add: wrap_signed_def)
    qed
    finally show ?thesis
      using hi by (simp add: sign_extend_tick24_def Let_def or_high_bits [OF lt])
  next
    case False
    then have "\<not> ?x AND 0x800000 \<noteq> 0" using bit_23_iff [OF lt] x assms by simp
    moreover have "sint ?x = t"
      using False x assms by (simp add: sint_wrap32 wrap_signed_def mod_pos_pos_trivial)
    ultimately show ?thesis by (simp add: sign_extend_tick24_def Let_def)
  qed
qed

theorem sign_extend_tick24_round_trip_witness:
  "- (2 ^ 23) \<le> (- 887272 :: int) \<and> (- 887272 :: int) < 2 ^ 23 \<and>
   sign_extend_tick24 (of_int (- 887272)) = - 887272"
  using sign_extend_tick24_round_trip [of "- 887272"] by simp

end
