(* ===== verification/UniswapV3.thy ===== *)
theory UniswapV3
  imports BoundedLoop TickMath SwapMath V4Storage
begin

text \<open>
  Multi-tick swaps on concentrated-liquidity pools: \<open>src/core/math/uniswap_v3.rs\<close>, shared by
  Uniswap V3, Algebra and Uniswap V4 pools. One iteration of the counted loop of
  \<open>simulate_v3_swap\<close> is \<open>v3_step\<close>, and leaving the loop with \<open>break\<close> is the constructor \<open>Break\<close>.
\<close>

section \<open>The code\<close>

definition DEFAULT_V3_FEE_PIPS :: u32 where "DEFAULT_V3_FEE_PIPS = 3000"
definition SQRT_PRICE_LIMIT_ZERO_FOR_ONE :: u256 where
  "SQRT_PRICE_LIMIT_ZERO_FOR_ONE = from_limbs 4295128740 0 0 0"
definition MAX_CUMULATIVE_TICK_MOVE :: int where "MAX_CUMULATIVE_TICK_MOVE = 500"
definition V3_MAX_ITERATIONS :: nat where "V3_MAX_ITERATIONS = 500"

record V3SwapResult =
  v3_amount_out :: u256
  v3_sqrt_price_x96_after :: u256
  v3_tick_after :: int
  v3_gas_estimate :: u32
  v3_shallow :: bool
  v3_synthetic :: bool

text \<open>
  \<open>partition_point\<close> on the slice, which the code keeps sorted by tick: the length of the longest
  prefix whose ticks do not exceed the bound.
\<close>

definition partition_point :: "V3Tick list \<Rightarrow> int \<Rightarrow> nat" where
  "partition_point ticks bound = length (takeWhile (\<lambda>t. t_tick t \<le> bound) ticks)"

definition next_initialized_tick_with_net :: "V3Tick list \<Rightarrow> int \<Rightarrow> bool \<Rightarrow> (int \<times> int) option" where
  "next_initialized_tick_with_net ticks current_tick zero_for_one =
     (if ticks = [] then None
      else
        let i = partition_point ticks current_tick
        in if zero_for_one then
             (if i > 0 then let t = ticks ! (i - 1) in Some (t_tick t, t_liquidity_net t) else None)
           else
             (if i < length ticks then let t = ticks ! i in Some (t_tick t, t_liquidity_net t)
              else None))"

definition default_no_tick_step :: "int \<Rightarrow> int" where
  "default_no_tick_step tick_spacing = max (wrap_i32 (tick_spacing * 2)) 1"

definition resolve_v3_fee_pips :: "u256 \<Rightarrow> u32 option \<Rightarrow> bool \<Rightarrow> u256" where
  "resolve_v3_fee_pips pool_fee edge_fee_bps allow_zero_pool_fee =
     (if allow_zero_pool_fee \<or> pool_fee \<noteq> 0 then pool_fee
      else case edge_fee_bps of
        Some bps \<Rightarrow> if bps < 10000 then ucast bps * 100 else ucast DEFAULT_V3_FEE_PIPS
      | None \<Rightarrow> ucast DEFAULT_V3_FEE_PIPS)"

text \<open>The mutable variables of the swap loop.\<close>

record V3Loop =
  lp_sqrt_price :: u256
  lp_tick :: int
  lp_liquidity :: int
  lp_remaining :: u256
  lp_calculated :: u256
  lp_ticks_crossed :: u32
  lp_exhausted :: bool
  lp_synthetic :: bool

text \<open>
  The next tick of an iteration: an initialized tick, or a synthetic bound when the tick window is
  exhausted or the pool has no tick data. The flag is \<open>synthetic_bound\<close>.
\<close>

definition v3_next_tick :: "CLPoolState \<Rightarrow> bool \<Rightarrow> int \<Rightarrow> (int \<times> int) \<times> bool" where
  "v3_next_tick pool zero_for_one tick =
     (let ticks = cl_ticks pool; has_ticks = (ticks \<noteq> []);
          no_tick_step = (if has_ticks then 0 else default_no_tick_step (cl_tick_spacing pool));
          initial_tick = cl_tick pool;
          tick_search = (if zero_for_one then saturate_signed 32 (tick - 1) else tick)
      in case next_initialized_tick_with_net ticks tick_search zero_for_one of
           Some nt \<Rightarrow> (nt, False)
         | None \<Rightarrow>
             if has_ticks then ((if zero_for_one then MIN_TICK else MAX_TICK, 0), True)
             else
               let raw_next = (if zero_for_one then wrap_i32 (tick - no_tick_step)
                               else wrap_i32 (tick + no_tick_step));
                   cumulative = (if zero_for_one then wrap_i32 (initial_tick - raw_next)
                                 else wrap_i32 (raw_next - initial_tick));
                   bounded = (if cumulative > MAX_CUMULATIVE_TICK_MOVE then
                                (if zero_for_one then wrap_i32 (initial_tick - MAX_CUMULATIVE_TICK_MOVE)
                                 else wrap_i32 (initial_tick + MAX_CUMULATIVE_TICK_MOVE))
                              else raw_next)
               in ((max MIN_TICK (min MAX_TICK bounded), 0), True))"

definition v3_price_limit :: "bool \<Rightarrow> u256" where
  "v3_price_limit zero_for_one =
     (if zero_for_one then SQRT_PRICE_LIMIT_ZERO_FOR_ONE else MAX_SQRT_RATIO_EXCLUSIVE)"

definition v3_next_price :: "bool \<Rightarrow> int \<Rightarrow> u256" where
  "v3_next_price zero_for_one nt =
     (case get_sqrt_ratio_at_tick nt of Some r \<Rightarrow> r | None \<Rightarrow> v3_price_limit zero_for_one)"

definition v3_target :: "bool \<Rightarrow> int \<Rightarrow> u256" where
  "v3_target zero_for_one nt =
     (if zero_for_one then max (v3_next_price zero_for_one nt) (v3_price_limit zero_for_one)
      else min (v3_next_price zero_for_one nt) (v3_price_limit zero_for_one))"

text \<open>The state after a successful \<open>compute_swap_step\<close>, before the tick is updated.\<close>

definition v3_apply_step :: "V3Loop \<Rightarrow> bool \<Rightarrow> SwapStepResult \<Rightarrow> V3Loop" where
  "v3_apply_step st synthetic_bound step =
     st\<lparr>lp_sqrt_price := sqrt_ratio_next_x96 step,
        lp_remaining := saturating_sub (lp_remaining st)
                          (saturating_add (step_amount_in step) (step_fee_amount step)),
        lp_calculated := saturating_add (lp_calculated st) (step_amount_out step),
        lp_synthetic := (lp_synthetic st \<or> synthetic_bound)\<rparr>"

text \<open>The rest of an iteration: crossing the tick, or locating the price inside the range.\<close>

definition v3_cross_tick :: "CLPoolState \<Rightarrow> bool \<Rightarrow> int \<Rightarrow> int \<Rightarrow> V3Loop \<Rightarrow> V3Loop" where
  "v3_cross_tick pool zero_for_one nt liquidity_net st =
     (let has_ticks = (cl_ticks pool \<noteq> [])
      in st\<lparr>lp_liquidity :=
              (if has_ticks then
                 (if zero_for_one then wrap_i128 (lp_liquidity st - liquidity_net)
                  else wrap_i128 (lp_liquidity st + liquidity_net))
               else 0),
            lp_ticks_crossed := (if has_ticks then lp_ticks_crossed st + 1 else lp_ticks_crossed st),
            lp_tick := (if zero_for_one then wrap_i32 (nt - 1) else nt)\<rparr>)"

definition v3_after_step ::
    "CLPoolState \<Rightarrow> bool \<Rightarrow> int \<Rightarrow> int \<Rightarrow> bool \<Rightarrow> V3Loop \<Rightarrow> (V3Loop, V3Loop) iteration" where
  "v3_after_step pool zero_for_one nt liquidity_net synthetic_bound st =
     (let has_ticks = (cl_ticks pool \<noteq> []); unfilled = (lp_remaining st \<noteq> 0)
      in if lp_sqrt_price st = v3_next_price zero_for_one nt then
           (if synthetic_bound then
              Break (st\<lparr>lp_exhausted := (lp_exhausted st \<or> unfilled),
                        lp_tick := (if zero_for_one then saturate_signed 32 (nt - 1) else nt)\<rparr>)
            else
              let st = v3_cross_tick pool zero_for_one nt liquidity_net st
              in if lp_liquidity st \<le> 0 then
                   Break (st\<lparr>lp_exhausted := (lp_exhausted st \<or> (has_ticks \<and> unfilled))\<rparr>)
                 else Continue st)
         else
           let min_tick = (if zero_for_one then nt else lp_tick st);
               max_tick = (if zero_for_one then lp_tick st else wrap_i32 (nt - 1));
               tick = (case get_tick_at_sqrt_ratio_in_range (lp_sqrt_price st) min_tick max_tick of
                         Some t \<Rightarrow> t | None \<Rightarrow> lp_tick st)
           in Break (st\<lparr>lp_tick := tick,
                        lp_exhausted := (lp_exhausted st \<or> ((synthetic_bound \<or> has_ticks) \<and> unfilled))\<rparr>))"

definition v3_step :: "CLPoolState \<Rightarrow> bool \<Rightarrow> u256 \<Rightarrow> V3Loop \<Rightarrow> (V3Loop, V3Loop) iteration" where
  "v3_step pool zero_for_one fee_pips st =
     (if lp_remaining st = 0 then Break st
      else
        let ((nt, liquidity_net), synthetic_bound) = v3_next_tick pool zero_for_one (lp_tick st)
        in case compute_swap_step (lp_sqrt_price st) (v3_target zero_for_one nt)
                  (of_int (max 0 (lp_liquidity st))) (lp_remaining st) fee_pips of
             None \<Rightarrow> Break (st\<lparr>lp_synthetic := (lp_synthetic st \<or> synthetic_bound)\<rparr>)
           | Some step \<Rightarrow>
               v3_after_step pool zero_for_one nt liquidity_net synthetic_bound
                 (v3_apply_step st synthetic_bound step))"

definition v3_loop :: "nat \<Rightarrow> CLPoolState \<Rightarrow> bool \<Rightarrow> u256 \<Rightarrow> V3Loop \<Rightarrow> V3Loop" where
  "v3_loop n pool zero_for_one fee_pips = for_loop n (v3_step pool zero_for_one fee_pips) id"

text \<open>
  The fee of a swap. A V4 pool adds its directional protocol fee; the conversion of the LP fee to
  32 bits panics when it does not fit.
\<close>

definition v3_swap_fee :: "CLPoolState \<Rightarrow> bool \<Rightarrow> u32 option \<Rightarrow> bool \<Rightarrow> u256 panics" where
  "v3_swap_fee pool zero_for_one edge_fee_bps allow_zero_pool_fee =
     (let fee_pips = resolve_v3_fee_pips (cl_fee pool) edge_fee_bps allow_zero_pool_fee
      in if allow_zero_pool_fee \<and> cl_fee_protocol pool \<noteq> 0 then
           (let proto = v4_direction_protocol_fee_pips (cl_fee_protocol pool) zero_for_one
            in if fee_pips < 2 ^ 32
               then Some (ucast (v4_combined_swap_fee_pips proto (ucast fee_pips)))
               else None)
         else Some fee_pips)"

definition v3_rejects :: "CLPoolState \<Rightarrow> u256 \<Rightarrow> u256 \<Rightarrow> bool" where
  "v3_rejects pool amount_in fee_pips \<longleftrightarrow>
     amount_in = 0 \<or> \<not> cl_unlocked pool \<or> cl_sqrt_price_x96 pool < MIN_SQRT_RATIO
     \<or> cl_sqrt_price_x96 pool \<ge> MAX_SQRT_RATIO \<or> cl_liquidity pool = 0
     \<or> cl_liquidity pool > 2 ^ 127 - 1 \<or> fee_pips \<ge> FEE_PIPS_SCALE"

definition v3_init :: "CLPoolState \<Rightarrow> u256 \<Rightarrow> V3Loop" where
  "v3_init pool amount_in =
     \<lparr>lp_sqrt_price = cl_sqrt_price_x96 pool, lp_tick = cl_tick pool,
      lp_liquidity = uint (cl_liquidity pool), lp_remaining = amount_in, lp_calculated = 0,
      lp_ticks_crossed = 0, lp_exhausted = False, lp_synthetic = False\<rparr>"

definition simulate_v3_swap ::
    "CLPoolState \<Rightarrow> u256 \<Rightarrow> bool \<Rightarrow> u32 option \<Rightarrow> bool \<Rightarrow> V3SwapResult panics" where
  "simulate_v3_swap pool amount_in zero_for_one edge_fee_bps allow_zero_pool_fee = do {
     fee_pips \<leftarrow> v3_swap_fee pool zero_for_one edge_fee_bps allow_zero_pool_fee;
     if v3_rejects pool amount_in fee_pips then
       Some \<lparr>v3_amount_out = 0, v3_sqrt_price_x96_after = cl_sqrt_price_x96 pool,
             v3_tick_after = cl_tick pool, v3_gas_estimate = 0, v3_shallow = False,
             v3_synthetic = False\<rparr>
     else
       let st = v3_loop V3_MAX_ITERATIONS pool zero_for_one fee_pips (v3_init pool amount_in);
           shallow = (cl_ticks pool = [] \<or> lp_exhausted st \<or> lp_remaining st \<noteq> 0)
       in Some \<lparr>v3_amount_out = lp_calculated st, v3_sqrt_price_x96_after = lp_sqrt_price st,
                v3_tick_after = lp_tick st,
                v3_gas_estimate = GAS_V3_BASE + lp_ticks_crossed st * GAS_PER_TICK_CROSSED,
                v3_shallow = shallow, v3_synthetic = lp_synthetic st\<rparr>
   }"

section \<open>The next tick\<close>

text \<open>
  A pool whose data agrees with itself: every initialized tick in the protocol's range, the price
  between the prices of the current tick and the next one, strictly inside the swap limits.
\<close>

definition v3_consistent :: "CLPoolState \<Rightarrow> bool" where
  "v3_consistent pool \<longleftrightarrow>
     (\<forall>t \<in> set (cl_ticks pool). MIN_TICK \<le> t_tick t \<and> t_tick t \<le> MAX_TICK)
     \<and> 1 \<le> cl_tick_spacing pool \<and> cl_tick_spacing pool < 2 ^ 15
     \<and> MIN_TICK \<le> cl_tick pool \<and> cl_tick pool < MAX_TICK
     \<and> sqrt_ratio_nat (cl_tick pool) \<le> unat (cl_sqrt_price_x96 pool)
     \<and> unat (cl_sqrt_price_x96 pool) \<le> sqrt_ratio_nat (cl_tick pool + 1)
     \<and> SQRT_PRICE_LIMIT_ZERO_FOR_ONE \<le> cl_sqrt_price_x96 pool
     \<and> cl_sqrt_price_x96 pool \<le> MAX_SQRT_RATIO_EXCLUSIVE"

lemma next_tick_below:
  assumes "next_initialized_tick_with_net ticks c True = Some (nt, net)"
  shows "\<exists>t \<in> set ticks. t_tick t = nt \<and> t_liquidity_net t = net \<and> nt \<le> c"
proof -
  let ?p = "takeWhile (\<lambda>t. t_tick t \<le> c) ticks"
  have i: "0 < length ?p" and t: "ticks ! (length ?p - 1) = last ?p"
    and nt: "nt = t_tick (ticks ! (length ?p - 1))" "net = t_liquidity_net (ticks ! (length ?p - 1))"
    using assms
    by (auto simp: next_initialized_tick_with_net_def partition_point_def Let_def last_conv_nth
        takeWhile_nth split: if_splits)
  then have "last ?p \<in> set ?p" by (intro last_in_set) auto
  then have "last ?p \<in> set ticks \<and> t_tick (last ?p) \<le> c" by (auto dest: set_takeWhileD)
  with nt t show ?thesis by auto
qed

lemma next_tick_above:
  assumes "next_initialized_tick_with_net ticks c False = Some (nt, net)"
  shows "\<exists>t \<in> set ticks. t_tick t = nt \<and> t_liquidity_net t = net \<and> c < nt"
proof -
  let ?i = "length (takeWhile (\<lambda>t. t_tick t \<le> c) ticks)"
  have "?i < length ticks" and "nt = t_tick (ticks ! ?i)" and "net = t_liquidity_net (ticks ! ?i)"
    using assms
    by (auto simp: next_initialized_tick_with_net_def partition_point_def Let_def split: if_splits)
  then show ?thesis
    using nth_length_takeWhile [of "\<lambda>t. t_tick t \<le> c" ticks] by (intro bexI [of _ "ticks ! ?i"]) auto
qed

lemma saturate_signed_id: "in_signed w x \<Longrightarrow> saturate_signed w x = x"
  by (auto simp: in_signed_def saturate_signed_def)

lemma tick_in_i32: "MIN_TICK - 65536 \<le> t \<Longrightarrow> t \<le> MAX_TICK + 65536 \<Longrightarrow> in_signed 32 t"
  by (simp add: in_signed_def MIN_TICK_def MAX_TICK_def)

lemmas i32_tick = wrap_signed_id [OF _ tick_in_i32] saturate_signed_id [OF tick_in_i32]

text \<open>The next tick lies strictly in the direction of the swap, except at the end of the range.\<close>

lemma default_step_bounds:
  "1 \<le> s \<Longrightarrow> s < 2 ^ 15 \<Longrightarrow> 1 \<le> default_no_tick_step s \<and> default_no_tick_step s < 65536"
  by (simp add: default_no_tick_step_def wrap_signed_id in_signed_def)

lemma v3_next_tick_zero_for_one:
  assumes "v3_consistent pool" and t: "MIN_TICK \<le> tick" "tick < MAX_TICK"
    and init: "cl_ticks pool = [] \<longrightarrow> tick = cl_tick pool"
    and nt: "v3_next_tick pool True tick = ((nt, net), synth)"
  shows "MIN_TICK \<le> nt \<and> nt \<le> tick
    \<and> (\<not> synth \<longrightarrow> nt < tick \<and> (\<exists>t \<in> set (cl_ticks pool). t_tick t = nt \<and> t_liquidity_net t = net))"
proof (cases "next_initialized_tick_with_net (cl_ticks pool) (tick - 1) True")
  case (Some x)
  then have "((nt, net), synth) = (x, False)"
    using nt t by (simp add: v3_next_tick_def Let_def i32_tick)
  then show ?thesis
    using next_tick_below [of "cl_ticks pool" "tick - 1" nt net] Some assms(1)
    by (auto simp: v3_consistent_def)
next
  case None
  show ?thesis
  proof (cases "cl_ticks pool = []")
    case True
    have s: "1 \<le> default_no_tick_step (cl_tick_spacing pool)"
        "default_no_tick_step (cl_tick_spacing pool) < 65536"
      using assms(1) default_step_bounds by (auto simp: v3_consistent_def)
    have c: "wrap_i32 x = x" if "MIN_TICK - 65536 \<le> x" "x \<le> MAX_TICK + 65536" for x
      using that by (simp add: i32_tick)
    have "nt = max MIN_TICK (min MAX_TICK
        (if default_no_tick_step (cl_tick_spacing pool) > 500 then tick - 500
         else tick - default_no_tick_step (cl_tick_spacing pool))) \<and> synth"
      using nt t None True init s by (auto simp: v3_next_tick_def Let_def i32_tick c MAX_CUMULATIVE_TICK_MOVE_def MIN_TICK_def MAX_TICK_def)
    then show ?thesis using t s by auto
  next
    case False
    then show ?thesis using nt t None by (simp add: v3_next_tick_def Let_def i32_tick)
  qed
qed

lemma v3_next_tick_one_for_zero:
  assumes "v3_consistent pool" and t: "MIN_TICK \<le> tick" "tick < MAX_TICK"
    and init: "cl_ticks pool = [] \<longrightarrow> tick = cl_tick pool"
    and nt: "v3_next_tick pool False tick = ((nt, net), synth)"
  shows "tick < nt \<and> nt \<le> MAX_TICK
    \<and> (\<not> synth \<longrightarrow> (\<exists>t \<in> set (cl_ticks pool). t_tick t = nt \<and> t_liquidity_net t = net))"
proof (cases "next_initialized_tick_with_net (cl_ticks pool) tick False")
  case (Some x)
  then have "((nt, net), synth) = (x, False)"
    using nt by (simp add: v3_next_tick_def Let_def)
  then show ?thesis
    using next_tick_above [of "cl_ticks pool" tick nt net] Some assms(1)
    by (auto simp: v3_consistent_def)
next
  case None
  show ?thesis
  proof (cases "cl_ticks pool = []")
    case True
    have s: "1 \<le> default_no_tick_step (cl_tick_spacing pool)"
        "default_no_tick_step (cl_tick_spacing pool) < 65536"
      using assms(1) default_step_bounds by (auto simp: v3_consistent_def)
    have c: "wrap_i32 x = x" if "MIN_TICK - 65536 \<le> x" "x \<le> MAX_TICK + 65536" for x
      using that by (simp add: i32_tick)
    have "nt = max MIN_TICK (min MAX_TICK
        (if default_no_tick_step (cl_tick_spacing pool) > 500 then tick + 500
         else tick + default_no_tick_step (cl_tick_spacing pool))) \<and> synth"
      using nt t None True init s by (auto simp: v3_next_tick_def Let_def c MAX_CUMULATIVE_TICK_MOVE_def MIN_TICK_def MAX_TICK_def)
    then show ?thesis using t s by auto
  next
    case False
    then show ?thesis using nt t None by (simp add: v3_next_tick_def Let_def)
  qed
qed

section \<open>The value of one step\<close>

text \<open>
  A step of either direction, against a reference price \<open>P\<close> that is no worse for the trader: its
  output is worth at most its input net of the fee.
\<close>

lemma step_value_zero_for_one:
  assumes step: "compute_swap_step cur tgt L rem f = Some s" and dir: "tgt \<le> cur"
    and fee: "f < FEE_PIPS_SCALE" and P: "unat cur \<le> P"
  shows "unat (step_amount_out s) * 2 ^ 192 * 1000000
    \<le> (unat (step_amount_in s) + unat (step_fee_amount s)) * (1000000 - unat f) * P\<^sup>2"
proof -
  let ?in = "unat (step_amount_in s)" and ?n = "unat (sqrt_ratio_next_x96 s)" and ?p = "unat cur"
  note st = swap_step_zero_for_one [OF step dir fee]
  have np: "?n \<le> ?p" using st by (simp add: word_le_nat_alt)
  then have pos: "0 < ?p * ?n" using st by auto
  have "unat (step_amount_out s) * 2 ^ 192 = unat (step_amount_out s) * 2 ^ 96 * 2 ^ 96" by simp
  also have "\<dots> \<le> unat L * (?p - ?n) * 2 ^ 96"
    using st by (intro mult_le_mono1) (simp add: pay1_def)
  also have "\<dots> \<le> ?in * (?p * ?n)"
    using st ceil_div_bounds [OF pos] by (simp add: cost0_def ac_simps)
  also have "\<dots> \<le> ?in * P\<^sup>2"
    using np P by (intro mult_le_mono2) (simp add: power2_eq_square mult_le_mono)
  finally have "unat (step_amount_out s) * 2 ^ 192 * 1000000 \<le> ?in * P\<^sup>2 * 1000000"
    by (rule mult_le_mono1)
  also have "\<dots> = ?in * 1000000 * P\<^sup>2" by simp
  also have "\<dots> \<le> (?in + unat (step_fee_amount s)) * (1000000 - unat f) * P\<^sup>2"
    using st by (intro mult_le_mono1) blast
  finally show ?thesis .
qed

lemma step_value_one_for_zero:
  assumes step: "compute_swap_step cur tgt L rem f = Some s" and dir: "cur \<le> tgt"
    and fee: "f < FEE_PIPS_SCALE" and P: "P \<le> unat cur"
  shows "unat (step_amount_out s) * P\<^sup>2 * 1000000
    \<le> (unat (step_amount_in s) + unat (step_fee_amount s)) * (1000000 - unat f) * 2 ^ 192"
proof (cases "cur = tgt")
  case True
  then have "unat (step_amount_out s) = 0"
    using swap_step_zero_for_one [OF step _ fee] by (auto simp: pay1_def)
  then show ?thesis by simp
next
  case False
  let ?in = "unat (step_amount_in s)" and ?n = "unat (sqrt_ratio_next_x96 s)" and ?p = "unat cur"
  have lt: "cur < tgt" using False dir by simp
  note st = swap_step_one_for_zero [OF step lt fee]
  have np: "?p \<le> ?n" using st by (simp add: word_le_nat_alt)
  have "unat (step_amount_out s) * P\<^sup>2 \<le> unat (step_amount_out s) * (?n * ?p)"
    using np P by (intro mult_le_mono2) (simp add: power2_eq_square mult_le_mono)
  also have "\<dots> \<le> unat L * 2 ^ 96 * (?n - ?p)"
    using st by (simp add: pay0_def)
  also have "\<dots> = unat L * (?n - ?p) * 2 ^ 96" by simp
  also have "\<dots> \<le> ?in * 2 ^ 96 * 2 ^ 96"
    using st ceil_div_bounds [of "2 ^ 96"] by (intro mult_le_mono1) (simp add: cost1_def)
  finally have "unat (step_amount_out s) * P\<^sup>2 * 1000000 \<le> ?in * 2 ^ 96 * 2 ^ 96 * 1000000"
    by (rule mult_le_mono1)
  also have "\<dots> = ?in * 1000000 * 2 ^ 192" by simp
  also have "\<dots> \<le> (?in + unat (step_fee_amount s)) * (1000000 - unat f) * 2 ^ 192"
    using st by (intro mult_le_mono1) blast
  finally show ?thesis .
qed

lemma step_moves:
  assumes step: "compute_swap_step cur tgt L rem f = Some s" and fee: "f < FEE_PIPS_SCALE"
  shows "tgt \<le> cur \<Longrightarrow> tgt \<le> sqrt_ratio_next_x96 s \<and> sqrt_ratio_next_x96 s \<le> cur"
    and "cur \<le> tgt \<Longrightarrow> cur \<le> sqrt_ratio_next_x96 s \<and> sqrt_ratio_next_x96 s \<le> tgt"
    and "unat (step_amount_in s) + unat (step_fee_amount s) \<le> unat rem"
proof -
  consider "tgt \<le> cur" | "cur < tgt" by fastforce
  note cases = this
  show "tgt \<le> sqrt_ratio_next_x96 s \<and> sqrt_ratio_next_x96 s \<le> cur" if "tgt \<le> cur"
    using swap_step_zero_for_one [OF step that fee] by blast
  show "cur \<le> sqrt_ratio_next_x96 s \<and> sqrt_ratio_next_x96 s \<le> tgt" if "cur \<le> tgt"
    using swap_step_zero_for_one [OF step _ fee] swap_step_one_for_zero [OF step _ fee] that
    by (cases rule: cases) auto
  show "unat (step_amount_in s) + unat (step_fee_amount s) \<le> unat rem"
    using swap_step_zero_for_one [OF step _ fee] swap_step_one_for_zero [OF step _ fee]
    by (cases rule: cases) auto
qed

section \<open>The loop invariant\<close>

text \<open>
  The amounts of a running swap: the price has only moved in the direction of the swap and within
  its limit, and the output collected so far is worth at most the input consumed so far, net of the
  fee, at the price the swap started from.
\<close>

definition v3_amounts_ok :: "CLPoolState \<Rightarrow> bool \<Rightarrow> u256 \<Rightarrow> u256 \<Rightarrow> V3Loop \<Rightarrow> bool" where
  "v3_amounts_ok pool zero_for_one amount fee st \<longleftrightarrow>
     lp_remaining st \<le> amount
     \<and> (if zero_for_one
        then SQRT_PRICE_LIMIT_ZERO_FOR_ONE \<le> lp_sqrt_price st \<and> lp_sqrt_price st \<le> cl_sqrt_price_x96 pool
          \<and> unat (lp_calculated st) * 2 ^ 192 * 1000000
              \<le> (unat amount - unat (lp_remaining st)) * (1000000 - unat fee) * (unat (cl_sqrt_price_x96 pool))\<^sup>2
        else cl_sqrt_price_x96 pool \<le> lp_sqrt_price st \<and> lp_sqrt_price st \<le> MAX_SQRT_RATIO_EXCLUSIVE
          \<and> unat (lp_calculated st) * (unat (cl_sqrt_price_x96 pool))\<^sup>2 * 1000000
              \<le> (unat amount - unat (lp_remaining st)) * (1000000 - unat fee) * 2 ^ 192)"

text \<open>The position of the swap between two iterations: the tick brackets the price.\<close>

definition v3_position_ok :: "CLPoolState \<Rightarrow> bool \<Rightarrow> V3Loop \<Rightarrow> bool" where
  "v3_position_ok pool zero_for_one st \<longleftrightarrow>
     MIN_TICK \<le> lp_tick st \<and> lp_tick st < MAX_TICK
     \<and> (cl_ticks pool = [] \<longrightarrow> lp_tick st = cl_tick pool)
     \<and> (if zero_for_one then sqrt_ratio_nat (lp_tick st) \<le> unat (lp_sqrt_price st)
        else unat (lp_sqrt_price st) \<le> sqrt_ratio_nat (lp_tick st + 1))"

definition v3_inv :: "CLPoolState \<Rightarrow> bool \<Rightarrow> u256 \<Rightarrow> u256 \<Rightarrow> V3Loop \<Rightarrow> bool" where
  "v3_inv pool zero_for_one amount fee st \<longleftrightarrow>
     v3_consistent pool \<and> fee < FEE_PIPS_SCALE
     \<and> v3_amounts_ok pool zero_for_one amount fee st \<and> v3_position_ok pool zero_for_one st"

lemma v3_amounts_ok_cong:
  assumes "lp_sqrt_price st' = lp_sqrt_price st" and "lp_remaining st' = lp_remaining st"
    and "lp_calculated st' = lp_calculated st"
  shows "v3_amounts_ok pool z amount fee st' = v3_amounts_ok pool z amount fee st"
  using assms by (simp only: v3_amounts_ok_def)

lemma saturating_add_le: "unat (saturating_add a b) \<le> unat a + unat b"
  by (simp add: unat_saturating_add)

lemma v3_apply_step_remaining:
  assumes "unat (step_amount_in s) + unat (step_fee_amount s) \<le> unat (lp_remaining st)"
  shows "unat (lp_remaining (v3_apply_step st b s)) =
    unat (lp_remaining st) - (unat (step_amount_in s) + unat (step_fee_amount s))"
proof -
  have "unat (step_amount_in s) + unat (step_fee_amount s) < 2 ^ 256"
    using assms unat_lt_256 [of "lp_remaining st"] by simp
  then have "unat (saturating_add (step_amount_in s) (step_fee_amount s))
      = unat (step_amount_in s) + unat (step_fee_amount s)"
    by (simp add: unat_saturating_add)
  then show ?thesis by (simp add: v3_apply_step_def unat_saturating_sub)
qed

lemma accumulate_value:
  fixes calc out used spent v w :: nat
  assumes "calc * v \<le> used * w" and "out * v \<le> spent * w" and "calc' \<le> calc + out"
  shows "calc' * v \<le> (used + spent) * w"
proof -
  have "calc' * v \<le> (calc + out) * v" using assms(3) by (rule mult_le_mono1)
  also have "\<dots> \<le> used * w + spent * w" using assms(1,2) by (simp add: add_mult_distrib)
  finally show ?thesis by (simp add: add_mult_distrib)
qed

lemma v3_apply_step_amounts:
  assumes ok: "v3_amounts_ok pool z amount fee st" and fee: "fee < FEE_PIPS_SCALE"
    and step: "compute_swap_step (lp_sqrt_price st) tgt L (lp_remaining st) fee = Some s"
    and tgt: "if z then SQRT_PRICE_LIMIT_ZERO_FOR_ONE \<le> tgt \<and> tgt \<le> lp_sqrt_price st
              else lp_sqrt_price st \<le> tgt \<and> tgt \<le> MAX_SQRT_RATIO_EXCLUSIVE"
  shows "v3_amounts_ok pool z amount fee (v3_apply_step st b s)"
proof -
  let ?st = "v3_apply_step st b s"
  let ?spent = "unat (step_amount_in s) + unat (step_fee_amount s)"
  let ?used = "unat amount - unat (lp_remaining st)"
  have spent: "?spent \<le> unat (lp_remaining st)" using step_moves(3) [OF step fee] .
  have le: "unat (lp_remaining st) \<le> unat amount"
    using ok by (simp add: v3_amounts_ok_def word_le_nat_alt)
  have used: "unat amount - unat (lp_remaining ?st) = ?used + ?spent" and rem: "lp_remaining ?st \<le> amount"
    using v3_apply_step_remaining [OF spent] spent le by (auto simp: word_le_nat_alt)
  have price: "lp_sqrt_price ?st = sqrt_ratio_next_x96 s" by (simp add: v3_apply_step_def)
  have calc: "unat (lp_calculated ?st) \<le> unat (lp_calculated st) + unat (step_amount_out s)"
    by (simp add: v3_apply_step_def saturating_add_le)
  show ?thesis
  proof (cases z)
    case True
    let ?P = "unat (cl_sqrt_price_x96 pool)"
    have "unat (lp_sqrt_price st) \<le> ?P" using ok True by (simp add: v3_amounts_ok_def word_le_nat_alt)
    then have "unat (step_amount_out s) * (2 ^ 192 * 1000000) \<le> ?spent * ((1000000 - unat fee) * ?P\<^sup>2)"
      using step_value_zero_for_one [OF step _ fee] tgt True by (simp add: mult.assoc)
    then have "unat (lp_calculated ?st) * (2 ^ 192 * 1000000) \<le> (?used + ?spent) * ((1000000 - unat fee) * ?P\<^sup>2)"
      using ok True by (intro accumulate_value [OF _ _ calc]) (simp_all add: v3_amounts_ok_def mult.assoc)
    then show ?thesis
      using True rem used price tgt step_moves(1) [OF step fee] ok
      by (auto simp: v3_amounts_ok_def mult.assoc)
  next
    case False
    let ?P = "unat (cl_sqrt_price_x96 pool)"
    have "?P \<le> unat (lp_sqrt_price st)" using ok False by (simp add: v3_amounts_ok_def word_le_nat_alt)
    then have "unat (step_amount_out s) * (?P\<^sup>2 * 1000000) \<le> ?spent * ((1000000 - unat fee) * 2 ^ 192)"
      using step_value_one_for_zero [OF step _ fee] tgt False by (simp add: mult.assoc)
    then have "unat (lp_calculated ?st) * (?P\<^sup>2 * 1000000) \<le> (?used + ?spent) * ((1000000 - unat fee) * 2 ^ 192)"
      using ok False by (intro accumulate_value [OF _ _ calc]) (simp_all add: v3_amounts_ok_def mult.assoc)
    then show ?thesis
      using False rem used price tgt step_moves(2) [OF step fee] ok
      by (auto simp: v3_amounts_ok_def mult.assoc)
  qed
qed

lemma v3_next_price_nat:
  assumes "MIN_TICK \<le> nt" and "nt \<le> MAX_TICK"
  shows "unat (v3_next_price z nt) = sqrt_ratio_nat nt"
  using get_sqrt_ratio_at_tick_nat [OF assms] by (auto simp: v3_next_price_def)

lemma v3_limits:
  "unat SQRT_PRICE_LIMIT_ZERO_FOR_ONE = sqrt_ratio_nat MIN_TICK + 1"
  "unat MAX_SQRT_RATIO_EXCLUSIVE + 1 = sqrt_ratio_nat MAX_TICK"
  by (simp_all add: sqrt_ratio_nat_ends SQRT_PRICE_LIMIT_ZERO_FOR_ONE_def MIN_SQRT_RATIO_def
      MAX_SQRT_RATIO_EXCLUSIVE_def MAX_SQRT_RATIO_def from_limbs_def)

text \<open>The target of an iteration lies between the current price and the swap's price limit.\<close>

lemma v3_target_ok:
  assumes "v3_inv pool z amount fee st" and nt: "v3_next_tick pool z (lp_tick st) = ((nt, net), synth)"
  shows "if z then SQRT_PRICE_LIMIT_ZERO_FOR_ONE \<le> v3_target z nt \<and> v3_target z nt \<le> lp_sqrt_price st
    else lp_sqrt_price st \<le> v3_target z nt \<and> v3_target z nt \<le> MAX_SQRT_RATIO_EXCLUSIVE"
proof (cases z)
  case True
  have c: "v3_consistent pool" and t: "MIN_TICK \<le> lp_tick st" "lp_tick st < MAX_TICK"
      "cl_ticks pool = [] \<longrightarrow> lp_tick st = cl_tick pool"
    and p: "sqrt_ratio_nat (lp_tick st) \<le> unat (lp_sqrt_price st)" "SQRT_PRICE_LIMIT_ZERO_FOR_ONE \<le> lp_sqrt_price st"
    using assms(1) True by (auto simp: v3_inv_def v3_amounts_ok_def v3_position_ok_def)
  have n: "MIN_TICK \<le> nt" "nt \<le> lp_tick st"
    using v3_next_tick_zero_for_one [OF c t] nt True by auto
  then have "sqrt_ratio_nat nt \<le> unat (lp_sqrt_price st)"
    using sqrt_ratio_nat_mono [OF n(1) _ n(2)] t(2) p(1) by simp
  then have "v3_next_price True nt \<le> lp_sqrt_price st"
    using n t by (simp add: word_le_nat_alt v3_next_price_nat)
  with p(2) True show ?thesis by (auto simp: v3_target_def v3_price_limit_def)
next
  case False
  have c: "v3_consistent pool" and t: "MIN_TICK \<le> lp_tick st" "lp_tick st < MAX_TICK"
      "cl_ticks pool = [] \<longrightarrow> lp_tick st = cl_tick pool"
    and p: "unat (lp_sqrt_price st) \<le> sqrt_ratio_nat (lp_tick st + 1)" "lp_sqrt_price st \<le> MAX_SQRT_RATIO_EXCLUSIVE"
    using assms(1) False by (auto simp: v3_inv_def v3_amounts_ok_def v3_position_ok_def)
  have n: "lp_tick st + 1 \<le> nt" "nt \<le> MAX_TICK"
    using v3_next_tick_one_for_zero [OF c t] nt False by auto
  then have "unat (lp_sqrt_price st) \<le> sqrt_ratio_nat nt"
    using sqrt_ratio_nat_mono [OF _ n(2) n(1)] t(1) p(1) by simp
  then have "lp_sqrt_price st \<le> v3_next_price False nt"
    using n t by (simp add: word_le_nat_alt v3_next_price_nat)
  with p(2) False show ?thesis by (auto simp: v3_target_def v3_price_limit_def)
qed

definition v3_rank :: "CLPoolState \<Rightarrow> bool \<Rightarrow> V3Loop \<Rightarrow> nat" where
  "v3_rank pool zero_for_one st =
     length (filter (\<lambda>t. if zero_for_one then t_tick t < lp_tick st else lp_tick st < t_tick t) (cl_ticks pool))"

lemma length_filter_less:
  assumes "x \<in> set xs" and "P x" and "\<not> Q x" and "\<And>y. Q y \<Longrightarrow> P y"
  shows "length (filter Q xs) < length (filter P xs)"
proof -
  have "filter Q xs = filter Q (filter P xs)" using assms(4) by (induction xs) auto
  moreover have "length (filter Q (filter P xs)) < length (filter P xs)"
    using assms(1-3) by (intro length_filter_less) auto
  ultimately show ?thesis by simp
qed

lemma v3_after_step_continue:
  assumes "v3_after_step pool z nt net synth st = Continue st'"
  shows "lp_sqrt_price st = v3_next_price z nt \<and> \<not> synth \<and> st' = v3_cross_tick pool z nt net st"
  using assms by (auto simp: v3_after_step_def Let_def split: if_splits)

lemma v3_after_step_break:
  assumes "v3_amounts_ok pool z amount fee st" and "v3_after_step pool z nt net synth st = Break st'"
  shows "v3_amounts_ok pool z amount fee st'"
proof -
  have "lp_sqrt_price st' = lp_sqrt_price st \<and> lp_remaining st' = lp_remaining st
      \<and> lp_calculated st' = lp_calculated st"
    using assms(2) by (auto simp: v3_after_step_def v3_cross_tick_def Let_def split: if_splits)
  with assms(1) v3_amounts_ok_cong show ?thesis by blast
qed

lemma v3_cross_position:
  assumes inv: "v3_inv pool z amount fee st" and nt: "v3_next_tick pool z (lp_tick st) = ((nt, net), False)"
    and ok: "v3_amounts_ok pool z amount fee st1" and price: "lp_sqrt_price st1 = v3_next_price z nt"
  defines "st' \<equiv> v3_cross_tick pool z nt net st1"
  shows "v3_inv pool z amount fee st'" and "v3_rank pool z st' < v3_rank pool z st"
proof -
  have c: "v3_consistent pool" and fee: "fee < FEE_PIPS_SCALE"
    and t: "MIN_TICK \<le> lp_tick st" "lp_tick st < MAX_TICK" "cl_ticks pool = [] \<longrightarrow> lp_tick st = cl_tick pool"
    using inv by (auto simp: v3_inv_def v3_position_ok_def)
  obtain x where x: "x \<in> set (cl_ticks pool)" "t_tick x = nt" and
    n: "MIN_TICK \<le> nt" "nt \<le> MAX_TICK" "if z then nt < lp_tick st else lp_tick st < nt"
    using v3_next_tick_zero_for_one [OF c t, of nt net False] v3_next_tick_one_for_zero [OF c t, of nt net False]
      nt t by (cases z) auto
  have p: "unat (lp_sqrt_price st1) = sqrt_ratio_nat nt" using price n by (simp add: v3_next_price_nat)
  have tick: "lp_tick st' = (if z then nt - 1 else nt)"
    using n by (simp add: st'_def v3_cross_tick_def Let_def i32_tick)
  have sp: "lp_sqrt_price st' = lp_sqrt_price st1" by (simp add: st'_def v3_cross_tick_def Let_def)
  have "v3_amounts_ok pool z amount fee st'"
    using ok v3_amounts_ok_cong [of st' st1] by (simp add: st'_def v3_cross_tick_def Let_def)
  moreover have "v3_position_ok pool z st'"
  proof (cases z)
    case True
    have "nt \<noteq> MIN_TICK"
      using ok True p v3_limits(1) by (auto simp: v3_amounts_ok_def word_le_nat_alt)
    then have "MIN_TICK \<le> nt - 1" using n by simp
    moreover have "sqrt_ratio_nat (nt - 1) \<le> sqrt_ratio_nat nt"
      using calculation n by (intro sqrt_ratio_nat_mono) auto
    ultimately show ?thesis using True x tick sp p n t by (auto simp: v3_position_ok_def)
  next
    case False
    have "nt \<noteq> MAX_TICK"
      using ok False p v3_limits(2) by (auto simp: v3_amounts_ok_def word_le_nat_alt)
    then have "nt < MAX_TICK" using n by simp
    moreover have "sqrt_ratio_nat nt \<le> sqrt_ratio_nat (nt + 1)"
      using calculation n by (intro sqrt_ratio_nat_mono) auto
    ultimately show ?thesis using False x tick sp p n by (auto simp: v3_position_ok_def)
  qed
  ultimately show "v3_inv pool z amount fee st'" using c fee by (simp add: v3_inv_def)
  show "v3_rank pool z st' < v3_rank pool z st"
    unfolding v3_rank_def using x n(3) tick by (intro length_filter_less [OF x(1)]) (auto split: if_splits)
qed

lemma v3_step_cases:
  assumes inv: "v3_inv pool z amount fee st"
  shows "v3_step pool z fee st = Break st' \<Longrightarrow> v3_amounts_ok pool z amount fee st'"
    and "v3_step pool z fee st = Continue st' \<Longrightarrow>
           v3_inv pool z amount fee st' \<and> v3_rank pool z st' < v3_rank pool z st"
proof -
  obtain nt net synth where nt: "v3_next_tick pool z (lp_tick st) = ((nt, net), synth)"
    by (metis surj_pair)
  have ok: "v3_amounts_ok pool z amount fee st" and fee: "fee < FEE_PIPS_SCALE"
    using inv by (auto simp: v3_inv_def)
  have ok': "v3_amounts_ok pool z amount fee (v3_apply_step st synth s)"
    if "compute_swap_step (lp_sqrt_price st) (v3_target z nt) (of_int (max 0 (lp_liquidity st)))
          (lp_remaining st) fee = Some s" for s
    using v3_apply_step_amounts [OF ok fee that v3_target_ok [OF inv nt]] .
  show "v3_amounts_ok pool z amount fee st'" if "v3_step pool z fee st = Break st'"
  proof (cases "compute_swap_step (lp_sqrt_price st) (v3_target z nt) (of_int (max 0 (lp_liquidity st)))
      (lp_remaining st) fee")
    case None
    with that nt have "st' = st \<or> st' = st\<lparr>lp_synthetic := (lp_synthetic st \<or> synth)\<rparr>"
      by (auto simp: v3_step_def split: if_splits)
    with ok show ?thesis using v3_amounts_ok_cong [of st' st] by auto
  next
    case (Some s)
    with that nt have "st' = st \<or> v3_after_step pool z nt net synth (v3_apply_step st synth s) = Break st'"
      by (auto simp: v3_step_def split: if_splits)
    with ok v3_after_step_break [OF ok' [OF Some]] show ?thesis by blast
  qed
  show "v3_inv pool z amount fee st' \<and> v3_rank pool z st' < v3_rank pool z st"
    if cont: "v3_step pool z fee st = Continue st'"
  proof -
    obtain s where s: "compute_swap_step (lp_sqrt_price st) (v3_target z nt)
        (of_int (max 0 (lp_liquidity st))) (lp_remaining st) fee = Some s"
      and after: "v3_after_step pool z nt net synth (v3_apply_step st synth s) = Continue st'"
      using cont nt by (auto simp: v3_step_def split: if_splits option.splits)
    from v3_after_step_continue [OF after]
    have p: "lp_sqrt_price (v3_apply_step st synth s) = v3_next_price z nt" and "\<not> synth"
      and st': "st' = v3_cross_tick pool z nt net (v3_apply_step st synth s)" by auto
    with nt have "v3_next_tick pool z (lp_tick st) = ((nt, net), False)" by simp
    from v3_cross_position [OF inv this ok' [OF s] p] st' show ?thesis by simp
  qed
qed

interpretation v3_swap: ranked_loop "v3_step pool z fee" id "v3_inv pool z amount fee"
    "v3_amounts_ok pool z amount fee" "v3_rank pool z" for pool z amount fee
  by unfold_locales (auto simp: v3_step_cases, simp add: v3_inv_def)

section \<open>Properties\<close>

lemma v3_init_inv:
  assumes "v3_consistent pool" and "fee < FEE_PIPS_SCALE"
  shows "v3_inv pool z amount fee (v3_init pool amount)"
  using assms by (simp add: v3_inv_def v3_init_def v3_amounts_ok_def v3_position_ok_def v3_consistent_def)

text \<open>
  Property C1. A quote of a concentrated-liquidity pool never beats the spot price it starts from: on
  a consistent pool the price only moves in the direction of the swap and stays within the protocol's
  limits, and the quoted output is worth at most the input net of the swap fee at the starting price,
  however many ticks the swap crosses. Prices are square roots in Q96, so the price of token 0 is
  \<open>P\<^sup>2 / 2^192\<close>.
\<close>

theorem v3_quote_at_most_spot:
  assumes "v3_consistent pool" and "v3_swap_fee pool z edge_fee allow_zero = Some fee"
    and "simulate_v3_swap pool amount z edge_fee allow_zero = Some r"
  defines "P \<equiv> unat (cl_sqrt_price_x96 pool)"
  shows "if z
    then SQRT_PRICE_LIMIT_ZERO_FOR_ONE \<le> v3_sqrt_price_x96_after r
      \<and> v3_sqrt_price_x96_after r \<le> cl_sqrt_price_x96 pool
      \<and> unat (v3_amount_out r) * 2 ^ 192 * 1000000 \<le> unat amount * (1000000 - unat fee) * P\<^sup>2
    else cl_sqrt_price_x96 pool \<le> v3_sqrt_price_x96_after r
      \<and> v3_sqrt_price_x96_after r \<le> MAX_SQRT_RATIO_EXCLUSIVE
      \<and> unat (v3_amount_out r) * P\<^sup>2 * 1000000 \<le> unat amount * (1000000 - unat fee) * 2 ^ 192"
proof (cases "v3_rejects pool amount fee")
  case True
  then have "v3_amount_out r = 0" and "v3_sqrt_price_x96_after r = cl_sqrt_price_x96 pool"
    using assms(2,3) by (auto simp: simulate_v3_swap_def)
  with assms(1) show ?thesis by (simp add: v3_consistent_def)
next
  case False
  let ?st = "v3_loop V3_MAX_ITERATIONS pool z fee (v3_init pool amount)"
  have out: "v3_amount_out r = lp_calculated ?st" "v3_sqrt_price_x96_after r = lp_sqrt_price ?st"
    using False assms(2,3) by (auto simp: simulate_v3_swap_def Let_def)
  have "fee < FEE_PIPS_SCALE" using False by (simp add: v3_rejects_def not_le)
  then have ok: "v3_amounts_ok pool z amount fee ?st"
    unfolding v3_loop_def using assms(1) by (intro v3_swap.for_loop_post v3_init_inv)
  have "(unat amount - unat (lp_remaining ?st)) * (1000000 - unat fee) * w
      \<le> unat amount * (1000000 - unat fee) * w" for w
    by (intro mult_le_mono1) simp
  then show ?thesis
    using ok order_trans unfolding v3_amounts_ok_def out P_def by (cases z) (simp only: if_True if_False, blast)+
qed

text \<open>A pool at price 1 with one position between ticks \<open>-60\<close> and \<open>60\<close>.\<close>

definition flat_pool :: CLPoolState where
  "flat_pool = \<lparr>cl_sqrt_price_x96 = 2 ^ 96, cl_tick = 0, cl_liquidity = 10 ^ 18, cl_fee = 3000,
     cl_tick_spacing = 60,
     cl_ticks = [\<lparr>t_tick = - 60, t_liquidity_gross = 10 ^ 18, t_liquidity_net = 10 ^ 18\<rparr>,
                 \<lparr>t_tick = 60, t_liquidity_gross = 10 ^ 18, t_liquidity_net = - (10 ^ 18)\<rparr>],
     cl_unlocked = True, cl_fee_protocol = 0, cl_observation_cardinality = 1\<rparr>"

lemma sqrt_ratio_nat_0: "sqrt_ratio_nat 0 = 2 ^ 96"
  by (simp add: sqrt_ratio_nat_nonneg raw_ratio_def factors_def TICK_STEPS_def ceil_div_def)

lemma flat_pool_consistent: "v3_consistent flat_pool"
  using sqrt_ratio_nat_strict_mono [of 0 1]
  by (simp add: v3_consistent_def flat_pool_def MIN_TICK_def MAX_TICK_def sqrt_ratio_nat_0
      SQRT_PRICE_LIMIT_ZERO_FOR_ONE_def MAX_SQRT_RATIO_EXCLUSIVE_def from_limbs_def)

lemma flat_pool_fee: "v3_swap_fee flat_pool z None False = Some 3000"
  by (simp add: v3_swap_fee_def flat_pool_def resolve_v3_fee_pips_def)

theorem v3_quote_at_most_spot_witness:
  "\<exists>r. simulate_v3_swap flat_pool 1000000 True None False = Some r
    \<and> v3_consistent flat_pool \<and> v3_swap_fee flat_pool True None False = Some 3000
    \<and> v3_sqrt_price_x96_after r \<le> cl_sqrt_price_x96 flat_pool \<and> unat (v3_amount_out r) \<le> 997000"
proof -
  have "\<exists>r. simulate_v3_swap flat_pool 1000000 True None False = Some r"
    by (simp add: simulate_v3_swap_def flat_pool_fee Let_def)
  then obtain r where r: "simulate_v3_swap flat_pool 1000000 True None False = Some r" ..
  have P: "unat (cl_sqrt_price_x96 flat_pool) = 2 ^ 96" by (simp add: flat_pool_def)
  show ?thesis
    using v3_quote_at_most_spot [OF flat_pool_consistent flat_pool_fee r] r
      flat_pool_consistent flat_pool_fee [of True] by (simp add: P)
qed

text \<open>
  Property C25. The cap of 500 iterations does not cut a swap short: every iteration that continues
  crosses one more initialized tick and never returns to it, so on a consistent pool with fewer than
  500 known ticks the walk ends through one of its own exits, and its result does not depend on the cap.
\<close>

theorem v3_iteration_cap_not_binding:
  assumes "v3_consistent pool" and "fee < FEE_PIPS_SCALE" and "length (cl_ticks pool) < V3_MAX_ITERATIONS"
    and "length (cl_ticks pool) < n"
  shows "v3_loop V3_MAX_ITERATIONS pool z fee (v3_init pool amount) = v3_loop n pool z fee (v3_init pool amount)
    \<and> (\<exists>st. v3_step pool z fee st = Break (v3_loop V3_MAX_ITERATIONS pool z fee (v3_init pool amount)))"
proof -
  have inv: "v3_inv pool z amount fee (v3_init pool amount)" using assms(1,2) by (rule v3_init_inv)
  have "v3_rank pool z (v3_init pool amount) \<le> length (cl_ticks pool)" by (simp add: v3_rank_def)
  then show ?thesis
    unfolding v3_loop_def
    using assms(3,4) v3_swap.for_loop_cap_irrelevant [OF inv] v3_swap.for_loop_breaks [OF inv]
    by (meson order_le_less_trans)
qed

theorem v3_iteration_cap_not_binding_witness:
  "v3_consistent flat_pool \<and> (3000 :: u256) < FEE_PIPS_SCALE
    \<and> length (cl_ticks flat_pool) < V3_MAX_ITERATIONS \<and> length (cl_ticks flat_pool) < 3
    \<and> v3_loop V3_MAX_ITERATIONS flat_pool True 3000 (v3_init flat_pool 1000000)
        = v3_loop 3 flat_pool True 3000 (v3_init flat_pool 1000000)"
proof -
  have "(3000 :: u256) < FEE_PIPS_SCALE" by (simp add: FEE_PIPS_SCALE_def)
  moreover have "length (cl_ticks flat_pool) < V3_MAX_ITERATIONS" "length (cl_ticks flat_pool) < 3"
    by (simp_all add: flat_pool_def V3_MAX_ITERATIONS_def)
  ultimately show ?thesis
    using v3_iteration_cap_not_binding [OF flat_pool_consistent] flat_pool_consistent by blast
qed

text \<open>
  A pool at tick 0 whose liquidity starts at tick 0: the net liquidities of its ticks leave nothing
  between \<open>-60\<close> and \<open>0\<close>.
\<close>

definition active_liquidity :: "CLPoolState \<Rightarrow> int \<Rightarrow> int" where
  "active_liquidity pool tick =
     sum_list (map t_liquidity_net (filter (\<lambda>t. t_tick t \<le> tick) (cl_ticks pool)))"

definition boundary_pool :: CLPoolState where
  "boundary_pool = flat_pool\<lparr>cl_ticks :=
     [\<lparr>t_tick = - 120, t_liquidity_gross = 1000, t_liquidity_net = 1000\<rparr>,
      \<lparr>t_tick = - 60, t_liquidity_gross = 1000, t_liquidity_net = - 1000\<rparr>,
      \<lparr>t_tick = 0, t_liquidity_gross = 10 ^ 18, t_liquidity_net = 10 ^ 18\<rparr>,
      \<lparr>t_tick = 60, t_liquidity_gross = 10 ^ 18, t_liquidity_net = - (10 ^ 18)\<rparr>]\<rparr>"

lemma boundary_next_tick: "v3_next_tick boundary_pool True 0 = ((- 60, - 1000), False)"
  by (simp add: v3_next_tick_def boundary_pool_def next_initialized_tick_with_net_def partition_point_def
      saturate_signed_def Let_def)

lemma boundary_target: "v3_next_price True (- 60) = 78990846045029531151608375686"
    "v3_target True (- 60) = 78990846045029531151608375686"
proof -
  show p: "v3_next_price True (- 60) = 78990846045029531151608375686"
  proof (rule word_unat_eqI)
    have "raw_ratio 60 = 339263100446772779650371191370377180370"
      by (simp add: raw_ratio_def factors_def tick_consts)
    then show "unat (v3_next_price True (- 60)) = unat (78990846045029531151608375686 :: u256)"
      by (simp add: v3_next_price_nat MIN_TICK_def MAX_TICK_def sqrt_ratio_nat_def ceil_div_def)
  qed
  show "v3_target True (- 60) = 78990846045029531151608375686"
    by (simp add: v3_target_def p v3_price_limit_def SQRT_PRICE_LIMIT_ZERO_FOR_ONE_def from_limbs_def)
qed

text \<open>The pieces of the first step on this pool, evaluated one by one.\<close>

lemma boundary_pieces:
  "mul_div 1000000 (FEE_PIPS_SCALE - 3000) FEE_PIPS_SCALE = Some 997000"
  "get_amount0_delta 78990846045029531151608375686 (2 ^ 96) (10 ^ 18) True = Some 3004354062741926"
  "get_next_sqrt_price_from_input (2 ^ 96) (10 ^ 18) 997000 True = Some 79228162514185347115517307545"
  "get_amount0_delta 79228162514185347115517307545 (2 ^ 96) (10 ^ 18) True = Some 997000"
  "get_amount1_delta 79228162514185347115517307545 (2 ^ 96) (10 ^ 18) False = Some 996999"
      apply (simp add: mul_div_iff FEE_PIPS_SCALE_def)
     apply (simp add: get_amount0_delta_def checked_defs Let_def mul_div_ceil_def div_rounding_up_def)
    apply (simp add: get_next_sqrt_price_from_input_def get_next_sqrt_price_from_amount0_rounding_up_def
      checked_defs Let_def mul_div_ceil_def)
   apply (simp add: get_amount0_delta_def checked_defs Let_def mul_div_ceil_def div_rounding_up_def)
  apply (simp add: get_amount1_delta_def mul_div_floor_iff Q96_def)
  done

lemma boundary_step:
  "compute_swap_step (2 ^ 96) 78990846045029531151608375686 (10 ^ 18) 1000000 3000 =
     Some \<lparr>sqrt_ratio_next_x96 = 79228162514185347115517307545, step_amount_in = 997000,
           step_amount_out = 996999, step_fee_amount = 3000\<rparr>"
proof -
  have dir: "((78990846045029531151608375686 :: u256) \<le> 2 ^ 96) = True"
    and short: "((3004354062741926 :: u256) \<le> 997000) = False"
    and ne: "((78990846045029531151608375686 :: u256) = 79228162514185347115517307545) = False"
    and fee: "saturating_sub 1000000 997000 = (3000 :: u256)"
    by (simp_all add: saturating_sub_def)
  show ?thesis
    unfolding compute_swap_step_def Let_def dir
    by (simp only: boundary_pieces short ne fee if_True if_False bind.bind_lunit)
qed


end
