(* ===== verification/LocalSim.thy ===== *)
theory LocalSim
  imports Realign RouteGas CurveCrypto UniswapV3
begin

text \<open>
  The local route simulation, second half of \<open>src/pipeline/local_sim.rs\<close>: the quote of one hop on any
  pool family, the input caps of concentrated-liquidity hops without tick data, the walk over a route,
  the minimal and the detailed simulation built on it, and the classification of a failed simulation.

  A Curve hop counts its outcome in ten global counters, so every function that may quote one takes the
  counters and returns them: a result is a pair of value and counters, under \<^typ>\<open>'a panics\<close> for the
  division, index and overflow panics of the quotes. \<open>Result\<close> is a sum, the rejection on the left.
\<close>

type_synonym 'a counted = "('a \<times> CurveStats) panics"

section \<open>One hop\<close>

record HopResult =
  hr_amount_out :: u256
  hr_gas :: u32

datatype HopReject = RClCap | RClShallow | RClSynthetic | RMath

definition cl_protocol :: "ProtocolType \<Rightarrow> bool" where
  "cl_protocol protocol \<longleftrightarrow> protocol = UniswapV3 \<or> protocol = UniswapV4"

definition cl_hop_exceeds_shallow_cap :: "u256 \<Rightarrow> u256 \<Rightarrow> bool" where
  "cl_hop_exceeds_shallow_cap amount_in shallow_cap \<longleftrightarrow> shallow_cap < - 1 \<and> amount_in > shallow_cap"

fun cl_hop_tickless :: "PoolState \<Rightarrow> bool" where
  "cl_hop_tickless (PV3 s) = (cl_ticks s = [])"
| "cl_hop_tickless (PV4 s) = (cl_ticks s = [])"
| "cl_hop_tickless _ = False"

definition v2_reserve_in :: "V2PoolState \<Rightarrow> bool \<Rightarrow> u256" where
  "v2_reserve_in st zero_for_one = (if zero_for_one then v2_reserve0 st else v2_reserve1 st)"

definition hop_ok :: "u256 \<Rightarrow> u32 \<Rightarrow> HopReject + HopResult" where
  "hop_ok out gas = Inr \<lparr>hr_amount_out = out, hr_gas = gas\<rparr>"

definition nonzero_hop :: "u256 \<Rightarrow> u32 \<Rightarrow> HopReject + HopResult" where
  "nonzero_hop out gas = (if out = 0 then Inl RMath else hop_ok out gas)"

definition simulate_cl_hop :: "CLPoolState \<Rightarrow> Edge \<Rightarrow> u256 \<Rightarrow> u256 \<Rightarrow> (HopReject + HopResult) panics" where
  "simulate_cl_hop s edge amount_in shallow_cap = do {
     let allow_zero = (e_protocol edge = UniswapV4);
     r \<leftarrow> simulate_v3_swap s amount_in (e_zero_for_one edge) (Some (e_fee_bps edge)) allow_zero;
     if v3_shallow r then
       (let tickless = (cl_ticks s = [])
        in if \<not> tickless \<or> cl_hop_exceeds_shallow_cap amount_in shallow_cap \<or> v3_amount_out r = 0
           then Some (Inl RClShallow)
           else Some (hop_ok (v3_amount_out r) (v3_gas_estimate r)))
     else if v3_synthetic r then Some (Inl RClSynthetic)
     else Some (hop_ok (v3_amount_out r) (v3_gas_estimate r))
   }"

definition simulate_woofi_hop :: "WoofiPoolState \<Rightarrow> Edge \<Rightarrow> u256 \<Rightarrow> (HopReject + HopResult) panics" where
  "simulate_woofi_hop s edge amount_in = do {
     let n_bases = length (wf_base_states s);
     let tin = unat (e_token_in_idx edge);
     let tout = unat (e_token_out_idx edge);
     let in_is_quote = (tin \<ge> n_bases);
     let out_is_quote = (tout \<ge> n_bases);
     let base_in = (if in_is_quote then None else Some tin);
     let base_out = (if out_is_quote then None else Some tout);
     out \<leftarrow> get_woofi_amount_out s amount_in in_is_quote out_is_quote base_in base_out;
     Some (nonzero_hop out GAS_WOOFI_HOP)
   }"

definition simulate_hop ::
    "PoolState \<Rightarrow> Edge \<Rightarrow> u256 \<Rightarrow> u256 \<Rightarrow> CurveStats \<Rightarrow> (HopReject + HopResult) counted" where
  "simulate_hop st edge amount_in shallow_cap cs =
     (let protocol = e_protocol edge; counted = map_option (\<lambda>r. (r, cs))
      in if amount_in = 0 then Some (hop_ok 0 0, cs)
      else if cl_protocol protocol \<and> cl_hop_exceeds_shallow_cap amount_in shallow_cap
      then Some (Inl RClCap, cs)
      else case st of
        PV2 s \<Rightarrow>
          if protocol \<noteq> UniswapV2 then Some (Inl RMath, cs)
          else if amount_in \<ge> v2_reserve_in s (e_zero_for_one edge) then Some (Inl RMath, cs)
          else do {
            out \<leftarrow> simulate_v2_swap s amount_in (e_zero_for_one edge) (Some (e_fee_bps edge));
            Some (hop_ok out GAS_V2_HOP, cs)
          }
      | PV3 s \<Rightarrow>
          if protocol \<noteq> UniswapV3 then Some (Inl RMath, cs)
          else counted (simulate_cl_hop s edge amount_in shallow_cap)
      | PV4 s \<Rightarrow>
          if protocol \<noteq> UniswapV4 then Some (Inl RMath, cs)
          else counted (simulate_cl_hop s edge amount_in shallow_cap)
      | PCurve s \<Rightarrow>
          if protocol \<noteq> CurveStable \<and> protocol \<noteq> CurveCrypto then Some (Inl RMath, cs)
          else do {
            (r, cs) \<leftarrow> curve_hop_amount_out s protocol amount_in (unat (e_token_in_idx edge))
                         (unat (e_token_out_idx edge)) cs;
            Some (case r of None \<Rightarrow> Inl RMath | Some out \<Rightarrow> hop_ok out GAS_CURVE_HOP, cs)
          }
      | PBalancer s \<Rightarrow>
          if protocol \<noteq> BalancerV2 then Some (Inl RMath, cs)
          else do {
            out \<leftarrow> simulate_balancer_swap s amount_in (unat (e_token_in_idx edge)) (unat (e_token_out_idx edge));
            Some (nonzero_hop out GAS_BALANCER_HOP, cs)
          }
      | PDodo s \<Rightarrow>
          if protocol \<noteq> Dodo then Some (Inl RMath, cs)
          else let base_to_quote = (e_token_in_idx edge = 0)
               in Some (nonzero_hop (get_dodo_amount_out s amount_in base_to_quote) GAS_DODO_HOP, cs)
      | PWoofi s \<Rightarrow>
          if protocol \<noteq> Woofi then Some (Inl RMath, cs)
          else counted (simulate_woofi_hop s edge amount_in)
      | PInvalid \<Rightarrow> Some (Inl RMath, cs))"

definition simulate_hop_amount_out_with_cap ::
    "PoolState \<Rightarrow> Edge \<Rightarrow> u256 \<Rightarrow> u256 \<Rightarrow> CurveStats \<Rightarrow> u256 option counted" where
  "simulate_hop_amount_out_with_cap st edge amount_in shallow_cap cs = do {
     (r, cs) \<leftarrow> simulate_hop st edge amount_in shallow_cap cs;
     Some (case r of Inl _ \<Rightarrow> None | Inr h \<Rightarrow> Some (hr_amount_out h), cs)
   }"

definition simulate_hop_amount_out :: "PoolState \<Rightarrow> Edge \<Rightarrow> u256 \<Rightarrow> CurveStats \<Rightarrow> u256 option counted" where
  "simulate_hop_amount_out st edge amount_in cs = simulate_hop_amount_out_with_cap st edge amount_in (- 1) cs"

definition cl_execution_quote :: "CLPoolState \<Rightarrow> Edge \<Rightarrow> u256 \<Rightarrow> u256 option panics" where
  "cl_execution_quote s edge amount_in = do {
     let allow_zero = (e_protocol edge = UniswapV4);
     r \<leftarrow> simulate_v3_swap s amount_in (e_zero_for_one edge) (Some (e_fee_bps edge)) allow_zero;
     Some (if v3_shallow r \<or> v3_synthetic r \<or> v3_amount_out r = 0 then None else Some (v3_amount_out r))
   }"

definition ranked_nonzero :: "PoolState \<Rightarrow> Edge \<Rightarrow> u256 \<Rightarrow> CurveStats \<Rightarrow> u256 option counted" where
  "ranked_nonzero st edge amount_in cs = do {
     (q, cs) \<leftarrow> simulate_hop_amount_out st edge amount_in cs;
     Some (case q of None \<Rightarrow> None | Some q \<Rightarrow> if q = 0 then None else Some q, cs)
   }"

definition simulate_hop_amount_out_for_execution ::
    "PoolState \<Rightarrow> Edge \<Rightarrow> u256 \<Rightarrow> CurveStats \<Rightarrow> u256 option counted" where
  "simulate_hop_amount_out_for_execution st edge amount_in cs =
     (if amount_in = 0 then Some (None, cs)
      else case st of
        PV3 s \<Rightarrow>
          if e_protocol edge = UniswapV3 then map_option (\<lambda>q. (q, cs)) (cl_execution_quote s edge amount_in)
          else ranked_nonzero st edge amount_in cs
      | PV4 s \<Rightarrow>
          if e_protocol edge = UniswapV4 then map_option (\<lambda>q. (q, cs)) (cl_execution_quote s edge amount_in)
          else ranked_nonzero st edge amount_in cs
      | _ \<Rightarrow> ranked_nonzero st edge amount_in cs)"

section \<open>Input caps of hops without tick data\<close>

text \<open>The first earlier concentrated-liquidity hop with the same input token that already has a cap.\<close>

definition reused_cap :: "Edge list \<Rightarrow> u256 list \<Rightarrow> Edge \<Rightarrow> nat \<Rightarrow> u256 option" where
  "reused_cap edges caps edge i =
     (case filter (\<lambda>j. cl_protocol (e_protocol (edges ! j)) \<and> e_token_in (edges ! j) = e_token_in edge \<and>
                       caps ! j < - 1) [0..<i] of
        [] \<Rightarrow> None
      | j # _ \<Rightarrow> Some (caps ! j))"

text \<open>
  The loop over the route: \<open>i\<close> is the position of the first edge still to visit. Writing past the
  array of \<open>HOP_CAP\<close> entries panics.
\<close>

fun shallow_caps_loop ::
    "(u32 \<Rightarrow> u256) \<Rightarrow> (nat \<Rightarrow> Edge \<Rightarrow> bool) \<Rightarrow> Edge list \<Rightarrow> nat \<Rightarrow> Edge list \<Rightarrow> u256 list \<Rightarrow> u256 list panics" where
  "shallow_caps_loop probe tickless edges i [] caps = Some caps"
| "shallow_caps_loop probe tickless edges i (edge # rest) caps =
     (if \<not> cl_protocol (e_protocol edge) \<or> \<not> tickless i edge
      then shallow_caps_loop probe tickless edges (Suc i) rest caps
      else if i < length caps
      then shallow_caps_loop probe tickless edges (Suc i) rest
             (caps[i := or_default (reused_cap edges caps edge i) (probe (e_token_in edge))])
      else None)"

definition uncapped :: "u256 list" where
  "uncapped = replicate HOP_CAP (- 1)"

definition route_shallow_caps_with ::
    "Edge list \<Rightarrow> (u32 \<Rightarrow> u256) \<Rightarrow> (nat \<Rightarrow> Edge \<Rightarrow> bool) \<Rightarrow> u256 list panics" where
  "route_shallow_caps_with edges probe tickless = shallow_caps_loop probe tickless edges 0 edges uncapped"

definition hop_is_tickless :: "StateArena \<Rightarrow> nat \<Rightarrow> Edge \<Rightarrow> bool" where
  "hop_is_tickless arena i edge =
     (case pool_state arena (e_pool_index edge) of
        Some (PV3 s) \<Rightarrow> cl_ticks s = []
      | Some (PV4 s) \<Rightarrow> cl_ticks s = []
      | _ \<Rightarrow> True)"

definition route_shallow_caps :: "StateArena \<Rightarrow> Edge list \<Rightarrow> u256 list panics" where
  "route_shallow_caps arena edges =
     route_shallow_caps_with edges (spot_probe_for_token arena) (hop_is_tickless arena)"

definition route_has_cl_hop :: "Edge list \<Rightarrow> bool" where
  "route_has_cl_hop edges = list_ex (\<lambda>edge. cl_protocol (e_protocol edge)) edges"

definition precompute_route_shallow_caps :: "StateArena \<Rightarrow> Edge list \<Rightarrow> u256 list option panics" where
  "precompute_route_shallow_caps arena edges =
     (if route_has_cl_hop edges then map_option Some (route_shallow_caps arena edges) else Some None)"

definition effective_caps :: "StateArena \<Rightarrow> Edge list \<Rightarrow> u256 list option \<Rightarrow> u256 list panics" where
  "effective_caps arena edges precomputed =
     (case precomputed of
        Some caps \<Rightarrow> Some caps
      | None \<Rightarrow> if route_has_cl_hop edges then route_shallow_caps arena edges else Some uncapped)"

section \<open>The walk over a route\<close>

text \<open>The state and the realigned edge of a hop, \<open>None\<close> for the three early returns.\<close>

definition walk_edge :: "StateArena \<Rightarrow> Edge \<Rightarrow> (PoolState \<times> Edge) option" where
  "walk_edge arena edge = do {
     st \<leftarrow> pool_state arena (e_pool_index edge);
     if \<not> is_tradable st then None
     else do {
       edge \<leftarrow> (if multi_token_protocol (e_protocol edge) then realign_multi_token_edge arena st edge
                 else Some edge);
       Some (st, edge)
     }
   }"

text \<open>
  \<open>amounts\<close> is the caller's slice of hop amounts, when it passed one: every hop stores its output one
  slot further, and a slice that is too short ends the walk.
\<close>

definition store_amount :: "nat \<Rightarrow> u256 \<Rightarrow> u256 list option \<Rightarrow> u256 list option option" where
  "store_amount i x amounts =
     (case amounts of
        None \<Rightarrow> Some None
      | Some xs \<Rightarrow> if i < length xs then Some (Some (xs[i := x])) else None)"

fun walk_loop ::
    "StateArena \<Rightarrow> u256 list \<Rightarrow> nat \<Rightarrow> Edge list \<Rightarrow> u256 \<Rightarrow> u32 \<Rightarrow> u256 list option \<Rightarrow> CurveStats \<Rightarrow>
     (u256 \<times> u32 \<times> u256 list option) option counted" where
  "walk_loop arena caps i [] current gas amounts cs = Some (Some (current, gas, amounts), cs)"
| "walk_loop arena caps i (edge # edges) current gas amounts cs =
     (case walk_edge arena edge of
        None \<Rightarrow> Some (None, cs)
      | Some (st, edge) \<Rightarrow> do {
          cap \<leftarrow> nth_opt caps i;
          (r, cs) \<leftarrow> simulate_hop st edge current cap cs;
          (case r of
             Inl _ \<Rightarrow> Some (None, cs)
           | Inr hop \<Rightarrow>
               if current > 0 \<and> hr_amount_out hop = 0 then Some (None, cs)
               else (case store_amount (i + 1) (hr_amount_out hop) amounts of
                 None \<Rightarrow> Some (None, cs)
               | Some amounts \<Rightarrow>
                   walk_loop arena caps (Suc i) edges (hr_amount_out hop) (gas + hr_gas hop) amounts cs))
        })"

definition walk_route_hops ::
    "StateArena \<Rightarrow> Edge list \<Rightarrow> u256 \<Rightarrow> u256 list option \<Rightarrow> u256 list option \<Rightarrow> CurveStats \<Rightarrow>
     (u256 \<times> u32 \<times> u256 list option) option counted" where
  "walk_route_hops arena edges amount_in hop_amounts precomputed cs =
     (if length edges > HOP_CAP then Some (None, cs)
      else do {
        shallow_caps \<leftarrow> effective_caps arena edges precomputed;
        (case store_amount 0 amount_in hop_amounts of
           None \<Rightarrow> Some (None, cs)
         | Some amounts \<Rightarrow> walk_loop arena shallow_caps 0 edges amount_in 0 amounts cs)
      })"

text \<open>\<open>windows(2).position\<close>: the first pair of neighbours that does not chain.\<close>

definition hops_chain :: "StateArena \<Rightarrow> Edge \<Rightarrow> Edge \<Rightarrow> bool" where
  "hops_chain arena e e' =
     (case (token_address arena (e_token_out e), token_address arena (e_token_in e')) of
        (Some a, Some b) \<Rightarrow> a = b
      | _ \<Rightarrow> e_token_out e = e_token_in e')"

fun first_hop_continuity_break_in_arena :: "StateArena \<Rightarrow> Edge list \<Rightarrow> nat option" where
  "first_hop_continuity_break_in_arena arena (e # e' # edges) =
     (if \<not> hops_chain arena e e' then Some 0
      else map_option Suc (first_hop_continuity_break_in_arena arena (e' # edges)))"
| "first_hop_continuity_break_in_arena arena _ = None"

definition route_edges_simulatable :: "StateArena \<Rightarrow> Edge list \<Rightarrow> bool" where
  "route_edges_simulatable arena edges \<longleftrightarrow>
     edges \<noteq> [] \<and> length edges \<le> HOP_CAP \<and> first_hop_continuity_break_in_arena arena edges = None"

record MinimalSimResult =
  ms_profit :: u256
  ms_amount_out :: u256
  ms_total_gas :: u32

record RouteSimulationResult =
  rs_amount_in :: u256
  rs_amount_out :: u256
  rs_profit :: u256
  rs_profitable :: bool
  rs_hop_amounts :: "u256 list"
  rs_total_gas :: u32
  rs_hop_count :: u32

definition hop_amounts_zeroed :: "nat \<Rightarrow> u256 list" where
  "hop_amounts_zeroed hop_count = replicate (hop_count + 1) 0"

definition simulate_route_minimal_with_caps ::
    "StateArena \<Rightarrow> Edge list \<Rightarrow> u256 \<Rightarrow> u256 list option \<Rightarrow> CurveStats \<Rightarrow> MinimalSimResult option counted" where
  "simulate_route_minimal_with_caps arena edges amount_in precomputed cs =
     (if \<not> route_edges_simulatable arena edges then Some (None, cs)
      else if amount_in = 0 then
        Some (Some \<lparr>ms_profit = 0, ms_amount_out = 0, ms_total_gas = finalize_route_total_gas edges 0\<rparr>, cs)
      else do {
        (walked, cs) \<leftarrow> walk_route_hops arena edges amount_in None precomputed cs;
        Some (case walked of
            None \<Rightarrow> None
          | Some (amount_out, walked_gas, _) \<Rightarrow>
              Some \<lparr>ms_profit = saturating_sub amount_out amount_in, ms_amount_out = amount_out,
                    ms_total_gas = finalize_route_total_gas edges walked_gas\<rparr>, cs)
      })"

definition simulate_route_minimal ::
    "StateArena \<Rightarrow> Edge list \<Rightarrow> u256 \<Rightarrow> CurveStats \<Rightarrow> MinimalSimResult option counted" where
  "simulate_route_minimal arena edges amount_in cs =
     simulate_route_minimal_with_caps arena edges amount_in None cs"

definition simulate_route_detailed_with_caps ::
    "StateArena \<Rightarrow> Edge list \<Rightarrow> u256 \<Rightarrow> u256 list option \<Rightarrow> CurveStats \<Rightarrow> RouteSimulationResult option counted" where
  "simulate_route_detailed_with_caps arena edges amount_in precomputed cs =
     (let hop_count = length edges
      in if \<not> route_edges_simulatable arena edges then Some (None, cs)
      else if amount_in = 0 then
        Some (Some \<lparr>rs_amount_in = 0, rs_amount_out = 0, rs_profit = 0, rs_profitable = False,
                    rs_hop_amounts = hop_amounts_zeroed hop_count,
                    rs_total_gas = finalize_route_total_gas edges 0, rs_hop_count = of_nat hop_count\<rparr>, cs)
      else do {
        let hop_amounts = hop_amounts_zeroed hop_count;
        (walked, cs) \<leftarrow> walk_route_hops arena edges amount_in (Some hop_amounts) precomputed cs;
        Some (case walked of
            None \<Rightarrow> None
          | Some (amount_out, walked_gas, amounts) \<Rightarrow>
              let profit = saturating_sub amount_out amount_in
              in Some \<lparr>rs_amount_in = amount_in, rs_amount_out = amount_out, rs_profit = profit,
                       rs_profitable = (profit > 0), rs_hop_amounts = or_default amounts hop_amounts,
                       rs_total_gas = finalize_route_total_gas edges walked_gas,
                       rs_hop_count = of_nat hop_count\<rparr>, cs)
      })"

definition simulate_route_detailed ::
    "StateArena \<Rightarrow> Edge list \<Rightarrow> u256 \<Rightarrow> CurveStats \<Rightarrow> RouteSimulationResult option counted" where
  "simulate_route_detailed arena edges amount_in cs =
     simulate_route_detailed_with_caps arena edges amount_in None cs"

section \<open>Why a simulation fails\<close>

datatype MinimalSimFailure =
    InvalidRoute
  | MissingPool nat
  | NonTradable nat
  | ClTickless nat
  | ClCapExceeded nat
  | ClSynthetic nat
  | ShallowCl nat
  | V2ReserveExhausted nat
  | TokenMismatch nat
  | MathFailure nat
  | UnsupportedState nat ProtocolType UnsupportedStateKind
  | BalancerMaxInRatio nat
  | ZeroOutput nat ProtocolType

text \<open>The arms of the match that precede the quote.\<close>

definition unsupported_or_ok :: "nat \<Rightarrow> PoolState \<Rightarrow> Edge \<Rightarrow> MinimalSimFailure option" where
  "unsupported_or_ok hop st edge =
     (if protocol_matches_pool_state (e_protocol edge) st then None
      else Some (UnsupportedState hop (e_protocol edge) (pool_state_kind st)))"

definition cl_cap_failure :: "nat \<Rightarrow> PoolState \<Rightarrow> MinimalSimFailure" where
  "cl_cap_failure hop st = (if cl_hop_tickless st then ClTickless hop else ClCapExceeded hop)"

fun failure_before_quote :: "nat \<Rightarrow> PoolState \<Rightarrow> Edge \<Rightarrow> u256 \<Rightarrow> u256 \<Rightarrow> MinimalSimFailure option" where
  "failure_before_quote hop (PV2 s) edge current cap =
     (if e_protocol edge = UniswapV2 \<and> current \<ge> v2_reserve_in s (e_zero_for_one edge)
      then Some (V2ReserveExhausted hop) else unsupported_or_ok hop (PV2 s) edge)"
| "failure_before_quote hop (PV3 s) edge current cap =
     (if cl_protocol (e_protocol edge) \<and> cl_hop_exceeds_shallow_cap current cap
      then Some (cl_cap_failure hop (PV3 s)) else unsupported_or_ok hop (PV3 s) edge)"
| "failure_before_quote hop (PV4 s) edge current cap =
     (if cl_protocol (e_protocol edge) \<and> cl_hop_exceeds_shallow_cap current cap
      then Some (cl_cap_failure hop (PV4 s)) else unsupported_or_ok hop (PV4 s) edge)"
| "failure_before_quote hop st edge current cap = unsupported_or_ok hop st edge"

fun math_failure :: "StateArena \<Rightarrow> nat \<Rightarrow> PoolState \<Rightarrow> Edge \<Rightarrow> u256 \<Rightarrow> MinimalSimFailure" where
  "math_failure arena hop (PBalancer s) edge current =
     (if e_protocol edge = BalancerV2 then
        let bal = balancer_balance_in s (unat (e_token_in_idx edge)) (token_address arena (e_token_in edge))
        in if exceeds_balancer_max_in_ratio current bal then BalancerMaxInRatio hop
           else ZeroOutput hop BalancerV2
      else if e_protocol edge = Dodo \<or> e_protocol edge = Woofi then ZeroOutput hop (e_protocol edge)
      else MathFailure hop)"
| "math_failure arena hop st edge current =
     (if e_protocol edge = Dodo \<or> e_protocol edge = Woofi then ZeroOutput hop (e_protocol edge)
      else MathFailure hop)"

fun reject_failure :: "StateArena \<Rightarrow> nat \<Rightarrow> PoolState \<Rightarrow> Edge \<Rightarrow> u256 \<Rightarrow> HopReject \<Rightarrow> MinimalSimFailure" where
  "reject_failure arena hop st edge current RClCap = cl_cap_failure hop st"
| "reject_failure arena hop st edge current RClSynthetic = ClSynthetic hop"
| "reject_failure arena hop st edge current RClShallow = ShallowCl hop"
| "reject_failure arena hop st edge current RMath = math_failure arena hop st edge current"

fun failure_loop ::
    "StateArena \<Rightarrow> u256 list \<Rightarrow> nat \<Rightarrow> Edge list \<Rightarrow> u256 \<Rightarrow> CurveStats \<Rightarrow> MinimalSimFailure option counted" where
  "failure_loop arena caps hop [] current cs = Some (None, cs)"
| "failure_loop arena caps hop (edge # edges) current cs =
     (case pool_state arena (e_pool_index edge) of
        None \<Rightarrow> Some (Some (MissingPool hop), cs)
      | Some st \<Rightarrow>
          if \<not> is_tradable st then Some (Some (NonTradable hop), cs)
          else (case (if multi_token_protocol (e_protocol edge) then realign_multi_token_edge arena st edge
                      else Some edge) of
            None \<Rightarrow> Some (Some (TokenMismatch hop), cs)
          | Some edge \<Rightarrow> do {
              cap \<leftarrow> nth_opt caps hop;
              (case failure_before_quote hop st edge current cap of
                 Some failure \<Rightarrow> Some (Some failure, cs)
               | None \<Rightarrow> do {
                   (r, cs) \<leftarrow> simulate_hop st edge current cap cs;
                   (case r of
                      Inl reject \<Rightarrow> Some (Some (reject_failure arena hop st edge current reject), cs)
                    | Inr result \<Rightarrow>
                        if hr_amount_out result = 0 then Some (Some (ZeroOutput hop (e_protocol edge)), cs)
                        else failure_loop arena caps (Suc hop) edges (hr_amount_out result) cs)
                 })
            }))"

definition minimal_sim_failure ::
    "StateArena \<Rightarrow> Edge list \<Rightarrow> u256 \<Rightarrow> CurveStats \<Rightarrow> MinimalSimFailure option counted" where
  "minimal_sim_failure arena edges amount_in cs =
     (if \<not> route_edges_simulatable arena edges then Some (Some InvalidRoute, cs)
      else if amount_in = 0 then Some (None, cs)
      else do {
        shallow_caps \<leftarrow> (if route_has_cl_hop edges then route_shallow_caps arena edges else Some uncapped);
        failure_loop arena shallow_caps 0 edges amount_in cs
      })"

text \<open>The two filters of the cycle selection keep only the failures that more tick data cannot cure.\<close>

fun dead_at_micro :: "MinimalSimFailure \<Rightarrow> bool" where
  "dead_at_micro (ZeroOutput _ _) = True"
| "dead_at_micro (BalancerMaxInRatio _) = True"
| "dead_at_micro (V2ReserveExhausted _) = True"
| "dead_at_micro (TokenMismatch _) = True"
| "dead_at_micro _ = False"

fun dead_at_floor :: "MinimalSimFailure \<Rightarrow> bool" where
  "dead_at_floor (ZeroOutput _ _) = True"
| "dead_at_floor (BalancerMaxInRatio _) = True"
| "dead_at_floor (V2ReserveExhausted _) = True"
| "dead_at_floor _ = False"

definition keep_failure :: "(MinimalSimFailure \<Rightarrow> bool) \<Rightarrow> MinimalSimFailure option \<Rightarrow> MinimalSimFailure option" where
  "keep_failure P failure =
     (case failure of Some f \<Rightarrow> (if P f then Some f else None) | None \<Rightarrow> None)"

definition micro_probe_liquidity_dead ::
    "StateArena \<Rightarrow> Edge list \<Rightarrow> u256 \<Rightarrow> CurveStats \<Rightarrow> MinimalSimFailure option counted" where
  "micro_probe_liquidity_dead arena edges micro_probe cs = do {
     (failure, cs) \<leftarrow> minimal_sim_failure arena edges micro_probe cs;
     Some (keep_failure dead_at_micro failure, cs)
   }"

definition economic_floor_liquidity_dead ::
    "StateArena \<Rightarrow> Edge list \<Rightarrow> u256 \<Rightarrow> CurveStats \<Rightarrow> MinimalSimFailure option counted" where
  "economic_floor_liquidity_dead arena edges economic_floor cs =
     (if economic_floor = 0 then Some (None, cs)
      else do {
        (failure, cs) \<leftarrow> minimal_sim_failure arena edges economic_floor cs;
        Some (keep_failure dead_at_floor failure, cs)
      })"

section \<open>Reserve and tick screens\<close>

fun dust_from :: "nat \<Rightarrow> StateArena \<Rightarrow> Edge list \<Rightarrow> nat option" where
  "dust_from hop arena [] = None"
| "dust_from hop arena (edge # edges) =
     (if e_protocol edge \<noteq> UniswapV2 then dust_from (Suc hop) arena edges
      else case pool_state arena (e_pool_index edge) of
        Some (PV2 st) \<Rightarrow>
          if v2_reserve0 st < V2_MIN_RESERVE \<or> v2_reserve1 st < V2_MIN_RESERVE then Some hop
          else dust_from (Suc hop) arena edges
      | _ \<Rightarrow> dust_from (Suc hop) arena edges)"

definition v2_any_hop_dust_reserves :: "StateArena \<Rightarrow> Edge list \<Rightarrow> nat option" where
  "v2_any_hop_dust_reserves arena edges = dust_from 0 arena edges"

definition first_v2_hop_below_reserve :: "StateArena \<Rightarrow> Edge list \<Rightarrow> u256 \<Rightarrow> nat option" where
  "first_v2_hop_below_reserve arena edges min_amount =
     (if min_amount = 0 then None
      else case edges of
        [] \<Rightarrow> None
      | edge # _ \<Rightarrow>
          if e_protocol edge \<noteq> UniswapV2 then None
          else (case pool_state arena (e_pool_index edge) of
            Some (PV2 st) \<Rightarrow> if v2_reserve_in st (e_zero_for_one edge) \<le> min_amount then Some 0 else None
          | _ \<Rightarrow> None))"

fun cl_amount_cap :: "StateArena \<Rightarrow> Edge list \<Rightarrow> u256 option" where
  "cl_amount_cap arena [] = None"
| "cl_amount_cap arena (edge # edges) =
     (if \<not> cl_protocol (e_protocol edge) then cl_amount_cap arena edges
      else case pool_state arena (e_pool_index edge) of
        None \<Rightarrow> Some 0
      | Some st \<Rightarrow> if cl_hop_tickless st then Some 0 else cl_amount_cap arena edges)"

definition tickless_cl_start_input_cap :: "StateArena \<Rightarrow> u32 \<Rightarrow> Edge list \<Rightarrow> u256 option" where
  "tickless_cl_start_input_cap arena cycle_start edges =
     (if cl_amount_cap arena edges \<noteq> Some 0 then None else Some (spot_probe_for_token arena cycle_start))"

section \<open>The classification agrees with the walk\<close>

lemma failure_before_quote_rejects:
  assumes "failure_before_quote hop st edge current cap = Some failure" and "current \<noteq> 0"
  shows "\<exists>reject. simulate_hop st edge current cap cs = Some (Inl reject, cs)"
  using assms
  by (cases st)
     (auto simp: simulate_hop_def unsupported_or_ok_def cl_protocol_def Let_def split: if_splits)

lemma walk_edge_eq:
  "walk_edge arena edge =
   (case pool_state arena (e_pool_index edge) of
      None \<Rightarrow> None
    | Some st \<Rightarrow>
        if \<not> is_tradable st then None
        else map_option (\<lambda>e. (st, e))
               (if multi_token_protocol (e_protocol edge) then realign_multi_token_edge arena st edge
                else Some edge))"
  by (auto simp: walk_edge_def map_option_case bind_eq_None_conv split: option.splits)

lemma store_amount_None [simp]: "store_amount i x None = Some None"
  by (simp add: store_amount_def)

lemma failure_loop_agrees:
  "current \<noteq> 0 \<Longrightarrow>
   map_option (\<lambda>(f, cs). (f = None, cs)) (failure_loop arena caps hop edges current cs) =
   map_option (\<lambda>(r, cs). (r \<noteq> None, cs)) (walk_loop arena caps hop edges current gas None cs)"
proof (induction edges arbitrary: hop current gas cs)
  case (Cons edge edges)
  show ?case
  proof (cases "walk_edge arena edge")
    case None
    then show ?thesis by (auto simp: walk_edge_eq split: option.splits if_splits)
  next
    case (Some p)
    then obtain st e where w: "walk_edge arena edge = Some (st, e)" by (cases p) simp
    then have f: "failure_loop arena caps hop (edge # edges) current cs = do {
        cap \<leftarrow> nth_opt caps hop;
        (case failure_before_quote hop st e current cap of
           Some failure \<Rightarrow> Some (Some failure, cs)
         | None \<Rightarrow> do {
             (r, cs) \<leftarrow> simulate_hop st e current cap cs;
             (case r of
                Inl reject \<Rightarrow> Some (Some (reject_failure arena hop st e current reject), cs)
              | Inr result \<Rightarrow>
                  if hr_amount_out result = 0 then Some (Some (ZeroOutput hop (e_protocol e)), cs)
                  else failure_loop arena caps (Suc hop) edges (hr_amount_out result) cs)
           })}"
      by (auto simp: walk_edge_eq split: option.splits if_splits)
    show ?thesis
    proof (cases "nth_opt caps hop")
      case None
      then show ?thesis using w f by simp
    next
      case (Some cap)
      show ?thesis
      proof (cases "failure_before_quote hop st e current cap")
        case (Some failure)
        then obtain reject where "simulate_hop st e current cap cs = Some (Inl reject, cs)"
          using failure_before_quote_rejects Cons.prems by blast
        then show ?thesis using w f Some \<open>nth_opt caps hop = Some cap\<close> by simp
      next
        case None
        show ?thesis
        proof (cases "simulate_hop st e current cap cs")
          case None
          then show ?thesis using w f Some \<open>failure_before_quote hop st e current cap = None\<close> by simp
        next
          case (Some q)
          obtain r cs' where "q = (r, cs')" by (cases q)
          then show ?thesis
            using w f Some \<open>nth_opt caps hop = Some cap\<close> \<open>failure_before_quote hop st e current cap = None\<close>
              Cons.prems Cons.IH
            by (cases r) (simp_all add: word_gt_0)
        qed
      qed
    qed
  qed
qed simp

section \<open>The detailed walk\<close>

definition forget_amounts ::
    "(u256 \<times> u32 \<times> u256 list option) option \<times> CurveStats \<Rightarrow>
     (u256 \<times> u32 \<times> u256 list option) option \<times> CurveStats" where
  "forget_amounts = (\<lambda>(r, cs). (map_option (\<lambda>(out, gas, _). (out, gas, None)) r, cs))"

lemma walk_loop_forget:
  "i + length edges < length xs \<Longrightarrow>
   walk_loop arena caps i edges current gas None cs =
   map_option forget_amounts (walk_loop arena caps i edges current gas (Some xs) cs)"
proof (induction edges arbitrary: i current gas xs cs)
  case (Cons edge edges)
  show ?case
  proof (cases "\<exists>st e cap r cs'. walk_edge arena edge = Some (st, e) \<and> nth_opt caps i = Some cap \<and>
      simulate_hop st e current cap cs = Some (Inr r, cs')")
    case True
    then obtain st e cap r cs' where h: "walk_edge arena edge = Some (st, e)" "nth_opt caps i = Some cap"
      "simulate_hop st e current cap cs = Some (Inr r, cs')" by blast
    have "store_amount (Suc i) x (Some xs) = Some (Some (xs[Suc i := x]))" for x
      using Cons.prems by (simp add: store_amount_def)
    then show ?thesis
      using h Cons.IH [of "Suc i" "xs[Suc i := hr_amount_out r]"] Cons.prems
      by (simp add: forget_amounts_def)
  next
    case False
    then show ?thesis
      by (auto simp: forget_amounts_def split: option.splits sum.splits bind_splits)
  qed
qed (simp add: forget_amounts_def)

text \<open>One hop of a successful walk, with the inputs it was quoted at.\<close>

definition hop_step :: "StateArena \<Rightarrow> u256 list \<Rightarrow> nat \<Rightarrow> Edge \<Rightarrow> u256 \<Rightarrow> u256 \<Rightarrow> bool" where
  "hop_step arena caps i edge amount_in amount_out \<longleftrightarrow>
     (\<exists>st e cap r cs cs'. walk_edge arena edge = Some (st, e) \<and> nth_opt caps i = Some cap \<and>
        simulate_hop st e amount_in cap cs = Some (Inr r, cs') \<and> hr_amount_out r = amount_out)"

lemma walk_loop_Some:
  assumes "walk_loop arena caps i (edge # edges) current gas amounts cs = Some (Some result, cs')"
  shows "\<exists>st e cap r cs1 amounts'. walk_edge arena edge = Some (st, e) \<and> nth_opt caps i = Some cap \<and>
    simulate_hop st e current cap cs = Some (Inr r, cs1) \<and> (current > 0 \<longrightarrow> hr_amount_out r \<noteq> 0) \<and>
    store_amount (i + 1) (hr_amount_out r) amounts = Some amounts' \<and>
    walk_loop arena caps (Suc i) edges (hr_amount_out r) (gas + hr_gas r) amounts' cs1 =
      Some (Some result, cs')"
proof -
  obtain st e where w: "walk_edge arena edge = Some (st, e)"
    using assms by (cases "walk_edge arena edge") auto
  obtain cap where cap: "nth_opt caps i = Some cap"
    using assms w by (cases "nth_opt caps i") auto
  obtain h cs1 where s: "simulate_hop st e current cap cs = Some (h, cs1)"
    using assms w cap by (cases "simulate_hop st e current cap cs") auto
  obtain r where r: "h = Inr r"
    using assms w cap s by (cases h) auto
  show ?thesis
    using assms w cap s r by (auto split: if_splits option.splits)
qed

lemma walk_loop_chain:
  assumes "walk_loop arena caps i edges current gas (Some xs) cs = Some (Some (out, g, amounts), cs')"
    and "i + length edges < length xs" and "xs ! i = current" and "current \<noteq> 0"
  shows "\<exists>ys. amounts = Some ys \<and> length ys = length xs \<and> take (Suc i) ys = take (Suc i) xs \<and>
    ys ! (i + length edges) = out \<and>
    (\<forall>k \<le> length edges. ys ! (i + k) \<noteq> 0) \<and>
    (\<forall>k < length edges. hop_step arena caps (i + k) (edges ! k) (ys ! (i + k)) (ys ! Suc (i + k)))"
  using assms
proof (induction edges arbitrary: i current gas xs cs)
  case (Cons edge edges)
  then obtain st e cap r cs1 amounts' where h: "walk_edge arena edge = Some (st, e)"
      "nth_opt caps i = Some cap" "simulate_hop st e current cap cs = Some (Inr r, cs1)"
      and nz: "hr_amount_out r \<noteq> 0" and st: "store_amount (i + 1) (hr_amount_out r) (Some xs) = Some amounts'"
      and rest: "walk_loop arena caps (Suc i) edges (hr_amount_out r) (gas + hr_gas r) amounts' cs1 =
        Some (Some (out, g, amounts), cs')"
    using walk_loop_Some [OF Cons.prems(1)] by (auto simp: word_gt_0)
  let ?xs = "xs[Suc i := hr_amount_out r]"
  have "amounts' = Some ?xs" using st by (simp add: store_amount_def split: if_splits)
  then obtain ys where ys: "amounts = Some ys" "length ys = length xs" "take (Suc (Suc i)) ys = take (Suc (Suc i)) ?xs"
      "ys ! (Suc i + length edges) = out" "\<forall>k \<le> length edges. ys ! (Suc i + k) \<noteq> 0"
      "\<forall>k < length edges. hop_step arena caps (Suc i + k) (edges ! k) (ys ! (Suc i + k)) (ys ! Suc (Suc i + k))"
    using Cons.IH [of "Suc i" "hr_amount_out r" "gas + hr_gas r" ?xs cs1] rest Cons.prems(2) nz by auto
  have at: "ys ! k = ?xs ! k" if "k \<le> Suc i" for k
    using arg_cong [OF ys(3), of "\<lambda>zs. zs ! k"] that by simp
  have "take (Suc i) ys = take (Suc i) xs"
    using at Cons.prems(2) ys(2) by (intro nth_equalityI) auto
  moreover have cur: "ys ! i = current" using at [of i] Cons.prems(3) by simp
  moreover have nxt: "ys ! Suc i = hr_amount_out r" using at [of "Suc i"] Cons.prems(2) by simp
  moreover have "hop_step arena caps i edge (ys ! i) (ys ! Suc i)"
    using h cur nxt by (auto simp: hop_step_def)
  then have "hop_step arena caps (i + k) ((edge # edges) ! k) (ys ! (i + k)) (ys ! Suc (i + k))"
    if "k < length (edge # edges)" for k
    using ys(6) that by (cases k) auto
  moreover have "ys ! (i + k) \<noteq> 0" if "k \<le> length (edge # edges)" for k
    using ys(5) that cur Cons.prems(4) by (cases k) auto
  ultimately show ?case using ys by auto
qed auto

lemma store_zeroed: "store_amount 0 x (Some (hop_amounts_zeroed n)) = Some (Some (x # replicate n 0))"
  by (simp add: store_amount_def hop_amounts_zeroed_def)

lemma walk_route_forget:
  "walk_route_hops arena edges amount_in None precomputed cs =
   map_option forget_amounts
     (walk_route_hops arena edges amount_in (Some (hop_amounts_zeroed (length edges))) precomputed cs)"
proof (cases "effective_caps arena edges precomputed")
  case (Some caps)
  then show ?thesis
    using walk_loop_forget [of 0 edges "amount_in # replicate (length edges) 0" arena caps amount_in 0 cs]
    by (simp add: walk_route_hops_def store_zeroed forget_amounts_def)
qed (simp add: walk_route_hops_def forget_amounts_def)

section \<open>The caps in closed form\<close>

definition hop_cap :: "(u32 \<Rightarrow> u256) \<Rightarrow> (nat \<Rightarrow> Edge \<Rightarrow> bool) \<Rightarrow> Edge list \<Rightarrow> nat \<Rightarrow> u256" where
  "hop_cap probe tickless edges i =
     (if i < length edges \<and> cl_protocol (e_protocol (edges ! i)) \<and> tickless i (edges ! i)
      then probe (e_token_in (edges ! i)) else - 1)"

lemma reused_cap_probe:
  assumes "\<forall>j < i. caps ! j = hop_cap probe tickless edges j"
  shows "or_default (reused_cap edges caps edge i) (probe (e_token_in edge)) = probe (e_token_in edge)"
proof (cases "filter (\<lambda>j. cl_protocol (e_protocol (edges ! j)) \<and> e_token_in (edges ! j) = e_token_in edge \<and>
    caps ! j < - 1) [0..<i]")
  case (Cons j js)
  then have "j \<in> set (filter (\<lambda>j. cl_protocol (e_protocol (edges ! j)) \<and>
      e_token_in (edges ! j) = e_token_in edge \<and> caps ! j < - 1) [0..<i])" by simp
  then have "j < i" and "e_token_in (edges ! j) = e_token_in edge" and "caps ! j < - 1" by auto
  then show ?thesis
    using assms Cons by (auto simp: reused_cap_def or_default_def hop_cap_def split: if_splits)
qed (simp add: reused_cap_def or_default_def)

lemma shallow_caps_loop_eq:
  assumes "rest = drop i edges" and "length edges \<le> length caps"
    and "\<forall>j < i. caps ! j = hop_cap probe tickless edges j" and "\<forall>j. i \<le> j \<and> j < length caps \<longrightarrow> caps ! j = - 1"
  shows "shallow_caps_loop probe tickless edges i rest caps =
    Some (map (hop_cap probe tickless edges) [0..<length caps])"
  using assms
proof (induction rest arbitrary: i caps)
  case Nil
  have "caps ! j = hop_cap probe tickless edges j" if "j < length caps" for j
    using Nil that by (cases "j < i") (auto simp: hop_cap_def)
  then have "caps = map (hop_cap probe tickless edges) [0..<length caps]"
    by (intro nth_equalityI) simp_all
  then show ?case by simp
next
  case (Cons edge rest)
  have i: "i < length edges" using Cons.prems(1) by (metis drop_eq_Nil list.distinct(1) not_le)
  then have edge: "edges ! i = edge" and rest: "rest = drop (Suc i) edges"
    using Cons.prems(1) by (auto simp: Cons_nth_drop_Suc [symmetric])
  show ?case
  proof (cases "cl_protocol (e_protocol edge) \<and> tickless i edge")
    case True
    let ?caps = "caps[i := probe (e_token_in edge)]"
    have "?caps ! j = hop_cap probe tickless edges j" if "j < Suc i" for j
      using that Cons.prems(2,3) i True edge by (cases "j = i") (auto simp: hop_cap_def)
    then show ?thesis
      using Cons.IH [OF rest, of ?caps] Cons.prems(2-4) i True reused_cap_probe [OF Cons.prems(3)] by auto
  next
    case False
    have "caps ! j = hop_cap probe tickless edges j" if "j < Suc i" for j
      using that Cons.prems(2-4) i False edge by (cases "j = i") (auto simp: hop_cap_def)
    then show ?thesis using Cons.IH [OF rest, of caps] Cons.prems(2,4) False by auto
  qed
qed

lemma route_shallow_caps_eq:
  assumes "length edges \<le> HOP_CAP"
  shows "route_shallow_caps arena edges =
    Some (map (hop_cap (spot_probe_for_token arena) (hop_is_tickless arena) edges) [0..<HOP_CAP])"
  unfolding route_shallow_caps_def route_shallow_caps_with_def
  using assms shallow_caps_loop_eq [of edges 0 edges uncapped] by (simp add: uncapped_def)

lemma effective_caps_eq:
  assumes "length edges \<le> HOP_CAP"
  shows "effective_caps arena edges None =
    Some (map (hop_cap (spot_probe_for_token arena) (hop_is_tickless arena) edges) [0..<HOP_CAP])"
proof (cases "route_has_cl_hop edges")
  case False
  then have "hop_cap (spot_probe_for_token arena) (hop_is_tickless arena) edges i = - 1" for i
    by (auto simp: hop_cap_def route_has_cl_hop_def list_ex_iff)
  then show ?thesis using False by (auto simp: effective_caps_def uncapped_def intro: nth_equalityI)
qed (simp add: effective_caps_def route_shallow_caps_eq [OF assms])

section \<open>What a hop can pay\<close>

text \<open>The quantities a deployed pool of each family respects, and the reserve a hop is paid from.\<close>

fun state_wf :: "PoolState \<Rightarrow> bool" where
  "state_wf (PV2 s) = v2_wf s"
| "state_wf (PV4 s) = (cl_fee s < 2 ^ 32)"
| "state_wf (PCurve s) = curve_wf s"
| "state_wf (PBalancer s) = (length (bal_balances s) < 2 ^ 32)"
| "state_wf (PDodo s) = dodo_consistent s"
| "state_wf (PWoofi s) = woofi_wf s"
| "state_wf _ = True"

definition woofi_hop_dir :: "WoofiPoolState \<Rightarrow> Edge \<Rightarrow> woofi_dir" where
  "woofi_hop_dir s edge =
     (let n = length (wf_base_states s); tin = unat (e_token_in_idx edge); tout = unat (e_token_out_idx edge)
      in (tin \<ge> n, tout \<ge> n, if tin \<ge> n then None else Some tin, if tout \<ge> n then None else Some tout))"

fun hop_reserve :: "PoolState \<Rightarrow> Edge \<Rightarrow> u256 option" where
  "hop_reserve (PV2 s) edge = Some (v2_reserve_out s (e_zero_for_one edge, Some (e_fee_bps edge)))"
| "hop_reserve (PCurve s) edge =
     Some (curve_reserve s (unat (e_token_in_idx edge), unat (e_token_out_idx edge)))"
| "hop_reserve (PBalancer s) edge =
     Some (balancer_reserve s (unat (e_token_in_idx edge), unat (e_token_out_idx edge)))"
| "hop_reserve (PDodo s) edge = Some (dodo_reserve s (e_token_in_idx edge = 0))"
| "hop_reserve (PWoofi s) edge = Some (woofi_reserve s (woofi_hop_dir s edge))"
| "hop_reserve _ edge = None"

lemma simulate_woofi_hop_eq:
  "simulate_woofi_hop s edge amount =
   map_option (\<lambda>out. nonzero_hop out GAS_WOOFI_HOP) (woofi_quote s amount (woofi_hop_dir s edge))"
  by (simp add: simulate_woofi_hop_def woofi_quote_def woofi_hop_dir_def Let_def map_conv_bind_option
      comp_def)

lemma hop_ok_iff [simp]: "hop_ok out gas = Inr r \<longleftrightarrow> r = \<lparr>hr_amount_out = out, hr_gas = gas\<rparr>"
  by (auto simp: hop_ok_def)

lemma hop_ok_not_Inl [simp]: "hop_ok out gas \<noteq> Inl reject"
  by (simp add: hop_ok_def)

lemma nonzero_hop_iff [simp]:
  "nonzero_hop out gas = Inr r \<longleftrightarrow> out \<noteq> 0 \<and> r = \<lparr>hr_amount_out = out, hr_gas = gas\<rparr>"
  by (simp add: nonzero_hop_def)

lemma curve_hop_le:
  assumes "curve_hop_amount_out s p amount i j cs = Some (Some out, cs')"
  shows "out \<le> curve_reserve s (i, j)"
proof -
  have "try_curve_stable_amount_out s amount i j = Some (Inr out) \<or>
      try_curve_crypto_amount_out s amount i j = Some (Inr out)"
  proof (cases p)
    case CurveStable
    then obtain r where r: "try_curve_stable_amount_out s amount i j = Some r"
      using assms by (auto simp: curve_hop_amount_out_def bind_eq_Some_conv)
    then show ?thesis using assms CurveStable by (cases r) (auto simp: curve_hop_amount_out_def split: if_splits)
  next
    case CurveCrypto
    then obtain r where r: "try_curve_crypto_amount_out s amount i j = Some r"
      using assms by (auto simp: curve_hop_amount_out_def bind_eq_Some_conv)
    then show ?thesis using assms CurveCrypto by (cases r) (auto simp: curve_hop_amount_out_def split: if_splits)
  qed (use assms in \<open>auto simp: curve_hop_amount_out_def\<close>)
  then show ?thesis
    using curve_stable_out_le [of s amount i j out] crypto_out_le [of s amount i j out]
    by (auto simp: curve_reserve_def)
qed

lemma curve_hop_total:
  assumes "curve_wf s" and "p \<noteq> CurveCrypto"
  shows "curve_hop_amount_out s p amount i j cs \<noteq> None"
  using assms curve_stable_total [of s amount i j]
  by (cases p) (auto simp: curve_hop_amount_out_def)

lemma cl_hop_total:
  assumes "e_protocol edge = UniswapV4 \<Longrightarrow> cl_fee s < 2 ^ 32"
  shows "simulate_cl_hop s edge amount cap \<noteq> None"
proof -
  have "v3_swap_fee s z b (e_protocol edge = UniswapV4) \<noteq> None" for z b
    using assms by (simp add: v3_swap_fee_def resolve_v3_fee_pips_def Let_def)
  then obtain fee where "v3_swap_fee s (e_zero_for_one edge) (Some (e_fee_bps edge))
      (e_protocol edge = UniswapV4) = Some fee" by auto
  then obtain r where "simulate_v3_swap s amount (e_zero_for_one edge) (Some (e_fee_bps edge))
      (e_protocol edge = UniswapV4) = Some r"
    by (cases "v3_rejects s amount fee") (auto simp: simulate_v3_swap_def Let_def)
  then show ?thesis by (simp add: simulate_cl_hop_def Let_def)
qed


lemma hop_within_reserve:
  assumes "simulate_hop st edge amount cap cs = Some (Inr r, cs')" and "state_wf st"
    and "hop_reserve st edge = Some reserve"
  shows "hr_amount_out r \<le> reserve"
proof (cases "amount = 0")
  case True
  then show ?thesis using assms(1) by (auto simp: simulate_hop_def)
next
  case False
  then have nocap: "\<not> (cl_protocol (e_protocol edge) \<and> cl_hop_exceeds_shallow_cap amount cap)"
    using assms(1) by (auto simp: simulate_hop_def)
  show ?thesis
  proof (cases st)
    case (PV2 s)
    then show ?thesis
      using assms False nocap v2.quote_le_reserve [of s amount "(e_zero_for_one edge, Some (e_fee_bps edge))"]
      by (auto simp: simulate_hop_def v2_quote_def bind_eq_Some_conv split: if_splits)
  next
    case (PCurve s)
    then show ?thesis
      using assms False nocap
      by (auto simp: simulate_hop_def Let_def bind_eq_Some_conv dest!: curve_hop_le
          split: if_splits option.splits)
  next
    case (PBalancer s)
    then show ?thesis
      using assms False nocap
        balancer.quote_le_reserve [of s amount "(unat (e_token_in_idx edge), unat (e_token_out_idx edge))"]
      by (auto simp: simulate_hop_def balancer_quote_def bind_eq_Some_conv split: if_splits)
  next
    case (PDodo s)
    then show ?thesis
      using assms False nocap dodo.quote_le_reserve [of s amount "e_token_in_idx edge = 0"]
      by (auto simp: simulate_hop_def dodo_quote_def split: if_splits)
  next
    case (PWoofi s)
    then show ?thesis
      using assms False nocap woofi.quote_le_reserve [of s amount "woofi_hop_dir s edge"]
      by (auto simp: simulate_hop_def simulate_woofi_hop_eq split: if_splits)
  qed (use assms in auto)
qed

lemma hop_total:
  assumes "state_wf st" and "e_protocol edge \<noteq> CurveCrypto"
  shows "simulate_hop st edge amount cap cs \<noteq> None"
proof (cases st)
  case (PV2 s)
  then show ?thesis
    using assms v2.quote_total [of s amount "(e_zero_for_one edge, Some (e_fee_bps edge))"]
    by (auto simp: simulate_hop_def v2_quote_def Let_def)
next
  case (PV3 s)
  then show ?thesis using cl_hop_total [of edge s amount cap] by (auto simp: simulate_hop_def Let_def)
next
  case (PV4 s)
  then show ?thesis using assms(1) cl_hop_total [of edge s amount cap] by (auto simp: simulate_hop_def Let_def)
next
  case (PCurve s)
  then have "curve_hop_amount_out s (e_protocol edge) amount (unat (e_token_in_idx edge))
      (unat (e_token_out_idx edge)) cs \<noteq> None"
    using assms by (intro curve_hop_total) simp_all
  then show ?thesis using PCurve by (auto simp: simulate_hop_def Let_def)
next
  case (PBalancer s)
  then show ?thesis
    using assms balancer.quote_total [of s amount "(unat (e_token_in_idx edge), unat (e_token_out_idx edge))"]
    by (auto simp: simulate_hop_def balancer_quote_def Let_def)
next
  case (PWoofi s)
  then show ?thesis
    using assms woofi.quote_total [of s amount "woofi_hop_dir s edge"]
    by (auto simp: simulate_hop_def simulate_woofi_hop_eq Let_def)
qed (auto simp: simulate_hop_def Let_def)

lemma walk_edge_SomeD:
  assumes "walk_edge arena edge = Some (st, e)"
  shows "pool_state arena (e_pool_index edge) = Some st" and "is_tradable st"
    and "e_protocol e = e_protocol edge"
  using assms realign_keeps_route [of arena st edge e]
  by (auto simp: walk_edge_eq split: option.splits if_splits)

lemma hop_step_within_reserve:
  assumes "hop_step arena caps i edge x y"
    and "\<And>st. pool_state arena (e_pool_index edge) = Some st \<Longrightarrow> state_wf st"
  shows "\<exists>st e. walk_edge arena edge = Some (st, e) \<and> (\<forall>reserve. hop_reserve st e = Some reserve \<longrightarrow> y \<le> reserve)"
  using assms by (auto simp: hop_step_def dest: walk_edge_SomeD(1) hop_within_reserve)

lemma walk_loop_total:
  assumes "i + length edges \<le> length caps"
    and "\<forall>edge \<in> set edges. e_protocol edge \<noteq> CurveCrypto"
    and "\<forall>edge \<in> set edges. \<forall>st. pool_state arena (e_pool_index edge) = Some st \<longrightarrow> state_wf st"
  shows "walk_loop arena caps i edges current gas amounts cs \<noteq> None"
  using assms
proof (induction edges arbitrary: i current gas amounts cs)
  case (Cons edge edges)
  show ?case
  proof (cases "walk_edge arena edge")
    case (Some p)
    obtain st e where w: "walk_edge arena edge = Some (st, e)" using Some by (cases p) simp
    obtain cap where cap: "nth_opt caps i = Some cap" using Cons.prems(1) by (simp add: nth_opt_def)
    have "state_wf st" and "e_protocol e \<noteq> CurveCrypto"
      using walk_edge_SomeD [OF w] Cons.prems(2,3) by auto
    then obtain r cs' where s: "simulate_hop st e current cap cs = Some (r, cs')"
      using hop_total by fastforce
    have IH: "walk_loop arena caps (Suc i) edges c g a s \<noteq> None" for c g a s
      using Cons.prems by (intro Cons.IH) auto
    show ?thesis using w cap s IH by (cases r) (auto split: option.split)
  qed simp
qed simp

lemma walk_route_total:
  assumes "\<forall>edge \<in> set edges. e_protocol edge \<noteq> CurveCrypto"
    and "\<forall>edge \<in> set edges. \<forall>st. pool_state arena (e_pool_index edge) = Some st \<longrightarrow> state_wf st"
  shows "walk_route_hops arena edges amount_in amounts None cs \<noteq> None"
proof (cases "length edges \<le> HOP_CAP")
  case True
  then show ?thesis
    using effective_caps_eq [OF True, of arena] walk_loop_total [OF _ assms]
    by (auto simp: walk_route_hops_def split: option.split)
qed (simp add: walk_route_hops_def)

definition minimal_view :: "RouteSimulationResult \<Rightarrow> MinimalSimResult" where
  "minimal_view r = \<lparr>ms_profit = rs_profit r, ms_amount_out = rs_amount_out r, ms_total_gas = rs_total_gas r\<rparr>"

lemma detailed_walk:
  assumes "simulate_route_detailed arena edges amount_in cs = Some (Some r, cs')" and "amount_in \<noteq> 0"
  defines "caps \<equiv> map (hop_cap (spot_probe_for_token arena) (hop_is_tickless arena) edges) [0..<HOP_CAP]"
  shows "length edges \<le> HOP_CAP \<and> length (rs_hop_amounts r) = Suc (length edges) \<and>
    rs_hop_amounts r ! 0 = amount_in \<and> rs_hop_amounts r ! length edges = rs_amount_out r \<and>
    (\<forall>k \<le> length edges. rs_hop_amounts r ! k \<noteq> 0) \<and>
    rs_profit r = saturating_sub (rs_amount_out r) amount_in \<and>
    (\<forall>k < length edges. hop_step arena caps k (edges ! k) (rs_hop_amounts r ! k) (rs_hop_amounts r ! Suc k))"
proof -
  have short: "length edges \<le> HOP_CAP"
    using assms(1) by (auto simp: simulate_route_detailed_def simulate_route_detailed_with_caps_def
        route_edges_simulatable_def Let_def split: if_splits)
  obtain out g amounts where w: "walk_loop arena caps 0 edges amount_in 0
      (Some (amount_in # replicate (length edges) 0)) cs = Some (Some (out, g, amounts), cs')"
    and r: "rs_amount_out r = out" "rs_profit r = saturating_sub out amount_in"
      "rs_hop_amounts r = or_default amounts (hop_amounts_zeroed (length edges))"
    using assms(1,2) short
    by (auto simp: simulate_route_detailed_def simulate_route_detailed_with_caps_def walk_route_hops_def
        effective_caps_eq [OF short] store_zeroed caps_def Let_def bind_eq_Some_conv
        split: if_splits option.splits)
  have first: "ys ! 0 = x" if "take (Suc 0) ys = [x]" for ys and x :: u256
    using that by (cases ys) auto
  show ?thesis
    using walk_loop_chain [OF w] short assms(2) r by (auto simp: or_default_def first)
qed

section \<open>Properties\<close>

text \<open>
  Property C4. The detailed simulation refines the minimal one: for every route, amount, set of caps and
  counters, forgetting the hop trace of the detailed result gives exactly the minimal result, with the
  same panics, the same rejections and the same counters. A size found with the cheap simulation is
  therefore the one the calldata is built from.
\<close>

theorem detailed_refines_minimal:
  "simulate_route_minimal_with_caps arena edges amount_in precomputed cs =
   map_option (\<lambda>(r, cs'). (map_option minimal_view r, cs'))
     (simulate_route_detailed_with_caps arena edges amount_in precomputed cs)"
  using walk_route_forget [of arena edges amount_in precomputed cs]
  by (auto simp: simulate_route_minimal_with_caps_def simulate_route_detailed_with_caps_def minimal_view_def
      forget_amounts_def Let_def split: option.splits bind_splits)

text \<open>
  Property C5. The failure classification is complete and sound: it names a failure exactly when the
  simulation of the same route and amount fails, panics exactly when it panics, and leaves the Curve
  counters exactly as the simulation does.
\<close>

theorem failure_classification_agrees:
  "map_option (\<lambda>(failure, cs'). (failure = None, cs')) (minimal_sim_failure arena edges amount_in cs) =
   map_option (\<lambda>(r, cs'). (r \<noteq> None, cs')) (simulate_route_minimal arena edges amount_in cs)"
proof (cases "\<not> route_edges_simulatable arena edges \<or> amount_in = 0")
  case True
  then show ?thesis
    by (auto simp: minimal_sim_failure_def simulate_route_minimal_def simulate_route_minimal_with_caps_def)
next
  case False
  then have short: "length edges \<le> HOP_CAP" by (simp add: route_edges_simulatable_def)
  let ?caps = "map (hop_cap (spot_probe_for_token arena) (hop_is_tickless arena) edges) [0..<HOP_CAP]"
  have "minimal_sim_failure arena edges amount_in cs = failure_loop arena ?caps 0 edges amount_in cs"
    using False effective_caps_eq [OF short, of arena]
    by (auto simp: minimal_sim_failure_def effective_caps_def split: if_splits)
  moreover have "map_option (\<lambda>(r, cs'). (r \<noteq> None, cs')) (simulate_route_minimal arena edges amount_in cs) =
      map_option (\<lambda>(r, cs'). (r \<noteq> None, cs')) (walk_loop arena ?caps 0 edges amount_in 0 None cs)"
    using False short
    by (cases "walk_loop arena ?caps 0 edges amount_in 0 None cs")
       (auto simp: simulate_route_minimal_def simulate_route_minimal_with_caps_def walk_route_hops_def
        effective_caps_eq [OF short] split: option.split)
  ultimately show ?thesis
    using failure_loop_agrees [of amount_in arena ?caps 0 edges cs 0] False by simp
qed

text \<open>
  Property C17. On pools with the quantities of deployed contracts no simulation of a route without crypto
  pools panics, whatever the amount and the counters: every division, index and conversion on the path
  through the seven other pool families is guarded.
\<close>

theorem route_simulation_never_panics:
  assumes "\<forall>edge \<in> set edges. e_protocol edge \<noteq> CurveCrypto"
    and "\<forall>edge \<in> set edges. \<forall>st. pool_state arena (e_pool_index edge) = Some st \<longrightarrow> state_wf st"
  shows "simulate_route_detailed arena edges amount_in cs \<noteq> None \<and>
         simulate_route_minimal arena edges amount_in cs \<noteq> None"
  using walk_route_total [OF assms, of amount_in None cs]
    walk_route_total [OF assms, of amount_in "Some (hop_amounts_zeroed (length edges))" cs]
  by (auto simp: simulate_route_detailed_def simulate_route_detailed_with_caps_def
      simulate_route_minimal_def simulate_route_minimal_with_caps_def Let_def split: option.splits)


text \<open>
  An execution-grade quote is never better than the ranking quote: where the strict quote
  exists it is nonzero, the ranking quote of the same hop is the same amount, and a concentrated-liquidity
  walk behind it neither ran out of ticks nor used a synthetic boundary.
\<close>

theorem execution_quote_is_ranking_quote:
  assumes "simulate_hop_amount_out_for_execution st edge amount_in cs = Some (Some q, cs')"
  shows "q \<noteq> 0 \<and> simulate_hop_amount_out st edge amount_in cs = Some (Some q, cs') \<and>
    (\<forall>s. (st = PV3 s \<and> e_protocol edge = UniswapV3 \<or> st = PV4 s \<and> e_protocol edge = UniswapV4) \<longrightarrow>
       (\<exists>v. simulate_v3_swap s amount_in (e_zero_for_one edge) (Some (e_fee_bps edge))
              (e_protocol edge = UniswapV4) = Some v \<and>
            \<not> v3_shallow v \<and> \<not> v3_synthetic v \<and> v3_amount_out v = q))"
proof -
  have nz: "amount_in \<noteq> 0" using assms by (auto simp: simulate_hop_amount_out_for_execution_def split: if_splits)
  have nocap: "\<not> cl_hop_exceeds_shallow_cap amount_in (- 1)" by (simp add: cl_hop_exceeds_shallow_cap_def)
  have ranked: "q \<noteq> 0 \<and> simulate_hop_amount_out st edge amount_in cs = Some (Some q, cs')"
    if "ranked_nonzero st edge amount_in cs = Some (Some q, cs')"
    using that by (auto simp: ranked_nonzero_def bind_eq_Some_conv split: option.splits if_splits)
  have cl: "\<exists>v. simulate_v3_swap s amount_in (e_zero_for_one edge) (Some (e_fee_bps edge))
              (e_protocol edge = UniswapV4) = Some v \<and>
            \<not> v3_shallow v \<and> \<not> v3_synthetic v \<and> v3_amount_out v = q \<and> q \<noteq> 0"
    if "cl_execution_quote s edge amount_in = Some (Some q)" for s
    using that by (auto simp: cl_execution_quote_def Let_def bind_eq_Some_conv split: if_splits)
  show ?thesis
    using assms nz ranked
    by (auto simp: simulate_hop_amount_out_for_execution_def simulate_hop_amount_out_def
        simulate_hop_amount_out_with_cap_def simulate_hop_def simulate_cl_hop_def nocap Let_def hop_ok_def
        dest!: cl split: PoolState.splits if_splits)
qed

text \<open>Two V2 pools with different prices and the round trip over them.\<close>

definition sample_pair :: "u256 \<Rightarrow> u256 \<Rightarrow> V2PoolState" where
  "sample_pair r0 r1 = \<lparr>v2_reserve0 = r0, v2_reserve1 = r1, v2_fee = 997, v2_fee_denominator = 1000,
     v2_block_timestamp_last = 0\<rparr>"

definition sample_pairs_arena :: StateArena where
  "sample_pairs_arena = \<lparr>ar_tokens = [10, 20], ar_token_decimals = [18, 18],
     ar_pools = [PV2 (sample_pair 1000000000 2000000000), PV2 (sample_pair 1200000000 2000000000)],
     ar_pool_addresses = [1, 2], ar_address_to_pool = [1 \<mapsto> 0, 2 \<mapsto> 1],
     ar_address_to_token = [10 \<mapsto> 0, 20 \<mapsto> 1], ar_layout_fingerprint = 0, ar_hot_overlay = [],
     ar_hot_revisions = []\<rparr>"

definition sample_back_edge :: Edge where
  "sample_back_edge = sample_v2_edge\<lparr>e_pool_index := 1, e_token_in := 1, e_token_out := 0,
     e_token_in_idx := 1, e_token_out_idx := 0, e_zero_for_one := False\<rparr>"

definition sample_route :: "Edge list" where
  "sample_route = [sample_v2_edge, sample_back_edge]"

lemma sample_hop_0:
  "simulate_hop (PV2 (sample_pair 1000000000 2000000000)) sample_v2_edge 1000000 (- 1) cs =
   Some (hop_ok 1992013 GAS_V2_HOP, cs)"
  by (simp add: simulate_hop_def sample_v2_edge_def sample_pair_def v2_reserve_in_def simulate_v2_swap_def
      resolve_v2_fee_with_edge_def get_amount_out_def fits_u128_def Let_def cl_protocol_def pdiv_def)

lemma sample_hop_1:
  "simulate_hop (PV2 (sample_pair 1200000000 2000000000)) sample_back_edge 1992013 (- 1) cs =
   Some (hop_ok 1190440 GAS_V2_HOP, cs)"
  by (simp add: simulate_hop_def sample_route_def sample_back_edge_def sample_v2_edge_def sample_pair_def v2_reserve_in_def
      simulate_v2_swap_def resolve_v2_fee_with_edge_def get_amount_out_def fits_u128_def Let_def
      cl_protocol_def pdiv_def)

lemma sample_walk_edge_0:
  "walk_edge sample_pairs_arena sample_v2_edge = Some (PV2 (sample_pair 1000000000 2000000000), sample_v2_edge)"
  by (simp add: walk_edge_def sample_v2_edge_def sample_pairs_arena_def pool_state_def nth_opt_def
      sample_pair_def V2_MIN_RESERVE_def multi_token_protocol_def)

lemma sample_walk_edge_1:
  "walk_edge sample_pairs_arena sample_back_edge =
   Some (PV2 (sample_pair 1200000000 2000000000), sample_back_edge)"
  by (simp add: walk_edge_def sample_route_def sample_back_edge_def sample_v2_edge_def sample_pairs_arena_def pool_state_def
      nth_opt_def sample_pair_def V2_MIN_RESERVE_def multi_token_protocol_def)

lemma sample_simulatable: "route_edges_simulatable sample_pairs_arena sample_route"
  by (simp add: route_edges_simulatable_def sample_route_def sample_back_edge_def sample_v2_edge_def sample_pairs_arena_def
      HOP_CAP_def hops_chain_def token_address_def nth_opt_def)

lemma sample_caps: "effective_caps sample_pairs_arena sample_route None = Some uncapped"
  by (simp add: effective_caps_def route_has_cl_hop_def sample_route_def sample_back_edge_def sample_v2_edge_def cl_protocol_def)

lemma sample_walk:
  "walk_route_hops sample_pairs_arena sample_route 1000000 (Some (hop_amounts_zeroed 2)) None cs =
   Some (Some (1190440, 170000, Some [1000000, 1992013, 1190440]), cs)"
proof -
  have route: "sample_route = [sample_v2_edge, sample_back_edge]" by (simp add: sample_route_def)
  have cap: "nth_opt uncapped 0 = Some (- 1)" "nth_opt uncapped (Suc 0) = Some (- 1)"
    by (simp_all add: uncapped_def nth_opt_def HOP_CAP_def)
  have len: "\<not> length sample_route > HOP_CAP" by (simp add: sample_route_def HOP_CAP_def)
  have "walk_loop sample_pairs_arena uncapped 0 [sample_v2_edge, sample_back_edge] 1000000 0
      (Some [1000000, 0, 0]) cs = Some (Some (1190440, 170000, Some [1000000, 1992013, 1190440]), cs)"
    by (simp add: sample_walk_edge_0 sample_walk_edge_1 cap sample_hop_0 sample_hop_1 hop_ok_def
        store_amount_def GAS_V2_HOP_def)
  then show ?thesis
    using route len sample_caps
    by (simp add: walk_route_hops_def hop_amounts_zeroed_def store_amount_def numeral_2_eq_2)
qed

lemma sample_detailed:
  "\<exists>gas. simulate_route_detailed sample_pairs_arena sample_route 1000000 cs =
     Some (Some \<lparr>rs_amount_in = 1000000, rs_amount_out = 1190440, rs_profit = 190440, rs_profitable = True,
       rs_hop_amounts = [1000000, 1992013, 1190440], rs_total_gas = gas, rs_hop_count = 2\<rparr>, cs)"
proof -
  have len: "length sample_route = 2" by (simp add: sample_route_def)
  show ?thesis
    using sample_walk [of cs] sample_simulatable
    by (simp add: simulate_route_detailed_def simulate_route_detailed_with_caps_def len or_default_def
        saturating_sub_def)
qed

lemma sample_states_wf:
  "\<forall>edge \<in> set sample_route. \<forall>st. pool_state sample_pairs_arena (e_pool_index edge) = Some st \<longrightarrow> state_wf st"
  by (simp add: sample_route_def sample_back_edge_def sample_v2_edge_def sample_pairs_arena_def pool_state_def nth_opt_def
      sample_pair_def v2_wf_def)


theorem route_simulation_never_panics_witness:
  "simulate_route_minimal sample_pairs_arena sample_route 5 no_stats \<noteq> None"
  using route_simulation_never_panics [OF _ sample_states_wf, of 5 no_stats]
  by (simp add: sample_route_def sample_back_edge_def sample_v2_edge_def)

theorem execution_quote_is_ranking_quote_witness:
  "\<exists>q. simulate_hop_amount_out_for_execution (PV2 (sample_pair 1000000000 2000000000)) sample_v2_edge 1000000
       no_stats = Some (Some q, no_stats) \<and>
     simulate_hop_amount_out (PV2 (sample_pair 1000000000 2000000000)) sample_v2_edge 1000000 no_stats =
       Some (Some q, no_stats)"
proof -
  have "simulate_hop_amount_out_for_execution (PV2 (sample_pair 1000000000 2000000000)) sample_v2_edge 1000000
      no_stats = Some (Some 1992013, no_stats)"
    by (simp add: simulate_hop_amount_out_for_execution_def ranked_nonzero_def simulate_hop_amount_out_def
        simulate_hop_amount_out_with_cap_def sample_hop_0 hop_ok_def)
  then show ?thesis using execution_quote_is_ranking_quote by blast
qed

end
