(* ===== verification/RouteFidelity.thy ===== *)
theory RouteFidelity
  imports LocalSim
begin

text \<open>
  The checks between the evaluation of a route and its submission, last part of
  \<open>src/pipeline/local_sim.rs\<close>: every hop of the trace is checked again against the live pools, and a
  simulation repeated after a refresh is compared with the one the decision was based on.

  The optional profile that the code fills through a mutable reference is an argument and part of the
  result. The rejection messages of the comparison are strings, as in the code.
\<close>

section \<open>The model\<close>

definition RESIM_PROFIT_DRIFT_BPS :: u64 where "RESIM_PROFIT_DRIFT_BPS = 1000"
definition RESIM_HOP_DRIFT_BPS :: u64 where "RESIM_HOP_DRIFT_BPS = 200"

datatype HopFidelityReject =
  FMissingPool nat | FPoolLocked nat | FShallowCl nat | FV2ReserveExhausted nat

record HopFidelityProfile =
  hops_checked :: u32
  cl_depth_sims :: u32

record ResimFidelityProfile =
  profit_drift_bps :: u64
  max_hop_drift_bps :: u64

definition count_depth_sim :: "HopFidelityProfile option \<Rightarrow> HopFidelityProfile option" where
  "count_depth_sim = map_option (\<lambda>p. p\<lparr>cl_depth_sims := saturating_add (cl_depth_sims p) 1\<rparr>)"

definition count_hop :: "HopFidelityProfile option \<Rightarrow> HopFidelityProfile option" where
  "count_hop = map_option (\<lambda>p. p\<lparr>hops_checked := saturating_add (hops_checked p) 1\<rparr>)"

fun depth_sim_shallow :: "PoolState \<Rightarrow> Edge \<Rightarrow> u256 \<Rightarrow> bool panics" where
  "depth_sim_shallow (PV3 s) edge amount_in = do {
     r \<leftarrow> simulate_v3_swap s amount_in (e_zero_for_one edge) (Some (e_fee_bps edge)) (e_protocol edge = UniswapV4);
     Some (v3_shallow r \<or> v3_synthetic r)
   }"
| "depth_sim_shallow (PV4 s) edge amount_in = do {
     r \<leftarrow> simulate_v3_swap s amount_in (e_zero_for_one edge) (Some (e_fee_bps edge)) (e_protocol edge = UniswapV4);
     Some (v3_shallow r \<or> v3_synthetic r)
   }"
| "depth_sim_shallow _ edge amount_in = Some False"

definition cl_hop_shallow_at_amount ::
    "PoolState \<Rightarrow> Edge \<Rightarrow> u256 \<Rightarrow> u256 \<Rightarrow> HopFidelityProfile option \<Rightarrow> (bool \<times> HopFidelityProfile option) panics" where
  "cl_hop_shallow_at_amount st edge hop_probe amount_in profile =
     (if cl_hop_tickless st then Some (False, profile)
      else if cl_hop_exceeds_shallow_cap amount_in hop_probe then Some (True, profile)
      else map_option (\<lambda>b. (b, count_depth_sim profile)) (depth_sim_shallow st edge amount_in))"

definition u256_to_bps_u64 :: "u256 \<Rightarrow> u64" where
  "u256_to_bps_u64 v = (if v > ucast (- 1 :: u64) then - 1 else ucast v)"

definition hop_amount_within_drift :: "u256 \<Rightarrow> u256 \<Rightarrow> u64 \<Rightarrow> bool panics" where
  "hop_amount_within_drift baseline fresh max_drift_bps =
     (if fresh \<ge> baseline then Some True
      else if fresh = 0 then Some False
      else do {
        let lost = baseline - fresh;
        drift_bps \<leftarrow> pdiv (lost * 10000) baseline;
        Some (drift_bps \<le> ucast max_drift_bps)
      })"

text \<open>The arms of the match for one hop whose pool is known and tradable.\<close>

definition fidelity_residual ::
    "bool \<Rightarrow> nat \<Rightarrow> PoolState \<Rightarrow> Edge \<Rightarrow> u256 \<Rightarrow> CurveStats \<Rightarrow> HopFidelityReject option counted" where
  "fidelity_residual verified i st edge amount_in cs =
     (if verified \<or> amount_in = 0 then Some (None, cs)
      else do {
        (q, cs) \<leftarrow> simulate_hop_amount_out st edge amount_in cs;
        Some (if q = None then Some (FPoolLocked i) else None, cs)
      })"

definition fidelity_other ::
    "bool \<Rightarrow> nat \<Rightarrow> PoolState \<Rightarrow> Edge \<Rightarrow> u256 \<Rightarrow> HopFidelityProfile option \<Rightarrow> CurveStats \<Rightarrow>
     (HopFidelityReject option \<times> HopFidelityProfile option) counted" where
  "fidelity_other verified i st edge amount_in profile cs =
     map_option (\<lambda>(r, cs). ((r, profile), cs)) (fidelity_residual verified i st edge amount_in cs)"

definition fidelity_cl_hop ::
    "bool \<Rightarrow> u256 list \<Rightarrow> nat \<Rightarrow> PoolState \<Rightarrow> Edge \<Rightarrow> u256 \<Rightarrow> HopFidelityProfile option \<Rightarrow> CurveStats \<Rightarrow>
     (HopFidelityReject option \<times> HopFidelityProfile option) counted" where
  "fidelity_cl_hop verified probes i st edge amount_in profile cs =
     (if \<not> cl_protocol (e_protocol edge) then fidelity_other verified i st edge amount_in profile cs
      else do {
        probe \<leftarrow> nth_opt probes i;
        if cl_hop_tickless st \<or> verified then
          Some ((if cl_hop_exceeds_shallow_cap amount_in probe then Some (FShallowCl i) else None, profile), cs)
        else do {
          (shallow, profile) \<leftarrow> cl_hop_shallow_at_amount st edge probe amount_in profile;
          if shallow then Some ((Some (FShallowCl i), profile), cs)
          else fidelity_other verified i st edge amount_in profile cs
        }
      })"

fun fidelity_hop ::
    "bool \<Rightarrow> u256 list \<Rightarrow> nat \<Rightarrow> PoolState \<Rightarrow> Edge \<Rightarrow> u256 \<Rightarrow> HopFidelityProfile option \<Rightarrow> CurveStats \<Rightarrow>
     (HopFidelityReject option \<times> HopFidelityProfile option) counted" where
  "fidelity_hop verified probes i (PV2 s) edge amount_in profile cs =
     (if e_protocol edge = UniswapV2 then
        let (reserve_in, _) =
              (if e_zero_for_one edge then (v2_reserve0 s, v2_reserve1 s) else (v2_reserve1 s, v2_reserve0 s))
        in Some ((if amount_in \<ge> reserve_in then Some (FV2ReserveExhausted i) else None, profile), cs)
      else fidelity_other verified i (PV2 s) edge amount_in profile cs)"
| "fidelity_hop verified probes i (PV3 s) edge amount_in profile cs =
     fidelity_cl_hop verified probes i (PV3 s) edge amount_in profile cs"
| "fidelity_hop verified probes i (PV4 s) edge amount_in profile cs =
     fidelity_cl_hop verified probes i (PV4 s) edge amount_in profile cs"
| "fidelity_hop verified probes i st edge amount_in profile cs =
     fidelity_other verified i st edge amount_in profile cs"

fun fidelity_loop ::
    "StateArena \<Rightarrow> bool \<Rightarrow> u256 list \<Rightarrow> u256 list \<Rightarrow> nat \<Rightarrow> Edge list \<Rightarrow> HopFidelityProfile option \<Rightarrow>
     CurveStats \<Rightarrow> (HopFidelityReject option \<times> HopFidelityProfile option) counted" where
  "fidelity_loop arena verified probes hop_amounts i [] profile cs = Some ((None, profile), cs)"
| "fidelity_loop arena verified probes hop_amounts i (edge # edges) profile cs =
     (let profile = count_hop profile;
          amount_in = or_default (nth_opt hop_amounts i) 0
      in case pool_state arena (e_pool_index edge) of
           None \<Rightarrow> Some ((Some (FMissingPool i), profile), cs)
         | Some st \<Rightarrow>
             if \<not> is_tradable st then Some ((Some (FPoolLocked i), profile), cs)
             else do {
               ((reject, profile), cs) \<leftarrow> fidelity_hop verified probes i st edge amount_in profile cs;
               (case reject of
                  Some r \<Rightarrow> Some ((Some r, profile), cs)
                | None \<Rightarrow> fidelity_loop arena verified probes hop_amounts (Suc i) edges profile cs)
             })"

definition route_hop_fidelity_reject_profiled ::
    "StateArena \<Rightarrow> Edge list \<Rightarrow> u256 list \<Rightarrow> HopFidelityProfile option \<Rightarrow> bool \<Rightarrow> u256 list option \<Rightarrow>
     CurveStats \<Rightarrow> (HopFidelityReject option \<times> HopFidelityProfile option) counted" where
  "route_hop_fidelity_reject_profiled arena edges hop_amounts profile cl_depth_already_verified precomputed cs = do {
     hop_probes \<leftarrow> effective_caps arena edges precomputed;
     fidelity_loop arena cl_depth_already_verified hop_probes hop_amounts 0 edges profile cs
   }"

definition route_hop_fidelity_reject ::
    "StateArena \<Rightarrow> Edge list \<Rightarrow> u256 list \<Rightarrow> CurveStats \<Rightarrow> HopFidelityReject option counted" where
  "route_hop_fidelity_reject arena edges hop_amounts cs =
     map_option (\<lambda>((r, _), cs). (r, cs))
       (route_hop_fidelity_reject_profiled arena edges hop_amounts None False None cs)"

definition route_hop_fidelity_ok :: "StateArena \<Rightarrow> Edge list \<Rightarrow> u256 list \<Rightarrow> CurveStats \<Rightarrow> bool counted" where
  "route_hop_fidelity_ok arena edges hop_amounts cs =
     map_option (\<lambda>(r, cs). (r = None, cs)) (route_hop_fidelity_reject arena edges hop_amounts cs)"

definition route_hop_fidelity_ok_after_walk ::
    "StateArena \<Rightarrow> Edge list \<Rightarrow> u256 list \<Rightarrow> CurveStats \<Rightarrow> bool counted" where
  "route_hop_fidelity_ok_after_walk arena edges hop_amounts cs =
     map_option (\<lambda>((r, _), cs). (r = None, cs))
       (route_hop_fidelity_reject_profiled arena edges hop_amounts None True None cs)"

section \<open>The comparison of two simulations\<close>

definition profit_drift :: "u256 \<Rightarrow> u256 \<Rightarrow> u64 panics" where
  "profit_drift baseline fresh =
     (if fresh \<ge> baseline then Some 0
      else do {
        let lost = baseline - fresh;
        bps \<leftarrow> pdiv (lost * 10000) baseline;
        Some (u256_to_bps_u64 bps)
      })"

definition hop_drift :: "u256 \<Rightarrow> u256 \<Rightarrow> u64 \<Rightarrow> u64 panics" where
  "hop_drift b r worst =
     (if r < b \<and> b \<noteq> 0 then
        if r = 0 then Some (max worst 10000)
        else map_option (\<lambda>d. max worst (u256_to_bps_u64 d)) (pdiv ((b - r) * 10000) b)
      else Some worst)"

text \<open>The loop over the post-hop slots of both traces, which have the same length here.\<close>

fun resim_hops ::
    "(u256 \<times> u256) list \<Rightarrow> ResimFidelityProfile \<Rightarrow> (string option \<times> ResimFidelityProfile) panics" where
  "resim_hops [] profile = Some (None, profile)"
| "resim_hops ((b, r) # rest) profile = do {
     worst \<leftarrow> hop_drift b r (max_hop_drift_bps profile);
     let profile = profile\<lparr>max_hop_drift_bps := worst\<rparr>;
     ok \<leftarrow> hop_amount_within_drift b r RESIM_HOP_DRIFT_BPS;
     if \<not> ok then Some (Some ''hop amount drift'', profile) else resim_hops rest profile
   }"

definition route_resim_fidelity_reject_profiled ::
    "RouteSimulationResult \<Rightarrow> RouteSimulationResult \<Rightarrow> ResimFidelityProfile \<Rightarrow>
     (string option \<times> ResimFidelityProfile) panics" where
  "route_resim_fidelity_reject_profiled baseline fresh profile =
     (if rs_profit fresh = 0 then Some (Some ''resim unprofitable'', profile)
      else if length (rs_hop_amounts baseline) \<noteq> length (rs_hop_amounts fresh)
      then Some (Some ''hop count mismatch'', profile)
      else do {
        (rejected, profile) \<leftarrow>
          (if rs_profit baseline \<noteq> 0 then do {
             drift \<leftarrow> profit_drift (rs_profit baseline) (rs_profit fresh);
             let profile = profile\<lparr>profit_drift_bps := drift\<rparr>;
             let min_profit = rs_profit baseline * ucast (10000 - RESIM_PROFIT_DRIFT_BPS) div 10000;
             Some (rs_profit fresh < min_profit, profile)
           }
           else Some (False, profile));
        if rejected then Some (Some ''profit drift'', profile)
        else resim_hops (zip (drop 1 (rs_hop_amounts baseline)) (drop 1 (rs_hop_amounts fresh))) profile
      })"

definition route_resim_fidelity_reject ::
    "RouteSimulationResult \<Rightarrow> RouteSimulationResult \<Rightarrow> string option panics" where
  "route_resim_fidelity_reject baseline fresh =
     map_option fst (route_resim_fidelity_reject_profiled baseline fresh
       \<lparr>profit_drift_bps = 0, max_hop_drift_bps = 0\<rparr>)"

section \<open>The hop check after a walk\<close>

lemma walk_edge_same:
  "walk_edge arena edge = Some (st, e) \<Longrightarrow> \<not> multi_token_protocol (e_protocol edge) \<Longrightarrow> e = edge"
  by (auto simp: walk_edge_eq split: option.splits if_splits)

lemma pair_not_multi:
  "cl_protocol p \<Longrightarrow> \<not> multi_token_protocol p" "\<not> multi_token_protocol UniswapV2"
  by (auto simp: cl_protocol_def multi_token_protocol_def)

lemma simulate_hop_v2_below_reserve:
  assumes "simulate_hop (PV2 s) edge x cap cs = Some (Inr r, cs')" and "x \<noteq> 0" and "e_protocol edge = UniswapV2"
  shows "x < v2_reserve_in s (e_zero_for_one edge)"
  using assms by (auto simp: simulate_hop_def Let_def cl_protocol_def not_le split: if_splits)

lemma simulate_hop_within_cap:
  assumes "simulate_hop st edge x cap cs = Some (Inr r, cs')" and "x \<noteq> 0" and "cl_protocol (e_protocol edge)"
  shows "\<not> cl_hop_exceeds_shallow_cap x cap"
  using assms by (auto simp: simulate_hop_def Let_def)

lemma fidelity_other_verified [simp]:
  "fidelity_other True i st edge x profile cs = Some ((None, profile), cs)"
  by (simp add: fidelity_other_def fidelity_residual_def)

lemma fidelity_hop_after_step:
  assumes "hop_step arena caps i edge x y" and "x \<noteq> 0"
  shows "\<exists>st. pool_state arena (e_pool_index edge) = Some st \<and> is_tradable st \<and>
    fidelity_hop True caps i st edge x profile cs = Some ((None, profile), cs)"
proof -
  obtain st e cap r c c' where w: "walk_edge arena edge = Some (st, e)" and cap: "nth_opt caps i = Some cap"
    and sim: "simulate_hop st e x cap c = Some (Inr r, c')"
    using assms(1) by (auto simp: hop_step_def)
  have same: "e = edge" if "cl_protocol (e_protocol edge) \<or> e_protocol edge = UniswapV2"
    using that walk_edge_same [OF w] pair_not_multi by auto
  have cl: "fidelity_cl_hop True caps i st edge x profile cs = Some ((None, profile), cs)"
  proof (cases "cl_protocol (e_protocol edge)")
    case True
    then show ?thesis
      using simulate_hop_within_cap [OF sim assms(2)] same cap by (simp add: fidelity_cl_hop_def)
  qed (simp add: fidelity_cl_hop_def)
  have "fidelity_hop True caps i st edge x profile cs = Some ((None, profile), cs)"
  proof (cases st)
    case (PV2 s)
    show ?thesis
    proof (cases "e_protocol edge = UniswapV2")
      case True
      then show ?thesis
        using simulate_hop_v2_below_reserve [of s edge x cap c r c'] same sim assms(2) PV2
        by (auto simp: v2_reserve_in_def split: if_splits)
    qed (simp add: PV2)
  qed (use cl in simp_all)
  then show ?thesis using walk_edge_SomeD [OF w] by blast
qed

lemma fidelity_loop_after_walk:
  assumes "\<forall>k < length edges. hop_step arena caps (i + k) (edges ! k) (amounts ! (i + k)) (amounts ! Suc (i + k))"
    and "\<forall>k < length edges. amounts ! (i + k) \<noteq> 0" and "i + length edges \<le> length amounts"
  shows "\<exists>profile'. fidelity_loop arena True caps amounts i edges profile cs = Some ((None, profile'), cs)"
  using assms
proof (induction edges arbitrary: i profile)
  case (Cons edge edges)
  have "hop_step arena caps i edge (amounts ! i) (amounts ! Suc i)" and "amounts ! i \<noteq> 0"
    using Cons.prems(1,2) [rule_format, of 0] by simp_all
  from fidelity_hop_after_step [OF this] obtain st where
    "pool_state arena (e_pool_index edge) = Some st" "is_tradable st"
    "fidelity_hop True caps i st edge (amounts ! i) (count_hop profile) cs = Some ((None, count_hop profile), cs)"
    by blast
  moreover have "nth_opt amounts i = Some (amounts ! i)" using Cons.prems(3) by (simp add: nth_opt_def)
  moreover have "\<exists>profile'. fidelity_loop arena True caps amounts (Suc i) edges (count_hop profile) cs =
      Some ((None, profile'), cs)"
    using Cons.prems Cons.IH [of "Suc i"] by fastforce
  ultimately show ?case by (auto simp: or_default_def Let_def)
qed simp

section \<open>The drift bounds\<close>

definition within_bps :: "u256 \<Rightarrow> u256 \<Rightarrow> nat \<Rightarrow> bool" where
  "within_bps baseline fresh limit \<longleftrightarrow> (unat baseline - unat fresh) * 10000 div unat baseline \<le> limit"

lemma unat_drift:
  assumes "fresh < baseline" and "unat baseline < 2 ^ 240"
  shows "unat ((baseline - fresh) * 10000 div baseline) =
    (unat baseline - unat fresh) * 10000 div unat (baseline :: u256)"
proof -
  have lost: "unat (baseline - fresh) = unat baseline - unat fresh"
    using assms(1) by (simp add: unat_sub_nowrap)
  then have "unat (baseline - fresh) * unat (10000 :: u256) < 2 ^ LENGTH(256)" using assms(2) by simp
  then have "unat ((baseline - fresh) * 10000) = unat (baseline - fresh) * unat (10000 :: u256)"
    by (rule unat_mult_nowrap)
  then show ?thesis by (simp only: unat_div_word lost) simp
qed

lemma drift_check_iff:
  assumes "unat baseline < 2 ^ 240" and "unat limit < 10000"
  shows "hop_amount_within_drift baseline fresh limit = Some (within_bps baseline fresh (unat limit))"
proof (cases "baseline \<le> fresh")
  case True
  then show ?thesis by (simp add: hop_amount_within_drift_def within_bps_def word_le_nat_alt)
next
  case False
  then have nz: "baseline \<noteq> 0" and less: "fresh < baseline" by auto
  show ?thesis
  proof (cases "fresh = 0")
    case True
    then show ?thesis
      using False nz assms(2) unat_ne_0 [OF nz] by (simp add: hop_amount_within_drift_def within_bps_def)
  next
    case fresh: False
    have "unat (ucast limit :: u256) = unat limit"
      using assms(2) by (simp add: unsigned_ucast_eq take_bit_nat_eq_self)
    then show ?thesis
      using False fresh nz unat_drift [OF less assms(1)]
      by (simp add: hop_amount_within_drift_def within_bps_def word_le_nat_alt Let_def)
  qed
qed

lemma later_pairs:
  assumes "length xs = length ys"
  shows "(\<forall>(b, r) \<in> set (zip (drop 1 xs) (drop 1 ys)). P b r) \<longleftrightarrow>
    (\<forall>i. 1 \<le> i \<and> i < length xs \<longrightarrow> P (xs ! i) (ys ! i))" (is "?l \<longleftrightarrow> ?r")
proof
  assume ?l
  then show ?r
  proof (intro allI impI)
    fix i assume i: "1 \<le> i \<and> i < length xs"
    then have "(xs ! i, ys ! i) = zip (drop 1 xs) (drop 1 ys) ! (i - 1)"
      using assms by (cases i) (simp_all add: nth_zip)
    moreover have "i - 1 < length (zip (drop 1 xs) (drop 1 ys))" using i assms by auto
    ultimately have "(xs ! i, ys ! i) \<in> set (zip (drop 1 xs) (drop 1 ys))" by (metis nth_mem)
    then show "P (xs ! i) (ys ! i)" using \<open>?l\<close> by blast
  qed
next
  assume ?r
  then show ?l using assms by (auto simp: set_zip)
qed

lemma hop_drift_total: "hop_drift b r worst \<noteq> None"
  by (simp add: hop_drift_def)

lemma resim_hops_iff:
  assumes "\<forall>(b, r) \<in> set pairs. unat b < 2 ^ 240"
  shows "\<exists>verdict profile'. resim_hops pairs profile = Some (verdict, profile') \<and>
    (verdict = None \<longleftrightarrow> (\<forall>(b, r) \<in> set pairs. within_bps b r 200))"
  using assms
proof (induction pairs profile rule: resim_hops.induct)
  case (2 b r rest profile)
  obtain worst where "hop_drift b r (max_hop_drift_bps profile) = Some worst" using hop_drift_total by fastforce
  moreover have "hop_amount_within_drift b r RESIM_HOP_DRIFT_BPS = Some (within_bps b r 200)"
    using drift_check_iff [of b RESIM_HOP_DRIFT_BPS r] 2(2) by (simp add: RESIM_HOP_DRIFT_BPS_def)
  ultimately show ?case using "2.IH" "2.prems" by (auto simp: Let_def)
qed simp

section \<open>Properties\<close>

text \<open>
  A route that has just been simulated passes the hop check that skips the depth
  simulations: on the same arena the trace of a successful detailed simulation is never rejected, and the
  check touches no counter. The check guards against changes of the arena, not against the simulation.
\<close>

theorem walked_route_passes_hop_check:
  assumes "simulate_route_detailed arena edges amount_in cs = Some (Some r, cs')" and "amount_in \<noteq> 0"
  shows "route_hop_fidelity_ok_after_walk arena edges (rs_hop_amounts r) cs'' = Some (True, cs'')"
proof -
  let ?caps = "map (hop_cap (spot_probe_for_token arena) (hop_is_tickless arena) edges) [0..<HOP_CAP]"
  note walk = detailed_walk [OF assms]
  have "\<exists>profile'. fidelity_loop arena True ?caps (rs_hop_amounts r) 0 edges None cs'' = Some ((None, profile'), cs'')"
    using walk by (intro fidelity_loop_after_walk) auto
  then show ?thesis
    using walk effective_caps_eq [of edges arena]
    by (auto simp: route_hop_fidelity_ok_after_walk_def route_hop_fidelity_reject_profiled_def)
qed

theorem walked_route_passes_hop_check_witness:
  "\<exists>r. simulate_route_detailed sample_pairs_arena sample_route 1000000 no_stats = Some (Some r, no_stats) \<and>
     route_hop_fidelity_ok_after_walk sample_pairs_arena sample_route (rs_hop_amounts r) no_stats =
       Some (True, no_stats)"
  using sample_detailed [of no_stats] walked_route_passes_hop_check [of sample_pairs_arena sample_route 1000000]
  by fastforce

text \<open>
  The comparison of a repeated simulation accepts exactly the routes that kept their value:
  it never panics, and it accepts if and only if the new profit is positive and at least nine tenths of
  the old one, and no hop amount lost more than 200 whole basis points.
\<close>

theorem resim_accepts_iff:
  assumes "unat (rs_profit baseline) < 2 ^ 240" and "\<forall>b \<in> set (rs_hop_amounts baseline). unat b < 2 ^ 240"
  shows "\<exists>verdict. route_resim_fidelity_reject baseline fresh = Some verdict \<and>
    (verdict = None \<longleftrightarrow>
       rs_profit fresh \<noteq> 0 \<and> length (rs_hop_amounts fresh) = length (rs_hop_amounts baseline) \<and>
       unat (rs_profit baseline) * 9000 div 10000 \<le> unat (rs_profit fresh) \<and>
       (\<forall>i. 1 \<le> i \<and> i < length (rs_hop_amounts baseline) \<longrightarrow>
          within_bps (rs_hop_amounts baseline ! i) (rs_hop_amounts fresh ! i) 200))"
proof (cases "rs_profit fresh = 0 \<or> length (rs_hop_amounts baseline) \<noteq> length (rs_hop_amounts fresh)")
  case True
  then show ?thesis
    by (auto simp: route_resim_fidelity_reject_def route_resim_fidelity_reject_profiled_def)
next
  case False
  let ?pairs = "zip (drop 1 (rs_hop_amounts baseline)) (drop 1 (rs_hop_amounts fresh))"
  have min_profit: "unat (rs_profit baseline * ucast (10000 - RESIM_PROFIT_DRIFT_BPS) div 10000) =
      unat (rs_profit baseline) * 9000 div 10000"
  proof -
    have "unat (rs_profit baseline) * unat (9000 :: u256) < 2 ^ LENGTH(256)" using assms(1) by simp
    then have "unat (rs_profit baseline * 9000) = unat (rs_profit baseline) * unat (9000 :: u256)"
      by (rule unat_mult_nowrap)
    then show ?thesis by (simp add: unat_div_word RESIM_PROFIT_DRIFT_BPS_def)
  qed
  have drift: "\<exists>d. profit_drift (rs_profit baseline) (rs_profit fresh) = Some d" if "rs_profit baseline \<noteq> 0"
    using that by (simp add: profit_drift_def Let_def)
  have "\<forall>(b, r) \<in> set ?pairs. unat b < 2 ^ 240"
    using assms(2) by (auto dest!: set_zip_leftD in_set_dropD)
  note hops = resim_hops_iff [OF this]
  have pairs: "(\<forall>(b, r) \<in> set ?pairs. within_bps b r 200) \<longleftrightarrow>
      (\<forall>i. 1 \<le> i \<and> i < length (rs_hop_amounts baseline) \<longrightarrow>
        within_bps (rs_hop_amounts baseline ! i) (rs_hop_amounts fresh ! i) 200)"
    using False by (intro later_pairs) simp
  have floor: "rs_profit fresh < rs_profit baseline * ucast (10000 - RESIM_PROFIT_DRIFT_BPS) div 10000 \<longleftrightarrow>
      \<not> unat (rs_profit baseline) * 9000 div 10000 \<le> unat (rs_profit fresh)"
    using min_profit by (auto simp: word_less_nat_alt not_le)
  show ?thesis
  proof (cases "rs_profit baseline = 0")
    case True
    then show ?thesis
      using False hops pairs
      by (fastforce simp: route_resim_fidelity_reject_def route_resim_fidelity_reject_profiled_def)
  next
    case nz: False
    then obtain d where "profit_drift (rs_profit baseline) (rs_profit fresh) = Some d" using drift by blast
    then show ?thesis
      using False nz hops pairs floor
      by (fastforce simp: route_resim_fidelity_reject_def route_resim_fidelity_reject_profiled_def Let_def)
  qed
qed

definition sample_result :: "u256 \<Rightarrow> u256 \<Rightarrow> RouteSimulationResult" where
  "sample_result mid out = \<lparr>rs_amount_in = 1000000, rs_amount_out = out, rs_profit = out - 1000000,
     rs_profitable = True, rs_hop_amounts = [1000000, mid, out], rs_total_gas = 0, rs_hop_count = 2\<rparr>"

theorem resim_accepts_iff_witness:
  "route_resim_fidelity_reject (sample_result 1992013 1190440) (sample_result 1990000 1189000) = Some None"
proof -
  have "within_bps ([1000000, 1992013, 1190440] ! i) ([1000000, 1990000, 1189000] ! i) 200"
    if "1 \<le> i" and "i < 3" for i
  proof -
    have "i = 1 \<or> i = 2" using that by auto
    then show ?thesis by (auto simp: within_bps_def)
  qed
  then show ?thesis
    using resim_accepts_iff [of "sample_result 1992013 1190440" "sample_result 1990000 1189000"]
    by (simp add: sample_result_def)
qed

end
