(* ===== verification/GasOracle.thy ===== *)
theory GasOracle
  imports RouteGas
begin

text \<open>
  The gas oracle, \<open>src/services/execution/gas_oracle.rs\<close>: the fee snapshot polled from a node, the gas
  observed on recently executed routes, and the ratio of observed to simulated gas that scales the
  estimate of a route never seen.

  The oracle's state is one record; its atomics and its mutex make each operation below one atomic step.
  The answers of the node and the clock are arguments. Not modelled: the loop over RPC endpoints and the
  background task, which only decide when \<open>refresh_once\<close> runs and against which node, and the log lines.
\<close>

section \<open>State\<close>

definition ROUTE_GAS_HISTORY :: nat where "ROUTE_GAS_HISTORY = 256"
definition MAX_SIM_SCALE_BPS :: u32 where "MAX_SIM_SCALE_BPS = 15000"
definition MIN_SIM_SCALE_BPS :: u32 where "MIN_SIM_SCALE_BPS = 10000"
definition MIN_OBS_RATIO_BPS :: u32 where "MIN_OBS_RATIO_BPS = 8000"
definition GLOBAL_SCALE_OUTLIER_BPS :: u32 where "GLOBAL_SCALE_OUTLIER_BPS = 18000"

record RouteGasHistory =
  gh_map :: "Edge list \<Rightarrow> u32 option"
  gh_order :: "Edge list list"

record GasOracle =
  go_snapshot :: "FeeSnapshot option"
  go_snapshot_updated_at_ms :: u64
  go_poll_interval_ms :: u128
  go_route_gas :: RouteGasHistory
  go_sim_scale_bps :: u32

definition new_gas_oracle :: "u128 \<Rightarrow> GasOracle" where
  "new_gas_oracle poll_interval =
     \<lparr>go_snapshot = None, go_snapshot_updated_at_ms = 0, go_poll_interval_ms = poll_interval,
      go_route_gas = \<lparr>gh_map = (\<lambda>_. None), gh_order = []\<rparr>, go_sim_scale_bps = 10000\<rparr>"

section \<open>Observed gas of routes\<close>

definition observed_route_gas :: "GasOracle \<Rightarrow> Edge list \<Rightarrow> u32 option" where
  "observed_route_gas orc edges = gh_map (go_route_gas orc) edges"

definition sim_scale_bps :: "GasOracle \<Rightarrow> u64" where
  "sim_scale_bps orc = ucast (max (go_sim_scale_bps orc) 10000)"

definition route_gas_or_heuristic :: "GasOracle \<Rightarrow> Edge list \<Rightarrow> u32 \<Rightarrow> u32" where
  "route_gas_or_heuristic orc edges heuristic =
     (case observed_route_gas orc edges of
        Some observed \<Rightarrow> observed
      | None \<Rightarrow> scaled_simulated_gas heuristic (ucast (max (go_sim_scale_bps orc) 10000)))"

definition route_gas_observed_or_seed :: "GasOracle \<Rightarrow> Edge list \<Rightarrow> u32 \<Rightarrow> u32" where
  "route_gas_observed_or_seed orc edges seed = or_default (observed_route_gas orc edges) seed"

definition blend_gas :: "u32 \<Rightarrow> u32 \<Rightarrow> u32" where
  "blend_gas entry gas =
     (let blended = (saturating_mul (ucast entry :: u64) 3 + ucast gas) div 4
      in max (or_default (u32_try_from blended) (- 1)) 1)"

text \<open>The deque: move a known route to the back, and pop from the front down to the cap.\<close>

definition touch_order :: "Edge list \<Rightarrow> Edge list list \<Rightarrow> Edge list list" where
  "touch_order route order = (if route \<in> set order then remove1 route order @ [route] else order)"

fun evict_oldest :: "(Edge list \<Rightarrow> u32 option) \<Rightarrow> Edge list list \<Rightarrow> RouteGasHistory" where
  "evict_oldest m [] = \<lparr>gh_map = m, gh_order = []\<rparr>"
| "evict_oldest m (old # order) =
     (if length (old # order) \<ge> ROUTE_GAS_HISTORY then evict_oldest (m(old := None)) order
      else \<lparr>gh_map = m, gh_order = old # order\<rparr>)"

definition record_in_history :: "RouteGasHistory \<Rightarrow> Edge list \<Rightarrow> u32 \<Rightarrow> RouteGasHistory" where
  "record_in_history hist route gas =
     (case gh_map hist route of
        Some entry \<Rightarrow>
          \<lparr>gh_map = (gh_map hist)(route \<mapsto> blend_gas entry gas), gh_order = touch_order route (gh_order hist)\<rparr>
      | None \<Rightarrow>
          let hist = evict_oldest (gh_map hist) (gh_order hist)
          in \<lparr>gh_map = (gh_map hist)(route \<mapsto> gas), gh_order = gh_order hist @ [route]\<rparr>)"

definition record_route_gas :: "Edge list \<Rightarrow> u32 \<Rightarrow> GasOracle \<Rightarrow> GasOracle" where
  "record_route_gas edges gas orc =
     (if gas = 0 then orc
      else orc\<lparr>go_route_gas := record_in_history (go_route_gas orc) edges gas\<rparr>)"

section \<open>The global scale\<close>

definition blend_scale :: "u32 \<Rightarrow> u32 \<Rightarrow> u32" where
  "blend_scale prev ratio_bps =
     (let prev = max prev MIN_SIM_SCALE_BPS;
          blended = (ucast (((ucast prev :: u64) * 3 + ucast ratio_bps) div 4) :: u32)
      in min (max blended MIN_SIM_SCALE_BPS) MAX_SIM_SCALE_BPS)"

definition raw_ratio_bps :: "u32 \<Rightarrow> u64 \<Rightarrow> u32" where
  "raw_ratio_bps simulated observed =
     ucast (min (saturating_mul observed 10000 div ucast simulated) (ucast (- 1 :: u32)))"

definition record_sim_observed :: "u32 \<Rightarrow> u64 \<Rightarrow> GasOracle \<Rightarrow> GasOracle" where
  "record_sim_observed simulated observed orc =
     (if simulated = 0 \<or> observed = 0 then orc
      else if raw_ratio_bps simulated observed > GLOBAL_SCALE_OUTLIER_BPS then orc
      else
        let ratio_bps = min (max (raw_ratio_bps simulated observed) MIN_OBS_RATIO_BPS) MAX_SIM_SCALE_BPS
        in orc\<lparr>go_sim_scale_bps := blend_scale (go_sim_scale_bps orc) ratio_bps\<rparr>)"

section \<open>Fees\<close>

definition conservative_gas_price :: "GasOracle \<Rightarrow> u256 option" where
  "conservative_gas_price orc = map_option compute_conservative_gas_price (go_snapshot orc)"

definition snapshot_age_ms :: "u64 \<Rightarrow> GasOracle \<Rightarrow> u64 option" where
  "snapshot_age_ms now_ms orc =
     (if go_snapshot_updated_at_ms orc = 0 then None
      else Some (saturating_sub now_ms (go_snapshot_updated_at_ms orc)))"

definition live_snapshot_max_age_ms :: "GasOracle \<Rightarrow> u64" where
  "live_snapshot_max_age_ms orc = ucast (max (saturating_mul (go_poll_interval_ms orc) 5) 15000)"

definition snapshot_age_ok :: "u64 \<Rightarrow> GasOracle \<Rightarrow> bool" where
  "snapshot_age_ok now_ms orc =
     (case snapshot_age_ms now_ms orc of
        Some age \<Rightarrow> age \<le> live_snapshot_max_age_ms orc
      | None \<Rightarrow> False)"

definition conservative_gas_price_for_live_submit :: "u64 \<Rightarrow> GasOracle \<Rightarrow> u256 option" where
  "conservative_gas_price_for_live_submit now_ms orc = do {
     fees \<leftarrow> go_snapshot orc;
     if snapshot_age_ok now_ms orc then Some (compute_conservative_gas_price fees) else None
   }"

definition fees_ready_for_live_submit :: "u64 \<Rightarrow> GasOracle \<Rightarrow> bool" where
  "fees_ready_for_live_submit now_ms orc \<longleftrightarrow> go_snapshot orc \<noteq> None \<and> snapshot_age_ok now_ms orc"

datatype TipSource = TipRpc | TipPreviousSnapshot | TipFallbackMin

definition priority_fee_from :: "(string + u128) \<Rightarrow> FeeSnapshot option \<Rightarrow> u256 \<times> TipSource" where
  "priority_fee_from tip_res previous =
     (let (priority_fee, source) =
            (case tip_res of
               Inr v \<Rightarrow> (ucast v, TipRpc)
             | Inl _ \<Rightarrow> ((case previous of Some snap \<Rightarrow> fs_priority_fee snap | None \<Rightarrow> 0), TipPreviousSnapshot));
          (priority_fee, source) =
            (if priority_fee = 0 then (MIN_PRIORITY_FEE_PER_GAS, TipFallbackMin) else (priority_fee, source))
      in (max priority_fee MIN_PRIORITY_FEE_PER_GAS, source))"

text \<open>
  The answers of the node: the latest block, which may be missing or lack a base fee, and the tip.
\<close>

definition refresh_once ::
    "(string + u64 option option) \<Rightarrow> (string + u128) \<Rightarrow> u64 \<Rightarrow> GasOracle \<Rightarrow> (string + unit) \<times> GasOracle" where
  "refresh_once block_res tip_res now_ms orc =
     (case block_res of
        Inl e \<Rightarrow> (Inl e, orc)
      | Inr None \<Rightarrow> (Inl ''latest block unavailable'', orc)
      | Inr (Some None) \<Rightarrow> (Inl ''block header missing base_fee_per_gas'', orc)
      | Inr (Some (Some base_fee)) \<Rightarrow>
          let previous = go_snapshot orc;
              (priority_fee, source) = priority_fee_from tip_res previous;
              orc = orc\<lparr>go_snapshot := Some \<lparr>fs_base_fee = ucast base_fee, fs_priority_fee = priority_fee\<rparr>\<rparr>
          in (Inr (),
              if source \<noteq> TipPreviousSnapshot \<or> previous = None
              then orc\<lparr>go_snapshot_updated_at_ms := now_ms\<rparr> else orc))"

section \<open>The lookup of one tick\<close>

record RouteGasLookup =
  rl_scale_bps :: u64
  rl_observed :: "Edge list \<Rightarrow> u32 option"

definition lookup_insert :: "GasOracle \<Rightarrow> Edge list \<Rightarrow> (Edge list \<Rightarrow> u32 option) \<Rightarrow> Edge list \<Rightarrow> u32 option" where
  "lookup_insert orc edges observed =
     (case gh_map (go_route_gas orc) edges of Some gas \<Rightarrow> observed(edges \<mapsto> gas) | None \<Rightarrow> observed)"

definition for_routes :: "GasOracle \<Rightarrow> Edge list list \<Rightarrow> RouteGasLookup" where
  "for_routes orc routes =
     \<lparr>rl_scale_bps = max (sim_scale_bps orc) 10000,
      rl_observed = fold (lookup_insert orc) routes (\<lambda>_. None)\<rparr>"

definition lookup_gas_or_heuristic :: "RouteGasLookup \<Rightarrow> Edge list \<Rightarrow> u32 \<Rightarrow> u32" where
  "lookup_gas_or_heuristic lookup edges heuristic =
     (case rl_observed lookup edges of
        Some gas \<Rightarrow> gas
      | None \<Rightarrow> scaled_simulated_gas heuristic (rl_scale_bps lookup))"

definition lookup_gas_observed_or_seed :: "RouteGasLookup \<Rightarrow> Edge list \<Rightarrow> u32 \<Rightarrow> u32" where
  "lookup_gas_observed_or_seed lookup edges seed = or_default (rl_observed lookup edges) seed"

section \<open>The history keeps its cap\<close>

text \<open>
  The table and the deque hold the same routes, each once, at most \<^const>\<open>ROUTE_GAS_HISTORY\<close> of them,
  and no observation is zero.
\<close>

definition history_wf :: "RouteGasHistory \<Rightarrow> bool" where
  "history_wf hist \<longleftrightarrow>
     distinct (gh_order hist) \<and> set (gh_order hist) = dom (gh_map hist) \<and>
     length (gh_order hist) \<le> ROUTE_GAS_HISTORY \<and> (\<forall>r. gh_map hist r \<noteq> Some 0)"

lemma history_cap_pos [simp]: "0 < ROUTE_GAS_HISTORY" "Suc 0 \<le> ROUTE_GAS_HISTORY"
  by (simp_all add: ROUTE_GAS_HISTORY_def)

lemma evict_oldest_short: "length order < ROUTE_GAS_HISTORY \<Longrightarrow> evict_oldest m order = \<lparr>gh_map = m, gh_order = order\<rparr>"
  by (cases order) simp_all

lemma evict_oldest_full:
  "length order = ROUTE_GAS_HISTORY \<Longrightarrow>
   evict_oldest m order = \<lparr>gh_map = m(hd order := None), gh_order = tl order\<rparr>"
  by (cases order) (simp_all add: evict_oldest_short ROUTE_GAS_HISTORY_def)

lemma evict_oldest_wf:
  assumes "history_wf hist"
  shows "evict_oldest (gh_map hist) (gh_order hist) =
    (if length (gh_order hist) = ROUTE_GAS_HISTORY
     then \<lparr>gh_map = (gh_map hist)(hd (gh_order hist) := None), gh_order = tl (gh_order hist)\<rparr> else hist)"
  using assms by (auto simp: history_wf_def evict_oldest_full evict_oldest_short)

lemma blend_gas_nonzero: "blend_gas entry gas \<noteq> 0"
proof -
  have "(1 :: u32) \<le> blend_gas entry gas" by (simp add: blend_gas_def Let_def)
  then show ?thesis by auto
qed

lemma touch_order_same:
  assumes "distinct order"
  shows "set (touch_order r order) = set order \<and> distinct (touch_order r order) \<and>
         length (touch_order r order) = length order"
  using assms length_pos_if_in_set [of r order]
  by (auto simp: touch_order_def length_remove1 set_remove1_eq)

lemma record_fresh:
  assumes "history_wf hist" and "gh_map hist route = None"
  shows "record_in_history hist route gas =
    (if length (gh_order hist) = ROUTE_GAS_HISTORY
     then \<lparr>gh_map = (gh_map hist)(hd (gh_order hist) := None, route \<mapsto> gas), gh_order = tl (gh_order hist) @ [route]\<rparr>
     else \<lparr>gh_map = (gh_map hist)(route \<mapsto> gas), gh_order = gh_order hist @ [route]\<rparr>)"
  using assms by (simp add: record_in_history_def evict_oldest_wf Let_def)

lemma history_wf_record:
  assumes wf: "history_wf hist" and gas: "gas \<noteq> 0"
  shows "history_wf (record_in_history hist route gas)"
proof (cases "gh_map hist route")
  case (Some entry)
  then have "route \<in> set (gh_order hist)" using wf by (auto simp: history_wf_def)
  then show ?thesis
    using Some wf touch_order_same [of "gh_order hist" route] blend_gas_nonzero
    by (auto simp: record_in_history_def history_wf_def)
next
  case None
  then have fresh: "route \<notin> set (gh_order hist)" using wf by (auto simp: history_wf_def)
  show ?thesis
    using None wf gas fresh record_fresh [OF wf None]
    by (cases "gh_order hist") (auto simp: history_wf_def)
qed

text \<open>
  \<open>recent S r\<close>: the route \<open>r\<close> is in the deque and everything behind it is in \<open>S\<close>.
\<close>

definition recent :: "Edge list set \<Rightarrow> Edge list \<Rightarrow> RouteGasHistory \<Rightarrow> bool" where
  "recent S r hist \<longleftrightarrow> (\<exists>pre post. gh_order hist = pre @ r # post \<and> set post \<subseteq> S)"

lemma recent_known: "recent S r hist \<Longrightarrow> history_wf hist \<Longrightarrow> gh_map hist r \<noteq> None"
  by (auto simp: recent_def history_wf_def)

lemma recent_mono: "recent S r hist \<Longrightarrow> S \<subseteq> S' \<Longrightarrow> recent S' r hist"
  unfolding recent_def by blast

lemma recent_self:
  assumes "history_wf hist" shows "recent {} r (record_in_history hist r gas)"
proof (cases "gh_map hist r")
  case None
  then show ?thesis using record_fresh [OF assms None] by (auto simp: recent_def)
next
  case (Some entry)
  then have "r \<in> set (gh_order hist)" using assms by (auto simp: history_wf_def)
  then show ?thesis using Some by (auto simp: record_in_history_def recent_def touch_order_def)
qed

lemma recent_other:
  assumes wf: "history_wf hist" and rec: "recent S r hist" and ne: "q \<noteq> r"
    and S: "finite S" "r \<notin> S" "card (insert q S) < ROUTE_GAS_HISTORY"
  shows "recent (insert q S) r (record_in_history hist q gas)"
proof -
  obtain pre post where order: "gh_order hist = pre @ r # post" and post: "set post \<subseteq> S"
    using rec by (auto simp: recent_def)
  have dist: "distinct (gh_order hist)" using wf by (simp add: history_wf_def)
  show ?thesis
  proof (cases "gh_map hist q")
    case (Some entry)
    then have "q \<in> set (gh_order hist)" using wf by (auto simp: history_wf_def)
    moreover have "q \<in> set pre \<Longrightarrow> remove1 q post = post" using dist order by (auto intro: remove1_idem)
    ultimately have "gh_order (record_in_history hist q gas) = remove1 q pre @ r # remove1 q post @ [q]"
      using Some order dist ne by (auto simp: record_in_history_def touch_order_def remove1_append remove1_idem)
    moreover have "set (remove1 q post @ [q]) \<subseteq> insert q S" using post set_remove1_subset [of q post] by auto
    ultimately show ?thesis unfolding recent_def by blast
  next
    case None
    then have "q \<notin> set post" using wf order by (auto simp: history_wf_def)
    have "length post = card (set post)" using dist order by (simp add: distinct_card)
    then have "Suc (length post) = card (insert q (set post))" using \<open>q \<notin> set post\<close> by simp
    also have "\<dots> \<le> card (insert q S)" using post S by (intro card_mono) auto
    finally have "Suc (length post) < ROUTE_GAS_HISTORY" using S by simp
    then have "length (gh_order hist) = ROUTE_GAS_HISTORY \<Longrightarrow> pre \<noteq> []" using order by auto
    moreover have "gh_order (record_in_history hist q gas) =
        (if length (gh_order hist) = ROUTE_GAS_HISTORY then tl (gh_order hist) else gh_order hist) @ [q]"
      using record_fresh [OF wf None, of gas] by simp
    ultimately obtain pre' where "gh_order (record_in_history hist q gas) = pre' @ r # post @ [q]"
      using order by (cases "length (gh_order hist) = ROUTE_GAS_HISTORY") (auto simp: neq_Nil_conv)
    then show ?thesis using post unfolding recent_def by (intro exI [of _ pre'] exI [of _ "post @ [q]"]) auto
  qed
qed

section \<open>The scale stays in its band\<close>

lemma unat_clamp:
  "unat (min (max x lo) hi) = min (max (unat x) (unat lo)) (unat hi)" for x lo hi :: "'a::len word"
  by (auto simp: min_def max_def word_le_nat_alt)

lemma unat_ucast_u32_u64 [simp]: "unat (ucast (x :: u32) :: u64) = unat x"
proof -
  have "unat x < 2 ^ 64" using unsigned_less [of x, where 'a = nat] by (rule order_less_le_trans) simp
  then show ?thesis by (simp add: unsigned_ucast_eq take_bit_nat_eq_self)
qed

lemma unat_blend_scale:
  assumes "unat prev \<le> 15000" and "unat ratio \<le> 15000"
  shows "unat (blend_scale prev ratio) = max ((3 * max (unat prev) 10000 + unat ratio) div 4) 10000"
proof -
  let ?prev = "max prev MIN_SIM_SCALE_BPS"
  have prev: "unat ?prev = max (unat prev) 10000" "unat ?prev \<le> 15000"
    using assms(1) by (auto simp: max_def word_le_nat_alt MIN_SIM_SCALE_BPS_def)
  have "unat ((ucast ?prev :: u64) * 3) = unat ?prev * 3"
    using prev(2) by (subst unat_mult_nowrap) simp_all
  then have "unat ((ucast ?prev :: u64) * 3 + ucast ratio) = 3 * unat ?prev + unat ratio"
    using prev(2) assms(2) by (subst unat_add_nowrap) simp_all
  then have "unat (((ucast ?prev :: u64) * 3 + ucast ratio) div 4) = (3 * unat ?prev + unat ratio) div 4"
    by (simp add: unat_div_word)
  moreover have "(3 * unat ?prev + unat ratio) div 4 \<le> 15000" using prev(2) assms(2) by simp
  ultimately have "unat (ucast (((ucast ?prev :: u64) * 3 + ucast ratio) div 4) :: u32) =
      (3 * unat ?prev + unat ratio) div 4"
    by (simp add: unsigned_ucast_eq take_bit_nat_eq_self)
  then show ?thesis
    using prev \<open>(3 * unat ?prev + unat ratio) div 4 \<le> 15000\<close>
    by (simp add: blend_scale_def Let_def unat_clamp MIN_SIM_SCALE_BPS_def MAX_SIM_SCALE_BPS_def)
qed

definition scale_in_band :: "GasOracle \<Rightarrow> bool" where
  "scale_in_band orc \<longleftrightarrow> 10000 \<le> unat (go_sim_scale_bps orc) \<and> unat (go_sim_scale_bps orc) \<le> 15000"

lemma blend_scale_band:
  assumes "unat prev \<le> 15000" and "unat ratio \<le> 15000"
  shows "10000 \<le> unat (blend_scale prev ratio) \<and> unat (blend_scale prev ratio) \<le> 15000"
proof -
  have "(3 * max (unat prev) 10000 + unat ratio) div 4 \<le> 15000" using assms by simp
  then show ?thesis using unat_blend_scale [OF assms] by simp
qed

lemma scale_in_band_record:
  assumes "scale_in_band orc" shows "scale_in_band (record_sim_observed simulated observed orc)"
proof -
  have "unat (min (max r MIN_OBS_RATIO_BPS) MAX_SIM_SCALE_BPS) \<le> 15000" for r
    by (simp add: unat_clamp MAX_SIM_SCALE_BPS_def)
  then show ?thesis
    using assms blend_scale_band [of "go_sim_scale_bps orc"]
    by (auto simp: record_sim_observed_def scale_in_band_def Let_def)
qed

lemma raw_ratio_bps_le:
  assumes "unat observed \<le> unat simulated"
  shows "unat (raw_ratio_bps simulated observed) \<le> 10000"
proof -
  let ?raw = "saturating_mul observed 10000 div ucast simulated :: u64"
  have "unat simulated < 2 ^ 32" using unsigned_less [of simulated] by simp
  then have "unat (saturating_mul observed 10000) = unat observed * 10000"
    using assms by (simp add: unat_saturating_mul)
  then have "unat ?raw = unat observed * 10000 div unat simulated" by (simp add: unat_div_word)
  also have "\<dots> = 10000 * unat observed div unat simulated" by (simp only: mult.commute)
  also have "\<dots> \<le> 10000" using assms by (rule mul_div_le_self)
  finally have "unat (min ?raw m) \<le> 10000" for m by (simp add: min_def word_le_nat_alt)
  moreover have "unat (ucast (x :: u64) :: u32) \<le> unat x" for x
    by (simp add: unsigned_ucast_eq)
  ultimately show ?thesis unfolding raw_ratio_bps_def by (rule order_trans [rotated])
qed

text \<open>An observation of at most the simulated gas takes a quarter off what the scale has above one.\<close>

lemma quarter_off: "10000 \<le> p \<Longrightarrow> r \<le> 10000 \<Longrightarrow> 4 * (max ((3 * p + r) div 4) 10000 - 10000) \<le> 3 * (p - (10000::nat))"
  by (simp add: max_def) arith

lemma accurate_observation_shrinks:
  assumes "scale_in_band orc" and "0 < observed" and "unat observed \<le> unat simulated"
  shows "4 * (unat (go_sim_scale_bps (record_sim_observed simulated observed orc)) - 10000) \<le>
         3 * (unat (go_sim_scale_bps orc) - 10000)"
proof -
  let ?ratio = "min (max (raw_ratio_bps simulated observed) MIN_OBS_RATIO_BPS) MAX_SIM_SCALE_BPS"
  have raw: "unat (raw_ratio_bps simulated observed) \<le> 10000" using assms(3) by (rule raw_ratio_bps_le)
  then have ratio: "unat ?ratio \<le> 10000"
    by (simp add: unat_clamp MIN_OBS_RATIO_BPS_def MAX_SIM_SCALE_BPS_def)
  have "\<not> raw_ratio_bps simulated observed > GLOBAL_SCALE_OUTLIER_BPS"
    using raw by (simp add: word_less_nat_alt GLOBAL_SCALE_OUTLIER_BPS_def)
  moreover have "simulated \<noteq> 0" using assms(2,3) unat_ne_0 [of observed] by (auto simp: word_gt_0)
  ultimately have "go_sim_scale_bps (record_sim_observed simulated observed orc) =
      blend_scale (go_sim_scale_bps orc) ?ratio"
    using assms(2) by (auto simp: record_sim_observed_def Let_def)
  moreover have band: "10000 \<le> unat (go_sim_scale_bps orc)" "unat (go_sim_scale_bps orc) \<le> 15000"
    using assms(1) by (simp_all add: scale_in_band_def)
  moreover have "unat ?ratio \<le> 15000" using ratio by (rule order_trans) simp
  ultimately have "unat (go_sim_scale_bps (record_sim_observed simulated observed orc)) =
      max ((3 * unat (go_sim_scale_bps orc) + unat ?ratio) div 4) 10000"
    by (simp only: unat_blend_scale max_absorb1)
  then show ?thesis using quarter_off [OF band(1) ratio] by (simp only:)
qed

definition record_all_observed :: "(u32 \<times> u64) list \<Rightarrow> GasOracle \<Rightarrow> GasOracle" where
  "record_all_observed obs orc = fold (\<lambda>(simulated, observed). record_sim_observed simulated observed) obs orc"

lemma shrink_compose:
  assumes "a * x \<le> b * y" and "4 * y \<le> 3 * z" shows "4 * a * x \<le> 3 * b * (z :: nat)"
proof -
  have "4 * (a * x) \<le> 4 * (b * y)" using assms(1) by simp
  also have "\<dots> = b * (4 * y)" by simp
  also have "\<dots> \<le> b * (3 * z)" using assms(2) by (rule mult_le_mono2)
  finally show ?thesis by (simp add: ac_simps)
qed

lemma accurate_observations_shrink:
  assumes "scale_in_band orc"
    and "\<forall>(simulated, observed) \<in> set obs. 0 < observed \<and> unat observed \<le> unat simulated"
  shows "scale_in_band (record_all_observed obs orc) \<and>
         4 ^ length obs * (unat (go_sim_scale_bps (record_all_observed obs orc)) - 10000) \<le>
         3 ^ length obs * (unat (go_sim_scale_bps orc) - 10000)"
  using assms
proof (induction obs arbitrary: orc)
  case (Cons ob obs)
  obtain simulated observed where ob: "ob = (simulated, observed)" by (cases ob)
  let ?next = "record_sim_observed simulated observed orc"
  have band: "scale_in_band ?next" using Cons.prems(1) by (rule scale_in_band_record)
  have "4 ^ length obs * (unat (go_sim_scale_bps (record_all_observed obs ?next)) - 10000) \<le>
      3 ^ length obs * (unat (go_sim_scale_bps ?next) - 10000)"
    "scale_in_band (record_all_observed obs ?next)"
    using Cons.IH [OF band] Cons.prems(2) by auto
  moreover have "4 * (unat (go_sim_scale_bps ?next) - 10000) \<le> 3 * (unat (go_sim_scale_bps orc) - 10000)"
    using Cons.prems ob by (intro accurate_observation_shrinks) auto
  moreover have "record_all_observed (ob # obs) orc = record_all_observed obs ?next"
    by (simp add: record_all_observed_def ob)
  ultimately show ?case by (simp add: shrink_compose)
qed (simp add: record_all_observed_def)

section \<open>Reachable oracles\<close>

text \<open>A state of the oracle is reached from a fresh one by recording and refreshing, in any order.\<close>

inductive oracle_reachable :: "GasOracle \<Rightarrow> bool" where
  reach_new: "oracle_reachable (new_gas_oracle poll)"
| reach_route: "oracle_reachable orc \<Longrightarrow> oracle_reachable (record_route_gas edges gas orc)"
| reach_observed: "oracle_reachable orc \<Longrightarrow> oracle_reachable (record_sim_observed simulated observed orc)"
| reach_refresh: "oracle_reachable orc \<Longrightarrow> oracle_reachable (snd (refresh_once block_res tip_res now orc))"

definition snapshot_wf :: "GasOracle \<Rightarrow> bool" where
  "snapshot_wf orc \<longleftrightarrow>
     (case go_snapshot orc of
        None \<Rightarrow> go_snapshot_updated_at_ms orc = 0
      | Some fees \<Rightarrow> MIN_PRIORITY_FEE_PER_GAS \<le> fs_priority_fee fees)"

lemma record_route_gas_frame [simp]:
  "go_snapshot (record_route_gas edges gas orc) = go_snapshot orc"
  "go_snapshot_updated_at_ms (record_route_gas edges gas orc) = go_snapshot_updated_at_ms orc"
  "go_sim_scale_bps (record_route_gas edges gas orc) = go_sim_scale_bps orc"
  by (simp_all add: record_route_gas_def)

lemma record_sim_observed_frame [simp]:
  "go_snapshot (record_sim_observed simulated observed orc) = go_snapshot orc"
  "go_snapshot_updated_at_ms (record_sim_observed simulated observed orc) = go_snapshot_updated_at_ms orc"
  "go_route_gas (record_sim_observed simulated observed orc) = go_route_gas orc"
  by (simp_all add: record_sim_observed_def Let_def)

lemma refresh_once_frame [simp]:
  "go_route_gas (snd (refresh_once block_res tip_res now orc)) = go_route_gas orc"
  "go_sim_scale_bps (snd (refresh_once block_res tip_res now orc)) = go_sim_scale_bps orc"
  by (simp_all add: refresh_once_def Let_def split: sum.split option.split prod.split)

lemma priority_fee_floor: "priority_fee_from tip_res previous = (fee, source) \<Longrightarrow> MIN_PRIORITY_FEE_PER_GAS \<le> fee"
  by (auto simp: priority_fee_from_def Let_def split: sum.splits if_splits)

lemma snapshot_wf_refresh:
  "snapshot_wf orc \<Longrightarrow> snapshot_wf (snd (refresh_once block_res tip_res now orc))"
  by (auto simp: refresh_once_def snapshot_wf_def Let_def priority_fee_floor
      split: sum.split option.split prod.split)

lemma oracle_reachable_history: "oracle_reachable orc \<Longrightarrow> history_wf (go_route_gas orc)"
proof (induction rule: oracle_reachable.induct)
  case (reach_route orc edges gas)
  then show ?case by (simp add: record_route_gas_def history_wf_record)
qed (simp_all add: new_gas_oracle_def history_wf_def)

lemma oracle_reachable_scale: "oracle_reachable orc \<Longrightarrow> scale_in_band orc"
proof (induction rule: oracle_reachable.induct)
  case (reach_observed orc simulated observed)
  then show ?case by (simp add: scale_in_band_record)
qed (simp_all add: new_gas_oracle_def scale_in_band_def)

lemma oracle_reachable_snapshot: "oracle_reachable orc \<Longrightarrow> snapshot_wf orc"
proof (induction rule: oracle_reachable.induct)
  case (reach_refresh orc block_res tip_res now)
  then show ?case by (simp add: snapshot_wf_refresh)
qed (simp_all add: new_gas_oracle_def snapshot_wf_def split: option.splits)

section \<open>Properties\<close>

text \<open>
  In every reachable state of the gas oracle the history and its deque hold the same routes,
  at most 256 and each once, no observation is zero, the global scale lies between 1.0 and 1.5, and
  a fee snapshot never has a tip below the network minimum.
\<close>

theorem gas_oracle_reachable_invariant:
  assumes "oracle_reachable orc"
  shows "distinct (gh_order (go_route_gas orc)) \<and>
         set (gh_order (go_route_gas orc)) = {r. observed_route_gas orc r \<noteq> None} \<and>
         length (gh_order (go_route_gas orc)) \<le> 256 \<and> (\<nexists>r. observed_route_gas orc r = Some 0) \<and>
         10000 \<le> sim_scale_bps orc \<and> sim_scale_bps orc \<le> 15000 \<and>
         (\<nexists>fees. go_snapshot orc = Some fees \<and> fs_priority_fee fees < MIN_PRIORITY_FEE_PER_GAS)"
proof -
  have "unat (sim_scale_bps orc) = unat (go_sim_scale_bps orc)"
    using oracle_reachable_scale [OF assms]
    by (simp add: sim_scale_bps_def scale_in_band_def max_def word_le_nat_alt)
  then have "10000 \<le> sim_scale_bps orc \<and> sim_scale_bps orc \<le> 15000"
    using oracle_reachable_scale [OF assms] by (simp add: scale_in_band_def word_le_nat_alt)
  moreover have "\<nexists>fees. go_snapshot orc = Some fees \<and> fs_priority_fee fees < MIN_PRIORITY_FEE_PER_GAS"
    using oracle_reachable_snapshot [OF assms] by (auto simp: snapshot_wf_def)
  ultimately show ?thesis
    using oracle_reachable_history [OF assms]
    by (auto simp: history_wf_def observed_route_gas_def ROUTE_GAS_HISTORY_def)
qed

theorem gas_oracle_reachable_invariant_witness:
  "sim_scale_bps (record_sim_observed 100000 150000 (new_gas_oracle 1000)) \<le> 15000"
  using gas_oracle_reachable_invariant [OF reach_observed [OF reach_new, of 100000 150000 1000]] by blast

definition record_all :: "(Edge list \<times> u32) list \<Rightarrow> GasOracle \<Rightarrow> GasOracle" where
  "record_all recs orc = fold (\<lambda>(edges, gas). record_route_gas edges gas) recs orc"

lemma record_all_Cons: "record_all ((edges, gas) # recs) orc = record_all recs (record_route_gas edges gas orc)"
  by (simp add: record_all_def)

lemma recent_record_all:
  assumes "history_wf (go_route_gas orc)" and "recent S r (go_route_gas orc)" and "finite S" "r \<notin> S"
    and "card (S \<union> (fst ` set recs - {r})) < ROUTE_GAS_HISTORY"
  shows "history_wf (go_route_gas (record_all recs orc)) \<and>
         (\<exists>S'. recent S' r (go_route_gas (record_all recs orc)))"
  using assms
proof (induction recs arbitrary: orc S)
  case (Cons rec recs)
  obtain q gas where rec: "rec = (q, gas)" by (cases rec)
  let ?orc = "record_route_gas q gas orc"
  have wf: "history_wf (go_route_gas ?orc)"
    using Cons.prems(1) by (simp add: record_route_gas_def history_wf_record)
  have fin: "finite (S \<union> (fst ` set (rec # recs) - {r}))" using Cons.prems(3) by simp
  show ?case
  proof (cases "gas = 0 \<or> q = r")
    case True
    then have "recent S r (go_route_gas ?orc)"
      using Cons.prems(1,2) recent_mono [OF recent_self [of "go_route_gas orc" r gas], of S]
      by (auto simp: record_route_gas_def)
    moreover have "card (S \<union> (fst ` set recs - {r})) \<le> card (S \<union> (fst ` set (rec # recs) - {r}))"
      using fin by (intro card_mono) auto
    ultimately show ?thesis
      using Cons.IH [OF wf] Cons.prems(3,4,5) by (simp add: rec record_all_Cons)
  next
    case False
    have "card (insert q S) \<le> card (S \<union> (fst ` set (rec # recs) - {r}))"
      using fin False rec by (intro card_mono) auto
    then have "recent (insert q S) r (go_route_gas ?orc)"
      using False Cons.prems recent_other [of "go_route_gas orc" S r q gas] by (simp add: record_route_gas_def)
    moreover have "insert q S \<union> (fst ` set recs - {r}) = S \<union> (fst ` set (rec # recs) - {r})"
      using rec False by auto
    ultimately show ?thesis
      using Cons.IH [OF wf, of "insert q S"] Cons.prems(3,4,5) False by (auto simp: rec record_all_Cons)
  qed
qed (auto simp: record_all_def)

text \<open>
  A route in use is not forgotten: after its gas was recorded, any sequence of further
  recordings that touches fewer than 256 other routes leaves an observation for it, however long the
  sequence is.
\<close>

theorem recorded_route_survives:
  assumes "oracle_reachable orc" and "gas \<noteq> 0" and "card (fst ` set recs - {r}) < 256"
  shows "observed_route_gas (record_all recs (record_route_gas r gas orc)) r \<noteq> None"
proof -
  let ?orc = "record_route_gas r gas orc"
  have wf: "history_wf (go_route_gas ?orc)"
    using assms(1) by (intro oracle_reachable_history reach_route)
  have "recent {} r (go_route_gas ?orc)"
    using recent_self [OF oracle_reachable_history [OF assms(1)]] assms(2) by (simp add: record_route_gas_def)
  then have "history_wf (go_route_gas (record_all recs ?orc))"
    and "\<exists>S'. recent S' r (go_route_gas (record_all recs ?orc))"
    using recent_record_all [OF wf, of "{}" r recs] assms(3) by (simp_all add: ROUTE_GAS_HISTORY_def)
  then show ?thesis using recent_known by (auto simp: observed_route_gas_def)
qed

definition sample_gas_edge :: Edge where
  "sample_gas_edge = \<lparr>e_pool_index = 7, e_token_in = 0, e_token_out = 1, e_token_in_idx = 0, e_token_out_idx = 1,
     e_protocol = UniswapV2, e_fee_bps = 30, e_zero_for_one = True\<rparr>"

theorem recorded_route_survives_witness:
  "observed_route_gas
     (record_all [([], 90000), ([sample_gas_edge, sample_gas_edge], 80000)]
        (record_route_gas [sample_gas_edge] 70000 (new_gas_oracle 1000))) [sample_gas_edge] \<noteq> None"
proof -
  let ?recs = "[([], 90000 :: u32), ([sample_gas_edge, sample_gas_edge], 80000)]"
  have "card (fst ` set ?recs - {[sample_gas_edge]}) \<le> card (fst ` set ?recs)" by (intro card_mono) auto
  also have "\<dots> \<le> card (set ?recs)" by (rule card_image_le) simp
  also have "\<dots> \<le> length ?recs" by (rule card_length)
  finally have few: "card (fst ` set ?recs - {[sample_gas_edge]}) < 256" by simp
  have "(70000 :: u32) \<noteq> 0" by simp
  then show ?thesis using few by (rule recorded_route_survives [OF reach_new])
qed

text \<open>
  A scale that was driven up comes back: from every reachable state, thirty observations of
  at most the simulated gas bring the global scale to exactly 1.0, whatever it was.
\<close>

theorem gas_scale_recovers:
  assumes "oracle_reachable orc" and "30 \<le> length obs"
    and "\<forall>(simulated, observed) \<in> set obs. 0 < observed \<and> unat observed \<le> unat simulated"
  shows "sim_scale_bps (record_all_observed obs orc) = 10000"
proof -
  let ?orc = "record_all_observed obs orc" and ?n = "length obs"
  have band: "scale_in_band ?orc" "4 ^ ?n * (unat (go_sim_scale_bps ?orc) - 10000) \<le>
      3 ^ ?n * (unat (go_sim_scale_bps orc) - 10000)"
    using accurate_observations_shrink [OF oracle_reachable_scale [OF assms(1)] assms(3)] by simp_all
  have "3 ^ ?n * (unat (go_sim_scale_bps orc) - 10000) \<le> 3 ^ ?n * 5000"
    using oracle_reachable_scale [OF assms(1)] by (intro mult_le_mono2) (auto simp: scale_in_band_def)
  also have "\<dots> < 4 ^ ?n"
  proof -
    obtain k where k: "?n = 30 + k" using assms(2) le_iff_add by blast
    have "(3 :: nat) ^ ?n * 5000 = 3 ^ k * (3 ^ 30 * 5000)" by (simp add: k power_add)
    also have "\<dots> < 3 ^ k * 4 ^ 30" by (intro mult_strict_left_mono) simp_all
    also have "\<dots> \<le> 4 ^ k * 4 ^ 30" by (intro mult_le_mono1 power_mono) simp_all
    also have "\<dots> = 4 ^ ?n" by (simp add: k power_add)
    finally show ?thesis .
  qed
  finally have "4 ^ ?n * (unat (go_sim_scale_bps ?orc) - 10000) < 4 ^ ?n * 1" using band(2) by linarith
  then have "unat (go_sim_scale_bps ?orc) - 10000 < 1" by (simp only: mult_less_cancel1)
  then have "unat (go_sim_scale_bps ?orc) = unat (10000 :: u32)" using band(1) by (simp add: scale_in_band_def)
  then have "go_sim_scale_bps ?orc = 10000" by (rule word_unat_eqI)
  then show ?thesis by (simp add: sim_scale_bps_def)
qed

theorem gas_scale_recovers_witness:
  "sim_scale_bps (record_all_observed (replicate 30 (200000, 190000))
     (record_sim_observed 100000 150000 (new_gas_oracle 1000))) = 10000"
  by (rule gas_scale_recovers [OF reach_observed [OF reach_new]]) simp_all

section \<open>The lookup answers as the oracle does\<close>

lemma fold_lookup_insert:
  "fold (lookup_insert orc) routes observed r =
   (if r \<in> set routes \<and> observed_route_gas orc r \<noteq> None then observed_route_gas orc r else observed r)"
  by (induction routes arbitrary: observed)
     (auto simp: lookup_insert_def observed_route_gas_def split: option.splits)

lemma lookup_observed:
  "r \<in> set routes \<Longrightarrow> rl_observed (for_routes orc routes) r = observed_route_gas orc r"
  by (cases "observed_route_gas orc r") (simp_all add: for_routes_def fold_lookup_insert)

lemma lookup_agrees:
  assumes "r \<in> set routes"
  shows "lookup_gas_or_heuristic (for_routes orc routes) r heuristic = route_gas_or_heuristic orc r heuristic"
    and "lookup_gas_observed_or_seed (for_routes orc routes) r seed = route_gas_observed_or_seed orc r seed"
proof -
  have "max (sim_scale_bps orc) 10000 = sim_scale_bps orc"
    by (simp add: sim_scale_bps_def max_def word_le_nat_alt)
  then have "rl_scale_bps (for_routes orc routes) = ucast (max (go_sim_scale_bps orc) 10000)"
    by (simp add: for_routes_def sim_scale_bps_def)
  then show "lookup_gas_or_heuristic (for_routes orc routes) r heuristic = route_gas_or_heuristic orc r heuristic"
    by (simp add: lookup_gas_or_heuristic_def route_gas_or_heuristic_def lookup_observed [OF assms] split: option.split)
  show "lookup_gas_observed_or_seed (for_routes orc routes) r seed = route_gas_observed_or_seed orc r seed"
    by (simp add: lookup_gas_observed_or_seed_def route_gas_observed_or_seed_def lookup_observed [OF assms])
qed

end
