(* ===== verification/Profit.thy ===== *)
theory Profit
  imports GasOracle LocalSim
begin

text \<open>
  The profit assessment, \<open>src/services/execution/profit.rs\<close>: flash-loan fees, slippage, the conversion
  of a simulated profit into MATIC, the gates that decide whether a route is executed, the profit floor
  sent to the contract, and the score by which the size search ranks amounts; with the rate and decimals
  lookups of \<open>src/services/oracle\<close> it uses.

  The cached fees are one record of state, read by the functions that the code lets read its atomics. The
  return on investment is a float in the code, the quotient of \<open>roi_bps\<close> by 10000, and only reported;
  the model keeps \<open>roi_bps\<close>. A rejection message is a constructor with the numbers it prints. The rate
  a token without an oracle price gets is computed in floating point and is a parameter.
\<close>

section \<open>Flash-loan fees\<close>

datatype FlashLoanSource = FlBalancer | FlAaveV3 | FlDodo | FlDirect

record FlashFees =
  ff_aave_bps :: u64
  ff_aave_fetched_at_ms :: u64
  ff_balancer_pct_1e18 :: u64
  ff_balancer_fetched_at_ms :: u64

definition initial_flash_fees :: FlashFees where
  "initial_flash_fees =
     \<lparr>ff_aave_bps = 5, ff_aave_fetched_at_ms = 0, ff_balancer_pct_1e18 = 0, ff_balancer_fetched_at_ms = 0\<rparr>"

definition FLASH_FEE_MAX_AGE_MS :: u64 where "FLASH_FEE_MAX_AGE_MS = 90000"
definition BALANCER_FP_ONE :: u128 where "BALANCER_FP_ONE = 1000000000000000000"
definition DODO_FLASH_LOAN_FEE_BPS :: u64 where "DODO_FLASH_LOAN_FEE_BPS = 10"
definition DODO_EXTERNAL_FLASH_ENABLED :: bool where "DODO_EXTERNAL_FLASH_ENABLED = False"

definition set_aave_flash_loan_fee_bps :: "u64 \<Rightarrow> u64 \<Rightarrow> FlashFees \<Rightarrow> FlashFees" where
  "set_aave_flash_loan_fee_bps fee_bps now_ms fees =
     fees\<lparr>ff_aave_bps := fee_bps, ff_aave_fetched_at_ms := now_ms\<rparr>"

definition set_balancer_flash_loan_fee_pct :: "u64 \<Rightarrow> u64 \<Rightarrow> FlashFees \<Rightarrow> FlashFees" where
  "set_balancer_flash_loan_fee_pct pct now_ms fees =
     fees\<lparr>ff_balancer_pct_1e18 := pct, ff_balancer_fetched_at_ms := now_ms\<rparr>"

definition flash_fee_snapshot_is_fresh :: "u64 \<Rightarrow> u64 \<Rightarrow> bool" where
  "flash_fee_snapshot_is_fresh fetched_at_ms now_ms \<longleftrightarrow>
     fetched_at_ms \<noteq> 0 \<and> saturating_sub now_ms fetched_at_ms \<le> FLASH_FEE_MAX_AGE_MS"

fun flash_loan_fee_is_fresh :: "FlashFees \<Rightarrow> u64 \<Rightarrow> FlashLoanSource \<Rightarrow> bool" where
  "flash_loan_fee_is_fresh fees now_ms FlAaveV3 = flash_fee_snapshot_is_fresh (ff_aave_fetched_at_ms fees) now_ms"
| "flash_loan_fee_is_fresh fees now_ms FlBalancer =
     flash_fee_snapshot_is_fresh (ff_balancer_fetched_at_ms fees) now_ms"
| "flash_loan_fee_is_fresh fees now_ms FlDodo = True"
| "flash_loan_fee_is_fresh fees now_ms FlDirect = True"

definition balancer_flash_fee_pct_to_bps :: "u64 \<Rightarrow> u64" where
  "balancer_flash_fee_pct_to_bps pct =
     (if pct = 0 then 0
      else let num = saturating_mul (ucast pct :: u128) 10000;
               q = num div BALANCER_FP_ONE
           in ucast (if num mod BALANCER_FP_ONE = 0 then q else q + 1))"

fun flash_loan_fee_bps :: "FlashFees \<Rightarrow> FlashLoanSource \<Rightarrow> u64" where
  "flash_loan_fee_bps fees FlDirect = 0"
| "flash_loan_fee_bps fees FlBalancer = balancer_flash_fee_pct_to_bps (ff_balancer_pct_1e18 fees)"
| "flash_loan_fee_bps fees FlAaveV3 = ff_aave_bps fees"
| "flash_loan_fee_bps fees FlDodo = (if DODO_EXTERNAL_FLASH_ENABLED then DODO_FLASH_LOAN_FEE_BPS else 0)"

definition balancer_mul_up :: "u256 \<Rightarrow> u256 \<Rightarrow> u256 option" where
  "balancer_mul_up amount pct =
     (if amount = 0 \<or> pct = 0 then Some 0
      else do {
        product \<leftarrow> checked_mul amount pct;
        Some ((product - 1) div ucast BALANCER_FP_ONE + 1)
      })"

definition aave_percent_mul :: "u256 \<Rightarrow> u64 \<Rightarrow> u256 option" where
  "aave_percent_mul value bps =
     (if bps = 0 then Some 0
      else do {
        v \<leftarrow> checked_mul value (ucast bps);
        v \<leftarrow> checked_add v 5000;
        Some (v div 10000)
      })"

fun flash_loan_fee_amount :: "FlashFees \<Rightarrow> FlashLoanSource \<Rightarrow> u256 \<Rightarrow> u256 option" where
  "flash_loan_fee_amount fees FlDirect amount = Some 0"
| "flash_loan_fee_amount fees FlBalancer amount = balancer_mul_up amount (ucast (ff_balancer_pct_1e18 fees))"
| "flash_loan_fee_amount fees FlAaveV3 amount =
     (let bps = flash_loan_fee_bps fees FlAaveV3
      in if bps = 0 then Some 0 else aave_percent_mul amount bps)"
| "flash_loan_fee_amount fees FlDodo amount =
     (if \<not> DODO_EXTERNAL_FLASH_ENABLED then Some 0
      else map_option (\<lambda>v. v div 10000) (checked_mul amount (ucast DODO_FLASH_LOAN_FEE_BPS)))"

section \<open>Slippage and profit floors\<close>

definition ON_CHAIN_MIN_PROFIT_RATIO_BPS :: u64 where "ON_CHAIN_MIN_PROFIT_RATIO_BPS = 9500"
definition MAX_PROFIT_PRIORITY_FEE_WEI :: u128 where "MAX_PROFIT_PRIORITY_FEE_WEI = 200000000000"
definition MIN_TOKEN_TO_MATIC_RATE :: u256 where "MIN_TOKEN_TO_MATIC_RATE = 1000000"
definition MAX_SANE_PROFIT_MATIC_WEI :: u128 where "MAX_SANE_PROFIT_MATIC_WEI = 10 ^ 18"

definition slippage_adjusted :: "u256 \<Rightarrow> u64 \<Rightarrow> u256 option" where
  "slippage_adjusted amount_out slippage_bps =
     (if amount_out = 0 \<or> slippage_bps \<ge> 10000 then None
      else do {
        product \<leftarrow> checked_mul amount_out (10000 - ucast slippage_bps);
        let min_out = product div 10000;
        if min_out = 0 then None else Some min_out
      })"

text \<open>The loop of the compounding: \<open>n\<close> hops are left; \<open>None\<close> is the early return of 9999.\<close>

fun retained_loop :: "nat \<Rightarrow> u64 \<Rightarrow> u128 \<Rightarrow> u128 option" where
  "retained_loop 0 kept_bps retained = Some retained"
| "retained_loop (Suc n) kept_bps retained =
     (let retained = retained * ucast kept_bps div 10000
      in if retained = 0 then None else retained_loop n kept_bps retained)"

definition u64_try_from :: "'a::len word \<Rightarrow> u64 option" where
  "u64_try_from v = (if unat v < 2 ^ 64 then Some (ucast v) else None)"

lemma u64_try_from_code [code]: "u64_try_from v = (if uint v < 2 ^ 64 then Some (ucast v) else None)"
proof -
  have "unat v < 2 ^ 64 \<longleftrightarrow> int (unat v) < int (2 ^ 64)" by (rule of_nat_less_iff [symmetric])
  also have "\<dots> \<longleftrightarrow> uint v < 2 ^ 64" by (simp only: uint_nat of_nat_power of_nat_numeral)
  finally show ?thesis by (simp only: u64_try_from_def)
qed

definition compound_slippage_bps :: "u64 \<Rightarrow> u32 \<Rightarrow> u64" where
  "compound_slippage_bps per_hop_bps hop_count =
     (if per_hop_bps \<ge> 10000 then 10000
      else if hop_count \<le> 1 \<or> per_hop_bps = 0 then per_hop_bps
      else case retained_loop (unat hop_count) (10000 - per_hop_bps) 10000 of
             None \<Rightarrow> 9999
           | Some retained \<Rightarrow> min (10000 - or_default (u64_try_from retained) 0) 9999)"

definition on_chain_min_profit :: "u256 \<Rightarrow> u256 option" where
  "on_chain_min_profit token_profit =
     (if token_profit = 0 then Some 0
      else do {
        product \<leftarrow> checked_mul token_profit (ucast ON_CHAIN_MIN_PROFIT_RATIO_BPS);
        let base = product div 10000;
        Some (if base = 0 then 1 else base)
      })"

definition modeled_net_profit_tokens ::
    "FlashFees \<Rightarrow> u256 \<Rightarrow> u256 \<Rightarrow> u64 \<Rightarrow> FlashLoanSource \<Rightarrow> u256 option" where
  "modeled_net_profit_tokens fees gross_profit amount_in slippage_bps flash_source = do {
     amount_out \<leftarrow> checked_add gross_profit amount_in;
     adjusted_out \<leftarrow> slippage_adjusted amount_out slippage_bps;
     let adjusted_gross = saturating_sub adjusted_out amount_in;
     flash_fee \<leftarrow> flash_loan_fee_amount fees flash_source amount_in;
     Some (saturating_sub adjusted_gross flash_fee)
   }"

definition on_chain_min_profit_for_route ::
    "FlashFees \<Rightarrow> u256 \<Rightarrow> u256 \<Rightarrow> u64 \<Rightarrow> FlashLoanSource \<Rightarrow> u256 option" where
  "on_chain_min_profit_for_route fees gross_profit amount_in slippage_bps flash_source = do {
     net \<leftarrow> modeled_net_profit_tokens fees gross_profit amount_in slippage_bps flash_source;
     on_chain_min_profit net
   }"

section \<open>Priority fee and safety floor\<close>

definition profit_priority_tip_per_gas :: "u256 \<Rightarrow> u64 \<Rightarrow> u32 \<Rightarrow> u256" where
  "profit_priority_tip_per_gas expected_profit alpha_bps gas_units =
     (if alpha_bps = 0 \<or> gas_units = 0 \<or> expected_profit = 0 then 0
      else let total_boost = saturating_mul expected_profit (ucast alpha_bps) div 10000;
               per_gas = total_boost div ucast gas_units
           in min per_gas (ucast MAX_PROFIT_PRIORITY_FEE_WEI))"

definition profit_priority_uplift_wei :: "u256 \<Rightarrow> u64 \<Rightarrow> u32 \<Rightarrow> u256 \<Rightarrow> u256" where
  "profit_priority_uplift_wei expected_profit alpha_bps gas_units charged_priority =
     (let tip = profit_priority_tip_per_gas expected_profit alpha_bps gas_units;
          floor = max charged_priority MIN_PRIORITY_FEE_PER_GAS
      in saturating_mul (saturating_sub tip floor) (ucast gas_units))"

definition safety_floor_matic_wei :: "u256 \<Rightarrow> u64 \<Rightarrow> u256" where
  "safety_floor_matic_wei revert_penalty safety_bps =
     (if safety_bps = 0 then 0 else saturating_mul revert_penalty (ucast safety_bps) div 10000)"

definition ceil_div_u256 :: "u256 \<Rightarrow> u256 \<Rightarrow> u256 option" where
  "ceil_div_u256 numer denom =
     (if denom = 0 then None
      else Some (if numer mod denom = 0 then numer div denom else saturating_add (numer div denom) 1))"

section \<open>The assessment\<close>

record AssessProfitInput =
  ai_gross_profit :: u256
  ai_amount_in :: u256
  ai_gas_units :: u32
  ai_gas_price_wei :: u256
  ai_charged_priority_fee_per_gas :: u256
  ai_token_to_matic_rate :: u256
  ai_token_decimals :: u8
  ai_hop_count :: u32
  ai_min_profit_matic_wei :: u256
  ai_min_profit_roi_bps :: u64
  ai_slippage_bps :: u64
  ai_flash_loan_source :: FlashLoanSource
  ai_safety_multiplier_bps :: u64
  ai_profit_priority_alpha_bps :: u64

datatype RejectReason =
    RrArithmetic string
  | RrRateTooLow
  | RrNonPositiveNet
  | RrBelowSafetyFloor u256 u256 u256
  | RrBelowMinProfit
  | RrExceedsSaneCap u256
  | RrRoiBelowMinimum u64 u64

record ProfitAssessment =
  pa_should_execute :: bool
  pa_gross_profit :: u256
  pa_gas_cost_wei :: u256
  pa_gas_cost_in_tokens :: u256
  pa_flash_loan_fee :: u256
  pa_slippage_deduction :: u256
  pa_revert_penalty :: u256
  pa_net_profit :: u256
  pa_net_profit_after_gas :: u256
  pa_priority_bid_basis_matic_wei :: u256
  pa_net_profit_after_gas_matic_wei :: u256
  pa_roi_bps :: u64
  pa_reject_reason :: "RejectReason option"

definition rejected_arithmetic :: "AssessProfitInput \<Rightarrow> string \<Rightarrow> ProfitAssessment" where
  "rejected_arithmetic inp reason =
     (let gas_cost_wei = or_default (checked_mul (ucast (ai_gas_units inp)) (ai_gas_price_wei inp)) 0
      in \<lparr>pa_should_execute = False, pa_gross_profit = ai_gross_profit inp, pa_gas_cost_wei = gas_cost_wei,
          pa_gas_cost_in_tokens = 0, pa_flash_loan_fee = 0, pa_slippage_deduction = 0,
          pa_revert_penalty = gas_cost_wei, pa_net_profit = 0, pa_net_profit_after_gas = 0,
          pa_priority_bid_basis_matic_wei = 0, pa_net_profit_after_gas_matic_wei = 0, pa_roi_bps = 0,
          pa_reject_reason = Some (RrArithmetic reason)\<rparr>)"

text \<open>
  The amounts of an assessment. \<open>scale\<close> is a power of ten at an exponent of at most 255 and never zero
  at 256 bits, so the division by it does not panic.
\<close>

record AssessAmounts =
  aa_flash_loan_fee :: u256
  aa_adjusted_gross :: u256
  aa_gas_cost_wei :: u256
  aa_gas_cost_in_tokens :: u256
  aa_gross_profit_matic_wei :: u256
  aa_flash_fee_matic_wei :: u256

definition rate_ok :: "AssessProfitInput \<Rightarrow> bool" where
  "rate_ok inp \<longleftrightarrow> ai_token_to_matic_rate inp \<ge> MIN_TOKEN_TO_MATIC_RATE"

definition gas_cost_tokens :: "AssessProfitInput \<Rightarrow> u256 \<Rightarrow> u256 option" where
  "gas_cost_tokens inp gas_cost_wei =
     (if rate_ok inp then do {
        scaled_gas \<leftarrow> checked_mul gas_cost_wei (ten_pow_u256 (ai_token_decimals inp));
        ceil_div_u256 scaled_gas (ai_token_to_matic_rate inp)
      } else Some (- 1))"

definition gross_matic :: "AssessProfitInput \<Rightarrow> u256 \<Rightarrow> u256 option" where
  "gross_matic inp adjusted_gross =
     (if rate_ok inp
      then map_option (\<lambda>v. v div ten_pow_u256 (ai_token_decimals inp))
             (checked_mul adjusted_gross (ai_token_to_matic_rate inp))
      else Some 0)"

definition flash_fee_matic :: "AssessProfitInput \<Rightarrow> u256 \<Rightarrow> u256 option" where
  "flash_fee_matic inp flash_loan_fee =
     (if rate_ok inp then do {
        scaled_fee \<leftarrow> checked_mul flash_loan_fee (ai_token_to_matic_rate inp);
        ceil_div_u256 scaled_fee (ten_pow_u256 (ai_token_decimals inp))
      } else Some 0)"

definition assess_amounts :: "FlashFees \<Rightarrow> AssessProfitInput \<Rightarrow> string + AssessAmounts" where
  "assess_amounts fees inp =
     (case flash_loan_fee_amount fees (ai_flash_loan_source inp) (ai_amount_in inp) of
        None \<Rightarrow> Inl ''flash-loan fee overflow''
      | Some flash_loan_fee \<Rightarrow>
      if ai_slippage_bps inp \<ge> 10000 then Inl ''invalid slippage or slippage arithmetic overflow''
      else case slippage_adjusted (saturating_add (ai_gross_profit inp) (ai_amount_in inp)) (ai_slippage_bps inp) of
        None \<Rightarrow> Inl ''invalid slippage or slippage arithmetic overflow''
      | Some adjusted_out \<Rightarrow>
      let adjusted_gross = saturating_sub adjusted_out (ai_amount_in inp)
      in case checked_mul (ucast (ai_gas_units inp)) (ai_gas_price_wei inp) of
        None \<Rightarrow> Inl ''gas cost overflow''
      | Some gas_cost_wei \<Rightarrow>
      case gas_cost_tokens inp gas_cost_wei of
        None \<Rightarrow> Inl ''token-denominated gas cost overflow''
      | Some gas_cost_in_tokens \<Rightarrow>
      case gross_matic inp adjusted_gross of
        None \<Rightarrow> Inl ''native profit conversion overflow''
      | Some gross_profit_matic_wei \<Rightarrow>
      case flash_fee_matic inp flash_loan_fee of
        None \<Rightarrow> Inl ''flash fee MATIC conversion overflow''
      | Some flash_fee_matic_wei \<Rightarrow>
      Inr \<lparr>aa_flash_loan_fee = flash_loan_fee, aa_adjusted_gross = adjusted_gross,
           aa_gas_cost_wei = gas_cost_wei, aa_gas_cost_in_tokens = gas_cost_in_tokens,
           aa_gross_profit_matic_wei = gross_profit_matic_wei, aa_flash_fee_matic_wei = flash_fee_matic_wei\<rparr>)"

definition roi_bps_of :: "u256 \<Rightarrow> u256 \<Rightarrow> u64" where
  "roi_bps_of amount_in gate_net_tokens =
     (if amount_in = 0 \<or> gate_net_tokens = 0 then 0
      else or_default (Option.bind (checked_mul gate_net_tokens 10000) (\<lambda>v. u64_try_from (v div amount_in))) 0)"

definition assess_gates :: "AssessProfitInput \<Rightarrow> AssessAmounts \<Rightarrow> ProfitAssessment" where
  "assess_gates inp am =
     (let slippage_deduction = saturating_sub (ai_gross_profit inp) (aa_adjusted_gross am);
          net_before_gas = saturating_sub (aa_adjusted_gross am) (aa_flash_loan_fee am);
          gas_cost_wei = aa_gas_cost_wei am;
          net_profit_after_gas = saturating_sub net_before_gas (aa_gas_cost_in_tokens am);
          net_after_gas_matic =
            saturating_sub (saturating_sub (aa_gross_profit_matic_wei am) (aa_flash_fee_matic_wei am)) gas_cost_wei;
          required_net_matic = safety_floor_matic_wei gas_cost_wei (ai_safety_multiplier_bps inp);
          priority_uplift = profit_priority_uplift_wei net_after_gas_matic (ai_profit_priority_alpha_bps inp)
            (ai_gas_units inp) (ai_charged_priority_fee_per_gas inp);
          net_after_priority = saturating_sub net_after_gas_matic priority_uplift;
          ignore_gas = (ai_safety_multiplier_bps inp = 0);
          gate_net_tokens = (if ignore_gas then net_before_gas else net_profit_after_gas);
          gate_net_matic =
            (if ignore_gas
             then saturating_sub (saturating_sub (aa_gross_profit_matic_wei am) (aa_flash_fee_matic_wei am)) priority_uplift
             else net_after_priority);
          meets_absolute_min = (gate_net_matic \<ge> ai_min_profit_matic_wei inp);
          meets_safety_ratio =
            (if ignore_gas then gate_net_matic \<ge> required_net_matic else net_after_gas_matic \<ge> required_net_matic);
          meets_sane_matic_cap = (gate_net_matic \<le> ucast MAX_SANE_PROFIT_MATIC_WEI);
          roi_bps = roi_bps_of (ai_amount_in inp) gate_net_tokens;
          meets_roi = (ai_min_profit_roi_bps inp = 0 \<or> roi_bps \<ge> ai_min_profit_roi_bps inp);
          should_execute = (rate_ok inp \<and> gate_net_tokens > 0 \<and> gate_net_matic > 0 \<and> meets_absolute_min \<and>
            meets_safety_ratio \<and> meets_sane_matic_cap \<and> meets_roi)
      in \<lparr>pa_should_execute = should_execute, pa_gross_profit = ai_gross_profit inp, pa_gas_cost_wei = gas_cost_wei,
          pa_gas_cost_in_tokens = aa_gas_cost_in_tokens am, pa_flash_loan_fee = aa_flash_loan_fee am,
          pa_slippage_deduction = slippage_deduction, pa_revert_penalty = gas_cost_wei,
          pa_net_profit = net_before_gas, pa_net_profit_after_gas = net_profit_after_gas,
          pa_priority_bid_basis_matic_wei = net_after_gas_matic,
          pa_net_profit_after_gas_matic_wei = net_after_priority,
          pa_roi_bps = (if ai_amount_in inp = 0 then 0 else roi_bps),
          pa_reject_reason =
            (if should_execute then None
             else if \<not> rate_ok inp then Some RrRateTooLow
             else if gate_net_matic = 0 \<or> gate_net_tokens = 0 then Some RrNonPositiveNet
             else if \<not> meets_safety_ratio
               then Some (RrBelowSafetyFloor net_after_gas_matic required_net_matic priority_uplift)
             else if \<not> meets_absolute_min then Some RrBelowMinProfit
             else if \<not> meets_sane_matic_cap then Some (RrExceedsSaneCap gate_net_matic)
             else if \<not> meets_roi then Some (RrRoiBelowMinimum roi_bps (ai_min_profit_roi_bps inp))
             else Some RrNonPositiveNet)\<rparr>)"

definition assess_profit :: "FlashFees \<Rightarrow> AssessProfitInput \<Rightarrow> ProfitAssessment" where
  "assess_profit fees inp =
     (case assess_amounts fees inp of
        Inl reason \<Rightarrow> rejected_arithmetic inp reason
      | Inr am \<Rightarrow> assess_gates inp am)"

definition on_chain_min_profit_from_assessment :: "ProfitAssessment \<Rightarrow> u256 option" where
  "on_chain_min_profit_from_assessment assessment = on_chain_min_profit (pa_net_profit assessment)"

section \<open>Rates and decimals of a token\<close>

definition MAX_SUPPORTED_TOKEN_DECIMALS :: u8 where "MAX_SUPPORTED_TOKEN_DECIMALS = 30"

definition lookup_matic_rate :: "u32 \<Rightarrow> (u32 \<Rightarrow> u256 option) \<Rightarrow> u256 option" where
  "lookup_matic_rate token rates =
     (case rates token of
        Some r \<Rightarrow> if r \<ge> MIN_TOKEN_TO_MATIC_RATE then Some r else None
      | None \<Rightarrow> None)"

text \<open>The bootstrap rate is the floating-point constant the code falls back to.\<close>

definition resolve_token_to_matic_rate :: "u256 \<Rightarrow> u32 \<Rightarrow> (u32 \<Rightarrow> u256 option) \<Rightarrow> u256" where
  "resolve_token_to_matic_rate bootstrap token rates = or_default (lookup_matic_rate token rates) bootstrap"

definition known_token_decimals :: "address \<Rightarrow> (address \<Rightarrow> u8 option) \<Rightarrow> u8 option" where
  "known_token_decimals token hints =
     (case hints token of
        Some d \<Rightarrow> if d \<le> MAX_SUPPORTED_TOKEN_DECIMALS then Some d else None
      | None \<Rightarrow> None)"

definition explicit_decimals_for_index :: "u32 \<Rightarrow> StateArena \<Rightarrow> (address \<Rightarrow> u8 option) \<Rightarrow> u8 option" where
  "explicit_decimals_for_index token arena hints = do {
     addr \<leftarrow> token_address arena token;
     known_token_decimals addr hints
   }"

definition cycle_tokens_have_known_decimals ::
    "'score FoundCycle \<Rightarrow> StateArena \<Rightarrow> (address \<Rightarrow> u8 option) \<Rightarrow> bool" where
  "cycle_tokens_have_known_decimals cycle arena hints \<longleftrightarrow>
     fc_edges cycle \<noteq> [] \<and>
     explicit_decimals_for_index (fc_start_token cycle) arena hints \<noteq> None \<and>
     list_all (\<lambda>edge. list_all (\<lambda>token. explicit_decimals_for_index token arena hints \<noteq> None)
                        [e_token_in edge, e_token_out edge]) (fc_edges cycle)"

definition resolve_token_decimals :: "address \<Rightarrow> (address \<Rightarrow> u8 option) \<Rightarrow> u8" where
  "resolve_token_decimals token hints = or_default (hints token) 18"

definition resolve_token_decimals_for_index :: "u32 \<Rightarrow> StateArena \<Rightarrow> (address \<Rightarrow> u8 option) \<Rightarrow> u8" where
  "resolve_token_decimals_for_index token arena hints =
     (case explicit_decimals_for_index token arena hints of
        Some d \<Rightarrow> d
      | None \<Rightarrow> or_default (map_option (\<lambda>addr. resolve_token_decimals addr hints) (token_address arena token)) 18)"

section \<open>Assessing a simulated route\<close>

record ProfitThresholds =
  pt_min_profit_matic_wei :: u256
  pt_min_profit_roi_bps :: u64
  pt_safety_multiplier_bps :: u64
  pt_profit_priority_alpha_bps :: u64
  pt_charged_priority_fee_per_gas :: u256

definition route_profit_thresholds :: "u256 \<Rightarrow> u64 \<Rightarrow> u64 \<Rightarrow> u64 \<Rightarrow> u64 \<Rightarrow> u256 \<Rightarrow> ProfitThresholds" where
  "route_profit_thresholds min_profit_matic min_profit_roi_bps safety_bps alpha_bps risk_bps charged =
     \<lparr>pt_min_profit_matic_wei = saturating_mul min_profit_matic (ucast risk_bps) div 10000,
      pt_min_profit_roi_bps = min_profit_roi_bps, pt_safety_multiplier_bps = safety_bps,
      pt_profit_priority_alpha_bps = alpha_bps, pt_charged_priority_fee_per_gas = charged\<rparr>"

datatype AssessmentGas =
    TickRoute RouteGasLookup "Edge list"
  | Route GasOracle "Edge list"
  | CalibratedSeed "RouteGasLookup option" GasOracle "Edge list"

fun assessment_gas_units :: "u32 \<Rightarrow> AssessmentGas \<Rightarrow> u32" where
  "assessment_gas_units simulated_gas (TickRoute lookup edges) = lookup_gas_or_heuristic lookup edges simulated_gas"
| "assessment_gas_units simulated_gas (Route orc edges) = route_gas_or_heuristic orc edges simulated_gas"
| "assessment_gas_units simulated_gas (CalibratedSeed (Some lookup) orc edges) =
     lookup_gas_observed_or_seed lookup edges simulated_gas"
| "assessment_gas_units simulated_gas (CalibratedSeed None orc edges) =
     route_gas_observed_or_seed orc edges simulated_gas"

definition assessment_gas_for_edges :: "Edge list \<Rightarrow> RouteGasLookup option \<Rightarrow> GasOracle \<Rightarrow> AssessmentGas" where
  "assessment_gas_for_edges edges lookup orc =
     (if balancer_direct_batch_eligible edges \<or> dodo_flash_batch_eligible edges
      then CalibratedSeed lookup orc edges
      else case lookup of Some lookup \<Rightarrow> TickRoute lookup edges | None \<Rightarrow> Route orc edges)"

record RouteProfitParams =
  rp_gross_profit :: u256
  rp_amount_in :: u256
  rp_gas_units :: u32
  rp_hop_count :: u32
  rp_slippage_bps :: u64
  rp_flash_loan_source :: FlashLoanSource

definition assess_route_profit ::
    "FlashFees \<Rightarrow> u256 \<Rightarrow> u32 \<Rightarrow> StateArena \<Rightarrow> RouteProfitParams \<Rightarrow> (u32 \<Rightarrow> u256 option) \<Rightarrow>
     (address \<Rightarrow> u8 option) \<Rightarrow> u256 \<Rightarrow> ProfitThresholds \<Rightarrow> ProfitAssessment" where
  "assess_route_profit fees bootstrap cycle_start arena route rates decimals gas_price thresholds =
     assess_profit fees
       \<lparr>ai_gross_profit = rp_gross_profit route, ai_amount_in = rp_amount_in route,
        ai_gas_units = rp_gas_units route, ai_gas_price_wei = gas_price,
        ai_charged_priority_fee_per_gas = pt_charged_priority_fee_per_gas thresholds,
        ai_token_to_matic_rate = resolve_token_to_matic_rate bootstrap cycle_start rates,
        ai_token_decimals = resolve_token_decimals_for_index cycle_start arena decimals,
        ai_hop_count = rp_hop_count route,
        ai_min_profit_matic_wei = pt_min_profit_matic_wei thresholds,
        ai_min_profit_roi_bps = pt_min_profit_roi_bps thresholds,
        ai_slippage_bps = rp_slippage_bps route, ai_flash_loan_source = rp_flash_loan_source route,
        ai_safety_multiplier_bps = pt_safety_multiplier_bps thresholds,
        ai_profit_priority_alpha_bps = pt_profit_priority_alpha_bps thresholds\<rparr>"

record RouteAssessRequest =
  rq_cycle_start :: u32
  rq_gross_profit :: u256
  rq_amount_in :: u256
  rq_simulated_gas :: u32
  rq_hop_count :: u32
  rq_slippage_bps :: u64
  rq_flash_source :: FlashLoanSource
  rq_gas :: AssessmentGas
  rq_thresholds :: ProfitThresholds
  rq_gas_price :: u256

text \<open>The tables the request borrows are arguments beside it.\<close>

definition assess_route_from_sim ::
    "FlashFees \<Rightarrow> u256 \<Rightarrow> StateArena \<Rightarrow> (u32 \<Rightarrow> u256 option) \<Rightarrow> (address \<Rightarrow> u8 option) \<Rightarrow> RouteAssessRequest \<Rightarrow>
     ProfitAssessment" where
  "assess_route_from_sim fees bootstrap arena rates decimals request =
     (let route = \<lparr>rp_gross_profit = rq_gross_profit request, rp_amount_in = rq_amount_in request,
            rp_gas_units = assessment_gas_units (rq_simulated_gas request) (rq_gas request),
            rp_hop_count = rq_hop_count request, rp_slippage_bps = rq_slippage_bps request,
            rp_flash_loan_source = rq_flash_source request\<rparr>
      in assess_route_profit fees bootstrap (rq_cycle_start request) arena route rates decimals
           (rq_gas_price request) (rq_thresholds request))"

section \<open>Ranking sizes\<close>

record ProfitEvalContext =
  pc_gas_price :: u256
  pc_charged_priority_fee_per_gas :: u256
  pc_flash_source :: FlashLoanSource
  pc_slippage_bps :: u64
  pc_token_to_matic_rate :: u256
  pc_token_decimals :: u8
  pc_safety_multiplier_bps :: u64
  pc_gas_scale_bps :: u64
  pc_profit_priority_alpha_bps :: u64
  pc_hop_count :: u32

definition with_safety_multiplier ::
    "u256 \<Rightarrow> u32 \<Rightarrow> StateArena \<Rightarrow> (u32 \<Rightarrow> u256 option) \<Rightarrow> (address \<Rightarrow> u8 option) \<Rightarrow> u256 \<Rightarrow> u64 \<Rightarrow>
     FlashLoanSource \<Rightarrow> u64 \<Rightarrow> ProfitEvalContext" where
  "with_safety_multiplier bootstrap cycle_start arena rates decimals gas_price slippage_bps flash_source safety_bps =
     \<lparr>pc_gas_price = gas_price, pc_charged_priority_fee_per_gas = MIN_PRIORITY_FEE_PER_GAS,
      pc_flash_source = flash_source, pc_slippage_bps = slippage_bps,
      pc_token_to_matic_rate = resolve_token_to_matic_rate bootstrap cycle_start rates,
      pc_token_decimals = resolve_token_decimals_for_index cycle_start arena decimals,
      pc_safety_multiplier_bps = safety_bps, pc_gas_scale_bps = 10000,
      pc_profit_priority_alpha_bps = 0, pc_hop_count = 1\<rparr>"

definition probe_assess_input :: "MinimalSimResult \<Rightarrow> u256 \<Rightarrow> ProfitEvalContext \<Rightarrow> AssessProfitInput" where
  "probe_assess_input sim amount_in ctx =
     \<lparr>ai_gross_profit = ms_profit sim, ai_amount_in = amount_in,
      ai_gas_units = (if pc_gas_scale_bps ctx = 10000 then ms_total_gas sim
                      else scaled_simulated_gas (ms_total_gas sim) (pc_gas_scale_bps ctx)),
      ai_gas_price_wei = pc_gas_price ctx,
      ai_charged_priority_fee_per_gas = pc_charged_priority_fee_per_gas ctx,
      ai_token_to_matic_rate = pc_token_to_matic_rate ctx, ai_token_decimals = pc_token_decimals ctx,
      ai_hop_count = pc_hop_count ctx, ai_min_profit_matic_wei = 0, ai_min_profit_roi_bps = 0,
      ai_slippage_bps = pc_slippage_bps ctx, ai_flash_loan_source = pc_flash_source ctx,
      ai_safety_multiplier_bps = pc_safety_multiplier_bps ctx,
      ai_profit_priority_alpha_bps = pc_profit_priority_alpha_bps ctx\<rparr>"

definition net_profit_matic_from_sim :: "FlashFees \<Rightarrow> MinimalSimResult \<Rightarrow> u256 \<Rightarrow> ProfitEvalContext \<Rightarrow> u256" where
  "net_profit_matic_from_sim fees sim amount_in ctx =
     pa_net_profit_after_gas_matic_wei (assess_profit fees (probe_assess_input sim amount_in ctx))"

definition BRENT_MATIC_SCORE_BIAS :: u256 where "BRENT_MATIC_SCORE_BIAS = 340282366920938463463374607431768211456"

record ProbeMaticParts =
  pp_gross_matic :: u256
  pp_flash_matic :: u256
  pp_gas_cost_wei :: u256
  pp_priority_uplift :: u256

definition probe_matic_parts ::
    "FlashFees \<Rightarrow> MinimalSimResult \<Rightarrow> u256 \<Rightarrow> ProfitEvalContext \<Rightarrow> ProbeMaticParts option" where
  "probe_matic_parts fees sim amount_in ctx = do {
     let inp = probe_assess_input sim amount_in ctx;
     flash_loan_fee \<leftarrow> flash_loan_fee_amount fees (ai_flash_loan_source inp) (ai_amount_in inp);
     if ai_slippage_bps inp \<ge> 10000 then None
     else do {
       adjusted_out \<leftarrow>
         slippage_adjusted (saturating_add (ai_gross_profit inp) (ai_amount_in inp)) (ai_slippage_bps inp);
       let adjusted_gross = saturating_sub adjusted_out (ai_amount_in inp);
       gas_cost_wei \<leftarrow> checked_mul (ucast (ai_gas_units inp)) (ai_gas_price_wei inp);
       let scale = ten_pow_u256 (ai_token_decimals inp);
       if ai_token_to_matic_rate inp < MIN_TOKEN_TO_MATIC_RATE \<or> scale = 0 then None
       else do {
         gross \<leftarrow> map_option (\<lambda>v. v div scale) (checked_mul adjusted_gross (ai_token_to_matic_rate inp));
         scaled_fee \<leftarrow> checked_mul flash_loan_fee (ai_token_to_matic_rate inp);
         flash \<leftarrow> ceil_div_u256 scaled_fee scale;
         let net_after_gas = saturating_sub (saturating_sub gross flash) gas_cost_wei;
         Some \<lparr>pp_gross_matic = gross, pp_flash_matic = flash, pp_gas_cost_wei = gas_cost_wei,
               pp_priority_uplift = profit_priority_uplift_wei net_after_gas
                 (ai_profit_priority_alpha_bps inp) (ai_gas_units inp) (ai_charged_priority_fee_per_gas inp)\<rparr>
       }
     }
   }"

definition cover_matic_from_sim :: "FlashFees \<Rightarrow> MinimalSimResult \<Rightarrow> u256 \<Rightarrow> ProfitEvalContext \<Rightarrow> u256" where
  "cover_matic_from_sim fees sim amount_in ctx =
     or_default (map_option (\<lambda>p. saturating_sub (pp_gross_matic p) (pp_flash_matic p))
       (probe_matic_parts fees sim amount_in ctx)) 0"

definition brent_score_matic_from_sim :: "FlashFees \<Rightarrow> MinimalSimResult \<Rightarrow> u256 \<Rightarrow> ProfitEvalContext \<Rightarrow> u256" where
  "brent_score_matic_from_sim fees sim amount_in ctx =
     (case probe_matic_parts fees sim amount_in ctx of
        None \<Rightarrow> 0
      | Some p \<Rightarrow>
          saturating_sub
            (saturating_sub
              (saturating_sub (saturating_add BRENT_MATIC_SCORE_BIAS (pp_gross_matic p)) (pp_flash_matic p))
              (pp_gas_cost_wei p))
            (pp_priority_uplift p))"

section \<open>Exact values\<close>

lemma ten_pow_nonzero: "(10 :: u256) ^ unat (d :: u8) \<noteq> 0"
proof
  assume "(10 :: u256) ^ unat d = 0"
  then have "unat (of_nat (10 ^ unat d) :: u256) = 0" by simp
  then have "(10 :: nat) ^ unat d mod 2 ^ 256 = 0"
    unfolding unat_of_nat take_bit_eq_mod by simp
  then have "2 ^ 256 dvd (10 :: nat) ^ unat d" by (simp only: dvd_eq_mod_eq_0)
  also have "(10 :: nat) ^ unat d = 2 ^ unat d * 5 ^ unat d" by (simp flip: power_mult_distrib)
  finally have "(2 :: nat) ^ 256 dvd 2 ^ unat d * 5 ^ unat d" .
  moreover have "coprime (2 :: nat) 5" by (simp add: coprime_iff_gcd_eq_1 gcd_nat.simps)
  then have "coprime ((2 :: nat) ^ 256) (5 ^ unat d)"
    by (simp only: coprime_power_left_iff coprime_power_right_iff simp_thms)
  ultimately have "(2 :: nat) ^ 256 dvd 2 ^ unat d" by (simp add: coprime_dvd_mult_left_iff)
  then have "256 \<le> unat d" by (rule power_dvd_imp_le) simp
  then show False using unsigned_less [of d, where 'a = nat] by simp
qed

lemma scale_pos: "0 < unat (ten_pow_u256 d)"
  using ten_pow_nonzero [of d] by (simp add: ten_pow_u256_eq unat_ne_0)

lemma ceil_div_u256_iff:
  "ceil_div_u256 a d = Some q \<longleftrightarrow> d \<noteq> 0 \<and> unat q = ceil_div (unat a) (unat d)"
proof (cases "d = 0")
  case False
  then have d: "0 < unat d" by (rule unat_ne_0)
  have "unat (saturating_add (a div d) 1) = unat a div unat d + 1" if "unat a mod unat d \<noteq> 0"
  proof -
    have "1 < unat d" using that d by (cases "unat d = 1") auto
    then have "unat a div unat d \<le> unat a div 2" by (intro div_le_mono2) simp_all
    moreover have "unat a div 2 + 1 < 2 ^ 256" using unat_lt_256 [of a] by simp
    ultimately have "unat a div unat d + 1 \<le> 2 ^ LENGTH(256) - 1" by simp
    then show ?thesis by (simp only: unat_saturating_add unat_div_word unsigned_1 min_absorb1)
  qed
  moreover have "a mod d = 0 \<longleftrightarrow> unat a mod unat d = 0"
    by (metis unat_mod_word unat_0 unsigned_0 word_unat_eqI)
  ultimately show ?thesis
    using False
    by (auto simp: ceil_div_u256_def ceil_div_def unat_div_word intro: word_unat_eqI)
qed (simp add: ceil_div_u256_def)

text \<open>The fee of a flash loan, over the natural numbers.\<close>

fun exact_flash_fee :: "FlashFees \<Rightarrow> FlashLoanSource \<Rightarrow> nat \<Rightarrow> nat" where
  "exact_flash_fee fees FlDirect n = 0"
| "exact_flash_fee fees FlBalancer n = ceil_div (n * unat (ff_balancer_pct_1e18 fees)) (10 ^ 18)"
| "exact_flash_fee fees FlAaveV3 n =
     (if ff_aave_bps fees = 0 then 0 else (n * unat (ff_aave_bps fees) + 5000) div 10000)"
| "exact_flash_fee fees FlDodo n = 0"

lemma unat_ucast_64_256 [simp]: "unat (ucast (x :: u64) :: u256) = unat x"
proof -
  have "unat x < 2 ^ 256" using unsigned_less [of x, where 'a = nat] by (rule order_less_le_trans) simp
  then show ?thesis by (simp add: unsigned_ucast_eq take_bit_nat_eq_self)
qed

lemma round_up_div: "0 < p \<Longrightarrow> 0 < (d::nat) \<Longrightarrow> (p - 1) div d + 1 = ceil_div p d"
proof -
  assume p: "0 < p" and d: "0 < d"
  have "ceil_div p d \<le> q \<longleftrightarrow> (p - 1) div d + 1 \<le> q" for q
  proof (cases q)
    case (Suc k)
    have "(p - 1) div d \<le> k \<longleftrightarrow> (p - 1) div d < k + 1" by auto
    also have "\<dots> \<longleftrightarrow> p - 1 < (k + 1) * d" using d by (rule div_less_iff_less_mult)
    finally have "(p - 1) div d \<le> k \<longleftrightarrow> p - 1 < (k + 1) * d" .
    then show ?thesis using p d Suc by (simp add: ceil_div_le_iff) linarith
  qed (use p d ceil_div_eq_0_iff [of d p] in simp)
  then show ?thesis by (metis order_refl le_antisym)
qed

lemma flash_fee_exact:
  assumes "flash_loan_fee_amount fees src amount = Some fee"
  shows "unat fee = exact_flash_fee fees src (unat amount)"
proof (cases src)
  case FlBalancer
  let ?pct = "ucast (ff_balancer_pct_1e18 fees) :: u256"
  have one: "unat (ucast BALANCER_FP_ONE :: u256) = 10 ^ 18" by (simp add: BALANCER_FP_ONE_def)
  show ?thesis
  proof (cases "amount = 0 \<or> ?pct = 0")
    case True
    then have "unat amount = 0 \<or> unat (ff_balancer_pct_1e18 fees) = 0" by (metis unat_ucast_64_256 unsigned_0)
    then show ?thesis using True FlBalancer assms by (auto simp: balancer_mul_up_def)
  next
    case False
    then obtain product where product: "checked_mul amount ?pct = Some product"
      and fee: "fee = (product - 1) div ucast BALANCER_FP_ONE + 1"
      using FlBalancer assms by (auto simp: balancer_mul_up_def bind_eq_Some_conv)
    have p: "unat product = unat amount * unat (ff_balancer_pct_1e18 fees)"
      using product by (simp add: checked_mul_iff)
    then have "product \<noteq> 0" using False unat_ne_0 [of amount] unat_ne_0 [of ?pct] by auto
    then have "1 \<le> product" by (simp add: word_le_nat_alt) (use unat_ne_0 in fastforce)
    then have m1: "unat (product - 1) = unat product - 1" by (simp add: unat_sub_nowrap)
    have "unat ((product - 1) div ucast BALANCER_FP_ONE) + 1 < 2 ^ 256"
      using unat_lt_256 [of product] by (simp add: unat_div_word m1 one)
    then have "unat fee = (unat product - 1) div 10 ^ 18 + 1"
      unfolding fee by (subst unat_add_nowrap) (simp_all add: unat_div_word m1 one)
    then show ?thesis
      using FlBalancer p round_up_div [OF unat_ne_0 [OF \<open>product \<noteq> 0\<close>], of "10 ^ 18"] by simp
  qed
next
  case FlAaveV3
  then show ?thesis
    using assms
    by (auto simp: aave_percent_mul_def bind_eq_Some_conv checked_iff unat_div_word split: if_splits)
qed (use assms in \<open>auto simp: DODO_EXTERNAL_FLASH_ENABLED_def\<close>)

lemma unat_kept_bps: "s < 10000 \<Longrightarrow> unat (10000 - ucast (s :: u64) :: u256) = 10000 - unat s"
  by (subst unat_sub_nowrap) (simp_all add: word_le_nat_alt word_less_nat_alt)

lemma slippage_adjusted_exact:
  assumes "slippage_adjusted amount_out s = Some m"
  shows "s < 10000 \<and> unat m = unat amount_out * (10000 - unat s) div 10000 \<and> 0 < unat m"
  using assms unat_kept_bps [of s]
  by (auto simp: slippage_adjusted_def bind_eq_Some_conv checked_mul_iff unat_div_word Let_def
      dest: unat_ne_0 split: if_splits)

text \<open>The exact amounts of an input: what the contract would pay out after slippage, and the costs.\<close>

definition exact_out :: "AssessProfitInput \<Rightarrow> nat" where
  "exact_out inp =
     (unat (ai_gross_profit inp) + unat (ai_amount_in inp)) * (10000 - unat (ai_slippage_bps inp)) div 10000"

definition exact_gas :: "AssessProfitInput \<Rightarrow> nat" where
  "exact_gas inp = unat (ai_gas_units inp) * unat (ai_gas_price_wei inp)"

definition exact_fee :: "FlashFees \<Rightarrow> AssessProfitInput \<Rightarrow> nat" where
  "exact_fee fees inp = exact_flash_fee fees (ai_flash_loan_source inp) (unat (ai_amount_in inp))"

lemma assess_amounts_exact:
  assumes "assess_amounts fees inp = Inr am" and "rate_ok inp"
  defines "rate \<equiv> unat (ai_token_to_matic_rate inp)" and "scale \<equiv> unat (ten_pow_u256 (ai_token_decimals inp))"
  shows "unat (aa_flash_loan_fee am) = exact_fee fees inp"
    and "unat (aa_adjusted_gross am) \<le> exact_out inp - unat (ai_amount_in inp)"
    and "unat (aa_gas_cost_wei am) = exact_gas inp"
    and "unat (aa_gas_cost_in_tokens am) = ceil_div (exact_gas inp * scale) rate"
    and "unat (aa_gross_profit_matic_wei am) = unat (aa_adjusted_gross am) * rate div scale"
    and "unat (aa_flash_fee_matic_wei am) = ceil_div (exact_fee fees inp * rate) scale"
    and "unat (aa_adjusted_gross am) * rate < 2 ^ 256"
proof -
  obtain fee out gas gtok gross ffee where
      fee: "flash_loan_fee_amount fees (ai_flash_loan_source inp) (ai_amount_in inp) = Some fee"
    and out: "slippage_adjusted (saturating_add (ai_gross_profit inp) (ai_amount_in inp)) (ai_slippage_bps inp) = Some out"
    and gas: "checked_mul (ucast (ai_gas_units inp)) (ai_gas_price_wei inp) = Some gas"
    and gtok: "gas_cost_tokens inp gas = Some gtok"
    and gross: "gross_matic inp (saturating_sub out (ai_amount_in inp)) = Some gross"
    and ffee: "flash_fee_matic inp fee = Some ffee"
    and am: "am = \<lparr>aa_flash_loan_fee = fee, aa_adjusted_gross = saturating_sub out (ai_amount_in inp),
           aa_gas_cost_wei = gas, aa_gas_cost_in_tokens = gtok,
           aa_gross_profit_matic_wei = gross, aa_flash_fee_matic_wei = ffee\<rparr>"
    using assms(1) by (auto simp: assess_amounts_def Let_def split: option.splits if_splits)
  show f: "unat (aa_flash_loan_fee am) = exact_fee fees inp"
    using flash_fee_exact [OF fee] by (simp add: am exact_fee_def)
  have "unat out \<le> exact_out inp"
    using slippage_adjusted_exact [OF out]
    by (simp add: exact_out_def unat_saturating_add div_le_mono mult_le_mono1)
  then show "unat (aa_adjusted_gross am) \<le> exact_out inp - unat (ai_amount_in inp)"
    by (simp add: am unat_saturating_sub diff_le_mono)
  show g: "unat (aa_gas_cost_wei am) = exact_gas inp"
    using gas by (simp add: am exact_gas_def checked_mul_iff)
  show "unat (aa_gas_cost_in_tokens am) = ceil_div (exact_gas inp * scale) rate"
    using gtok assms(2) g
    by (auto simp: am gas_cost_tokens_def bind_eq_Some_conv checked_mul_iff ceil_div_u256_iff rate_def scale_def)
  show "unat (aa_gross_profit_matic_wei am) = unat (aa_adjusted_gross am) * rate div scale"
    "unat (aa_adjusted_gross am) * rate < 2 ^ 256"
    using gross assms(2)
    by (auto simp: am gross_matic_def checked_mul_iff unat_div_word rate_def scale_def dest: sym)
      (metis unat_lt_256)
  show "unat (aa_flash_fee_matic_wei am) = ceil_div (exact_fee fees inp * rate) scale"
    using ffee assms(2) f
    by (auto simp: am flash_fee_matic_def bind_eq_Some_conv checked_mul_iff ceil_div_u256_iff rate_def scale_def)
qed

section \<open>What the gates guarantee\<close>

definition uplift_of :: "AssessProfitInput \<Rightarrow> u256 \<Rightarrow> u256" where
  "uplift_of inp basis = profit_priority_uplift_wei basis (ai_profit_priority_alpha_bps inp)
     (ai_gas_units inp) (ai_charged_priority_fee_per_gas inp)"

lemma tip_le_cap: "unat (profit_priority_tip_per_gas p a g) \<le> 200000000000"
proof -
  have "unat (min x (ucast MAX_PROFIT_PRIORITY_FEE_WEI)) \<le> 200000000000" for x :: u256
    by (simp add: min_def word_le_nat_alt MAX_PROFIT_PRIORITY_FEE_WEI_def)
  then show ?thesis by (simp add: profit_priority_tip_per_gas_def Let_def)
qed

lemma uplift_le: "unat (uplift_of inp basis) \<le> 200000000000 * 2 ^ 32"
proof -
  let ?tip = "profit_priority_tip_per_gas basis (ai_profit_priority_alpha_bps inp) (ai_gas_units inp)"
  have "unat (saturating_mul (saturating_sub ?tip f) (ucast (ai_gas_units inp))) \<le> unat ?tip * unat (ai_gas_units inp)"
    for f by (simp add: unat_saturating_mul unat_saturating_sub min.coboundedI1)
  also have "\<dots> \<le> 200000000000 * 2 ^ 32"
    using tip_le_cap unsigned_less [of "ai_gas_units inp", where 'a = nat] by (intro mult_le_mono) auto
  finally show ?thesis by (simp add: uplift_of_def profit_priority_uplift_wei_def Let_def)
qed

lemma gates_execute:
  assumes "pa_should_execute (assess_gates inp am)" and "ai_safety_multiplier_bps inp \<noteq> 0"
  defines "a \<equiv> assess_gates inp am"
  shows "rate_ok inp"
    and "unat (aa_flash_loan_fee am) + unat (aa_gas_cost_in_tokens am) < unat (aa_adjusted_gross am)"
    and "unat (pa_priority_bid_basis_matic_wei a) + unat (aa_gas_cost_wei am) + unat (aa_flash_fee_matic_wei am) =
         unat (aa_gross_profit_matic_wei am)"
    and "unat (pa_net_profit_after_gas_matic_wei a) + unat (uplift_of inp (pa_priority_bid_basis_matic_wei a)) =
         unat (pa_priority_bid_basis_matic_wei a)"
    and "0 < unat (pa_net_profit_after_gas_matic_wei a)"
    and "ai_min_profit_matic_wei inp \<le> pa_net_profit_after_gas_matic_wei a"
    and "unat (pa_net_profit_after_gas_matic_wei a) \<le> 10 ^ 18"
    and "safety_floor_matic_wei (aa_gas_cost_wei am) (ai_safety_multiplier_bps inp) \<le>
         pa_priority_bid_basis_matic_wei a"
    and "pa_net_profit a = saturating_sub (aa_adjusted_gross am) (aa_flash_loan_fee am)"
proof -
  let ?basis = "saturating_sub (saturating_sub (aa_gross_profit_matic_wei am) (aa_flash_fee_matic_wei am))
      (aa_gas_cost_wei am)"
  have basis: "pa_priority_bid_basis_matic_wei a = ?basis"
    and net: "pa_net_profit_after_gas_matic_wei a = saturating_sub ?basis (uplift_of inp ?basis)"
    by (simp_all add: a_def assess_gates_def Let_def uplift_of_def)
  have gates: "rate_ok inp"
      "saturating_sub (saturating_sub (aa_adjusted_gross am) (aa_flash_loan_fee am)) (aa_gas_cost_in_tokens am) > 0"
      "saturating_sub ?basis (uplift_of inp ?basis) > 0"
      "ai_min_profit_matic_wei inp \<le> saturating_sub ?basis (uplift_of inp ?basis)"
      "safety_floor_matic_wei (aa_gas_cost_wei am) (ai_safety_multiplier_bps inp) \<le> ?basis"
      "saturating_sub ?basis (uplift_of inp ?basis) \<le> ucast MAX_SANE_PROFIT_MATIC_WEI"
    using assms(1,2) by (simp_all add: assess_gates_def Let_def uplift_of_def)
  have pos: "0 < unat (saturating_sub ?basis (uplift_of inp ?basis))"
    using gates(3) by (simp add: word_less_nat_alt)
  then show "0 < unat (pa_net_profit_after_gas_matic_wei a)" by (simp only: net)
  show "rate_ok inp" by (rule gates(1))
  show "unat (aa_flash_loan_fee am) + unat (aa_gas_cost_in_tokens am) < unat (aa_adjusted_gross am)"
    using gates(2) by (simp add: word_less_nat_alt unat_saturating_sub)
  show "unat (pa_priority_bid_basis_matic_wei a) + unat (aa_gas_cost_wei am) + unat (aa_flash_fee_matic_wei am) =
         unat (aa_gross_profit_matic_wei am)"
    using pos by (simp add: basis unat_saturating_sub)
  show "unat (pa_net_profit_after_gas_matic_wei a) + unat (uplift_of inp (pa_priority_bid_basis_matic_wei a)) =
         unat (pa_priority_bid_basis_matic_wei a)"
    using pos by (simp add: basis net unat_saturating_sub)
  show "ai_min_profit_matic_wei inp \<le> pa_net_profit_after_gas_matic_wei a" using gates(4) by (simp only: net)
  show "unat (pa_net_profit_after_gas_matic_wei a) \<le> 10 ^ 18"
    using gates(6) by (simp add: net word_le_nat_alt MAX_SANE_PROFIT_MATIC_WEI_def)
  show "safety_floor_matic_wei (aa_gas_cost_wei am) (ai_safety_multiplier_bps inp) \<le>
         pa_priority_bid_basis_matic_wei a" using gates(5) by (simp only: basis)
  show "pa_net_profit a = saturating_sub (aa_adjusted_gross am) (aa_flash_loan_fee am)"
    by (simp add: a_def assess_gates_def Let_def)
qed

lemma assess_execute_amounts:
  assumes "pa_should_execute (assess_profit fees inp)"
  obtains am where "assess_amounts fees inp = Inr am" and "assess_profit fees inp = assess_gates inp am"
  using assms by (auto simp: assess_profit_def rejected_arithmetic_def Let_def split: sum.splits)

text \<open>A floor that the accepted basis reaches did not saturate, so it is the exact one.\<close>

lemma safety_floor_exact:
  assumes "safety_bps \<noteq> 0" and "unat (safety_floor_matic_wei penalty safety_bps) \<le> 10 ^ 60"
  shows "unat (safety_floor_matic_wei penalty safety_bps) = unat penalty * unat safety_bps div 10000"
proof -
  have f: "unat (safety_floor_matic_wei penalty safety_bps) =
      min (unat penalty * unat safety_bps) (2 ^ 256 - 1) div 10000"
    using assms(1) by (simp add: safety_floor_matic_wei_def unat_div_word unat_saturating_mul)
  then have "min (unat penalty * unat safety_bps) (2 ^ 256 - 1) \<le> 10 ^ 64 + 9999" using assms(2) by simp
  then show ?thesis unfolding f by (simp add: min_def split: if_splits)
qed

section \<open>Properties\<close>


text \<open>A loan of 1000 units at 18 decimals, repaid with a profit of 2 units, 30 basis points of slippage.\<close>

definition sample_assess_input :: AssessProfitInput where
  "sample_assess_input =
     \<lparr>ai_gross_profit = 5 * 10 ^ 18, ai_amount_in = 1000 * 10 ^ 18, ai_gas_units = 400000,
      ai_gas_price_wei = 60000000000, ai_charged_priority_fee_per_gas = 25000000000,
      ai_token_to_matic_rate = 10 ^ 17 * 5, ai_token_decimals = 18, ai_hop_count = 2,
      ai_min_profit_matic_wei = 10 ^ 16, ai_min_profit_roi_bps = 0, ai_slippage_bps = 30,
      ai_flash_loan_source = FlAaveV3, ai_safety_multiplier_bps = 10000, ai_profit_priority_alpha_bps = 1000\<rparr>"

lemma sample_assess_executes: "pa_should_execute (assess_profit initial_flash_fees sample_assess_input)"
  by code_simp


lemma on_chain_min_profit_exact:
  assumes "0 < unat net" and "unat net * 9500 < 2 ^ 256"
  shows "\<exists>m. on_chain_min_profit net = Some m \<and> unat m = max 1 (unat net * 9500 div 10000)"
proof -
  have "checked_mul net 9500 = Some (net * 9500)" using assms(2) by (simp add: checked_mul_def)
  moreover have product: "unat (net * 9500) = unat net * 9500" using assms(2) by (simp add: unat_mult_nowrap)
  moreover have "net \<noteq> 0" using assms(1) by auto
  ultimately have "on_chain_min_profit net =
      Some (if net * 9500 div 10000 = 0 then 1 else net * 9500 div 10000)"
    by (simp add: on_chain_min_profit_def ON_CHAIN_MIN_PROFIT_RATIO_BPS_def Let_def)
  moreover have base: "unat (net * 9500 div 10000) = unat net * 9500 div 10000"
    by (simp add: unat_div_word product)
  moreover have "net * 9500 div 10000 = 0 \<longleftrightarrow> unat net * 9500 div 10000 = 0"
    using base by (metis unsigned_0 word_unat_eqI)
  ultimately show ?thesis by (auto simp del: mult_eq_0_iff)
qed

lemma modeled_net_agrees:
  assumes "assess_amounts fees inp = Inr am"
    and "unat (ai_gross_profit inp) + unat (ai_amount_in inp) < 2 ^ 256"
  shows "modeled_net_profit_tokens fees (ai_gross_profit inp) (ai_amount_in inp) (ai_slippage_bps inp)
           (ai_flash_loan_source inp) = Some (saturating_sub (aa_adjusted_gross am) (aa_flash_loan_fee am))"
proof -
  have "checked_add (ai_gross_profit inp) (ai_amount_in inp) =
      Some (saturating_add (ai_gross_profit inp) (ai_amount_in inp))"
    using assms(2) by (simp add: checked_add_def saturating_add_def)
  then show ?thesis
    using assms(1)
    by (auto simp: modeled_net_profit_tokens_def assess_amounts_def Let_def split: option.splits if_splits)
qed

text \<open>
  The floor sent to the contract with an accepted route exists, is positive, never exceeds
  the net profit the assessment promised, and is 95 hundredths of it up to rounding; and computing it anew from
  the gross profit of the route, as the submission path does, gives the same floor.
\<close>

theorem on_chain_floor_agrees:
  assumes "pa_should_execute (assess_profit fees inp)" and "ai_safety_multiplier_bps inp \<noteq> 0"
    and "unat (ai_gross_profit inp) + unat (ai_amount_in inp) < 2 ^ 256"
  shows "\<exists>m. on_chain_min_profit_from_assessment (assess_profit fees inp) = Some m \<and>
             on_chain_min_profit_for_route fees (ai_gross_profit inp) (ai_amount_in inp) (ai_slippage_bps inp)
               (ai_flash_loan_source inp) = Some m \<and>
             0 < unat m \<and> m \<le> pa_net_profit (assess_profit fees inp) \<and>
             unat m = max 1 (unat (pa_net_profit (assess_profit fees inp)) * 95 div 100)"
proof -
  let ?a = "assess_profit fees inp"
  obtain am where am: "assess_amounts fees inp = Inr am" and a: "?a = assess_gates inp am"
    using assms(1) by (rule assess_execute_amounts)
  note gates = gates_execute [OF assms(1) [unfolded a] assms(2), folded a]
  note exact = assess_amounts_exact [OF am gates(1)]
  have net: "unat (pa_net_profit ?a) = unat (aa_adjusted_gross am) - unat (aa_flash_loan_fee am)"
    using gates(9) by (simp add: unat_saturating_sub)
  have pos: "0 < unat (pa_net_profit ?a)" using gates(2) net by simp
  have "1000000 \<le> unat (ai_token_to_matic_rate inp)"
    using gates(1) by (simp add: rate_ok_def MIN_TOKEN_TO_MATIC_RATE_def word_le_nat_alt)
  then have "unat (pa_net_profit ?a) * 9500 \<le> unat (aa_adjusted_gross am) * unat (ai_token_to_matic_rate inp)"
    using net by (intro mult_le_mono) simp_all
  then have "unat (pa_net_profit ?a) * 9500 < 2 ^ 256" using exact(7) by (rule order_le_less_trans)
  from on_chain_min_profit_exact [OF pos this] obtain m where m: "on_chain_min_profit (pa_net_profit ?a) = Some m"
    and v: "unat m = max 1 (unat (pa_net_profit ?a) * 9500 div 10000)" by blast
  have q: "unat (pa_net_profit ?a) * 9500 div 10000 = unat (pa_net_profit ?a) * 95 div 100"
    using div_mult_mult1 [of 100 "unat (pa_net_profit ?a) * 95" 100] by (simp add: mult.commute mult.left_commute)
  have "unat m \<le> unat (pa_net_profit ?a)" using v pos by simp
  moreover have "on_chain_min_profit_for_route fees (ai_gross_profit inp) (ai_amount_in inp) (ai_slippage_bps inp)
      (ai_flash_loan_source inp) = Some m"
    using modeled_net_agrees [OF am assms(3)] m gates(9) by (simp add: on_chain_min_profit_for_route_def)
  ultimately show ?thesis
    using m v q by (simp add: on_chain_min_profit_from_assessment_def word_le_nat_alt)
qed

theorem on_chain_floor_agrees_witness:
  "\<exists>m. on_chain_min_profit_from_assessment (assess_profit initial_flash_fees sample_assess_input) = Some m \<and>
       0 < unat m \<and> m \<le> pa_net_profit (assess_profit initial_flash_fees sample_assess_input)"
proof -
  have "ai_safety_multiplier_bps sample_assess_input \<noteq> 0"
    "unat (ai_gross_profit sample_assess_input) + unat (ai_amount_in sample_assess_input) < 2 ^ 256"
    by (simp_all add: sample_assess_input_def)
  then show ?thesis using on_chain_floor_agrees [OF sample_assess_executes] by blast
qed

section \<open>The score of the size search\<close>

lemma probe_parts_of_amounts:
  assumes "assess_amounts fees (probe_assess_input sim amount_in ctx) = Inr am"
    and "rate_ok (probe_assess_input sim amount_in ctx)"
  defines "basis \<equiv> saturating_sub (saturating_sub (aa_gross_profit_matic_wei am) (aa_flash_fee_matic_wei am))
      (aa_gas_cost_wei am)"
  shows "probe_matic_parts fees sim amount_in ctx =
    Some \<lparr>pp_gross_matic = aa_gross_profit_matic_wei am, pp_flash_matic = aa_flash_fee_matic_wei am,
          pp_gas_cost_wei = aa_gas_cost_wei am,
          pp_priority_uplift = uplift_of (probe_assess_input sim amount_in ctx) basis\<rparr>"
proof -
  let ?inp = "probe_assess_input sim amount_in ctx"
  have rate: "\<not> ai_token_to_matic_rate ?inp < MIN_TOKEN_TO_MATIC_RATE" using assms(2) by (simp add: rate_ok_def)
  have scale: "ten_pow_u256 (ai_token_decimals ?inp) \<noteq> 0" by (simp add: ten_pow_u256_eq ten_pow_nonzero)
  show ?thesis
    using assms(1) rate scale assms(2)
    by (auto simp: probe_matic_parts_def assess_amounts_def basis_def uplift_of_def gross_matic_def
        flash_fee_matic_def Let_def bind_eq_Some_conv simp del: ten_pow_u256_eq split: option.splits if_splits)
qed

text \<open>
  The signed net of a probe in MATIC, and probes whose quantities stay far inside 256 bits: a gross
  profit and a loss below the bias of \<open>2 ^ 128\<close> wei.
\<close>

definition signed_net :: "FlashFees \<Rightarrow> AssessProfitInput \<Rightarrow> AssessAmounts \<Rightarrow> int" where
  "signed_net fees inp am =
     (let basis = saturating_sub (saturating_sub (aa_gross_profit_matic_wei am) (aa_flash_fee_matic_wei am))
            (aa_gas_cost_wei am)
      in uint (aa_gross_profit_matic_wei am) - uint (aa_flash_fee_matic_wei am) -
         uint (aa_gas_cost_wei am) - uint (uplift_of inp basis))"

lemma shifted_diff:
  "int k = bias \<Longrightarrow> - bias \<le> int g - int f - int c - int u \<Longrightarrow>
   int (k + g - f - c - u) = bias + (int g - int f - int c - int u)"
  by linarith

lemma clipped_diff: "int (g - f - c - u) = max 0 (int g - int f - int c - int u)"
  by linarith

definition probe_in_range :: "FlashFees \<Rightarrow> AssessProfitInput \<Rightarrow> bool" where
  "probe_in_range fees inp \<longleftrightarrow>
     rate_ok inp \<and>
     (case assess_amounts fees inp of
        Inl _ \<Rightarrow> False
      | Inr am \<Rightarrow> aa_gross_profit_matic_wei am < BRENT_MATIC_SCORE_BIAS \<and>
          - 340282366920938463463374607431768211456 \<le> signed_net fees inp am)"

lemma probe_score_and_net:
  assumes "probe_in_range fees (probe_assess_input sim amount_in ctx)"
  obtains v where "int (unat (brent_score_matic_from_sim fees sim amount_in ctx)) = 2 ^ 128 + v"
    and "int (unat (net_profit_matic_from_sim fees sim amount_in ctx)) = max 0 v"
proof -
  let ?inp = "probe_assess_input sim amount_in ctx"
  obtain am where am: "assess_amounts fees ?inp = Inr am" and rate: "rate_ok ?inp"
    and gross: "aa_gross_profit_matic_wei am < BRENT_MATIC_SCORE_BIAS"
    and low: "- (2 ^ 128) \<le> signed_net fees ?inp am"
    using assms by (auto simp: probe_in_range_def split: sum.splits)
  let ?basis = "saturating_sub (saturating_sub (aa_gross_profit_matic_wei am) (aa_flash_fee_matic_wei am))
      (aa_gas_cost_wei am)"
  have g: "unat (aa_gross_profit_matic_wei am) < 2 ^ 255"
    using gross by (simp add: word_less_nat_alt BRENT_MATIC_SCORE_BIAS_def)
  have "unat (saturating_add BRENT_MATIC_SCORE_BIAS (aa_gross_profit_matic_wei am)) =
      2 ^ 128 + unat (aa_gross_profit_matic_wei am)"
    using g by (simp add: unat_saturating_add BRENT_MATIC_SCORE_BIAS_def)
  then have score: "unat (brent_score_matic_from_sim fees sim amount_in ctx) =
      2 ^ 128 + unat (aa_gross_profit_matic_wei am) - unat (aa_flash_fee_matic_wei am) -
      unat (aa_gas_cost_wei am) - unat (uplift_of ?inp ?basis)"
    using probe_parts_of_amounts [OF am rate]
    by (simp add: brent_score_matic_from_sim_def unat_saturating_sub)
  have net: "unat (net_profit_matic_from_sim fees sim amount_in ctx) =
      unat (aa_gross_profit_matic_wei am) - unat (aa_flash_fee_matic_wei am) -
      unat (aa_gas_cost_wei am) - unat (uplift_of ?inp ?basis)"
    using am by (simp add: net_profit_matic_from_sim_def assess_profit_def assess_gates_def Let_def
        uplift_of_def unat_saturating_sub)
  show thesis
  proof (rule that [of "signed_net fees ?inp am"])
    show "int (unat (brent_score_matic_from_sim fees sim amount_in ctx)) = 2 ^ 128 + signed_net fees ?inp am"
      using low unfolding score signed_net_def Let_def uint_nat by (rule shifted_diff [rotated]) simp
    show "int (unat (net_profit_matic_from_sim fees sim amount_in ctx)) = max 0 (signed_net fees ?inp am)"
      unfolding net signed_net_def Let_def uint_nat by (rule clipped_diff)
  qed
qed

text \<open>
  Maximizing the score of the size search maximizes the net profit: of two probes in range,
  the second has the greater net profit exactly when it has the greater score and a positive net profit.
  The bias keeps losing sizes ordered and never lets one overtake a profitable one.
\<close>

theorem brent_score_ranks_net:
  assumes "probe_in_range fees (probe_assess_input s1 a1 ctx)"
    and "probe_in_range fees (probe_assess_input s2 a2 ctx)"
  shows "net_profit_matic_from_sim fees s1 a1 ctx < net_profit_matic_from_sim fees s2 a2 ctx \<longleftrightarrow>
         brent_score_matic_from_sim fees s1 a1 ctx < brent_score_matic_from_sim fees s2 a2 ctx \<and>
         0 < net_profit_matic_from_sim fees s2 a2 ctx"
proof -
  obtain v1 where v1: "int (unat (brent_score_matic_from_sim fees s1 a1 ctx)) = 2 ^ 128 + v1"
    "int (unat (net_profit_matic_from_sim fees s1 a1 ctx)) = max 0 v1"
    using assms(1) by (rule probe_score_and_net)
  obtain v2 where v2: "int (unat (brent_score_matic_from_sim fees s2 a2 ctx)) = 2 ^ 128 + v2"
    "int (unat (net_profit_matic_from_sim fees s2 a2 ctx)) = max 0 v2"
    using assms(2) by (rule probe_score_and_net)
  have "x < y \<longleftrightarrow> int (unat x) < int (unat y)" for x y :: u256
    by (simp only: word_less_nat_alt of_nat_less_iff)
  then have less: "x < y \<longleftrightarrow> int (unat x) < int (unat y)" for x y :: u256 by blast
  show ?thesis unfolding less v1 v2 by (auto simp: max_def)
qed

definition sample_probe_context :: ProfitEvalContext where
  "sample_probe_context =
     \<lparr>pc_gas_price = 60000000000, pc_charged_priority_fee_per_gas = 25000000000, pc_flash_source = FlAaveV3,
      pc_slippage_bps = 30, pc_token_to_matic_rate = 500000000000000000, pc_token_decimals = 18,
      pc_safety_multiplier_bps = 10000, pc_gas_scale_bps = 10000, pc_profit_priority_alpha_bps = 1000,
      pc_hop_count = 2\<rparr>"

definition sample_probe_sim :: "u256 \<Rightarrow> MinimalSimResult" where
  "sample_probe_sim profit = \<lparr>ms_profit = profit, ms_amount_out = 1000000000000000000000 + profit, ms_total_gas = 400000\<rparr>"

theorem brent_score_ranks_net_witness:
  "brent_score_matic_from_sim initial_flash_fees (sample_probe_sim (4000000000000000000)) (1000000000000000000000) sample_probe_context <
   brent_score_matic_from_sim initial_flash_fees (sample_probe_sim (5000000000000000000)) (1000000000000000000000) sample_probe_context"
proof -
  have "probe_in_range initial_flash_fees
      (probe_assess_input (sample_probe_sim (4000000000000000000)) (1000000000000000000000) sample_probe_context)" by code_simp
  moreover have "probe_in_range initial_flash_fees
      (probe_assess_input (sample_probe_sim (5000000000000000000)) (1000000000000000000000) sample_probe_context)" by code_simp
  ultimately have ranks: "net_profit_matic_from_sim initial_flash_fees (sample_probe_sim (4000000000000000000))
        (1000000000000000000000) sample_probe_context <
      net_profit_matic_from_sim initial_flash_fees (sample_probe_sim (5000000000000000000)) (1000000000000000000000)
        sample_probe_context \<longleftrightarrow>
      brent_score_matic_from_sim initial_flash_fees (sample_probe_sim (4000000000000000000)) (1000000000000000000000)
        sample_probe_context <
      brent_score_matic_from_sim initial_flash_fees (sample_probe_sim (5000000000000000000)) (1000000000000000000000)
        sample_probe_context \<and>
      0 < net_profit_matic_from_sim initial_flash_fees (sample_probe_sim (5000000000000000000)) (1000000000000000000000)
        sample_probe_context"
    by (rule brent_score_ranks_net)
  have "net_profit_matic_from_sim initial_flash_fees (sample_probe_sim (4000000000000000000)) (1000000000000000000000)
        sample_probe_context <
      net_profit_matic_from_sim initial_flash_fees (sample_probe_sim (5000000000000000000)) (1000000000000000000000)
        sample_probe_context" by code_simp
  then show ?thesis using ranks by blast
qed

end
