(* ===== verification/SimSanity.thy ===== *)
theory SimSanity
  imports Profit
begin

text \<open>
  The sanity checks on a sized route, \<open>src/pipeline/sim_sanity.rs\<close>, the slippage of a route, section
  \<open>impact_slippage\<close> of \<open>src/services/execution/support.rs\<close>, and the phantom screen of
  \<open>src/pipeline/local_sim.rs\<close> built on both the simulation and the checks.

  The price of MATIC comes from a Chainlink answer, a signed integer, or as a fallback from a float. The
  float is only scaled to millionths and rounded, down in one function and to the nearest in another; the
  two results are parameters, \<open>None\<close> where the code rejects the float.
\<close>

section \<open>Checks\<close>

datatype SimSanityReject =
    UnsupportedTokenDecimals
  | AmountBelowEconomicFloor
  | InsaneProfitRatio
  | InsaneProfitMatic
  | OptimizerPinnedAtFloor

record SimSanityInput =
  ss_amount_in :: u256
  ss_gross_profit :: u256
  ss_search_low :: u256
  ss_token_decimals :: u8
  ss_token_to_matic_rate :: u256

definition MIN_ECONOMIC_VALUE_MATIC_WEI :: u128 where "MIN_ECONOMIC_VALUE_MATIC_WEI = 10 ^ 17"
definition MAX_SANE_PROFIT_RATIO_BPS :: u64 where "MAX_SANE_PROFIT_RATIO_BPS = 50000"

definition min_economic_amount_in :: "u8 \<Rightarrow> u256 \<Rightarrow> u256" where
  "min_economic_amount_in decimals rate =
     (if decimals > MAX_SUPPORTED_TOKEN_DECIMALS then - 1
      else
        let scale = ten_pow_u256_cached decimals;
            dust_floor = scale div 1000;
            absolute_floor = 1000
        in if rate = 0 then max dust_floor absolute_floor
           else case checked_mul (ucast MIN_ECONOMIC_VALUE_MATIC_WEI) scale of
             None \<Rightarrow> - 1
           | Some economic \<Rightarrow> max (max (economic div rate) dust_floor) absolute_floor)"

definition check_sim_sanity_fast :: "SimSanityInput \<Rightarrow> SimSanityReject + unit" where
  "check_sim_sanity_fast inp =
     (if ss_token_decimals inp > MAX_SUPPORTED_TOKEN_DECIMALS then Inl UnsupportedTokenDecimals
      else if ss_amount_in inp = 0 then Inl AmountBelowEconomicFloor
      else case checked_mul (ss_amount_in inp) (ucast MAX_SANE_PROFIT_RATIO_BPS) of
        None \<Rightarrow> Inl InsaneProfitRatio
      | Some value \<Rightarrow> if ss_gross_profit inp > value div 10000 then Inl InsaneProfitRatio else Inr ())"

definition optimizer_pin_ceiling :: "u256 \<Rightarrow> u256 option" where
  "optimizer_pin_ceiling search_low =
     (if search_low = 0 then None else Some (saturating_add search_low (max (search_low div 50) 1)))"

definition optimizer_pinned_at_floor :: "SimSanityInput \<Rightarrow> bool" where
  "optimizer_pinned_at_floor inp =
     (case optimizer_pin_ceiling (ss_search_low inp) of
        None \<Rightarrow> False
      | Some pin_ceiling \<Rightarrow>
          ss_amount_in inp \<le> pin_ceiling \<and> ss_gross_profit inp > ss_amount_in inp div 20)"

definition insane_matic :: "SimSanityInput \<Rightarrow> bool" where
  "insane_matic inp \<longleftrightarrow>
     ss_token_to_matic_rate inp \<ge> MIN_TOKEN_TO_MATIC_RATE \<and>
     (case checked_mul (ss_gross_profit inp) (ss_token_to_matic_rate inp) of
        Some v \<Rightarrow> v div ten_pow_u256_cached (ss_token_decimals inp) > ucast MAX_SANE_PROFIT_MATIC_WEI
      | None \<Rightarrow> False)"

definition tickless_cap_trade :: "SimSanityInput \<Rightarrow> bool" where
  "tickless_cap_trade inp \<longleftrightarrow>
     ss_amount_in inp \<ge> spot_probe_for_decimals (ss_token_decimals inp) \<and>
     ss_amount_in inp < min_economic_amount_in (ss_token_decimals inp) (ss_token_to_matic_rate inp)"

definition check_sim_sanity :: "SimSanityInput \<Rightarrow> SimSanityReject + unit" where
  "check_sim_sanity inp =
     (case check_sim_sanity_fast inp of
        Inl reason \<Rightarrow> Inl reason
      | Inr _ \<Rightarrow>
          let floor = min_economic_amount_in (ss_token_decimals inp) (ss_token_to_matic_rate inp)
          in if ss_amount_in inp < floor \<and> \<not> tickless_cap_trade inp then Inl AmountBelowEconomicFloor
             else if insane_matic inp then Inl InsaneProfitMatic
             else if \<not> tickless_cap_trade inp \<and> optimizer_pinned_at_floor inp then Inl OptimizerPinnedAtFloor
             else Inr ())"

definition check_sim_sanity_for_dispatch :: "SimSanityInput \<Rightarrow> SimSanityReject + unit" where
  "check_sim_sanity_for_dispatch inp =
     (case check_sim_sanity inp of
        Inr _ \<Rightarrow> Inr ()
      | Inl OptimizerPinnedAtFloor \<Rightarrow> check_sim_sanity (inp\<lparr>ss_search_low := 0\<rparr>)
      | Inl reason \<Rightarrow> Inl reason)"

definition probe_insane_gross_phantom ::
    "StateArena \<Rightarrow> Edge list \<Rightarrow> u256 \<Rightarrow> u8 \<Rightarrow> u256 \<Rightarrow> CurveStats \<Rightarrow> bool counted" where
  "probe_insane_gross_phantom arena edges amount decimals rate cs =
     (if amount = 0 then Some (False, cs)
      else do {
        (sim, cs) \<leftarrow> simulate_route_minimal arena edges amount cs;
        Some (case sim of
            None \<Rightarrow> False
          | Some sim \<Rightarrow>
              if ms_profit sim = 0 then False
              else check_sim_sanity
                     \<lparr>ss_amount_in = amount, ss_gross_profit = ms_profit sim, ss_search_low = 0,
                      ss_token_decimals = decimals, ss_token_to_matic_rate = rate\<rparr>
                   \<in> {Inl InsaneProfitRatio, Inl InsaneProfitMatic}, cs)
      })"

section \<open>Caps in US dollars\<close>

definition MIN_FINAL_PROFIT_USD_CENTS :: u64 where "MIN_FINAL_PROFIT_USD_CENTS = 1"

abbreviation ONE_E18 :: u256 where "ONE_E18 \<equiv> 1000000000000000000"

text \<open>The MATIC price: a Chainlink answer with 8 decimals, and the two roundings of the float.\<close>

record MaticUsd =
  mu_chainlink :: "int option"
  mu_floor_micros :: "u64 option"
  mu_round_micros :: "u64 option"

text \<open>\<open>i128::try_from\<close> of the answer, and its rejection when it is not positive.\<close>

definition positive_answer :: "int \<Rightarrow> u256 option" where
  "positive_answer raw = (if \<not> in_signed 128 raw \<or> raw \<le> 0 then None else Some (of_int raw))"

definition min_final_profit_matic_wei :: "MaticUsd \<Rightarrow> u256 option" where
  "min_final_profit_matic_wei mu = do {
     (price, scale) \<leftarrow> (case mu_chainlink mu of
         Some raw \<Rightarrow> map_option (\<lambda>p. (p, 100000000)) (positive_answer raw)
       | None \<Rightarrow> (case mu_floor_micros mu of
           Some micros \<Rightarrow> if micros = 0 then None else Some (ucast micros, 1000000)
         | None \<Rightarrow> None));
     numerator \<leftarrow> checked_mul (ucast MIN_FINAL_PROFIT_USD_CENTS) ONE_E18;
     numerator \<leftarrow> checked_mul numerator scale;
     denominator \<leftarrow> checked_mul price 100;
     d1 \<leftarrow> checked_sub denominator 1;
     sum \<leftarrow> checked_add numerator d1;
     Some (sum div denominator)
   }"

definition required_profit_matic_wei :: "u256 \<Rightarrow> MaticUsd \<Rightarrow> u256 option" where
  "required_profit_matic_wei configured_min_profit mu =
     map_option (\<lambda>final_floor. max final_floor configured_min_profit) (min_final_profit_matic_wei mu)"

definition max_flash_loan_matic_wei_from_usd_chainlink_8 :: "u64 \<Rightarrow> int \<Rightarrow> u256 option" where
  "max_flash_loan_matic_wei_from_usd_chainlink_8 usd_cap answer =
     (if usd_cap = 0 then None
      else do {
        matic \<leftarrow> positive_answer answer;
        numer \<leftarrow> checked_mul (ucast usd_cap) ONE_E18;
        numer \<leftarrow> checked_mul numer 100000000;
        Some (numer div matic)
      })"

definition max_flash_loan_matic_wei_from_usd :: "u64 \<Rightarrow> u64 option \<Rightarrow> u256 option" where
  "max_flash_loan_matic_wei_from_usd usd_cap round_micros =
     (if usd_cap = 0 then None
      else do {
        micros \<leftarrow> round_micros;
        if micros = 0 then None
        else do {
          numer \<leftarrow> checked_mul (ucast usd_cap) ONE_E18;
          numer \<leftarrow> checked_mul numer 1000000;
          Some (numer div ucast micros)
        }
      })"

definition max_flash_borrow_wei :: "u64 \<Rightarrow> u8 \<Rightarrow> u256 \<Rightarrow> MaticUsd \<Rightarrow> u256 option" where
  "max_flash_borrow_wei max_flash_loan_usd decimals rate mu =
     (if decimals > MAX_SUPPORTED_TOKEN_DECIMALS \<or> rate = 0 then None
      else do {
        max_matic_wei \<leftarrow> (case mu_chainlink mu of
            Some raw \<Rightarrow> max_flash_loan_matic_wei_from_usd_chainlink_8 max_flash_loan_usd raw
          | None \<Rightarrow> max_flash_loan_matic_wei_from_usd max_flash_loan_usd (mu_round_micros mu));
        scaled \<leftarrow> checked_mul max_matic_wei (ten_pow_u256_cached decimals);
        checked_div scaled rate
      })"

record FlashBorrowCapParams =
  fb_max_flash_loan_usd :: u64
  fb_token_decimals :: u8
  fb_token_to_matic_rate :: u256
  fb_matic_usd :: MaticUsd

definition cap_wei :: "FlashBorrowCapParams \<Rightarrow> u256 option" where
  "cap_wei params = max_flash_borrow_wei (fb_max_flash_loan_usd params) (fb_token_decimals params)
     (fb_token_to_matic_rate params) (fb_matic_usd params)"

definition cap_enforced_but_unresolved :: "FlashBorrowCapParams \<Rightarrow> bool" where
  "cap_enforced_but_unresolved params \<longleftrightarrow> fb_max_flash_loan_usd params > 0 \<and> cap_wei params = None"

definition amount_within_cap :: "FlashBorrowCapParams \<Rightarrow> u256 \<Rightarrow> bool" where
  "amount_within_cap params amount_in =
     (if fb_max_flash_loan_usd params = 0 \<or> amount_in = 0 then True
      else case cap_wei params of Some cap \<Rightarrow> amount_in \<le> cap | None \<Rightarrow> False)"

section \<open>Slippage of a route\<close>

definition EXECUTION_MIN_SLIPPAGE_BPS :: u64 where "EXECUTION_MIN_SLIPPAGE_BPS = 100"
definition DIRECT_ROUTE_DRIFT_SLIPPAGE_BPS :: u64 where "DIRECT_ROUTE_DRIFT_SLIPPAGE_BPS = 50"

definition marginal_shortfall_bps :: "u256 \<Rightarrow> u256 \<Rightarrow> u256 \<Rightarrow> u256 \<Rightarrow> u64" where
  "marginal_shortfall_bps base_out base_amount probe_out probe_amount =
     (if base_out = 0 \<or> base_amount = 0 \<or> probe_out = 0 \<or> probe_amount = 0 then 10000
      else case checked_mul base_out 1000000 of
        None \<Rightarrow> 10000
      | Some base_scaled \<Rightarrow>
          let base_rate = base_scaled div base_amount
          in case checked_mul probe_out 1000000 of
            None \<Rightarrow> 10000
          | Some probe_scaled \<Rightarrow>
              let probe_rate = probe_scaled div probe_amount
              in if probe_rate \<ge> base_rate then 0
                 else
                   let shortfall = base_rate - probe_rate;
                       bps = min (shortfall * 10000 div max base_rate 1) (10000 - 1)
                   in or_default (u64_try_from bps) 10000)"

definition depth_impact_slippage_bps_with_base ::
    "StateArena \<Rightarrow> Edge list \<Rightarrow> u256 \<Rightarrow> MinimalSimResult option \<Rightarrow> CurveStats \<Rightarrow> u64 counted" where
  "depth_impact_slippage_bps_with_base arena edges amount_in base_sim cs =
     (if amount_in = 0 \<or> edges = [] then Some (0, cs)
      else do {
        (base, cs) \<leftarrow> (case base_sim of
            Some sim \<Rightarrow> Some (Some sim, cs)
          | None \<Rightarrow> simulate_route_minimal arena edges amount_in cs);
        case base of
          None \<Rightarrow> Some (10000, cs)
        | Some sim \<Rightarrow>
            if ms_profit sim = 0 then Some (10000, cs)
            else do {
              let probe_in = saturating_mul amount_in 10500 div 10000;
              let probe_in = (if probe_in \<le> amount_in then saturating_add amount_in 1 else probe_in);
              (probe, cs) \<leftarrow> simulate_route_minimal arena edges probe_in cs;
              Some (case probe of
                  None \<Rightarrow> 2500
                | Some probe \<Rightarrow>
                    marginal_shortfall_bps (ms_amount_out sim) amount_in (ms_amount_out probe) probe_in, cs)
            }
      })"

definition effective_slippage_bps :: "u64 \<Rightarrow> u32 \<Rightarrow> u64 \<Rightarrow> u64" where
  "effective_slippage_bps configured_per_hop_bps hop_count depth_route_bps =
     (let per_hop = max configured_per_hop_bps EXECUTION_MIN_SLIPPAGE_BPS;
          config_route = compound_slippage_bps per_hop hop_count
      in min (max config_route depth_route_bps) 9999)"

definition effective_slippage_bps_for_flash :: "u64 \<Rightarrow> u32 \<Rightarrow> u64 \<Rightarrow> FlashLoanSource \<Rightarrow> u64" where
  "effective_slippage_bps_for_flash configured_per_hop_bps hop_count depth_route_bps flash_source =
     (if flash_source = FlDirect
      then let floor = min (max configured_per_hop_bps DIRECT_ROUTE_DRIFT_SLIPPAGE_BPS) 9999
           in min (max floor depth_route_bps) 9999
      else effective_slippage_bps configured_per_hop_bps hop_count depth_route_bps)"

section \<open>The probe amount is the dust floor\<close>

lemma unat_cached_scale: "unat d \<le> 30 \<Longrightarrow> unat (ten_pow_u256_cached d) = 10 ^ unat d"
  by (simp add: ten_pow_u256_cached_eq unat_ten_pow)

lemma unat_max_word2: "unat (max a b) = max (unat a) (unat b)" for a b :: "'a::len word"
  by (simp add: max_def word_le_nat_alt)

lemma unat_min_word2: "unat (min a b) = min (unat a) (unat b)" for a b :: "'a::len word"
  by (simp add: min_def word_le_nat_alt)

lemma pow_split: "n \<le> m \<Longrightarrow> (10 :: nat) ^ m = 10 ^ (m - n) * 10 ^ n"
  by (simp flip: power_add)

lemma pow_div: "n \<le> m \<Longrightarrow> (10 :: nat) ^ m div 10 ^ n = 10 ^ (m - n)"
  using pow_split [of n m] by simp

lemma spot_probe_is_dust_floor:
  assumes "6 \<le> unat d" and "unat d \<le> 30"
  shows "unat (spot_probe_for_decimals d) = 10 ^ (unat d - 3)"
proof -
  have six: "6 \<le> d" using assms(1) by (simp add: word_le_nat_alt)
  then have d6: "unat (d - 6) = unat d - 6" by (simp add: unat_sub_nowrap)
  have scale: "unat (ten_pow_u256_cached d) = 10 ^ unat d" "unat (ten_pow_u256_cached (d - 6)) = 10 ^ (unat d - 6)"
    using assms unat_cached_scale [of d] unat_cached_scale [of "d - 6"] by (simp_all add: d6)
  have dust: "(10 :: nat) ^ unat d div 1000 = 10 ^ (unat d - 3)" using assms pow_div [of 3 "unat d"] by simp
  have cap: "(10 :: nat) ^ unat d div 100 = 10 ^ (unat d - 2)" using assms pow_div [of 2 "unat d"] by simp
  have "unat (spot_probe_for_decimals d) =
      min (max (max (10 ^ (unat d - 6)) (10 ^ (unat d - 3))) 1000) (10 ^ (unat d - 2))"
    using six by (simp add: spot_probe_for_decimals_def Let_def unat_max_word2 unat_min_word2 unat_div_word scale dust cap)
  moreover have "(10 :: nat) ^ (unat d - 6) \<le> 10 ^ (unat d - 3)" "(10 :: nat) ^ (unat d - 3) \<le> 10 ^ (unat d - 2)"
    by (intro power_increasing; simp)+
  moreover have "(10 :: nat) ^ 3 \<le> 10 ^ (unat d - 3)" using assms by (intro power_increasing) simp_all
  ultimately show ?thesis by simp
qed

lemma dust_floor_le_economic:
  assumes "unat d \<le> 30" shows "10 ^ (unat d - 3) \<le> unat (min_economic_amount_in d rate)"
proof -
  have d: "\<not> d > MAX_SUPPORTED_TOKEN_DECIMALS"
    using assms by (simp add: MAX_SUPPORTED_TOKEN_DECIMALS_def word_less_nat_alt)
  have dust: "10 ^ (unat d - 3) \<le> max (unat (ten_pow_u256_cached d div 1000)) 1000"
  proof (cases "3 \<le> unat d")
    case True
    then show ?thesis using pow_div [of 3 "unat d"] by (simp add: unat_div_word unat_cached_scale [OF assms])
  qed simp
  show ?thesis
  proof (cases "rate = 0")
    case True
    then show ?thesis using d dust by (simp add: min_economic_amount_in_def Let_def unat_max_word2)
  next
    case False
    have "unat (- 1 :: u256) = 2 ^ 256 - 1" by (simp add: unat_max_word)
    moreover have "(10 :: nat) ^ (unat d - 3) \<le> 10 ^ 30" using assms by (intro power_increasing) simp_all
    ultimately show ?thesis
      using False d dust
      by (auto simp: min_economic_amount_in_def Let_def unat_max_word2 split: option.split)
  qed
qed

section \<open>Properties\<close>

text \<open>
  The economic floor is not enforced. The check exempts every amount of at least the
  decimal-aware probe from the floor, as if it were a capped trade on a pool without tick data, and the
  probe is a thousandth of a token: for tokens with 6 to 30 decimals an amount is rejected as below the
  economic floor exactly when it is less than 0.001 tokens, whatever the token is worth.
\<close>

theorem economic_floor_not_enforced:
  assumes "6 \<le> ss_token_decimals inp" and "ss_token_decimals inp \<le> 30" and "check_sim_sanity_fast inp = Inr ()"
  shows "check_sim_sanity inp = Inl AmountBelowEconomicFloor \<longleftrightarrow>
         unat (ss_amount_in inp) < 10 ^ (unat (ss_token_decimals inp) - 3)"
proof -
  let ?d = "ss_token_decimals inp" and ?floor = "min_economic_amount_in (ss_token_decimals inp) (ss_token_to_matic_rate inp)"
  have d: "6 \<le> unat ?d" "unat ?d \<le> 30" using assms(1,2) by (simp_all add: word_le_nat_alt)
  have "check_sim_sanity inp = Inl AmountBelowEconomicFloor \<longleftrightarrow> ss_amount_in inp < ?floor \<and> \<not> tickless_cap_trade inp"
    using assms(3) by (simp add: check_sim_sanity_def Let_def)
  also have "\<dots> \<longleftrightarrow> ss_amount_in inp < ?floor \<and> ss_amount_in inp < spot_probe_for_decimals ?d"
    unfolding tickless_cap_trade_def not_le [symmetric] by blast
  also have "\<dots> \<longleftrightarrow> unat (ss_amount_in inp) < 10 ^ (unat ?d - 3)"
    using spot_probe_is_dust_floor [OF d] dust_floor_le_economic [OF d(2), of "ss_token_to_matic_rate inp"]
    by (auto simp: word_less_nat_alt)
  finally show ?thesis .
qed

text \<open>A thousandth of a token that is worth a millionth of a MATIC passes; its floor is \<open>10 ^ 23\<close>.\<close>

definition sample_dust_trade :: SimSanityInput where
  "sample_dust_trade = \<lparr>ss_amount_in = 10 ^ 15, ss_gross_profit = 10 ^ 12, ss_search_low = 0,
     ss_token_decimals = 18, ss_token_to_matic_rate = 10 ^ 12\<rparr>"

theorem economic_floor_not_enforced_witness:
  "check_sim_sanity sample_dust_trade \<noteq> Inl AmountBelowEconomicFloor \<and>
   unat (ss_amount_in sample_dust_trade) < 10 ^ 23 \<and>
   min_economic_amount_in (ss_token_decimals sample_dust_trade) (ss_token_to_matic_rate sample_dust_trade) = 10 ^ 23"
proof -
  have "check_sim_sanity_fast sample_dust_trade = Inr ()"
    by (simp add: check_sim_sanity_fast_def sample_dust_trade_def MAX_SUPPORTED_TOKEN_DECIMALS_def
        MAX_SANE_PROFIT_RATIO_BPS_def checked_mul_def)
  moreover have "min_economic_amount_in 18 (10 ^ 12) = (10 ^ 23 :: u256)"
    by (simp add: min_economic_amount_in_def MAX_SUPPORTED_TOKEN_DECIMALS_def ten_pow_u256_cached_eq
        MIN_ECONOMIC_VALUE_MATIC_WEI_def checked_mul_def Let_def)
  ultimately show ?thesis
    using economic_floor_not_enforced [of sample_dust_trade] by (simp add: sample_dust_trade_def)
qed

section \<open>The dollar cap\<close>

lemma positive_answer_exact: "positive_answer raw = Some p \<Longrightarrow> 0 < raw \<and> int (unat p) = raw"
proof -
  assume "positive_answer raw = Some p"
  then have raw: "0 < raw" "raw < 2 ^ 127" and p: "p = of_int raw"
    by (auto simp: positive_answer_def in_signed_def split: if_splits)
  then have "uint p = raw" by (simp add: uint_word_of_int_eq take_bit_int_eq_self)
  then show ?thesis using raw(1) by (simp flip: uint_nat)
qed

text \<open>
  A borrow within the configured cap is worth at most that many dollars in exact arithmetic
  at the Chainlink price: with amount, token rate and price at their scales of \<open>10 ^ decimals\<close>,
  \<open>10 ^ 18\<close> and \<open>10 ^ 8\<close>, the product stays below the cap, with no loss to rounding or wrap-around.
\<close>

theorem flash_borrow_within_usd_cap:
  assumes "amount_within_cap params amount_in" and "fb_max_flash_loan_usd params \<noteq> 0"
    and "mu_chainlink (fb_matic_usd params) = Some answer" and "amount_in \<noteq> 0"
  shows "int (unat amount_in) * int (unat (fb_token_to_matic_rate params)) * answer
         \<le> int (unat (fb_max_flash_loan_usd params)) * 10 ^ 18 * 10 ^ 8 * 10 ^ unat (fb_token_decimals params)"
proof -
  let ?usd = "fb_max_flash_loan_usd params" and ?rate = "fb_token_to_matic_rate params"
    and ?scale = "ten_pow_u256_cached (fb_token_decimals params)"
  obtain cap where cap: "cap_wei params = Some cap" and le: "amount_in \<le> cap"
    using assms(1,2,4) by (auto simp: amount_within_cap_def split: option.splits if_splits)
  have dec: "unat (fb_token_decimals params) \<le> 30"
    using cap by (auto simp: cap_wei_def max_flash_borrow_wei_def MAX_SUPPORTED_TOKEN_DECIMALS_def
        word_less_nat_alt not_less split: if_splits)
  obtain matic n1 n2 scaled where matic: "positive_answer answer = Some matic"
    and n1: "checked_mul (ucast ?usd) ONE_E18 = Some n1" and n2: "checked_mul n1 100000000 = Some n2"
    and scaled: "checked_mul (n2 div matic) ?scale = Some scaled" and q: "checked_div scaled ?rate = Some cap"
    using cap assms(2,3)
    by (auto simp: cap_wei_def max_flash_borrow_wei_def max_flash_loan_matic_wei_from_usd_chainlink_8_def
        bind_eq_Some_conv split: if_splits)
  have numer: "unat n2 = unat ?usd * 10 ^ 18 * 10 ^ 8" using n1 n2 by (simp add: checked_mul_iff)
  have "unat amount_in * unat ?rate \<le> unat cap * unat ?rate" using le by (simp add: word_le_nat_alt)
  also have "\<dots> \<le> unat scaled" using q by (simp add: checked_div_iff div_times_less_eq_dividend)
  also have "\<dots> = unat n2 div unat matic * 10 ^ unat (fb_token_decimals params)"
    using scaled unat_cached_scale [OF dec] by (simp add: checked_mul_iff unat_div_word)
  finally have "unat amount_in * unat ?rate * unat matic \<le>
      unat n2 div unat matic * 10 ^ unat (fb_token_decimals params) * unat matic" by (rule mult_le_mono1)
  also have "\<dots> = unat n2 div unat matic * unat matic * 10 ^ unat (fb_token_decimals params)" by simp
  also have "\<dots> \<le> unat n2 * 10 ^ unat (fb_token_decimals params)"
    by (intro mult_le_mono1 div_times_less_eq_dividend)
  finally have "int (unat amount_in * unat ?rate * unat matic) \<le> int (unat n2 * 10 ^ unat (fb_token_decimals params))"
    by (simp only: of_nat_le_iff)
  then show ?thesis using positive_answer_exact [OF matic] by (simp add: numer)
qed

definition sample_cap_params :: FlashBorrowCapParams where
  "sample_cap_params = \<lparr>fb_max_flash_loan_usd = 50000, fb_token_decimals = 6, fb_token_to_matic_rate = 2 * 10 ^ 18,
     fb_matic_usd = \<lparr>mu_chainlink = Some 50000000, mu_floor_micros = None, mu_round_micros = None\<rparr>\<rparr>"

theorem flash_borrow_within_usd_cap_witness:
  "amount_within_cap sample_cap_params 1000000 \<and>
   int (unat (1000000 :: u256)) * int (unat (fb_token_to_matic_rate sample_cap_params)) * 50000000
     \<le> int (unat (fb_max_flash_loan_usd sample_cap_params)) * 10 ^ 18 * 10 ^ 8 * 10 ^ unat (fb_token_decimals sample_cap_params)"
proof -
  have "amount_within_cap sample_cap_params 1000000"
    by (simp add: sample_cap_params_def amount_within_cap_def cap_wei_def max_flash_borrow_wei_def
        MAX_SUPPORTED_TOKEN_DECIMALS_def max_flash_loan_matic_wei_from_usd_chainlink_8_def positive_answer_def
        in_signed_def checked_mul_def checked_div_def ten_pow_u256_cached_eq)
  then show ?thesis
    using flash_borrow_within_usd_cap [of sample_cap_params 1000000 50000000] by (simp add: sample_cap_params_def)
qed

section \<open>Compounded slippage\<close>

lemma retained_step:
  assumes "unat r \<le> 10000" and "unat (k :: u64) \<le> 10000"
  shows "unat ((r :: u128) * ucast k div 10000) = unat r * unat k div 10000"
proof -
  have "unat k < 2 ^ 128" using assms(2) by (rule order_le_less_trans) simp
  then have k: "unat (ucast k :: u128) = unat k" by (simp add: unsigned_ucast_eq take_bit_nat_eq_self)
  have "unat r * unat k \<le> 10000 * 10000" using assms by (rule mult_le_mono)
  then have "unat r * unat (ucast k :: u128) < 2 ^ LENGTH(128)" by (simp add: k)
  then have "unat (r * ucast k) = unat r * unat (ucast k :: u128)" by (rule unat_mult_nowrap)
  then show ?thesis by (simp add: unat_div_word k)
qed

lemma retained_loop_bound:
  assumes "retained_loop n k r = Some r'" and "unat r \<le> 10000" and "unat k \<le> 10000"
  shows "unat r' * 10000 ^ n \<le> unat r * unat k ^ n \<and> unat r' \<le> unat r"
  using assms
proof (induction n k r rule: retained_loop.induct)
  case (2 n k r)
  let ?r = "r * ucast k div 10000"
  have step: "unat ?r = unat r * unat k div 10000" using "2.prems"(2,3) by (rule retained_step)
  then have le: "unat ?r \<le> unat r" using "2.prems"(3) by (simp add: mul_div_le_self)
  have "retained_loop n k ?r = Some r'" "?r \<noteq> 0" using "2.prems"(1) by (auto simp: Let_def split: if_splits)
  then have IH: "unat r' * 10000 ^ n \<le> unat ?r * unat k ^ n" "unat r' \<le> unat ?r"
    using "2.IH" [of ?r] "2.prems"(2,3) le by simp_all
  have "unat r' * 10000 ^ Suc n = unat r' * 10000 ^ n * 10000" by simp
  also have "\<dots> \<le> unat ?r * unat k ^ n * 10000" using IH(1) by simp
  also have "\<dots> = (unat ?r * 10000) * unat k ^ n" by simp
  also have "\<dots> \<le> (unat r * unat k) * unat k ^ n"
    unfolding step by (intro mult_le_mono1 div_times_less_eq_dividend)
  finally show ?case using IH(2) le by (simp add: mult.assoc)
qed auto

lemma compound_slippage_invalid: "\<not> per_hop < 10000 \<Longrightarrow> compound_slippage_bps per_hop hops = 10000"
  by (simp add: compound_slippage_bps_def not_less)

lemma compound_slippage_exact:
  assumes "per_hop < 10000" and "0 < hops" and "unat (compound_slippage_bps per_hop hops) < 9999"
  shows "(10000 - unat (compound_slippage_bps per_hop hops)) * 10000 ^ unat hops
         \<le> 10000 * (10000 - unat per_hop) ^ unat hops"
proof (cases "hops \<le> 1 \<or> per_hop = 0")
  case True
  have "unat hops = 1 \<or> per_hop = 0" using True assms(2) by (auto simp: word_le_nat_alt word_less_nat_alt)
  moreover have "compound_slippage_bps per_hop hops = per_hop"
    using True assms(1) by (auto simp: compound_slippage_bps_def)
  ultimately show ?thesis by auto
next
  case False
  have k: "unat (10000 - per_hop) = 10000 - unat per_hop"
    using assms(1) by (simp add: unat_sub_nowrap)
  have c: "compound_slippage_bps per_hop hops =
      (case retained_loop (unat hops) (10000 - per_hop) 10000 of
         None \<Rightarrow> 9999 | Some retained \<Rightarrow> min (10000 - or_default (u64_try_from retained) 0) 9999)"
    using False assms(1) by (auto simp: compound_slippage_bps_def)
  then obtain r where r: "retained_loop (unat hops) (10000 - per_hop) 10000 = Some r"
    using assms(3) by (auto split: option.splits)
  have b: "unat r * 10000 ^ unat hops \<le> 10000 * (10000 - unat per_hop) ^ unat hops" "unat r \<le> 10000"
    using retained_loop_bound [OF r] k by simp_all
  have r64: "unat (ucast r :: u64) = unat r" "u64_try_from r = Some (ucast r)"
    using b(2) by (simp_all add: u64_try_from_def unsigned_ucast_eq take_bit_nat_eq_self)
  have "unat (10000 - ucast r :: u64) = 10000 - unat r"
    using b(2) r64(1) by (simp add: unat_sub_nowrap word_le_nat_alt)
  then have "unat (compound_slippage_bps per_hop hops) = min (10000 - unat r) 9999"
    by (simp add: c r r64 or_default_def unat_min_word2)
  then have "10000 - unat (compound_slippage_bps per_hop hops) = unat r" using assms(3) b(2) by simp
  then show ?thesis using b(1) by simp
qed

text \<open>
  The assessment never counts on more output than the calldata guarantees: the share of the
  output it keeps after the effective slippage of a multi-call route is at most the share kept when every
  hop loses its own slippage allowance, for every configured allowance, hop count and depth impact.
\<close>

theorem effective_slippage_covers_hops:
  assumes "0 < hops" and "s = effective_slippage_bps configured hops depth" and "s < 9999"
  shows "(10000 - unat s) * 10000 ^ unat hops
         \<le> 10000 * (10000 - max (unat configured) 100) ^ unat hops"
proof -
  let ?per = "max configured EXECUTION_MIN_SLIPPAGE_BPS" and ?c = "compound_slippage_bps (max configured EXECUTION_MIN_SLIPPAGE_BPS) hops"
  have s: "unat s = min (max (unat ?c) (unat depth)) 9999"
    by (simp add: assms(2) effective_slippage_bps_def Let_def unat_max_word2 unat_min_word2)
  then have c: "unat ?c \<le> unat s" "unat ?c < 9999" using assms(3) by (simp_all add: word_less_nat_alt)
  have per: "unat ?per = max (unat configured) 100" by (simp add: unat_max_word2 EXECUTION_MIN_SLIPPAGE_BPS_def)
  have "?per < 10000" using c(2) compound_slippage_invalid [of ?per hops] by (cases "?per < 10000") auto
  then have "(10000 - unat ?c) * 10000 ^ unat hops \<le> 10000 * (10000 - unat ?per) ^ unat hops"
    using assms(1) c(2) by (rule compound_slippage_exact)
  moreover have "(10000 - unat s) * 10000 ^ unat hops \<le> (10000 - unat ?c) * 10000 ^ unat hops"
    using c(1) by (intro mult_le_mono1) simp
  ultimately show ?thesis unfolding per by (rule order_trans [rotated])
qed

theorem effective_slippage_covers_hops_witness:
  "effective_slippage_bps 0 3 0 = 298 \<and> (10000 - 298) * 10000 ^ 3 \<le> (10000 * (10000 - 100) ^ 3 :: nat)"
proof -
  have s: "298 = effective_slippage_bps 0 3 0" by code_simp
  then show ?thesis using effective_slippage_covers_hops [OF _ s] by simp
qed

end
