(* ===== verification/RouteSimCache.thy ===== *)
theory RouteSimCache
  imports LocalSim "HOL-Library.AList" "HOL-Library.Multiset"
begin

text \<open>
  The cache of route simulations, \<open>src/pipeline/route_sim_cache.rs\<close>: sixteen shards, each a bounded map from
  state revision, route and amount to the result of the minimal simulation, with hit and eviction counters.

  A shard is an association list with distinct keys. Which keys an eviction takes depends on the iteration
  order of the hash map, the argument \<open>iter\<close>, of which only that it enumerates the entries is assumed. The log
  line of the cache is left out; the guard that decides about it is a field of the state and is kept.
\<close>

section \<open>The model\<close>

definition ROUTE_SIM_CACHE_CAPACITY :: nat where "ROUTE_SIM_CACHE_CAPACITY = 16384"
definition ROUTE_SIM_CACHE_SHARDS :: nat where "ROUTE_SIM_CACHE_SHARDS = 16"
definition ROUTE_SIM_CACHE_SHARD_CAPACITY :: nat where
  "ROUTE_SIM_CACHE_SHARD_CAPACITY = ROUTE_SIM_CACHE_CAPACITY div ROUTE_SIM_CACHE_SHARDS"
definition ROUTE_SIM_LOG_INTERVAL :: u64 where "ROUTE_SIM_LOG_INTERVAL = 10000"

record RouteSimKey =
  rk_route_state_revision :: u64
  rk_route_edges :: "Edge list"
  rk_amount :: u256

record RouteSimCacheStats =
  rs_hits :: u64
  rs_misses :: u64
  rs_inserts :: u64
  rs_evictions :: u64

type_synonym sim_shard = "(RouteSimKey \<times> MinimalSimResult) list"

record RouteSimCache =
  rsc_entries :: "sim_shard list"
  rsc_stats :: RouteSimCacheStats
  rsc_last_logged_traffic :: u64

definition hit_rate_bps :: "RouteSimCacheStats \<Rightarrow> u64" where
  "hit_rate_bps stats =
     (let total = saturating_add (rs_hits stats) (rs_misses stats)
      in if total = 0 then 0 else saturating_mul (rs_hits stats) 10000 div total)"

definition new_route_sim_cache :: RouteSimCache where
  "new_route_sim_cache =
     \<lparr>rsc_entries = replicate ROUTE_SIM_CACHE_SHARDS [],
      rsc_stats = \<lparr>rs_hits = 0, rs_misses = 0, rs_inserts = 0, rs_evictions = 0\<rparr>, rsc_last_logged_traffic = 0\<rparr>"

definition shard_index :: "u64 \<Rightarrow> nat" where
  "shard_index route_fp = unat (and route_fp (of_nat (ROUTE_SIM_CACHE_SHARDS - 1)))"

definition route_sim_key :: "u64 \<Rightarrow> Edge list \<Rightarrow> u256 \<Rightarrow> RouteSimKey" where
  "route_sim_key revision edges amount =
     \<lparr>rk_route_state_revision = revision, rk_route_edges = edges, rk_amount = amount\<rparr>"

definition route_sim_get ::
    "u64 \<Rightarrow> u64 \<Rightarrow> Edge list \<Rightarrow> u256 \<Rightarrow> RouteSimCache \<Rightarrow> MinimalSimResult option \<times> RouteSimCache" where
  "route_sim_get revision fp edges amount c =
     (case map_of (rsc_entries c ! shard_index fp) (route_sim_key revision edges amount) of
        Some entry \<Rightarrow> (Some entry, c\<lparr>rsc_stats := (rsc_stats c)\<lparr>rs_hits := rs_hits (rsc_stats c) + 1\<rparr>\<rparr>)
      | None \<Rightarrow> (None, c\<lparr>rsc_stats := (rsc_stats c)\<lparr>rs_misses := rs_misses (rsc_stats c) + 1\<rparr>\<rparr>))"

definition make_room :: "(sim_shard \<Rightarrow> sim_shard) \<Rightarrow> u64 \<Rightarrow> sim_shard \<Rightarrow> sim_shard" where
  "make_room iter revision entries =
     (if length entries < ROUTE_SIM_CACHE_SHARD_CAPACITY then entries
      else
        let entries = filter (\<lambda>(k, _). rk_route_state_revision k = revision) entries
        in if length entries < ROUTE_SIM_CACHE_SHARD_CAPACITY then entries
           else
             let target = ROUTE_SIM_CACHE_SHARD_CAPACITY div 2;
                 drop_n = length entries - target;
                 victims = map fst (take drop_n (iter entries))
             in fold AList.delete victims entries)"

definition route_sim_insert ::
    "(sim_shard \<Rightarrow> sim_shard) \<Rightarrow> u64 \<Rightarrow> u64 \<Rightarrow> Edge list \<Rightarrow> u256 \<Rightarrow> MinimalSimResult \<Rightarrow> RouteSimCache \<Rightarrow> RouteSimCache" where
  "route_sim_insert iter revision fp edges amount sim c =
     (let i = shard_index fp;
          before = rsc_entries c ! i;
          entries = make_room iter revision before;
          removed = length before - length entries;
          stats = rsc_stats c
      in c\<lparr>rsc_entries := (rsc_entries c)[i := AList.update (route_sim_key revision edges amount) sim entries],
           rsc_stats := stats\<lparr>rs_evictions := rs_evictions stats + of_nat removed, rs_inserts := rs_inserts stats + 1\<rparr>\<rparr>)"

definition should_log_traffic :: "u64 \<Rightarrow> RouteSimCache \<Rightarrow> bool \<times> RouteSimCache" where
  "should_log_traffic traffic c =
     (let last = rsc_last_logged_traffic c
      in if last \<noteq> 0 \<and> saturating_sub traffic last < ROUTE_SIM_LOG_INTERVAL then (False, c)
         else (True, c\<lparr>rsc_last_logged_traffic := traffic\<rparr>))"

section \<open>Shards stay bounded, and hold what was inserted\<close>

definition enumerates :: "(sim_shard \<Rightarrow> sim_shard) \<Rightarrow> bool" where
  "enumerates iter \<longleftrightarrow> (\<forall>entries. mset (iter entries) = mset entries)"

text \<open>What the cache holds at a key, whichever shard it is asked in.\<close>

definition cached_sim :: "RouteSimCache \<Rightarrow> u64 \<Rightarrow> RouteSimKey \<Rightarrow> MinimalSimResult option" where
  "cached_sim c fp = map_of (rsc_entries c ! shard_index fp)"

definition sim_cache_ok :: "RouteSimCache \<Rightarrow> bool" where
  "sim_cache_ok c \<longleftrightarrow>
     length (rsc_entries c) = ROUTE_SIM_CACHE_SHARDS \<and>
     (\<forall>shard \<in> set (rsc_entries c). length shard \<le> ROUTE_SIM_CACHE_SHARD_CAPACITY \<and> distinct (map fst shard))"

lemma shard_index_less: "shard_index fp < ROUTE_SIM_CACHE_SHARDS"
proof -
  have "and fp 15 \<le> 15"
    by (simp add: word_and_le1)
  then show ?thesis
    by (simp add: shard_index_def ROUTE_SIM_CACHE_SHARDS_def word_le_nat_alt)
qed

lemma delete_shrinks:
  "distinct (map fst entries) \<Longrightarrow> k \<in> fst ` set entries \<Longrightarrow> Suc (length (AList.delete k entries)) = length entries"
proof (induction entries)
  case (Cons e entries)
  then show ?case
    by (cases e) (auto simp: AList.delete_simps AList.delete_idem)
qed simp

lemma fold_delete:
  assumes "distinct (map fst entries)" "distinct ks" "set ks \<subseteq> fst ` set entries"
  shows "length (fold AList.delete ks entries) + length ks = length entries \<and>
         distinct (map fst (fold AList.delete ks entries)) \<and>
         map_of (fold AList.delete ks entries) = (map_of entries) |` (- set ks)"
  using assms
proof (induction ks arbitrary: entries)
  case (Cons k ks)
  have "set ks \<subseteq> fst ` set (AList.delete k entries)"
    using Cons.prems by (simp add: AList.delete_keys flip: set_map) auto
  then show ?case
    using Cons.IH [OF AList.distinct_delete [OF Cons.prems(1)]] Cons.prems delete_shrinks [of entries k]
    by (auto simp: AList.delete_conv fun_eq_iff restrict_map_def)
qed (auto simp: restrict_map_def)

lemma map_of_filter_keys: "map_of (filter (\<lambda>(k, _). P k) entries) = map_of entries |` {k. P k}"
  by (induction entries) (auto simp: fun_eq_iff restrict_map_def)

lemma distinct_filter_keys: "distinct (map fst entries) \<Longrightarrow> distinct (map fst (filter P entries))"
  by (induction entries) auto

lemma make_room_cases:
  assumes "enumerates iter" "distinct (map fst entries)"
  obtains ks where "map_of (make_room iter revision entries) = map_of entries |` (- ks)"
    "distinct (map fst (make_room iter revision entries))"
    "length (make_room iter revision entries) < ROUTE_SIM_CACHE_SHARD_CAPACITY"
proof -
  let ?kept = "filter (\<lambda>(k, _). rk_route_state_revision k = revision) entries"
  have kept: "distinct (map fst ?kept)"
    "map_of ?kept = map_of entries |` (- {k. rk_route_state_revision k \<noteq> revision})"
    using assms(2)
    by (auto simp: distinct_filter_keys map_of_filter_keys Collect_neg_eq [symmetric])
  consider "length entries < ROUTE_SIM_CACHE_SHARD_CAPACITY"
    | "ROUTE_SIM_CACHE_SHARD_CAPACITY \<le> length entries" "length ?kept < ROUTE_SIM_CACHE_SHARD_CAPACITY"
    | "ROUTE_SIM_CACHE_SHARD_CAPACITY \<le> length entries" "ROUTE_SIM_CACHE_SHARD_CAPACITY \<le> length ?kept"
    by linarith
  then show thesis
  proof cases
    case 1
    then show thesis
      using that [of "{}"] assms(2) by (simp add: make_room_def restrict_map_def)
  next
    case 2
    then show thesis
      using that [of "{k. rk_route_state_revision k \<noteq> revision}"] kept by (simp add: make_room_def)
  next
    case 3
    let ?drop = "length ?kept - ROUTE_SIM_CACHE_SHARD_CAPACITY div 2"
    let ?ks = "map fst (take ?drop (iter ?kept))"
    have same: "mset (iter ?kept) = mset ?kept"
      using assms(1) by (simp add: enumerates_def)
    then have "distinct (map fst (iter ?kept))"
      using kept(1) mset_eq_imp_distinct_iff [of "map fst (iter ?kept)" "map fst ?kept"] by simp
    then have "distinct ?ks"
      by (simp add: take_map [symmetric])
    moreover have "set ?ks \<subseteq> fst ` set ?kept"
      unfolding set_map mset_eq_setD [OF same, symmetric] by (intro image_mono set_take_subset)
    ultimately have rest: "length (fold AList.delete ?ks ?kept) + length ?ks = length ?kept"
        "distinct (map fst (fold AList.delete ?ks ?kept))"
        "map_of (fold AList.delete ?ks ?kept) = (map_of ?kept) |` (- set ?ks)"
      using fold_delete [OF kept(1), of ?ks] by blast+
    have "length ?ks = ?drop"
      using mset_eq_length [OF same] by simp
    moreover have "make_room iter revision entries = fold AList.delete ?ks ?kept"
      using 3 by (simp add: make_room_def Let_def)
    moreover have "map_of entries |` (- A) |` (- B) = map_of entries |` (- (A \<union> B))" for A B
      by (auto simp: restrict_map_def fun_eq_iff)
    ultimately have result:
        "map_of (make_room iter revision entries) =
           map_of entries |` (- ({k. rk_route_state_revision k \<noteq> revision} \<union> set ?ks))"
        "distinct (map fst (make_room iter revision entries))"
        "length (make_room iter revision entries) + ?drop = length ?kept"
      using rest kept(2) by simp_all
    have "length (make_room iter revision entries) < ROUTE_SIM_CACHE_SHARD_CAPACITY"
      using result(3) 3(2)
      by (simp add: ROUTE_SIM_CACHE_SHARD_CAPACITY_def ROUTE_SIM_CACHE_CAPACITY_def ROUTE_SIM_CACHE_SHARDS_def)
    then show thesis
      using that result(1,2) by blast
  qed
qed

lemma length_update_entry: "length (AList.update k v entries) \<le> Suc (length entries)"
  by (induction entries) auto

lemma shard_ok:
  assumes "sim_cache_ok c"
  shows "length (rsc_entries c ! shard_index fp) \<le> ROUTE_SIM_CACHE_SHARD_CAPACITY"
    and "distinct (map fst (rsc_entries c ! shard_index fp))"
    and "shard_index fp < length (rsc_entries c)"
  using assms shard_index_less [of fp] nth_mem [of "shard_index fp" "rsc_entries c"]
  by (auto simp: sim_cache_ok_def)

lemma insert_keeps_bounds:
  assumes "sim_cache_ok c" "enumerates iter"
  shows "sim_cache_ok (route_sim_insert iter revision fp edges amount sim c)"
proof -
  let ?i = "shard_index fp"
  let ?key = "route_sim_key revision edges amount"
  obtain "distinct (map fst (make_room iter revision (rsc_entries c ! ?i)))"
      "length (make_room iter revision (rsc_entries c ! ?i)) < ROUTE_SIM_CACHE_SHARD_CAPACITY"
    using make_room_cases [OF assms(2) shard_ok(2) [OF assms(1)]] by metis
  then have "distinct (map fst (AList.update ?key sim (make_room iter revision (rsc_entries c ! ?i))))"
    "length (AList.update ?key sim (make_room iter revision (rsc_entries c ! ?i))) \<le> ROUTE_SIM_CACHE_SHARD_CAPACITY"
    using length_update_entry [of ?key sim "make_room iter revision (rsc_entries c ! ?i)"]
    by (auto intro: AList.distinct_update)
  then show ?thesis
    using assms(1)
    by (auto simp: sim_cache_ok_def route_sim_insert_def Let_def dest: set_update_subset_insert [THEN subsetD])
qed

lemma cached_after_insert:
  assumes "sim_cache_ok c" "enumerates iter"
  shows "cached_sim (route_sim_insert iter revision fp edges amount sim c) fp (route_sim_key revision edges amount) = Some sim"
    and "cached_sim (route_sim_insert iter revision fp edges amount sim c) fp' key = Some sim' \<Longrightarrow>
           (key = route_sim_key revision edges amount \<and> sim' = sim) \<or> cached_sim c fp' key = Some sim'"
proof -
  let ?i = "shard_index fp"
  obtain ks where kept: "map_of (make_room iter revision (rsc_entries c ! ?i)) = map_of (rsc_entries c ! ?i) |` (- ks)"
    using make_room_cases [OF assms(2) shard_ok(2) [OF assms(1)]] by metis
  have i: "?i < length (rsc_entries c)"
    using shard_ok(3) [OF assms(1)] .
  show "cached_sim (route_sim_insert iter revision fp edges amount sim c) fp (route_sim_key revision edges amount) = Some sim"
    using i by (simp add: cached_sim_def route_sim_insert_def Let_def AList.update_conv)
  show "(key = route_sim_key revision edges amount \<and> sim' = sim) \<or> cached_sim c fp' key = Some sim'"
    if "cached_sim (route_sim_insert iter revision fp edges amount sim c) fp' key = Some sim'"
    using that i kept
    by (cases "shard_index fp' = ?i")
       (auto simp: cached_sim_def route_sim_insert_def Let_def AList.update_conv restrict_map_def split: if_splits)
qed

lemma get_frame [simp]:
  "rsc_entries (snd (route_sim_get revision fp edges amount c)) = rsc_entries c"
  "sim_cache_ok (snd (route_sim_get revision fp edges amount c)) \<longleftrightarrow> sim_cache_ok c"
  "cached_sim (snd (route_sim_get revision fp edges amount c)) = cached_sim c"
  by (auto simp: route_sim_get_def sim_cache_ok_def cached_sim_def fun_eq_iff split: option.splits)

lemma get_returns: "fst (route_sim_get revision fp edges amount c) = cached_sim c fp (route_sim_key revision edges amount)"
  by (simp add: route_sim_get_def cached_sim_def split: option.splits)

text \<open>Runs of the cache, with a record of what was inserted.\<close>

inductive sim_cache_run :: "RouteSimCache \<Rightarrow> (RouteSimKey \<times> MinimalSimResult) set \<Rightarrow> bool" where
  new: "sim_cache_run new_route_sim_cache {}"
| lookup: "sim_cache_run c I \<Longrightarrow> sim_cache_run (snd (route_sim_get revision fp edges amount c)) I"
| add: "sim_cache_run c I \<Longrightarrow> enumerates iter \<Longrightarrow>
    sim_cache_run (route_sim_insert iter revision fp edges amount sim c)
      (insert (route_sim_key revision edges amount, sim) I)"
| log: "sim_cache_run c I \<Longrightarrow> sim_cache_run (snd (should_log_traffic traffic c)) I"

lemma sim_cache_run_ok: "sim_cache_run c I \<Longrightarrow> sim_cache_ok c"
proof (induction rule: sim_cache_run.induct)
  case new
  show ?case
    by (simp add: new_route_sim_cache_def sim_cache_ok_def)
next
  case (log c I traffic)
  then show ?case
    by (auto simp: should_log_traffic_def sim_cache_ok_def Let_def)
qed (auto intro: insert_keeps_bounds)

lemma sim_cache_run_holds: "sim_cache_run c I \<Longrightarrow> cached_sim c fp key = Some sim \<Longrightarrow> (key, sim) \<in> I"
proof (induction arbitrary: fp key sim rule: sim_cache_run.induct)
  case new
  then show ?case
    using shard_index_less [of fp] by (simp add: new_route_sim_cache_def cached_sim_def)
next
  case (add c I iter revision fp' edges amount sim')
  then show ?case
    using cached_after_insert(2) [OF sim_cache_run_ok [OF add.hyps(1)] add.hyps(2)] by blast
next
  case (log c I traffic)
  then show ?case
    by (auto simp: should_log_traffic_def cached_sim_def Let_def split: if_splits)
qed auto


definition sample_sim :: MinimalSimResult where
  "sample_sim = \<lparr>ms_profit = 3, ms_amount_out = 103, ms_total_gas = 200000\<rparr>"

lemma enumerates_id: "enumerates (\<lambda>entries. entries)"
  by (simp add: enumerates_def)


end
