(* ===== verification/GoldenSearch.thy ===== *)
theory GoldenSearch
  imports Prelude
begin

text \<open>
  The size search of \<open>src/pipeline/ternary.rs\<close>: maximization of a score over a range of amounts by golden section,
  with a memo of 48 slots and with seeds that were scored before (\<open>solve_brent_optimal_warm\<close>).

  The function to maximize is a closure with state in the code. Here it is any state transformer that returns a
  score or panics, so what is proved holds for the closure of the optimizer, which keeps caches and a wall of
  infeasible sizes. The diagnostic counters of the code are left out.
\<close>

section \<open>The model\<close>

type_synonym 's evaluator = "u256 \<Rightarrow> 's \<Rightarrow> (u256 \<times> 's) panics"

definition BRENT_CACHE_SLOTS :: nat where "BRENT_CACHE_SLOTS = 48"
definition GOLDEN_RATIO :: u256 where "GOLDEN_RATIO = 382"
definition CONVERGENCE_DIVISOR :: u256 where "CONVERGENCE_DIVISOR = 1000"
definition DEFAULT_BRENT_ITERATIONS :: u32 where "DEFAULT_BRENT_ITERATIONS = 16"

text \<open>The memo: two arrays of 48 slots and the number of entries ever written.\<close>

record BrentCache =
  bc_amounts :: "u256 list"
  bc_profits :: "u256 list"
  bc_size :: nat

definition empty_brent_cache :: BrentCache where
  "empty_brent_cache =
     \<lparr>bc_amounts = replicate BRENT_CACHE_SLOTS 0, bc_profits = replicate BRENT_CACHE_SLOTS 0, bc_size = 0\<rparr>"

definition brent_cache_store :: "u256 \<Rightarrow> u256 \<Rightarrow> BrentCache \<Rightarrow> BrentCache" where
  "brent_cache_store amount profit c =
     (let slot = bc_size c mod BRENT_CACHE_SLOTS
      in \<lparr>bc_amounts = (bc_amounts c)[slot := amount], bc_profits = (bc_profits c)[slot := profit],
          bc_size = bc_size c + 1\<rparr>)"

definition brent_cache_find :: "u256 \<Rightarrow> BrentCache \<Rightarrow> u256 option" where
  "brent_cache_find amount c =
     (let scan = min (bc_size c) BRENT_CACHE_SLOTS
      in map_of (zip (take scan (bc_amounts c)) (take scan (bc_profits c))) amount)"

definition cached_evaluate :: "'s evaluator \<Rightarrow> u256 \<Rightarrow> BrentCache \<times> 's \<Rightarrow> (u256 \<times> BrentCache \<times> 's) panics" where
  "cached_evaluate ev amount cs =
     (case brent_cache_find amount (fst cs) of
        Some profit \<Rightarrow> Some (profit, cs)
      | None \<Rightarrow> do {
          (profit, s) \<leftarrow> ev amount (snd cs);
          Some (profit, brent_cache_store amount profit (fst cs), s)
        })"

definition in_window :: "u256 \<Rightarrow> u256 \<Rightarrow> u256 \<times> u256 \<Rightarrow> bool" where
  "in_window low high seed \<longleftrightarrow> low \<le> fst seed \<and> fst seed \<le> high"

definition seed_brent_cache :: "u256 \<Rightarrow> u256 \<Rightarrow> (u256 \<times> u256) list \<Rightarrow> BrentCache" where
  "seed_brent_cache low high warm =
     fold (\<lambda>(amount, profit). brent_cache_store amount profit) (filter (in_window low high) warm) empty_brent_cache"

text \<open>\<open>Iterator::max_by_key\<close>: the last of the seeds with the largest score.\<close>

definition max_by_score :: "(u256 \<times> u256) list \<Rightarrow> (u256 \<times> u256) option" where
  "max_by_score seeds =
     fold (\<lambda>seed best. case best of
              None \<Rightarrow> Some seed
            | Some b \<Rightarrow> if snd b \<le> snd seed then Some seed else Some b) seeds None"

definition golden :: "u256 \<Rightarrow> u256" where
  "golden width = width * GOLDEN_RATIO div 1000"

definition around_hint :: "u256 \<Rightarrow> u256 \<Rightarrow> u256 \<Rightarrow> u256 \<times> u256" where
  "around_hint a b hint =
     (let quarter = golden (saturating_sub b a)
      in (max (saturating_sub hint quarter) a, min (saturating_add hint quarter) b))"

definition initial_points :: "u256 \<Rightarrow> u256 \<Rightarrow> (u256 \<times> u256) list \<Rightarrow> u256 \<times> u256" where
  "initial_points low high warm =
     (let plain = (low + golden (high - low), high - golden (high - low))
      in case max_by_score (filter (in_window low high) warm) of
           Some (hint, profit) \<Rightarrow>
             if profit = 0 then plain
             else
               let (l, r) = around_hint low high hint
               in if r > l then (l, r) else plain
         | None \<Rightarrow> plain)"

record 's GoldenState =
  gs_a :: u256
  gs_b :: u256
  gs_left :: u256
  gs_right :: u256
  gs_left_value :: u256
  gs_right_value :: u256
  gs_zero_streak :: u32
  gs_memo :: "BrentCache \<times> 's"

text \<open>The points of a state replaced by a pair around a seed, both scored.\<close>

definition recenter :: "'s evaluator \<Rightarrow> u256 \<times> u256 \<Rightarrow> 's GoldenState \<Rightarrow> 's GoldenState panics" where
  "recenter ev points g = do {
     (left_value, memo) \<leftarrow> cached_evaluate ev (fst points) (gs_memo g);
     (right_value, memo) \<leftarrow> cached_evaluate ev (snd points) memo;
     Some (g\<lparr>gs_left := fst points, gs_right := snd points, gs_left_value := left_value,
             gs_right_value := right_value, gs_zero_streak := 0, gs_memo := memo\<rparr>)
   }"

definition golden_step :: "'s evaluator \<Rightarrow> 's GoldenState \<Rightarrow> 's GoldenState panics" where
  "golden_step ev g =
     (if gs_left_value g < gs_right_value g
      then
        let a = gs_left g;
            right = gs_b g - golden (gs_b g - a)
        in do {
             (right_value, memo) \<leftarrow> cached_evaluate ev right (gs_memo g);
             Some (g\<lparr>gs_a := a, gs_left := gs_right g, gs_left_value := gs_right_value g, gs_right := right,
                     gs_right_value := right_value, gs_memo := memo\<rparr>)
           }
      else
        let b = gs_right g;
            left = gs_a g + golden (b - gs_a g)
        in do {
             (left_value, memo) \<leftarrow> cached_evaluate ev left (gs_memo g);
             Some (g\<lparr>gs_b := b, gs_right := gs_left g, gs_right_value := gs_left_value g, gs_left := left,
                     gs_left_value := left_value, gs_memo := memo\<rparr>)
           })"

text \<open>
  The seed to go to when both points scored zero twice in a row, and the loop. Where the pair around the seed is
  empty the code has already assigned the two points; they keep their scores of zero.
\<close>

definition zero_hint :: "(u256 \<times> u256) list \<Rightarrow> 's GoldenState \<Rightarrow> u256 option" where
  "zero_hint warm g =
     map_option fst (max_by_score (filter (\<lambda>seed. in_window (gs_a g) (gs_b g) seed \<and> snd seed \<noteq> 0) warm))"

fun golden_loop :: "'s evaluator \<Rightarrow> (u256 \<times> u256) list \<Rightarrow> nat \<Rightarrow> 's GoldenState \<Rightarrow> 's GoldenState panics" where
  "golden_loop ev warm 0 g = Some g"
| "golden_loop ev warm (Suc n) g =
     (let width = saturating_sub (gs_b g) (gs_a g);
          tol = max (width div CONVERGENCE_DIVISOR) 1
      in if width \<le> tol then Some g
         else if gs_left_value g = 0 \<and> gs_right_value g = 0
         then
           let streak = gs_zero_streak g + 1;
               g = g\<lparr>gs_zero_streak := streak\<rparr>
           in if streak \<ge> 2
              then (case zero_hint warm g of
                      None \<Rightarrow> Some g
                    | Some hint \<Rightarrow>
                        let points = around_hint (gs_a g) (gs_b g) hint
                        in if snd points > fst points
                           then Option.bind (recenter ev points g) (golden_loop ev warm n)
                           else Some (g\<lparr>gs_left := fst points, gs_right := snd points\<rparr>))
              else Option.bind (golden_step ev g) (golden_loop ev warm n)
         else Option.bind (golden_step ev (g\<lparr>gs_zero_streak := 0\<rparr>)) (golden_loop ev warm n))"

definition better :: "u256 \<times> u256 \<Rightarrow> u256 \<times> u256 \<Rightarrow> u256 \<times> u256" where
  "better candidate best = (if snd candidate > snd best then candidate else best)"

text \<open>The end: the four points that are left compete with each other, then with the seeds.\<close>

definition best_of_search ::
    "u256 \<Rightarrow> u256 \<Rightarrow> 's evaluator \<Rightarrow> (u256 \<times> u256) list \<Rightarrow> 's GoldenState \<Rightarrow> ((u256 \<times> u256) \<times> 's) panics" where
  "best_of_search low high ev warm g = do {
     (low_value, memo) \<leftarrow> cached_evaluate ev low (gs_memo g);
     (high_value, memo) \<leftarrow> cached_evaluate ev high memo;
     let best = fold better
           [(gs_left g, gs_left_value g), (gs_right g, gs_right_value g), (high, high_value)] (low, low_value);
     Some (fold better (filter (\<lambda>seed. in_window low high seed \<and> snd seed \<noteq> 0) warm) best, snd memo)
   }"

definition solve_brent_scored ::
    "u256 \<Rightarrow> u256 \<Rightarrow> 's evaluator \<Rightarrow> u32 \<Rightarrow> (u256 \<times> u256) list \<Rightarrow> 's \<Rightarrow> ((u256 \<times> u256) \<times> 's) panics" where
  "solve_brent_scored low high ev max_iterations warm s =
     (let max_iter = (if max_iterations = 0 then DEFAULT_BRENT_ITERATIONS else max_iterations);
          (left, right) = initial_points low high warm
      in do {
           (left_value, memo) \<leftarrow> cached_evaluate ev left (seed_brent_cache low high warm, s);
           (right_value, memo) \<leftarrow> cached_evaluate ev right memo;
           g \<leftarrow> golden_loop ev warm (unat max_iter)
                 \<lparr>gs_a = low, gs_b = high, gs_left = left, gs_right = right, gs_left_value = left_value,
                  gs_right_value = right_value, gs_zero_streak = 0, gs_memo = memo\<rparr>;
           best_of_search low high ev warm g
         })"

definition solve_brent_optimal_warm ::
    "u256 \<Rightarrow> u256 \<Rightarrow> 's evaluator \<Rightarrow> u32 \<Rightarrow> (u256 \<times> u256) list \<Rightarrow> 's \<Rightarrow> (u256 \<times> 's) panics" where
  "solve_brent_optimal_warm low high ev max_iterations warm s =
     (if low \<ge> high then Some (low, s)
      else map_option (\<lambda>(best, s). (fst best, s)) (solve_brent_scored low high ev max_iterations warm s))"

definition solve_brent_optimal :: "u256 \<Rightarrow> u256 \<Rightarrow> 's evaluator \<Rightarrow> u32 \<Rightarrow> 's \<Rightarrow> (u256 \<times> 's) panics" where
  "solve_brent_optimal low high ev max_iterations s = solve_brent_optimal_warm low high ev max_iterations [] s"

section \<open>What the search has seen\<close>

text \<open>An evaluator that also writes down what it was asked and what it answered.\<close>

definition logged :: "'s evaluator \<Rightarrow> ((u256 \<times> u256) list \<times> 's) evaluator" where
  "logged ev amount ls = map_option (\<lambda>(v, s). (v, (amount, v) # fst ls, s)) (ev amount (snd ls))"

definition seen :: "(u256 \<times> u256) set \<Rightarrow> BrentCache \<times> (u256 \<times> u256) list \<times> 's \<Rightarrow> (u256 \<times> u256) set" where
  "seen W memo = W \<union> set (fst (snd memo))"

definition memo_ok :: "(u256 \<times> u256) set \<Rightarrow> BrentCache \<Rightarrow> bool" where
  "memo_ok K c \<longleftrightarrow>
     length (bc_amounts c) = BRENT_CACHE_SLOTS \<and> length (bc_profits c) = BRENT_CACHE_SLOTS \<and>
     (\<forall>i < min (bc_size c) BRENT_CACHE_SLOTS. (bc_amounts c ! i, bc_profits c ! i) \<in> K)"

lemma memo_ok_mono: "memo_ok K c \<Longrightarrow> K \<subseteq> K' \<Longrightarrow> memo_ok K' c"
  by (auto simp: memo_ok_def)

lemma memo_ok_find: "memo_ok K c \<Longrightarrow> brent_cache_find amount c = Some v \<Longrightarrow> (amount, v) \<in> K"
  by (auto simp: memo_ok_def brent_cache_find_def Let_def in_set_zip dest!: map_of_SomeD)

lemma memo_ok_store:
  assumes "memo_ok K c" "(amount, v) \<in> K"
  shows "memo_ok K (brent_cache_store amount v c)"
proof -
  have "(bc_amounts (brent_cache_store amount v c) ! i, bc_profits (brent_cache_store amount v c) ! i) \<in> K"
    if "i < min (Suc (bc_size c)) BRENT_CACHE_SLOTS" for i
  proof (cases "i = bc_size c mod BRENT_CACHE_SLOTS")
    case True
    then show ?thesis
      using assms by (simp add: brent_cache_store_def memo_ok_def Let_def BRENT_CACHE_SLOTS_def)
  next
    case False
    then have "i < min (bc_size c) BRENT_CACHE_SLOTS"
      using that by (cases "i = bc_size c") auto
    with False show ?thesis
      using assms(1) by (simp add: brent_cache_store_def memo_ok_def Let_def)
  qed
  then show ?thesis
    using assms(1) by (simp add: memo_ok_def brent_cache_store_def Let_def)
qed

lemma memo_ok_seeds: "memo_ok (set (filter (in_window low high) warm)) (seed_brent_cache low high warm)"
proof -
  have "memo_ok K (fold (\<lambda>(amount, profit). brent_cache_store amount profit) seeds c)"
    if "memo_ok K c" "set seeds \<subseteq> K" for K seeds c
    using that by (induction seeds arbitrary: c) (auto intro: memo_ok_store)
  moreover have "memo_ok K empty_brent_cache" for K
    by (simp add: memo_ok_def empty_brent_cache_def)
  ultimately show ?thesis
    unfolding seed_brent_cache_def by blast
qed

lemma cached_evaluate_logged:
  assumes "cached_evaluate (logged ev) amount memo = Some (v, memo')" "memo_ok (seen W memo) (fst memo)"
  shows "memo_ok (seen W memo') (fst memo') \<and> (amount, v) \<in> seen W memo' \<and>
         (fst (snd memo') = fst (snd memo) \<or> fst (snd memo') = (amount, v) # fst (snd memo))"
proof (cases "brent_cache_find amount (fst memo)")
  case None
  then obtain s where "memo' = (brent_cache_store amount v (fst memo), (amount, v) # fst (snd memo), s)"
    using assms(1) by (auto simp: cached_evaluate_def logged_def bind_eq_Some_conv)
  moreover have "seen W memo \<subseteq> insert (amount, v) (seen W memo)"
    by blast
  ultimately show ?thesis
    using memo_ok_store [OF memo_ok_mono [OF assms(2), of "insert (amount, v) (seen W memo)"]]
    by (simp add: seen_def insert_commute)
next
  case (Some p)
  then show ?thesis
    using assms memo_ok_find [OF assms(2) Some] by (simp add: cached_evaluate_def)
qed

text \<open>
  The invariant of the loop: the scores of the two points were seen, unless they are zero, and nothing that was
  evaluated scored more than the better of them.
\<close>

definition golden_inv :: "(u256 \<times> u256) set \<Rightarrow> nat \<Rightarrow> ((u256 \<times> u256) list \<times> 's) GoldenState \<Rightarrow> bool" where
  "golden_inv W n g \<longleftrightarrow>
     memo_ok (seen W (gs_memo g)) (fst (gs_memo g)) \<and>
     (gs_left_value g \<noteq> 0 \<longrightarrow> (gs_left g, gs_left_value g) \<in> seen W (gs_memo g)) \<and>
     (gs_right_value g \<noteq> 0 \<longrightarrow> (gs_right g, gs_right_value g) \<in> seen W (gs_memo g)) \<and>
     (\<forall>(y, w) \<in> set (fst (snd (gs_memo g))). w \<le> max (gs_left_value g) (gs_right_value g)) \<and>
     length (fst (snd (gs_memo g))) \<le> n"

lemma golden_inv_frame [simp]: "golden_inv W n (g\<lparr>gs_zero_streak := k\<rparr>) = golden_inv W n g"
  by (simp add: golden_inv_def)

lemma golden_inv_step:
  assumes "golden_inv W n g" "golden_step (logged ev) g = Some g'"
  shows "golden_inv W (n + 2) g'"
proof -
  have memo: "memo_ok (seen W (gs_memo g)) (fst (gs_memo g))"
    using assms(1) by (simp add: golden_inv_def)
  show ?thesis
  proof (cases "gs_left_value g < gs_right_value g")
    case True
    define right where "right = gs_b g - golden (gs_b g - gs_left g)"
    obtain v m where e: "cached_evaluate (logged ev) right (gs_memo g) = Some (v, m)"
      and g': "g' = g\<lparr>gs_a := gs_left g, gs_left := gs_right g, gs_left_value := gs_right_value g,
                 gs_right := right, gs_right_value := v, gs_memo := m\<rparr>"
      using assms(2) True by (auto simp: golden_step_def Let_def right_def bind_eq_Some_conv)
    then show ?thesis
      using cached_evaluate_logged [OF e memo] assms(1) True
      by (fastforce simp: golden_inv_def seen_def max_def split: if_splits)
  next
    case False
    define left where "left = gs_a g + golden (gs_right g - gs_a g)"
    obtain v m where e: "cached_evaluate (logged ev) left (gs_memo g) = Some (v, m)"
      and g': "g' = g\<lparr>gs_b := gs_right g, gs_right := gs_left g, gs_right_value := gs_left_value g,
                 gs_left := left, gs_left_value := v, gs_memo := m\<rparr>"
      using assms(2) False by (auto simp: golden_step_def Let_def left_def bind_eq_Some_conv)
    then show ?thesis
      using cached_evaluate_logged [OF e memo] assms(1) False
      by (fastforce simp: golden_inv_def seen_def max_def split: if_splits)
  qed
qed

lemma golden_inv_recenter:
  assumes "golden_inv W n g" "gs_left_value g = 0" "gs_right_value g = 0"
    and "recenter (logged ev) points g = Some g'"
  shows "golden_inv W (n + 2) g'"
proof -
  obtain lv m1 rv m2 where e1: "cached_evaluate (logged ev) (fst points) (gs_memo g) = Some (lv, m1)"
    and e2: "cached_evaluate (logged ev) (snd points) m1 = Some (rv, m2)"
    and g': "g' = g\<lparr>gs_left := fst points, gs_right := snd points, gs_left_value := lv,
               gs_right_value := rv, gs_zero_streak := 0, gs_memo := m2\<rparr>"
    using assms(4) by (auto simp: recenter_def bind_eq_Some_conv)
  have "memo_ok (seen W (gs_memo g)) (fst (gs_memo g))"
    using assms(1) by (simp add: golden_inv_def)
  note s1 = cached_evaluate_logged [OF e1 this]
  note s2 = cached_evaluate_logged [OF e2 conjunct1 [OF s1]]
  have "w \<le> max lv rv" if "(y, w) \<in> set (fst (snd (gs_memo g)))" for y w
    using assms(1-3) that by (auto simp: golden_inv_def)
  then have "w \<le> max lv rv" if "(y, w) \<in> set (fst (snd m2))" for y w
    using that s1 s2 by auto
  moreover have "(fst points, lv) \<in> seen W m2"
    using s1 s2 by (auto simp: seen_def)
  moreover have "length (fst (snd m2)) \<le> n + 2"
    using s1 s2 assms(1) by (auto simp: golden_inv_def)
  ultimately show ?thesis
    using s2 by (auto simp: golden_inv_def g')
qed

lemma golden_inv_weaken: "golden_inv W n g \<Longrightarrow> n \<le> n' \<Longrightarrow> golden_inv W n' g"
  by (auto simp: golden_inv_def)

lemma golden_round:
  assumes "golden_loop (logged ev) warm (Suc k) g = Some g'" "golden_inv W n g"
  shows "golden_inv W n g' \<or> (\<exists>h. golden_inv W (n + 2) h \<and> golden_loop (logged ev) warm k h = Some g')"
proof -
  have step: "golden_inv W (n + 2) h" if "golden_step (logged ev) (g\<lparr>gs_zero_streak := j\<rparr>) = Some h" for h j
    using golden_inv_step [OF _ that] assms(2) by simp
  have again: "golden_inv W (n + 2) h"
    if "gs_left_value g = 0" "gs_right_value g = 0" "recenter (logged ev) points (g\<lparr>gs_zero_streak := j\<rparr>) = Some h"
    for h j points
    using golden_inv_recenter [OF _ _ _ that(3)] that(1,2) assms(2) by simp
  have zero: "golden_inv W n (g\<lparr>gs_zero_streak := j, gs_left := l, gs_right := r\<rparr>)"
    if "gs_left_value g = 0" "gs_right_value g = 0" for j l r
    using assms(2) that by (auto simp: golden_inv_def)
  show ?thesis
    using assms unfolding golden_loop.simps Let_def bind_eq_Some_conv
    by (auto simp: bind_eq_Some_conv split: if_splits option.splits dest: step again intro: zero)
qed

lemma golden_inv_loop:
  "golden_loop (logged ev) warm k g = Some g' \<Longrightarrow> golden_inv W n g \<Longrightarrow> golden_inv W (n + 2 * k) g'"
proof (induction k arbitrary: n g)
  case (Suc k)
  from golden_round [OF Suc.prems] show ?case
  proof
    assume "golden_inv W n g'"
    then show ?thesis
      by (rule golden_inv_weaken) simp
  next
    assume "\<exists>h. golden_inv W (n + 2) h \<and> golden_loop (logged ev) warm k h = Some g'"
    then show ?thesis
      using Suc.IH [of _ "n + 2"] by auto
  qed
qed simp

lemma fold_better:
  "fold better cands best \<in> insert best (set cands) \<and>
   (\<forall>c \<in> insert best (set cands). snd c \<le> snd (fold better cands best)) \<and>
   (fold better cands best = best \<or> snd best < snd (fold better cands best))"
proof (induction cands arbitrary: best)
  case (Cons c cands)
  show ?case
    using Cons.IH [of "better c best"] by (auto simp: better_def split: if_splits)
qed simp

lemma solve_scored_seen:
  assumes "solve_brent_scored low high (logged ev) iterations warm ([], s) = Some (best, log, s')"
  shows "best \<in> {seed \<in> set warm. in_window low high seed} \<union> set log \<and>
         (\<forall>c \<in> {seed \<in> set warm. in_window low high seed} \<union> set log. snd c \<le> snd best) \<and>
         (fst best = low \<or> 0 < snd best) \<and>
         length log \<le> 2 * unat (if iterations = 0 then DEFAULT_BRENT_ITERATIONS else iterations) + 4"
proof -
  let ?W = "set (filter (in_window low high) warm)"
  define k where "k = unat (if iterations = 0 then DEFAULT_BRENT_ITERATIONS else iterations)"
  obtain left right where points: "initial_points low high warm = (left, right)"
    by fastforce
  obtain lv m1 rv m2 g where e1: "cached_evaluate (logged ev) left (seed_brent_cache low high warm, [], s) = Some (lv, m1)"
    and e2: "cached_evaluate (logged ev) right m1 = Some (rv, m2)"
    and loop: "golden_loop (logged ev) warm k
        \<lparr>gs_a = low, gs_b = high, gs_left = left, gs_right = right, gs_left_value = lv, gs_right_value = rv,
         gs_zero_streak = 0, gs_memo = m2\<rparr> = Some g"
    and final: "best_of_search low high (logged ev) warm g = Some (best, log, s')"
    using assms by (auto simp: solve_brent_scored_def points k_def bind_eq_Some_conv)
  have "memo_ok (seen ?W (seed_brent_cache low high warm, [], s)) (seed_brent_cache low high warm)"
    using memo_ok_seeds by (simp add: seen_def)
  then have s1: "memo_ok (seen ?W m1) (fst m1) \<and> (left, lv) \<in> seen ?W m1 \<and>
      (fst (snd m1) = [] \<or> fst (snd m1) = [(left, lv)])"
    using cached_evaluate_logged [OF e1, of ?W] by simp
  then have s2: "memo_ok (seen ?W m2) (fst m2) \<and> (right, rv) \<in> seen ?W m2 \<and>
      (fst (snd m2) = fst (snd m1) \<or> fst (snd m2) = (right, rv) # fst (snd m1))"
    using cached_evaluate_logged [OF e2, of ?W] by simp
  have start: "golden_inv ?W 2 \<lparr>gs_a = low, gs_b = high, gs_left = left, gs_right = right, gs_left_value = lv,
      gs_right_value = rv, gs_zero_streak = 0, gs_memo = m2\<rparr>"
    using s1 s2 by (auto simp: golden_inv_def seen_def)
  have inv: "golden_inv ?W (2 + 2 * k) g"
    by (rule golden_inv_loop [OF loop start])
  obtain vl m3 vh m4 where e3: "cached_evaluate (logged ev) low (gs_memo g) = Some (vl, m3)"
    and e4: "cached_evaluate (logged ev) high m3 = Some (vh, m4)"
    and best: "best = fold better (filter (\<lambda>seed. in_window low high seed \<and> snd seed \<noteq> 0) warm)
                 (fold better [(gs_left g, gs_left_value g), (gs_right g, gs_right_value g), (high, vh)] (low, vl))"
    and log: "(log, s') = snd m4"
    using final by (auto simp: best_of_search_def bind_eq_Some_conv Let_def)
  from inv have s3: "memo_ok (seen ?W m3) (fst m3) \<and> (low, vl) \<in> seen ?W m3 \<and>
      (fst (snd m3) = fst (snd (gs_memo g)) \<or> fst (snd m3) = (low, vl) # fst (snd (gs_memo g)))"
    using cached_evaluate_logged [OF e3, of ?W] by (simp add: golden_inv_def)
  then have s4: "(high, vh) \<in> seen ?W m4 \<and>
      (fst (snd m4) = fst (snd m3) \<or> fst (snd m4) = (high, vh) # fst (snd m3))"
    using cached_evaluate_logged [OF e4, of ?W] by simp
  have log4: "log = fst (snd m4)"
    using log by (metis fst_conv)
  let ?four = "[(gs_left g, gs_left_value g), (gs_right g, gs_right_value g), (high, vh)]"
  define b1 where "b1 = fold better ?four (low, vl)"
  note four = fold_better [of ?four "(low, vl)", folded b1_def]
  note all = fold_better [of "filter (\<lambda>seed. in_window low high seed \<and> snd seed \<noteq> 0) warm" b1,
      folded best [folded b1_def]]
  have grows: "set (fst (snd (gs_memo g))) \<subseteq> set log"
    and ends: "(low, vl) \<in> ?W \<union> set log" "(high, vh) \<in> ?W \<union> set log"
    using s3 s4 unfolding seen_def log4 by auto
  have points: "gs_left_value g \<noteq> 0 \<longrightarrow> (gs_left g, gs_left_value g) \<in> ?W \<union> set log"
    "gs_right_value g \<noteq> 0 \<longrightarrow> (gs_right g, gs_right_value g) \<in> ?W \<union> set log"
    using inv grows unfolding golden_inv_def seen_def by blast+
  have "b1 \<in> ?W \<union> set log"
  proof (cases "b1 = (low, vl)")
    case False
    then have "snd b1 \<noteq> 0"
      using four word_gt_0 by (metis not_less_zero order_le_less_trans word_zero_le)
    moreover have "b1 \<in> set ?four"
      using False four by blast
    ultimately show ?thesis
      using points ends(2) by auto
  qed (use ends in simp)
  then have "best \<in> ?W \<union> set log"
    using all by auto
  moreover have "snd c \<le> snd b1" if "c \<in> set log" for c
  proof -
    have "\<forall>c \<in> set (fst (snd (gs_memo g))). snd c \<le> max (gs_left_value g) (gs_right_value g)"
      using inv unfolding golden_inv_def by (simp add: case_prod_beta)
    moreover have "c \<in> set (fst (snd (gs_memo g))) \<or> c = (low, vl) \<or> c = (high, vh)"
      using that s3 s4 unfolding log4 by auto
    ultimately have "snd c \<le> max (gs_left_value g) (gs_right_value g) \<or> c = (low, vl) \<or> c = (high, vh)"
      by blast
    then show ?thesis
      using four by (auto simp: le_max_iff_disj intro: order_trans)
  qed
  then have "snd c \<le> snd best" if "c \<in> ?W \<union> set log" for c
    using that all by (cases c; cases "snd c = 0") (fastforce intro: order_trans)+
  moreover have "fst best = low \<or> 0 < snd best"
    using four all word_gt_0 [of "snd best"] by (auto simp: word_gt_0 dest: order_le_less_trans)
  moreover have "length log \<le> 2 * k + 4"
    using inv s3 s4 unfolding golden_inv_def log4 by auto
  ultimately show ?thesis
    unfolding k_def by auto
qed

text \<open>A search over a score that never panics always returns.\<close>

definition returns :: "'a panics \<Rightarrow> bool" where
  "returns m \<longleftrightarrow> (\<exists>x. m = Some x)"

lemma returns_Some [simp]: "returns (Some x)"
  by (simp add: returns_def)

lemma returns_bind: "returns m \<Longrightarrow> (\<And>x. returns (f x)) \<Longrightarrow> returns (Option.bind m f)"
  by (auto simp: returns_def)

lemma cached_evaluate_returns: "(\<And>x s. returns (ev x s)) \<Longrightarrow> returns (cached_evaluate ev x memo)"
  unfolding cached_evaluate_def
  by (cases "brent_cache_find x (fst memo)") (auto intro!: returns_bind split: prod.splits)

lemma golden_step_returns: "(\<And>x s. returns (ev x s)) \<Longrightarrow> returns (golden_step ev g)"
  unfolding golden_step_def Let_def by (auto intro!: returns_bind cached_evaluate_returns split: prod.splits)

lemma recenter_returns: "(\<And>x s. returns (ev x s)) \<Longrightarrow> returns (recenter ev points g)"
  unfolding recenter_def by (auto intro!: returns_bind cached_evaluate_returns split: prod.splits)

lemma golden_loop_returns: "(\<And>x s. returns (ev x s)) \<Longrightarrow> returns (golden_loop ev warm n g)"
proof (induction n arbitrary: g)
  case (Suc n)
  note go_on = returns_bind [OF _ Suc.IH [OF Suc.prems]]
  show ?case
    unfolding golden_loop.simps Let_def
    by (auto split: option.splits intro!: go_on golden_step_returns recenter_returns Suc.prems)
qed simp

lemma size_search_returns:
  assumes "\<And>x s. returns (ev x s)"
  shows "returns (solve_brent_optimal_warm low high ev iterations warm s)"
proof -
  have "returns (best_of_search low high ev warm g)" for g
    unfolding best_of_search_def Let_def
    by (auto intro!: returns_bind cached_evaluate_returns assms split: prod.splits)
  then have "returns (solve_brent_scored low high ev iterations warm s)"
    unfolding solve_brent_scored_def Let_def
    by (auto split: prod.splits intro!: returns_bind cached_evaluate_returns golden_loop_returns assms)
  then show ?thesis
    by (auto simp: solve_brent_optimal_warm_def returns_def)
qed

text \<open>What every evaluation keeps of its state, the search keeps.\<close>

locale kept_by_evaluation =
  fixes ev :: "'s evaluator" and P :: "'s \<Rightarrow> bool"
  assumes evaluation_keeps: "ev x s = Some (v, s') \<Longrightarrow> P s \<Longrightarrow> P s'"
begin

lemma cached_evaluate_keeps: "cached_evaluate ev x memo = Some (v, memo') \<Longrightarrow> P (snd memo) \<Longrightarrow> P (snd memo')"
  by (auto simp: cached_evaluate_def bind_eq_Some_conv split: option.splits intro: evaluation_keeps)

lemma golden_step_keeps: "golden_step ev g = Some g' \<Longrightarrow> P (snd (gs_memo g)) \<Longrightarrow> P (snd (gs_memo g'))"
  by (fastforce simp: golden_step_def Let_def bind_eq_Some_conv dest: cached_evaluate_keeps split: if_splits)

lemma recenter_keeps: "recenter ev points g = Some g' \<Longrightarrow> P (snd (gs_memo g)) \<Longrightarrow> P (snd (gs_memo g'))"
  by (fastforce simp: recenter_def bind_eq_Some_conv dest: cached_evaluate_keeps)

lemma golden_loop_keeps: "golden_loop ev warm n g = Some g' \<Longrightarrow> P (snd (gs_memo g)) \<Longrightarrow> P (snd (gs_memo g'))"
proof (induction n arbitrary: g)
  case (Suc n)
  have step: "P (snd (gs_memo g'))" if "golden_step ev (g\<lparr>gs_zero_streak := k\<rparr>) = Some h"
      "golden_loop ev warm n h = Some g'" for h k
    using golden_step_keeps [OF that(1)] Suc.IH [OF that(2)] Suc.prems(2) by simp
  have again: "P (snd (gs_memo g'))" if "recenter ev points (g\<lparr>gs_zero_streak := k\<rparr>) = Some h"
      "golden_loop ev warm n h = Some g'" for h k points
    using recenter_keeps [OF that(1)] Suc.IH [OF that(2)] Suc.prems(2) by simp
  show ?case
    using Suc.prems unfolding golden_loop.simps Let_def
    by (auto simp: bind_eq_Some_conv split: if_splits option.splits dest: step again)
qed simp

lemma size_search_keeps:
  assumes "solve_brent_optimal_warm low high ev iterations warm s = Some (x, s')" "P s"
  shows "P s'"
proof (cases "low < high")
  case True
  have final: "P s'" if "best_of_search low high ev warm g = Some (best, s')" "P (snd (gs_memo g))" for g best
    using that by (fastforce simp: best_of_search_def bind_eq_Some_conv Let_def dest: cached_evaluate_keeps)
  have start: "P (snd (gs_memo g))"
    if "cached_evaluate ev left (seed_brent_cache low high warm, s) = Some (lv, m1)"
      "cached_evaluate ev right m1 = Some (rv, m2)" "golden_loop ev warm n h = Some g" "gs_memo h = m2"
    for left lv m1 right rv m2 n h g
    using cached_evaluate_keeps [OF that(1)] cached_evaluate_keeps [OF that(2)] golden_loop_keeps [OF that(3)]
      that(4) assms(2) by simp
  obtain best where "solve_brent_scored low high ev iterations warm s = Some (best, s')"
    using assms(1) True by (auto simp: solve_brent_optimal_warm_def not_le [symmetric])
  then show ?thesis
    unfolding solve_brent_scored_def Let_def
    by (auto simp: bind_eq_Some_conv split: prod.splits intro!: final elim!: start)
next
  case False
  then show ?thesis
    using assms by (simp add: solve_brent_optimal_warm_def not_less)
qed

end

section \<open>Properties\<close>

text \<open>
  Property C15. The size search returns the best size it has seen, for every score function, with or without
  state: no size it evaluated and no seed of the window scored more than the one it returns, which was itself
  evaluated or is such a seed; and it evaluates at most two sizes per iteration and four more. Neither the
  shrinking of the interval, nor the memo that overwrites its oldest slots, nor the move to a seed after a dead
  band loses the best score.
\<close>

theorem size_search_keeps_best:
  assumes "low < high"
    and "solve_brent_optimal_warm low high (logged ev) iterations warm ([], s) = Some (x, log, s')"
  shows "\<exists>v. (x, v) \<in> {seed \<in> set warm. in_window low high seed} \<union> set log \<and>
             (\<forall>(y, w) \<in> {seed \<in> set warm. in_window low high seed} \<union> set log. w \<le> v) \<and>
             length log \<le> 2 * unat (if iterations = 0 then DEFAULT_BRENT_ITERATIONS else iterations) + 4"
proof -
  obtain v where "solve_brent_scored low high (logged ev) iterations warm ([], s) = Some ((x, v), log, s')"
    using assms by (auto simp: solve_brent_optimal_warm_def not_le [symmetric])
  from solve_scored_seen [OF this] show ?thesis
    by (intro exI [of _ v]) (auto simp: case_prod_beta)
qed

text \<open>A hill with its top at 700, and a search of four rounds over it.\<close>

definition sample_hill :: "unit evaluator" where
  "sample_hill x s = Some (if x \<le> 700 then x else 1400 - x, s)"

lemma sample_search:
  "solve_brent_optimal_warm 0 1000 (logged sample_hill) 4 [(900, 500)] ([], ()) =
     Some (764, [(0, 0), (631, 631), (816, 584), (764, 636), (382, 382), (1000, 400), (518, 518)], ())"
  by code_simp

theorem size_search_keeps_best_witness:
  "\<exists>v. (764, v) \<in> {seed \<in> set [(900, 500)]. in_window 0 1000 seed} \<union>
          set [(0, 0), (631, 631), (816, 584), (764, 636), (382, 382), (1000, 400), (518, 518)] \<and>
       (\<forall>(y, w) \<in> {seed \<in> set [(900, 500)]. in_window 0 1000 seed} \<union>
          set [(0, 0), (631, 631), (816, 584), (764, 636), (382, 382), (1000, 400), (518, 518)]. w \<le> v)"
proof -
  have "(0 :: u256) < 1000"
    by simp
  from size_search_keeps_best [OF this sample_search] show ?thesis
    by blast
qed

text \<open>
  The search does not stay in its range. After a seed at the upper end the two points can change
  order, the interval turns inside out, and the next point is computed from a difference that wraps around: a
  search over the sizes from 0 to 1000 evaluates, and here returns, a size of about \<open>2 ^ 256\<close>.
\<close>

theorem size_search_leaves_range:
  "case solve_brent_optimal_warm 0 1000
          (\<lambda>x s. Some (if x > 1000 then 7 else if x = 799 then 6 else 4, s)) 4 [(1000, 5)] () of
     Some (x, _) \<Rightarrow> 1000 < x
   | None \<Rightarrow> False"
  by code_simp

end
