(* ===== verification/SizeSearch.thy ===== *)
theory SizeSearch
  imports SimSanity RouteSimCache GoldenSearch
begin

text \<open>
  Sizing a cycle, \<open>src/pipeline/ternary.rs\<close>: the window of amounts from hop capacities, economic floor and loan
  cap, its clamps against probe seeds, Balancer limits and tick depth, and the optimizer that searches the
  window by simulation (\<open>optimize_cycle\<close>).

  The simulations count in the Curve counters and may panic, so the functions that simulate thread the counters
  and return \<^typ>\<open>'a counted\<close>. The closure of the optimizer keeps a local memo, the wall of infeasible sizes, the
  shared simulation cache and the sampling counter, one record here. The decimals of tokens are an association
  list, the rates a function. The iteration order of the hash maps is an argument. Diagnostic counters and
  trace lines are left out.
\<close>

section \<open>Capacity of a hop\<close>

definition DEFAULT_MAX_FLASH_LOAN_USD :: u64 where "DEFAULT_MAX_FLASH_LOAN_USD = 50000"

fun sim_failure_is_size_monotonic :: "MinimalSimFailure option \<Rightarrow> bool" where
  "sim_failure_is_size_monotonic (Some (V2ReserveExhausted _)) = True"
| "sim_failure_is_size_monotonic (Some (ClCapExceeded _)) = True"
| "sim_failure_is_size_monotonic (Some (ShallowCl _)) = True"
| "sim_failure_is_size_monotonic (Some (ClSynthetic _)) = True"
| "sim_failure_is_size_monotonic (Some (ClTickless _)) = True"
| "sim_failure_is_size_monotonic (Some (BalancerMaxInRatio _)) = True"
| "sim_failure_is_size_monotonic (Some (ZeroOutput _ _)) = True"
| "sim_failure_is_size_monotonic _ = False"

record TernarySearchBounds =
  tb_low :: u256
  tb_high :: u256
  tb_flash_cap :: "u256 option"

definition cap_or_default :: "u256 \<Rightarrow> u256 \<Rightarrow> u256" where
  "cap_or_default cap default_cap = (if cap = 0 then default_cap else cap)"

definition cl_capacity :: "CLPoolState \<Rightarrow> bool \<Rightarrow> u256 option" where
  "cl_capacity s zero_for_one =
     (if cl_sqrt_price_x96 s = 0 \<or> cl_liquidity s = 0 then None
      else
        let liq = ucast (cl_liquidity s);
            cap = (if zero_for_one then push_bit 96 liq div cl_sqrt_price_x96 s
                   else drop_bit 96 (liq * cl_sqrt_price_x96 s))
        in Some (cap_or_default cap ONE))"

definition hop_capacity :: "StateArena \<Rightarrow> Edge \<Rightarrow> u256 option" where
  "hop_capacity arena edge = do {
     st \<leftarrow> pool_state arena (e_pool_index edge);
     let idx = unat (e_token_in_idx edge);
     case (st, e_protocol edge) of
       (PV2 s, UniswapV2) \<Rightarrow>
         Some (cap_or_default (if e_zero_for_one edge then v2_reserve0 s else v2_reserve1 s) ONE)
     | (PV3 s, UniswapV3) \<Rightarrow> cl_capacity s (e_zero_for_one edge)
     | (PV4 s, UniswapV4) \<Rightarrow> cl_capacity s (e_zero_for_one edge)
     | (PCurve s, CurveStable) \<Rightarrow> Some (cap_or_default (or_default (nth_opt (cv_balances s) idx) 0) ONE)
     | (PCurve s, CurveCrypto) \<Rightarrow> Some (cap_or_default (or_default (nth_opt (cv_balances s) idx) 0) ONE)
     | (PBalancer s, BalancerV2) \<Rightarrow>
         Some (cap_or_default (or_default (nth_opt (bal_balances s) idx) 0 div 10) ONE)
     | (PDodo s, Dodo) \<Rightarrow> Some (cap_or_default (estimate_dodo_hop_capacity s (e_token_in_idx edge = 0)) ONE)
     | (PWoofi s, Woofi) \<Rightarrow>
         Some (cap_or_default
           (if idx \<ge> length (wf_base_states s) then wf_quote_reserve s
            else case nth_opt (wf_base_states s) idx of Some b \<Rightarrow> wb_reserve b | None \<Rightarrow> 0) ONE)
     | _ \<Rightarrow> Some ONE
   }"

section \<open>The search window\<close>

text \<open>
  A capacity converted into units of the start token, \<open>None\<close> when a rate or the decimals are unknown. The
  divisor is not zero: both rates are checked and a power of ten is positive.
\<close>

definition convert_capacity ::
    "(u32 \<Rightarrow> u256 option) \<Rightarrow> StateArena \<Rightarrow> (address \<times> u8) list \<Rightarrow> u256 \<Rightarrow> u8 \<Rightarrow> Edge \<Rightarrow> u256 \<Rightarrow> u256 option" where
  "convert_capacity rates arena decimals start_rate start_decimals edge capacity =
     (case lookup_matic_rate (e_token_in edge) rates of
        None \<Rightarrow> None
      | Some token_in_rate \<Rightarrow>
          if token_in_rate = 0 \<or> start_rate = 0 then None
          else case explicit_decimals_for_index (e_token_in edge) arena (map_of decimals) of
            None \<Rightarrow> None
          | Some token_in_decimals \<Rightarrow>
              let num = ucast capacity * ucast token_in_rate * ucast (ten_pow_u256_cached start_decimals) :: u512;
                  den = ucast start_rate * ucast (ten_pow_u256_cached token_in_decimals) :: u512;
                  capacity = u512_to_u256 (num div den)
              in Some (if e_protocol edge = BalancerV2 then capacity div 2 else capacity))"

text \<open>The smallest capacity so far, whether all could be converted, and whether any could be used.\<close>

fun bottleneck ::
    "(Edge \<Rightarrow> u256 option) \<Rightarrow> (Edge \<Rightarrow> u256 \<Rightarrow> u256 option) \<Rightarrow> u32 \<Rightarrow> Edge list \<Rightarrow> u256 \<times> bool \<times> bool \<Rightarrow>
     (u256 \<times> bool \<times> bool) option" where
  "bottleneck capacity_of convert start_token [] acc = Some acc"
| "bottleneck capacity_of convert start_token (edge # edges) (min_capacity, can_normalize_all, saw) =
     (case capacity_of edge of
        None \<Rightarrow> None
      | Some capacity \<Rightarrow>
          (case (if e_token_in edge = start_token then Some capacity else convert edge capacity) of
             None \<Rightarrow> bottleneck capacity_of convert start_token edges (min_capacity, False, saw)
           | Some capacity \<Rightarrow>
               bottleneck capacity_of convert start_token edges (min min_capacity capacity, can_normalize_all, True)))"

text \<open>The window before the liquidity cap.\<close>

definition capacity_window :: "u256 \<Rightarrow> u8 \<Rightarrow> u256 \<Rightarrow> u256 option \<Rightarrow> u256 \<times> u256" where
  "capacity_window min_capacity start_decimals start_rate flash_cap =
     (let low = min_capacity div 5000;
          high = min_capacity div 10;
          (low, high) =
            (if start_rate \<noteq> 0
             then (max low (min_economic_amount_in start_decimals start_rate),
                   case flash_cap of Some max_wei \<Rightarrow> min high max_wei | None \<Rightarrow> high)
             else (low, high));
          final_low = max low (max (high div 100) 1);
          final_high = (if high > final_low then high else final_low + 1)
      in (final_low, final_high))"

text \<open>The liquidity cap, then the economic floor and the final check.\<close>

definition cap_window :: "u256 option \<Rightarrow> u256 \<times> u256 \<Rightarrow> u256 \<times> u256" where
  "cap_window liquidity_cap window =
     (case liquidity_cap of
        None \<Rightarrow> window
      | Some cap \<Rightarrow>
          if cap = 0 then window
          else
            let out_high = min (snd window) cap
            in (if fst window \<ge> out_high then max (saturating_sub out_high 1) 1 else fst window, out_high))"

definition floor_window :: "u256 \<Rightarrow> u256 option \<Rightarrow> u256 \<times> u256 \<Rightarrow> u256 \<times> u256" where
  "floor_window economic_floor flash_cap window =
     (let (out_low, out_high) = window;
          out_low = (if out_low < economic_floor \<and> economic_floor \<le> out_high then economic_floor else out_low);
          out_high =
            (if out_high < economic_floor
             then
               let raised = saturating_mul economic_floor 100
               in case flash_cap of Some max_wei \<Rightarrow> min raised max_wei | None \<Rightarrow> raised
             else out_high);
          out_low = max out_low economic_floor;
          out_high = (if out_high \<le> out_low then saturating_add out_low 1 else out_high)
      in (out_low, out_high))"

definition compute_ternary_search_bounds ::
    "'score FoundCycle \<Rightarrow> StateArena \<Rightarrow> (u32 \<Rightarrow> u256 option) \<Rightarrow> (address \<times> u8) list \<Rightarrow> u256 \<Rightarrow> u8 \<Rightarrow> u64 \<Rightarrow> MaticUsd \<Rightarrow>
     u256 option \<Rightarrow> TernarySearchBounds option" where
  "compute_ternary_search_bounds cycle arena rates decimals start_rate start_decimals max_flash_loan_usd mu liquidity_cap =
     (let params = \<lparr>fb_max_flash_loan_usd = max_flash_loan_usd, fb_token_decimals = start_decimals,
                    fb_token_to_matic_rate = start_rate, fb_matic_usd = mu\<rparr>
      in if cap_enforced_but_unresolved params then None
         else do {
           (min_capacity, can_normalize_all, saw) \<leftarrow> bottleneck (hop_capacity arena)
              (convert_capacity rates arena decimals start_rate start_decimals) (fc_start_token cycle)
              (fc_edges cycle) (- 1, True, False);
           let min_capacity = (if \<not> saw \<or> min_capacity = 0 \<or> min_capacity = - 1 then ONE * 100 else min_capacity);
           let flash_cap = (if start_rate = 0 then None else cap_wei params);
           let economic_floor = min_economic_amount_in start_decimals start_rate;
           let (low, high) = floor_window economic_floor flash_cap
                 (cap_window liquidity_cap (capacity_window min_capacity start_decimals start_rate flash_cap));
           if high \<le> low \<or> high < economic_floor then None
           else Some \<lparr>tb_low = low, tb_high = high, tb_flash_cap = flash_cap\<rparr>
         })"

section \<open>Clamps of the window\<close>

text \<open>The largest profitable seed, the first of equal ones, with its profit and gas.\<close>

definition largest_profitable_seed :: "(u256 \<times> MinimalSimResult) list \<Rightarrow> u256 \<times> u256 \<times> u32" where
  "largest_profitable_seed seeds =
     fold (\<lambda>(amount, sim) best.
        if ms_profit sim \<noteq> 0 \<and> amount > fst best then (amount, ms_profit sim, ms_total_gas sim) else best)
       seeds (0, 0, 0)"

definition breakeven_high :: "ProfitEvalContext \<Rightarrow> u256 \<Rightarrow> u256 \<Rightarrow> u32 \<Rightarrow> u256 \<Rightarrow> u256" where
  "breakeven_high ctx best_amt best_profit best_gas seed_high =
     (if best_profit \<noteq> 0 \<and> best_amt \<noteq> 0 \<and> best_gas > 0 \<and> pc_gas_price ctx \<noteq> 0 \<and> pc_token_to_matic_rate ctx \<noteq> 0
      then
        let gas_units = scaled_simulated_gas best_gas (pc_gas_scale_bps ctx);
            gas_cost_matic = saturating_mul (pc_gas_price ctx) (ucast gas_units);
            scale = ten_pow_u256 (pc_token_decimals ctx);
            gas_cost_start = or_default (checked_div (saturating_mul gas_cost_matic scale) (pc_token_to_matic_rate ctx)) 0
        in if gas_cost_start = 0 then seed_high
           else
             let breakeven = or_default (checked_div (saturating_mul best_amt gas_cost_start) best_profit) 0;
                 with_headroom = or_default (checked_div (saturating_mul breakeven 12) 10) breakeven
             in max seed_high with_headroom
      else seed_high)"

definition clamp_brent_high_to_probe_seeds ::
    "u256 \<Rightarrow> u256 \<Rightarrow> u256 \<Rightarrow> u256 option \<Rightarrow> (u256 \<times> MinimalSimResult) list \<Rightarrow> ProfitEvalContext option \<Rightarrow> u256 option" where
  "clamp_brent_high_to_probe_seeds high low economic_floor flash_cap seeds profit_ctx =
     (let (best_amt, best_profit, best_gas) = largest_profitable_seed seeds
      in if best_amt = 0 then None
         else
           let seed_high = saturating_mul best_amt 8;
               seed_high = (case profit_ctx of
                   Some ctx \<Rightarrow> breakeven_high ctx best_amt best_profit best_gas seed_high
                 | None \<Rightarrow> seed_high)
           in if seed_high < economic_floor then None
              else if seed_high > high
              then
                let raised = min seed_high (saturating_mul high 16)
                in if raised > high
                   then Some (case flash_cap of None \<Rightarrow> raised | Some cap \<Rightarrow> min raised cap)
                   else None
              else if seed_high \<ge> high then None
              else if seed_high \<le> low then Some (saturating_add low 1)
              else Some seed_high)"

datatype ClDepthHighClamp = ClNoop | ClClamped u256 | ClWindowInfeasible

text \<open>Bisection for the largest amount that still simulates, with at most the given number of rounds.\<close>

fun cl_bisect ::
    "(u256 \<Rightarrow> CurveStats \<Rightarrow> bool counted) \<Rightarrow> nat \<Rightarrow> u256 \<Rightarrow> u256 \<Rightarrow> CurveStats \<Rightarrow> u256 counted" where
  "cl_bisect feasible 0 lo hi cs = Some (lo, cs)"
| "cl_bisect feasible (Suc n) lo hi cs =
     (if hi \<le> saturating_add lo 1 then Some (lo, cs)
      else
        let mid = lo + (hi - lo) div 2
        in do {
             (ok, cs) \<leftarrow> feasible mid cs;
             if ok then cl_bisect feasible n mid hi cs else cl_bisect feasible n lo mid cs
           })"

definition simulates ::
    "StateArena \<Rightarrow> Edge list \<Rightarrow> u256 list option \<Rightarrow> u256 \<Rightarrow> CurveStats \<Rightarrow> bool counted" where
  "simulates arena edges caps amount cs =
     map_option (\<lambda>(r, cs). (r \<noteq> None, cs)) (simulate_route_minimal_with_caps arena edges amount caps cs)"

definition clamp_brent_high_to_cl_feasible ::
    "StateArena \<Rightarrow> Edge list \<Rightarrow> u256 \<Rightarrow> u256 \<Rightarrow> u256 \<Rightarrow> u256 list option \<Rightarrow> CurveStats \<Rightarrow> ClDepthHighClamp counted" where
  "clamp_brent_high_to_cl_feasible arena edges low high economic_floor caps cs =
     (if \<not> list_ex (\<lambda>edge. e_protocol edge \<in> {UniswapV3, UniswapV4}) edges then Some (ClNoop, cs)
      else do {
        (at_high, cs) \<leftarrow> simulates arena edges caps high cs;
        let floor = max economic_floor low;
        if at_high then Some (ClNoop, cs)
        else if floor \<ge> high then Some (ClWindowInfeasible, cs)
        else do {
          (at_floor, cs) \<leftarrow> simulates arena edges caps floor cs;
          if \<not> at_floor then Some (ClWindowInfeasible, cs)
          else do {
            (lo, cs) \<leftarrow> cl_bisect (simulates arena edges caps) 12 floor high cs;
            Some (if lo < high \<and> lo \<ge> floor then ClClamped lo else ClWindowInfeasible, cs)
          }
        }
      })"

datatype BalancerHighClamp = BalWindowInfeasible | BalClamped u256 u256

definition hits_max_in :: "StateArena \<Rightarrow> Edge list \<Rightarrow> u256 \<Rightarrow> CurveStats \<Rightarrow> bool counted" where
  "hits_max_in arena edges amount cs =
     map_option (\<lambda>(f, cs). (case f of Some (BalancerMaxInRatio _) \<Rightarrow> True | _ \<Rightarrow> False, cs))
       (minimal_sim_failure arena edges amount cs)"

text \<open>Bisection for the largest amount under the vault's limit.\<close>

fun bal_bisect ::
    "(u256 \<Rightarrow> CurveStats \<Rightarrow> bool counted) \<Rightarrow> nat \<Rightarrow> u256 \<Rightarrow> u256 \<Rightarrow> CurveStats \<Rightarrow> u256 counted" where
  "bal_bisect hits 0 lo hi cs = Some (lo, cs)"
| "bal_bisect hits (Suc n) lo hi cs =
     (if saturating_sub hi lo \<le> 1 then Some (lo, cs)
      else
        let mid = lo + (hi - lo) div 2
        in do {
             (hit, cs) \<leftarrow> hits mid cs;
             if hit then bal_bisect hits n lo mid cs else bal_bisect hits n mid hi cs
           })"

definition balancer_max_in_high_clamp ::
    "StateArena \<Rightarrow> Edge list \<Rightarrow> u256 \<Rightarrow> u256 \<Rightarrow> u256 \<Rightarrow> CurveStats \<Rightarrow> BalancerHighClamp option counted" where
  "balancer_max_in_high_clamp arena edges low high economic_floor cs =
     (if high \<le> low \<or> \<not> list_ex (\<lambda>e. e_protocol e = BalancerV2) edges then Some (None, cs)
      else do {
        (at_low, cs) \<leftarrow> hits_max_in arena edges low cs;
        if at_low
        then
          let floor = min economic_floor low
          in if floor = 0 then Some (Some BalWindowInfeasible, cs)
             else do {
               (at_floor, cs) \<leftarrow> hits_max_in arena edges floor cs;
               if at_floor then Some (Some BalWindowInfeasible, cs)
               else do {
                 (lo, cs) \<leftarrow> bal_bisect (hits_max_in arena edges) 48 floor low cs;
                 let clamped = max (saturating_mul lo 95 div 100) floor;
                 Some (Some (if clamped \<le> floor
                             then BalClamped floor (min (saturating_add floor 1) (max lo floor))
                             else BalClamped floor clamped), cs)
               }
             }
        else do {
          (at_high, cs) \<leftarrow> hits_max_in arena edges high cs;
          if \<not> at_high then Some (None, cs)
          else do {
            (lo, cs) \<leftarrow> bal_bisect (hits_max_in arena edges) 48 low high cs;
            let clamped = saturating_mul lo 95 div 100;
            let clamped = (if clamped \<le> low then saturating_add low 1 else clamped);
            Some (if clamped < high then Some (BalClamped low clamped) else None, cs)
          }
        }
      })"

section \<open>The optimizer\<close>

record RouteGasCosting =
  rg_lookup :: RouteGasLookup
  rg_edges :: "Edge list"
  rg_calibrated_seed :: bool

definition resolve_route_gas :: "RouteGasCosting \<Rightarrow> u32 \<Rightarrow> u32" where
  "resolve_route_gas costing simulated_gas =
     (if rg_calibrated_seed costing then lookup_gas_observed_or_seed (rg_lookup costing) (rg_edges costing) simulated_gas
      else lookup_gas_or_heuristic (rg_lookup costing) (rg_edges costing) simulated_gas)"

definition with_route_gas :: "RouteGasCosting option \<Rightarrow> MinimalSimResult \<Rightarrow> MinimalSimResult" where
  "with_route_gas route_gas sim =
     (case route_gas of
        Some costing \<Rightarrow> sim\<lparr>ms_total_gas := resolve_route_gas costing (ms_total_gas sim)\<rparr>
      | None \<Rightarrow> sim)"

record OptimizationResult =
  or_optimal_input :: u256
  or_expected_gross :: u256
  or_net_profit :: u256
  or_total_gas :: u32
  or_search_low :: u256

definition optimize_at_amount_cap ::
    "StateArena \<Rightarrow> Edge list \<Rightarrow> u256 \<Rightarrow> u256 \<Rightarrow> u8 \<Rightarrow> u256 \<Rightarrow> u256 list option \<Rightarrow> CurveStats \<Rightarrow>
     OptimizationResult option counted" where
  "optimize_at_amount_cap arena edges amount search_low start_decimals start_rate caps cs = do {
     (result, cs) \<leftarrow> simulate_route_minimal_with_caps arena edges amount caps cs;
     Some (case result of
         None \<Rightarrow> None
       | Some sim \<Rightarrow>
           if ms_profit sim = 0 \<or>
              check_sim_sanity \<lparr>ss_amount_in = amount, ss_gross_profit = ms_profit sim, ss_search_low = search_low,
                ss_token_decimals = start_decimals, ss_token_to_matic_rate = start_rate\<rparr> \<noteq> Inr ()
           then None
           else Some \<lparr>or_optimal_input = amount, or_expected_gross = ms_amount_out sim, or_net_profit = ms_profit sim,
                      or_total_gas = ms_total_gas sim, or_search_low = search_low\<rparr>, cs)
   }"

text \<open>What the closure of the optimizer captures, and the state it keeps.\<close>

record SizeEnv =
  se_arena :: StateArena
  se_edges :: "Edge list"
  se_caps :: "u256 list option"
  se_economic_floor :: u256
  se_low :: u256
  se_high :: u256
  se_decimals :: u8
  se_rate :: u256
  se_fees :: FlashFees
  se_profit_ctx :: ProfitEvalContext
  se_route_gas :: "RouteGasCosting option"
  se_route_key :: "(u64 \<times> u64) option"
  se_shard_order :: "sim_shard \<Rightarrow> sim_shard"

record BrentState =
  bs_sim_cache :: "(u256 \<times> MinimalSimResult) list"
  bs_first_infeasible :: u256
  bs_route_cache :: RouteSimCache
  bs_sim_none_sample :: u32
  bs_curve :: CurveStats

definition should_sample_brent_sim_none :: "BrentState \<Rightarrow> bool \<times> BrentState" where
  "should_sample_brent_sim_none st =
     (bs_sim_none_sample st mod 16 = 0, st\<lparr>bs_sim_none_sample := bs_sim_none_sample st + 1\<rparr>)"

definition remember_sim :: "u256 \<Rightarrow> MinimalSimResult \<Rightarrow> BrentState \<Rightarrow> BrentState" where
  "remember_sim amount sim st =
     (if length (bs_sim_cache st) < BRENT_CACHE_SLOTS
      then st\<lparr>bs_sim_cache := AList.update amount sim (bs_sim_cache st)\<rparr> else st)"

definition score_sim :: "SizeEnv \<Rightarrow> u256 \<Rightarrow> MinimalSimResult \<Rightarrow> u256" where
  "score_sim env amount sim =
     (if ms_profit sim = 0 then 0 else brent_score_matic_from_sim (se_fees env) sim amount (se_profit_ctx env))"

definition route_cache_lookup :: "SizeEnv \<Rightarrow> u256 \<Rightarrow> BrentState \<Rightarrow> MinimalSimResult option \<times> BrentState" where
  "route_cache_lookup env amount st =
     (case se_route_key env of
        None \<Rightarrow> (None, st)
      | Some (revision, fp) \<Rightarrow>
          let (hit, cache) = route_sim_get revision fp (se_edges env) amount (bs_route_cache st)
          in (hit, st\<lparr>bs_route_cache := cache\<rparr>))"

definition route_cache_store :: "SizeEnv \<Rightarrow> u256 \<Rightarrow> MinimalSimResult \<Rightarrow> BrentState \<Rightarrow> BrentState" where
  "route_cache_store env amount sim st =
     (case se_route_key env of
        None \<Rightarrow> st
      | Some (revision, fp) \<Rightarrow>
          st\<lparr>bs_route_cache :=
               route_sim_insert (se_shard_order env) revision fp (se_edges env) amount sim (bs_route_cache st)\<rparr>)"

definition sanity_input :: "SizeEnv \<Rightarrow> u256 \<Rightarrow> MinimalSimResult \<Rightarrow> SimSanityInput" where
  "sanity_input env amount sim =
     \<lparr>ss_amount_in = amount, ss_gross_profit = ms_profit sim, ss_search_low = se_low env,
      ss_token_decimals = se_decimals env, ss_token_to_matic_rate = se_rate env\<rparr>"

text \<open>A size that simulates is remembered and scored; one that does not moves the wall.\<close>

definition evaluate_fresh :: "SizeEnv \<Rightarrow> u256 \<Rightarrow> MinimalSimResult \<Rightarrow> BrentState \<Rightarrow> u256 \<times> BrentState" where
  "evaluate_fresh env amount raw st =
     (let st = route_cache_store env amount raw st;
          sim = with_route_gas (se_route_gas env) raw;
          st = remember_sim amount sim st
      in (if ms_profit sim = 0 \<or> check_sim_sanity_fast (sanity_input env amount sim) \<noteq> Inr () then 0
          else brent_score_matic_from_sim (se_fees env) sim amount (se_profit_ctx env), st))"

definition evaluate_infeasible :: "SizeEnv \<Rightarrow> u256 \<Rightarrow> BrentState \<Rightarrow> BrentState panics" where
  "evaluate_infeasible env amount st =
     (let first_sim_none = bs_first_infeasible st > se_high env;
          st = st\<lparr>bs_first_infeasible := amount\<rparr>;
          (sample, st) = (if first_sim_none then (True, st) else should_sample_brent_sim_none st)
      in if \<not> sample then Some st
         else do {
           (failure, cs) \<leftarrow> minimal_sim_failure (se_arena env) (se_edges env) amount (bs_curve st);
           let st = st\<lparr>bs_curve := cs\<rparr>;
           Some (if sim_failure_is_size_monotonic failure then st
                 else st\<lparr>bs_first_infeasible := saturating_add (se_high env) 1\<rparr>)
         })"

definition evaluate_size :: "SizeEnv \<Rightarrow> BrentState evaluator" where
  "evaluate_size env amount st =
     (if amount < se_economic_floor env then Some (0, st)
      else case map_of (bs_sim_cache st) amount of
        Some sim \<Rightarrow> Some (score_sim env amount sim, st)
      | None \<Rightarrow>
          (case route_cache_lookup env amount st of
             (Some cached, st) \<Rightarrow>
               let cached = with_route_gas (se_route_gas env) cached
               in Some (score_sim env amount cached, remember_sim amount cached st)
           | (None, st) \<Rightarrow>
               if amount \<ge> bs_first_infeasible st then Some (0, st)
               else do {
                 (result, cs) \<leftarrow> simulate_route_minimal_with_caps (se_arena env) (se_edges env) amount (se_caps env)
                    (bs_curve st);
                 let st = st\<lparr>bs_curve := cs\<rparr>;
                 case result of
                   Some sim \<Rightarrow> Some (evaluate_fresh env amount sim st)
                 | None \<Rightarrow> map_option (\<lambda>st. (0, st)) (evaluate_infeasible env amount st)
               }))"

text \<open>The seeds enter the local memo up to its size, with their gas resolved.\<close>

fun seed_sim_cache ::
    "RouteGasCosting option \<Rightarrow> (u256 \<times> MinimalSimResult) list \<Rightarrow> (u256 \<times> MinimalSimResult) list \<Rightarrow>
     (u256 \<times> MinimalSimResult) list" where
  "seed_sim_cache route_gas [] cache = cache"
| "seed_sim_cache route_gas ((amount, sim) # seeds) cache =
     (if length cache \<ge> BRENT_CACHE_SLOTS then cache
      else seed_sim_cache route_gas seeds (AList.update amount (with_route_gas route_gas sim) cache))"

definition readmit_seed :: "(u256 \<times> MinimalSimResult) list \<Rightarrow> u256 \<Rightarrow> u256 \<times> u256 \<Rightarrow> u256 \<times> u256" where
  "readmit_seed seeds economic_floor window =
     (let (low, high) = window;
          profitable = filter (\<lambda>(_, sim). ms_profit sim \<noteq> 0) seeds;
          any_in_window = list_ex (\<lambda>(amount, _). low \<le> amount \<and> amount \<le> high) profitable;
          best_below_low = fold (\<lambda>(amount, _) best.
              if amount < low \<and> amount \<ge> economic_floor \<and> amount > best then amount else best) profitable 0
      in if \<not> any_in_window \<and> best_below_low \<noteq> 0
         then (best_below_low, if high \<le> best_below_low then saturating_add best_below_low 1 else high)
         else window)"

text \<open>The arguments of the optimizer.\<close>

record 'score OptimizeArgs =
  oa_arena :: StateArena
  oa_cycle :: "'score FoundCycle"
  oa_rates :: "u32 \<Rightarrow> u256 option"
  oa_decimals :: "(address \<times> u8) list"
  oa_max_flash_loan_usd :: "u64 option"
  oa_matic_usd :: MaticUsd
  oa_max_iterations :: "u32 option"
  oa_liquidity_cap :: "u256 option"
  oa_fees :: FlashFees
  oa_profit_ctx :: ProfitEvalContext
  oa_seed_sims :: "(u256 \<times> MinimalSimResult) list option"
  oa_route_gas :: "RouteGasCosting option"
  oa_route_key :: "(u64 \<times> u64) option"
  oa_shard_order :: "sim_shard \<Rightarrow> sim_shard"
  oa_memo_order :: "(u256 \<times> MinimalSimResult) list \<Rightarrow> (u256 \<times> MinimalSimResult) list"

text \<open>What the calls leave behind: the shared cache, the sampling counter and the Curve counters.\<close>

record SharedSims =
  sh_route_cache :: RouteSimCache
  sh_sim_none_sample :: u32
  sh_curve :: CurveStats

definition start_token_decimals :: "'score OptimizeArgs \<Rightarrow> u8 option" where
  "start_token_decimals oa =
     (let token = fc_start_token (oa_cycle oa)
      in case explicit_decimals_for_index token (oa_arena oa) (map_of (oa_decimals oa)) of
           Some d \<Rightarrow> Some d
         | None \<Rightarrow> if oa_decimals oa = []
                   then Some (resolve_token_decimals_for_index token (oa_arena oa) (map_of (oa_decimals oa))) else None)"

text \<open>The window after the clamps, or \<open>None\<close> where the code gives up.\<close>

definition clamp_seeds :: "'score OptimizeArgs \<Rightarrow> u256 \<Rightarrow> u256 option \<Rightarrow> u256 \<times> u256 \<Rightarrow> u256 \<times> u256" where
  "clamp_seeds oa economic_floor flash_cap window =
     (case oa_seed_sims oa of
        None \<Rightarrow> window
      | Some seeds \<Rightarrow>
          (case clamp_brent_high_to_probe_seeds (snd window) (fst window) economic_floor flash_cap seeds
                  (Some (oa_profit_ctx oa)) of
             None \<Rightarrow> window
           | Some high \<Rightarrow> (fst window, high)))"

definition clamp_balancer ::
    "'score OptimizeArgs \<Rightarrow> u256 \<Rightarrow> u256 \<times> u256 \<Rightarrow> CurveStats \<Rightarrow> (u256 \<times> u256) option counted" where
  "clamp_balancer oa economic_floor window cs = do {
     (clamp, cs) \<leftarrow> balancer_max_in_high_clamp (oa_arena oa) (fc_edges (oa_cycle oa)) (fst window) (snd window)
        economic_floor cs;
     Some (case clamp of
         None \<Rightarrow> Some window
       | Some BalWindowInfeasible \<Rightarrow> None
       | Some (BalClamped low high) \<Rightarrow> if high \<le> low then None else Some (low, high), cs)
   }"

definition clamp_depth ::
    "'score OptimizeArgs \<Rightarrow> u256 \<Rightarrow> u256 list option \<Rightarrow> u256 \<times> u256 \<Rightarrow> CurveStats \<Rightarrow> (u256 \<times> u256) option counted" where
  "clamp_depth oa economic_floor caps window cs = do {
     (clamp, cs) \<leftarrow> clamp_brent_high_to_cl_feasible (oa_arena oa) (fc_edges (oa_cycle oa)) (fst window) (snd window)
        economic_floor caps cs;
     Some (case clamp of
         ClNoop \<Rightarrow> Some window
       | ClWindowInfeasible \<Rightarrow> None
       | ClClamped high \<Rightarrow> if high \<le> fst window then None else Some (fst window, high), cs)
   }"

definition warm_scores ::
    "'score OptimizeArgs \<Rightarrow> u256 \<times> u256 \<Rightarrow> (u256 \<times> MinimalSimResult) list \<Rightarrow> (u256 \<times> u256) list" where
  "warm_scores oa window memo =
     map (\<lambda>(amount, sim). (amount, brent_score_matic_from_sim (oa_fees oa) sim amount (oa_profit_ctx oa)))
       (filter (\<lambda>(amount, _). fst window \<le> amount \<and> amount \<le> snd window) (oa_memo_order oa memo))"

definition search_iterations :: "'score OptimizeArgs \<Rightarrow> u32" where
  "search_iterations oa =
     (let base_iters = or_default (oa_max_iterations oa) DEFAULT_BRENT_ITERATIONS
      in case oa_seed_sims oa of
           Some seeds \<Rightarrow> if list_all (\<lambda>(_, sim). ms_profit sim = 0) seeds then min base_iters 6 else base_iters
         | None \<Rightarrow> base_iters)"

text \<open>The simulation of the chosen size: from the memo, the shared cache or a new walk.\<close>

definition optimal_sim :: "SizeEnv \<Rightarrow> u256 \<Rightarrow> BrentState \<Rightarrow> (MinimalSimResult option \<times> BrentState) panics" where
  "optimal_sim env optimal st =
     (case map_of (bs_sim_cache st) optimal of
        Some cached \<Rightarrow> Some (Some cached, st)
      | None \<Rightarrow>
          (case route_cache_lookup env optimal st of
             (Some raw, st) \<Rightarrow> Some (Some (with_route_gas (se_route_gas env) raw), st)
           | (None, st) \<Rightarrow> do {
               (raw, cs) \<leftarrow> simulate_route_minimal_with_caps (se_arena env) (se_edges env) optimal (se_caps env) (bs_curve st);
               Some (map_option (with_route_gas (se_route_gas env)) raw, st\<lparr>bs_curve := cs\<rparr>)
             }))"

text \<open>The checks on the chosen size.\<close>

definition finish_search :: "SizeEnv \<Rightarrow> u256 \<Rightarrow> MinimalSimResult \<Rightarrow> OptimizationResult option" where
  "finish_search env optimal sim =
     (if ms_profit sim = 0 then None
      else if check_sim_sanity_for_dispatch (sanity_input env optimal sim) \<noteq> Inr () then None
      else Some \<lparr>or_optimal_input = optimal, or_expected_gross = ms_amount_out sim, or_net_profit = ms_profit sim,
                 or_total_gas = ms_total_gas sim,
                 or_search_low = (if check_sim_sanity (sanity_input env optimal sim) = Inr () then se_low env else 0)\<rparr>)"

definition search_window ::
    "'score OptimizeArgs \<Rightarrow> SizeEnv \<Rightarrow> SharedSims \<Rightarrow> (OptimizationResult option \<times> SharedSims) panics" where
  "search_window oa env sh =
     (let memo = (case oa_seed_sims oa of Some seeds \<Rightarrow> seed_sim_cache (oa_route_gas oa) seeds [] | None \<Rightarrow> []);
          window = (se_low env, se_high env);
          st = \<lparr>bs_sim_cache = memo, bs_first_infeasible = saturating_add (se_high env) 1,
                bs_route_cache = sh_route_cache sh, bs_sim_none_sample = sh_sim_none_sample sh, bs_curve = sh_curve sh\<rparr>
      in do {
           (optimal, st) \<leftarrow> solve_brent_optimal_warm (se_low env) (se_high env) (evaluate_size env)
              (search_iterations oa) (warm_scores oa window memo) st;
           (sim, st) \<leftarrow> (if optimal < se_economic_floor env then Some (None, st) else optimal_sim env optimal st);
           Some (Option.bind sim (finish_search env optimal),
                 \<lparr>sh_route_cache = bs_route_cache st, sh_sim_none_sample = bs_sim_none_sample st, sh_curve = bs_curve st\<rparr>)
         })"

text \<open>The window of a cycle whose concentrated hops have no ticks is cut at the probe.\<close>

definition clamp_tickless :: "u256 option \<Rightarrow> u256 \<times> u256 \<Rightarrow> (u256 \<times> u256) option" where
  "clamp_tickless tickless window =
     (case tickless of
        None \<Rightarrow> Some window
      | Some tickless_high \<Rightarrow>
          let high = min (snd window) tickless_high
          in if high \<le> fst window then None else Some (fst window, high))"

definition size_env :: "'score OptimizeArgs \<Rightarrow> u256 list option \<Rightarrow> u8 \<Rightarrow> u256 \<Rightarrow> u256 \<times> u256 \<Rightarrow> SizeEnv" where
  "size_env oa caps start_decimals start_rate window =
     \<lparr>se_arena = oa_arena oa, se_edges = fc_edges (oa_cycle oa), se_caps = caps,
      se_economic_floor = min_economic_amount_in start_decimals start_rate, se_low = fst window, se_high = snd window,
      se_decimals = start_decimals, se_rate = start_rate, se_fees = oa_fees oa, se_profit_ctx = oa_profit_ctx oa,
      se_route_gas = oa_route_gas oa, se_route_key = oa_route_key oa, se_shard_order = oa_shard_order oa\<rparr>"

definition clamp_and_search ::
    "'score OptimizeArgs \<Rightarrow> u256 list option \<Rightarrow> u8 \<Rightarrow> u256 \<Rightarrow> u256 option \<Rightarrow> u256 \<times> u256 \<Rightarrow> SharedSims \<Rightarrow>
     (OptimizationResult option \<times> SharedSims) panics" where
  "clamp_and_search oa caps start_decimals start_rate flash_cap window sh =
     (let economic_floor = min_economic_amount_in start_decimals start_rate;
          window = clamp_seeds oa economic_floor flash_cap window
      in do {
           (bal, cs) \<leftarrow> clamp_balancer oa economic_floor window (sh_curve sh);
           case bal of
             None \<Rightarrow> Some (None, sh\<lparr>sh_curve := cs\<rparr>)
           | Some window \<Rightarrow> do {
               (depth, cs) \<leftarrow> clamp_depth oa economic_floor caps window cs;
               case depth of
                 None \<Rightarrow> Some (None, sh\<lparr>sh_curve := cs\<rparr>)
               | Some window \<Rightarrow>
                   let window = readmit_seed (or_default (oa_seed_sims oa) []) economic_floor window
                   in search_window oa (size_env oa caps start_decimals start_rate window) (sh\<lparr>sh_curve := cs\<rparr>)
             }
         })"

definition optimize_cycle :: "'score OptimizeArgs \<Rightarrow> SharedSims \<Rightarrow> (OptimizationResult option \<times> SharedSims) panics" where
  "optimize_cycle oa sh =
     (case lookup_matic_rate (fc_start_token (oa_cycle oa)) (oa_rates oa) of
        None \<Rightarrow> Some (None, sh)
      | Some start_rate \<Rightarrow>
          if start_rate = 0 then Some (None, sh)
          else case start_token_decimals oa of
            None \<Rightarrow> Some (None, sh)
          | Some start_decimals \<Rightarrow>
              (case compute_ternary_search_bounds (oa_cycle oa) (oa_arena oa) (oa_rates oa) (oa_decimals oa) start_rate
                      start_decimals (or_default (oa_max_flash_loan_usd oa) DEFAULT_MAX_FLASH_LOAN_USD)
                      (oa_matic_usd oa) (oa_liquidity_cap oa) of
                 None \<Rightarrow> Some (None, sh)
               | Some bounds \<Rightarrow> do {
                   caps \<leftarrow> precompute_route_shallow_caps (oa_arena oa) (fc_edges (oa_cycle oa));
                   let tickless = tickless_cl_start_input_cap (oa_arena oa) (fc_start_token (oa_cycle oa)) (fc_edges (oa_cycle oa));
                   let economic_floor = min_economic_amount_in start_decimals start_rate;
                   if tickless = Some 0 then Some (None, sh)
                   else (case tickless of
                       Some tickless_high \<Rightarrow>
                         if economic_floor > tickless_high
                         then map_option (\<lambda>(r, cs). (r, sh\<lparr>sh_curve := cs\<rparr>))
                                (optimize_at_amount_cap (oa_arena oa) (fc_edges (oa_cycle oa)) tickless_high tickless_high
                                   start_decimals start_rate caps (sh_curve sh))
                         else (case clamp_tickless tickless (tb_low bounds, tb_high bounds) of
                                 None \<Rightarrow> Some (None, sh)
                               | Some window \<Rightarrow>
                                   clamp_and_search oa caps start_decimals start_rate (tb_flash_cap bounds) window sh)
                     | None \<Rightarrow> clamp_and_search oa caps start_decimals start_rate (tb_flash_cap bounds)
                                (tb_low bounds, tb_high bounds) sh)
                 }))"

section \<open>The result is a simulated trade\<close>

text \<open>A memo entry has the amounts of a simulation of the route at its size.\<close>

definition true_sim :: "StateArena \<Rightarrow> Edge list \<Rightarrow> u256 list option \<Rightarrow> u256 \<Rightarrow> MinimalSimResult \<Rightarrow> bool" where
  "true_sim arena edges caps amount sim \<longleftrightarrow>
     (\<exists>cs cs' sim'. simulate_route_minimal_with_caps arena edges amount caps cs = Some (Some sim', cs') \<and>
        ms_profit sim = ms_profit sim' \<and> ms_amount_out sim = ms_amount_out sim')"

lemma true_sim_gas [simp]: "true_sim arena edges caps amount (with_route_gas gas sim) \<longleftrightarrow> true_sim arena edges caps amount sim"
  by (simp add: true_sim_def with_route_gas_def split: option.splits)

lemma true_simI:
  "simulate_route_minimal_with_caps arena edges amount caps cs = Some (Some sim, cs') \<Longrightarrow> true_sim arena edges caps amount sim"
  by (auto simp: true_sim_def)

text \<open>The local memo and the entries of the shared cache for this revision of the route hold simulations.\<close>

definition route_cache_true :: "StateArena \<Rightarrow> Edge list \<Rightarrow> u256 list option \<Rightarrow> (u64 \<times> u64) option \<Rightarrow> RouteSimCache \<Rightarrow> bool" where
  "route_cache_true arena edges caps key cache \<longleftrightarrow>
     sim_cache_ok cache \<and>
     (\<forall>revision fp fp' amount sim. key = Some (revision, fp) \<longrightarrow>
        cached_sim cache fp' (route_sim_key revision edges amount) = Some sim \<longrightarrow> true_sim arena edges caps amount sim)"

definition sims_true :: "SizeEnv \<Rightarrow> BrentState \<Rightarrow> bool" where
  "sims_true env st \<longleftrightarrow>
     enumerates (se_shard_order env) \<and>
     (\<forall>amount sim. map_of (bs_sim_cache st) amount = Some sim \<longrightarrow>
        true_sim (se_arena env) (se_edges env) (se_caps env) amount sim) \<and>
     route_cache_true (se_arena env) (se_edges env) (se_caps env) (se_route_key env) (bs_route_cache st)"

lemma sims_true_frame [simp]:
  "sims_true env (st\<lparr>bs_curve := cs\<rparr>) = sims_true env st"
  "sims_true env (st\<lparr>bs_first_infeasible := x\<rparr>) = sims_true env st"
  "sims_true env (st\<lparr>bs_sim_none_sample := n\<rparr>) = sims_true env st"
  by (simp_all add: sims_true_def)

lemma sims_true_remember:
  "sims_true env st \<Longrightarrow> true_sim (se_arena env) (se_edges env) (se_caps env) amount sim \<Longrightarrow>
     sims_true env (remember_sim amount sim st)"
  by (auto simp: sims_true_def remember_sim_def AList.update_conv)

lemma route_key_eq [simp]:
  "route_sim_key r e a = route_sim_key r' e' a' \<longleftrightarrow> r = r' \<and> e = e' \<and> a = a'"
  by (auto simp: route_sim_key_def)

lemma sims_true_store:
  assumes "sims_true env st" "true_sim (se_arena env) (se_edges env) (se_caps env) amount sim"
  shows "sims_true env (route_cache_store env amount sim st)"
proof (cases "se_route_key env")
  case (Some key)
  obtain revision fp where key: "key = (revision, fp)"
    by (cases key)
  have ok: "sim_cache_ok (bs_route_cache st)" "enumerates (se_shard_order env)"
    using assms(1) by (auto simp: sims_true_def route_cache_true_def)
  show ?thesis
    using assms insert_keeps_bounds [OF ok] cached_after_insert(2) [OF ok]
    by (fastforce simp: sims_true_def route_cache_true_def route_cache_store_def Some key)
qed (use assms(1) in \<open>simp add: route_cache_store_def\<close>)

lemma sims_true_lookup:
  assumes "route_cache_lookup env amount st = (hit, st')" "sims_true env st"
  shows "sims_true env st'"
    and "hit = Some sim \<Longrightarrow> true_sim (se_arena env) (se_edges env) (se_caps env) amount sim"
proof -
  show "sims_true env st'"
    using assms
    by (auto simp: route_cache_lookup_def sims_true_def route_cache_true_def split: option.splits prod.splits)
       (metis get_frame(2) snd_conv, metis get_frame(3) snd_conv)
  show "true_sim (se_arena env) (se_edges env) (se_caps env) amount sim" if "hit = Some sim"
  proof (cases "se_route_key env")
    case (Some key)
    then show ?thesis
      using assms that
      by (auto simp: route_cache_lookup_def sims_true_def route_cache_true_def split: prod.splits)
         (metis fst_conv get_returns)
  qed (use assms that in \<open>simp add: route_cache_lookup_def\<close>)
qed

lemma sims_true_evaluate:
  assumes "evaluate_size env amount st = Some (v, st')" "sims_true env st"
  shows "sims_true env st'"
proof -
  obtain hit st1 where lookup: "route_cache_lookup env amount st = (hit, st1)"
    by fastforce
  note looked = sims_true_lookup [OF lookup assms(2)]
  have fresh: "sims_true env st2"
    if "simulate_route_minimal_with_caps (se_arena env) (se_edges env) amount (se_caps env) cs = Some (Some sim, cs')"
      "evaluate_fresh env amount sim (st1\<lparr>bs_curve := cs'\<rparr>) = (w, st2)" for sim cs cs' w st2
    using that looked(1) true_simI [OF that(1)]
    by (auto simp: evaluate_fresh_def Let_def intro!: sims_true_remember sims_true_store)
  have wall: "sims_true env st2"
    if "evaluate_infeasible env amount (st1\<lparr>bs_curve := cs'\<rparr>) = Some st2" for cs' st2
    using that looked(1)
    by (auto simp: evaluate_infeasible_def should_sample_brent_sim_none_def Let_def bind_eq_Some_conv split: if_splits)
  show ?thesis
    using assms looked lookup
    by (auto simp: evaluate_size_def bind_eq_Some_conv Let_def split: if_splits option.splits
        intro: fresh wall sims_true_remember)
qed

interpretation sized: kept_by_evaluation "evaluate_size env" "sims_true env" for env
  by unfold_locales (rule sims_true_evaluate)

text \<open>What is promised of a result: it is a simulation of the route that passes the sanity check.\<close>

definition size_result_ok :: "StateArena \<Rightarrow> Edge list \<Rightarrow> u256 list option \<Rightarrow> u8 \<Rightarrow> u256 \<Rightarrow> OptimizationResult \<Rightarrow> bool" where
  "size_result_ok arena edges caps decimals rate r \<longleftrightarrow>
     (\<exists>cs cs' sim. simulate_route_minimal_with_caps arena edges (or_optimal_input r) caps cs = Some (Some sim, cs') \<and>
        or_expected_gross r = ms_amount_out sim \<and> or_net_profit r = ms_profit sim) \<and>
     unat (or_expected_gross r) = unat (or_optimal_input r) + unat (or_net_profit r) \<and>
     0 < unat (or_net_profit r) \<and>
     check_sim_sanity \<lparr>ss_amount_in = or_optimal_input r, ss_gross_profit = or_net_profit r,
       ss_search_low = or_search_low r, ss_token_decimals = decimals, ss_token_to_matic_rate = rate\<rparr> = Inr ()"

lemma minimal_profit:
  assumes "simulate_route_minimal_with_caps arena edges amount caps cs = Some (Some sim, cs')" "ms_profit sim \<noteq> 0"
  shows "unat (ms_amount_out sim) = unat amount + unat (ms_profit sim)"
proof -
  have "ms_profit sim = saturating_sub (ms_amount_out sim) amount"
    using assms by (auto simp: simulate_route_minimal_with_caps_def bind_eq_Some_conv split: if_splits option.splits)
  then show ?thesis
    using unat_ne_0 [OF assms(2)] unat_saturating_sub [of "ms_amount_out sim" amount] by simp
qed

lemma dispatch_sane:
  "check_sim_sanity_for_dispatch inp = Inr () \<Longrightarrow>
     check_sim_sanity inp = Inr () \<or> check_sim_sanity (inp\<lparr>ss_search_low := 0\<rparr>) = Inr ()"
  by (simp add: check_sim_sanity_for_dispatch_def split: sum.splits SimSanityReject.splits)

lemma finish_search_ok:
  assumes "finish_search env optimal sim = Some r"
    and "true_sim (se_arena env) (se_edges env) (se_caps env) optimal sim"
  shows "size_result_ok (se_arena env) (se_edges env) (se_caps env) (se_decimals env) (se_rate env) r"
proof -
  have nz: "ms_profit sim \<noteq> 0"
    and sane: "check_sim_sanity_for_dispatch (sanity_input env optimal sim) = Inr ()"
    and r: "r = \<lparr>or_optimal_input = optimal, or_expected_gross = ms_amount_out sim, or_net_profit = ms_profit sim,
       or_total_gas = ms_total_gas sim,
       or_search_low = (if check_sim_sanity (sanity_input env optimal sim) = Inr () then se_low env else 0)\<rparr>"
    using assms(1) by (auto simp: finish_search_def split: if_splits)
  obtain cs cs' sim' where s: "simulate_route_minimal_with_caps (se_arena env) (se_edges env) optimal (se_caps env) cs =
      Some (Some sim', cs')" "ms_profit sim = ms_profit sim'" "ms_amount_out sim = ms_amount_out sim'"
    using assms(2) by (auto simp: true_sim_def)
  have "check_sim_sanity ((sanity_input env optimal sim)\<lparr>ss_search_low := or_search_low r\<rparr>) = Inr ()"
    using dispatch_sane [OF sane] by (auto simp: r sanity_input_def)
  moreover have "unat (ms_amount_out sim) = unat optimal + unat (ms_profit sim)"
    using minimal_profit [OF s(1)] s(2,3) nz by simp
  ultimately show ?thesis
    using s nz by (auto simp: size_result_ok_def r sanity_input_def unat_ne_0 split: if_splits)
qed

lemma optimal_sim_true:
  assumes "optimal_sim env optimal st = Some (Some sim, st')" "sims_true env st"
  shows "true_sim (se_arena env) (se_edges env) (se_caps env) optimal sim"
proof (cases "map_of (bs_sim_cache st) optimal")
  case (Some cached)
  then show ?thesis
    using assms by (auto simp: optimal_sim_def sims_true_def)
next
  case None
  obtain hit st1 where lookup: "route_cache_lookup env optimal st = (hit, st1)"
    by fastforce
  show ?thesis
    using assms None lookup sims_true_lookup(2) [OF lookup assms(2)]
    by (auto simp: optimal_sim_def bind_eq_Some_conv split: option.splits dest: true_simI)
qed

lemma seed_sim_cache_true:
  assumes "\<forall>(amount, sim) \<in> set seeds. true_sim arena edges caps amount sim"
    and "\<forall>amount sim. map_of cache amount = Some sim \<longrightarrow> true_sim arena edges caps amount sim"
    and "map_of (seed_sim_cache gas seeds cache) amount = Some sim"
  shows "true_sim arena edges caps amount sim"
  using assms
proof (induction gas seeds cache rule: seed_sim_cache.induct)
  case (2 gas a s seeds cache)
  then show ?case
    by (cases "BRENT_CACHE_SLOTS \<le> length cache") (auto simp: AList.update_conv)
qed simp

text \<open>What the caller answers for: the seeds and the entries of the shared cache are simulations of this arena.\<close>

definition sources_true :: "'score OptimizeArgs \<Rightarrow> SharedSims \<Rightarrow> u256 list option \<Rightarrow> bool" where
  "sources_true oa sh caps \<longleftrightarrow>
     enumerates (oa_shard_order oa) \<and>
     (\<forall>(amount, sim) \<in> set (or_default (oa_seed_sims oa) []).
        true_sim (oa_arena oa) (fc_edges (oa_cycle oa)) caps amount sim) \<and>
     route_cache_true (oa_arena oa) (fc_edges (oa_cycle oa)) caps (oa_route_key oa) (sh_route_cache sh)"

lemma search_window_ok:
  assumes "search_window oa (size_env oa caps d rate window) sh = Some (Some r, sh')" "sources_true oa sh caps"
  shows "size_result_ok (oa_arena oa) (fc_edges (oa_cycle oa)) caps d rate r"
proof -
  let ?env = "size_env oa caps d rate window"
  let ?memo = "case oa_seed_sims oa of Some seeds \<Rightarrow> seed_sim_cache (oa_route_gas oa) seeds [] | None \<Rightarrow> []"
  let ?st = "\<lparr>bs_sim_cache = ?memo, bs_first_infeasible = saturating_add (se_high ?env) 1,
      bs_route_cache = sh_route_cache sh, bs_sim_none_sample = sh_sim_none_sample sh, bs_curve = sh_curve sh\<rparr>"
  obtain optimal st1 sim st2
    where solve: "solve_brent_optimal_warm (se_low ?env) (se_high ?env) (evaluate_size ?env) (search_iterations oa)
        (warm_scores oa (se_low ?env, se_high ?env) ?memo) ?st = Some (optimal, st1)"
      and sim: "optimal_sim ?env optimal st1 = Some (Some sim, st2)"
      and fin: "finish_search ?env optimal sim = Some r"
    using assms(1) by (auto simp: search_window_def Let_def bind_eq_Some_conv split: if_splits)
  have "true_sim (oa_arena oa) (fc_edges (oa_cycle oa)) caps a s" if "map_of ?memo a = Some s" for a s
  proof (cases "oa_seed_sims oa")
    case (Some seeds)
    then have "\<forall>(amount, sim) \<in> set seeds. true_sim (oa_arena oa) (fc_edges (oa_cycle oa)) caps amount sim"
      using assms(2) by (simp add: sources_true_def or_default_def)
    then show ?thesis
      by (rule seed_sim_cache_true) (use that Some in auto)
  qed (use that in simp)
  then have "sims_true ?env ?st"
    using assms(2) by (auto simp: sims_true_def sources_true_def size_env_def)
  then have "sims_true ?env st1"
    by (rule sized.size_search_keeps [OF solve])
  from finish_search_ok [OF fin optimal_sim_true [OF sim this]] show ?thesis
    by (simp add: size_env_def)
qed

lemma amount_cap_ok:
  assumes "optimize_at_amount_cap arena edges amount amount d rate caps cs = Some (Some r, cs')"
  shows "size_result_ok arena edges caps d rate r"
proof -
  obtain sim where sim: "simulate_route_minimal_with_caps arena edges amount caps cs = Some (Some sim, cs')"
    and nz: "ms_profit sim \<noteq> 0"
    and r: "r = \<lparr>or_optimal_input = amount, or_expected_gross = ms_amount_out sim, or_net_profit = ms_profit sim,
       or_total_gas = ms_total_gas sim, or_search_low = amount\<rparr>"
    and sane: "check_sim_sanity \<lparr>ss_amount_in = amount, ss_gross_profit = ms_profit sim, ss_search_low = amount,
       ss_token_decimals = d, ss_token_to_matic_rate = rate\<rparr> = Inr ()"
    using assms by (auto simp: optimize_at_amount_cap_def bind_eq_Some_conv split: option.splits if_splits)
  then show ?thesis
    using minimal_profit [OF sim nz] by (auto simp: size_result_ok_def unat_ne_0)
qed

lemma clamp_and_search_ok:
  assumes "clamp_and_search oa caps d rate cap window sh = Some (Some r, sh')" "sources_true oa sh caps"
  shows "size_result_ok (oa_arena oa) (fc_edges (oa_cycle oa)) caps d rate r"
proof -
  have ok: "size_result_ok (oa_arena oa) (fc_edges (oa_cycle oa)) caps d rate r"
    if "search_window oa (size_env oa caps d rate window') (sh\<lparr>sh_curve := cs\<rparr>) = Some (Some r, sh')" for window' cs
    using search_window_ok [OF that] assms(2) by (simp add: sources_true_def)
  show ?thesis
    using assms(1) by (auto simp: clamp_and_search_def Let_def bind_eq_Some_conv split: option.splits dest: ok)
qed

section \<open>Properties\<close>

text \<open>
  Property C14. What the optimizer returns is a trade it simulated: the output and the profit it reports are those of
  a simulation of the route at the size it reports, the profit is positive and exactly the difference of output
  and input, and the trade passes the sanity check with the lower bound it reports, so that the later checks with
  that bound agree. This holds for every window, every mix of memo, shared cache and new simulations and every
  iteration order of the hash maps, as long as seeds and cache entries are themselves simulations of the arena.
\<close>

theorem optimized_size_is_simulated:
  assumes "optimize_cycle oa sh = Some (Some r, sh')"
    and "precompute_route_shallow_caps (oa_arena oa) (fc_edges (oa_cycle oa)) = Some caps"
    and "sources_true oa sh caps"
  shows "\<exists>rate d. lookup_matic_rate (fc_start_token (oa_cycle oa)) (oa_rates oa) = Some rate \<and>
           start_token_decimals oa = Some d \<and>
           size_result_ok (oa_arena oa) (fc_edges (oa_cycle oa)) caps d rate r"
  using assms
  by (auto simp: optimize_cycle_def bind_eq_Some_conv Let_def split: option.splits if_splits
      dest: amount_cap_ok clamp_and_search_ok)

section \<open>A cycle sized above the loan cap\<close>

text \<open>A window of two neighbouring sizes: the search looks at both and returns one.\<close>

lemma cached_evaluate_kept:
  assumes "\<And>t. P t \<Longrightarrow> \<exists>v t'. ev amount t = Some (v, t') \<and> P t'" "P (snd memo)"
  obtains v memo' where "cached_evaluate ev amount memo = Some (v, memo')" "P (snd memo')"
proof (cases "brent_cache_find amount (fst memo)")
  case None
  obtain v t' where "ev amount (snd memo) = Some (v, t')" "P t'"
    using assms by blast
  with None show ?thesis
    by (intro that) (auto simp: cached_evaluate_def)
qed (use assms(2) in \<open>auto intro!: that simp: cached_evaluate_def\<close>)

lemma search_two_sizes:
  assumes ev: "\<And>a t. a \<in> {low, low + 1} \<Longrightarrow> P t \<Longrightarrow> \<exists>v t'. ev a t = Some (v, t') \<and> P t'"
    and "low < low + 1" "P s"
  obtains x s' where "solve_brent_optimal_warm low (low + 1) ev n [] s = Some (x, s')" "x \<in> {low, low + 1}" "P s'"
proof -
  have points: "initial_points low (low + 1) [] = (low, low + 1)"
    by (simp add: initial_points_def max_by_score_def golden_def GOLDEN_RATIO_def)
  have narrow: "golden_loop ev [] k g = Some g" if "gs_a g = low" "gs_b g = low + 1" for k and g :: "'a GoldenState"
    using that assms(2) by (cases k) (simp_all add: saturating_sub_def CONVERGENCE_DIVISOR_def)
  obtain v1 m1 where e1: "cached_evaluate ev low (seed_brent_cache low (low + 1) [], s) = Some (v1, m1)" and "P (snd m1)"
    by (rule cached_evaluate_kept [of P ev low]) (use ev assms(3) in auto)
  obtain v2 m2 where e2: "cached_evaluate ev (low + 1) m1 = Some (v2, m2)" and "P (snd m2)"
    by (rule cached_evaluate_kept [of P ev "low + 1" m1]) (use ev \<open>P (snd m1)\<close> in auto)
  obtain v3 m3 where e3: "cached_evaluate ev low m2 = Some (v3, m3)" and "P (snd m3)"
    by (rule cached_evaluate_kept [of P ev low m2]) (use ev \<open>P (snd m2)\<close> in auto)
  obtain v4 m4 where e4: "cached_evaluate ev (low + 1) m3 = Some (v4, m4)" and "P (snd m4)"
    by (rule cached_evaluate_kept [of P ev "low + 1" m3]) (use ev \<open>P (snd m3)\<close> in auto)
  define best where "best = fold better [(low, v1), (low + 1, v2), (low + 1, v4)] (low, v3)"
  have "\<not> low + 1 \<le> low"
    using assms(2) by simp
  then have "solve_brent_optimal_warm low (low + 1) ev n [] s = Some (fst best, snd m4)"
    by (simp add: solve_brent_optimal_warm_def solve_brent_scored_def points narrow best_of_search_def Let_def
        e1 e2 e3 e4 best_def)
  moreover have "fst best \<in> {low, low + 1}"
    using fold_better [of "[(low, v1), (low + 1, v2), (low + 1, v4)]" "(low, v3)"] unfolding best_def by auto
  ultimately show ?thesis
    using that \<open>P (snd m4)\<close> by blast
qed

text \<open>
  The optimizer on such a window, when the route simulates at both sizes and no shared cache is used: it finishes
  with one of the two simulations.
\<close>

definition two_sims :: "SizeEnv \<Rightarrow> (u256 \<Rightarrow> MinimalSimResult) \<Rightarrow> BrentState \<Rightarrow> bool" where
  "two_sims env res st \<longleftrightarrow>
     (\<forall>amount sim. map_of (bs_sim_cache st) amount = Some sim \<longrightarrow> sim = with_route_gas (se_route_gas env) (res amount)) \<and>
     bs_first_infeasible st = se_low env + 2"

lemma two_sizes_evaluate:
  assumes env: "se_route_key env = None" "\<not> amount < se_economic_floor env" "\<not> amount \<ge> se_low env + 2"
    and sim: "\<And>cs. simulate_route_minimal_with_caps (se_arena env) (se_edges env) amount (se_caps env) cs = Some (Some (res amount), cs)"
    and "two_sims env res st"
  shows "\<exists>v st'. evaluate_size env amount st = Some (v, st') \<and> two_sims env res st'"
    and "\<exists>st'. optimal_sim env amount st = Some (Some (with_route_gas (se_route_gas env) (res amount)), st')"
proof -
  have lookup: "route_cache_lookup env amount st = (None, st)"
    using env(1) by (simp add: route_cache_lookup_def)
  show "\<exists>v st'. evaluate_size env amount st = Some (v, st') \<and> two_sims env res st'"
  proof (cases "map_of (bs_sim_cache st) amount")
    case None
    have "evaluate_size env amount st = Some (evaluate_fresh env amount (res amount) st)"
      using None env assms(5) by (simp add: evaluate_size_def lookup sim two_sims_def)
    moreover have "two_sims env res (snd (evaluate_fresh env amount (res amount) st))"
      using assms(5) env(1)
      by (simp add: evaluate_fresh_def route_cache_store_def two_sims_def remember_sim_def AList.update_conv Let_def)
    ultimately show ?thesis
      by (metis prod.collapse)
  qed (use assms in \<open>simp add: evaluate_size_def\<close>)
  show "\<exists>st'. optimal_sim env amount st = Some (Some (with_route_gas (se_route_gas env) (res amount)), st')"
    using assms(5) by (cases "map_of (bs_sim_cache st) amount") (auto simp: optimal_sim_def lookup sim two_sims_def)
qed

lemma two_size_window:
  assumes oa: "oa_seed_sims oa = None" "oa_memo_order oa = (\<lambda>memo. memo)"
    and env: "se_route_key env = None" "se_high env = se_low env + 1" "se_low env < se_low env + 1"
      "se_low env + 1 < se_low env + 2" "se_economic_floor env \<le> se_low env"
    and sim: "\<And>amount cs. amount \<in> {se_low env, se_low env + 1} \<Longrightarrow>
      simulate_route_minimal_with_caps (se_arena env) (se_edges env) amount (se_caps env) cs = Some (Some (res amount), cs)"
  obtains x sh' where "x \<in> {se_low env, se_low env + 1}"
    "search_window oa env sh = Some (finish_search env x (with_route_gas (se_route_gas env) (res x)), sh')"
proof -
  let ?st = "\<lparr>bs_sim_cache = [], bs_first_infeasible = se_low env + 2, bs_route_cache = sh_route_cache sh,
    bs_sim_none_sample = sh_sim_none_sample sh, bs_curve = sh_curve sh\<rparr>"
  have size: "\<not> amount < se_economic_floor env" "\<not> amount \<ge> se_low env + 2" if "amount \<in> {se_low env, se_low env + 1}" for amount
    using that env(3-5) by auto
  have evaluates: "\<exists>v st'. evaluate_size env amount st = Some (v, st') \<and> two_sims env res st'"
    "\<exists>st'. optimal_sim env amount st = Some (Some (with_route_gas (se_route_gas env) (res amount)), st')"
    if "amount \<in> {se_low env, se_low env + 1}" "two_sims env res st" for amount st
    using two_sizes_evaluate [of env amount res st, OF env(1) size [OF that(1)] _ that(2)] sim [OF that(1)] by blast+
  obtain x st where solve: "solve_brent_optimal_warm (se_low env) (se_low env + 1) (evaluate_size env)
      (search_iterations oa) [] ?st = Some (x, st)"
    and x: "x \<in> {se_low env, se_low env + 1}" and "two_sims env res st"
    by (rule search_two_sizes [where P = "two_sims env res" and low = "se_low env" and ev = "evaluate_size env"])
       (use env(3) evaluates(1) in \<open>auto simp: two_sims_def\<close>)
  then obtain st' where opt: "optimal_sim env x st = Some (Some (with_route_gas (se_route_gas env) (res x)), st')"
    using evaluates(2) by blast
  have wall: "saturating_add (se_low env + 1) 1 = se_low env + 2"
  proof -
    have next2: "1 + (se_low env + 1) = se_low env + 2"
      by simp
    have "1 + (se_low env + 1) \<noteq> 0"
      using env(4) unfolding next2 by (metis word_not_simps(1))
    then have "Suc (unat (se_low env + 1)) < 2 ^ 256"
      using unatSuc [of "se_low env + 1"] unat_lt_256 [of "1 + (se_low env + 1)"] by simp
    then show ?thesis
      by (simp add: saturating_add_def)
  qed
  have "\<not> x < se_economic_floor env"
    by (rule size(1) [OF x])
  with solve opt have "\<exists>sh'. search_window oa env sh =
      Some (finish_search env x (with_route_gas (se_route_gas env) (res x)), sh')"
    by (simp add: search_window_def oa env(2) warm_scores_def wall Let_def)
  with x that show ?thesis
    by blast
qed

text \<open>
  Two pairs with prices that differ by a fifth, with ten and twelve thousand of the start token, which has
  eighteen decimals and is worth one MATIC, or one dollar. The loan cap is one dollar.
\<close>

definition sample_deep_arena :: StateArena where
  "sample_deep_arena = sample_pairs_arena\<lparr>ar_pools :=
     [PV2 (sample_pair 10000000000000000000000 20000000000000000000000),
      PV2 (sample_pair 12000000000000000000000 20000000000000000000000)]\<rparr>"

definition sample_cycle :: "nat FoundCycle" where
  "sample_cycle = \<lparr>fc_start_token = 0, fc_edges = sample_route, fc_hop_count = 2, fc_log_weight = 0,
     fc_cumulative_fee_bps = 60, fc_score = 0, fc_cycle_ratio = 0\<rparr>"

definition one_dollar :: MaticUsd where
  "one_dollar = \<lparr>mu_chainlink = Some 100000000, mu_floor_micros = None, mu_round_micros = None\<rparr>"

definition sample_optimize_args :: "nat OptimizeArgs" where
  "sample_optimize_args = \<lparr>oa_arena = sample_deep_arena, oa_cycle = sample_cycle,
     oa_rates = [0 \<mapsto> 1000000000000000000],
     oa_decimals = [(10, 18), (20, 18)], oa_max_flash_loan_usd = Some 1, oa_matic_usd = one_dollar,
     oa_max_iterations = None, oa_liquidity_cap = None, oa_fees = initial_flash_fees,
     oa_profit_ctx = sample_probe_context\<lparr>pc_token_to_matic_rate := 1000000000000000000\<rparr>, oa_seed_sims = None,
     oa_route_gas = None, oa_route_key = None, oa_shard_order = (\<lambda>entries. entries), oa_memo_order = (\<lambda>memo. memo)\<rparr>"

definition sample_shared :: SharedSims where
  "sample_shared = \<lparr>sh_route_cache = new_route_sim_cache, sh_sim_none_sample = 0, sh_curve = no_stats\<rparr>"

lemma deep_walk_edges:
  "walk_edge sample_deep_arena sample_v2_edge =
     Some (PV2 (sample_pair 10000000000000000000000 20000000000000000000000), sample_v2_edge)"
  "walk_edge sample_deep_arena sample_back_edge =
     Some (PV2 (sample_pair 12000000000000000000000 20000000000000000000000), sample_back_edge)"
  by (simp_all add: walk_edge_def sample_back_edge_def sample_v2_edge_def sample_deep_arena_def sample_pairs_arena_def
      pool_state_def nth_opt_def sample_pair_def V2_MIN_RESERVE_def multi_token_protocol_def)

lemma deep_hops:
  "simulate_hop (PV2 (sample_pair 10000000000000000000000 20000000000000000000000)) sample_v2_edge 2000000000000000000 (- 1) cs =
     Some (hop_ok 3987204951332704258 GAS_V2_HOP, cs)"
  "simulate_hop (PV2 (sample_pair 10000000000000000000000 20000000000000000000000)) sample_v2_edge 2000000000000000001 (- 1) cs =
     Some (hop_ok 3987204951332704260 GAS_V2_HOP, cs)"
  "simulate_hop (PV2 (sample_pair 12000000000000000000000 20000000000000000000000)) sample_back_edge 3987204951332704258 (- 1) cs =
     Some (hop_ok 2384672019309501321 GAS_V2_HOP, cs)"
  "simulate_hop (PV2 (sample_pair 12000000000000000000000 20000000000000000000000)) sample_back_edge 3987204951332704260 (- 1) cs =
     Some (hop_ok 2384672019309501322 GAS_V2_HOP, cs)"
  by (simp_all add: simulate_hop_def sample_back_edge_def sample_v2_edge_def sample_pair_def v2_reserve_in_def
      simulate_v2_swap_def resolve_v2_fee_with_edge_def get_amount_out_def fits_u128_def Let_def cl_protocol_def pdiv_def)

definition deep_sim :: "u256 \<Rightarrow> MinimalSimResult" where
  "deep_sim amount_out = \<lparr>ms_profit = 384672019309501321, ms_amount_out = amount_out,
     ms_total_gas = finalize_route_total_gas sample_route 170000\<rparr>"

lemma deep_sims:
  "simulate_route_minimal_with_caps sample_deep_arena sample_route 2000000000000000000 None cs =
     Some (Some (deep_sim 2384672019309501321), cs)"
  "simulate_route_minimal_with_caps sample_deep_arena sample_route 2000000000000000001 None cs =
     Some (Some (deep_sim 2384672019309501322), cs)"
proof -
  have route: "sample_route = [sample_v2_edge, sample_back_edge]" by (simp add: sample_route_def)
  have cap: "nth_opt uncapped 0 = Some (- 1)" "nth_opt uncapped (Suc 0) = Some (- 1)"
    by (simp_all add: uncapped_def nth_opt_def HOP_CAP_def)
  have len: "\<not> length sample_route > HOP_CAP" by (simp add: sample_route_def HOP_CAP_def)
  have ok: "route_edges_simulatable sample_deep_arena sample_route"
    by (simp add: route_edges_simulatable_def sample_route_def sample_back_edge_def sample_v2_edge_def
        sample_deep_arena_def sample_pairs_arena_def HOP_CAP_def hops_chain_def token_address_def nth_opt_def)
  have caps: "effective_caps sample_deep_arena sample_route None = Some uncapped"
    by (simp add: effective_caps_def route_has_cl_hop_def sample_route_def sample_back_edge_def sample_v2_edge_def
        cl_protocol_def)
  have "walk_loop sample_deep_arena uncapped 0 sample_route 2000000000000000000 0 None cs =
      Some (Some (2384672019309501321, 170000, None), cs)"
    "walk_loop sample_deep_arena uncapped 0 sample_route 2000000000000000001 0 None cs =
      Some (Some (2384672019309501322, 170000, None), cs)"
    unfolding route
    by (simp_all add: deep_walk_edges cap deep_hops hop_ok_def store_amount_def GAS_V2_HOP_def)
  then show
    "simulate_route_minimal_with_caps sample_deep_arena sample_route 2000000000000000000 None cs =
       Some (Some (deep_sim 2384672019309501321), cs)"
    "simulate_route_minimal_with_caps sample_deep_arena sample_route 2000000000000000001 None cs =
       Some (Some (deep_sim 2384672019309501322), cs)"
    using len caps ok
    by (simp_all add: simulate_route_minimal_with_caps_def walk_route_hops_def store_amount_def saturating_sub_def
        deep_sim_def)
qed

text \<open>The window of the sample, and the steps of the optimizer up to the search.\<close>

lemma deep_capacities:
  "hop_capacity sample_deep_arena sample_v2_edge = Some 10000000000000000000000"
  "hop_capacity sample_deep_arena sample_back_edge = Some 20000000000000000000000"
  by (simp_all add: hop_capacity_def sample_deep_arena_def sample_pairs_arena_def sample_back_edge_def sample_v2_edge_def
      pool_state_def nth_opt_def sample_pair_def cap_or_default_def)

lemma deep_floor: "min_economic_amount_in 18 1000000000000000000 = 100000000000000000"
  by (simp add: min_economic_amount_in_def MAX_SUPPORTED_TOKEN_DECIMALS_def ten_pow_u256_cached_eq
      MIN_ECONOMIC_VALUE_MATIC_WEI_def checked_mul_def Let_def)

lemma deep_cap:
  "cap_wei \<lparr>fb_max_flash_loan_usd = 1, fb_token_decimals = 18, fb_token_to_matic_rate = 1000000000000000000,
     fb_matic_usd = one_dollar\<rparr> = Some 1000000000000000000"
  by code_simp

lemma deep_window:
  "floor_window 100000000000000000 (Some 1000000000000000000)
     (cap_window None (capacity_window 10000000000000000000000 18 1000000000000000000 (Some 1000000000000000000))) =
     (2000000000000000000, 2000000000000000001)"
  by (simp add: floor_window_def cap_window_def capacity_window_def deep_floor Let_def)

lemma deep_bottleneck:
  "bottleneck (hop_capacity sample_deep_arena)
     (convert_capacity [0 \<mapsto> 1000000000000000000] sample_deep_arena [(10, 18), (20, 18)] 1000000000000000000 18) 0
     sample_route (- 1, True, False) = Some (10000000000000000000000, False, True)"
proof -
  have "e_token_in sample_v2_edge = 0" "e_token_in sample_back_edge = 1"
    by (simp_all add: sample_back_edge_def sample_v2_edge_def)
  then show ?thesis
    by (simp add: sample_route_def deep_capacities convert_capacity_def lookup_matic_rate_def)
qed

lemma deep_bounds:
  "compute_ternary_search_bounds sample_cycle sample_deep_arena [0 \<mapsto> 1000000000000000000] [(10, 18), (20, 18)]
     1000000000000000000 18 1 one_dollar None =
     Some \<lparr>tb_low = 2000000000000000000, tb_high = 2000000000000000001, tb_flash_cap = Some 1000000000000000000\<rparr>"
  by (simp add: compute_ternary_search_bounds_def sample_cycle_def cap_enforced_but_unresolved_def deep_cap deep_floor
      deep_window deep_bottleneck Let_def)

definition deep_result :: "u256 \<Rightarrow> MinimalSimResult" where
  "deep_result amount = deep_sim (if amount = 2000000000000000000 then 2384672019309501321 else 2384672019309501322)"

abbreviation deep_env :: SizeEnv where
  "deep_env \<equiv> size_env sample_optimize_args None 18 1000000000000000000 (2000000000000000000, 2000000000000000001)"

lemma deep_env_fields [simp]:
  "se_arena deep_env = sample_deep_arena" "se_edges deep_env = sample_route" "se_caps deep_env = None"
  "se_economic_floor deep_env = 100000000000000000" "se_low deep_env = 2000000000000000000"
  "se_high deep_env = 2000000000000000001" "se_route_gas deep_env = None" "se_route_key deep_env = None"
  "se_decimals deep_env = 18" "se_rate deep_env = 1000000000000000000"
  by (simp_all add: size_env_def sample_optimize_args_def sample_cycle_def deep_floor)

lemma deep_simulates:
  "amount \<in> {2000000000000000000, 2000000000000000000 + 1} \<Longrightarrow>
     simulate_route_minimal_with_caps sample_deep_arena sample_route amount None cs = Some (Some (deep_result amount), cs)"
  by (auto simp: deep_sims deep_result_def)

lemma deep_sane:
  assumes "amount \<in> {2000000000000000000, 2000000000000000000 + 1}"
  shows "check_sim_sanity_for_dispatch (sanity_input deep_env amount (deep_result amount)) = Inr ()"
    and "check_sim_sanity (sanity_input deep_env amount (deep_result amount)) \<noteq> Inr ()"
  using assms
  by (auto simp: check_sim_sanity_for_dispatch_def check_sim_sanity_def check_sim_sanity_fast_def sanity_input_def
      deep_result_def deep_sim_def MAX_SUPPORTED_TOKEN_DECIMALS_def checked_mul_def MAX_SANE_PROFIT_RATIO_BPS_def
      deep_floor tickless_cap_trade_def insane_matic_def MAX_SANE_PROFIT_MATIC_WEI_def ten_pow_u256_cached_eq
      optimizer_pinned_at_floor_def optimizer_pin_ceiling_def saturating_add_def spot_probe_for_decimals_def Let_def)

lemma deep_finish:
  assumes "amount \<in> {2000000000000000000, 2000000000000000000 + 1}"
  shows "finish_search deep_env amount (deep_result amount) =
    Some \<lparr>or_optimal_input = amount, or_expected_gross = ms_amount_out (deep_result amount),
          or_net_profit = 384672019309501321, or_total_gas = finalize_route_total_gas sample_route 170000,
          or_search_low = 0\<rparr>"
  using deep_sane [OF assms] by (simp add: finish_search_def) (simp add: deep_result_def deep_sim_def)

lemma deep_no_clamp:
  "precompute_route_shallow_caps sample_deep_arena sample_route = Some None"
  "tickless_cl_start_input_cap sample_deep_arena 0 sample_route = None"
  "fc_edges (oa_cycle oa) = sample_route \<Longrightarrow> clamp_balancer oa floor window cs = Some (Some window, cs)"
  "fc_edges (oa_cycle oa) = sample_route \<Longrightarrow> clamp_depth oa floor caps window cs = Some (Some window, cs)"
  "oa_seed_sims oa = None \<Longrightarrow> clamp_seeds oa floor cap window = window"
  "readmit_seed [] floor window = window"
  by (simp_all add: precompute_route_shallow_caps_def route_has_cl_hop_def sample_route_def sample_back_edge_def
      sample_v2_edge_def cl_protocol_def tickless_cl_start_input_cap_def clamp_balancer_def clamp_depth_def
      balancer_max_in_high_clamp_def clamp_brent_high_to_cl_feasible_def clamp_seeds_def readmit_seed_def split: prod.splits)

text \<open>A run of the optimizer on the sample route, from its window to the end.\<close>

lemma deep_optimize:
  assumes oa: "oa_arena oa = sample_deep_arena" "oa_cycle oa = sample_cycle" "oa_rates oa = [0 \<mapsto> 1000000000000000000]"
    "oa_decimals oa = [(10, 18), (20, 18)]" "oa_seed_sims oa = None"
    and bounds: "compute_ternary_search_bounds sample_cycle sample_deep_arena [0 \<mapsto> 1000000000000000000] [(10, 18), (20, 18)]
      1000000000000000000 18 (or_default (oa_max_flash_loan_usd oa) DEFAULT_MAX_FLASH_LOAN_USD) (oa_matic_usd oa)
      (oa_liquidity_cap oa) = Some \<lparr>tb_low = low, tb_high = high, tb_flash_cap = cap\<rparr>"
    and window: "search_window oa (size_env oa None 18 1000000000000000000 (low, high)) sh = out"
  shows "optimize_cycle oa sh = out"
proof -
  have cycle: "fc_edges sample_cycle = sample_route" "fc_start_token sample_cycle = 0"
    by (simp_all add: sample_cycle_def)
  have rate: "lookup_matic_rate 0 [0 \<mapsto> 1000000000000000000] = Some (1000000000000000000 :: u256)"
    by (simp add: lookup_matic_rate_def MIN_TOKEN_TO_MATIC_RATE_def)
  have d: "start_token_decimals oa = Some 18"
    by (simp add: start_token_decimals_def oa cycle explicit_decimals_for_index_def sample_deep_arena_def
        sample_pairs_arena_def token_address_def nth_opt_def known_token_decimals_def MAX_SUPPORTED_TOKEN_DECIMALS_def)
  have none: "or_default None x = x" for x :: "(u256 \<times> MinimalSimResult) list"
    by (simp add: or_default_def)
  show ?thesis
    using window by (simp add: optimize_cycle_def oa cycle rate d bounds deep_no_clamp clamp_and_search_def none Let_def)
qed

lemma deep_search_window:
  "\<exists>r sh'. search_window sample_optimize_args deep_env sh = Some (Some r, sh') \<and>
      or_optimal_input r \<in> {2000000000000000000, 2000000000000000001}"
proof -
  have "oa_seed_sims sample_optimize_args = None" "oa_memo_order sample_optimize_args = (\<lambda>memo. memo)"
    by (simp_all add: sample_optimize_args_def)
  then obtain x sh' where x: "x \<in> {2000000000000000000, 2000000000000000000 + 1}"
    and run: "search_window sample_optimize_args deep_env sh = Some (finish_search deep_env x (deep_result x), sh')"
    using two_size_window [of sample_optimize_args deep_env deep_result sh] deep_simulates
    by (auto simp: with_route_gas_def)
  show ?thesis
    using run x by (simp add: deep_finish [OF x])
qed

lemma deep_optimized:
  "\<exists>r sh'. optimize_cycle sample_optimize_args sample_shared = Some (Some r, sh') \<and>
      or_optimal_input r \<in> {2000000000000000000, 2000000000000000001}"
proof -
  have "optimize_cycle sample_optimize_args sample_shared = search_window sample_optimize_args deep_env sample_shared"
    by (rule deep_optimize [OF _ _ _ _ _ _ refl]) (simp_all add: sample_optimize_args_def or_default_def deep_bounds)
  with deep_search_window show ?thesis
    by simp
qed

lemma deep_sources: "sources_true sample_optimize_args sample_shared None"
  by (simp add: sources_true_def route_cache_true_def sample_optimize_args_def sample_shared_def
      new_route_sim_cache_def sim_cache_ok_def or_default_def enumerates_def)

theorem optimized_size_is_simulated_witness:
  "\<exists>r sh' rate d. optimize_cycle sample_optimize_args sample_shared = Some (Some r, sh') \<and>
      size_result_ok sample_deep_arena sample_route None d rate r"
proof -
  obtain r sh' where run: "optimize_cycle sample_optimize_args sample_shared = Some (Some r, sh')"
    using deep_optimized by blast
  have fields: "oa_arena sample_optimize_args = sample_deep_arena" "fc_edges (oa_cycle sample_optimize_args) = sample_route"
    by (simp_all add: sample_optimize_args_def sample_cycle_def)
  show ?thesis
    using optimized_size_is_simulated [OF run _ deep_sources] run deep_no_clamp(1) by (auto simp: fields)
qed

text \<open>
  Property C34. The size the optimizer returns can be above the flash-loan cap of its own window: the lower end is a
  five-thousandth of the smallest capacity of the route, and only the upper end is cut to the cap, after which the
  upper end is moved above the lower one. A cycle of two pairs with ten and twelve thousand of the start token and
  a loan cap of one dollar is sized at two dollars, and the check that follows drops a cycle that was profitable
  below the cap.
\<close>

theorem optimizer_can_exceed_loan_cap:
  "\<exists>r sh'. optimize_cycle sample_optimize_args sample_shared = Some (Some r, sh') \<and>
     \<not> amount_within_cap \<lparr>fb_max_flash_loan_usd = 1, fb_token_decimals = 18,
          fb_token_to_matic_rate = 1000000000000000000, fb_matic_usd = one_dollar\<rparr> (or_optimal_input r)"
proof -
  obtain r sh' where "optimize_cycle sample_optimize_args sample_shared = Some (Some r, sh')"
    and "or_optimal_input r \<in> {2000000000000000000, 2000000000000000001}"
    using deep_optimized by blast
  then show ?thesis
    by (auto simp: amount_within_cap_def deep_cap)
qed

end
