(* ===== verification/UniRealign.thy ===== *)
theory UniRealign
  imports LocalSim
begin

text \<open>
  The remapping of a cached cycle onto the current pool metadata, middle part of
  \<open>src/pipeline/local_sim.rs\<close>: edges keep token indices and leg positions that may be stale, and the
  metadata of their pools (\<open>src/pipeline/types.rs\<close>) says which tokens the pool really has.

  The code tracks in a flag whether it changed anything, only to avoid allocating a new cycle; the
  returned value is the remapped cycle either way, so the model has no flag.
\<close>

section \<open>Pool metadata\<close>

record PoolMeta =
  pm_pool_index :: u32
  pm_protocol :: ProtocolType
  pm_tokens :: "u32 list"
  pm_fee_bps :: u32
  pm_bpt_index :: "nat option"
  pm_pool_id :: "u256 option"
  pm_protocol_label :: "string option"
  pm_pool_type :: "string option"
  pm_hooks :: "address option"
  pm_tick_spacing :: "int option"

definition pool_meta_at :: "PoolMeta list \<Rightarrow> u32 \<Rightarrow> PoolMeta option" where
  "pool_meta_at metas index =
     (case nth_opt metas (unat index) of
        Some meta \<Rightarrow> if pm_pool_index meta = index then Some meta
                     else List.find (\<lambda>meta. pm_pool_index meta = index) metas
      | None \<Rightarrow> List.find (\<lambda>meta. pm_pool_index meta = index) metas)"

definition USDC_E :: address where "USDC_E = 0x2791bca1f2de4661ed88a30c99a7a9449aa84174"
definition USDC_NATIVE :: address where "USDC_NATIVE = 0x3c499c542cef5e3811e1192ce70d8cc03d5c3359"

definition is_polygon_usd_stable :: "address \<Rightarrow> bool" where
  "is_polygon_usd_stable addr \<longleftrightarrow> addr = USDC_E \<or> addr = USDC_NATIVE"

definition polygon_usd_stable_equivalent :: "address \<Rightarrow> address \<Rightarrow> bool" where
  "polygon_usd_stable_equivalent a b \<longleftrightarrow> a = b \<or> (is_polygon_usd_stable a \<and> is_polygon_usd_stable b)"

fun position_where :: "('a \<Rightarrow> bool) \<Rightarrow> 'a list \<Rightarrow> nat option" where
  "position_where P [] = None"
| "position_where P (x # xs) = (if P x then Some 0 else map_option Suc (position_where P xs))"

text \<open>\<open>is_some_and\<close>.\<close>

definition some_and :: "'a option \<Rightarrow> ('a \<Rightarrow> bool) \<Rightarrow> bool" where
  "some_and x P = (case x of Some v \<Rightarrow> P v | None \<Rightarrow> False)"

section \<open>Screens\<close>

definition address_on_meta :: "StateArena \<Rightarrow> u32 list \<Rightarrow> address \<Rightarrow> bool" where
  "address_on_meta arena tokens want =
     list_ex (\<lambda>t. some_and (token_address arena t) (\<lambda>maddr. polygon_usd_stable_equivalent maddr want)) tokens"

definition cycle_v2_edges_match_pool_meta :: "StateArena \<Rightarrow> PoolMeta list \<Rightarrow> Edge list \<Rightarrow> bool" where
  "cycle_v2_edges_match_pool_meta arena metas edges =
     list_all (\<lambda>edge.
       if \<not> protocol_is_pair (e_protocol edge) then True
       else case (token_address arena (e_token_in edge), token_address arena (e_token_out edge)) of
         (Some tin, Some tout) \<Rightarrow>
           (case pool_meta_at metas (e_pool_index edge) of
              Some m \<Rightarrow>
                if length (pm_tokens m) \<ge> 2
                then address_on_meta arena (pm_tokens m) tin \<and> address_on_meta arena (pm_tokens m) tout
                else True
            | None \<Rightarrow> True)
       | _ \<Rightarrow> False) edges"

definition token_on_meta :: "StateArena \<Rightarrow> u32 list \<Rightarrow> u32 \<Rightarrow> bool" where
  "token_on_meta arena tokens tok \<longleftrightarrow>
     tok \<in> set tokens \<or> some_and (token_address arena tok) (address_on_meta arena tokens)"

definition uni_cycle_has_both_foreign_edge :: "StateArena \<Rightarrow> PoolMeta list \<Rightarrow> Edge list \<Rightarrow> bool" where
  "uni_cycle_has_both_foreign_edge arena metas edges =
     list_ex (\<lambda>edge.
       if \<not> protocol_is_pair (e_protocol edge) then False
       else case pool_meta_at metas (e_pool_index edge) of
         None \<Rightarrow> False
       | Some m \<Rightarrow>
           if length (pm_tokens m) < 2 then False
           else \<not> token_on_meta arena (pm_tokens m) (e_token_in edge) \<and>
                \<not> token_on_meta arena (pm_tokens m) (e_token_out edge)) edges"

section \<open>One edge\<close>

definition meta_pos_exact :: "StateArena \<Rightarrow> u32 list \<Rightarrow> u32 \<Rightarrow> nat option" where
  "meta_pos_exact arena tokens tok =
     (case position_where (\<lambda>t. t = tok) tokens of
        Some i \<Rightarrow> Some i
      | None \<Rightarrow> do {
          want \<leftarrow> token_address arena tok;
          position_where (\<lambda>t. token_address arena t = Some want) tokens
        })"

definition meta_pos_usd :: "StateArena \<Rightarrow> u32 list \<Rightarrow> u32 \<Rightarrow> nat option" where
  "meta_pos_usd arena tokens tok =
     (case position_where (\<lambda>t. t = tok) tokens of
        Some i \<Rightarrow> Some i
      | None \<Rightarrow> do {
          want \<leftarrow> token_address arena tok;
          position_where (\<lambda>t. some_and (token_address arena t)
            (\<lambda>maddr. polygon_usd_stable_equivalent maddr want)) tokens
        })"

definition coin_protocol :: "ProtocolType \<Rightarrow> bool" where
  "coin_protocol p \<longleftrightarrow> p = CurveStable \<or> p = CurveCrypto \<or> p = Dodo \<or> p = Woofi"

text \<open>The positions that the state of a Curve or WooFi pool, or the two legs of a DODO pool, exclude.\<close>

definition positions_excluded :: "StateArena \<Rightarrow> Edge \<Rightarrow> nat \<Rightarrow> nat \<Rightarrow> bool" where
  "positions_excluded arena edge in_pos out_pos \<longleftrightarrow>
     (case pool_state arena (e_pool_index edge) of
        Some (PCurve s) \<Rightarrow>
          in_pos \<ge> length (cv_balances s) \<or> out_pos \<ge> length (cv_balances s) \<or> in_pos = out_pos
      | Some (PWoofi s) \<Rightarrow>
          in_pos \<ge> length (wf_tokens s) \<or> out_pos \<ge> length (wf_tokens s) \<or> in_pos = out_pos
      | _ \<Rightarrow> False) \<or>
     (e_protocol edge = Dodo \<and> (in_pos > 1 \<or> out_pos > 1 \<or> in_pos = out_pos))"

definition realign_coin_edge :: "StateArena \<Rightarrow> u32 list \<Rightarrow> Edge \<Rightarrow> Edge" where
  "realign_coin_edge arena tokens edge =
     (case (meta_pos_exact arena tokens (e_token_in edge), meta_pos_exact arena tokens (e_token_out edge)) of
        (Some in_pos, Some out_pos) \<Rightarrow>
          if positions_excluded arena edge in_pos out_pos then edge
          else (case (u8_try_from in_pos, u8_try_from out_pos) of
            (Some in_idx, Some out_idx) \<Rightarrow>
              if e_token_in_idx edge \<noteq> in_idx \<or> e_token_out_idx edge \<noteq> out_idx
              then edge\<lparr>e_token_in_idx := in_idx, e_token_out_idx := out_idx, e_zero_for_one := in_idx < out_idx\<rparr>
              else edge
          | _ \<Rightarrow> edge)
      | _ \<Rightarrow> edge)"

definition set_legs :: "u32 list \<Rightarrow> nat \<Rightarrow> nat \<Rightarrow> Edge \<Rightarrow> Edge option" where
  "set_legs tokens in_pos out_pos edge = do {
     in_idx \<leftarrow> u8_try_from in_pos;
     out_idx \<leftarrow> u8_try_from out_pos;
     Some (edge\<lparr>e_token_in := tokens ! in_pos, e_token_out := tokens ! out_pos,
                e_token_in_idx := in_idx, e_token_out_idx := out_idx\<rparr>)
   }"

definition remap_from_positions :: "StateArena \<Rightarrow> u32 list \<Rightarrow> nat option \<Rightarrow> nat option \<Rightarrow> Edge \<Rightarrow> Edge option" where
  "remap_from_positions arena tokens in_pos out_pos edge =
     (let in_i = unat (e_token_in_idx edge); out_i = unat (e_token_out_idx edge)
      in if in_i \<ge> length tokens \<or> out_i \<ge> length tokens \<or> in_i = out_i \<or> (in_pos = None \<and> out_pos = None)
         then None
         else
           let meta_in = tokens ! in_i;
               meta_out = tokens ! out_i;
               in_agrees = (in_pos = Some in_i \<or>
                            token_address arena (e_token_in edge) = token_address arena meta_in);
               out_agrees = (out_pos = Some out_i \<or>
                             token_address arena (e_token_out edge) = token_address arena meta_out)
           in if \<not> in_agrees \<and> \<not> out_agrees then None
              else Some (edge\<lparr>e_token_in := meta_in, e_token_out := meta_out\<rparr>))"

text \<open>The three shapes of a pair edge: both tokens on the metadata, one of two, or a wider pool.\<close>

definition realign_pair_legs :: "StateArena \<Rightarrow> u32 list \<Rightarrow> Edge \<Rightarrow> Edge option" where
  "realign_pair_legs arena tokens edge =
     (let in_pos = meta_pos_usd arena tokens (e_token_in edge);
          out_pos = meta_pos_usd arena tokens (e_token_out edge)
      in case (in_pos, out_pos) of
           (Some i, Some j) \<Rightarrow> if i = j then None else set_legs tokens i j edge
         | (Some i, None) \<Rightarrow>
             if length tokens = 2 then set_legs tokens i (1 - i) edge
             else remap_from_positions arena tokens in_pos out_pos edge
         | (None, Some j) \<Rightarrow>
             if length tokens = 2 then set_legs tokens (1 - j) j edge
             else remap_from_positions arena tokens in_pos out_pos edge
         | (None, None) \<Rightarrow>
             if length tokens = 2 then None
             else remap_from_positions arena tokens in_pos out_pos edge)"

definition address_zero_for_one :: "StateArena \<Rightarrow> Edge \<Rightarrow> Edge" where
  "address_zero_for_one arena edge =
     (case (token_address arena (e_token_in edge), token_address arena (e_token_out edge)) of
        (Some a_in, Some a_out) \<Rightarrow> edge\<lparr>e_zero_for_one := a_in < a_out\<rparr>
      | _ \<Rightarrow> edge)"

definition realign_uni_edge :: "StateArena \<Rightarrow> PoolMeta list \<Rightarrow> Edge \<Rightarrow> Edge option" where
  "realign_uni_edge arena metas edge =
     (case pool_meta_at metas (e_pool_index edge) of
        None \<Rightarrow> Some edge
      | Some m \<Rightarrow>
          if length (pm_tokens m) < 2 then Some edge
          else if coin_protocol (e_protocol edge) then Some (realign_coin_edge arena (pm_tokens m) edge)
          else if \<not> protocol_is_pair (e_protocol edge) then Some edge
          else map_option (address_zero_for_one arena) (realign_pair_legs arena (pm_tokens m) edge))"

fun realign_uni_edges :: "StateArena \<Rightarrow> PoolMeta list \<Rightarrow> Edge list \<Rightarrow> Edge list option" where
  "realign_uni_edges arena metas [] = Some []"
| "realign_uni_edges arena metas (edge # edges) = do {
     edge' \<leftarrow> realign_uni_edge arena metas edge;
     map_option (\<lambda>rest. edge' # rest) (realign_uni_edges arena metas edges)
   }"

section \<open>The cycle\<close>

definition addr_eq :: "StateArena \<Rightarrow> u32 \<Rightarrow> u32 \<Rightarrow> bool" where
  "addr_eq arena a b \<longleftrightarrow>
     a = b \<or> (token_address arena a \<noteq> None \<and> token_address arena a = token_address arena b)"

fun hops_connected :: "StateArena \<Rightarrow> Edge list \<Rightarrow> bool" where
  "hops_connected arena (e # e' # edges) =
     (addr_eq arena (e_token_out e) (e_token_in e') \<and> hops_connected arena (e' # edges))"
| "hops_connected arena _ = True"

text \<open>One step of the second pass: \<open>need\<close> is the output token of the hop before.\<close>

definition reanchor_legs :: "StateArena \<Rightarrow> u32 list \<Rightarrow> u32 \<Rightarrow> Edge \<Rightarrow> Edge option" where
  "reanchor_legs arena tokens need edge = do {
     in_pos \<leftarrow> position_where (\<lambda>t. t = need) tokens;
     out_pos \<leftarrow> (if length tokens = 2 then Some (1 - in_pos)
                 else case position_where (\<lambda>t. t = e_token_out edge) tokens of
                        None \<Rightarrow> None
                      | Some pos \<Rightarrow> if pos = in_pos then None else Some pos);
     in_idx \<leftarrow> u8_try_from in_pos;
     out_idx \<leftarrow> u8_try_from out_pos;
     Some (address_zero_for_one arena
       (edge\<lparr>e_token_in := need, e_token_out := tokens ! out_pos, e_token_in_idx := in_idx,
             e_token_out_idx := out_idx\<rparr>))
   }"

definition reanchor_edge :: "StateArena \<Rightarrow> PoolMeta list \<Rightarrow> u32 \<Rightarrow> Edge \<Rightarrow> Edge" where
  "reanchor_edge arena metas need edge =
     (if addr_eq arena (e_token_in edge) need then edge\<lparr>e_token_in := need\<rparr>
      else case pool_meta_at metas (e_pool_index edge) of
        None \<Rightarrow> edge
      | Some m \<Rightarrow>
          if \<not> protocol_is_pair (e_protocol edge) \<or> length (pm_tokens m) < 2 then edge
          else or_default (reanchor_legs arena (pm_tokens m) need edge) edge)"

fun reanchor_edges :: "StateArena \<Rightarrow> PoolMeta list \<Rightarrow> Edge list \<Rightarrow> Edge list" where
  "reanchor_edges arena metas (e # e' # edges) =
     e # reanchor_edges arena metas (reanchor_edge arena metas (e_token_out e) e' # edges)"
| "reanchor_edges arena metas edges = edges"

definition fix_start_token :: "'score FoundCycle \<Rightarrow> 'score FoundCycle" where
  "fix_start_token cycle =
     (case fc_edges cycle of
        [] \<Rightarrow> cycle
      | e # _ \<Rightarrow>
          if \<not> list_ex (\<lambda>e. e_token_in e = fc_start_token cycle) (fc_edges cycle)
          then cycle\<lparr>fc_start_token := e_token_in e\<rparr> else cycle)"

definition realign_uni_cycle_from_pool_meta ::
    "StateArena \<Rightarrow> PoolMeta list \<Rightarrow> 'score FoundCycle \<Rightarrow> 'score FoundCycle option" where
  "realign_uni_cycle_from_pool_meta arena metas cycle = do {
     edges \<leftarrow> realign_uni_edges arena metas (fc_edges cycle);
     if hops_connected arena edges then Some (fix_start_token (cycle\<lparr>fc_edges := edges\<rparr>))
     else
       let edges = reanchor_edges arena metas edges
       in if hops_connected arena edges then Some (fix_start_token (cycle\<lparr>fc_edges := edges\<rparr>))
          else if hops_connected arena (fc_edges cycle) \<and>
                  cycle_v2_edges_match_pool_meta arena metas (fc_edges cycle)
          then Some cycle
          else None
   }"

section \<open>Continuity\<close>

lemma addr_eq_iff_chain: "addr_eq arena (e_token_out e) (e_token_in e') \<longleftrightarrow> hops_chain arena e e'"
  by (auto simp: addr_eq_def hops_chain_def split: option.splits)

lemma connected_iff_no_break:
  "hops_connected arena edges \<longleftrightarrow> first_hop_continuity_break_in_arena arena edges = None"
  by (induction arena edges rule: hops_connected.induct) (auto simp: addr_eq_iff_chain)

section \<open>What the remapping keeps\<close>

definition same_pool :: "Edge \<Rightarrow> Edge \<Rightarrow> bool" where
  "same_pool e e' \<longleftrightarrow> e_pool_index e' = e_pool_index e \<and> e_protocol e' = e_protocol e \<and> e_fee_bps e' = e_fee_bps e"

lemma same_pool_refl [simp]: "same_pool e e"
  by (simp add: same_pool_def)

lemma same_pool_trans: "same_pool a b \<Longrightarrow> same_pool b c \<Longrightarrow> same_pool a c"
  by (simp add: same_pool_def)

lemma same_pools_trans:
  "list_all2 same_pool as bs \<Longrightarrow> list_all2 same_pool bs cs \<Longrightarrow> list_all2 same_pool as cs"
  using list_all2_trans [of same_pool same_pool same_pool as bs cs] same_pool_trans by blast

lemma same_pool_zfo: "same_pool e (address_zero_for_one arena e') \<longleftrightarrow> same_pool e e'"
  by (simp add: address_zero_for_one_def same_pool_def split: option.split)

lemma same_pool_coin: "same_pool e (realign_coin_edge arena tokens e)"
  by (simp add: realign_coin_edge_def same_pool_def split: option.split)

lemma same_pool_legs: "realign_pair_legs arena tokens e = Some e' \<Longrightarrow> same_pool e e'"
  by (auto simp: realign_pair_legs_def set_legs_def remap_from_positions_def same_pool_def Let_def
      bind_eq_Some_conv split: option.splits if_splits)

lemma same_pool_uni_edge: "realign_uni_edge arena metas e = Some e' \<Longrightarrow> same_pool e e'"
  by (auto simp: realign_uni_edge_def same_pool_coin same_pool_zfo same_pool_legs
      split: option.splits if_splits)

lemma same_pool_uni_edges: "realign_uni_edges arena metas es = Some es' \<Longrightarrow> list_all2 same_pool es es'"
  by (induction arena metas es arbitrary: es' rule: realign_uni_edges.induct)
     (auto simp: bind_eq_Some_conv same_pool_uni_edge)

lemma same_pool_reanchor_legs: "reanchor_legs arena tokens need e = Some e' \<Longrightarrow> same_pool e e'"
  by (auto simp: reanchor_legs_def bind_eq_Some_conv same_pool_zfo) (simp_all add: same_pool_def)

lemma same_pool_reanchor: "same_pool e (reanchor_edge arena metas need e)"
proof (cases "addr_eq arena (e_token_in e) need")
  case True
  then show ?thesis by (simp add: reanchor_edge_def same_pool_def)
next
  case False
  have "same_pool e (or_default (reanchor_legs arena tokens need e) e)" for tokens
    by (cases "reanchor_legs arena tokens need e") (auto simp: or_default_def same_pool_reanchor_legs)
  then show ?thesis using False by (simp add: reanchor_edge_def split: option.split)
qed

lemma same_pool_reanchor_edges: "list_all2 same_pool es (reanchor_edges arena metas es)"
proof (induction arena metas es rule: reanchor_edges.induct)
  case (1 arena metas e e' edges)
  have "list_all2 same_pool (e' # edges) (reanchor_edge arena metas (e_token_out e) e' # edges)"
    using same_pool_reanchor by (simp add: list_all2_refl)
  then have "list_all2 same_pool (e' # edges)
      (reanchor_edges arena metas (reanchor_edge arena metas (e_token_out e) e' # edges))"
    using 1 by (rule same_pools_trans)
  then show ?case by simp
qed simp_all

lemma fix_start_edges [simp]: "fc_edges (fix_start_token cycle) = fc_edges cycle"
  by (simp add: fix_start_token_def split: list.split)

section \<open>Properties\<close>

text \<open>
  A cycle that survives the remapping is continuous: each hop sells the token the previous
  one bought, by address, so the simulation accepts its shape; it still visits the same pools under the
  same protocol tags in the same order, whatever the metadata says.
\<close>

theorem uni_realign_continuous:
  assumes "realign_uni_cycle_from_pool_meta arena metas cycle = Some cycle'"
  shows "first_hop_continuity_break_in_arena arena (fc_edges cycle') = None \<and>
         map e_pool_index (fc_edges cycle') = map e_pool_index (fc_edges cycle) \<and>
         map e_protocol (fc_edges cycle') = map e_protocol (fc_edges cycle)"
proof -
  obtain edges where edges: "realign_uni_edges arena metas (fc_edges cycle) = Some edges"
    using assms by (auto simp: realign_uni_cycle_from_pool_meta_def bind_eq_Some_conv)
  have conn: "hops_connected arena (fc_edges cycle')"
    and "fc_edges cycle' \<in> {edges, reanchor_edges arena metas edges, fc_edges cycle}"
    using assms edges
    by (auto simp: realign_uni_cycle_from_pool_meta_def Let_def split: if_splits)
  moreover have "list_all2 same_pool (fc_edges cycle) edges" using edges by (rule same_pool_uni_edges)
  moreover from this have "list_all2 same_pool (fc_edges cycle) (reanchor_edges arena metas edges)"
    using same_pool_reanchor_edges by (rule same_pools_trans)
  moreover have "list_all2 same_pool (fc_edges cycle) (fc_edges cycle)" by (simp add: list_all2_refl)
  ultimately have "list_all2 same_pool (fc_edges cycle) (fc_edges cycle')" by auto
  then have "map f (fc_edges cycle') = map f (fc_edges cycle)" if "f = e_pool_index" for f
    using that by (auto simp: list_all2_conv_all_nth same_pool_def intro!: nth_equalityI)
  moreover have "map f (fc_edges cycle') = map f (fc_edges cycle)" if "f = e_protocol" for f
    using that \<open>list_all2 same_pool (fc_edges cycle) (fc_edges cycle')\<close>
    by (auto simp: list_all2_conv_all_nth same_pool_def intro!: nth_equalityI)
  ultimately show ?thesis using conn connected_iff_no_break by blast
qed

text \<open>
  A round trip from bridged USDC through a token and back. The metadata of the second pool names native
  USDC where the cached edge still names bridged USDC.
\<close>

definition usdc_arena :: StateArena where
  "usdc_arena = \<lparr>ar_tokens = [10, USDC_E, USDC_NATIVE], ar_token_decimals = [18, 6, 6],
     ar_pools = [PV2 (sample_pair 1000000000 2000000000), PV2 (sample_pair 1200000000 2000000000)],
     ar_pool_addresses = [1, 2], ar_address_to_pool = [1 \<mapsto> 0, 2 \<mapsto> 1],
     ar_address_to_token = [10 \<mapsto> 0, USDC_E \<mapsto> 1, USDC_NATIVE \<mapsto> 2],
     ar_layout_fingerprint = 0, ar_hot_overlay = [], ar_hot_revisions = []\<rparr>"

definition pair_meta :: "u32 \<Rightarrow> u32 list \<Rightarrow> PoolMeta" where
  "pair_meta index tokens = \<lparr>pm_pool_index = index, pm_protocol = UniswapV2, pm_tokens = tokens, pm_fee_bps = 30,
     pm_bpt_index = None, pm_pool_id = None, pm_protocol_label = None, pm_pool_type = None, pm_hooks = None,
     pm_tick_spacing = None\<rparr>"

definition usdc_metas :: "PoolMeta list" where
  "usdc_metas = [pair_meta 0 [0, 1], pair_meta 1 [0, 2]]"

definition pair_edge :: "u32 \<Rightarrow> u32 \<Rightarrow> u32 \<Rightarrow> u8 \<Rightarrow> u8 \<Rightarrow> bool \<Rightarrow> Edge" where
  "pair_edge pool tin tout i j z = \<lparr>e_pool_index = pool, e_token_in = tin, e_token_out = tout,
     e_token_in_idx = i, e_token_out_idx = j, e_protocol = UniswapV2, e_fee_bps = 30, e_zero_for_one = z\<rparr>"

definition usdc_cycle :: "unit FoundCycle" where
  "usdc_cycle = \<lparr>fc_start_token = 1, fc_edges = [pair_edge 0 1 0 1 0 False, pair_edge 1 0 1 0 1 True],
     fc_hop_count = 2, fc_log_weight = (), fc_cumulative_fee_bps = 60, fc_score = (), fc_cycle_ratio = 0\<rparr>"

lemmas usdc_defs = usdc_arena_def usdc_metas_def pair_meta_def pair_edge_def usdc_cycle_def USDC_E_def
  USDC_NATIVE_def

lemma realign_usdc_edge_0:
  "realign_uni_edge usdc_arena usdc_metas (pair_edge 0 1 0 1 0 False) = Some (pair_edge 0 1 0 1 0 False)"
  by (simp add: realign_uni_edge_def usdc_defs pool_meta_at_def nth_opt_def coin_protocol_def
      protocol_is_pair_def realign_pair_legs_def meta_pos_usd_def set_legs_def u8_try_from_def
      address_zero_for_one_def token_address_def)

lemma realign_usdc_edge_1:
  "realign_uni_edge usdc_arena usdc_metas (pair_edge 1 0 1 0 1 True) = Some (pair_edge 1 0 2 0 1 True)"
  by (simp add: realign_uni_edge_def usdc_defs pool_meta_at_def nth_opt_def coin_protocol_def
      protocol_is_pair_def realign_pair_legs_def meta_pos_usd_def set_legs_def u8_try_from_def
      address_zero_for_one_def token_address_def some_and_def polygon_usd_stable_equivalent_def
      is_polygon_usd_stable_def)

lemma realign_usdc_cycle:
  "realign_uni_cycle_from_pool_meta usdc_arena usdc_metas usdc_cycle =
   Some (usdc_cycle\<lparr>fc_edges := [pair_edge 0 1 0 1 0 False, pair_edge 1 0 2 0 1 True]\<rparr>)"
proof -
  have "realign_uni_edges usdc_arena usdc_metas [pair_edge 0 1 0 1 0 False, pair_edge 1 0 1 0 1 True] =
      Some [pair_edge 0 1 0 1 0 False, pair_edge 1 0 2 0 1 True]"
    by (simp add: realign_usdc_edge_0 realign_usdc_edge_1)
  then show ?thesis
    by (simp add: realign_uni_cycle_from_pool_meta_def usdc_cycle_def addr_eq_def fix_start_token_def
        pair_edge_def)
qed

theorem uni_realign_continuous_witness:
  "\<exists>cycle'. realign_uni_cycle_from_pool_meta usdc_arena usdc_metas usdc_cycle = Some cycle' \<and>
     first_hop_continuity_break_in_arena usdc_arena (fc_edges cycle') = None"
  using uni_realign_continuous [OF realign_usdc_cycle] realign_usdc_cycle by blast

text \<open>
  Property C31. The remapping can open a closed cycle. Metadata positions treat bridged and native USDC as
  the same leg, and continuity is only checked between neighbours: a cycle that borrowed and returned
  bridged USDC comes back with its last hop paying native USDC, passes the metadata screen and the
  continuity check, and is simulated as if it repaid what it borrowed.
\<close>

theorem uni_realign_opens_cycle:
  "e_token_in (hd (fc_edges usdc_cycle)) = e_token_out (last (fc_edges usdc_cycle)) \<and>
   (\<exists>cycle'. realign_uni_cycle_from_pool_meta usdc_arena usdc_metas usdc_cycle = Some cycle' \<and>
      token_address usdc_arena (fc_start_token cycle') = Some USDC_E \<and>
      token_address usdc_arena (e_token_in (hd (fc_edges cycle'))) = Some USDC_E \<and>
      token_address usdc_arena (e_token_out (last (fc_edges cycle'))) = Some USDC_NATIVE \<and>
      USDC_E \<noteq> USDC_NATIVE \<and>
      cycle_v2_edges_match_pool_meta usdc_arena usdc_metas (fc_edges cycle') \<and>
      route_edges_simulatable usdc_arena (fc_edges cycle'))"
proof -
  let ?edges = "[pair_edge 0 1 0 1 0 False, pair_edge 1 0 2 0 1 True]"
  have screen: "cycle_v2_edges_match_pool_meta usdc_arena usdc_metas ?edges"
    by (simp add: cycle_v2_edges_match_pool_meta_def protocol_is_pair_def usdc_defs token_address_def
        nth_opt_def pool_meta_at_def address_on_meta_def some_and_def polygon_usd_stable_equivalent_def)
  have shape: "route_edges_simulatable usdc_arena ?edges"
    by (simp add: route_edges_simulatable_def HOP_CAP_def hops_chain_def pair_edge_def usdc_arena_def
        token_address_def nth_opt_def)
  have tokens: "token_address usdc_arena 1 = Some USDC_E" "token_address usdc_arena 2 = Some USDC_NATIVE"
    by (simp_all add: token_address_def usdc_arena_def nth_opt_def)
  show ?thesis
    using realign_usdc_cycle screen shape tokens
    by (simp add: usdc_cycle_def) (simp add: pair_edge_def USDC_E_def USDC_NATIVE_def)
qed

end
