(* ===== verification/FlashLiquidity.thy ===== *)
theory FlashLiquidity
  imports Profit UniRealign
begin

text \<open>
  Flash-loan liquidity, \<open>src/services/execution/flash_liquidity.rs\<close> up to the dispatch preparation, with the
  Aave reserve status of \<open>aave.rs\<close> and the hub tokens of \<open>core/constants.rs\<close>: the cache of what each lender
  holds of each token, its refresh from batched contract calls, the pins against inactive reserves, the plan of
  a loan for a route and the source the executor can use. The node with the ABI decoders is an argument; the
  clock counts milliseconds and is an argument.
\<close>

section \<open>Tokens and reserves\<close>

definition WMATIC :: address where "WMATIC = 0x0d500B1d8E8eF31E21C99d1Db9A6444d3ADf1270"
definition USDT :: address where "USDT = 0xc2132d05d31c914a87c6611c10748aeb04b58e8f"
definition WETH :: address where "WETH = 0x7ceb23fd6bc0add59e62ac25578270cff1b9f619"
definition DAI :: address where "DAI = 0x8f3cf7ad23cd3cadbd9735aff958023239c6a063"
definition ST_MATIC :: address where "ST_MATIC = 0x3a58a54c066fdc0f2d55fc9c89f0415c92ebf3c4"
definition MATIC_X :: address where "MATIC_X = 0xfa68fb4628dff1028cfec22b4162fccd0d45efb6"
definition BALANCER_VAULT :: address where "BALANCER_VAULT = 0xba12222222228d8ba445958a75a0704d566bf2c8"
definition AAVE_V3_POOL :: address where "AAVE_V3_POOL = 0x794a61358D6845594F94dc1DB02A252b5b4814aD"

definition POLYGON_HUB_TOKENS :: "address list" where
  "POLYGON_HUB_TOKENS =
     [WMATIC, USDC_E, USDC_NATIVE, USDT, WETH,
      0x1bfd67037b42cf73acf2047067bd4f2c47d9bfd6, DAI,
      0x53e0bca35ec356bd5dddfebbd1fc0fd03fabad39, 0xd6df932a45c0f255f85145f286ea0b292b21c90b,
      0x172370d5cd63279efa6d502dab29171933a610af, 0x0b3f868e0be5597d5db7feb59e1cadbb0fdda50a,
      0x9a71012b13ca4d3d0cdc72a177df3ef03b0e76a3, 0xbbba073c31bf03b8acf7c28ef0738decf3695683,
      0xa1c57f48f0deb89f569dfbe6e2b7f46d33606fd4, 0xb33eaad8d922b1083446dc23f610c2567fb5180f,
      0x5fe2b58c013d7601147dcdd68c143a77499f5531, 0x385eeac5cb85a38a9a07a70c73e0a3271cfb54a7,
      0x03b54a6e9a984069379fae1a4fc4dbae93b3bccd, 0x8505b9d2254a7ae468c0e9dd10ccea3a837aef5c,
      0x50b728d8d964fd00c2d0aad81718b71311fef68a]"

definition is_polygon_hub_token :: "address \<Rightarrow> bool" where
  "is_polygon_hub_token addr \<longleftrightarrow> addr \<in> set POLYGON_HUB_TOKENS"

definition has_reliable_matic_rate :: "u32 \<Rightarrow> (u32 \<Rightarrow> u256 option) \<Rightarrow> bool" where
  "has_reliable_matic_rate token rates \<longleftrightarrow> lookup_matic_rate token rates \<noteq> None"

definition AAVE_CFG_ACTIVE_BIT :: nat where "AAVE_CFG_ACTIVE_BIT = 56"
definition AAVE_CFG_PAUSED_BIT :: nat where "AAVE_CFG_PAUSED_BIT = 60"
definition AAVE_CFG_FLASH_BIT :: nat where "AAVE_CFG_FLASH_BIT = 63"

datatype AaveReserveStatus = Viable | RpcError | NoAToken | Inactive | Paused | FlashDisabled

definition aave_cfg_bit_set :: "u256 \<Rightarrow> nat \<Rightarrow> bool" where
  "aave_cfg_bit_set configuration b \<longleftrightarrow> and (drop_bit b configuration) 1 \<noteq> 0"

definition reserve_status_from_config :: "u256 \<Rightarrow> bool \<Rightarrow> AaveReserveStatus" where
  "reserve_status_from_config configuration has_a_token =
     (if \<not> has_a_token then NoAToken
      else if \<not> aave_cfg_bit_set configuration AAVE_CFG_ACTIVE_BIT then Inactive
      else if aave_cfg_bit_set configuration AAVE_CFG_PAUSED_BIT then Paused
      else if \<not> aave_cfg_bit_set configuration AAVE_CFG_FLASH_BIT then FlashDisabled
      else Viable)"

definition aave_reserve_flash_eligible :: "u256 \<Rightarrow> bool" where
  "aave_reserve_flash_eligible configuration \<longleftrightarrow> reserve_status_from_config configuration True = Viable"

section \<open>The cache\<close>

definition CACHE_TTL :: nat where "CACHE_TTL = 30000"
definition AAVE_RESERVE_LIST_TTL :: nat where "AAVE_RESERVE_LIST_TTL = 300000"
definition MAX_HOT_FLASH_TOKENS :: nat where "MAX_HOT_FLASH_TOKENS = 384"

definition should_defer_dust_flash_refresh :: "address list \<Rightarrow> bool" where
  "should_defer_dust_flash_refresh stale \<longleftrightarrow> length stale < 4 \<and> \<not> list_ex is_polygon_hub_token stale"

record TokenFlashLiquidity =
  tl_balancer :: u256
  tl_aave :: u256
  tl_aave_listed :: bool
  tl_dodo :: u256

definition no_flash_liquidity :: TokenFlashLiquidity where
  "no_flash_liquidity = \<lparr>tl_balancer = 0, tl_aave = 0, tl_aave_listed = False, tl_dodo = 0\<rparr>"

record CachedLiquidity =
  cq_snapshot :: TokenFlashLiquidity
  cq_fetched_at :: nat

record CachedAaveReserves =
  ca_tokens :: "address set"
  ca_fetched_at :: nat

record FlashLiquiditySnapshot =
  fs_generation :: u64
  fs_entries :: "address \<Rightarrow> CachedLiquidity option"

definition token_liquidity :: "nat \<Rightarrow> FlashLiquiditySnapshot \<Rightarrow> address \<Rightarrow> nat \<Rightarrow> TokenFlashLiquidity" where
  "token_liquidity now snap token ttl =
     (case fs_entries snap token of
        Some e \<Rightarrow> if now - cq_fetched_at e < ttl then cq_snapshot e else no_flash_liquidity
      | None \<Rightarrow> no_flash_liquidity)"

definition tokens_liquidity :: "nat \<Rightarrow> FlashLiquiditySnapshot \<Rightarrow> address list \<Rightarrow> nat \<Rightarrow> TokenFlashLiquidity list" where
  "tokens_liquidity now snap tokens ttl = map (\<lambda>token. token_liquidity now snap token ttl) tokens"

definition has_fresh :: "nat \<Rightarrow> FlashLiquiditySnapshot \<Rightarrow> address \<Rightarrow> nat \<Rightarrow> bool" where
  "has_fresh now snap token ttl =
     (case fs_entries snap token of Some e \<Rightarrow> now - cq_fetched_at e < ttl | None \<Rightarrow> False)"

record FlashLiquidityCache =
  fl_inner :: FlashLiquiditySnapshot
  fl_ttl :: nat
  fl_balancer_vault :: address
  fl_aave_pool :: address
  fl_hot_tokens :: "address set"
  fl_aave_inactive_pins :: "address set"
  fl_aave_reserves :: "CachedAaveReserves option"
  fl_refresh_inflight :: bool

definition new_flash_cache :: FlashLiquidityCache where
  "new_flash_cache = \<lparr>fl_inner = \<lparr>fs_generation = 0, fs_entries = (\<lambda>_. None)\<rparr>, fl_ttl = CACHE_TTL,
     fl_balancer_vault = BALANCER_VAULT, fl_aave_pool = AAVE_V3_POOL, fl_hot_tokens = {}, fl_aave_inactive_pins = {},
     fl_aave_reserves = None, fl_refresh_inflight = False\<rparr>"

text \<open>The updates are a hash map filled in order: a later entry of a token replaces an earlier one.\<close>

definition publish_updates ::
    "(address \<times> CachedLiquidity) list \<Rightarrow> FlashLiquidityCache \<Rightarrow> u64 \<times> FlashLiquidityCache" where
  "publish_updates updates c =
     (if updates = [] then (fs_generation (fl_inner c), c)
      else
        let generation = saturating_add (fs_generation (fl_inner c)) 1
        in (generation,
            c\<lparr>fl_inner := \<lparr>fs_generation = generation,
                          fs_entries = fs_entries (fl_inner c) ++ map_of (rev updates)\<rparr>\<rparr>))"

definition track_hot_tokens :: "address list \<Rightarrow> FlashLiquidityCache \<Rightarrow> FlashLiquidityCache" where
  "track_hot_tokens tokens c =
     (let hot = fl_hot_tokens c \<union> set tokens
      in if card hot \<le> MAX_HOT_FLASH_TOKENS then c\<lparr>fl_hot_tokens := hot\<rparr>
         else
           let current = take MAX_HOT_FLASH_TOKENS (remdups_adj (sort tokens));
               remaining = MAX_HOT_FLASH_TOKENS - length current;
               prior = take remaining (sorted_list_of_set {token \<in> hot. token \<notin> set current})
           in c\<lparr>fl_hot_tokens := set current \<union> set prior\<rparr>)"

definition try_acquire_refresh_inflight :: "FlashLiquidityCache \<Rightarrow> bool \<times> FlashLiquidityCache" where
  "try_acquire_refresh_inflight c =
     (if fl_refresh_inflight c then (False, c) else (True, c\<lparr>fl_refresh_inflight := True\<rparr>))"

definition release_refresh_inflight :: "FlashLiquidityCache \<Rightarrow> FlashLiquidityCache" where
  "release_refresh_inflight c = c\<lparr>fl_refresh_inflight := False\<rparr>"

definition flash_snapshot :: "nat \<Rightarrow> FlashLiquidityCache \<Rightarrow> address \<Rightarrow> TokenFlashLiquidity" where
  "flash_snapshot now c token = token_liquidity now (fl_inner c) token (fl_ttl c)"

definition has_fresh_entry :: "nat \<Rightarrow> FlashLiquidityCache \<Rightarrow> address \<Rightarrow> bool" where
  "has_fresh_entry now c token = has_fresh now (fl_inner c) token (fl_ttl c)"

definition aave_viable_for_dispatch :: "nat \<Rightarrow> FlashLiquidityCache \<Rightarrow> address \<Rightarrow> bool" where
  "aave_viable_for_dispatch now c token \<longleftrightarrow>
     has_fresh now (fl_inner c) token (fl_ttl c) \<and>
     (let liq = token_liquidity now (fl_inner c) token (fl_ttl c) in tl_aave_listed liq \<and> tl_aave liq \<noteq> 0)"

definition invalidate_batch :: "address list \<Rightarrow> FlashLiquidityCache \<Rightarrow> FlashLiquidityCache" where
  "invalidate_batch tokens c =
     (if tokens = [] then c
      else if list_all (\<lambda>t. fs_entries (fl_inner c) t = None) tokens then c
      else c\<lparr>fl_inner := \<lparr>fs_generation = saturating_add (fs_generation (fl_inner c)) 1,
                         fs_entries = (\<lambda>t. if t \<in> set tokens then None else fs_entries (fl_inner c) t)\<rparr>\<rparr>)"

definition invalidate :: "address \<Rightarrow> FlashLiquidityCache \<Rightarrow> FlashLiquidityCache" where
  "invalidate token c = invalidate_batch [token] c"

definition mark_aave_inactive :: "nat \<Rightarrow> address \<Rightarrow> FlashLiquidityCache \<Rightarrow> FlashLiquidityCache" where
  "mark_aave_inactive now token c =
     (let prior = (case fs_entries (fl_inner c) token of Some e \<Rightarrow> cq_snapshot e | None \<Rightarrow> no_flash_liquidity);
          entry = \<lparr>cq_snapshot = \<lparr>tl_balancer = tl_balancer prior, tl_aave = 0, tl_aave_listed = False,
                                  tl_dodo = tl_dodo prior\<rparr>, cq_fetched_at = now\<rparr>
      in c\<lparr>fl_aave_inactive_pins := insert token (fl_aave_inactive_pins c),
           fl_inner := \<lparr>fs_generation = saturating_add (fs_generation (fl_inner c)) 1,
                        fs_entries = (fs_entries (fl_inner c))(token \<mapsto> entry)\<rparr>\<rparr>)"

text \<open>Three quarters of the lifetime; the code multiplies a duration of 30 seconds by the exact float 0.75.\<close>

definition stale_tokens :: "nat \<Rightarrow> FlashLiquidityCache \<Rightarrow> address list \<Rightarrow> address list" where
  "stale_tokens now c tokens =
     (let refresh_after = fl_ttl c * 3 div 4
      in filter (\<lambda>token. case fs_entries (fl_inner c) token of
                     None \<Rightarrow> True | Some e \<Rightarrow> now - cq_fetched_at e \<ge> refresh_after) tokens)"

section \<open>The refresh\<close>

text \<open>
  The calls of a refresh and what the node and the ABI decoders answer. A batch either fails as a whole or
  gives one optional answer per call; the number tells the three batches of a refresh apart.
\<close>

datatype FlashCall =
  GetReservesList address
| BalanceOf address address
| GetReserveData address address

type_synonym abi_bytes = "u8 list"

record FlashNode =
  fn_multicall :: "nat \<Rightarrow> FlashCall list \<Rightarrow> string + abi_bytes option list"
  fn_reserves_list :: "abi_bytes \<Rightarrow> address list option"
  fn_reserve_data :: "abi_bytes \<Rightarrow> (address \<times> u256) option"
  fn_balance :: "abi_bytes \<Rightarrow> u256 option"

definition decode_balance :: "(abi_bytes \<Rightarrow> u256 option) \<Rightarrow> abi_bytes option option \<Rightarrow> u256" where
  "decode_balance decode answer =
     (case answer of
        Some (Some bytes) \<Rightarrow> (case decode bytes of Some v \<Rightarrow> v | None \<Rightarrow> 0)
      | _ \<Rightarrow> 0)"

definition aave_reserve_needs_fetch :: "address set option \<Rightarrow> address \<Rightarrow> bool" where
  "aave_reserve_needs_fetch aave_reserves token =
     (case aave_reserves of None \<Rightarrow> True | Some reserves \<Rightarrow> token \<in> reserves)"

text \<open>The reserve list: from the cache while it is young, from the node otherwise.\<close>

definition fetch_reserve_list ::
    "FlashNode \<Rightarrow> nat \<Rightarrow> FlashLiquidityCache \<Rightarrow> address set option \<times> FlashLiquidityCache" where
  "fetch_reserve_list node now c =
     (case (case fn_multicall node 0 [GetReservesList (fl_aave_pool c)] of
              Inr (Some bytes # _) \<Rightarrow> fn_reserves_list node bytes
            | _ \<Rightarrow> None) of
        None \<Rightarrow> (None, c)
      | Some tokens \<Rightarrow>
          (Some (set tokens), c\<lparr>fl_aave_reserves := Some \<lparr>ca_tokens = set tokens, ca_fetched_at = now\<rparr>\<rparr>))"

definition aave_reserve_list ::
    "FlashNode \<Rightarrow> nat \<Rightarrow> FlashLiquidityCache \<Rightarrow> address set option \<times> FlashLiquidityCache" where
  "aave_reserve_list node now c =
     (case fl_aave_reserves c of
        Some cached \<Rightarrow>
          if now - ca_fetched_at cached < AAVE_RESERVE_LIST_TTL then (Some (ca_tokens cached), c)
          else fetch_reserve_list node now c
      | None \<Rightarrow> fetch_reserve_list node now c)"

definition state_calls :: "FlashLiquidityCache \<Rightarrow> address set option \<Rightarrow> address list \<Rightarrow> FlashCall list" where
  "state_calls c aave_reserves to_fetch =
     map (\<lambda>token. BalanceOf token (fl_balancer_vault c)) to_fetch @
     map (GetReserveData (fl_aave_pool c)) (filter (aave_reserve_needs_fetch aave_reserves) to_fetch)"

text \<open>The lending token of each reserve that can be used, with a cursor over the second half of the answers.\<close>

fun usable_reserves ::
    "FlashNode \<Rightarrow> address set option \<Rightarrow> address set \<Rightarrow> abi_bytes option list \<Rightarrow> nat \<Rightarrow> address list \<Rightarrow> address option list" where
  "usable_reserves node aave_reserves pins results cursor [] = []"
| "usable_reserves node aave_reserves pins results cursor (token # tokens) =
     (let queried = aave_reserve_needs_fetch aave_reserves token;
          decoded = (if queried
                     then case nth_opt results cursor of Some (Some bytes) \<Rightarrow> fn_reserve_data node bytes | _ \<Rightarrow> None
                     else None);
          status = (if \<not> queried then NoAToken
                    else case decoded of
                      Some (a_token, configuration) \<Rightarrow> reserve_status_from_config configuration (a_token \<noteq> 0)
                    | None \<Rightarrow> RpcError)
      in (if token \<in> pins \<or> status \<noteq> Viable then None else map_option fst decoded) #
         usable_reserves node aave_reserves pins results (if queried then cursor + 1 else cursor) tokens)"

definition balance_calls :: "(address \<times> address option) list \<Rightarrow> FlashCall list" where
  "balance_calls reserves =
     List.map_filter (\<lambda>(token, reserve). map_option (BalanceOf token) reserve) reserves"

fun liquidity_updates ::
    "FlashNode \<Rightarrow> nat \<Rightarrow> address set \<Rightarrow> abi_bytes option list \<Rightarrow> abi_bytes option list \<Rightarrow> nat \<Rightarrow> nat \<Rightarrow>
     (address \<times> address option) list \<Rightarrow> (address \<times> CachedLiquidity) list" where
  "liquidity_updates node now pins results aave_results i aave_index [] = []"
| "liquidity_updates node now pins results aave_results i aave_index ((token, reserve) # reserves) =
     (let aave_listed = (token \<notin> pins \<and> reserve \<noteq> None);
          aave = (if aave_listed then decode_balance (fn_balance node) (nth_opt aave_results aave_index) else 0);
          liquidity = \<lparr>tl_balancer = decode_balance (fn_balance node) (nth_opt results i), tl_aave = aave,
                       tl_aave_listed = aave_listed, tl_dodo = 0\<rparr>
      in (token, \<lparr>cq_snapshot = liquidity, cq_fetched_at = now\<rparr>) #
         liquidity_updates node now pins results aave_results (i + 1)
           (if aave_listed then aave_index + 1 else aave_index) reserves)"

text \<open>
  The part of a refresh before the publication, with the pins as they are when the second batch has been
  answered. The third batch is awaited after that, so that other calls can come before the publication.
\<close>

definition fetch_updates ::
    "FlashNode \<Rightarrow> nat \<Rightarrow> address list \<Rightarrow> FlashLiquidityCache \<Rightarrow>
     (string + (address \<times> CachedLiquidity) list) \<times> FlashLiquidityCache" where
  "fetch_updates node now to_fetch c =
     (let (aave_reserves, c) = aave_reserve_list node now c
      in case fn_multicall node 1 (state_calls c aave_reserves to_fetch) of
           Inl e \<Rightarrow> (Inl e, c)
         | Inr results \<Rightarrow>
             let pins = fl_aave_inactive_pins c;
                 reserves = zip to_fetch (usable_reserves node aave_reserves pins results (length to_fetch) to_fetch);
                 calls = balance_calls reserves
             in case (if calls = [] then Inr [] else fn_multicall node 2 calls) of
                  Inl e \<Rightarrow> (Inl e, c)
                | Inr aave_results \<Rightarrow> (Inr (liquidity_updates node now pins results aave_results 0 0 reserves), c))"

definition fetch_and_publish ::
    "FlashNode \<Rightarrow> nat \<Rightarrow> address list \<Rightarrow> FlashLiquidityCache \<Rightarrow> (string + unit) \<times> FlashLiquidityCache" where
  "fetch_and_publish node now to_fetch c =
     (if to_fetch = [] then (Inr (), c)
      else case fetch_updates node now to_fetch c of
        (Inl e, c) \<Rightarrow> (Inl e, c)
      | (Inr updates, c) \<Rightarrow> (Inr (), snd (publish_updates updates c)))"

definition refresh ::
    "FlashNode \<Rightarrow> nat \<Rightarrow> address list \<Rightarrow> FlashLiquidityCache \<Rightarrow> (string + u64) \<times> FlashLiquidityCache" where
  "refresh node now tokens c =
     (let c = track_hot_tokens tokens c;
          to_fetch = stale_tokens now c tokens
      in if to_fetch = [] then (Inr (fs_generation (fl_inner c)), c)
         else case fetch_and_publish node now to_fetch c of
           (Inl e, c) \<Rightarrow> (Inl e, c)
         | (Inr _, c) \<Rightarrow> (Inr (fs_generation (fl_inner c)), c))"

section \<open>The plan of a loan\<close>

datatype FlashLoanPolicy = FpAuto | FpBalancerOnly | FpAaveOnly

datatype FlashPlanAction = PlDirect | PlCapAndReoptimize | PlReject

record FlashPlan =
  fp_source :: FlashLoanSource
  fp_action :: FlashPlanAction
  fp_cap :: u256

datatype FlashRejectReason =
  ZeroAmount | ColdCache | ZeroLiquidity | AaveUnlisted | MixedBalancerNoAave | AlignDispatch

definition plan_single :: "FlashLoanSource \<Rightarrow> u256 \<Rightarrow> u256 \<Rightarrow> FlashPlan" where
  "plan_single source amount_in available =
     (if available = 0 then \<lparr>fp_source = source, fp_action = PlReject, fp_cap = 0\<rparr>
      else if available \<ge> amount_in then \<lparr>fp_source = source, fp_action = PlDirect, fp_cap = amount_in\<rparr>
      else \<lparr>fp_source = source, fp_action = PlCapAndReoptimize, fp_cap = available\<rparr>)"

definition plan_auto :: "u256 \<Rightarrow> TokenFlashLiquidity \<Rightarrow> bool \<Rightarrow> FlashPlan" where
  "plan_auto amount_in liq allow_balancer =
     (if allow_balancer \<and> tl_balancer liq \<ge> amount_in
      then \<lparr>fp_source = FlBalancer, fp_action = PlDirect, fp_cap = amount_in\<rparr>
      else if tl_aave_listed liq \<and> tl_aave liq \<ge> amount_in
      then \<lparr>fp_source = FlAaveV3, fp_action = PlDirect, fp_cap = amount_in\<rparr>
      else if tl_dodo liq \<ge> amount_in
      then \<lparr>fp_source = FlDodo, fp_action = PlDirect, fp_cap = amount_in\<rparr>
      else
        let cap = (if allow_balancer then max (max (tl_balancer liq) (tl_aave liq)) (tl_dodo liq)
                   else max (tl_aave liq) (tl_dodo liq))
        in if cap = 0 then \<lparr>fp_source = FlBalancer, fp_action = PlReject, fp_cap = 0\<rparr>
           else
             \<lparr>fp_source =
                (if allow_balancer \<and> tl_balancer liq \<noteq> 0 \<and> tl_balancer liq \<ge> tl_aave liq then FlBalancer
                 else if tl_aave_listed liq \<and> tl_aave liq \<ge> tl_dodo liq then FlAaveV3
                 else FlDodo),
              fp_action = PlCapAndReoptimize, fp_cap = cap\<rparr>)"

definition plan_flash_loan :: "FlashLoanPolicy \<Rightarrow> u256 \<Rightarrow> TokenFlashLiquidity \<Rightarrow> bool \<Rightarrow> bool \<Rightarrow> FlashPlan" where
  "plan_flash_loan policy amount_in liq forbid_balancer_flash balancer_only =
     (if amount_in = 0 then \<lparr>fp_source = FlBalancer, fp_action = PlReject, fp_cap = 0\<rparr>
      else if forbid_balancer_flash
      then
        (if balancer_only then \<lparr>fp_source = FlDirect, fp_action = PlDirect, fp_cap = amount_in\<rparr>
         else if \<not> tl_aave_listed liq \<or> tl_aave liq = 0
         then (if tl_dodo liq \<noteq> 0 then plan_single FlDodo amount_in (tl_dodo liq)
               else \<lparr>fp_source = FlAaveV3, fp_action = PlReject, fp_cap = 0\<rparr>)
         else plan_single FlAaveV3 amount_in (tl_aave liq))
      else case policy of
        FpAuto \<Rightarrow> plan_auto amount_in liq True
      | FpBalancerOnly \<Rightarrow> plan_single FlBalancer amount_in (tl_balancer liq)
      | FpAaveOnly \<Rightarrow>
          if \<not> tl_aave_listed liq then \<lparr>fp_source = FlAaveV3, fp_action = PlReject, fp_cap = 0\<rparr>
          else plan_single FlAaveV3 amount_in (tl_aave liq))"

definition route_uses_balancer_vault_swap :: "'score FoundCycle \<Rightarrow> bool" where
  "route_uses_balancer_vault_swap cycle = list_ex (\<lambda>e. e_protocol e = BalancerV2) (fc_edges cycle)"

definition route_is_balancer_only :: "'score FoundCycle \<Rightarrow> bool" where
  "route_is_balancer_only cycle \<longleftrightarrow>
     fc_edges cycle \<noteq> [] \<and> list_all (\<lambda>e. e_protocol e = BalancerV2) (fc_edges cycle)"

definition dodo_base_flash_pool_for_cycle :: "StateArena \<Rightarrow> 'score FoundCycle \<Rightarrow> address option" where
  "dodo_base_flash_pool_for_cycle arena cycle =
     (case token_address arena (fc_start_token cycle) of
        None \<Rightarrow> None
      | Some _ \<Rightarrow> if \<not> DODO_EXTERNAL_FLASH_ENABLED then None else None)"

definition dodo_pool_is_route_swap_hop :: "StateArena \<Rightarrow> 'score FoundCycle \<Rightarrow> address \<Rightarrow> bool" where
  "dodo_pool_is_route_swap_hop arena cycle pool =
     list_ex (\<lambda>edge. (case pool_state arena (e_pool_index edge) of Some (PDodo _) \<Rightarrow> True | _ \<Rightarrow> False) \<and>
                     pool_address arena (e_pool_index edge) = Some pool) (fc_edges cycle)"

definition align_flash_source_for_dispatch ::
    "FlashLoanSource \<Rightarrow> TokenFlashLiquidity \<Rightarrow> bool \<Rightarrow> bool \<Rightarrow> bool \<Rightarrow> FlashLoanSource option" where
  "align_flash_source_for_dispatch source liq balancer_only has_dodo route_uses_balancer_vault =
     (let aave_viable = (tl_aave_listed liq \<and> tl_aave liq \<noteq> 0);
          mixed_balancer_route = (route_uses_balancer_vault \<and> \<not> balancer_only)
      in if \<not> balancer_only \<and> source \<in> {FlBalancer, FlDirect}
         then (if aave_viable then Some FlAaveV3
               else if has_dodo then Some FlDodo
               else if tl_balancer liq \<noteq> 0 \<and> \<not> mixed_balancer_route then Some FlBalancer
               else None)
         else if source = FlAaveV3 \<and> \<not> aave_viable
         then (if has_dodo then Some FlDodo else None)
         else if source = FlDodo \<and> \<not> has_dodo
         then (if aave_viable then Some FlAaveV3 else None)
         else Some source)"

definition rotate_cycle_to_start :: "'score FoundCycle \<Rightarrow> u32 \<Rightarrow> 'score FoundCycle option" where
  "rotate_cycle_to_start cycle new_start =
     (if fc_edges cycle = [] then None
      else do {
        k \<leftarrow> position_of new_start (map e_token_in (fc_edges cycle));
        let edges = rotate k (fc_edges cycle);
        if e_token_out (last edges) = new_start
        then Some (cycle\<lparr>fc_start_token := new_start, fc_edges := edges, fc_hop_count := edge_hops cycle\<rparr>)
        else None
      })"

definition token_flash_liquidity_borrowable :: "TokenFlashLiquidity \<Rightarrow> bool" where
  "token_flash_liquidity_borrowable liq \<longleftrightarrow>
     tl_balancer liq \<noteq> 0 \<or> tl_dodo liq \<noteq> 0 \<or> (tl_aave_listed liq \<and> tl_aave liq \<noteq> 0)"

definition token_flash_borrow_proven_unviable :: "nat \<Rightarrow> address \<Rightarrow> FlashLiquiditySnapshot \<Rightarrow> nat \<Rightarrow> bool" where
  "token_flash_borrow_proven_unviable now token flash ttl \<longleftrightarrow>
     has_fresh now flash token ttl \<and> \<not> token_flash_liquidity_borrowable (token_liquidity now flash token ttl)"

definition token_eligible_for_flash_borrow_graph :: "nat \<Rightarrow> address \<Rightarrow> FlashLiquiditySnapshot \<Rightarrow> nat \<Rightarrow> bool" where
  "token_eligible_for_flash_borrow_graph now token flash ttl =
     (if has_fresh now flash token ttl
      then token_flash_liquidity_borrowable (token_liquidity now flash token ttl)
      else is_polygon_hub_token token)"

definition cycle_has_aave_listed_token ::
    "nat \<Rightarrow> 'score FoundCycle \<Rightarrow> StateArena \<Rightarrow> FlashLiquiditySnapshot \<Rightarrow> nat \<Rightarrow> bool" where
  "cycle_has_aave_listed_token now cycle arena flash ttl =
     list_ex (\<lambda>liq. tl_aave_listed liq \<and> tl_aave liq \<noteq> 0)
       (tokens_liquidity now flash (List.map_filter (\<lambda>edge. token_address arena (e_token_in edge)) (fc_edges cycle)) ttl)"

text \<open>The tokens of the hops, each once, with their addresses.\<close>

fun hop_tokens :: "StateArena \<Rightarrow> u32 set \<Rightarrow> Edge list \<Rightarrow> (address \<times> u32) list" where
  "hop_tokens arena seen [] = []"
| "hop_tokens arena seen (edge # edges) =
     (let token = e_token_in edge
      in if token \<in> seen then hop_tokens arena seen edges
         else case token_address arena token of
           None \<Rightarrow> hop_tokens arena (insert token seen) edges
         | Some addr \<Rightarrow> (addr, token) # hop_tokens arena (insert token seen) edges)"

definition cycle_flash_tokens_all_fresh ::
    "nat \<Rightarrow> 'score FoundCycle \<Rightarrow> StateArena \<Rightarrow> FlashLiquiditySnapshot \<Rightarrow> nat \<Rightarrow> bool" where
  "cycle_flash_tokens_all_fresh now cycle arena flash ttl =
     (let tokens = hop_tokens arena {} (fc_edges cycle)
      in list_all (\<lambda>(addr, _). has_fresh now flash addr ttl) tokens \<and> tokens \<noteq> [])"

definition balancer_route_flash_feasible ::
    "nat \<Rightarrow> 'score FoundCycle \<Rightarrow> StateArena \<Rightarrow> FlashLiquiditySnapshot \<Rightarrow> nat \<Rightarrow> bool" where
  "balancer_route_flash_feasible now cycle arena flash ttl =
     (if \<not> route_uses_balancer_vault_swap cycle then True
      else if route_is_balancer_only cycle then True
      else if \<not> cycle_flash_tokens_all_fresh now cycle arena flash ttl then True
      else cycle_has_aave_listed_token now cycle arena flash ttl \<or>
           dodo_base_flash_pool_for_cycle arena cycle \<noteq> None)"

text \<open>\<open>max_by_key\<close> keeps the last of several maxima.\<close>

definition deepest :: "(u256 \<times> u32) list \<Rightarrow> u32 option" where
  "deepest candidates =
     map_option snd (fold (\<lambda>c best. case best of
         None \<Rightarrow> Some c
       | Some b \<Rightarrow> if fst c \<ge> fst b then Some c else Some b) candidates None)"

definition borrow_candidates ::
    "nat \<Rightarrow> 'score FoundCycle \<Rightarrow> StateArena \<Rightarrow> FlashLiquiditySnapshot \<Rightarrow> nat \<Rightarrow> (u32 \<Rightarrow> u256 option) \<Rightarrow> (u256 \<times> u32) list" where
  "borrow_candidates now cycle arena flash ttl rates =
     List.map_filter (\<lambda>(addr, token).
       let liq = token_liquidity now flash addr ttl
       in if route_uses_balancer_vault_swap cycle
          then (if tl_aave_listed liq \<and> tl_aave liq \<noteq> 0 \<and> has_reliable_matic_rate token rates
                then Some (tl_aave liq, token) else None)
          else (if token_flash_liquidity_borrowable liq \<and> has_reliable_matic_rate token rates
                then Some (if tl_aave liq \<noteq> 0 then tl_aave liq else tl_balancer liq, token) else None))
       (hop_tokens arena {} (fc_edges cycle))"

definition prefer_aave_flash_start ::
    "nat \<Rightarrow> 'score FoundCycle \<Rightarrow> StateArena \<Rightarrow> FlashLiquiditySnapshot \<Rightarrow> nat \<Rightarrow> (u32 \<Rightarrow> u256 option) \<Rightarrow> 'score FoundCycle" where
  "prefer_aave_flash_start now cycle arena flash ttl rates =
     (if route_is_balancer_only cycle then cycle
      else if \<not> route_uses_balancer_vault_swap cycle \<and>
              \<not> (case token_address arena (fc_start_token cycle) of
                    Some addr \<Rightarrow> token_flash_borrow_proven_unviable now addr flash ttl | None \<Rightarrow> False)
      then cycle
      else case deepest (borrow_candidates now cycle arena flash ttl rates) of
        None \<Rightarrow> cycle
      | Some best \<Rightarrow>
          if best = fc_start_token cycle then cycle
          else or_default (rotate_cycle_to_start cycle best) cycle)"

section \<open>The loan source of a route\<close>

record CycleFlashContext =
  cx_liquidity :: TokenFlashLiquidity
  cx_forbid_balancer_flash :: bool
  cx_balancer_only :: bool
  cx_has_dodo :: bool
  cx_start_addr :: address
  cx_start_fresh :: bool

definition route_balancer_flash_capacity :: "StateArena \<Rightarrow> 'score FoundCycle \<Rightarrow> u256" where
  "route_balancer_flash_capacity arena cycle =
     (case token_address arena (fc_start_token cycle) of
        None \<Rightarrow> 0
      | Some start_addr \<Rightarrow>
          fold (\<lambda>edge best.
            if e_protocol edge \<noteq> BalancerV2 then best
            else case pool_state arena (e_pool_index edge) of
              Some (PBalancer st) \<Rightarrow>
                (case position_of start_addr (bal_tokens st) of
                   None \<Rightarrow> best
                 | Some idx \<Rightarrow>
                     (case nth_opt (bal_balances st) idx of None \<Rightarrow> best | Some bal \<Rightarrow> max best bal))
            | _ \<Rightarrow> best) (fc_edges cycle) 0)"

definition effective_balancer_liquidity :: "u256 \<Rightarrow> u256 \<Rightarrow> u256" where
  "effective_balancer_liquidity snap route_cap =
     (if snap = 0 then route_cap else if route_cap = 0 then snap else min snap route_cap)"

definition build_cycle_flash_context ::
    "nat \<Rightarrow> 'score FoundCycle \<Rightarrow> StateArena \<Rightarrow> FlashLiquiditySnapshot \<Rightarrow> nat \<Rightarrow> CycleFlashContext option" where
  "build_cycle_flash_context now cycle arena flash ttl =
     (case token_address arena (fc_start_token cycle) of
        None \<Rightarrow> None
      | Some start_addr \<Rightarrow>
          let snap = token_liquidity now flash start_addr ttl;
              route_cap = route_balancer_flash_capacity arena cycle;
              has_dodo = (dodo_base_flash_pool_for_cycle arena cycle \<noteq> None)
          in Some \<lparr>cx_liquidity =
                     \<lparr>tl_balancer = effective_balancer_liquidity (tl_balancer snap) route_cap, tl_aave = tl_aave snap,
                      tl_aave_listed = tl_aave_listed snap, tl_dodo = (if has_dodo then - 1 else 0)\<rparr>,
                   cx_forbid_balancer_flash = route_uses_balancer_vault_swap cycle,
                   cx_balancer_only = route_is_balancer_only cycle, cx_has_dodo = has_dodo,
                   cx_start_addr = start_addr, cx_start_fresh = has_fresh now flash start_addr ttl\<rparr>)"

definition flash_reject_reason :: "CycleFlashContext \<Rightarrow> FlashLoanPolicy \<Rightarrow> u256 \<Rightarrow> FlashRejectReason option" where
  "flash_reject_reason ctx policy amount_in =
     (if amount_in = 0 then Some ZeroAmount
      else if cx_balancer_only ctx \<and> cx_forbid_balancer_flash ctx then None
      else
        let plan = plan_flash_loan policy amount_in (cx_liquidity ctx) (cx_forbid_balancer_flash ctx) (cx_balancer_only ctx)
        in if fp_action plan = PlReject
           then (if \<not> cx_start_fresh ctx then Some ColdCache
                 else if cx_forbid_balancer_flash ctx \<and> \<not> cx_balancer_only ctx \<and>
                         (\<not> tl_aave_listed (cx_liquidity ctx) \<or> tl_aave (cx_liquidity ctx) = 0)
                 then Some MixedBalancerNoAave
                 else if policy = FpAaveOnly \<and> \<not> tl_aave_listed (cx_liquidity ctx) then Some AaveUnlisted
                 else Some ZeroLiquidity)
           else (case align_flash_source_for_dispatch (fp_source plan) (cx_liquidity ctx) (cx_balancer_only ctx)
                        (cx_has_dodo ctx) (cx_forbid_balancer_flash ctx) of
                   None \<Rightarrow> Some AlignDispatch
                 | Some _ \<Rightarrow> None))"

definition resolve_flash_source_with_context ::
    "CycleFlashContext \<Rightarrow> FlashLoanPolicy \<Rightarrow> u256 \<Rightarrow> FlashLoanSource option" where
  "resolve_flash_source_with_context ctx policy amount_in =
     (if amount_in = 0 then None
      else
        let plan = plan_flash_loan policy amount_in (cx_liquidity ctx) (cx_forbid_balancer_flash ctx) (cx_balancer_only ctx)
        in if fp_action plan = PlReject
           then (if cx_balancer_only ctx \<and> cx_forbid_balancer_flash ctx then Some FlDirect else None)
           else align_flash_source_for_dispatch (fp_source plan) (cx_liquidity ctx) (cx_balancer_only ctx)
                  (cx_has_dodo ctx) (cx_forbid_balancer_flash ctx))"

definition resolve_flash_source_for_cycle ::
    "nat \<Rightarrow> 'score FoundCycle \<Rightarrow> StateArena \<Rightarrow> FlashLiquiditySnapshot \<Rightarrow> nat \<Rightarrow> FlashLoanPolicy \<Rightarrow> u256 \<Rightarrow>
     FlashLoanSource option" where
  "resolve_flash_source_for_cycle now cycle arena flash ttl policy amount_in =
     Option.bind (build_cycle_flash_context now cycle arena flash ttl)
       (\<lambda>ctx. resolve_flash_source_with_context ctx policy amount_in)"

definition push_flash_token :: "StateArena \<Rightarrow> u32 \<Rightarrow> address set \<times> address list \<Rightarrow> address set \<times> address list" where
  "push_flash_token arena token acc =
     (case token_address arena token of
        Some addr \<Rightarrow> if addr \<in> fst acc then acc else (insert addr (fst acc), snd acc @ [addr])
      | None \<Rightarrow> acc)"

definition collect_flash_tokens_for_cycle ::
    "StateArena \<Rightarrow> 'score FoundCycle \<Rightarrow> address set \<times> address list \<Rightarrow> address set \<times> address list" where
  "collect_flash_tokens_for_cycle arena cycle acc =
     (if route_uses_balancer_vault_swap cycle
      then fold (\<lambda>edge. push_flash_token arena (e_token_in edge)) (fc_edges cycle) acc
      else push_flash_token arena (fc_start_token cycle) acc)"

text \<open>The counters of rejected plans.\<close>

record FlashLoanDiagnostics =
  fd_mixed_no_aave :: u32
  fd_reject_cold_cache :: u32
  fd_reject_zero_liquidity :: u32
  fd_reject_aave_unlisted :: u32
  fd_reject_zero_amount :: u32
  fd_reject_align :: u32
  fd_refresh_tokens :: u32
  fd_cache_generation :: u64

fun record_reject :: "FlashRejectReason \<Rightarrow> FlashLoanDiagnostics \<Rightarrow> FlashLoanDiagnostics" where
  "record_reject ZeroAmount d = d\<lparr>fd_reject_zero_amount := fd_reject_zero_amount d + 1\<rparr>"
| "record_reject ColdCache d = d\<lparr>fd_reject_cold_cache := fd_reject_cold_cache d + 1\<rparr>"
| "record_reject ZeroLiquidity d = d\<lparr>fd_reject_zero_liquidity := fd_reject_zero_liquidity d + 1\<rparr>"
| "record_reject AaveUnlisted d = d\<lparr>fd_reject_aave_unlisted := fd_reject_aave_unlisted d + 1\<rparr>"
| "record_reject MixedBalancerNoAave d = d\<lparr>fd_mixed_no_aave := fd_mixed_no_aave d + 1\<rparr>"
| "record_reject AlignDispatch d = d\<lparr>fd_reject_align := fd_reject_align d + 1\<rparr>"

definition merge_diagnostics :: "FlashLoanDiagnostics \<Rightarrow> FlashLoanDiagnostics \<Rightarrow> FlashLoanDiagnostics" where
  "merge_diagnostics d other =
     \<lparr>fd_mixed_no_aave = fd_mixed_no_aave d + fd_mixed_no_aave other,
      fd_reject_cold_cache = fd_reject_cold_cache d + fd_reject_cold_cache other,
      fd_reject_zero_liquidity = fd_reject_zero_liquidity d + fd_reject_zero_liquidity other,
      fd_reject_aave_unlisted = fd_reject_aave_unlisted d + fd_reject_aave_unlisted other,
      fd_reject_zero_amount = fd_reject_zero_amount d + fd_reject_zero_amount other,
      fd_reject_align = fd_reject_align d + fd_reject_align other,
      fd_refresh_tokens = fd_refresh_tokens d + fd_refresh_tokens other,
      fd_cache_generation = max (fd_cache_generation d) (fd_cache_generation other)\<rparr>"

section \<open>Sequential runs of the cache\<close>

text \<open>What is promised of every entry: a reserve that is not listed has no liquidity, a pinned one is not listed.\<close>

definition flash_cache_inv :: "FlashLiquidityCache \<Rightarrow> bool" where
  "flash_cache_inv c \<longleftrightarrow>
     fl_ttl c = CACHE_TTL \<and>
     finite (fl_hot_tokens c) \<and> card (fl_hot_tokens c) \<le> MAX_HOT_FLASH_TOKENS \<and>
     (\<forall>token e. fs_entries (fl_inner c) token = Some e \<longrightarrow>
        (\<not> tl_aave_listed (cq_snapshot e) \<longrightarrow> tl_aave (cq_snapshot e) = 0) \<and>
        (token \<in> fl_aave_inactive_pins c \<longrightarrow> \<not> tl_aave_listed (cq_snapshot e)))"

lemma liquidity_updates_ok:
  "(token, e) \<in> set (liquidity_updates node now pins results aave_results i j reserves) \<Longrightarrow>
     (\<not> tl_aave_listed (cq_snapshot e) \<longrightarrow> tl_aave (cq_snapshot e) = 0) \<and>
     (token \<in> pins \<longrightarrow> \<not> tl_aave_listed (cq_snapshot e))"
  by (induction node now pins results aave_results i j reserves rule: liquidity_updates.induct)
     (auto simp: Let_def split: if_splits)

lemma aave_reserve_list_frame:
  "aave_reserve_list node now c = (r, c') \<Longrightarrow>
     fl_inner c' = fl_inner c \<and> fl_ttl c' = fl_ttl c \<and> fl_hot_tokens c' = fl_hot_tokens c \<and>
     fl_aave_inactive_pins c' = fl_aave_inactive_pins c \<and> fl_balancer_vault c' = fl_balancer_vault c \<and>
     fl_aave_pool c' = fl_aave_pool c"
  by (auto simp: aave_reserve_list_def fetch_reserve_list_def split: option.splits if_splits)

lemma fetch_updates_ok:
  assumes "fetch_updates node now to_fetch c = (r, c')"
  shows "fl_inner c' = fl_inner c" "fl_ttl c' = fl_ttl c" "fl_hot_tokens c' = fl_hot_tokens c"
    "fl_aave_inactive_pins c' = fl_aave_inactive_pins c"
    "r = Inr updates \<Longrightarrow> (token, e) \<in> set updates \<Longrightarrow>
       (\<not> tl_aave_listed (cq_snapshot e) \<longrightarrow> tl_aave (cq_snapshot e) = 0) \<and>
       (token \<in> fl_aave_inactive_pins c \<longrightarrow> \<not> tl_aave_listed (cq_snapshot e))"
proof -
  obtain rs c1 where list: "aave_reserve_list node now c = (rs, c1)"
    by fastforce
  note frame = aave_reserve_list_frame [OF list]
  have c': "c' = c1"
    using assms by (auto simp: fetch_updates_def list Let_def split: sum.splits)
  show "fl_inner c' = fl_inner c" "fl_ttl c' = fl_ttl c" "fl_hot_tokens c' = fl_hot_tokens c"
    "fl_aave_inactive_pins c' = fl_aave_inactive_pins c"
    using frame by (simp_all add: c')
  show "(\<not> tl_aave_listed (cq_snapshot e) \<longrightarrow> tl_aave (cq_snapshot e) = 0) \<and>
       (token \<in> fl_aave_inactive_pins c \<longrightarrow> \<not> tl_aave_listed (cq_snapshot e))"
    if "r = Inr updates" "(token, e) \<in> set updates"
    using assms that frame
    by (auto simp: fetch_updates_def list Let_def split: sum.splits dest: liquidity_updates_ok)
qed

lemma publish_keeps_inv:
  assumes "flash_cache_inv c"
    and "\<And>token e. (token, e) \<in> set updates \<Longrightarrow>
       (\<not> tl_aave_listed (cq_snapshot e) \<longrightarrow> tl_aave (cq_snapshot e) = 0) \<and>
       (token \<in> fl_aave_inactive_pins c \<longrightarrow> \<not> tl_aave_listed (cq_snapshot e))"
  shows "flash_cache_inv (snd (publish_updates updates c))"
proof -
  have "(token, e) \<in> set updates" if "map_of (rev updates) token = Some e" for token e
    using map_of_SomeD [OF that] by simp
  with assms show ?thesis
    by (auto simp: flash_cache_inv_def publish_updates_def Let_def map_add_Some_iff)
qed

lemma track_keeps_inv:
  assumes "flash_cache_inv c"
  shows "flash_cache_inv (track_hot_tokens tokens c)"
proof -
  let ?current = "take MAX_HOT_FLASH_TOKENS (remdups_adj (sort tokens))"
  let ?prior = "take (MAX_HOT_FLASH_TOKENS - length ?current)
    (sorted_list_of_set {token \<in> fl_hot_tokens c \<union> set tokens. token \<notin> set ?current})"
  have "card (set ?current \<union> set ?prior) \<le> length ?current + length ?prior"
    by (rule order_trans [OF card_Un_le]) (intro add_mono card_length)
  also have "\<dots> \<le> MAX_HOT_FLASH_TOKENS"
    by simp
  finally show ?thesis
    using assms by (simp add: flash_cache_inv_def track_hot_tokens_def Let_def)
qed

lemma invalidate_keeps_inv: "flash_cache_inv c \<Longrightarrow> flash_cache_inv (invalidate_batch tokens c)"
  by (auto simp: flash_cache_inv_def invalidate_batch_def split: if_splits)

lemma mark_keeps_inv: "flash_cache_inv c \<Longrightarrow> flash_cache_inv (mark_aave_inactive now token c)"
  by (auto simp: flash_cache_inv_def mark_aave_inactive_def Let_def)

lemma fetch_and_publish_keeps_inv:
  assumes "flash_cache_inv c"
  shows "flash_cache_inv (snd (fetch_and_publish node now to_fetch c))"
proof -
  obtain r c' where fetch: "fetch_updates node now to_fetch c = (r, c')"
    by fastforce
  note ok = fetch_updates_ok [OF fetch]
  have "flash_cache_inv c'"
    using assms ok(1-4) by (simp add: flash_cache_inv_def)
  moreover from this have "flash_cache_inv (snd (publish_updates updates c'))" if "r = Inr updates" for updates
    by (rule publish_keeps_inv) (use ok(5) [OF that] ok(4) in auto)
  ultimately show ?thesis
    using assms by (auto simp: fetch_and_publish_def fetch split: sum.splits)
qed

lemma refresh_keeps_inv:
  assumes "flash_cache_inv c"
  shows "flash_cache_inv (snd (refresh node now tokens c))"
  using fetch_and_publish_keeps_inv [OF track_keeps_inv [OF assms]] track_keeps_inv [OF assms]
  by (auto simp: refresh_def Let_def split: prod.splits sum.splits) (metis snd_conv)+

text \<open>Runs in which a refresh is not interrupted, with the set of the tokens that were marked.\<close>

inductive flash_cache_run :: "address set \<Rightarrow> FlashLiquidityCache \<Rightarrow> bool" where
  start: "flash_cache_run {} new_flash_cache"
| refreshed: "flash_cache_run M c \<Longrightarrow> flash_cache_run M (snd (refresh node now tokens c))"
| tracked: "flash_cache_run M c \<Longrightarrow> flash_cache_run M (track_hot_tokens tokens c)"
| invalidated: "flash_cache_run M c \<Longrightarrow> flash_cache_run M (invalidate_batch tokens c)"
| marked: "flash_cache_run M c \<Longrightarrow> flash_cache_run (insert token M) (mark_aave_inactive now token c)"
| acquired: "flash_cache_run M c \<Longrightarrow> flash_cache_run M (snd (try_acquire_refresh_inflight c))"
| released: "flash_cache_run M c \<Longrightarrow> flash_cache_run M (release_refresh_inflight c)"

lemma pins_frame [simp]:
  "fl_aave_inactive_pins (snd (publish_updates updates c)) = fl_aave_inactive_pins c"
  "fl_aave_inactive_pins (track_hot_tokens tokens c) = fl_aave_inactive_pins c"
  "fl_aave_inactive_pins (invalidate_batch tokens c) = fl_aave_inactive_pins c"
  "fl_aave_inactive_pins (mark_aave_inactive now token c) = insert token (fl_aave_inactive_pins c)"
  "fl_aave_inactive_pins (snd (try_acquire_refresh_inflight c)) = fl_aave_inactive_pins c"
  "fl_aave_inactive_pins (release_refresh_inflight c) = fl_aave_inactive_pins c"
  by (simp_all add: publish_updates_def track_hot_tokens_def invalidate_batch_def mark_aave_inactive_def
      try_acquire_refresh_inflight_def release_refresh_inflight_def Let_def)

lemma fetch_and_publish_pins [simp]:
  "fl_aave_inactive_pins (snd (fetch_and_publish node now to_fetch c)) = fl_aave_inactive_pins c"
proof -
  obtain r c' where fetch: "fetch_updates node now to_fetch c = (r, c')"
    by fastforce
  show ?thesis
    using fetch_updates_ok(4) [OF fetch] by (auto simp: fetch_and_publish_def fetch split: sum.splits)
qed

lemma refresh_pins [simp]: "fl_aave_inactive_pins (snd (refresh node now tokens c)) = fl_aave_inactive_pins c"
proof -
  obtain r c' where fetch: "fetch_and_publish node now (stale_tokens now (track_hot_tokens tokens c) tokens)
      (track_hot_tokens tokens c) = (r, c')"
    by fastforce
  show ?thesis
    using fetch_and_publish_pins [of node now "stale_tokens now (track_hot_tokens tokens c) tokens" "track_hot_tokens tokens c"]
    by (simp add: refresh_def fetch Let_def split: sum.splits)
qed

lemma flash_cache_run_inv: "flash_cache_run M c \<Longrightarrow> flash_cache_inv c \<and> fl_aave_inactive_pins c = M"
proof (induction rule: flash_cache_run.induct)
  case start
  show ?case by (simp add: flash_cache_inv_def new_flash_cache_def)
next
  case (acquired c)
  then show ?case by (simp add: flash_cache_inv_def try_acquire_refresh_inflight_def)
next
  case (released c)
  then show ?case by (simp add: flash_cache_inv_def release_refresh_inflight_def)
qed (simp_all add: refresh_keeps_inv track_keeps_inv invalidate_keeps_inv mark_keeps_inv)

lemma fresh_liquidity_ok:
  assumes "flash_cache_inv c"
  shows "\<not> tl_aave_listed (token_liquidity now (fl_inner c) token ttl) \<Longrightarrow>
           tl_aave (token_liquidity now (fl_inner c) token ttl) = 0"
    and "token \<in> fl_aave_inactive_pins c \<Longrightarrow> \<not> tl_aave_listed (token_liquidity now (fl_inner c) token ttl)"
  using assms
  by (auto simp: flash_cache_inv_def token_liquidity_def no_flash_liquidity_def split: option.splits if_splits)

section \<open>Funded plans\<close>

fun lendable :: "TokenFlashLiquidity \<Rightarrow> FlashLoanSource \<Rightarrow> u256" where
  "lendable liq FlBalancer = tl_balancer liq"
| "lendable liq FlAaveV3 = (if tl_aave_listed liq then tl_aave liq else 0)"
| "lendable liq FlDodo = tl_dodo liq"
| "lendable liq FlDirect = - 1"

definition funded_plan :: "u256 \<Rightarrow> TokenFlashLiquidity \<Rightarrow> FlashPlan \<Rightarrow> bool" where
  "funded_plan amount_in liq plan \<longleftrightarrow>
     fp_cap plan = min amount_in (lendable liq (fp_source plan)) \<and> fp_cap plan \<noteq> 0 \<and>
     fp_action plan = (if lendable liq (fp_source plan) \<ge> amount_in then PlDirect else PlCapAndReoptimize)"

lemma plan_single_funded:
  assumes "fp_action (plan_single source amount_in available) \<noteq> PlReject" "amount_in \<noteq> 0" "available = lendable liq source"
  shows "funded_plan amount_in liq (plan_single source amount_in available)"
  using assms by (simp add: plan_single_def funded_plan_def min_def split: if_splits)

lemma plan_auto_funded:
  assumes "\<not> tl_aave_listed liq \<longrightarrow> tl_aave liq = 0" "tl_dodo liq = 0" "amount_in \<noteq> 0"
    and "fp_action (plan_auto amount_in liq True) \<noteq> PlReject"
  shows "funded_plan amount_in liq (plan_auto amount_in liq True)"
proof -
  consider (balancer) "tl_balancer liq \<ge> amount_in"
    | (aave) "\<not> amount_in \<le> tl_balancer liq" "tl_aave_listed liq" "tl_aave liq \<ge> amount_in"
    | (neither) "\<not> amount_in \<le> tl_balancer liq" "\<not> (tl_aave_listed liq \<and> amount_in \<le> tl_aave liq)"
    by blast
  then show ?thesis
  proof cases
    case balancer
    then have "plan_auto amount_in liq True = \<lparr>fp_source = FlBalancer, fp_action = PlDirect, fp_cap = amount_in\<rparr>"
      by (simp add: plan_auto_def)
    with balancer assms(3) show ?thesis
      by (simp add: funded_plan_def min_def)
  next
    case aave
    then have "plan_auto amount_in liq True = \<lparr>fp_source = FlAaveV3, fp_action = PlDirect, fp_cap = amount_in\<rparr>"
      by (simp add: plan_auto_def)
    with aave assms(3) show ?thesis
      by (simp add: funded_plan_def min_def)
  next
    case neither
    then have "plan_auto amount_in liq True =
        (if max (tl_balancer liq) (tl_aave liq) = 0 then \<lparr>fp_source = FlBalancer, fp_action = PlReject, fp_cap = 0\<rparr>
         else \<lparr>fp_source = (if tl_balancer liq \<noteq> 0 \<and> tl_balancer liq \<ge> tl_aave liq then FlBalancer
                 else if tl_aave_listed liq then FlAaveV3 else FlDodo),
               fp_action = PlCapAndReoptimize, fp_cap = max (tl_balancer liq) (tl_aave liq)\<rparr>)"
      using assms(2,3) by (auto simp: plan_auto_def)
    with neither assms show ?thesis
      by (auto simp: funded_plan_def min_def max_def split: if_splits)
  qed
qed

lemma plan_funded:
  assumes "\<not> tl_aave_listed liq \<longrightarrow> tl_aave liq = 0" "tl_dodo liq = 0"
    and "fp_action (plan_flash_loan policy amount_in liq forbid only) \<noteq> PlReject"
  shows "funded_plan amount_in liq (plan_flash_loan policy amount_in liq forbid only)"
proof -
  have nz: "amount_in \<noteq> 0"
    using assms(3) by (auto simp: plan_flash_loan_def)
  have direct: "funded_plan amount_in liq \<lparr>fp_source = FlDirect, fp_action = PlDirect, fp_cap = amount_in\<rparr>"
    using nz by (simp add: funded_plan_def min_def)
  show ?thesis
    using assms(2,3) nz
    by (auto simp: plan_flash_loan_def direct plan_single_funded plan_auto_funded [OF assms(1,2) nz]
        split: if_splits FlashLoanPolicy.splits)
qed

lemma context_liquidity:
  assumes "build_cycle_flash_context now cycle arena snap ttl = Some ctx"
  shows "tl_dodo (cx_liquidity ctx) = 0" "\<not> cx_has_dodo ctx"
    "tl_aave (cx_liquidity ctx) = tl_aave (token_liquidity now snap (cx_start_addr ctx) ttl)"
    "tl_aave_listed (cx_liquidity ctx) = tl_aave_listed (token_liquidity now snap (cx_start_addr ctx) ttl)"
  using assms
  by (auto simp: build_cycle_flash_context_def dodo_base_flash_pool_for_cycle_def Let_def split: option.splits)

section \<open>Every token gets its own answers\<close>

text \<open>
  The reserve and the liquidity of one token, read off the answers of a node that answers every call of a batch
  independently of the others.
\<close>

definition own_reserve ::
    "FlashNode \<Rightarrow> (FlashCall \<Rightarrow> abi_bytes option) \<Rightarrow> FlashLiquidityCache \<Rightarrow> address set option \<Rightarrow> address \<Rightarrow> address option" where
  "own_reserve node answer c aave_reserves token =
     (if token \<in> fl_aave_inactive_pins c \<or> \<not> aave_reserve_needs_fetch aave_reserves token then None
      else case Option.bind (answer (GetReserveData (fl_aave_pool c) token)) (fn_reserve_data node) of
        None \<Rightarrow> None
      | Some (a_token, configuration) \<Rightarrow>
          if reserve_status_from_config configuration (a_token \<noteq> 0) = Viable then Some a_token else None)"

definition own_balance :: "FlashNode \<Rightarrow> (FlashCall \<Rightarrow> abi_bytes option) \<Rightarrow> address \<Rightarrow> address \<Rightarrow> u256" where
  "own_balance node answer token account =
     or_default (Option.bind (answer (BalanceOf token account)) (fn_balance node)) 0"

definition own_liquidity ::
    "FlashNode \<Rightarrow> (FlashCall \<Rightarrow> abi_bytes option) \<Rightarrow> FlashLiquidityCache \<Rightarrow> address set option \<Rightarrow> address \<Rightarrow>
     TokenFlashLiquidity" where
  "own_liquidity node answer c aave_reserves token =
     \<lparr>tl_balancer = own_balance node answer token (fl_balancer_vault c),
      tl_aave = (case own_reserve node answer c aave_reserves token of
                   Some a_token \<Rightarrow> own_balance node answer token a_token | None \<Rightarrow> 0),
      tl_aave_listed = own_reserve node answer c aave_reserves token \<noteq> None, tl_dodo = 0\<rparr>"

lemma nth_opt_drop:
  "drop i xs = y # ys \<Longrightarrow> nth_opt xs i = Some y \<and> drop (Suc i) xs = ys"
  by (metis drop_Suc drop_all list.discI list.sel(3) nth_opt_def nth_via_drop not_le tl_drop)

lemma usable_reserves_own:
  assumes "drop cursor results = map (\<lambda>token. answer (GetReserveData (fl_aave_pool c) token))
      (filter (aave_reserve_needs_fetch rs) tokens)"
  shows "usable_reserves node rs (fl_aave_inactive_pins c) results cursor tokens = map (own_reserve node answer c rs) tokens"
  using assms
proof (induction tokens arbitrary: cursor)
  case (Cons token tokens)
  show ?case
  proof (cases "aave_reserve_needs_fetch rs token")
    case True
    with Cons.prems have "nth_opt results cursor = Some (answer (GetReserveData (fl_aave_pool c) token))"
      and "drop (Suc cursor) results = map (\<lambda>token. answer (GetReserveData (fl_aave_pool c) token))
        (filter (aave_reserve_needs_fetch rs) tokens)"
      using nth_opt_drop [of cursor results] by auto
    with True show ?thesis
      by (simp add: own_reserve_def Cons.IH Let_def split: option.splits)
  qed (use Cons in \<open>simp add: own_reserve_def Let_def\<close>)
qed simp

lemma decode_balance_own:
  "decode_balance (fn_balance node) (Some (answer (BalanceOf token account))) = own_balance node answer token account"
  by (simp add: decode_balance_def own_balance_def or_default_def split: option.splits)

lemma liquidity_updates_own:
  assumes "drop i results = map (\<lambda>token. answer (BalanceOf token (fl_balancer_vault c))) tokens @ rest"
    and "drop j aave_results = map answer (balance_calls (zip tokens (map (own_reserve node answer c rs) tokens)))"
  shows "liquidity_updates node now (fl_aave_inactive_pins c) results aave_results i j
      (zip tokens (map (own_reserve node answer c rs) tokens)) =
    map (\<lambda>token. (token, \<lparr>cq_snapshot = own_liquidity node answer c rs token, cq_fetched_at = now\<rparr>)) tokens"
  using assms
proof (induction tokens arbitrary: i j)
  case (Cons token tokens)
  have first: "nth_opt results i = Some (answer (BalanceOf token (fl_balancer_vault c)))"
    "drop (Suc i) results = map (\<lambda>token. answer (BalanceOf token (fl_balancer_vault c))) tokens @ rest"
    using Cons.prems(1) nth_opt_drop [of i results] by auto
  show ?case
  proof (cases "own_reserve node answer c rs token")
    case None
    then have "drop j aave_results = map answer (balance_calls (zip tokens (map (own_reserve node answer c rs) tokens)))"
      using Cons.prems(2) by (simp add: balance_calls_def List.map_filter_simps)
    then show ?thesis
      using Cons.IH [OF first(2)] first(1) None by (simp add: own_liquidity_def decode_balance_own)
  next
    case (Some a_token)
    then have second: "nth_opt aave_results j = Some (answer (BalanceOf token a_token))"
      "drop (Suc j) aave_results = map answer (balance_calls (zip tokens (map (own_reserve node answer c rs) tokens)))"
      using Cons.prems(2) nth_opt_drop [of j aave_results] by (auto simp: balance_calls_def List.map_filter_simps)
    have "token \<notin> fl_aave_inactive_pins c"
      using Some by (auto simp: own_reserve_def split: if_splits)
    then show ?thesis
      using Cons.IH [OF first(2) second(2)] first(1) second(1) Some by (simp add: own_liquidity_def decode_balance_own)
  qed
qed simp

lemma map_of_rev_const: "map_of (rev (map (\<lambda>t. (t, f t)) ts)) t = (if t \<in> set ts then Some (f t) else None)"
  by (simp add: rev_map map_of_map_restrict)

lemma own_frame:
  assumes "fl_aave_inactive_pins c' = fl_aave_inactive_pins c" "fl_aave_pool c' = fl_aave_pool c"
    "fl_balancer_vault c' = fl_balancer_vault c"
  shows "own_reserve node answer c' = own_reserve node answer c" "own_liquidity node answer c' = own_liquidity node answer c"
  using assms by (simp_all add: own_liquidity_def own_reserve_def fun_eq_iff)

lemma fetch_updates_own:
  assumes answers: "\<forall>k calls. fn_multicall node k calls = Inr (map answer calls)"
    and list: "aave_reserve_list node now c = (rs, c1)"
  shows "fetch_updates node now to_fetch c =
    (Inr (map (\<lambda>token. (token, \<lparr>cq_snapshot = own_liquidity node answer c rs token, cq_fetched_at = now\<rparr>)) to_fetch), c1)"
proof -
  note frame = aave_reserve_list_frame [OF list]
  have own: "own_reserve node answer c1 = own_reserve node answer c" "own_liquidity node answer c1 = own_liquidity node answer c"
    by (rule own_frame; use frame in simp)+
  let ?results = "map answer (state_calls c1 rs to_fetch)"
  let ?reserves = "zip to_fetch (map (own_reserve node answer c1 rs) to_fetch)"
  have usable: "usable_reserves node rs (fl_aave_inactive_pins c1) ?results (length to_fetch) to_fetch =
      map (own_reserve node answer c1 rs) to_fetch"
    by (rule usable_reserves_own) (simp add: state_calls_def)
  have "liquidity_updates node now (fl_aave_inactive_pins c1) ?results (map answer (balance_calls ?reserves)) 0 0 ?reserves =
      map (\<lambda>token. (token, \<lparr>cq_snapshot = own_liquidity node answer c1 rs token, cq_fetched_at = now\<rparr>)) to_fetch"
    by (rule liquidity_updates_own [where rest = "map answer (map (GetReserveData (fl_aave_pool c1))
          (filter (aave_reserve_needs_fetch rs) to_fetch))"]) (simp_all add: state_calls_def)
  with answers show ?thesis
    by (auto simp: fetch_updates_def list usable Let_def own(2))
qed

section \<open>Properties\<close>

text \<open>
  Property C12. A refresh stores for every token the answers to that token's own calls: its balance in the vault,
  whether its reserve lends, and its balance at its own lending token. All calls travel in batches whose answers
  are told apart by position only, with reserves left out for tokens the pool does not list and for pinned ones.
  Other tokens keep their entries.
\<close>

theorem refresh_reads_own_answers:
  assumes "\<forall>k calls. fn_multicall node k calls = Inr (map answer calls)"
    and "aave_reserve_list node now c = (rs, c1)"
  shows "\<exists>c'. fetch_and_publish node now to_fetch c = (Inr (), c') \<and>
    (\<forall>token. fs_entries (fl_inner c') token =
       (if token \<in> set to_fetch
        then Some \<lparr>cq_snapshot = own_liquidity node answer c rs token, cq_fetched_at = now\<rparr>
        else fs_entries (fl_inner c) token))"
proof (cases "to_fetch = []")
  case False
  then show ?thesis
    using aave_reserve_list_frame [OF assms(2)]
    by (simp add: fetch_and_publish_def fetch_updates_own [OF assms] publish_updates_def map_of_rev_const map_add_def Let_def)
qed (simp add: fetch_and_publish_def)

text \<open>A node with three tokens, whose balances are their addresses and whose reserve of token 3 is paused.\<close>

definition sample_flash_answer :: "FlashCall \<Rightarrow> abi_bytes option" where
  "sample_flash_answer call =
     (case call of
        GetReservesList _ \<Rightarrow> Some [1, 2, 3]
      | BalanceOf token account \<Rightarrow> Some [ucast token, if account = BALANCER_VAULT then 0 else ucast account]
      | GetReserveData _ token \<Rightarrow> Some [ucast token])"

definition sample_flash_node :: FlashNode where
  "sample_flash_node =
     \<lparr>fn_multicall = (\<lambda>_ calls. Inr (map sample_flash_answer calls)),
      fn_reserves_list = (\<lambda>bytes. Some (map ucast bytes)),
      fn_reserve_data = (\<lambda>bytes. Some (ucast (hd bytes) + 100, if bytes = [3] then 0x9100000000000000 else 0x8100000000000000)),
      fn_balance = (\<lambda>bytes. Some (fold (\<lambda>b n. n * 256 + ucast b) bytes 0))\<rparr>"

lemma sample_reserve_list:
  "aave_reserve_list sample_flash_node 5 new_flash_cache =
     (Some {1, 2, 3}, new_flash_cache\<lparr>fl_aave_reserves := Some \<lparr>ca_tokens = {1, 2, 3}, ca_fetched_at = 5\<rparr>\<rparr>)"
  by (simp add: aave_reserve_list_def fetch_reserve_list_def new_flash_cache_def sample_flash_node_def sample_flash_answer_def)

lemmas sample_flash_defs = own_liquidity_def own_reserve_def own_balance_def new_flash_cache_def
  aave_reserve_needs_fetch_def sample_flash_node_def sample_flash_answer_def reserve_status_from_config_def
  aave_cfg_bit_set_def AAVE_CFG_ACTIVE_BIT_def AAVE_CFG_PAUSED_BIT_def AAVE_CFG_FLASH_BIT_def BALANCER_VAULT_def
  or_default_def

lemma sample_own_liquidity:
  "own_liquidity sample_flash_node sample_flash_answer new_flash_cache (Some {1, 2, 3}) 2 =
     \<lparr>tl_balancer = 512, tl_aave = 614, tl_aave_listed = True, tl_dodo = 0\<rparr>"
  "own_liquidity sample_flash_node sample_flash_answer new_flash_cache (Some {1, 2, 3}) 3 =
     \<lparr>tl_balancer = 768, tl_aave = 0, tl_aave_listed = False, tl_dodo = 0\<rparr>"
  "own_liquidity sample_flash_node sample_flash_answer new_flash_cache (Some {1, 2, 3}) 4 =
     \<lparr>tl_balancer = 1024, tl_aave = 0, tl_aave_listed = False, tl_dodo = 0\<rparr>"
  by (simp_all add: sample_flash_defs)

lemma sample_node_answers: "\<forall>k calls. fn_multicall sample_flash_node k calls = Inr (map sample_flash_answer calls)"
  by (simp add: sample_flash_node_def)

theorem refresh_reads_own_answers_witness:
  "\<exists>c'. fetch_and_publish sample_flash_node 5 [2, 3, 4] new_flash_cache = (Inr (), c') \<and>
     fs_entries (fl_inner c') 2 =
       Some \<lparr>cq_snapshot = \<lparr>tl_balancer = 512, tl_aave = 614, tl_aave_listed = True, tl_dodo = 0\<rparr>, cq_fetched_at = 5\<rparr> \<and>
     fs_entries (fl_inner c') 3 =
       Some \<lparr>cq_snapshot = \<lparr>tl_balancer = 768, tl_aave = 0, tl_aave_listed = False, tl_dodo = 0\<rparr>, cq_fetched_at = 5\<rparr> \<and>
     fs_entries (fl_inner c') 4 =
       Some \<lparr>cq_snapshot = \<lparr>tl_balancer = 1024, tl_aave = 0, tl_aave_listed = False, tl_dodo = 0\<rparr>, cq_fetched_at = 5\<rparr>"
  using refresh_reads_own_answers [OF sample_node_answers sample_reserve_list, of "[2, 3, 4]"] sample_own_liquidity by auto

text \<open>
  Property C13. A plan that is not rejected is funded. In a context built from a cache that was used without
  interrupted refreshes, the planned cap is the smaller of the amount asked for and what the chosen lender holds
  of the start token, it is not zero, and the amount is kept exactly when the lender can lend all of it.
\<close>

theorem flash_plan_funded:
  assumes "flash_cache_run M c"
    and "build_cycle_flash_context now cycle arena (fl_inner c) (fl_ttl c) = Some ctx"
    and "plan = plan_flash_loan policy amount_in (cx_liquidity ctx) (cx_forbid_balancer_flash ctx) (cx_balancer_only ctx)"
    and "fp_action plan \<noteq> PlReject"
  shows "fp_cap plan = min amount_in (lendable (cx_liquidity ctx) (fp_source plan)) \<and> fp_cap plan \<noteq> 0 \<and>
         (fp_action plan = PlDirect \<longleftrightarrow> amount_in \<le> lendable (cx_liquidity ctx) (fp_source plan))"
proof -
  have "\<not> tl_aave_listed (cx_liquidity ctx) \<longrightarrow> tl_aave (cx_liquidity ctx) = 0"
    using fresh_liquidity_ok(1) [OF conjunct1 [OF flash_cache_run_inv [OF assms(1)]]] context_liquidity(3,4) [OF assms(2)]
    by simp
  from plan_funded [OF this context_liquidity(1) [OF assms(2)]] have "funded_plan amount_in (cx_liquidity ctx) plan"
    using assms(3,4) by blast
  then show ?thesis
    by (auto simp: funded_plan_def)
qed

text \<open>
  Property C35. The reason of a rejection and the choice of a source agree: a reason is given exactly for the amounts
  for which no source is resolved, so that every route without a source is counted under one reason and no
  route with a source is.
\<close>

theorem flash_reject_iff_no_source:
  "flash_reject_reason ctx policy amount_in = None \<longleftrightarrow> resolve_flash_source_with_context ctx policy amount_in \<noteq> None"
proof (cases "cx_balancer_only ctx \<and> cx_forbid_balancer_flash ctx \<and> amount_in \<noteq> 0")
  case True
  then have "plan_flash_loan policy amount_in (cx_liquidity ctx) True True =
      \<lparr>fp_source = FlDirect, fp_action = PlDirect, fp_cap = amount_in\<rparr>"
    by (simp add: plan_flash_loan_def)
  with True show ?thesis
    by (simp add: flash_reject_reason_def resolve_flash_source_with_context_def align_flash_source_for_dispatch_def)
qed (auto simp: flash_reject_reason_def resolve_flash_source_with_context_def Let_def split: option.splits)

text \<open>A cycle of two pairs that starts with a token of which the vault holds 512 and the reserve 614.\<close>

definition sample_flash_arena :: StateArena where
  "sample_flash_arena = sample_arena\<lparr>ar_tokens := [2, 7]\<rparr>"

definition sample_flash_cycle :: "nat FoundCycle" where
  "sample_flash_cycle = \<lparr>fc_start_token = 0, fc_edges = [sample_v2_edge], fc_hop_count = 1, fc_log_weight = 0,
     fc_cumulative_fee_bps = 30, fc_score = 0, fc_cycle_ratio = 0\<rparr>"

definition sample_flash_cache :: FlashLiquidityCache where
  "sample_flash_cache = snd (refresh sample_flash_node 5 [2] new_flash_cache)"

lemma sample_flash_run: "flash_cache_run {} sample_flash_cache"
  by (simp add: sample_flash_cache_def flash_cache_run.intros)

lemma sample_flash_liquidity:
  "token_liquidity 6 (fl_inner sample_flash_cache) 2 (fl_ttl sample_flash_cache) =
     \<lparr>tl_balancer = 512, tl_aave = 614, tl_aave_listed = True, tl_dodo = 0\<rparr>"
  "has_fresh 6 (fl_inner sample_flash_cache) 2 (fl_ttl sample_flash_cache)"
proof -
  let ?c = "new_flash_cache\<lparr>fl_hot_tokens := {2}\<rparr>"
  have tracked: "track_hot_tokens [2] new_flash_cache = ?c" "stale_tokens 5 ?c [2] = [2]"
    by (simp_all add: track_hot_tokens_def new_flash_cache_def MAX_HOT_FLASH_TOKENS_def stale_tokens_def Let_def)
  have list: "aave_reserve_list sample_flash_node 5 ?c =
      (Some {1, 2, 3}, ?c\<lparr>fl_aave_reserves := Some \<lparr>ca_tokens = {1, 2, 3}, ca_fetched_at = 5\<rparr>\<rparr>)"
    by (simp add: aave_reserve_list_def fetch_reserve_list_def new_flash_cache_def sample_flash_node_def
        sample_flash_answer_def)
  have own: "own_liquidity sample_flash_node sample_flash_answer ?c = own_liquidity sample_flash_node sample_flash_answer new_flash_cache"
    by (rule own_frame) simp_all
  have "fs_entries (fl_inner sample_flash_cache) 2 =
      Some \<lparr>cq_snapshot = \<lparr>tl_balancer = 512, tl_aave = 614, tl_aave_listed = True, tl_dodo = 0\<rparr>, cq_fetched_at = 5\<rparr>"
    and "fl_ttl sample_flash_cache = CACHE_TTL"
    by (simp_all add: sample_flash_cache_def refresh_def tracked fetch_and_publish_def
        fetch_updates_own [OF sample_node_answers list] own publish_updates_def sample_own_liquidity Let_def)
       (simp add: new_flash_cache_def)
  then show "token_liquidity 6 (fl_inner sample_flash_cache) 2 (fl_ttl sample_flash_cache) =
      \<lparr>tl_balancer = 512, tl_aave = 614, tl_aave_listed = True, tl_dodo = 0\<rparr>"
    "has_fresh 6 (fl_inner sample_flash_cache) 2 (fl_ttl sample_flash_cache)"
    by (simp_all add: token_liquidity_def has_fresh_def CACHE_TTL_def)
qed

lemma sample_flash_context:
  "build_cycle_flash_context 6 sample_flash_cycle sample_flash_arena (fl_inner sample_flash_cache) (fl_ttl sample_flash_cache) =
     Some \<lparr>cx_liquidity = \<lparr>tl_balancer = 512, tl_aave = 614, tl_aave_listed = True, tl_dodo = 0\<rparr>,
           cx_forbid_balancer_flash = False, cx_balancer_only = False, cx_has_dodo = False, cx_start_addr = 2,
           cx_start_fresh = True\<rparr>"
proof -
  have "token_address sample_flash_arena 0 = Some 2"
    by (simp add: token_address_def sample_flash_arena_def nth_opt_def)
  moreover have "route_balancer_flash_capacity sample_flash_arena sample_flash_cycle = 0"
    "\<not> route_uses_balancer_vault_swap sample_flash_cycle" "\<not> route_is_balancer_only sample_flash_cycle"
    by (simp_all add: route_balancer_flash_capacity_def route_uses_balancer_vault_swap_def route_is_balancer_only_def
        sample_flash_cycle_def sample_v2_edge_def split: option.splits)
  ultimately show ?thesis
    using sample_flash_liquidity
    by (simp add: build_cycle_flash_context_def sample_flash_cycle_def dodo_base_flash_pool_for_cycle_def
        effective_balancer_liquidity_def Let_def)
qed

theorem flash_plan_funded_witness:
  "plan_flash_loan FpAuto 1000 \<lparr>tl_balancer = 512, tl_aave = 614, tl_aave_listed = True, tl_dodo = 0\<rparr> False False =
     \<lparr>fp_source = FlAaveV3, fp_action = PlCapAndReoptimize, fp_cap = 614\<rparr> \<and>
   min 1000 (lendable \<lparr>tl_balancer = 512, tl_aave = 614, tl_aave_listed = True, tl_dodo = 0\<rparr> FlAaveV3) = 614"
proof -
  have plan: "plan_flash_loan FpAuto 1000 \<lparr>tl_balancer = 512, tl_aave = 614, tl_aave_listed = True, tl_dodo = 0\<rparr> False False =
      \<lparr>fp_source = FlAaveV3, fp_action = PlCapAndReoptimize, fp_cap = 614\<rparr>"
    by (simp add: plan_flash_loan_def plan_auto_def)
  show ?thesis
    using flash_plan_funded [OF sample_flash_run sample_flash_context refl, of FpAuto 1000] plan by simp
qed



text \<open>
  Property C37. A refresh in flight brings a marked reserve back. The pins are read before the balances of the lending
  tokens are awaited; when a dry run marks the reserve during that wait, the mark is overwritten by the publication
  and the token is again viable for dispatch although it is pinned.
\<close>

theorem refresh_in_flight_revives_reserve:
  "case fetch_updates sample_flash_node 5 [2] new_flash_cache of
     (Inr updates, c) \<Rightarrow>
       (let c = snd (publish_updates updates (mark_aave_inactive 6 2 c))
        in 2 \<in> fl_aave_inactive_pins c \<and> aave_viable_for_dispatch 7 c 2)
   | _ \<Rightarrow> False"
proof -
  have "fl_ttl new_flash_cache = 30000"
    by (simp add: new_flash_cache_def CACHE_TTL_def)
  then show ?thesis
    by (simp add: fetch_updates_own [OF sample_node_answers sample_reserve_list] sample_own_liquidity publish_updates_def
        mark_aave_inactive_def aave_viable_for_dispatch_def has_fresh_def token_liquidity_def Let_def)
qed

text \<open>
  The alignment of a source with the executor ignores the amount. For a route of pairs whose loan the
  vault covers, the plan is the vault, and the alignment replaces it by Aave because Aave holds something of the
  token, here less than the amount.
\<close>

theorem aligned_source_unfunded:
  "resolve_flash_source_for_cycle 6 sample_flash_cycle sample_flash_arena
     \<lparr>fs_generation = 1, fs_entries = [2 \<mapsto> \<lparr>cq_snapshot =
        \<lparr>tl_balancer = 1000, tl_aave = 1, tl_aave_listed = True, tl_dodo = 0\<rparr>, cq_fetched_at = 5\<rparr>]\<rparr> CACHE_TTL FpAuto 500 =
     Some FlAaveV3 \<and>
   plan_flash_loan FpAuto 500 \<lparr>tl_balancer = 1000, tl_aave = 1, tl_aave_listed = True, tl_dodo = 0\<rparr> False False =
     \<lparr>fp_source = FlBalancer, fp_action = PlDirect, fp_cap = 500\<rparr>"
proof -
  have plan: "plan_flash_loan FpAuto 500 \<lparr>tl_balancer = 1000, tl_aave = 1, tl_aave_listed = True, tl_dodo = 0\<rparr> False False =
     \<lparr>fp_source = FlBalancer, fp_action = PlDirect, fp_cap = 500\<rparr>"
    by (simp add: plan_flash_loan_def plan_auto_def)
  have "token_address sample_flash_arena 0 = Some 2"
    by (simp add: token_address_def sample_flash_arena_def nth_opt_def)
  moreover have "route_balancer_flash_capacity sample_flash_arena sample_flash_cycle = 0"
    "\<not> route_uses_balancer_vault_swap sample_flash_cycle" "\<not> route_is_balancer_only sample_flash_cycle"
    by (simp_all add: route_balancer_flash_capacity_def route_uses_balancer_vault_swap_def route_is_balancer_only_def
        sample_flash_cycle_def sample_v2_edge_def split: option.splits)
  ultimately show ?thesis
    using plan
    by (simp add: resolve_flash_source_for_cycle_def build_cycle_flash_context_def sample_flash_cycle_def
        dodo_base_flash_pool_for_cycle_def effective_balancer_liquidity_def token_liquidity_def CACHE_TTL_def
        resolve_flash_source_with_context_def align_flash_source_for_dispatch_def Let_def)
qed

end
