(* ===== verification/Dispatch.thy ===== *)
theory Dispatch
  imports SizeSearch FlashLiquidity
begin

text \<open>
  The preparation of an evaluated route for dispatch, second half of
  \<open>src/services/execution/flash_liquidity.rs\<close>: the loan is planned, the amount is held against the loan cap in
  dollars, a route that needs a smaller loan is sized again and simulated again, and the assessment is either
  reused or made anew. The loan fees and the bootstrap rate are process-wide values of the program and arguments
  here; the counters of Curve simulations are threaded through.
\<close>

section \<open>Input and output\<close>

record 'score EvaluatedRoute =
  ev_cycle :: "'score FoundCycle"
  ev_result :: RouteSimulationResult
  ev_assessment :: "ProfitAssessment option"
  ev_effective_slippage_bps :: u64

record 'score PrepareDispatchInput =
  pi_evaluated :: "'score EvaluatedRoute"
  pi_arena :: StateArena
  pi_liquidity :: TokenFlashLiquidity
  pi_policy :: FlashLoanPolicy
  pi_rates :: "u32 \<Rightarrow> u256 option"
  pi_decimals :: "(address \<times> u8) list"
  pi_brent_iters :: u32
  pi_min_profit_matic :: u256
  pi_min_profit_roi_bps :: u64
  pi_gas_price :: u256
  pi_slippage_bps :: u64
  pi_max_flash_loan_usd :: u64
  pi_matic_usd :: MaticUsd
  pi_safety_multiplier_bps :: u64
  pi_profit_priority_alpha_bps :: u64
  pi_gas_oracle :: GasOracle
  pi_search_low :: u256
  pi_risk_multiplier_bps :: u64
  pi_existing_assessment :: "ProfitAssessment option"
  pi_adaptive_flash_cap_bound :: bool
  pi_fees :: FlashFees
  pi_bootstrap :: u256

record 'score PreparedDispatch =
  pd_evaluated :: "'score EvaluatedRoute"
  pd_flash_source :: FlashLoanSource
  pd_liquidity_cap_applied :: bool
  pd_adaptive_flash_cap_bound :: bool

abbreviation pi_cycle :: "'score PrepareDispatchInput \<Rightarrow> 'score FoundCycle" where
  "pi_cycle pin \<equiv> ev_cycle (pi_evaluated pin)"

definition charged_priority_from_oracle :: "GasOracle \<Rightarrow> u256" where
  "charged_priority_from_oracle orc =
     (case go_snapshot orc of
        Some s \<Rightarrow> max (fs_priority_fee s) MIN_PRIORITY_FEE_PER_GAS
      | None \<Rightarrow> MIN_PRIORITY_FEE_PER_GAS)"

definition prepare_profit_thresholds :: "'score PrepareDispatchInput \<Rightarrow> ProfitThresholds" where
  "prepare_profit_thresholds pin =
     route_profit_thresholds (pi_min_profit_matic pin) (pi_min_profit_roi_bps pin) (pi_safety_multiplier_bps pin)
       (pi_profit_priority_alpha_bps pin) (pi_risk_multiplier_bps pin) (charged_priority_from_oracle (pi_gas_oracle pin))"

definition flash_cap_for_prepare :: "'score PrepareDispatchInput \<Rightarrow> u8 \<Rightarrow> u256 \<Rightarrow> FlashBorrowCapParams" where
  "flash_cap_for_prepare pin decimals token_to_matic_rate =
     \<lparr>fb_max_flash_loan_usd = pi_max_flash_loan_usd pin, fb_token_decimals = decimals,
      fb_token_to_matic_rate = token_to_matic_rate, fb_matic_usd = pi_matic_usd pin\<rparr>"

definition prepare_decimals :: "'score PrepareDispatchInput \<Rightarrow> u8" where
  "prepare_decimals pin =
     resolve_token_decimals_for_index (fc_start_token (pi_cycle pin)) (pi_arena pin) (map_of (pi_decimals pin))"

definition prepare_rate :: "'score PrepareDispatchInput \<Rightarrow> u256" where
  "prepare_rate pin = resolve_token_to_matic_rate (pi_bootstrap pin) (fc_start_token (pi_cycle pin)) (pi_rates pin)"

definition dispatch_sim_passes_sanity ::
    "'score PrepareDispatchInput \<Rightarrow> RouteSimulationResult \<Rightarrow> u256 \<Rightarrow> u8 \<Rightarrow> u256 \<Rightarrow> bool \<Rightarrow> bool" where
  "dispatch_sim_passes_sanity pin result search_low decimals token_to_matic_rate check_flash_cap =
     (if token_to_matic_rate < MIN_TOKEN_TO_MATIC_RATE then False
      else if check_flash_cap \<and>
              \<not> amount_within_cap (flash_cap_for_prepare pin decimals token_to_matic_rate) (rs_amount_in result)
      then False
      else check_sim_sanity_for_dispatch
             \<lparr>ss_amount_in = rs_amount_in result, ss_gross_profit = rs_profit result, ss_search_low = search_low,
              ss_token_decimals = decimals, ss_token_to_matic_rate = token_to_matic_rate\<rparr> = Inr ())"

definition capped_sim_passes_sanity :: "'score PrepareDispatchInput \<Rightarrow> RouteSimulationResult \<Rightarrow> u256 \<Rightarrow> bool" where
  "capped_sim_passes_sanity pin result search_low =
     dispatch_sim_passes_sanity pin result search_low (prepare_decimals pin) (prepare_rate pin) True"

section \<open>Assessment\<close>

definition assess_result :: "'score PrepareDispatchInput \<Rightarrow> RouteSimulationResult \<Rightarrow> FlashLoanSource \<Rightarrow> ProfitAssessment" where
  "assess_result pin result source =
     assess_route_from_sim (pi_fees pin) (pi_bootstrap pin) (pi_arena pin) (pi_rates pin) (map_of (pi_decimals pin))
       \<lparr>rq_cycle_start = fc_start_token (pi_cycle pin), rq_gross_profit = rs_profit result, rq_amount_in = rs_amount_in result,
        rq_simulated_gas = rs_total_gas result, rq_hop_count = edge_hops (pi_cycle pin), rq_slippage_bps = pi_slippage_bps pin,
        rq_flash_source = source, rq_gas = assessment_gas_for_edges (fc_edges (pi_cycle pin)) None (pi_gas_oracle pin),
        rq_thresholds = prepare_profit_thresholds pin, rq_gas_price = pi_gas_price pin\<rparr>"

definition reassess_route :: "'score PrepareDispatchInput \<Rightarrow> FlashLoanSource \<Rightarrow> ProfitAssessment" where
  "reassess_route pin source = assess_result pin (ev_result (pi_evaluated pin)) source"

definition assessment_flash_fee_matches :: "FlashFees \<Rightarrow> ProfitAssessment \<Rightarrow> FlashLoanSource \<Rightarrow> u256 \<Rightarrow> bool" where
  "assessment_flash_fee_matches fees assessment source amount_in \<longleftrightarrow>
     pa_flash_loan_fee assessment = or_default (flash_loan_fee_amount fees source amount_in) (- 1)"

definition assessment_gas_matches :: "ProfitAssessment \<Rightarrow> u32 \<Rightarrow> u256 \<Rightarrow> GasOracle \<Rightarrow> Edge list \<Rightarrow> bool" where
  "assessment_gas_matches assessment simulated_gas gas_price orc edges =
     (case checked_mul (ucast (assessment_gas_units simulated_gas (assessment_gas_for_edges edges None orc))) gas_price of
        Some expected \<Rightarrow> pa_gas_cost_wei assessment = expected
      | None \<Rightarrow> False)"

definition reusable_assessment :: "'score PrepareDispatchInput \<Rightarrow> FlashLoanSource \<Rightarrow> ProfitAssessment \<Rightarrow> bool" where
  "reusable_assessment pin source existing \<longleftrightarrow>
     pa_should_execute existing \<and>
     pa_gross_profit existing = rs_profit (ev_result (pi_evaluated pin)) \<and>
     assessment_flash_fee_matches (pi_fees pin) existing source (rs_amount_in (ev_result (pi_evaluated pin))) \<and>
     assessment_gas_matches existing (rs_total_gas (ev_result (pi_evaluated pin))) (pi_gas_price pin) (pi_gas_oracle pin)
       (fc_edges (pi_cycle pin))"

definition reuse_or_reassess :: "'score PrepareDispatchInput \<Rightarrow> FlashLoanSource \<Rightarrow> ProfitAssessment" where
  "reuse_or_reassess pin source =
     (if pi_risk_multiplier_bps pin > 10000 then reassess_route pin source
      else case pi_existing_assessment pin of
        Some existing \<Rightarrow> if reusable_assessment pin source existing then existing else reassess_route pin source
      | None \<Rightarrow> reassess_route pin source)"

section \<open>Preparation\<close>

definition capped_optimize_args :: "'score PrepareDispatchInput \<Rightarrow> FlashLoanSource \<Rightarrow> u256 \<Rightarrow> 'score OptimizeArgs" where
  "capped_optimize_args pin source cap =
     (let edges = fc_edges (pi_cycle pin);
          ctx = with_safety_multiplier (pi_bootstrap pin) (fc_start_token (pi_cycle pin)) (pi_arena pin) (pi_rates pin)
             (map_of (pi_decimals pin)) (pi_gas_price pin) (pi_slippage_bps pin) source (pi_safety_multiplier_bps pin);
          ctx = ctx\<lparr>pc_gas_scale_bps := 10000, pc_hop_count := edge_hops (pi_cycle pin),
             pc_profit_priority_alpha_bps := pi_profit_priority_alpha_bps pin,
             pc_charged_priority_fee_per_gas := charged_priority_from_oracle (pi_gas_oracle pin)\<rparr>;
          costing = \<lparr>rg_lookup = for_routes (pi_gas_oracle pin) [edges], rg_edges = edges,
             rg_calibrated_seed = (balancer_direct_batch_eligible edges \<or> dodo_flash_batch_eligible edges)\<rparr>
      in \<lparr>oa_arena = pi_arena pin, oa_cycle = pi_cycle pin, oa_rates = pi_rates pin, oa_decimals = pi_decimals pin,
          oa_max_flash_loan_usd = Some (pi_max_flash_loan_usd pin), oa_matic_usd = pi_matic_usd pin,
          oa_max_iterations = Some (pi_brent_iters pin), oa_liquidity_cap = Some cap, oa_fees = pi_fees pin,
          oa_profit_ctx = ctx, oa_seed_sims = None, oa_route_gas = Some costing, oa_route_key = None,
          oa_shard_order = (\<lambda>entries. entries), oa_memo_order = (\<lambda>memo. memo)\<rparr>)"

text \<open>The part after the optimizer: the size is cut to the cap, simulated in detail, checked and assessed.\<close>

definition resimulate_capped ::
    "'score PrepareDispatchInput \<Rightarrow> FlashLoanSource \<Rightarrow> u256 \<Rightarrow> OptimizationResult \<Rightarrow> CurveStats \<Rightarrow>
     'score PreparedDispatch option counted" where
  "resimulate_capped pin source cap opt cs = do {
     (sim, cs) \<leftarrow> simulate_route_detailed (pi_arena pin) (fc_edges (pi_cycle pin)) (min (or_optimal_input opt) cap) cs;
     Some (case sim of
         None \<Rightarrow> None
       | Some sim \<Rightarrow>
           if rs_profit sim = 0 then None
           else if \<not> capped_sim_passes_sanity pin sim (or_search_low opt) then None
           else Some
             \<lparr>pd_evaluated = \<lparr>ev_cycle = pi_cycle pin, ev_result = sim, ev_assessment = Some (assess_result pin sim source),
                              ev_effective_slippage_bps = pi_slippage_bps pin\<rparr>,
              pd_flash_source = source, pd_liquidity_cap_applied = True,
              pd_adaptive_flash_cap_bound = pi_adaptive_flash_cap_bound pin\<rparr>, cs)
   }"

definition reoptimize_capped ::
    "'score PrepareDispatchInput \<Rightarrow> FlashLoanSource \<Rightarrow> u256 \<Rightarrow> SharedSims \<Rightarrow>
     ('score PreparedDispatch option \<times> SharedSims) panics" where
  "reoptimize_capped pin source cap sh = do {
     (opt, sh) \<leftarrow> optimize_cycle (capped_optimize_args pin source cap) sh;
     case opt of
       None \<Rightarrow> Some (None, sh)
     | Some opt \<Rightarrow>
         map_option (\<lambda>(p, cs). (p, sh\<lparr>sh_curve := cs\<rparr>)) (resimulate_capped pin source cap opt (sh_curve sh))
   }"

definition prepare_liquidity :: "'score PrepareDispatchInput \<Rightarrow> TokenFlashLiquidity" where
  "prepare_liquidity pin =
     (let route_cap = route_balancer_flash_capacity (pi_arena pin) (pi_cycle pin);
          has_dodo = (dodo_base_flash_pool_for_cycle (pi_arena pin) (pi_cycle pin) \<noteq> None)
      in \<lparr>tl_balancer = effective_balancer_liquidity (tl_balancer (pi_liquidity pin)) route_cap,
          tl_aave = tl_aave (pi_liquidity pin), tl_aave_listed = tl_aave_listed (pi_liquidity pin),
          tl_dodo = (if has_dodo then - 1 else 0)\<rparr>)"

definition prepare_plan :: "'score PrepareDispatchInput \<Rightarrow> FlashPlan" where
  "prepare_plan pin =
     plan_flash_loan (pi_policy pin) (rs_amount_in (ev_result (pi_evaluated pin))) (prepare_liquidity pin)
       (route_uses_balancer_vault_swap (pi_cycle pin)) (route_is_balancer_only (pi_cycle pin))"

text \<open>The branch of a plan that keeps the amount.\<close>

definition prepare_direct ::
    "'score PrepareDispatchInput \<Rightarrow> FlashLoanSource \<Rightarrow> SharedSims \<Rightarrow> ('score PreparedDispatch option \<times> SharedSims) panics" where
  "prepare_direct pin source sh =
     (let result = ev_result (pi_evaluated pin);
          vault = tl_balancer (prepare_liquidity pin)
      in if \<not> dispatch_sim_passes_sanity pin result (pi_search_low pin) (prepare_decimals pin) (prepare_rate pin) False
         then Some (None, sh)
         else if source = FlBalancer \<and> rs_amount_in result > vault \<and> vault \<noteq> 0 then reoptimize_capped pin source vault sh
         else
           let assessment = reuse_or_reassess pin source
           in if \<not> pa_should_execute assessment then Some (None, sh)
              else Some (Some
                \<lparr>pd_evaluated = \<lparr>ev_cycle = pi_cycle pin, ev_result = result, ev_assessment = Some assessment,
                                 ev_effective_slippage_bps = pi_slippage_bps pin\<rparr>,
                 pd_flash_source = source, pd_liquidity_cap_applied = False,
                 pd_adaptive_flash_cap_bound = pi_adaptive_flash_cap_bound pin\<rparr>, sh))"

definition assessed_to_execute :: "'score PreparedDispatch \<Rightarrow> bool" where
  "assessed_to_execute p = (case ev_assessment (pd_evaluated p) of Some a \<Rightarrow> pa_should_execute a | None \<Rightarrow> False)"

definition prepare_planned ::
    "'score PrepareDispatchInput \<Rightarrow> FlashPlan \<Rightarrow> SharedSims \<Rightarrow> ('score PreparedDispatch option \<times> SharedSims) panics" where
  "prepare_planned pin plan sh =
     (case fp_action plan of
        PlReject \<Rightarrow> Some (None, sh)
      | PlDirect \<Rightarrow> prepare_direct pin (fp_source plan) sh
      | PlCapAndReoptimize \<Rightarrow> do {
          (capped, sh) \<leftarrow> reoptimize_capped pin (fp_source plan) (fp_cap plan) sh;
          Some (case capped of None \<Rightarrow> None | Some p \<Rightarrow> if assessed_to_execute p then Some p else None, sh)
        })"

definition prepare_evaluated_route ::
    "'score PrepareDispatchInput \<Rightarrow> SharedSims \<Rightarrow> ('score PreparedDispatch option \<times> SharedSims) panics" where
  "prepare_evaluated_route pin sh =
     (case token_address (pi_arena pin) (fc_start_token (pi_cycle pin)) of
        None \<Rightarrow> Some (None, sh)
      | Some _ \<Rightarrow>
          let amount_in = rs_amount_in (ev_result (pi_evaluated pin));
              plan = prepare_plan pin;
              flash_cap = flash_cap_for_prepare pin (prepare_decimals pin) (prepare_rate pin)
          in if fp_action plan \<noteq> PlReject \<and> cap_enforced_but_unresolved flash_cap \<and> amount_in \<noteq> 0 then Some (None, sh)
             else case (if fp_action plan \<noteq> PlReject then cap_wei flash_cap else None) of
               Some cap \<Rightarrow>
                 if amount_in > cap then reoptimize_capped pin (fp_source plan) cap sh
                 else prepare_planned pin plan sh
             | None \<Rightarrow> prepare_planned pin plan sh)"

section \<open>What a prepared dispatch has\<close>

definition dispatch_sane :: "'score PrepareDispatchInput \<Rightarrow> u256 \<Rightarrow> RouteSimulationResult \<Rightarrow> bool" where
  "dispatch_sane pin low r \<longleftrightarrow>
     check_sim_sanity_for_dispatch
       \<lparr>ss_amount_in = rs_amount_in r, ss_gross_profit = rs_profit r, ss_search_low = low,
        ss_token_decimals = prepare_decimals pin, ss_token_to_matic_rate = prepare_rate pin\<rparr> = Inr ()"

abbreviation prepare_cap :: "'score PrepareDispatchInput \<Rightarrow> FlashBorrowCapParams" where
  "prepare_cap pin \<equiv> flash_cap_for_prepare pin (prepare_decimals pin) (prepare_rate pin)"

lemma detailed_amount_in:
  "simulate_route_detailed arena edges amount cs = Some (Some r, cs') \<Longrightarrow> rs_amount_in r = amount"
  by (auto simp: simulate_route_detailed_def simulate_route_detailed_with_caps_def Let_def bind_eq_Some_conv
      split: if_splits option.splits)

lemma reoptimize_ok:
  assumes "reoptimize_capped pin source cap sh = Some (Some p, sh')"
  shows "\<exists>r cs cs' low. ev_result (pd_evaluated p) = r \<and> ev_cycle (pd_evaluated p) = pi_cycle pin \<and> pd_flash_source p = source \<and>
           pd_liquidity_cap_applied p \<and> ev_assessment (pd_evaluated p) = Some (assess_result pin r source) \<and>
           simulate_route_detailed (pi_arena pin) (fc_edges (pi_cycle pin)) (rs_amount_in r) cs = Some (Some r, cs') \<and>
           rs_amount_in r \<le> cap \<and> rs_profit r \<noteq> 0 \<and> amount_within_cap (prepare_cap pin) (rs_amount_in r) \<and>
           dispatch_sane pin low r"
proof -
  obtain opt cs0 cs where "resimulate_capped pin source cap opt cs0 = Some (Some p, cs)"
    using assms unfolding reoptimize_capped_def by (auto simp: bind_eq_Some_conv split: option.split_asm)
  then obtain r where
    sim: "simulate_route_detailed (pi_arena pin) (fc_edges (pi_cycle pin)) (min (or_optimal_input opt) cap) cs0 =
        Some (Some r, cs)"
    and profit: "rs_profit r \<noteq> 0" and sane: "capped_sim_passes_sanity pin r (or_search_low opt)"
    and p: "p = \<lparr>pd_evaluated = \<lparr>ev_cycle = pi_cycle pin, ev_result = r, ev_assessment = Some (assess_result pin r source),
        ev_effective_slippage_bps = pi_slippage_bps pin\<rparr>, pd_flash_source = source, pd_liquidity_cap_applied = True,
        pd_adaptive_flash_cap_bound = pi_adaptive_flash_cap_bound pin\<rparr>"
    unfolding resimulate_capped_def by (auto simp: bind_eq_Some_conv split: option.split_asm if_split_asm)
  have amount: "rs_amount_in r = min (or_optimal_input opt) cap"
    by (rule detailed_amount_in [OF sim])
  have "amount_within_cap (prepare_cap pin) (rs_amount_in r)" "dispatch_sane pin (or_search_low opt) r"
    using sane by (auto simp: capped_sim_passes_sanity_def dispatch_sim_passes_sanity_def dispatch_sane_def split: if_splits)
  with sim profit show ?thesis
    by (auto simp: p amount)
qed

lemma prepare_liquidity_dodo: "tl_dodo (prepare_liquidity pin) = 0"
  by (simp add: prepare_liquidity_def dodo_base_flash_pool_for_cycle_def Let_def split: option.splits)

lemma no_limit_no_cap: "fb_max_flash_loan_usd params = 0 \<Longrightarrow> cap_wei params = None"
  by (simp add: cap_wei_def max_flash_borrow_wei_def max_flash_loan_matic_wei_from_usd_chainlink_8_def
      max_flash_loan_matic_wei_from_usd_def split: option.splits)

lemma within_cap_iff:
  "\<not> cap_enforced_but_unresolved params \<Longrightarrow>
     amount_within_cap params amount \<longleftrightarrow> (case cap_wei params of Some cap \<Rightarrow> amount \<le> cap | None \<Rightarrow> True)"
  using no_limit_no_cap [of params]
  by (auto simp: cap_enforced_but_unresolved_def amount_within_cap_def word_gt_0 split: option.splits)

lemma prepare_planned_ok:
  assumes "prepare_planned pin (prepare_plan pin) sh = Some (Some p, sh')"
    and "\<not> tl_aave_listed (pi_liquidity pin) \<longrightarrow> tl_aave (pi_liquidity pin) = 0"
    and cap: "fp_action (prepare_plan pin) \<noteq> PlReject \<Longrightarrow>
      amount_within_cap (prepare_cap pin) (rs_amount_in (ev_result (pi_evaluated pin)))"
  shows "\<exists>r a low. ev_result (pd_evaluated p) = r \<and> ev_assessment (pd_evaluated p) = Some a \<and> pa_should_execute a \<and>
           (a = assess_result pin r (pd_flash_source p) \<or> reusable_assessment pin (pd_flash_source p) a) \<and>
           amount_within_cap (prepare_cap pin) (rs_amount_in r) \<and> dispatch_sane pin low r \<and>
           rs_amount_in r \<le> min (rs_amount_in (ev_result (pi_evaluated pin))) (lendable (prepare_liquidity pin) (pd_flash_source p))"
proof -
  let ?plan = "prepare_plan pin"
  let ?amount = "rs_amount_in (ev_result (pi_evaluated pin))"
  have live: "fp_action ?plan \<noteq> PlReject"
    using assms(1) by (auto simp: prepare_planned_def)
  have "\<not> tl_aave_listed (prepare_liquidity pin) \<longrightarrow> tl_aave (prepare_liquidity pin) = 0"
    using assms(2) by (simp add: prepare_liquidity_def Let_def)
  then have funded: "funded_plan ?amount (prepare_liquidity pin) ?plan"
    using live unfolding prepare_plan_def by (rule plan_funded [OF _ prepare_liquidity_dodo])
  show ?thesis
  proof (cases "fp_action ?plan = PlDirect")
    case True
    then have enough: "?amount \<le> lendable (prepare_liquidity pin) (fp_source ?plan)"
      using funded by (auto simp: funded_plan_def split: if_splits)
    have "prepare_direct pin (fp_source ?plan) sh = Some (Some p, sh')"
      using assms(1) True by (simp add: prepare_planned_def)
    moreover have "\<not> (fp_source ?plan = FlBalancer \<and> ?amount > tl_balancer (prepare_liquidity pin))"
      using enough by auto
    ultimately have p: "ev_result (pd_evaluated p) = ev_result (pi_evaluated pin)" "pd_flash_source p = fp_source ?plan"
      "ev_assessment (pd_evaluated p) = Some (reuse_or_reassess pin (fp_source ?plan))"
      and exec: "pa_should_execute (reuse_or_reassess pin (fp_source ?plan))"
      and sane: "dispatch_sane pin (pi_search_low pin) (ev_result (pi_evaluated pin))"
      by (auto simp: prepare_direct_def dispatch_sim_passes_sanity_def dispatch_sane_def Let_def split: if_splits)
    have "reuse_or_reassess pin (fp_source ?plan) = assess_result pin (ev_result (pi_evaluated pin)) (fp_source ?plan) \<or>
        reusable_assessment pin (fp_source ?plan) (reuse_or_reassess pin (fp_source ?plan))"
      by (auto simp: reuse_or_reassess_def reassess_route_def split: option.splits)
    with p exec sane enough cap [OF live] show ?thesis
      by auto
  next
    case False
    with live have re: "fp_action ?plan = PlCapAndReoptimize"
      by (cases "fp_action ?plan") auto
    then obtain sh1 where run: "reoptimize_capped pin (fp_source ?plan) (fp_cap ?plan) sh = Some (Some p, sh1)"
      and exec: "assessed_to_execute p"
      using assms(1) by (auto simp: prepare_planned_def bind_eq_Some_conv split: option.splits if_splits)
    show ?thesis
      using reoptimize_ok [OF run] exec funded by (auto simp: assessed_to_execute_def funded_plan_def)
  qed
qed

section \<open>Properties\<close>


section \<open>A route above the loan cap\<close>

text \<open>
  The two deep pairs again, evaluated with five of the start token and a loan cap of one dollar, while the vault
  holds half of the start token. The route is sized again for the loan cap: the window is the cap and the wei below.
\<close>

definition sample_prepare_input :: "nat PrepareDispatchInput" where
  "sample_prepare_input =
     \<lparr>pi_evaluated = \<lparr>ev_cycle = sample_cycle,
        ev_result = \<lparr>rs_amount_in = 5000000000000000000, rs_amount_out = 5960000000000000000, rs_profit = 960000000000000000,
          rs_profitable = True, rs_hop_amounts = [], rs_total_gas = 170000, rs_hop_count = 2\<rparr>,
        ev_assessment = None, ev_effective_slippage_bps = 50\<rparr>,
      pi_arena = sample_deep_arena,
      pi_liquidity = \<lparr>tl_balancer = 500000000000000000, tl_aave = 0, tl_aave_listed = False, tl_dodo = 0\<rparr>,
      pi_policy = FpAuto, pi_rates = [0 \<mapsto> 1000000000000000000], pi_decimals = [(10, 18), (20, 18)], pi_brent_iters = 30,
      pi_min_profit_matic = 0, pi_min_profit_roi_bps = 0, pi_gas_price = 30000000000, pi_slippage_bps = 50,
      pi_max_flash_loan_usd = 1, pi_matic_usd = one_dollar, pi_safety_multiplier_bps = 10000,
      pi_profit_priority_alpha_bps = 0, pi_gas_oracle = new_gas_oracle 30000000000, pi_search_low = 0, pi_risk_multiplier_bps = 10000,
      pi_existing_assessment = None, pi_adaptive_flash_cap_bound = False, pi_fees = initial_flash_fees, pi_bootstrap = 0\<rparr>"

lemma capped_hops:
  "simulate_hop (PV2 (sample_pair 10000000000000000000000 20000000000000000000000)) sample_v2_edge 999999999999999999 (- 1) cs =
     Some (hop_ok 1993801218018563547 GAS_V2_HOP, cs)"
  "simulate_hop (PV2 (sample_pair 10000000000000000000000 20000000000000000000000)) sample_v2_edge 1000000000000000000 (- 1) cs =
     Some (hop_ok 1993801218018563549 GAS_V2_HOP, cs)"
  "simulate_hop (PV2 (sample_pair 12000000000000000000000 20000000000000000000000)) sample_back_edge 1993801218018563547 (- 1) cs =
     Some (hop_ok 1192573357571191552 GAS_V2_HOP, cs)"
  "simulate_hop (PV2 (sample_pair 12000000000000000000000 20000000000000000000000)) sample_back_edge 1993801218018563549 (- 1) cs =
     Some (hop_ok 1192573357571191553 GAS_V2_HOP, cs)"
  by (simp_all add: simulate_hop_def sample_back_edge_def sample_v2_edge_def sample_pair_def v2_reserve_in_def
      simulate_v2_swap_def resolve_v2_fee_with_edge_def get_amount_out_def fits_u128_def Let_def cl_protocol_def pdiv_def)

definition capped_out :: "u256 \<Rightarrow> u256" where
  "capped_out amount = amount + 192573357571191553"

abbreviation capped_sizes :: "u256 set" where
  "capped_sizes \<equiv> {999999999999999999, 999999999999999999 + 1}"

lemma capped_walk:
  assumes "amount \<in> capped_sizes" "amounts = None \<or> (\<exists>xs. amounts = Some xs \<and> length xs = 3)"
  shows "\<exists>amounts'. walk_route_hops sample_deep_arena sample_route amount amounts None cs =
           Some (Some (capped_out amount, 170000, amounts'), cs)"
proof -
  have route: "sample_route = [sample_v2_edge, sample_back_edge]" by (simp add: sample_route_def)
  have cap: "nth_opt uncapped 0 = Some (- 1)" "nth_opt uncapped (Suc 0) = Some (- 1)"
    by (simp_all add: uncapped_def nth_opt_def HOP_CAP_def)
  have caps: "effective_caps sample_deep_arena sample_route None = Some uncapped"
    by (simp add: effective_caps_def route_has_cl_hop_def sample_route_def sample_back_edge_def sample_v2_edge_def
        cl_protocol_def)
  have len: "\<not> length sample_route > HOP_CAP" by (simp add: sample_route_def HOP_CAP_def)
  have loop: "\<exists>amounts'. walk_loop sample_deep_arena uncapped 0 sample_route amount 0 amounts cs =
      Some (Some (capped_out amount, 170000, amounts'), cs)"
    if "amounts = None \<or> (\<exists>xs. amounts = Some xs \<and> length xs = 3)" for amounts
    unfolding route using assms(1) that
    by (auto simp: deep_walk_edges cap capped_hops hop_ok_def GAS_V2_HOP_def capped_out_def store_amount_def)
  obtain amounts' where "store_amount 0 amount amounts = Some amounts'"
    "amounts' = None \<or> (\<exists>xs. amounts' = Some xs \<and> length xs = 3)"
    using assms(2) by (auto simp: store_amount_def)
  with loop [of amounts'] show ?thesis
    using caps len by (simp add: walk_route_hops_def)
qed

definition capped_sim :: "u256 \<Rightarrow> MinimalSimResult" where
  "capped_sim amount = \<lparr>ms_profit = 192573357571191553, ms_amount_out = capped_out amount,
     ms_total_gas = finalize_route_total_gas sample_route 170000\<rparr>"

lemma deep_simulatable: "route_edges_simulatable sample_deep_arena sample_route"
  by (simp add: route_edges_simulatable_def sample_route_def sample_back_edge_def sample_v2_edge_def
      sample_deep_arena_def sample_pairs_arena_def HOP_CAP_def hops_chain_def token_address_def nth_opt_def)

lemma capped_simulates:
  assumes "amount \<in> capped_sizes"
  shows "simulate_route_minimal_with_caps sample_deep_arena sample_route amount None cs = Some (Some (capped_sim amount), cs)"
    and "\<exists>sim. simulate_route_detailed sample_deep_arena sample_route amount cs = Some (Some sim, cs) \<and>
           rs_amount_in sim = amount \<and> rs_profit sim = 192573357571191553"
proof -
  obtain amounts where walk: "walk_route_hops sample_deep_arena sample_route amount None None cs =
      Some (Some (capped_out amount, 170000, amounts), cs)"
    using capped_walk [OF assms, of None cs] by auto
  show "simulate_route_minimal_with_caps sample_deep_arena sample_route amount None cs = Some (Some (capped_sim amount), cs)"
    using assms walk deep_simulatable
    by (auto simp: simulate_route_minimal_with_caps_def saturating_sub_def capped_sim_def capped_out_def)
  have "length (hop_amounts_zeroed (length sample_route)) = 3"
    by (simp add: sample_route_def hop_amounts_zeroed_def)
  then obtain amounts' where "walk_route_hops sample_deep_arena sample_route amount
      (Some (hop_amounts_zeroed (length sample_route))) None cs = Some (Some (capped_out amount, 170000, amounts'), cs)"
    using capped_walk [OF assms, of "Some (hop_amounts_zeroed (length sample_route))" cs] by auto
  then show "\<exists>sim. simulate_route_detailed sample_deep_arena sample_route amount cs = Some (Some sim, cs) \<and>
      rs_amount_in sim = amount \<and> rs_profit sim = 192573357571191553"
    using assms deep_simulatable
    by (auto simp: simulate_route_detailed_def simulate_route_detailed_with_caps_def saturating_sub_def capped_out_def Let_def)
qed

lemma capped_bounds:
  "compute_ternary_search_bounds sample_cycle sample_deep_arena [0 \<mapsto> 1000000000000000000] [(10, 18), (20, 18)]
     1000000000000000000 18 1 one_dollar (Some 1000000000000000000) =
     Some \<lparr>tb_low = 999999999999999999, tb_high = 1000000000000000000, tb_flash_cap = Some 1000000000000000000\<rparr>"
proof -
  have "floor_window 100000000000000000 (Some 1000000000000000000)
     (cap_window (Some 1000000000000000000)
       (capacity_window 10000000000000000000000 18 1000000000000000000 (Some 1000000000000000000))) =
     (999999999999999999, 1000000000000000000)"
    by (simp add: floor_window_def cap_window_def capacity_window_def deep_floor saturating_sub_def Let_def)
  then show ?thesis
    by (simp add: compute_ternary_search_bounds_def sample_cycle_def cap_enforced_but_unresolved_def deep_cap deep_floor
        deep_bottleneck Let_def)
qed

lemma capped_sane:
  assumes "amount \<in> capped_sizes" "low \<in> {0, 999999999999999999}"
  shows "check_sim_sanity_for_dispatch
     \<lparr>ss_amount_in = amount, ss_gross_profit = 192573357571191553, ss_search_low = low, ss_token_decimals = 18,
      ss_token_to_matic_rate = 1000000000000000000\<rparr> = Inr ()"
proof -
  note unfold = check_sim_sanity_for_dispatch_def check_sim_sanity_def check_sim_sanity_fast_def
    MAX_SUPPORTED_TOKEN_DECIMALS_def checked_mul_def MAX_SANE_PROFIT_RATIO_BPS_def deep_floor tickless_cap_trade_def
    insane_matic_def MAX_SANE_PROFIT_MATIC_WEI_def ten_pow_u256_cached_eq optimizer_pinned_at_floor_def
    optimizer_pin_ceiling_def saturating_add_def spot_probe_for_decimals_def Let_def
  consider "amount = 999999999999999999" "low = 0" | "amount = 999999999999999999" "low = 999999999999999999"
    | "amount = 1000000000000000000" "low = 0" | "amount = 1000000000000000000" "low = 999999999999999999"
    using assms by auto
  then show ?thesis
    by cases (simp_all add: unfold)
qed

abbreviation capped_args :: "nat OptimizeArgs" where
  "capped_args \<equiv> capped_optimize_args sample_prepare_input FlBalancer 1000000000000000000"

lemma capped_args_fields [simp]:
  "oa_arena capped_args = sample_deep_arena" "oa_cycle capped_args = sample_cycle"
  "oa_rates capped_args = [0 \<mapsto> 1000000000000000000]" "oa_decimals capped_args = [(10, 18), (20, 18)]"
  "oa_seed_sims capped_args = None" "oa_memo_order capped_args = (\<lambda>memo. memo)" "oa_route_key capped_args = None"
  "oa_max_flash_loan_usd capped_args = Some 1" "oa_matic_usd capped_args = one_dollar"
  "oa_liquidity_cap capped_args = Some 1000000000000000000"
  by (simp_all add: capped_optimize_args_def sample_prepare_input_def Let_def)

lemma capped_optimized:
  "\<exists>opt sh'. optimize_cycle capped_args sh = Some (Some opt, sh') \<and> or_optimal_input opt \<in> capped_sizes \<and>
     or_search_low opt \<in> {0, 999999999999999999}"
proof -
  let ?env = "size_env capped_args None 18 1000000000000000000 (999999999999999999, 1000000000000000000)"
  have env: "se_arena ?env = sample_deep_arena" "se_edges ?env = sample_route" "se_caps ?env = None"
    "se_economic_floor ?env = 100000000000000000" "se_low ?env = 999999999999999999" "se_high ?env = 1000000000000000000"
    "se_route_key ?env = None" "se_decimals ?env = 18" "se_rate ?env = 1000000000000000000"
    by (simp_all add: size_env_def deep_floor sample_cycle_def)
  obtain x sh' where x: "x \<in> capped_sizes"
    and run: "search_window capped_args ?env sh = Some (finish_search ?env x (with_route_gas (se_route_gas ?env) (capped_sim x)), sh')"
    using two_size_window [of capped_args ?env capped_sim sh] capped_simulates(1) by (auto simp: env)
  have profit: "ms_profit (with_route_gas rg (capped_sim x)) = 192573357571191553" for rg
    by (simp add: with_route_gas_def capped_sim_def split: option.splits)
  have "check_sim_sanity_for_dispatch (sanity_input ?env x (with_route_gas (se_route_gas ?env) (capped_sim x))) = Inr ()"
    using capped_sane [OF x, of 999999999999999999] by (simp add: sanity_input_def env profit)
  then have "\<exists>opt. finish_search ?env x (with_route_gas (se_route_gas ?env) (capped_sim x)) = Some opt \<and>
      or_optimal_input opt = x \<and> or_search_low opt \<in> {0, 999999999999999999}"
    by (simp add: finish_search_def profit env)
  then obtain opt where "search_window capped_args ?env sh = Some (Some opt, sh')" "or_optimal_input opt = x"
    "or_search_low opt \<in> {0, 999999999999999999}"
    using run by auto
  moreover have "optimize_cycle capped_args sh = search_window capped_args ?env sh"
    by (rule deep_optimize [OF _ _ _ _ _ _ refl]) (simp_all add: or_default_def capped_bounds)
  ultimately show ?thesis
    using x by auto
qed

lemma sample_prepare_token:
  "prepare_decimals sample_prepare_input = 18" "prepare_rate sample_prepare_input = 1000000000000000000"
  by (simp_all add: prepare_decimals_def prepare_rate_def sample_prepare_input_def sample_cycle_def
      resolve_token_decimals_for_index_def resolve_token_to_matic_rate_def explicit_decimals_for_index_def
      sample_deep_arena_def sample_pairs_arena_def token_address_def nth_opt_def known_token_decimals_def
      MAX_SUPPORTED_TOKEN_DECIMALS_def lookup_matic_rate_def MIN_TOKEN_TO_MATIC_RATE_def or_default_def)

lemma sample_prepare_cap: "cap_wei (prepare_cap sample_prepare_input) = Some 1000000000000000000"
  using deep_cap by (simp add: flash_cap_for_prepare_def sample_prepare_token) (simp add: sample_prepare_input_def)

lemma capped_prepared:
  "\<exists>p sh'. reoptimize_capped sample_prepare_input FlBalancer 1000000000000000000 sh = Some (Some p, sh') \<and>
     pd_flash_source p = FlBalancer \<and> rs_amount_in (ev_result (pd_evaluated p)) \<in> capped_sizes"
proof -
  obtain opt sh1 where run: "optimize_cycle capped_args sh = Some (Some opt, sh1)"
    and size: "or_optimal_input opt \<in> capped_sizes" and low: "or_search_low opt \<in> {0, 999999999999999999}"
    using capped_optimized by blast
  have within: "min (or_optimal_input opt) 1000000000000000000 = or_optimal_input opt"
    using size by (auto simp: min_def)
  obtain sim where sim: "simulate_route_detailed sample_deep_arena sample_route (or_optimal_input opt) (sh_curve sh1) =
      Some (Some sim, sh_curve sh1)" and amount: "rs_amount_in sim = or_optimal_input opt"
    and profit: "rs_profit sim = 192573357571191553"
    using capped_simulates(2) [OF size] by blast
  have "amount_within_cap (prepare_cap sample_prepare_input) (or_optimal_input opt)"
    using size by (auto simp: amount_within_cap_def sample_prepare_cap)
  then have sane: "capped_sim_passes_sanity sample_prepare_input sim (or_search_low opt)"
    using capped_sane [OF size low]
    by (simp add: capped_sim_passes_sanity_def dispatch_sim_passes_sanity_def sample_prepare_token amount profit
        MIN_TOKEN_TO_MATIC_RATE_def)
  have fields: "pi_arena sample_prepare_input = sample_deep_arena" "fc_edges (pi_cycle sample_prepare_input) = sample_route"
    by (simp_all add: sample_prepare_input_def sample_cycle_def)
  show ?thesis
    using size by (simp add: reoptimize_capped_def run resimulate_capped_def within fields sim profit sane amount)
qed

lemma sample_plan:
  "prepare_liquidity sample_prepare_input = \<lparr>tl_balancer = 500000000000000000, tl_aave = 0, tl_aave_listed = False, tl_dodo = 0\<rparr>"
  "prepare_plan sample_prepare_input = \<lparr>fp_source = FlBalancer, fp_action = PlCapAndReoptimize, fp_cap = 500000000000000000\<rparr>"
proof -
  have route: "fc_edges sample_cycle = [sample_v2_edge, sample_back_edge]" "fc_start_token sample_cycle = 0"
    "e_protocol sample_v2_edge \<noteq> BalancerV2" "e_protocol sample_back_edge \<noteq> BalancerV2"
    by (simp_all add: sample_cycle_def sample_route_def sample_v2_edge_def sample_back_edge_def)
  have cap: "route_balancer_flash_capacity sample_deep_arena sample_cycle = 0"
    by (simp add: route_balancer_flash_capacity_def route split: option.splits)
  show liq: "prepare_liquidity sample_prepare_input =
      \<lparr>tl_balancer = 500000000000000000, tl_aave = 0, tl_aave_listed = False, tl_dodo = 0\<rparr>"
    using prepare_liquidity_dodo [of sample_prepare_input]
    by (simp add: prepare_liquidity_def Let_def) (simp add: sample_prepare_input_def cap effective_balancer_liquidity_def)
  show "prepare_plan sample_prepare_input =
      \<lparr>fp_source = FlBalancer, fp_action = PlCapAndReoptimize, fp_cap = 500000000000000000\<rparr>"
    by (simp add: prepare_plan_def liq plan_flash_loan_def route_uses_balancer_vault_swap_def)
       (simp add: sample_prepare_input_def route plan_auto_def Let_def)
qed

lemma sample_prepared:
  "\<exists>p sh'. prepare_evaluated_route sample_prepare_input sample_shared = Some (Some p, sh') \<and>
     pd_flash_source p = FlBalancer \<and> rs_amount_in (ev_result (pd_evaluated p)) \<in> capped_sizes"
proof -
  have amount: "rs_amount_in (ev_result (pi_evaluated sample_prepare_input)) = 5000000000000000000"
    by (simp add: sample_prepare_input_def)
  have start: "token_address (pi_arena sample_prepare_input) (fc_start_token (pi_cycle sample_prepare_input)) = Some 10"
    by (simp add: sample_prepare_input_def sample_deep_arena_def sample_pairs_arena_def sample_cycle_def token_address_def
        nth_opt_def)
  have "\<not> cap_enforced_but_unresolved (prepare_cap sample_prepare_input)"
    by (simp add: cap_enforced_but_unresolved_def sample_prepare_cap)
  then have "prepare_evaluated_route sample_prepare_input sample_shared =
      reoptimize_capped sample_prepare_input FlBalancer 1000000000000000000 sample_shared"
    by (simp add: prepare_evaluated_route_def start sample_plan(2) sample_prepare_cap amount Let_def)
  with capped_prepared show ?thesis
    by metis
qed


text \<open>
  Property C38. An amount above the loan cap in dollars is replaced by one sized for that cap alone: when the chosen lender
  holds less than the cap, the prepared loan is more than the lender has. The plan's own limit, the lender's
  liquidity, is only used when the evaluated amount is within the loan cap.
\<close>

theorem prepared_above_lender:
  "\<exists>p sh'. prepare_evaluated_route sample_prepare_input sample_shared = Some (Some p, sh') \<and>
     fp_cap (prepare_plan sample_prepare_input) = lendable (prepare_liquidity sample_prepare_input) (pd_flash_source p) \<and>
     \<not> rs_amount_in (ev_result (pd_evaluated p)) \<le> lendable (prepare_liquidity sample_prepare_input) (pd_flash_source p)"
proof -
  obtain p sh' where "prepare_evaluated_route sample_prepare_input sample_shared = Some (Some p, sh')"
    "pd_flash_source p = FlBalancer" "rs_amount_in (ev_result (pd_evaluated p)) \<in> capped_sizes"
    using sample_prepared by blast
  then show ?thesis
    by (auto simp: sample_plan)
qed

end
