(* ===== verification/Payload.thy ===== *)
theory Payload
  imports RouteGas V4Storage
begin

text \<open>
  The packed route that the executor contract is called with: \<open>src/abis.rs\<close> (the calls the encoders make),
  \<open>src/services/execution/calldata/hash.rs\<close> and the two builders of \<open>calldata/mod.rs\<close>. The ABI encoding of a call
  is code of the \<open>alloy\<close> crate and an argument here, as is the Keccak hash; the layout of the packed route is the
  program's own and is written out in bytes. A reader of that layout serves as its specification.
\<close>

section \<open>Calls\<close>

record ExecutorCall =
  ec_target :: address
  ec_value :: u256
  ec_data :: "u8 list"

record BalancerSingleSwap =
  sw_pool_id :: u256
  sw_kind :: u8
  sw_asset_in :: address
  sw_asset_out :: address
  sw_amount :: u256
  sw_user_data :: "u8 list"

record BalancerFundManagement =
  fm_sender :: address
  fm_from_internal_balance :: bool
  fm_recipient :: address
  fm_to_internal_balance :: bool

record BalancerBatchSwapStep =
  bs_pool_id :: u256
  bs_asset_in_index :: u256
  bs_asset_out_index :: u256
  bs_amount :: u256
  bs_user_data :: "u8 list"

text \<open>The calls of the interfaces in \<open>abis.rs\<close> that the encoders build, with their arguments in order.\<close>

datatype ContractCall =
    ExecuteArb "u8 list"
  | ExecuteArbDirect "u8 list"
  | ExecuteArbWithAave "u8 list"
  | ExecuteArbWithDodo "u8 list"
  | TransferAll address address
  | Transfer address u256
  | Approve address u256
  | PairSwap u256 u256 address "u8 list"
  | PoolSwap address bool u256 address "u8 list"
  | StableExchange u128 u128 u256 u256
  | CryptoExchange u256 u256 u256 u256
  | StableNgExchange u128 u128 u256 u256 address
  | VaultSwap BalancerSingleSwap BalancerFundManagement u256 u256
  | VaultBatchSwap u8 "BalancerBatchSwapStep list" "address list" BalancerFundManagement "u256 list" u256
  | SellBase address
  | SellQuote address
  | RouterSwap address address u256 u256 address address
  | Unlock "u8 list"

text \<open>
  The encoders of \<open>alloy\<close>: calls, and the tuple a concentrated-liquidity pool hands back in its callback
  (protocol, both tokens, fee).
\<close>

record AbiEncoder =
  abi_call :: "ContractCall \<Rightarrow> u8 list"
  abi_callback :: "u256 \<times> address \<times> address \<times> u256 \<Rightarrow> u8 list"

section \<open>Packing\<close>

definition is_plausible_contract_address :: "address \<Rightarrow> bool" where
  "is_plausible_contract_address addr \<longleftrightarrow> addr \<noteq> 0 \<and> addr > 0xffff"

datatype PackError = EmptyRoute | TooManyCalls nat | ImplausibleTarget | ZeroToken

definition address_word :: "address \<Rightarrow> u8 list" where
  "address_word addr = replicate 12 0 @ be_bytes 20 addr"

definition pack_call :: "ExecutorCall \<Rightarrow> u8 list" where
  "pack_call call =
     address_word (ec_target call) @ be_bytes 32 (ec_value call) @
     be_bytes 32 (of_nat (length (ec_data call)) :: u256) @ ec_data call"

definition pack_executor_calls :: "ExecutorCall list \<Rightarrow> PackError + u8 list" where
  "pack_executor_calls calls =
     (if calls = [] then Inl EmptyRoute
      else if \<not> packed_calls_fit_executor (length calls) then Inl (TooManyCalls (length calls))
      else if list_ex (\<lambda>call. ec_target call = 0 \<or> \<not> is_plausible_contract_address (ec_target call)) calls
      then Inl ImplausibleTarget
      else Inr (be_bytes 32 (of_nat (length calls) :: u256) @ concat (map pack_call calls)))"

definition compute_route_hash :: "(u8 list \<Rightarrow> u256) \<Rightarrow> u8 list \<Rightarrow> u256" where
  "compute_route_hash keccak256 route_blob = keccak256 route_blob"

definition build_packed_route_payload ::
    "(u8 list \<Rightarrow> u256) \<Rightarrow> address \<Rightarrow> u256 \<Rightarrow> address \<Rightarrow> u256 \<Rightarrow> u256 \<Rightarrow> ExecutorCall list \<Rightarrow> PackError + (u8 list \<times> u256)" where
  "build_packed_route_payload keccak256 flash_token flash_amount profit_token min_profit deadline calls =
     (if flash_token = 0 \<or> profit_token = 0 then Inl ZeroToken
      else case pack_executor_calls calls of
        Inl e \<Rightarrow> Inl e
      | Inr packed_calls \<Rightarrow>
          let route_hash = compute_route_hash keccak256 packed_calls
          in Inr (address_word flash_token @ be_bytes 32 flash_amount @ address_word profit_token @
                  be_bytes 32 min_profit @ be_bytes 32 deadline @ be_bytes 32 route_hash @ packed_calls,
                  route_hash))"

datatype ExecutorEntrypoint = BalancerFlash | AaveFlash | DodoFlash | DirectEntry

record BuiltArbTx =
  tx_to :: address
  tx_data :: "u8 list"
  tx_value :: u256
  tx_route_hash :: u256
  tx_calls :: "ExecutorCall list"

fun entrypoint_call :: "ExecutorEntrypoint \<Rightarrow> u8 list \<Rightarrow> ContractCall" where
  "entrypoint_call AaveFlash packed_route = ExecuteArbWithAave packed_route"
| "entrypoint_call DodoFlash packed_route = ExecuteArbWithDodo packed_route"
| "entrypoint_call DirectEntry packed_route = ExecuteArbDirect packed_route"
| "entrypoint_call BalancerFlash packed_route = ExecuteArb packed_route"

definition build_arb_calldata ::
    "AbiEncoder \<Rightarrow> (u8 list \<Rightarrow> u256) \<Rightarrow> address \<Rightarrow> address \<Rightarrow> address \<Rightarrow> u256 \<Rightarrow> u256 \<Rightarrow> u256 \<Rightarrow> ExecutorCall list \<Rightarrow>
     ExecutorEntrypoint \<Rightarrow> PackError + BuiltArbTx" where
  "build_arb_calldata abi keccak256 executor flash_token profit_token flash_amount min_profit deadline calls entrypoint =
     (case build_packed_route_payload keccak256 flash_token flash_amount profit_token min_profit deadline calls of
        Inl e \<Rightarrow> Inl e
      | Inr (packed_route, route_hash) \<Rightarrow>
          Inr \<lparr>tx_to = executor, tx_data = abi_call abi (entrypoint_call entrypoint packed_route), tx_value = 0,
               tx_route_hash = route_hash, tx_calls = calls\<rparr>)"

section \<open>Reading a packed route\<close>

text \<open>
  The reader takes a field from the front of the bytes: a word, an address in a word whose upper twelve bytes are zero,
  or a given number of bytes.
\<close>

definition from_be :: "u8 list \<Rightarrow> nat" where
  "from_be bytes = foldl (\<lambda>n b. n * 256 + unat b) 0 bytes"

definition read_bytes :: "nat \<Rightarrow> u8 list \<Rightarrow> (u8 list \<times> u8 list) option" where
  "read_bytes n bytes = (if n \<le> length bytes then Some (take n bytes, drop n bytes) else None)"

definition read_word :: "u8 list \<Rightarrow> (u256 \<times> u8 list) option" where
  "read_word bytes = map_option (\<lambda>(field, rest). (of_nat (from_be field), rest)) (read_bytes 32 bytes)"

definition read_address :: "u8 list \<Rightarrow> (address \<times> u8 list) option" where
  "read_address bytes = do {
     (field, rest) \<leftarrow> read_bytes 32 bytes;
     if take 12 field = replicate 12 0 then Some (of_nat (from_be (drop 12 field)), rest) else None
   }"

definition read_call :: "u8 list \<Rightarrow> (ExecutorCall \<times> u8 list) option" where
  "read_call bytes = do {
     (target, bytes) \<leftarrow> read_address bytes;
     (value, bytes) \<leftarrow> read_word bytes;
     (len, bytes) \<leftarrow> read_word bytes;
     (data, bytes) \<leftarrow> read_bytes (unat len) bytes;
     Some (\<lparr>ec_target = target, ec_value = value, ec_data = data\<rparr>, bytes)
   }"

fun read_calls :: "nat \<Rightarrow> u8 list \<Rightarrow> (ExecutorCall list \<times> u8 list) option" where
  "read_calls 0 bytes = Some ([], bytes)"
| "read_calls (Suc n) bytes = do {
     (call, bytes) \<leftarrow> read_call bytes;
     (calls, bytes) \<leftarrow> read_calls n bytes;
     Some (call # calls, bytes)
   }"

definition unpack_executor_calls :: "u8 list \<Rightarrow> ExecutorCall list option" where
  "unpack_executor_calls bytes = do {
     (count, bytes) \<leftarrow> read_word bytes;
     (calls, rest) \<leftarrow> read_calls (unat count) bytes;
     if rest = [] then Some calls else None
   }"

record PackedRoute =
  pr_flash_token :: address
  pr_flash_amount :: u256
  pr_profit_token :: address
  pr_min_profit :: u256
  pr_deadline :: u256
  pr_route_hash :: u256
  pr_calls :: "ExecutorCall list"

text \<open>What the executor accepts: the hash in the header is that of the calls behind it.\<close>

definition read_packed_route :: "(u8 list \<Rightarrow> u256) \<Rightarrow> u8 list \<Rightarrow> PackedRoute option" where
  "read_packed_route keccak256 bytes = do {
     (flash_token, bytes) \<leftarrow> read_address bytes;
     (flash_amount, bytes) \<leftarrow> read_word bytes;
     (profit_token, bytes) \<leftarrow> read_address bytes;
     (min_profit, bytes) \<leftarrow> read_word bytes;
     (deadline, bytes) \<leftarrow> read_word bytes;
     (route_hash, bytes) \<leftarrow> read_word bytes;
     calls \<leftarrow> unpack_executor_calls bytes;
     if route_hash = keccak256 bytes
     then Some \<lparr>pr_flash_token = flash_token, pr_flash_amount = flash_amount, pr_profit_token = profit_token,
                pr_min_profit = min_profit, pr_deadline = deadline, pr_route_hash = route_hash, pr_calls = calls\<rparr>
     else None
   }"

section \<open>What is written is what is read\<close>

lemma length_be_bytes [simp]: "length (be_bytes n w) = n"
  by (simp add: be_bytes_def)

lemma be_bytes_Suc: "be_bytes (Suc n) w = be_bytes n (drop_bit 8 w) @ [ucast w]"
proof -
  have "8 * (n - i) = 8 + 8 * (n - 1 - i)" if "i < n" for i
    using that by (simp add: algebra_simps)
  then show ?thesis
    by (simp add: be_bytes_def drop_bit_drop_bit ac_simps)
qed

lemma from_be_snoc: "from_be (bytes @ [b]) = from_be bytes * 256 + unat b"
  by (simp add: from_be_def)

lemma from_be_bytes: "from_be (be_bytes n w) = unat w mod 256 ^ n"
proof (induction n arbitrary: w)
  case 0
  show ?case by (simp add: from_be_def be_bytes_def)
next
  case (Suc n)
  have byte: "unat (ucast w :: u8) = unat w mod 256"
    by (simp add: unsigned_ucast_eq unsigned_take_bit_eq take_bit_eq_mod)
  have rest: "unat (drop_bit 8 w) = unat w div 256"
    using unat_drop_bit_eq [of 8 w] by (simp only: drop_bit_eq_div) simp
  have "from_be (be_bytes (Suc n) w) = (unat w div 256) mod 256 ^ n * 256 + unat w mod 256"
    by (simp add: be_bytes_Suc from_be_snoc Suc byte rest)
  also have "\<dots> = unat w mod (256 * 256 ^ n)"
    by (simp add: mod_mult2_eq)
  finally show ?case
    by simp
qed

lemma read_bytes_append [simp]: "length xs = n \<Longrightarrow> read_bytes n (xs @ rest) = Some (xs, rest)"
  by (simp add: read_bytes_def)

lemma read_word_bytes [simp]: "read_word (be_bytes 32 (w :: u256) @ rest) = Some (w, rest)"
proof -
  have "unat w mod 256 ^ 32 = unat w"
    using unat_lt_256 [of w] by (simp add: mod_less)
  then show ?thesis
    by (simp add: read_word_def from_be_bytes)
qed

lemma read_address_word [simp]: "read_address (address_word a @ rest) = Some (a, rest)"
proof -
  have "unat a mod 256 ^ 20 = unat a"
    using unsigned_less [where 'a = nat, of a] by (simp add: mod_less)
  moreover have "length (address_word a) = 32"
    by (simp add: address_word_def)
  ultimately show ?thesis
    by (simp add: read_address_def) (simp add: address_word_def from_be_bytes)
qed

lemma read_call_pack:
  assumes "length (ec_data call) < 2 ^ 64"
  shows "read_call (pack_call call @ rest) = Some (call, rest)"
proof -
  have "length (ec_data call) < 2 ^ 256"
    using assms by simp
  then have "unat (of_nat (length (ec_data call)) :: u256) = length (ec_data call)"
    by (simp add: unat_of_nat)
  then show ?thesis
    by (simp add: read_call_def pack_call_def)
qed

lemma read_calls_pack:
  assumes "list_all (\<lambda>call. length (ec_data call) < 2 ^ 64) calls"
  shows "read_calls (length calls) (concat (map pack_call calls) @ rest) = Some (calls, rest)"
  using assms by (induction calls) (simp_all add: read_call_pack)

lemma unpack_pack:
  assumes "pack_executor_calls calls = Inr bytes" "list_all (\<lambda>call. length (ec_data call) < 2 ^ 64) calls"
  shows "unpack_executor_calls bytes = Some calls"
proof -
  have bytes: "bytes = be_bytes 32 (of_nat (length calls) :: u256) @ concat (map pack_call calls)"
    and "length calls \<le> 12"
    using assms(1) by (auto simp: pack_executor_calls_def packed_calls_fit_executor_def MAX_EXECUTOR_CALLS_def split: if_splits)
  then have "unat (of_nat (length calls) :: u256) = length calls"
    by (simp add: unat_of_nat)
  then show ?thesis
    using read_calls_pack [OF assms(2), of "[]"] by (simp add: unpack_executor_calls_def bytes)
qed

section \<open>Properties\<close>

text \<open>
  Property C10. The packed route can be read back: from the bytes given to the executor the reader recovers loan
  token and amount, profit token and floor, deadline and every call, and the hash in the header is the hash of the packed calls.
\<close>

theorem packed_route_round_trip:
  assumes "build_packed_route_payload keccak256 flash_token flash_amount profit_token min_profit deadline calls =
      Inr (payload, route_hash)"
    and "list_all (\<lambda>call. length (ec_data call) < 2 ^ 64) calls"
  shows "read_packed_route keccak256 payload =
    Some \<lparr>pr_flash_token = flash_token, pr_flash_amount = flash_amount, pr_profit_token = profit_token,
          pr_min_profit = min_profit, pr_deadline = deadline, pr_route_hash = route_hash, pr_calls = calls\<rparr>"
proof -
  define head where "head hash = address_word flash_token @ be_bytes 32 flash_amount @ address_word profit_token @
      be_bytes 32 min_profit @ be_bytes 32 deadline @ be_bytes 32 hash" for hash :: u256
  have step: "build_packed_route_payload keccak256 flash_token flash_amount profit_token min_profit deadline calls =
      (if flash_token = 0 \<or> profit_token = 0 then Inl ZeroToken
       else case pack_executor_calls calls of Inl e \<Rightarrow> Inl e
       | Inr packed \<Rightarrow> Inr (head (keccak256 packed) @ packed, keccak256 packed))"
    unfolding build_packed_route_payload_def compute_route_hash_def Let_def head_def append_assoc ..
  obtain packed where packed: "pack_executor_calls calls = Inr packed"
    using assms(1) unfolding step by (cases "pack_executor_calls calls") (auto split: if_split_asm)
  have result: "payload = head (keccak256 packed) @ packed \<and> route_hash = keccak256 packed"
    using assms(1) unfolding step packed by (auto split: if_split_asm)
  show ?thesis
    using unpack_pack [OF packed assms(2)] by (simp add: read_packed_route_def result head_def)
qed

definition sample_call :: ExecutorCall where
  "sample_call = \<lparr>ec_target = 0x1111111111111111111111111111111111111111, ec_value = 7, ec_data = [0xaa, 0xbb, 0xcc]\<rparr>"

theorem packed_route_round_trip_witness:
  "\<exists>payload route_hash. build_packed_route_payload (\<lambda>bytes. of_nat (length bytes)) 0x20000 5 0x20001 1 9 [sample_call] =
       Inr (payload, route_hash) \<and>
     read_packed_route (\<lambda>bytes. of_nat (length bytes)) payload =
       Some \<lparr>pr_flash_token = 0x20000, pr_flash_amount = 5, pr_profit_token = 0x20001, pr_min_profit = 1, pr_deadline = 9,
             pr_route_hash = route_hash, pr_calls = [sample_call]\<rparr>"
proof -
  have "\<exists>bytes. pack_executor_calls [sample_call] = Inr bytes"
    by (simp add: pack_executor_calls_def packed_calls_fit_executor_def MAX_EXECUTOR_CALLS_def
        is_plausible_contract_address_def sample_call_def)
  then obtain payload route_hash where
    run: "build_packed_route_payload (\<lambda>bytes. of_nat (length bytes)) 0x20000 5 0x20001 1 9 [sample_call] = Inr (payload, route_hash)"
    by (auto simp: build_packed_route_payload_def Let_def)
  then show ?thesis
    using packed_route_round_trip [OF run] by (simp add: sample_call_def)
qed

end
