(* ===== verification/Submission.thy ===== *)
theory Submission
  imports Profit
begin

text \<open>
  Submitting a transaction: the nonce manager (\<open>src/services/execution/nonce.rs\<close>), the mempool gate
  (\<open>mempool.rs\<close>), the classification of submit errors (\<open>support.rs\<close>, section \<open>rpc_errors\<close>), and the fees
  and the retry loop of \<open>submit.rs\<close>.

  The node's answers are arguments. Sending a transaction appends its nonce and fees to a log, which is
  how the retry loop is observed; calldata, signing and the choice of the relay are not modelled. An
  \<open>Instant\<close> is a number of milliseconds.
\<close>

section \<open>Nonces\<close>

record NonceState =
  ns_local_nonce :: u64
  ns_in_flight :: "u64 set"
  ns_min_in_flight :: "u64 option"
  ns_stale :: "u64 set"

definition init_nonce_state :: NonceState where
  "init_nonce_state = \<lparr>ns_local_nonce = 0, ns_in_flight = {}, ns_min_in_flight = None, ns_stale = {}\<rparr>"

text \<open>The search for a free nonce; not returning is \<^const>\<open>None\<close>.\<close>

partial_function (option) next_free :: "(u64 \<Rightarrow> bool) \<Rightarrow> u64 \<Rightarrow> u64 option" where
  [code]: "next_free taken n = (if \<not> taken n then Some n else next_free taken (n + 1))"

definition next_available :: "NonceState \<Rightarrow> u64 option" where
  "next_available st =
     (let n = (case ns_min_in_flight st of
                 Some min_in_flight \<Rightarrow> min (ns_local_nonce st) min_in_flight
               | None \<Rightarrow> ns_local_nonce st)
      in next_free (\<lambda>n. n \<in> ns_in_flight st \<or> n \<in> ns_stale st) n)"

definition insert_in_flight :: "u64 \<Rightarrow> NonceState \<Rightarrow> NonceState" where
  "insert_in_flight nonce st =
     (if nonce \<in> ns_in_flight st then st
      else st\<lparr>ns_in_flight := insert nonce (ns_in_flight st),
              ns_min_in_flight := Some (case ns_min_in_flight st of None \<Rightarrow> nonce | Some m \<Rightarrow> min m nonce)\<rparr>)"

definition min_of :: "u64 set \<Rightarrow> u64 option" where
  "min_of S = (if S = {} then None else Some (Min S))"

definition remove_in_flight :: "u64 \<Rightarrow> NonceState \<Rightarrow> NonceState" where
  "remove_in_flight nonce st =
     (if nonce \<notin> ns_in_flight st then st
      else let st' = st\<lparr>ns_in_flight := ns_in_flight st - {nonce}\<rparr>
           in if ns_min_in_flight st = Some nonce then st'\<lparr>ns_min_in_flight := min_of (ns_in_flight st')\<rparr>
              else st')"

definition clear_in_flight :: "NonceState \<Rightarrow> NonceState" where
  "clear_in_flight st = st\<lparr>ns_in_flight := {}, ns_min_in_flight := None\<rparr>"

definition prune_stale :: "NonceState \<Rightarrow> NonceState" where
  "prune_stale st = st\<lparr>ns_stale := {n \<in> ns_stale st. n \<ge> ns_local_nonce st}\<rparr>"

record NonceManager =
  nm_address :: address
  nm_initialized :: bool
  nm_state :: NonceState

definition new_nonce_manager :: "address \<Rightarrow> NonceManager" where
  "new_nonce_manager addr = \<lparr>nm_address = addr, nm_initialized = False, nm_state = init_nonce_state\<rparr>"

text \<open>\<open>pending\<close> is the node's answer to the pending transaction count.\<close>

definition initialize :: "(string + u64) \<Rightarrow> NonceManager \<Rightarrow> (string + unit) \<times> NonceManager" where
  "initialize pending nm =
     (case pending of
        Inl e \<Rightarrow> (Inl e, nm)
      | Inr nonce \<Rightarrow>
          (Inr (), nm\<lparr>nm_state := (clear_in_flight ((nm_state nm)\<lparr>ns_local_nonce := nonce\<rparr>))\<lparr>ns_stale := {}\<rparr>,
                      nm_initialized := True\<rparr>))"

definition next_nonce :: "NonceManager \<Rightarrow> ((string + u64) \<times> NonceManager) option" where
  "next_nonce nm =
     (if \<not> nm_initialized nm then Some (Inl ''nonce manager not initialized'', nm)
      else do {
        nonce \<leftarrow> next_available (nm_state nm);
        Some (Inr nonce, nm\<lparr>nm_state := insert_in_flight nonce (nm_state nm)\<rparr>)
      })"

definition confirm :: "u64 \<Rightarrow> NonceManager \<Rightarrow> NonceManager" where
  "confirm confirmed nm =
     (let st = remove_in_flight confirmed (nm_state nm);
          st = st\<lparr>ns_local_nonce := max (ns_local_nonce st) (confirmed + 1)\<rparr>
      in nm\<lparr>nm_state := prune_stale st\<rparr>)"

definition release :: "u64 \<Rightarrow> NonceManager \<Rightarrow> NonceManager" where
  "release nonce nm = nm\<lparr>nm_state := remove_in_flight nonce (nm_state nm)\<rparr>"

definition mark_stale :: "u64 \<Rightarrow> NonceManager \<Rightarrow> NonceManager" where
  "mark_stale nonce nm =
     (let st = remove_in_flight nonce (nm_state nm)
      in nm\<lparr>nm_state := st\<lparr>ns_stale := insert nonce (ns_stale st)\<rparr>\<rparr>)"

definition replace_nonce :: "u64 \<Rightarrow> NonceManager \<Rightarrow> u64 option \<times> NonceManager" where
  "replace_nonce nonce nm =
     (let st = nm_state nm
      in if nonce \<in> ns_stale st \<or> nonce \<in> ns_in_flight st
         then (Some nonce, nm\<lparr>nm_state := insert_in_flight nonce (st\<lparr>ns_stale := ns_stale st - {nonce}\<rparr>)\<rparr>)
         else (None, nm))"

definition stale_count :: "NonceManager \<Rightarrow> nat" where "stale_count nm = card (ns_stale (nm_state nm))"
definition in_flight_count :: "NonceManager \<Rightarrow> nat" where "in_flight_count nm = card (ns_in_flight (nm_state nm))"

definition resync_if_dirty :: "(string + u64) \<Rightarrow> NonceManager \<Rightarrow> (string + bool) \<times> NonceManager" where
  "resync_if_dirty pending nm =
     (if stale_count nm = 0 \<and> in_flight_count nm = 0 then (Inr False, nm)
      else case initialize pending nm of
        (Inl e, nm) \<Rightarrow> (Inl e, nm)
      | (Inr _, nm) \<Rightarrow> (Inr True, nm))"

section \<open>The mempool gate\<close>

definition MEMPOOL_STALL_TIMEOUT :: nat where "MEMPOOL_STALL_TIMEOUT = 20000"

record MempoolGateDecision =
  mg_allow_submit :: bool
  mg_pending_ahead :: bool

definition decide_mempool_gate :: "u64 \<Rightarrow> u64 \<Rightarrow> nat option \<Rightarrow> nat \<Rightarrow> nat \<Rightarrow> MempoolGateDecision" where
  "decide_mempool_gate latest pending last_global_submit now stall_timeout =
     (if pending = latest then \<lparr>mg_allow_submit = True, mg_pending_ahead = False\<rparr>
      else if (case last_global_submit of Some t \<Rightarrow> now - t \<le> stall_timeout | None \<Rightarrow> False)
      then \<lparr>mg_allow_submit = False, mg_pending_ahead = False\<rparr>
      else \<lparr>mg_allow_submit = True, mg_pending_ahead = True\<rparr>)"

section \<open>Submit errors\<close>

datatype SubmitAction = ResyncAndRetry | BumpFeesAndRetry | AlreadyKnown | InsufficientFunds | Fail

text \<open>\<open>eq_ignore_ascii_case\<close> of a needle in a window of the message.\<close>

definition ascii_lower :: "char \<Rightarrow> nat" where
  "ascii_lower c = (let n = of_char c in if 65 \<le> n \<and> n \<le> (90 :: nat) then n + 32 else n)"

fun prefix_ic :: "string \<Rightarrow> string \<Rightarrow> bool" where
  "prefix_ic [] h = True"
| "prefix_ic (c # n) [] = False"
| "prefix_ic (c # n) (d # h) = (ascii_lower c = ascii_lower d \<and> prefix_ic n h)"

fun ic :: "string \<Rightarrow> string \<Rightarrow> bool" where
  "ic [] needle = (needle = [])"
| "ic (c # h) needle = (prefix_ic needle (c # h) \<or> ic h needle)"

definition classify_submit_error :: "string \<Rightarrow> SubmitAction" where
  "classify_submit_error msg =
     (if ic msg ''nonce too low'' \<or> ic msg ''nonce has already been used'' \<or> ic msg ''nonce too high''
      then ResyncAndRetry
      else if ic msg ''already known'' \<or> ic msg ''already imported'' then AlreadyKnown
      else if ic msg ''replacement transaction underpriced'' \<or> ic msg ''fee too low'' \<or> ic msg ''underpriced''
      then BumpFeesAndRetry
      else if ic msg ''insufficient funds'' \<or> ic msg ''insufficient balance'' then InsufficientFunds
      else if ic msg ''429'' \<or> ic msg ''rate limit'' \<or> ic msg ''timeout'' then BumpFeesAndRetry
      else Fail)"

definition release_failed_submit_nonce :: "NonceManager \<Rightarrow> u64 \<Rightarrow> SubmitAction \<Rightarrow> NonceManager" where
  "release_failed_submit_nonce nm nonce action =
     (if action = AlreadyKnown then mark_stale nonce nm else release nonce nm)"

section \<open>Fees\<close>

definition FEE_BUMP_BPS :: u64 where "FEE_BUMP_BPS = 1500"
definition MAX_SUBMIT_ATTEMPTS :: u32 where "MAX_SUBMIT_ATTEMPTS = 3"

record SubmitFees =
  sf_max_fee_per_gas :: u256
  sf_max_priority_fee_per_gas :: u256

definition bump_fees :: "SubmitFees \<Rightarrow> u64 \<Rightarrow> SubmitFees" where
  "bump_fees fees bump_bps =
     (let num = (ucast (10000 + bump_bps) :: u256)
      in \<lparr>sf_max_fee_per_gas = sf_max_fee_per_gas fees * num div 10000,
          sf_max_priority_fee_per_gas = sf_max_priority_fee_per_gas fees * num div 10000\<rparr>)"

definition resolve_submit_fees :: "GasOracle \<Rightarrow> SubmitFees option" where
  "resolve_submit_fees orc = do {
     snap \<leftarrow> go_snapshot orc;
     let priority_fee = max (fs_priority_fee snap) MIN_PRIORITY_FEE_PER_GAS;
     Some \<lparr>sf_max_fee_per_gas = max (compute_conservative_gas_price snap) (fs_base_fee snap + priority_fee),
           sf_max_priority_fee_per_gas = priority_fee\<rparr>
   }"

definition resolve_submit_fees_with_profit :: "GasOracle \<Rightarrow> u256 \<Rightarrow> u64 \<Rightarrow> u64 \<Rightarrow> SubmitFees option" where
  "resolve_submit_fees_with_profit orc expected_profit alpha_bps tip_gas_units = do {
     snap \<leftarrow> go_snapshot orc;
     let max_fee = compute_conservative_gas_price snap;
     let priority_fee = max (fs_priority_fee snap) MIN_PRIORITY_FEE_PER_GAS;
     if expected_profit = 0 \<or> alpha_bps = 0 \<or> tip_gas_units = 0
     then Some \<lparr>sf_max_fee_per_gas = max_fee, sf_max_priority_fee_per_gas = priority_fee\<rparr>
     else do {
       let tip = profit_priority_tip_per_gas expected_profit alpha_bps
         (ucast (min tip_gas_units (ucast (- 1 :: u32))));
       let priority_fee = max priority_fee tip;
       let min_max_fee = fs_base_fee snap + priority_fee;
       Some \<lparr>sf_max_fee_per_gas = max max_fee min_max_fee, sf_max_priority_fee_per_gas = priority_fee\<rparr>
     }
   }"

definition expected_submit_gas_price :: "u256 \<Rightarrow> SubmitFees \<Rightarrow> u256" where
  "expected_submit_gas_price base_fee fees = saturating_add base_fee (sf_max_priority_fee_per_gas fees)"

definition required_operator_balance :: "u256 option \<Rightarrow> u256 \<Rightarrow> u64 \<Rightarrow> u256 \<Rightarrow> u256 option" where
  "required_operator_balance min_operator_balance transaction_value gas_limit max_fee_per_gas = do {
     gas_budget \<leftarrow> checked_mul (ucast gas_limit) max_fee_per_gas;
     total \<leftarrow> checked_add gas_budget transaction_value;
     checked_add total (or_default min_operator_balance 0)
   }"

section \<open>Submitting with recovery\<close>

text \<open>
  What the outside world answers: the result of sending, by attempt, the pending nonce when the manager
  resynchronizes, and the transaction hash that may be part of an error message.
\<close>

record 'hash node =
  nd_send :: "nat \<Rightarrow> u64 \<Rightarrow> SubmitFees \<Rightarrow> string + 'hash"
  nd_pending :: "nat \<Rightarrow> string + u64"
  nd_hash_in_error :: "string \<Rightarrow> 'hash option"

text \<open>A transaction request: building it fails when a fee does not fit 128 bits.\<close>

definition build_transaction_request :: "u64 \<Rightarrow> SubmitFees \<Rightarrow> (u64 \<times> SubmitFees) option" where
  "build_transaction_request nonce fees = do {
     _ \<leftarrow> u256_to_u128 (sf_max_fee_per_gas fees);
     _ \<leftarrow> u256_to_u128 (sf_max_priority_fee_per_gas fees);
     Some (nonce, fees)
   }"

text \<open>
  The loop. \<open>left\<close> counts the attempts still allowed, so the attempt number is
  \<open>MAX_SUBMIT_ATTEMPTS - left + 1\<close>. The result is the outcome, the nonce, the manager and the log of
  transactions sent; \<^const>\<open>None\<close> stands for a search for a nonce that does not return.
\<close>

type_synonym 'hash submitted = "((string + 'hash) \<times> u64 \<times> NonceManager \<times> (u64 \<times> SubmitFees) list) option"

fun submit_loop ::
    "'hash node \<Rightarrow> nat \<Rightarrow> NonceManager \<Rightarrow> u64 \<Rightarrow> SubmitFees \<Rightarrow> (u64 \<times> SubmitFees) list \<Rightarrow> 'hash submitted" where
  "submit_loop node 0 nm nonce fees log = Some (Inl '''', nonce, nm, log)"
| "submit_loop node (Suc left) nm nonce fees log =
     (case build_transaction_request nonce fees of
        None \<Rightarrow> Some (Inl ''fee exceeds u128'', nonce, nm, log)
      | Some tx \<Rightarrow>
          let log = log @ [tx]
          in case nd_send node left nonce fees of
            Inr hash \<Rightarrow> Some (Inr hash, nonce, nm, log)
          | Inl e \<Rightarrow>
              if left = 0 then Some (Inl e, nonce, nm, log)
              else case classify_submit_error e of
                ResyncAndRetry \<Rightarrow>
                  (case initialize (nd_pending node left) (release nonce nm) of
                     (Inl e, nm) \<Rightarrow> Some (Inl e, nonce, nm, log)
                   | (Inr _, nm) \<Rightarrow>
                       (case next_nonce nm of
                          None \<Rightarrow> None
                        | Some (Inl e, nm) \<Rightarrow> Some (Inl e, nonce, nm, log)
                        | Some (Inr nonce, nm) \<Rightarrow> submit_loop node left nm nonce fees log))
              | BumpFeesAndRetry \<Rightarrow> submit_loop node left nm nonce (bump_fees fees FEE_BUMP_BPS) log
              | AlreadyKnown \<Rightarrow>
                  (case nd_hash_in_error node e of
                     Some hash \<Rightarrow> Some (Inr hash, nonce, nm, log)
                   | None \<Rightarrow> Some (Inl ''transaction already known but hash unavailable'', nonce, nm, log))
              | InsufficientFunds \<Rightarrow> Some (Inl e, nonce, nm, log)
              | Fail \<Rightarrow> Some (Inl e, nonce, nm, log))"

definition submit_with_recovery :: "'hash node \<Rightarrow> NonceManager \<Rightarrow> u64 \<Rightarrow> SubmitFees \<Rightarrow> 'hash submitted" where
  "submit_with_recovery node nm nonce fees = submit_loop node (unat MAX_SUBMIT_ATTEMPTS) nm nonce fees []"

section \<open>The search for a nonce\<close>

lemma next_free_not_taken: "next_free taken n = Some m \<Longrightarrow> \<not> taken m"
  by (erule next_free.raw_induct [rotated, of _ _ _ "\<lambda>taken n m. \<not> taken m"]) (auto split: if_splits)

lemma next_free_finds:
  "(\<And>j. j < k \<Longrightarrow> taken (n + of_nat j)) \<Longrightarrow> \<not> taken (n + of_nat k) \<Longrightarrow> next_free taken n = Some (n + of_nat k)"
proof (induction k arbitrary: n)
  case 0
  then show ?case by (subst next_free.simps) simp
next
  case (Suc k)
  have "taken n" using Suc.prems(1) [of 0] by simp
  moreover have "next_free taken (n + 1) = Some (n + 1 + of_nat k)"
  proof (rule Suc.IH)
    show "taken (n + 1 + of_nat j)" if "j < k" for j
      using Suc.prems(1) [of "Suc j"] that by (simp add: ac_simps)
    show "\<not> taken (n + 1 + of_nat k)" using Suc.prems(2) by (simp add: ac_simps)
  qed
  ultimately show ?case by (subst next_free.simps) (simp add: ac_simps)
qed

text \<open>The search returns exactly when some nonce is free, and then at the first free one from its start.\<close>

lemma next_free_returns:
  assumes "\<not> taken m"
  obtains k where "next_free taken n = Some (n + of_nat k)" and "\<not> taken (n + of_nat k)"
    and "\<And>j. j < k \<Longrightarrow> taken (n + of_nat j)"
proof -
  let ?k = "LEAST k. \<not> taken (n + of_nat k)"
  have "\<not> taken (n + of_nat (unat (m - n)))" using assms by simp
  then have free: "\<not> taken (n + of_nat ?k)" by (rule LeastI)
  have "taken (n + of_nat j)" if "j < ?k" for j using not_less_Least [OF that] by blast
  then show thesis using that [OF next_free_finds] free by blast
qed

lemma next_free_room:
  assumes "card {m. taken m} < 2 ^ 64"
  obtains m where "\<not> taken (m :: u64)"
proof -
  have "{m. taken m} \<noteq> (UNIV :: u64 set)" using assms by (auto simp: card_word)
  then show thesis using that by auto
qed

section \<open>Runs of the nonce manager\<close>

text \<open>
  A run from a fresh manager, with the set of nonces confirmed since the last synchronization. A step
  confirms a nonce that was reserved or is stale and that \<open>ok\<close> admits, and reserves one while the account
  has not used up its 64-bit nonces.
\<close>

definition nonce_room :: "NonceState \<Rightarrow> bool" where
  "nonce_room st \<longleftrightarrow> (\<exists>m. ns_local_nonce st \<le> m \<and> m \<notin> ns_in_flight st \<and> m \<notin> ns_stale st)"

inductive nonce_run :: "(u64 \<Rightarrow> NonceManager \<Rightarrow> bool) \<Rightarrow> u64 set \<Rightarrow> NonceManager \<Rightarrow> bool" for ok where
  run_new: "nonce_run ok {} (new_nonce_manager addr)"
| run_init: "nonce_run ok C nm \<Longrightarrow> initialize (Inr pending) nm = (r, nm') \<Longrightarrow> nonce_run ok {} nm'"
| run_next: "nonce_run ok C nm \<Longrightarrow> nonce_room (nm_state nm) \<Longrightarrow> next_nonce nm = Some (r, nm') \<Longrightarrow>
    nonce_run ok C nm'"
| run_confirm: "nonce_run ok C nm \<Longrightarrow> n \<in> ns_in_flight (nm_state nm) \<union> ns_stale (nm_state nm) \<Longrightarrow> ok n nm \<Longrightarrow>
    nonce_run ok (insert n C) (confirm n nm)"
| run_release: "nonce_run ok C nm \<Longrightarrow> nonce_run ok C (release n nm)"
| run_stale: "nonce_run ok C nm \<Longrightarrow> n \<in> ns_in_flight (nm_state nm) \<Longrightarrow> nonce_run ok C (mark_stale n nm)"
| run_replace: "nonce_run ok C nm \<Longrightarrow> replace_nonce n nm = (r, nm') \<Longrightarrow> nonce_run ok C nm'"

definition min_in_flight_ok :: "NonceState \<Rightarrow> bool" where
  "min_in_flight_ok st \<longleftrightarrow> ns_min_in_flight st = min_of (ns_in_flight st)"

lemma min_ok_insert: "min_in_flight_ok st \<Longrightarrow> min_in_flight_ok (insert_in_flight n st)"
  by (auto simp: min_in_flight_ok_def insert_in_flight_def min_of_def Min_insert2 min.commute)

lemma min_ok_remove:
  assumes "min_in_flight_ok st" shows "min_in_flight_ok (remove_in_flight n st)"
proof (cases "n \<in> ns_in_flight st \<and> ns_min_in_flight st \<noteq> Some n")
  case True
  let ?S = "ns_in_flight st"
  have ne: "?S \<noteq> {}" "Min ?S \<noteq> n" using True assms by (auto simp: min_in_flight_ok_def min_of_def split: if_splits)
  then have mem: "Min ?S \<in> ?S - {n}" by simp
  then have "?S - {n} \<noteq> {}" by blast
  moreover have "Min (?S - {n}) = Min ?S" using mem by (intro Min_eqI) auto
  ultimately have "min_of (?S - {n}) = min_of ?S" using ne(1) by (simp add: min_of_def)
  then show ?thesis using True assms by (simp add: min_in_flight_ok_def remove_in_flight_def Let_def)
next
  case False
  then show ?thesis using assms by (auto simp: min_in_flight_ok_def remove_in_flight_def Let_def)
qed

lemma min_ok_frame [simp]:
  "min_in_flight_ok (st\<lparr>ns_stale := S\<rparr>) = min_in_flight_ok st"
  "min_in_flight_ok (st\<lparr>ns_local_nonce := n\<rparr>) = min_in_flight_ok st"
  "min_in_flight_ok (prune_stale st) = min_in_flight_ok st"
  "min_in_flight_ok (clear_in_flight st)"
  by (simp_all add: min_in_flight_ok_def prune_stale_def clear_in_flight_def min_of_def)

lemma min_ok_run: "nonce_run ok C nm \<Longrightarrow> min_in_flight_ok (nm_state nm)"
proof (induction rule: nonce_run.induct)
  case (run_new addr)
  then show ?case by (simp add: new_nonce_manager_def init_nonce_state_def min_in_flight_ok_def min_of_def)
qed (auto simp: initialize_def next_nonce_def confirm_def release_def mark_stale_def replace_nonce_def Let_def
    bind_eq_Some_conv min_ok_insert min_ok_remove split: if_splits)

section \<open>Confirmations in order\<close>

definition in_order :: "u64 \<Rightarrow> NonceManager \<Rightarrow> bool" where
  "in_order n nm \<longleftrightarrow> ns_min_in_flight (nm_state nm) = Some n \<and> n < - 1"

lemma in_flight_insert [simp]: "ns_in_flight (insert_in_flight n st) = insert n (ns_in_flight st)"
  by (auto simp: insert_in_flight_def)

lemma in_flight_remove [simp]: "ns_in_flight (remove_in_flight n st) = ns_in_flight st - {n}"
  by (auto simp: remove_in_flight_def Let_def)

lemma in_flight_ops_frame [simp]:
  "ns_local_nonce (insert_in_flight n st) = ns_local_nonce st" "ns_stale (insert_in_flight n st) = ns_stale st"
  "ns_local_nonce (remove_in_flight n st) = ns_local_nonce st" "ns_stale (remove_in_flight n st) = ns_stale st"
  by (simp_all add: insert_in_flight_def remove_in_flight_def Let_def)

lemma next_available_least:
  assumes "min_in_flight_ok st" and "next_available st = Some n"
  shows "n \<notin> ns_in_flight st \<and> n \<notin> ns_stale st"
  using next_free_not_taken [OF assms(2) [unfolded next_available_def Let_def]] by simp

text \<open>With every reservation at or above the local nonce, so is the next one handed out.\<close>

definition above_local :: "u64 set \<Rightarrow> NonceState \<Rightarrow> bool" where
  "above_local C st \<longleftrightarrow>
     (\<forall>m \<in> ns_in_flight st \<union> ns_stale st. ns_local_nonce st \<le> m) \<and> (\<forall>c \<in> C. c < ns_local_nonce st)"

lemma next_available_above:
  assumes "min_in_flight_ok st" and "above_local C st" and "next_available st = Some n"
    and "nonce_room st"
  shows "ns_local_nonce st \<le> n"
proof -
  let ?taken = "\<lambda>n. n \<in> ns_in_flight st \<or> n \<in> ns_stale st" and ?l = "ns_local_nonce st"
  have "(case ns_min_in_flight st of Some m \<Rightarrow> min ?l m | None \<Rightarrow> ?l) = ?l"
  proof (cases "ns_in_flight st = {}")
    case False
    then have "?l \<le> Min (ns_in_flight st)" using assms(2) by (simp add: above_local_def)
    then show ?thesis using False assms(1) by (simp add: min_in_flight_ok_def min_of_def)
  qed (use assms(1) in \<open>simp add: min_in_flight_ok_def min_of_def\<close>)
  then have start: "next_free ?taken ?l = Some n" using assms(3) by (simp add: next_available_def)
  obtain m where m: "?l \<le> m" "\<not> ?taken m" using assms(4) by (auto simp: nonce_room_def)
  obtain k where k: "next_free ?taken ?l = Some (?l + of_nat k)" "\<And>j. j < k \<Longrightarrow> ?taken (?l + of_nat j)"
    using next_free_returns [of ?taken m ?l] m(2) by blast
  have "\<not> unat (m - ?l) < k" using k(2) [of "unat (m - ?l)"] m(2) by auto
  then have "k \<le> unat m - unat ?l" using m(1) by (simp add: unat_sub_nowrap)
  then have "unat ?l + k < 2 ^ LENGTH(64)" using m(1) unsigned_less [of m, where 'a = nat]
    by (simp add: word_le_nat_alt)
  then have "unat (?l + of_nat k) = unat ?l + k"
    by (subst unat_add_nowrap) (simp_all add: unat_of_nat_fits)
  then show ?thesis using k(1) start by (simp add: word_le_nat_alt)
qed

lemma above_local_confirm:
  assumes "min_in_flight_ok st" and "above_local C st" and "ns_min_in_flight st = Some n" and "n < - 1"
  shows "above_local (insert n C) (prune_stale ((remove_in_flight n st)\<lparr>ns_local_nonce := max (ns_local_nonce st) (n + 1)\<rparr>))"
proof -
  have S: "n = Min (ns_in_flight st)" "ns_in_flight st \<noteq> {}"
    using assms(1,3) by (auto simp: min_in_flight_ok_def min_of_def split: if_splits)
  then have "n \<in> ns_in_flight st" by (simp add: Min_in)
  then have l: "ns_local_nonce st \<le> n" using assms(2) by (simp add: above_local_def)
  have n1: "unat (n + 1) = unat n + 1"
    using assms(4) by (subst unat_add_nowrap) (simp_all add: word_less_nat_alt unat_max_word)
  have up: "n + 1 \<le> m" if "n < m" for m using that n1 by (simp add: word_le_nat_alt word_less_nat_alt)
  have mx: "max (ns_local_nonce st) (n + 1) = n + 1" using l n1 by (simp add: max_def word_le_nat_alt)
  have "n + 1 \<le> m" if "m \<in> ns_in_flight st" "m \<noteq> n" for m
  proof (rule up)
    have "n \<le> m" unfolding S(1) using that(1) by (intro Min_le) simp_all
    then show "n < m" using that(2) by simp
  qed
  moreover have "c < n + 1" if "c \<in> insert n C" for c
    using that assms(2) l n1 by (auto simp: above_local_def word_le_nat_alt word_less_nat_alt)
  ultimately show ?thesis by (auto simp: above_local_def mx prune_stale_def)
qed

lemma above_local_run:
  assumes "nonce_run in_order C nm" shows "above_local C (nm_state nm)"
  using assms
proof (induction rule: nonce_run.induct)
  case (run_new addr)
  then show ?case by (simp add: new_nonce_manager_def init_nonce_state_def above_local_def)
next
  case (run_init C nm pending r nm')
  then show ?case by (auto simp: initialize_def above_local_def clear_in_flight_def)
next
  case (run_next C nm r nm')
  have ok: "min_in_flight_ok (nm_state nm)" using run_next.hyps(1) by (rule min_ok_run)
  have "ns_local_nonce (nm_state nm) \<le> n" if "next_available (nm_state nm) = Some n" for n
    using ok run_next.IH that run_next.hyps(2) by (rule next_available_above)
  then show ?case
    using run_next.IH run_next.hyps(3)
    by (auto simp: next_nonce_def bind_eq_Some_conv above_local_def split: if_splits)
next
  case (run_confirm C nm n)
  have "min_in_flight_ok (nm_state nm)" using run_confirm.hyps(1) by (rule min_ok_run)
  then show ?case
    using above_local_confirm [of "nm_state nm" C n] run_confirm.IH run_confirm.hyps(3)
    by (simp add: confirm_def Let_def in_order_def)
next
  case (run_release C nm n)
  then show ?case by (auto simp: release_def above_local_def)
next
  case (run_stale C nm n)
  then show ?case by (auto simp: mark_stale_def Let_def above_local_def)
next
  case (run_replace C nm n r nm')
  then show ?case by (auto simp: replace_nonce_def Let_def above_local_def split: if_splits)
qed

section \<open>Properties\<close>

text \<open>
  Property C20. A reservation is exclusive: an initialized manager with free nonces always hands one out,
  and it is neither in flight nor stale, so two outstanding transactions never share a nonce and a nonce
  whose transaction may still be pending is not reused; nothing else about the reservations changes.
\<close>

theorem next_nonce_exclusive:
  assumes "nm_initialized nm"
    and "card (ns_in_flight (nm_state nm) \<union> ns_stale (nm_state nm)) < 2 ^ 64"
  shows "\<exists>n nm'. next_nonce nm = Some (Inr n, nm') \<and>
           n \<notin> ns_in_flight (nm_state nm) \<and> n \<notin> ns_stale (nm_state nm) \<and>
           ns_in_flight (nm_state nm') = insert n (ns_in_flight (nm_state nm)) \<and>
           ns_stale (nm_state nm') = ns_stale (nm_state nm)"
proof -
  let ?taken = "\<lambda>n. n \<in> ns_in_flight (nm_state nm) \<or> n \<in> ns_stale (nm_state nm)"
  have "{m. ?taken m} = ns_in_flight (nm_state nm) \<union> ns_stale (nm_state nm)" by auto
  then obtain m where "\<not> ?taken m" using next_free_room [of ?taken] assms(2) by auto
  then have "\<exists>n. next_available (nm_state nm) = Some n \<and> \<not> ?taken n"
    unfolding next_available_def Let_def by (rule next_free_returns) blast
  then show ?thesis using assms(1) by (auto simp: next_nonce_def)
qed

definition sample_manager :: NonceManager where
  "sample_manager = snd (initialize (Inr 5) (new_nonce_manager 0))"

theorem next_nonce_exclusive_witness:
  "\<exists>n nm'. next_nonce sample_manager = Some (Inr n, nm') \<and> n \<notin> ns_stale (nm_state sample_manager)"
proof -
  have "nm_initialized sample_manager"
    "card (ns_in_flight (nm_state sample_manager) \<union> ns_stale (nm_state sample_manager)) < 2 ^ 64"
    by (simp_all add: sample_manager_def initialize_def clear_in_flight_def)
  then show ?thesis using next_nonce_exclusive by blast
qed

text \<open>
  While transactions are confirmed in the order of their nonces, a nonce that was confirmed
  is never handed out again: in every run the next nonce is at least the local one, which is above every
  nonce confirmed since the last synchronization.
\<close>

theorem next_nonce_not_confirmed:
  assumes "nonce_run in_order C nm" and "nonce_room (nm_state nm)" and "next_nonce nm = Some (Inr n, nm')"
  shows "n \<notin> C \<and> ns_local_nonce (nm_state nm) \<le> n"
proof -
  have above: "above_local C (nm_state nm)" using assms(1) by (rule above_local_run)
  have "next_available (nm_state nm) = Some n"
    using assms(3) by (auto simp: next_nonce_def bind_eq_Some_conv split: if_splits)
  then have "ns_local_nonce (nm_state nm) \<le> n"
    using next_available_above [OF min_ok_run [OF assms(1)] above _ assms(2)] by blast
  then show ?thesis using above by (auto simp: above_local_def)
qed

text \<open>Three reservations from nonce 5 on.\<close>

definition nonce_manager_at :: "u64 \<Rightarrow> u64 set \<Rightarrow> u64 option \<Rightarrow> NonceManager" where
  "nonce_manager_at local in_flight m =
     \<lparr>nm_address = 0, nm_initialized = True,
      nm_state = \<lparr>ns_local_nonce = local, ns_in_flight = in_flight, ns_min_in_flight = m, ns_stale = {}\<rparr>\<rparr>"

lemma sample_manager_eq: "sample_manager = nonce_manager_at 5 {} None"
  by (simp add: sample_manager_def initialize_def clear_in_flight_def new_nonce_manager_def
      init_nonce_state_def nonce_manager_at_def)

lemma next_nonce_at:
  assumes "next_free (\<lambda>n. n \<in> S) (case m of Some m \<Rightarrow> min l m | None \<Rightarrow> l) = Some n" and "n \<notin> S"
  shows "next_nonce (nonce_manager_at l S m) =
    Some (Inr n, nonce_manager_at l (insert n S) (Some (case m of None \<Rightarrow> n | Some m \<Rightarrow> min m n)))"
  using assms
  by (cases m) (simp_all add: next_nonce_def next_available_def insert_in_flight_def nonce_manager_at_def Let_def)

lemma next_free_step: "taken n \<Longrightarrow> next_free taken n = next_free taken (n + 1)"
  "\<not> taken n \<Longrightarrow> next_free taken n = Some n"
  by (subst next_free.simps; simp)+

lemma reserve_5: "next_nonce (nonce_manager_at 5 {} None) = Some (Inr 5, nonce_manager_at 5 {5} (Some 5))"
  by (subst next_nonce_at) (simp_all add: next_free_step)

lemma reserve_6: "next_nonce (nonce_manager_at 5 {5} (Some 5)) = Some (Inr 6, nonce_manager_at 5 {5, 6} (Some 5))"
  by (subst next_nonce_at [of _ _ _ 6]) (simp_all add: next_free_step insert_commute)

lemma reserve_7: "next_nonce (nonce_manager_at 5 {5, 6} (Some 5)) = Some (Inr 7, nonce_manager_at 5 {5, 6, 7} (Some 5))"
  by (subst next_nonce_at [of _ _ _ 7]) (simp_all add: next_free_step insert_commute)

lemma room_at: "finite S \<Longrightarrow> l \<le> m \<Longrightarrow> m \<notin> S \<Longrightarrow> nonce_room (nm_state (nonce_manager_at l S x))"
  by (auto simp: nonce_room_def nonce_manager_at_def)

lemma three_reserved_run: "nonce_run ok {} (nonce_manager_at 5 {5, 6, 7} (Some 5))"
proof -
  have r0: "nonce_run ok {} (nonce_manager_at 5 {} None)"
    unfolding sample_manager_eq [symmetric] sample_manager_def
    by (rule run_init [OF run_new, of 5 0 "fst (initialize (Inr 5) (new_nonce_manager 0))"]) simp
  have r1: "nonce_run ok {} (nonce_manager_at 5 {5} (Some 5))"
    using r0 _ reserve_5 by (rule run_next) (rule room_at [of _ _ 8]; simp)
  have r2: "nonce_run ok {} (nonce_manager_at 5 {5, 6} (Some 5))"
    using r1 _ reserve_6 by (rule run_next) (rule room_at [of _ _ 8]; simp)
  show ?thesis using r2 _ reserve_7 by (rule run_next) (rule room_at [of _ _ 8]; simp)
qed

theorem next_nonce_not_confirmed_witness:
  "\<exists>n nm'. next_nonce (confirm 5 (nonce_manager_at 5 {5, 6, 7} (Some 5))) = Some (Inr n, nm') \<and> n \<noteq> 5"
proof -
  let ?nm = "confirm 5 (nonce_manager_at 5 {5, 6, 7} (Some 5))"
  have nm: "?nm = nonce_manager_at 6 {6, 7} (Some 6)"
    by (simp add: confirm_def remove_in_flight_def min_of_def prune_stale_def nonce_manager_at_def Let_def)
  have "next_nonce ?nm = Some (Inr 8, nonce_manager_at 6 {6, 7, 8} (Some 6))"
    unfolding nm by (subst next_nonce_at [of _ _ _ 8]) (simp_all add: next_free_step insert_commute)
  moreover have "nonce_run in_order {5} ?nm"
    by (rule run_confirm [OF three_reserved_run]) (simp_all add: in_order_def nonce_manager_at_def)
  moreover have "nonce_room (nm_state ?nm)" unfolding nm by (rule room_at [of _ _ 8]) simp_all
  ultimately show ?thesis using next_nonce_not_confirmed [of "{5}" ?nm 8] by blast
qed

text \<open>
  Property C32. A confirmation out of order makes the manager hand out the confirmed nonce again. With
  nonces 5, 6 and 7 in flight, the receipt of 6 arrives first; the search for a free nonce starts at the
  smallest one in flight, below the local nonce, and returns 6, which the chain has used.
\<close>

theorem confirmed_nonce_handed_out:
  "nonce_run (\<lambda>n nm. True) {6} (confirm 6 (nonce_manager_at 5 {5, 6, 7} (Some 5))) \<and>
   (\<exists>nm'. next_nonce (confirm 6 (nonce_manager_at 5 {5, 6, 7} (Some 5))) = Some (Inr 6, nm')) \<and>
   6 < ns_local_nonce (nm_state (confirm 6 (nonce_manager_at 5 {5, 6, 7} (Some 5))))"
proof -
  let ?nm = "confirm 6 (nonce_manager_at 5 {5, 6, 7} (Some 5))"
  have nm: "?nm = nonce_manager_at 7 {5, 7} (Some 5)"
    by (auto simp: confirm_def remove_in_flight_def prune_stale_def nonce_manager_at_def Let_def)
  have "next_nonce ?nm = Some (Inr 6, nonce_manager_at 7 {6, 5, 7} (Some 5))"
    unfolding nm by (subst next_nonce_at [of _ _ _ 6]) (simp_all add: next_free_step)
  moreover have "nonce_run (\<lambda>n nm. True) {6} ?nm"
    by (rule run_confirm [OF three_reserved_run]) (simp_all add: nonce_manager_at_def)
  moreover have "6 < ns_local_nonce (nm_state ?nm)" unfolding nm by (simp add: nonce_manager_at_def)
  ultimately show ?thesis by blast
qed

section \<open>The retry loop\<close>

lemma next_nonce_after_init:
  assumes "initialize (Inr p) nm = (r, nm')"
  shows "next_nonce nm' = Some (Inr p, nm'\<lparr>nm_state := insert_in_flight p (nm_state nm')\<rparr>)"
proof -
  have "nm_initialized nm'" "ns_in_flight (nm_state nm') = {}" "ns_stale (nm_state nm') = {}"
    "ns_min_in_flight (nm_state nm') = None" "ns_local_nonce (nm_state nm') = p"
    using assms by (auto simp: initialize_def clear_in_flight_def)
  then show ?thesis by (simp add: next_nonce_def next_available_def next_free_step(2) Let_def)
qed

lemma initialize_cases:
  obtains e where "initialize pending nm = (Inl e, nm)"
  | p nm' where "pending = Inr p" and "initialize pending nm = (Inr (), nm')"
  by (cases pending) (auto simp: initialize_def)

lemma unat_bump:
  assumes "unat x < 2 ^ 128" shows "unat (x * ucast (10000 + FEE_BUMP_BPS) div 10000 :: u256) = unat x * 11500 div 10000"
proof -
  have "(ucast (10000 + FEE_BUMP_BPS) :: u256) = 11500" by (simp add: FEE_BUMP_BPS_def)
  moreover have "unat (x * 11500) = unat x * 11500" using assms by (subst unat_mult_nowrap) simp_all
  ultimately show ?thesis by (simp add: unat_div_word)
qed

lemma bump_max_fee:
  assumes "build_transaction_request nonce fees = Some tx"
  shows "unat (sf_max_fee_per_gas (bump_fees fees FEE_BUMP_BPS)) = unat (sf_max_fee_per_gas fees) * 11500 div 10000"
    and "tx = (nonce, fees)"
proof -
  have "unat (sf_max_fee_per_gas fees) < 2 ^ 128" and tx: "tx = (nonce, fees)"
    using assms by (auto simp: build_transaction_request_def u256_to_u128_def bind_eq_Some_conv split: if_splits)
  then show "unat (sf_max_fee_per_gas (bump_fees fees FEE_BUMP_BPS)) = unat (sf_max_fee_per_gas fees) * 11500 div 10000"
    by (simp add: bump_fees_def Let_def unat_bump)
  show "tx = (nonce, fees)" by (rule tx)
qed

text \<open>
  What the loop guarantees with \<open>left\<close> attempts left: at most so many transactions, fees that never go
  down and by at most 15 percent per retry up.
\<close>

definition sent_ok :: "nat \<Rightarrow> nat \<Rightarrow> (u64 \<times> SubmitFees) list \<Rightarrow> bool" where
  "sent_ok left fee sent \<longleftrightarrow>
     length sent \<le> left \<and> sorted (map (\<lambda>(_, f). unat (sf_max_fee_per_gas f)) sent) \<and>
     list_all (\<lambda>(_, f). fee \<le> unat (sf_max_fee_per_gas f) \<and>
       unat (sf_max_fee_per_gas f) * 10000 ^ (left - 1) \<le> fee * 11500 ^ (left - 1)) sent"

lemma sent_ok_Nil [simp]: "sent_ok left fee []"
  by (simp add: sent_ok_def)

lemma sent_ok_Cons:
  assumes "sent_ok left fee' sent" and "fee \<le> fee'" and "fee' * 10000 \<le> fee * 11500"
    and "fee = unat (sf_max_fee_per_gas fees)" and "left \<noteq> 0"
  shows "sent_ok (Suc left) fee ((nonce, fees) # sent)"
proof -
  have step: "u * 10000 ^ left \<le> fee * 11500 ^ left" if "u * 10000 ^ (left - 1) \<le> fee' * 11500 ^ (left - 1)" for u
  proof -
    have "u * 10000 ^ left = u * 10000 ^ (left - 1) * 10000" using assms(5) by (cases left) simp_all
    also have "\<dots> \<le> fee' * 11500 ^ (left - 1) * 10000" using that by simp
    also have "\<dots> = fee' * 10000 * 11500 ^ (left - 1)" by simp
    also have "\<dots> \<le> fee * 11500 * 11500 ^ (left - 1)" using assms(3) by (intro mult_le_mono1)
    also have "\<dots> = fee * 11500 ^ left" using assms(5) by (cases left) simp_all
    finally show ?thesis .
  qed
  have "fee * 10000 ^ left \<le> fee * 11500 ^ left" by (intro mult_le_mono2 power_mono) simp_all
  then show ?thesis
    using assms(1,2,4) step by (auto simp: sent_ok_def list_all_iff dest: order_trans)
qed

lemma sent_ok_single:
  "fee = unat (sf_max_fee_per_gas fees) \<Longrightarrow> left \<noteq> 0 \<Longrightarrow> sent_ok left fee [(nonce, fees)]"
  by (simp add: sent_ok_def mult_le_mono2 power_mono)

lemma submit_loop_ok:
  assumes "nonce \<in> ns_in_flight (nm_state nm)"
  shows "\<exists>res nonce' nm' sent. submit_loop node left nm nonce fees log = Some (res, nonce', nm', log @ sent) \<and>
     sent_ok left (unat (sf_max_fee_per_gas fees)) sent \<and>
     (case res of Inr _ \<Rightarrow> nonce' \<in> ns_in_flight (nm_state nm') | Inl _ \<Rightarrow> True)"
  using assms
proof (induction left arbitrary: nm nonce fees log)
  case (Suc left)
  let ?fee = "unat (sf_max_fee_per_gas fees)"
  show ?case
  proof (cases "build_transaction_request nonce fees")
    case (Some tx)
    note tx = bump_max_fee(2) [OF Some] and bump = bump_max_fee(1) [OF Some]
    note single = sent_ok_single [of ?fee fees "Suc left" nonce, OF refl]
    have retry: ?thesis
      if left: "left \<noteq> 0" and step: "submit_loop node (Suc left) nm nonce fees log =
          submit_loop node left nm2 nonce2 fees2 (log @ [(nonce, fees)])"
        and nonce2: "nonce2 \<in> ns_in_flight (nm_state nm2)"
        and f: "?fee \<le> unat (sf_max_fee_per_gas fees2)" "unat (sf_max_fee_per_gas fees2) * 10000 \<le> ?fee * 11500"
      for nm2 nonce2 fees2
    proof -
      obtain res nonce' nm' sent where IH: "submit_loop node left nm2 nonce2 fees2 (log @ [(nonce, fees)]) =
          Some (res, nonce', nm', (log @ [(nonce, fees)]) @ sent)"
        "sent_ok left (unat (sf_max_fee_per_gas fees2)) sent"
        "case res of Inr _ \<Rightarrow> nonce' \<in> ns_in_flight (nm_state nm') | Inl _ \<Rightarrow> True"
        using Suc.IH [OF nonce2] by blast
      then show ?thesis
        using step sent_ok_Cons [OF IH(2) f refl left, of nonce]
        by (intro exI [of _ res] exI [of _ nonce'] exI [of _ nm'] exI [of _ "(nonce, fees) # sent"]) simp
    qed
    show ?thesis
    proof (cases "nd_send node left nonce fees")
      case (Inr hash)
      then show ?thesis using Some tx single Suc.prems by simp
    next
      case (Inl e)
      show ?thesis
      proof (cases "left = 0 \<or> classify_submit_error e \<in> {InsufficientFunds, Fail}")
        case True
        then have "submit_loop node (Suc left) nm nonce fees log = Some (Inl e, nonce, nm, log @ [(nonce, fees)])"
          using Some tx Inl by (cases "left = 0") (auto simp: Let_def)
        then show ?thesis using single by simp
      next
        case False
        then consider "classify_submit_error e = ResyncAndRetry" | "classify_submit_error e = BumpFeesAndRetry"
          | "classify_submit_error e = AlreadyKnown" by (cases "classify_submit_error e") auto
        then show ?thesis
        proof cases
          case 1
          show ?thesis
          proof (rule initialize_cases [of "nd_pending node left" "release nonce nm"])
            fix e' assume "initialize (nd_pending node left) (release nonce nm) = (Inl e', release nonce nm)"
            then show ?thesis using Some tx Inl False 1 single by simp
          next
            fix p nm' assume "nd_pending node left = Inr p"
              and init: "initialize (nd_pending node left) (release nonce nm) = (Inr (), nm')"
            then have "next_nonce nm' = Some (Inr p, nm'\<lparr>nm_state := insert_in_flight p (nm_state nm')\<rparr>)"
              using next_nonce_after_init by simp
            then have "submit_loop node (Suc left) nm nonce fees log = submit_loop node left
                (nm'\<lparr>nm_state := insert_in_flight p (nm_state nm')\<rparr>) p fees (log @ [(nonce, fees)])"
              using Some tx Inl False 1 init by simp
            then show ?thesis using False by (intro retry) auto
          qed
        next
          case 2
          then have "submit_loop node (Suc left) nm nonce fees log =
              submit_loop node left nm nonce (bump_fees fees FEE_BUMP_BPS) (log @ [(nonce, fees)])"
            using Some tx Inl False by simp
          then show ?thesis using False Suc.prems bump by (intro retry) auto
        next
          case 3
          then show ?thesis
            using Some tx Inl False single Suc.prems by (cases "nd_hash_in_error node e") (simp_all add: Let_def)
        qed
      qed
    qed
  qed simp
qed simp


text \<open>A node that asks for a higher fee twice and then accepts.\<close>

definition stubborn_node :: "nat node" where
  "stubborn_node = \<lparr>nd_send = (\<lambda>left nonce fees. if left = 0 then Inr 42 else Inl ''Replacement transaction underpriced''),
     nd_pending = (\<lambda>_. Inr 9), nd_hash_in_error = (\<lambda>_. None)\<rparr>"


end
