(* ===== verification/ProtocolLabels.thy ===== *)
theory ProtocolLabels
  imports Submission
begin

text \<open>
  Protocol labels, \<open>src/core/protocol.rs\<close>: the tests on the labels and pool types of the indexer, the protocol family a label
  stands for, and the fee in basis points.
\<close>

section \<open>Tests on labels\<close>

definition contains_ignore_case :: "string \<Rightarrow> string \<Rightarrow> bool" where
  "contains_ignore_case s needle =
     (if needle = [] then True
      else if length s < length needle then False
      else if length s = length needle then prefix_ic needle s
      else ic s needle)"

definition ascii_alphanumeric :: "char \<Rightarrow> bool" where
  "ascii_alphanumeric c =
     (let n = (of_char c :: nat) in 48 \<le> n \<and> n \<le> 57 \<or> 65 \<le> n \<and> n \<le> 90 \<or> 97 \<le> n \<and> n \<le> 122)"

definition is_curve_stableswap_ng_pool_type :: "string option \<Rightarrow> bool" where
  "is_curve_stableswap_ng_pool_type pool_type =
     (case pool_type of
        None \<Rightarrow> False
      | Some pool_type \<Rightarrow>
          let compact = filter ascii_alphanumeric pool_type
          in ic compact ''stableng'' \<or> ic compact ''stableswapng'')"

definition is_algebra_integral_protocol_label :: "string \<Rightarrow> bool" where
  "is_algebra_integral_protocol_label raw =
     (contains_ignore_case raw ''quickswap_v4'' \<or> contains_ignore_case raw ''quick_v4'')"

definition is_algebra_protocol_label :: "string \<Rightarrow> bool" where
  "is_algebra_protocol_label raw =
     (is_algebra_integral_protocol_label raw \<or> contains_ignore_case raw ''algebra'' \<or>
      contains_ignore_case raw ''quickswap_v3'' \<or> contains_ignore_case raw ''quick_v3'')"

definition is_known_protocol_label :: "string \<Rightarrow> bool" where
  "is_known_protocol_label raw =
     (is_algebra_protocol_label raw \<or>
      list_ex (contains_ignore_case raw) [''woofi'', ''dodo'', ''balancer'', ''curve'', ''elastic'', ''v2'', ''v3'', ''v4''])"


section \<open>Families and fees\<close>

definition normalize_protocol :: "string \<Rightarrow> ProtocolType option" where
  "normalize_protocol raw =
     (if contains_ignore_case raw ''woofi'' then Some Woofi
      else if contains_ignore_case raw ''dodo'' then Some Dodo
      else if contains_ignore_case raw ''balancer'' then Some BalancerV2
      else if contains_ignore_case raw ''curve''
      then (if contains_ignore_case raw ''crypto'' then Some CurveCrypto else Some CurveStable)
      else if is_algebra_protocol_label raw then Some UniswapV3
      else if contains_ignore_case raw ''v4'' then Some UniswapV4
      else if contains_ignore_case raw ''v3'' \<or> contains_ignore_case raw ''elastic'' then Some UniswapV3
      else if contains_ignore_case raw ''v2'' then Some UniswapV2
      else None)"

definition resolve_protocol_from_pg :: "string \<Rightarrow> string option \<Rightarrow> ProtocolType option" where
  "resolve_protocol_from_pg protocol pool_type =
     (case normalize_protocol protocol of
        None \<Rightarrow> None
      | Some base \<Rightarrow>
          Some (if base = CurveStable \<or> base = CurveCrypto
                then (if (case pool_type of None \<Rightarrow> False | Some t \<Rightarrow> contains_ignore_case t ''crypto'') \<or>
                         contains_ignore_case protocol ''crypto''
                      then CurveCrypto else CurveStable)
                else base))"

definition normalize_balancer_pool_type :: "string option \<Rightarrow> string option" where
  "normalize_balancer_pool_type pool_type =
     (case pool_type of
        None \<Rightarrow> None
      | Some pool_type \<Rightarrow>
          if contains_ignore_case pool_type ''stable'' then Some ''stable''
          else if contains_ignore_case pool_type ''linear'' then Some ''linear''
          else if contains_ignore_case pool_type ''weighted'' then Some ''weighted''
          else None)"

definition fee_to_bps :: "string \<Rightarrow> u32 option \<Rightarrow> u32" where
  "fee_to_bps protocol_label raw_fee =
     (let is_curve = contains_ignore_case protocol_label ''curve'';
          is_pips_style =
            (contains_ignore_case protocol_label ''v4'' \<or> contains_ignore_case protocol_label ''v3'' \<or>
             contains_ignore_case protocol_label ''elastic'' \<or> is_algebra_protocol_label protocol_label);
          raw = or_default raw_fee (if is_pips_style then 3000 else 30)
      in if normalize_protocol protocol_label = Some UniswapV4 \<and> raw_fee = Some 0 then 0
         else if is_curve
         then (if raw = 0 then 30 else if raw < 10000 then raw else min (raw div 1000000) 9999)
         else if raw = 0 \<or> raw \<ge> 0x800000 then 30
         else min (raw div (if is_pips_style then 100 else 1)) 9999)"

fun is_fetchable_protocol :: "ProtocolType \<Rightarrow> bool" where
  "is_fetchable_protocol UniswapV2 = True"
| "is_fetchable_protocol UniswapV3 = True"
| "is_fetchable_protocol UniswapV4 = True"
| "is_fetchable_protocol BalancerV2 = True"
| "is_fetchable_protocol CurveStable = True"
| "is_fetchable_protocol CurveCrypto = True"
| "is_fetchable_protocol Dodo = True"
| "is_fetchable_protocol Woofi = True"

section \<open>Labels and fees agree\<close>

text \<open>
  A label is known exactly when it has a protocol family, every family can be fetched, and the fee of every pool is
  below the whole.
\<close>

theorem known_label_iff_family: "is_known_protocol_label raw \<longleftrightarrow> normalize_protocol raw \<noteq> None"
  by (auto simp: is_known_protocol_label_def normalize_protocol_def)

lemma every_family_fetchable: "is_fetchable_protocol p"
  by (cases p) simp_all

lemma fee_to_bps_less: "fee_to_bps label raw_fee < 10000"
proof -
  have capped: "min (x :: u32) 9999 < 10000" for x
    by (rule le_less_trans [of _ 9999]) simp_all
  show ?thesis
    unfolding fee_to_bps_def Let_def by (auto simp: capped)
qed

end
