(* ===== verification/Encoders.thy ===== *)
theory Encoders
  imports Payload FlashLiquidity SimSanity ProtocolLabels
begin

text \<open>
  The encoders of single hops: \<open>src/services/execution/calldata/encoders/\<close>, \<open>calldata/approvals.rs\<close>, and
  \<open>quote.rs\<close>. A hop is quoted again on the live arena, so the counters of Curve simulations
  are threaded through, a panic is \<^const>\<open>None\<close>, and the errors of the program are the left values.
\<close>

section \<open>Hops and errors\<close>

record CalldataHop =
  ch_edge :: Edge
  ch_pool_address :: address
  ch_token_in :: address
  ch_token_out :: address
  ch_amount_in :: u256
  ch_amount_out :: u256
  ch_pool_id :: "u256 option"
  ch_protocol_label :: "string option"
  ch_pool_type :: "string option"
  ch_router :: "address option"
  ch_hooks :: "address option"

record RouteEncodeConfig =
  re_slippage_bps :: u64
  re_deadline :: u256

datatype EncodeError =
    ZeroExecutor
  | VaultFlashReentrancy
  | DodoFlashReentrancy
  | QuoteUnavailable
  | MinOutZero
  | MissingPoolState
  | NotConcentrated
  | IncompleteTicks
  | SyntheticBound
  | InvalidSqrtAfter
  | SqrtNotMoved
  | DirectionMismatch
  | ZeroAmountOut
  | ZeroFeePips
  | AmountTooLarge
  | LimitTooLarge
  | SwapHookBlocked
  | TickSpacingTooLarge
  | SameCurveIndex
  | MissingPoolId
  | EmptyBatch
  | MissingAssetIndex
  | DodoTokenMismatch

type_synonym 'a encoded = "(EncodeError + 'a) counted"

text \<open>The question mark of Rust on a result that threads the counters.\<close>

definition and_then :: "'a encoded \<Rightarrow> ('a \<Rightarrow> CurveStats \<Rightarrow> 'b encoded) \<Rightarrow> 'b encoded" where
  "and_then r f =
     (case r of
        None \<Rightarrow> None
      | Some (Inl e, cs) \<Rightarrow> Some (Inl e, cs)
      | Some (Inr x, cs) \<Rightarrow> f x cs)"

section \<open>Labels\<close>

definition curve_uses_receiver :: "string option \<Rightarrow> bool" where
  "curve_uses_receiver pool_type = is_curve_stableswap_ng_pool_type pool_type"

definition v3_callback_protocol_id :: "string option \<Rightarrow> u8" where
  "v3_callback_protocol_id label =
     (case label of
        None \<Rightarrow> 1
      | Some l \<Rightarrow>
          if ic l ''sushiswap_v3'' \<or> ic l ''sushi_v3'' then 2
          else if ic l ''ramses'' then 6
          else if is_algebra_integral_protocol_label l then 4
          else if is_algebra_protocol_label l then 3
          else 1)"

section \<open>Quotes for execution\<close>

definition quote_hop_for_execution :: "StateArena \<Rightarrow> CalldataHop \<Rightarrow> CurveStats \<Rightarrow> u256 option counted" where
  "quote_hop_for_execution arena hop cs =
     (case pool_state arena (e_pool_index (ch_edge hop)) of
        None \<Rightarrow> Some (None, cs)
      | Some st \<Rightarrow>
          (case realign_multi_token_edge arena st (ch_edge hop) of
             None \<Rightarrow> Some (None, cs)
           | Some edge \<Rightarrow> simulate_hop_amount_out_for_execution st edge (ch_amount_in hop) cs))"

definition clip_fee_pips :: "u256 \<Rightarrow> u32" where
  "clip_fee_pips fee = ucast (min fee 0xffffff)"

definition resolve_v3_fee_pips_for_hop :: "StateArena \<Rightarrow> CalldataHop \<Rightarrow> u32" where
  "resolve_v3_fee_pips_for_hop arena hop =
     (case pool_state arena (e_pool_index (ch_edge hop)) of
        Some (PV3 s) \<Rightarrow> clip_fee_pips (resolve_v3_fee_pips (cl_fee s) (Some (e_fee_bps (ch_edge hop))) False)
      | Some (PV4 s) \<Rightarrow> clip_fee_pips (resolve_v3_fee_pips (cl_fee s) (Some (e_fee_bps (ch_edge hop))) True)
      | _ \<Rightarrow> min (e_fee_bps (ch_edge hop)) 0xffffff)"

definition pool_tokens_from_hop :: "CalldataHop \<Rightarrow> address \<times> address" where
  "pool_tokens_from_hop hop =
     (if ch_token_in hop < ch_token_out hop then (ch_token_in hop, ch_token_out hop)
      else (ch_token_out hop, ch_token_in hop))"

definition price_limit_from_swap :: "CLPoolState \<Rightarrow> V3SwapResult \<Rightarrow> u256 \<Rightarrow> bool \<Rightarrow> u64 \<Rightarrow> EncodeError + u256" where
  "price_limit_from_swap st sim quoted_out zero_for_one slippage_bps =
     (let after = v3_sqrt_price_x96_after sim;
          moved_ok =
            (if zero_for_one then after < cl_sqrt_price_x96 st \<and> after > MIN_SQRT_RATIO
             else after > cl_sqrt_price_x96 st \<and> after < MAX_SQRT_RATIO);
          denom = (20000 :: u256);
          slip = (ucast slippage_bps :: u256)
      in if v3_shallow sim
         then (if cl_ticks st = [] \<and> quoted_out \<noteq> 0
               then Inr (if zero_for_one then MIN_SQRT_RATIO + 1 else MAX_SQRT_RATIO_EXCLUSIVE)
               else Inl IncompleteTicks)
         else if v3_synthetic sim then Inl SyntheticBound
         else if after < MIN_SQRT_RATIO \<or> after \<ge> MAX_SQRT_RATIO then Inl InvalidSqrtAfter
         else if \<not> moved_ok \<and> quoted_out \<noteq> 0 then Inl SqrtNotMoved
         else Inr
           (if zero_for_one then max ((after * (denom - slip)) div denom) (MIN_SQRT_RATIO + 1)
            else
              let limit = (after * (denom + slip)) div denom
              in if limit > MAX_SQRT_RATIO_EXCLUSIVE then MAX_SQRT_RATIO_EXCLUSIVE else limit))"

definition derive_tight_v3_price_limit ::
    "CLPoolState \<Rightarrow> u256 \<Rightarrow> u256 \<Rightarrow> bool \<Rightarrow> u32 \<Rightarrow> u64 \<Rightarrow> u32 option \<Rightarrow> bool \<Rightarrow> (EncodeError + u256) panics" where
  "derive_tight_v3_price_limit st amount_in quoted_out zero_for_one edge_fee_bps slippage_bps explicit_fee_pips
     allow_zero_pool_fee = do {
     sim \<leftarrow> (case explicit_fee_pips of
         Some pips \<Rightarrow> simulate_v3_swap (st\<lparr>cl_fee := ucast pips\<rparr>) amount_in zero_for_one None allow_zero_pool_fee
       | None \<Rightarrow> simulate_v3_swap st amount_in zero_for_one (Some edge_fee_bps) allow_zero_pool_fee);
     Some (price_limit_from_swap st sim quoted_out zero_for_one slippage_bps)
   }"

section \<open>Shared steps\<close>

definition compute_quoted_out :: "StateArena \<Rightarrow> CalldataHop \<Rightarrow> CurveStats \<Rightarrow> u256 encoded" where
  "compute_quoted_out arena hop cs = do {
     (quoted, cs) \<leftarrow> quote_hop_for_execution arena hop cs;
     Some (case quoted of
         None \<Rightarrow> Inl QuoteUnavailable
       | Some q \<Rightarrow> if q = 0 then Inl QuoteUnavailable else Inr q, cs)
   }"

definition compute_min_out :: "StateArena \<Rightarrow> CalldataHop \<Rightarrow> u64 \<Rightarrow> CurveStats \<Rightarrow> u256 encoded" where
  "compute_min_out arena hop slippage_bps cs =
     and_then (compute_quoted_out arena hop cs) (\<lambda>quoted cs.
       Some (case slippage_adjusted quoted slippage_bps of None \<Rightarrow> Inl MinOutZero | Some m \<Rightarrow> Inr m, cs))"

text \<open>The floor that the vault, Curve, WooFi and pair encoders share: the new quote, or what was assessed if lower.\<close>

definition encoded_min_out :: "StateArena \<Rightarrow> CalldataHop \<Rightarrow> u64 \<Rightarrow> CurveStats \<Rightarrow> u256 encoded" where
  "encoded_min_out arena hop slippage_bps cs =
     and_then (compute_min_out arena hop (max slippage_bps EXECUTION_MIN_SLIPPAGE_BPS) cs) (\<lambda>quoted cs.
       Some (Inr (if ch_amount_out hop = 0 then quoted else min (ch_amount_out hop) quoted), cs))"

fun to_v3_state :: "PoolState \<Rightarrow> CLPoolState option" where
  "to_v3_state (PV3 s) = Some s"
| "to_v3_state (PV4 s) = Some s"
| "to_v3_state _ = None"

record ClSwapLimit =
  cs_fee_pips :: u32
  cs_sqrt_limit :: u256

definition resolve_cl_quote :: "StateArena \<Rightarrow> CalldataHop \<Rightarrow> u256 option \<Rightarrow> CurveStats \<Rightarrow> u256 encoded" where
  "resolve_cl_quote arena hop prequoted_out cs =
     (case prequoted_out of
        Some q \<Rightarrow>
          if q \<noteq> 0 then Some (Inr q, cs)
          else map_option (\<lambda>(r, cs). (case r of None \<Rightarrow> Inl QuoteUnavailable | Some q \<Rightarrow> Inr q, cs))
                 (quote_hop_for_execution arena hop cs)
      | None \<Rightarrow> map_option (\<lambda>(r, cs). (case r of None \<Rightarrow> Inl QuoteUnavailable | Some q \<Rightarrow> Inr q, cs))
                 (quote_hop_for_execution arena hop cs))"

definition resolve_cl_swap_limit ::
    "StateArena \<Rightarrow> CalldataHop \<Rightarrow> u64 \<Rightarrow> bool \<Rightarrow> u256 option \<Rightarrow> bool \<Rightarrow> CurveStats \<Rightarrow> ClSwapLimit encoded" where
  "resolve_cl_swap_limit arena hop slippage_bps full_range_limit prequoted_out allow_zero_pool_fee cs =
     (case pool_state arena (e_pool_index (ch_edge hop)) of
        None \<Rightarrow> Some (Inl MissingPoolState, cs)
      | Some pool \<Rightarrow>
          (case to_v3_state pool of
             None \<Rightarrow> Some (Inl NotConcentrated, cs)
           | Some st \<Rightarrow>
               and_then (resolve_cl_quote arena hop prequoted_out cs) (\<lambda>quoted_out cs.
                 let fee_pips = resolve_v3_fee_pips_for_hop arena hop;
                     zero_for_one = e_zero_for_one (ch_edge hop)
                 in if full_range_limit
                    then Some (Inr \<lparr>cs_fee_pips = fee_pips,
                                    cs_sqrt_limit = (if zero_for_one then MIN_SQRT_RATIO + 1 else MAX_SQRT_RATIO_EXCLUSIVE)\<rparr>, cs)
                    else map_option (\<lambda>r. (case r of Inl e \<Rightarrow> Inl e
                                           | Inr limit \<Rightarrow> Inr \<lparr>cs_fee_pips = fee_pips, cs_sqrt_limit = limit\<rparr>, cs))
                           (derive_tight_v3_price_limit st (ch_amount_in hop) quoted_out zero_for_one
                              (e_fee_bps (ch_edge hop)) slippage_bps (Some fee_pips) allow_zero_pool_fee))))"

definition resolve_balancer_pool_id :: "address \<Rightarrow> u256 option \<Rightarrow> EncodeError + u256" where
  "resolve_balancer_pool_id pool pool_id = (case pool_id of None \<Rightarrow> Inl MissingPoolId | Some i \<Rightarrow> Inr i)"

definition exec_call :: "address \<Rightarrow> u8 list \<Rightarrow> ExecutorCall" where
  "exec_call target data = \<lparr>ec_target = target, ec_value = 0, ec_data = data\<rparr>"

definition encode_approve_if_needed :: "AbiEncoder \<Rightarrow> address \<Rightarrow> address \<Rightarrow> u256 \<Rightarrow> ExecutorCall" where
  "encode_approve_if_needed abi token spender amount = exec_call token (abi_call abi (Approve spender amount))"

definition encode_transfer_all :: "AbiEncoder \<Rightarrow> address \<Rightarrow> address \<Rightarrow> address \<Rightarrow> ExecutorCall" where
  "encode_transfer_all abi executor token to = exec_call executor (abi_call abi (TransferAll token to))"

definition encode_token_transfer ::
    "AbiEncoder \<Rightarrow> address \<Rightarrow> address \<Rightarrow> address \<Rightarrow> u256 \<Rightarrow> bool \<Rightarrow> ExecutorCall" where
  "encode_token_transfer abi executor token pool amount use_transfer_all =
     (if use_transfer_all then encode_transfer_all abi executor token pool
      else exec_call token (abi_call abi (Transfer pool amount)))"

section \<open>Uniswap V2\<close>

datatype V2Prefund = PrefundExact | PrefundTransferAll | PrefundSkipped

definition encode_v2_hop ::
    "AbiEncoder \<Rightarrow> StateArena \<Rightarrow> CalldataHop \<Rightarrow> address \<Rightarrow> address \<Rightarrow> u64 \<Rightarrow> V2Prefund \<Rightarrow> CurveStats \<Rightarrow>
     (ExecutorCall list \<times> u256) encoded" where
  "encode_v2_hop abi arena hop swap_to executor slippage_bps prefund cs =
     (if e_zero_for_one (ch_edge hop) \<noteq> (ch_token_in hop < ch_token_out hop) then Some (Inl DirectionMismatch, cs)
      else and_then (encoded_min_out arena hop slippage_bps cs) (\<lambda>amount_out cs.
        if amount_out = 0 then Some (Inl ZeroAmountOut, cs)
        else
          let funding = encode_token_transfer abi executor (ch_token_in hop) (ch_pool_address hop) (ch_amount_in hop);
              prefund_calls = (case prefund of
                  PrefundExact \<Rightarrow> [funding False]
                | PrefundTransferAll \<Rightarrow> [funding True]
                | PrefundSkipped \<Rightarrow> []);
              (amount0_out, amount1_out) = (if e_zero_for_one (ch_edge hop) then (0, amount_out) else (amount_out, 0))
          in Some (Inr (prefund_calls @
                 [exec_call (ch_pool_address hop) (abi_call abi (PairSwap amount0_out amount1_out swap_to []))], amount_out), cs)))"

section \<open>Uniswap V3 and V4\<close>

definition sqrt_limit_u160 :: "u256 \<Rightarrow> EncodeError + address" where
  "sqrt_limit_u160 sqrt_limit = (if sqrt_limit \<ge> 2 ^ 160 then Inl LimitTooLarge else Inr (ucast sqrt_limit))"

text \<open>\<open>I256::try_from\<close>: the amount fits the signed word.\<close>

definition fits_i256 :: "u256 \<Rightarrow> bool" where
  "fits_i256 amount \<longleftrightarrow> amount < 2 ^ 255"

definition encode_v3_hop ::
    "AbiEncoder \<Rightarrow> CalldataHop \<Rightarrow> address \<Rightarrow> StateArena \<Rightarrow> u64 \<Rightarrow> bool \<Rightarrow> u256 option \<Rightarrow> CurveStats \<Rightarrow> ExecutorCall list encoded" where
  "encode_v3_hop abi hop recipient arena slippage_bps full_range_limit prequoted_out cs =
     and_then (resolve_cl_swap_limit arena hop slippage_bps full_range_limit prequoted_out False cs) (\<lambda>limit cs.
       let (token0, token1) = pool_tokens_from_hop hop;
           proto_id = v3_callback_protocol_id (ch_protocol_label hop);
           callback = abi_callback abi (ucast proto_id, token0, token1, ucast (cs_fee_pips limit))
       in Some (if cs_fee_pips limit = 0 then Inl ZeroFeePips
                else if \<not> fits_i256 (ch_amount_in hop) then Inl AmountTooLarge
                else case sqrt_limit_u160 (cs_sqrt_limit limit) of
                  Inl e \<Rightarrow> Inl e
                | Inr sqrt_limit \<Rightarrow>
                    Inr [exec_call (ch_pool_address hop)
                           (abi_call abi (PoolSwap recipient (e_zero_for_one (ch_edge hop)) (ch_amount_in hop) sqrt_limit callback))],
                cs))"

record V4PoolKey =
  pk_currency0 :: address
  pk_currency1 :: address
  pk_fee :: "24 word"
  pk_tick_spacing :: "24 word"
  pk_hooks :: address

definition UNISWAP_V4_POOL_MANAGER :: address where
  "UNISWAP_V4_POOL_MANAGER = 0x67366782805870060151383f4bbff9dab53e5cd6"

definition is_supported_v4_hook :: "address \<Rightarrow> bool" where
  "is_supported_v4_hook hook \<longleftrightarrow> hook = 0 \<or> (ucast hook :: 16 word) AND 0x00cc = 0"

definition v4_static_fields :: "StateArena \<Rightarrow> CalldataHop \<Rightarrow> u32 \<times> int \<times> address" where
  "v4_static_fields arena hop =
     (let hooks = or_default (ch_hooks hop) 0
      in case pool_state arena (e_pool_index (ch_edge hop)) of
           Some (PV4 s) \<Rightarrow>
             (clip_fee_pips (resolve_v3_fee_pips (cl_fee s) (Some (e_fee_bps (ch_edge hop))) True), cl_tick_spacing s, hooks)
         | _ \<Rightarrow> (saturating_mul (e_fee_bps (ch_edge hop)) 100, 60, hooks))"

text \<open>\<open>Uint::from\<close> panics on a fee of more than twenty-four bits.\<close>

definition build_v4_pool_key ::
    "address \<Rightarrow> address \<Rightarrow> u32 \<Rightarrow> int \<Rightarrow> address \<Rightarrow> (EncodeError + (V4PoolKey \<times> bool)) panics" where
  "build_v4_pool_key token_in token_out fee tick_spacing hooks =
     (let (currency0, currency1) = (if token_in < token_out then (token_in, token_out) else (token_out, token_in));
          zero_for_one = (token_in = currency0)
      in if \<not> (- (2 ^ 23) \<le> tick_spacing \<and> tick_spacing < 2 ^ 23) then Some (Inl TickSpacingTooLarge)
         else if fee > 0xffffff then None
         else Some (Inr (\<lparr>pk_currency0 = currency0, pk_currency1 = currency1, pk_fee = ucast fee,
                          pk_tick_spacing = of_int tick_spacing, pk_hooks = hooks\<rparr>, zero_for_one)))"

definition v4_unlock_inner :: "V4PoolKey \<Rightarrow> bool \<Rightarrow> u256 \<Rightarrow> u256 \<Rightarrow> u8 list" where
  "v4_unlock_inner key zero_for_one amount_spec sqrt_limit =
     address_word (pk_currency0 key) @ address_word (pk_currency1 key) @
     replicate 29 0 @ be_bytes 3 (pk_fee key) @
     replicate 29 0 @ be_bytes 3 (pk_tick_spacing key) @
     address_word (pk_hooks key) @
     replicate 31 0 @ [if zero_for_one then 1 else 0] @
     be_bytes 32 amount_spec @ be_bytes 32 sqrt_limit"

definition v4_calls :: "AbiEncoder \<Rightarrow> CalldataHop \<Rightarrow> V4PoolKey \<Rightarrow> bool \<Rightarrow> u256 \<Rightarrow> ExecutorCall list" where
  "v4_calls abi hop key zero_for_one sqrt_limit =
     [encode_approve_if_needed abi (ch_token_in hop) UNISWAP_V4_POOL_MANAGER (ch_amount_in hop),
      exec_call UNISWAP_V4_POOL_MANAGER
        (abi_call abi (Unlock (v4_unlock_inner key zero_for_one (0 - ch_amount_in hop) sqrt_limit)))]"

definition encode_v4_hop ::
    "AbiEncoder \<Rightarrow> CalldataHop \<Rightarrow> StateArena \<Rightarrow> u64 \<Rightarrow> bool \<Rightarrow> u256 option \<Rightarrow> CurveStats \<Rightarrow> ExecutorCall list encoded" where
  "encode_v4_hop abi hop arena slippage_bps full_range_limit prequoted_out cs =
     (let (fee, tick_spacing, hooks) = v4_static_fields arena hop
      in if \<not> is_supported_v4_hook hooks then Some (Inl SwapHookBlocked, cs)
         else if e_zero_for_one (ch_edge hop) \<noteq> (ch_token_in hop < ch_token_out hop) then Some (Inl DirectionMismatch, cs)
         else and_then (resolve_cl_swap_limit arena hop slippage_bps full_range_limit prequoted_out True cs) (\<lambda>limit cs.
           map_option (\<lambda>r. (case r of
               Inl e \<Rightarrow> Inl e
             | Inr (key, zero_for_one) \<Rightarrow>
                 if \<not> fits_i256 (ch_amount_in hop) then Inl AmountTooLarge
                 else Inr (v4_calls abi hop key zero_for_one (cs_sqrt_limit limit)), cs))
             (build_v4_pool_key (ch_token_in hop) (ch_token_out hop) fee tick_spacing hooks)))"

section \<open>Curve\<close>

definition encode_curve_hop ::
    "AbiEncoder \<Rightarrow> CalldataHop \<Rightarrow> address \<Rightarrow> StateArena \<Rightarrow> u64 \<Rightarrow> CurveStats \<Rightarrow> ExecutorCall list encoded" where
  "encode_curve_hop abi hop recipient arena slippage_bps cs =
     (let i = e_token_in_idx (ch_edge hop); j = e_token_out_idx (ch_edge hop); dx = ch_amount_in hop
      in if i = j then Some (Inl SameCurveIndex, cs)
         else and_then (encoded_min_out arena hop slippage_bps cs) (\<lambda>min_dy cs.
           Some (Inr
             [encode_approve_if_needed abi (ch_token_in hop) (ch_pool_address hop) dx,
              exec_call (ch_pool_address hop)
                (abi_call abi
                   (if curve_uses_receiver (ch_pool_type hop) then StableNgExchange (ucast i) (ucast j) dx min_dy recipient
                    else if e_protocol (ch_edge hop) = CurveCrypto then CryptoExchange (ucast i) (ucast j) dx min_dy
                    else StableExchange (ucast i) (ucast j) dx min_dy))], cs)))"

section \<open>Balancer\<close>

definition BALANCER_GIVEN_IN :: u8 where "BALANCER_GIVEN_IN = 0"

definition fund_management :: "address \<Rightarrow> address \<Rightarrow> BalancerFundManagement" where
  "fund_management sender recipient =
     \<lparr>fm_sender = sender, fm_from_internal_balance = False, fm_recipient = recipient, fm_to_internal_balance = False\<rparr>"

definition encode_balancer_hop ::
    "AbiEncoder \<Rightarrow> CalldataHop \<Rightarrow> address \<Rightarrow> address \<Rightarrow> StateArena \<Rightarrow> u64 \<Rightarrow> u256 \<Rightarrow> CurveStats \<Rightarrow> ExecutorCall list encoded" where
  "encode_balancer_hop abi hop recipient executor arena slippage_bps deadline cs =
     (case resolve_balancer_pool_id (ch_pool_address hop) (ch_pool_id hop) of
        Inl e \<Rightarrow> Some (Inl e, cs)
      | Inr pool_id \<Rightarrow>
          and_then (encoded_min_out arena hop slippage_bps cs) (\<lambda>limit cs.
            Some (Inr
              [encode_approve_if_needed abi (ch_token_in hop) BALANCER_VAULT (ch_amount_in hop),
               exec_call BALANCER_VAULT
                 (abi_call abi
                    (VaultSwap
                       \<lparr>sw_pool_id = pool_id, sw_kind = BALANCER_GIVEN_IN, sw_asset_in = ch_token_in hop,
                        sw_asset_out = ch_token_out hop, sw_amount = ch_amount_in hop, sw_user_data = []\<rparr>
                       (fund_management executor recipient) limit deadline))], cs)))"

text \<open>The assets of a batch, in the order of their first use, with their positions.\<close>

definition add_asset :: "address \<Rightarrow> address list \<times> (address \<times> nat) list \<Rightarrow> address list \<times> (address \<times> nat) list" where
  "add_asset token st =
     (let (assets, asset_index) = st
      in case map_of asset_index token of
           Some _ \<Rightarrow> (assets, asset_index)
         | None \<Rightarrow> (assets @ [token], (token, length assets) # asset_index))"

definition batch_assets :: "CalldataHop list \<Rightarrow> address list \<times> (address \<times> nat) list" where
  "batch_assets hops = fold (\<lambda>hop st. add_asset (ch_token_out hop) (add_asset (ch_token_in hop) st)) hops ([], [])"

fun batch_steps :: "(address \<times> nat) list \<Rightarrow> bool \<Rightarrow> CalldataHop list \<Rightarrow> EncodeError + BalancerBatchSwapStep list" where
  "batch_steps asset_index first [] = Inr []"
| "batch_steps asset_index first (hop # hops) =
     (case (resolve_balancer_pool_id (ch_pool_address hop) (ch_pool_id hop),
            map_of asset_index (ch_token_in hop), map_of asset_index (ch_token_out hop)) of
        (Inl e, _, _) \<Rightarrow> Inl e
      | (_, None, _) \<Rightarrow> Inl MissingAssetIndex
      | (_, _, None) \<Rightarrow> Inl MissingAssetIndex
      | (Inr pool_id, Some i, Some j) \<Rightarrow>
          (case batch_steps asset_index False hops of
             Inl e \<Rightarrow> Inl e
           | Inr steps \<Rightarrow>
               Inr (\<lparr>bs_pool_id = pool_id, bs_asset_in_index = of_nat i, bs_asset_out_index = of_nat j,
                     bs_amount = (if first then ch_amount_in hop else 0), bs_user_data = []\<rparr> # steps)))"

record BalancerBatchSwapRequest =
  br_swaps :: "BalancerBatchSwapStep list"
  br_assets :: "address list"
  br_funds :: BalancerFundManagement

definition build_balancer_batch_swap_request ::
    "CalldataHop list \<Rightarrow> address \<Rightarrow> EncodeError + BalancerBatchSwapRequest" where
  "build_balancer_batch_swap_request hops recipient =
     (if hops = [] then Inl EmptyBatch
      else
        let (assets, asset_index) = batch_assets hops
        in case batch_steps asset_index True hops of
             Inl e \<Rightarrow> Inl e
           | Inr swaps \<Rightarrow>
               Inr \<lparr>br_swaps = swaps, br_assets = assets, br_funds = fund_management recipient recipient\<rparr>)"

definition build_flash_swap_limits :: "address list \<Rightarrow> CalldataHop list \<Rightarrow> u256 list" where
  "build_flash_swap_limits assets hops =
     (let limits = replicate (length assets) 0
      in case hops of
           [] \<Rightarrow> limits
         | first # _ \<Rightarrow>
             (case position_of (ch_token_in first) assets of
                None \<Rightarrow> limits
              | Some idx \<Rightarrow> limits[idx := 2 ^ 255 - 1]))"

definition encode_balancer_batch_route ::
    "AbiEncoder \<Rightarrow> CalldataHop list \<Rightarrow> address \<Rightarrow> u256 \<Rightarrow> EncodeError + ExecutorCall list" where
  "encode_balancer_batch_route abi hops recipient deadline =
     (case build_balancer_batch_swap_request hops recipient of
        Inl e \<Rightarrow> Inl e
      | Inr req \<Rightarrow>
          Inr [exec_call BALANCER_VAULT
                 (abi_call abi (VaultBatchSwap BALANCER_GIVEN_IN (br_swaps req) (br_assets req) (br_funds req)
                    (build_flash_swap_limits (br_assets req) hops) deadline))])"

section \<open>DODO and WooFi\<close>

definition dodo_sell_base :: "StateArena \<Rightarrow> CalldataHop \<Rightarrow> EncodeError + bool" where
  "dodo_sell_base arena hop =
     (case pool_state arena (e_pool_index (ch_edge hop)) of
        Some (PDodo st) \<Rightarrow>
          if ch_token_in hop = dd_base_token st \<and> ch_token_out hop = dd_quote_token st then Inr True
          else if ch_token_in hop = dd_quote_token st \<and> ch_token_out hop = dd_base_token st then Inr False
          else Inl DodoTokenMismatch
      | _ \<Rightarrow> Inr (e_token_in_idx (ch_edge hop) = 0))"

definition encode_dodo_hop ::
    "AbiEncoder \<Rightarrow> StateArena \<Rightarrow> CalldataHop \<Rightarrow> address \<Rightarrow> address \<Rightarrow> bool \<Rightarrow> EncodeError + ExecutorCall list" where
  "encode_dodo_hop abi arena hop recipient executor use_transfer_all =
     (case dodo_sell_base arena hop of
        Inl e \<Rightarrow> Inl e
      | Inr sell_base \<Rightarrow>
          Inr [encode_token_transfer abi executor (ch_token_in hop) (ch_pool_address hop) (ch_amount_in hop) use_transfer_all,
               exec_call (ch_pool_address hop) (abi_call abi (if sell_base then SellBase recipient else SellQuote recipient))])"

definition WOOFI_ROUTER_V2 :: address where
  "WOOFI_ROUTER_V2 = 0x4c4af8dbc524681930a27b2f1af5bcc8062e6fb7"

definition resolve_woofi_router :: "CalldataHop \<Rightarrow> address" where
  "resolve_woofi_router hop = or_default (ch_router hop) WOOFI_ROUTER_V2"

definition encode_woofi_hop ::
    "AbiEncoder \<Rightarrow> CalldataHop \<Rightarrow> address \<Rightarrow> StateArena \<Rightarrow> u64 \<Rightarrow> CurveStats \<Rightarrow> ExecutorCall list encoded" where
  "encode_woofi_hop abi hop recipient arena slippage_bps cs =
     and_then (encoded_min_out arena hop slippage_bps cs) (\<lambda>min_to cs.
       Some (Inr
         [encode_approve_if_needed abi (ch_token_in hop) (resolve_woofi_router hop) (ch_amount_in hop),
          exec_call (resolve_woofi_router hop)
            (abi_call abi (RouterSwap (ch_token_in hop) (ch_token_out hop) (ch_amount_in hop) min_to recipient 0))], cs))"

section \<open>Dispatch over the protocols\<close>

definition encode_hop_for_protocol ::
    "AbiEncoder \<Rightarrow> CalldataHop \<Rightarrow> address \<Rightarrow> address \<Rightarrow> StateArena \<Rightarrow> RouteEncodeConfig \<Rightarrow> bool \<Rightarrow> bool \<Rightarrow> u256 option \<Rightarrow>
     CurveStats \<Rightarrow> ExecutorCall list encoded" where
  "encode_hop_for_protocol abi hop recipient executor arena config is_first_hop is_last_hop prequoted_out cs =
     (let slippage_bps = re_slippage_bps config
      in case e_protocol (ch_edge hop) of
           UniswapV2 \<Rightarrow>
             and_then (encode_v2_hop abi arena hop recipient executor slippage_bps
                 (if is_first_hop then PrefundExact else PrefundTransferAll) cs) (\<lambda>(calls, _) cs. Some (Inr calls, cs))
         | UniswapV3 \<Rightarrow> encode_v3_hop abi hop recipient arena slippage_bps (\<not> is_last_hop) prequoted_out cs
         | UniswapV4 \<Rightarrow> encode_v4_hop abi hop arena slippage_bps (\<not> is_last_hop) prequoted_out cs
         | CurveStable \<Rightarrow> encode_curve_hop abi hop recipient arena slippage_bps cs
         | CurveCrypto \<Rightarrow> encode_curve_hop abi hop recipient arena slippage_bps cs
         | BalancerV2 \<Rightarrow> encode_balancer_hop abi hop recipient executor arena slippage_bps (re_deadline config) cs
         | Dodo \<Rightarrow> Some (encode_dodo_hop abi arena hop recipient executor (\<not> is_first_hop), cs)
         | Woofi \<Rightarrow> encode_woofi_hop abi hop recipient arena slippage_bps cs)"

section \<open>Price limits\<close>

lemma sqrt_bounds:
  "MIN_SQRT_RATIO < MIN_SQRT_RATIO + 1" "MAX_SQRT_RATIO_EXCLUSIVE < MAX_SQRT_RATIO" "unat MAX_SQRT_RATIO < 2 ^ 160"
  by (simp_all add: MIN_SQRT_RATIO_def MAX_SQRT_RATIO_def MAX_SQRT_RATIO_EXCLUSIVE_def from_limbs_def)

lemma scaled_price:
  assumes "unat (after :: u256) < 2 ^ 160" "slip \<le> 20000"
  shows "(after * (20000 - slip)) div 20000 \<le> after" and "after \<le> (after * (20000 + slip)) div 20000"
proof -
  have slip: "unat slip \<le> 20000"
    using assms(2) by (simp add: word_le_nat_alt)
  then have factors: "unat (20000 - slip) = 20000 - unat slip" "unat (20000 + slip) = 20000 + unat slip"
    using assms(2) by (simp_all add: unat_sub unat_add_nowrap)
  have "unat after * (20000 + unat slip) \<le> 2 ^ 160 * 40000"
    using assms(1) slip by (intro mult_le_mono) simp_all
  then have fits: "unat after * (20000 + unat slip) < 2 ^ 256"
    by simp
  have "unat after * (20000 - unat slip) \<le> unat after * (20000 + unat slip)"
    by (intro mult_le_mono2) simp
  then have "unat after * (20000 - unat slip) < 2 ^ 256"
    using fits by (rule le_less_trans)
  then have down: "unat (after * (20000 - slip)) = unat after * (20000 - unat slip)"
    using factors(1) by (subst unat_mult_nowrap) simp_all
  have up: "unat (after * (20000 + slip)) = unat after * (20000 + unat slip)"
    using fits factors(2) by (subst unat_mult_nowrap) simp_all
  have "unat after * (20000 - unat slip) div 20000 \<le> unat after * 20000 div 20000"
    by (intro div_le_mono mult_le_mono2) simp
  then show "(after * (20000 - slip)) div 20000 \<le> after"
    by (simp add: word_le_nat_alt unat_div_word down)
  have "unat after * 20000 div 20000 \<le> unat after * (20000 + unat slip) div 20000"
    by (intro div_le_mono mult_le_mono2) simp
  then show "after \<le> (after * (20000 + slip)) div 20000"
    by (simp add: word_le_nat_alt unat_div_word up)
qed

definition limit_accepted :: "CLPoolState \<Rightarrow> bool \<Rightarrow> u256 \<Rightarrow> bool" where
  "limit_accepted st zero_for_one limit \<longleftrightarrow>
     (if zero_for_one then MIN_SQRT_RATIO < limit \<and> limit < cl_sqrt_price_x96 st
      else cl_sqrt_price_x96 st < limit \<and> limit < MAX_SQRT_RATIO)"

lemma extreme_limit_accepted:
  assumes "MIN_SQRT_RATIO + 1 < cl_sqrt_price_x96 st" "cl_sqrt_price_x96 st < MAX_SQRT_RATIO_EXCLUSIVE"
  shows "limit_accepted st zfo (if zfo then MIN_SQRT_RATIO + 1 else MAX_SQRT_RATIO_EXCLUSIVE)"
  using assms sqrt_bounds by (simp add: limit_accepted_def)

lemma tight_limit_accepted:
  assumes "price_limit_from_swap st sim quoted zfo slippage_bps = Inr limit" "quoted \<noteq> 0" "slippage_bps \<le> 20000"
    and price: "MIN_SQRT_RATIO + 1 < cl_sqrt_price_x96 st" "cl_sqrt_price_x96 st < MAX_SQRT_RATIO_EXCLUSIVE"
  shows "limit_accepted st zfo limit"
proof (cases "v3_shallow sim")
  case True
  then have "limit = (if zfo then MIN_SQRT_RATIO + 1 else MAX_SQRT_RATIO_EXCLUSIVE)"
    using assms(1) by (simp add: price_limit_from_swap_def Let_def split: if_split_asm)
  with extreme_limit_accepted [OF price] show ?thesis
    by simp
next
  case False
  let ?after = "v3_sqrt_price_x96_after sim" and ?slip = "ucast slippage_bps :: u256"
  have below: "?after < MAX_SQRT_RATIO"
    and moved: "if zfo then ?after < cl_sqrt_price_x96 st else cl_sqrt_price_x96 st < ?after"
    and limit: "limit = (if zfo then max ((?after * (20000 - ?slip)) div 20000) (MIN_SQRT_RATIO + 1)
        else min ((?after * (20000 + ?slip)) div 20000) MAX_SQRT_RATIO_EXCLUSIVE)"
    using assms(1,2) False
    by (auto simp: price_limit_from_swap_def Let_def not_le not_less min_def split: if_split_asm)
  have "unat ?after < 2 ^ 160"
    using below sqrt_bounds(3) by (simp add: word_less_nat_alt)
  moreover have "?slip \<le> 20000"
    using assms(3) by (simp add: word_le_nat_alt unat_ucast_64_256)
  ultimately have scaled: "(?after * (20000 - ?slip)) div 20000 \<le> ?after" "?after \<le> (?after * (20000 + ?slip)) div 20000"
    by (rule scaled_price)+
  show ?thesis
  proof (cases zfo)
    case True
    then show ?thesis
      using moved scaled(1) price(1) sqrt_bounds(1)
      by (auto simp: limit_accepted_def limit less_max_iff_disj intro: le_less_trans)
  next
    case False
    then show ?thesis
      using moved scaled(2) price(2) sqrt_bounds(2)
      by (auto simp: limit_accepted_def limit min_less_iff_disj intro: less_le_trans)
  qed
qed

text \<open>
  Property C39. A pool accepts the price limit that a hop is sent with: the limit lies strictly beyond the current price in the
  direction of the swap and strictly inside the protocol's range, whether it is the extreme one of a hop in the
  middle of a route or derived from the simulated price.
\<close>

theorem price_limit_accepted:
  assumes "resolve_cl_swap_limit arena hop slippage_bps full_range (Some quoted) allow_zero cs = Some (Inr limit, cs')"
    and "pool_state arena (e_pool_index (ch_edge hop)) = Some pool" "to_v3_state pool = Some st"
    and "MIN_SQRT_RATIO + 1 < cl_sqrt_price_x96 st" "cl_sqrt_price_x96 st < MAX_SQRT_RATIO_EXCLUSIVE"
    and "slippage_bps \<le> 20000" "quoted \<noteq> 0"
  shows "if e_zero_for_one (ch_edge hop)
         then MIN_SQRT_RATIO < cs_sqrt_limit limit \<and> cs_sqrt_limit limit < cl_sqrt_price_x96 st
         else cl_sqrt_price_x96 st < cs_sqrt_limit limit \<and> cs_sqrt_limit limit < MAX_SQRT_RATIO"
proof -
  let ?zfo = "e_zero_for_one (ch_edge hop)"
  consider "cs_sqrt_limit limit = (if ?zfo then MIN_SQRT_RATIO + 1 else MAX_SQRT_RATIO_EXCLUSIVE)"
    | sim where "price_limit_from_swap st sim quoted ?zfo slippage_bps = Inr (cs_sqrt_limit limit)"
  proof (cases full_range)
    case True
    then show ?thesis
      using that(1) assms(1,2,3,7) by (auto simp: resolve_cl_swap_limit_def resolve_cl_quote_def and_then_def Let_def)
  next
    case False
    then obtain r where r: "derive_tight_v3_price_limit st (ch_amount_in hop) quoted ?zfo (e_fee_bps (ch_edge hop)) slippage_bps
        (Some (resolve_v3_fee_pips_for_hop arena hop)) allow_zero = Some r"
      and "(case r of Inl e \<Rightarrow> Inl e
        | Inr l \<Rightarrow> Inr \<lparr>cs_fee_pips = resolve_v3_fee_pips_for_hop arena hop, cs_sqrt_limit = l\<rparr>) = Inr limit"
      using assms(1,2,3,7) by (auto simp: resolve_cl_swap_limit_def resolve_cl_quote_def and_then_def Let_def)
    then have "r = Inr (cs_sqrt_limit limit)"
      by (auto split: sum.split_asm)
    with r that(2) show ?thesis
      by (auto simp: derive_tight_v3_price_limit_def split: Option.bind_split_asm)
  qed
  then have "limit_accepted st ?zfo (cs_sqrt_limit limit)"
  proof cases
    case 1
    then show ?thesis
      using extreme_limit_accepted [OF assms(4,5)] by simp
  next
    case 2
    then show ?thesis
      by (rule tight_limit_accepted [OF _ assms(7,6,4,5)])
  qed
  then show ?thesis
    by (simp add: limit_accepted_def)
qed

definition sample_calldata_hop :: "Edge \<Rightarrow> address \<Rightarrow> address \<Rightarrow> address \<Rightarrow> u256 \<Rightarrow> CalldataHop" where
  "sample_calldata_hop edge pool token_in token_out amount_in =
     \<lparr>ch_edge = edge, ch_pool_address = pool, ch_token_in = token_in, ch_token_out = token_out, ch_amount_in = amount_in,
      ch_amount_out = 0, ch_pool_id = None, ch_protocol_label = None, ch_pool_type = None, ch_router = None, ch_hooks = None\<rparr>"

definition sample_cl_arena :: StateArena where
  "sample_cl_arena = sample_pairs_arena\<lparr>ar_pools := [PV3 flat_pool]\<rparr>"

theorem price_limit_accepted_witness:
  "\<exists>limit cs'. resolve_cl_swap_limit sample_cl_arena (sample_calldata_hop sample_v2_edge 0x30000 10 20 1000) 50 True (Some 990) False
       no_stats = Some (Inr limit, cs') \<and>
     MIN_SQRT_RATIO < cs_sqrt_limit limit \<and> cs_sqrt_limit limit < cl_sqrt_price_x96 flat_pool"
proof -
  let ?hop = "sample_calldata_hop sample_v2_edge 0x30000 10 20 1000"
  have pool: "pool_state sample_cl_arena (e_pool_index (ch_edge ?hop)) = Some (PV3 flat_pool)"
    by (simp add: sample_cl_arena_def sample_pairs_arena_def sample_calldata_hop_def sample_v2_edge_def pool_state_def nth_opt_def)
  have zfo: "e_zero_for_one (ch_edge ?hop)"
    by (simp add: sample_calldata_hop_def sample_v2_edge_def)
  obtain limit where run: "resolve_cl_swap_limit sample_cl_arena ?hop 50 True (Some 990) False no_stats = Some (Inr limit, no_stats)"
    by (simp add: resolve_cl_swap_limit_def resolve_cl_quote_def pool and_then_def)
  have price: "MIN_SQRT_RATIO + 1 < cl_sqrt_price_x96 flat_pool" "cl_sqrt_price_x96 flat_pool < MAX_SQRT_RATIO_EXCLUSIVE"
    by (simp_all add: flat_pool_def MIN_SQRT_RATIO_def MAX_SQRT_RATIO_EXCLUSIVE_def from_limbs_def)
  show ?thesis
    using price_limit_accepted [OF run pool to_v3_state.simps(1) price] run zfo by simp
qed

end
