(* ===== verification/Calldata.thy ===== *)
theory Calldata
  imports Encoders "HOL-Library.Countable"
begin

text \<open>
  The encoding of a whole route, \<open>src/services/execution/calldata/mod.rs\<close>: hops are built from the edges and the amounts of
  a simulation, and encoded one after the other, each sized by what the previous one is sure to deliver. A ledger
  that follows the money through the calls serves as the specification.
\<close>

section \<open>Encoding of a route\<close>

definition EXECUTION_CHAIN_IN_BUFFER_BPS :: u64 where "EXECUTION_CHAIN_IN_BUFFER_BPS = 300"

definition hop_can_direct_output_to :: "CalldataHop \<Rightarrow> bool" where
  "hop_can_direct_output_to hop =
     (case e_protocol (ch_edge hop) of
        UniswapV2 \<Rightarrow> True | UniswapV3 \<Rightarrow> True | Dodo \<Rightarrow> True | BalancerV2 \<Rightarrow> True | Woofi \<Rightarrow> True
      | CurveStable \<Rightarrow> curve_uses_receiver (ch_pool_type hop)
      | CurveCrypto \<Rightarrow> curve_uses_receiver (ch_pool_type hop)
      | UniswapV4 \<Rightarrow> False)"

definition validate_flash_hop_compatibility :: "CalldataHop list \<Rightarrow> FlashLoanSource \<Rightarrow> EncodeError + unit" where
  "validate_flash_hop_compatibility hops flash_source =
     (case flash_source of
        FlBalancer \<Rightarrow>
          if list_ex (\<lambda>h. e_protocol (ch_edge h) = BalancerV2) hops then Inl VaultFlashReentrancy else Inr ()
      | FlDodo \<Rightarrow> if list_ex (\<lambda>h. e_protocol (ch_edge h) = Dodo) hops then Inl DodoFlashReentrancy else Inr ()
      | FlAaveV3 \<Rightarrow> Inr ()
      | FlDirect \<Rightarrow> Inr ())"

definition hops_are_balancer_only :: "CalldataHop list \<Rightarrow> bool" where
  "hops_are_balancer_only hops \<longleftrightarrow> hops \<noteq> [] \<and> list_all (\<lambda>h. e_protocol (ch_edge h) = BalancerV2) hops"

text \<open>The input of a hop once the previous hop has been encoded.\<close>

definition chained_hop :: "u256 option \<Rightarrow> CalldataHop \<Rightarrow> CalldataHop" where
  "chained_hop chain_in hop =
     (case chain_in of
        None \<Rightarrow> hop
      | Some ain \<Rightarrow> hop\<lparr>ch_amount_in := (if ch_amount_in hop = 0 then ain else min ain (ch_amount_in hop))\<rparr>)"

definition is_v2_hop :: "CalldataHop \<Rightarrow> bool" where
  "is_v2_hop hop \<longleftrightarrow> e_protocol (ch_edge hop) = UniswapV2"

text \<open>
  The two arms of the loop body. They return the calls of the hop, the input of the next hop, and where the output
  of this one is paid.
\<close>

definition encode_pair_step ::
    "AbiEncoder \<Rightarrow> StateArena \<Rightarrow> address \<Rightarrow> RouteEncodeConfig \<Rightarrow> bool \<Rightarrow> address option \<Rightarrow> CalldataHop \<Rightarrow> CalldataHop option \<Rightarrow>
     CurveStats \<Rightarrow> (ExecutorCall list \<times> u256 option \<times> address) encoded" where
  "encode_pair_step abi arena executor config first funds_at hop next cs =
     (let swap_to = (case next of Some h \<Rightarrow> if is_v2_hop h then ch_pool_address h else executor | None \<Rightarrow> executor);
          prefund = (if funds_at = Some (ch_pool_address hop) then PrefundSkipped
                     else if first then PrefundExact else PrefundTransferAll)
      in and_then (encode_v2_hop abi arena hop swap_to executor (re_slippage_bps config) prefund cs) (\<lambda>(calls, amount_out) cs.
           Some (Inr (calls, Some amount_out, swap_to), cs)))"

definition encode_other_step ::
    "AbiEncoder \<Rightarrow> StateArena \<Rightarrow> address \<Rightarrow> RouteEncodeConfig \<Rightarrow> bool \<Rightarrow> CalldataHop \<Rightarrow> CalldataHop option \<Rightarrow>
     CurveStats \<Rightarrow> (ExecutorCall list \<times> u256 option \<times> address) encoded" where
  "encode_other_step abi arena executor config first hop next cs =
     (let bps = max (re_slippage_bps config) EXECUTION_MIN_SLIPPAGE_BPS
      in case quote_hop_for_execution arena hop cs of
           None \<Rightarrow> None
         | Some (None, cs) \<Rightarrow> Some (Inl QuoteUnavailable, cs)
         | Some (Some quoted_out, cs) \<Rightarrow>
             (case slippage_adjusted quoted_out bps of
                None \<Rightarrow> Some (Inl MinOutZero, cs)
              | Some min_out \<Rightarrow>
                  let hop = hop\<lparr>ch_amount_out := min_out\<rparr>;
                      recipient = (case next of
                          Some h \<Rightarrow> if is_v2_hop h \<and> hop_can_direct_output_to hop then ch_pool_address h else executor
                        | None \<Rightarrow> executor)
                  in and_then (encode_hop_for_protocol abi hop recipient executor arena config first (next = None)
                       (Some quoted_out) cs) (\<lambda>calls cs.
                     Some (if next = None then Inr (calls, None, recipient)
                           else case slippage_adjusted quoted_out (saturating_add bps EXECUTION_CHAIN_IN_BUFFER_BPS) of
                             None \<Rightarrow> Inl MinOutZero
                           | Some chained \<Rightarrow> Inr (calls, Some chained, recipient), cs))))"

fun encode_hops ::
    "AbiEncoder \<Rightarrow> StateArena \<Rightarrow> address \<Rightarrow> RouteEncodeConfig \<Rightarrow> bool \<Rightarrow> u256 option \<Rightarrow> address option \<Rightarrow> CalldataHop list \<Rightarrow>
     CurveStats \<Rightarrow> ExecutorCall list encoded" where
  "encode_hops abi arena executor config first chain_in funds_at [] cs = Some (Inr [], cs)"
| "encode_hops abi arena executor config first chain_in funds_at (hop # hops) cs =
     (let next = (case hops of [] \<Rightarrow> None | h # _ \<Rightarrow> Some h);
          hop = chained_hop chain_in hop
      in and_then
           (if is_v2_hop hop then encode_pair_step abi arena executor config first funds_at hop next cs
            else encode_other_step abi arena executor config first hop next cs)
           (\<lambda>(hop_calls, chain_in, paid_to) cs.
              and_then (encode_hops abi arena executor config False chain_in (Some paid_to) hops cs) (\<lambda>calls cs.
                Some (Inr (hop_calls @ calls), cs))))"

definition encode_route ::
    "AbiEncoder \<Rightarrow> StateArena \<Rightarrow> CalldataHop list \<Rightarrow> address \<Rightarrow> RouteEncodeConfig \<Rightarrow> FlashLoanSource \<Rightarrow> CurveStats \<Rightarrow>
     ExecutorCall list encoded" where
  "encode_route abi arena hops executor config flash_source cs =
     (if executor = 0 then Some (Inl ZeroExecutor, cs)
      else case validate_flash_hop_compatibility hops flash_source of
        Inl e \<Rightarrow> Some (Inl e, cs)
      | Inr _ \<Rightarrow>
          if flash_source = FlDirect \<and> hops_are_balancer_only hops \<and> length hops \<le> MAX_BALANCER_BATCH_HOPS
          then Some (encode_balancer_batch_route abi hops executor (re_deadline config), cs)
          else encode_hops abi arena executor config True None None hops cs)"

section \<open>Hops of a route\<close>

datatype CalldataReject =
    EmptyEdges
  | HopAmountsLength nat nat
  | BrokenTokenChain
  | MissingPoolAddress nat
  | ImplausiblePool nat
  | MissingTokenIn nat
  | MissingTokenOut nat
  | ImplausibleTokens nat
  | ZfoMismatch nat
  | MetaProtocolMismatch nat
  | TokenNotInPool nat
  | MetaTokensShort nat
  | NoMeta nat
  | CurveIndexUnresolved nat
  | UnknownLabel nat

definition balancer_pool_id_from_arena :: "StateArena \<Rightarrow> u32 \<Rightarrow> u256 option" where
  "balancer_pool_id_from_arena arena pool_index =
     (case pool_state arena pool_index of Some (PBalancer b) \<Rightarrow> bal_pool_id b | _ \<Rightarrow> None)"

definition meta_has :: "StateArena \<Rightarrow> PoolMeta \<Rightarrow> address \<Rightarrow> bool" where
  "meta_has arena meta addr = list_ex (\<lambda>t. token_address arena t = Some addr) (pm_tokens meta)"

definition meta_position :: "StateArena \<Rightarrow> PoolMeta \<Rightarrow> address \<Rightarrow> nat option" where
  "meta_position arena meta addr = position_of (Some addr) (map (token_address arena) (pm_tokens meta))"

definition curve_protocol :: "ProtocolType \<Rightarrow> bool" where
  "curve_protocol p \<longleftrightarrow> p = CurveStable \<or> p = CurveCrypto"

definition uniswap_protocol :: "ProtocolType \<Rightarrow> bool" where
  "uniswap_protocol p \<longleftrightarrow> p = UniswapV2 \<or> p = UniswapV3 \<or> p = UniswapV4"

text \<open>The checks of a hop against the metadata of its pool.\<close>

definition check_hop_meta ::
    "StateArena \<Rightarrow> nat \<Rightarrow> Edge \<Rightarrow> PoolMeta option \<Rightarrow> address \<Rightarrow> address \<Rightarrow> CalldataReject + unit" where
  "check_hop_meta arena i edge meta token_in token_out =
     (if (case meta of None \<Rightarrow> False | Some m \<Rightarrow> pm_protocol m \<noteq> e_protocol edge) \<and>
         \<not> (case pool_state arena (e_pool_index edge) of
              None \<Rightarrow> False | Some st \<Rightarrow> protocol_matches_pool_state (e_protocol edge) st)
      then Inl (MetaProtocolMismatch i)
      else if uniswap_protocol (e_protocol edge) \<or> curve_protocol (e_protocol edge)
      then (case meta of
              None \<Rightarrow> Inl (NoMeta i)
            | Some m \<Rightarrow>
                if length (pm_tokens m) \<ge> 2
                then (if meta_has arena m token_in \<and> meta_has arena m token_out then Inr () else Inl (TokenNotInPool i))
                else Inl (MetaTokensShort i))
      else Inr ())"

definition remap_curve_edge ::
    "StateArena \<Rightarrow> nat \<Rightarrow> Edge \<Rightarrow> PoolMeta option \<Rightarrow> address \<Rightarrow> address \<Rightarrow> CalldataReject + Edge" where
  "remap_curve_edge arena i edge meta token_in token_out =
     (case meta of
        None \<Rightarrow> Inr edge
      | Some m \<Rightarrow>
          if \<not> curve_protocol (e_protocol edge) then Inr edge
          else case (meta_position arena m token_in, meta_position arena m token_out) of
            (Some i_pos, Some j_pos) \<Rightarrow>
              if i_pos \<noteq> j_pos then Inr (edge\<lparr>e_token_in_idx := of_nat i_pos, e_token_out_idx := of_nat j_pos\<rparr>)
              else Inl (CurveIndexUnresolved i)
          | _ \<Rightarrow> Inl (CurveIndexUnresolved i))"

definition finish_hop ::
    "StateArena \<Rightarrow> nat \<Rightarrow> Edge \<Rightarrow> PoolMeta option \<Rightarrow> address \<Rightarrow> address \<Rightarrow> address \<Rightarrow> u256 \<Rightarrow> u256 \<Rightarrow> CalldataReject + CalldataHop" where
  "finish_hop arena i edge meta pool token_in token_out amount_in amount_out =
     (if (case Option.bind meta pm_protocol_label of None \<Rightarrow> False | Some label \<Rightarrow> \<not> is_known_protocol_label label)
      then Inl (UnknownLabel i)
      else
        let meta_pool_id = Option.bind meta pm_pool_id;
            arena_pool_id = balancer_pool_id_from_arena arena (e_pool_index edge);
            pool_id = (if e_protocol edge = BalancerV2
                       then (case arena_pool_id of Some p \<Rightarrow> Some p | None \<Rightarrow> meta_pool_id)
                       else meta_pool_id)
        in Inr \<lparr>ch_edge = edge, ch_pool_address = pool, ch_token_in = token_in, ch_token_out = token_out,
                ch_amount_in = amount_in, ch_amount_out = amount_out, ch_pool_id = pool_id,
                ch_protocol_label = Option.bind meta pm_protocol_label, ch_pool_type = Option.bind meta pm_pool_type,
                ch_router = None, ch_hooks = Option.bind meta pm_hooks\<rparr>)"

definition build_calldata_hop ::
    "StateArena \<Rightarrow> (u32 \<Rightarrow> PoolMeta option) \<Rightarrow> nat \<Rightarrow> Edge \<Rightarrow> u256 \<Rightarrow> u256 \<Rightarrow> CalldataReject + CalldataHop" where
  "build_calldata_hop arena metas i edge amount_in amount_out =
     (case pool_address arena (e_pool_index edge) of
        None \<Rightarrow> Inl (MissingPoolAddress i)
      | Some pool \<Rightarrow>
          if \<not> is_plausible_contract_address pool then Inl (ImplausiblePool i)
          else case token_address arena (e_token_in edge) of
            None \<Rightarrow> Inl (MissingTokenIn i)
          | Some token_in \<Rightarrow>
              (case token_address arena (e_token_out edge) of
                 None \<Rightarrow> Inl (MissingTokenOut i)
               | Some token_out \<Rightarrow>
                   if \<not> is_plausible_contract_address token_in \<or> \<not> is_plausible_contract_address token_out
                   then Inl (ImplausibleTokens i)
                   else if uniswap_protocol (e_protocol edge) \<and> e_zero_for_one edge \<noteq> (token_in < token_out)
                   then Inl (ZfoMismatch i)
                   else
                     let meta = metas (e_pool_index edge)
                     in case check_hop_meta arena i edge meta token_in token_out of
                          Inl e \<Rightarrow> Inl e
                        | Inr _ \<Rightarrow>
                            (case remap_curve_edge arena i edge meta token_in token_out of
                               Inl e \<Rightarrow> Inl e
                             | Inr edge \<Rightarrow> finish_hop arena i edge meta pool token_in token_out amount_in amount_out)))"

fun build_hops_loop ::
    "StateArena \<Rightarrow> (u32 \<Rightarrow> PoolMeta option) \<Rightarrow> nat \<Rightarrow> Edge list \<Rightarrow> u256 list \<Rightarrow> CalldataReject + CalldataHop list" where
  "build_hops_loop arena metas i (edge # edges) (amount_in # amount_out # amounts) =
     (case build_calldata_hop arena metas i edge amount_in amount_out of
        Inl e \<Rightarrow> Inl e
      | Inr hop \<Rightarrow>
          (case build_hops_loop arena metas (Suc i) edges (amount_out # amounts) of
             Inl e \<Rightarrow> Inl e
           | Inr hops \<Rightarrow> Inr (hop # hops)))"
| "build_hops_loop arena metas i edges amounts = Inr []"

definition build_calldata_hops ::
    "StateArena \<Rightarrow> Edge list \<Rightarrow> u256 list \<Rightarrow> (u32 \<Rightarrow> PoolMeta option) \<Rightarrow> CalldataReject + CalldataHop list" where
  "build_calldata_hops arena edges hop_amounts metas =
     (if edges = [] then Inl EmptyEdges
      else if length hop_amounts \<noteq> length edges + 1 then Inl (HopAmountsLength (length hop_amounts) (length edges))
      else if first_hop_continuity_break_in_arena arena edges \<noteq> None then Inl BrokenTokenChain
      else build_hops_loop arena metas 0 edges hop_amounts)"

section \<open>A quote does not depend on the counters\<close>

lemma curve_hop_value:
  assumes "curve_hop_amount_out pool protocol amount i j cs = Some (r, cs')"
  shows "\<exists>cs2'. curve_hop_amount_out pool protocol amount i j cs2 = Some (r, cs2')"
  using assms
  by (auto simp: curve_hop_amount_out_def split: ProtocolType.split_asm sum.split_asm if_split_asm Option.bind_split_asm)

lemma simulate_hop_value:
  assumes "simulate_hop st edge amount cap cs = Some (r, cs')"
  shows "\<exists>cs2'. simulate_hop st edge amount cap cs2 = Some (r, cs2')"
proof (cases "\<exists>s. st = PCurve s")
  case True
  then obtain s where st: "st = PCurve s" by blast
  show ?thesis
  proof (cases "amount = 0 \<or> cl_protocol (e_protocol edge) \<and> cl_hop_exceeds_shallow_cap amount cap \<or>
      e_protocol edge \<noteq> CurveStable \<and> e_protocol edge \<noteq> CurveCrypto")
    case True
    with assms show ?thesis
      by (auto simp: simulate_hop_def st Let_def split: if_splits)
  next
    case False
    then obtain q cs1 where "curve_hop_amount_out s (e_protocol edge) amount (unat (e_token_in_idx edge))
        (unat (e_token_out_idx edge)) cs = Some (q, cs1)"
      and r: "r = (case q of None \<Rightarrow> Inl RMath | Some out \<Rightarrow> hop_ok out GAS_CURVE_HOP)"
      using assms by (auto simp: simulate_hop_def st Let_def bind_eq_Some_conv split: if_splits)
    then obtain cs3 where "curve_hop_amount_out s (e_protocol edge) amount (unat (e_token_in_idx edge))
        (unat (e_token_out_idx edge)) cs2 = Some (q, cs3)"
      using curve_hop_value by blast
    then show ?thesis
      using False by (auto simp: simulate_hop_def st r Let_def)
  qed
next
  case False
  with assms show ?thesis
    by (cases st) (auto simp: simulate_hop_def Let_def bind_eq_Some_conv split: if_splits)
qed

lemma execution_quote_value:
  assumes "simulate_hop_amount_out_for_execution st edge amount cs = Some (q, cs')"
  shows "\<exists>cs2'. simulate_hop_amount_out_for_execution st edge amount cs2 = Some (q, cs2')"
proof -
  have ranked: "\<exists>cs2'. ranked_nonzero st edge amount cs2 = Some (q, cs2')"
    if "ranked_nonzero st edge amount cs = Some (q, cs')" for st
  proof -
    from that obtain r cs1 where "simulate_hop st edge amount (- 1) cs = Some (r, cs1)"
      and q: "q = (case (case r of Inl _ \<Rightarrow> None | Inr h \<Rightarrow> Some (hr_amount_out h)) of
          None \<Rightarrow> None | Some q \<Rightarrow> if q = 0 then None else Some q)"
      by (auto simp: ranked_nonzero_def simulate_hop_amount_out_def simulate_hop_amount_out_with_cap_def bind_eq_Some_conv)
    then obtain cs3 where "simulate_hop st edge amount (- 1) cs2 = Some (r, cs3)"
      using simulate_hop_value by blast
    then show ?thesis
      by (simp add: ranked_nonzero_def simulate_hop_amount_out_def simulate_hop_amount_out_with_cap_def q)
  qed
  show ?thesis
  proof (cases "amount = 0 \<or> (\<exists>s. st = PV3 s) \<and> e_protocol edge = UniswapV3 \<or> (\<exists>s. st = PV4 s) \<and> e_protocol edge = UniswapV4")
    case True
    with assms show ?thesis
      by (auto simp: simulate_hop_amount_out_for_execution_def split: if_splits)
  next
    case False
    then have "simulate_hop_amount_out_for_execution st edge amount cs = ranked_nonzero st edge amount cs" for cs
      by (cases st) (auto simp: simulate_hop_amount_out_for_execution_def)
    with ranked assms show ?thesis
      by simp
  qed
qed

lemma quote_value:
  assumes "quote_hop_for_execution arena hop cs = Some (q, cs')"
  obtains cs2' where "quote_hop_for_execution arena hop cs2 = Some (q, cs2')"
proof -
  have "\<exists>cs2'. quote_hop_for_execution arena hop cs2 = Some (q, cs2')"
    using assms execution_quote_value
    by (fastforce simp: quote_hop_for_execution_def split: option.splits)
  with that show ?thesis
    by blast
qed

section \<open>The payment ledger\<close>

text \<open>
  The ledger follows the money of the route through the calls. It knows where the current token lies, a lower bound
  of its amount where the contracts guarantee one, and the last allowance. A pair and a DODO pool are paid before
  they are called; every other venue takes its input from the executor, a router or the vault only with an allowance.
  A pair sends the amount it is asked for, Curve, the vault and the WooFi router at least the stated minimum;
  concentrated-liquidity and DODO pools promise nothing.
\<close>

record Ledger =
  ld_at :: address
  ld_holds :: "u256 option"
  ld_allowed :: "(address \<times> u256) option"

definition spends :: "u256 \<Rightarrow> Ledger \<Rightarrow> bool" where
  "spends amount led = (case ld_holds led of None \<Rightarrow> True | Some held \<Rightarrow> amount \<le> held)"

definition may_pull :: "address \<Rightarrow> address \<Rightarrow> u256 \<Rightarrow> Ledger \<Rightarrow> bool" where
  "may_pull executor spender amount led \<longleftrightarrow>
     ld_at led = executor \<and> spends amount led \<and>
     (case ld_allowed led of None \<Rightarrow> False | Some (s, a) \<Rightarrow> s = spender \<and> amount \<le> a)"

definition paid :: "address \<Rightarrow> u256 option \<Rightarrow> Ledger \<Rightarrow> Ledger" where
  "paid to amount led = led\<lparr>ld_at := to, ld_holds := amount\<rparr>"

definition v4_unlock_amount :: "u8 list \<Rightarrow> u256" where
  "v4_unlock_amount data = - of_nat (from_be (take 32 (drop 192 data)))"

fun pay_call :: "address \<Rightarrow> address \<Rightarrow> ContractCall \<Rightarrow> Ledger \<Rightarrow> Ledger option" where
  "pay_call executor target (TransferAll token to) led =
     (if target = executor \<and> ld_at led = executor then Some (led\<lparr>ld_at := to\<rparr>) else None)"
| "pay_call executor target (Transfer to amount) led =
     (if ld_at led = executor \<and> spends amount led then Some (paid to (Some amount) led) else None)"
| "pay_call executor target (Approve spender amount) led = Some (led\<lparr>ld_allowed := Some (spender, amount)\<rparr>)"
| "pay_call executor target (PairSwap amount0_out amount1_out to data) led =
     (if ld_at led = target \<and> data = [] then Some (paid to (Some (max amount0_out amount1_out)) led) else None)"
| "pay_call executor target (PoolSwap recipient zero_for_one amount limit data) led =
     (if ld_at led = executor \<and> spends amount led then Some (paid recipient None led) else None)"
| "pay_call executor target (StableExchange i j dx min_dy) led =
     (if may_pull executor target dx led then Some (paid executor (Some min_dy) led) else None)"
| "pay_call executor target (CryptoExchange i j dx min_dy) led =
     (if may_pull executor target dx led then Some (paid executor (Some min_dy) led) else None)"
| "pay_call executor target (StableNgExchange i j dx min_dy receiver) led =
     (if may_pull executor target dx led then Some (paid receiver (Some min_dy) led) else None)"
| "pay_call executor target (VaultSwap swap funds limit deadline) led =
     (if fm_sender funds = executor \<and> may_pull executor target (sw_amount swap) led
      then Some (paid (fm_recipient funds) (Some limit) led) else None)"
| "pay_call executor target (VaultBatchSwap kind swaps assets funds limits deadline) led =
     (if fm_sender funds = executor then Some (paid (fm_recipient funds) None led) else None)"
| "pay_call executor target (SellBase to) led = (if ld_at led = target then Some (paid to None led) else None)"
| "pay_call executor target (SellQuote to) led = (if ld_at led = target then Some (paid to None led) else None)"
| "pay_call executor target (RouterSwap from_token to_token amount min_to to rebate) led =
     (if may_pull executor target amount led then Some (paid to (Some min_to) led) else None)"
| "pay_call executor target (Unlock data) led =
     (if may_pull executor target (v4_unlock_amount data) led then Some (paid executor None led) else None)"
| "pay_call executor target _ led = None"

fun run_calls :: "(u8 list \<Rightarrow> ContractCall option) \<Rightarrow> address \<Rightarrow> ExecutorCall list \<Rightarrow> Ledger \<Rightarrow> Ledger option" where
  "run_calls decode executor [] led = Some led"
| "run_calls decode executor (call # calls) led =
     (case decode (ec_data call) of
        None \<Rightarrow> None
      | Some c \<Rightarrow> Option.bind (pay_call executor (ec_target call) c led) (run_calls decode executor calls))"

lemma run_calls_append:
  "run_calls decode executor (xs @ ys) led = Option.bind (run_calls decode executor xs led) (run_calls decode executor ys)"
  by (induction xs arbitrary: led) (auto split: option.splits Option.bind_splits)

section \<open>Every hop finds its input\<close>

definition decodes :: "AbiEncoder \<Rightarrow> (u8 list \<Rightarrow> ContractCall option) \<Rightarrow> bool" where
  "decodes abi decode \<longleftrightarrow> (\<forall>c. decode (abi_call abi c) = Some c)"

lemma decodesD [simp]: "decodes abi decode \<Longrightarrow> decode (abi_call abi c) = Some c"
  by (simp add: decodes_def)

lemma and_then_Inr:
  "and_then r f = Some (Inr y, cs') \<longleftrightarrow> (\<exists>x cs. r = Some (Inr x, cs) \<and> f x cs = Some (Inr y, cs'))"
  by (auto simp: and_then_def split: option.splits sum.splits)

lemma and_then_InrE:
  assumes "and_then r f = Some (Inr y, cs')"
  obtains x cs where "r = Some (Inr x, cs)" "f x cs = Some (Inr y, cs')"
  using assms unfolding and_then_Inr by (elim exE conjE)

lemma exec_call_simps [simp]: "ec_target (exec_call t d) = t" "ec_data (exec_call t d) = d"
  by (simp_all add: exec_call_def)

lemmas ledger_simps = spends_def may_pull_def paid_def encode_approve_if_needed_def encode_token_transfer_def
  encode_transfer_all_def fund_management_def

lemma pair_funded:
  assumes "decodes abi decode"
    and run: "encode_v2_hop abi arena hop swap_to executor slippage_bps prefund cs = Some (Inr (calls, amount_out), cs')"
    and funds: "ld_at led = (if prefund = PrefundSkipped then ch_pool_address hop else executor)"
    and "prefund = PrefundExact \<Longrightarrow> spends (ch_amount_in hop) led"
  shows "\<exists>led'. run_calls decode executor calls led = Some led' \<and> ld_at led' = swap_to \<and> ld_holds led' = Some amount_out"
proof -
  have max: "max 0 x = x" "max x 0 = x" for x :: u256
    by (simp_all add: max_def)
  show ?thesis
    using assms
    by (cases prefund)
       (auto simp: encode_v2_hop_def and_then_Inr max ledger_simps split: if_splits)
qed

lemma unlock_amount: "v4_unlock_amount (v4_unlock_inner key zero_for_one (0 - amount) limit) = amount"
proof -
  define front where "front = address_word (pk_currency0 key) @ address_word (pk_currency1 key) @
     replicate 29 0 @ be_bytes 3 (pk_fee key) @ replicate 29 0 @ be_bytes 3 (pk_tick_spacing key) @
     address_word (pk_hooks key) @ replicate 31 0 @ [if zero_for_one then 1 else 0 :: u8]"
  have "length front = 192"
    by (simp add: front_def address_word_def)
  moreover have "v4_unlock_inner key zero_for_one (0 - amount) limit = front @ be_bytes 32 (0 - amount) @ be_bytes 32 limit"
    by (simp add: v4_unlock_inner_def front_def)
  ultimately have "take 32 (drop 192 (v4_unlock_inner key zero_for_one (0 - amount) limit)) = be_bytes 32 (0 - amount)"
    by simp
  moreover have "unat (- amount) mod 256 ^ 32 = unat (- amount)"
    using unat_lt_256 [of "- amount"] by (simp add: mod_less)
  ultimately show ?thesis
    by (simp add: v4_unlock_amount_def from_be_bytes)
qed

lemma v3_calls:
  assumes "encode_v3_hop abi hop recipient arena slippage_bps full_range pre cs = Some (Inr calls, cs')"
  shows "\<exists>limit data. calls = [exec_call (ch_pool_address hop)
    (abi_call abi (PoolSwap recipient (e_zero_for_one (ch_edge hop)) (ch_amount_in hop) limit data))]"
  using assms unfolding encode_v3_hop_def
  by (elim and_then_InrE) (auto simp: Let_def split: if_split_asm prod.split_asm sum.split_asm)

lemma v3_funded:
  assumes "decodes abi decode" "ld_at led = executor" "spends (ch_amount_in hop) led"
    and "encode_v3_hop abi hop recipient arena slippage_bps full_range pre cs = Some (Inr calls, cs')"
  shows "\<exists>led'. run_calls decode executor calls led = Some led' \<and> ld_at led' = recipient \<and> ld_holds led' = None"
  using assms(1-3) v3_calls [OF assms(4)] by (auto simp: paid_def)

lemma v4_hop_calls:
  assumes "encode_v4_hop abi hop arena slippage_bps full_range pre cs = Some (Inr calls, cs')"
  obtains key zfo limit where "calls = v4_calls abi hop key zfo limit"
proof -
  obtain fee spacing hooks where fields: "v4_static_fields arena hop = (fee, spacing, hooks)"
    by (cases "v4_static_fields arena hop")
  have "and_then (resolve_cl_swap_limit arena hop slippage_bps full_range pre True cs) (\<lambda>limit cs.
      map_option (\<lambda>r. (case r of
          Inl e \<Rightarrow> Inl e
        | Inr (key, zero_for_one) \<Rightarrow>
            if \<not> fits_i256 (ch_amount_in hop) then Inl AmountTooLarge
            else Inr (v4_calls abi hop key zero_for_one (cs_sqrt_limit limit)), cs))
        (build_v4_pool_key (ch_token_in hop) (ch_token_out hop) fee spacing hooks)) = Some (Inr calls, cs')"
    using assms by (simp add: encode_v4_hop_def fields split: if_split_asm)
  then show ?thesis
  proof (rule and_then_InrE)
    fix limit cs1
    assume "map_option (\<lambda>r. (case r of Inl e \<Rightarrow> Inl e
        | Inr (key, zero_for_one) \<Rightarrow>
            if \<not> fits_i256 (ch_amount_in hop) then Inl AmountTooLarge
            else Inr (v4_calls abi hop key zero_for_one (cs_sqrt_limit limit)), cs1))
        (build_v4_pool_key (ch_token_in hop) (ch_token_out hop) fee spacing hooks) = Some (Inr calls, cs')"
    then show ?thesis
      by (cases "build_v4_pool_key (ch_token_in hop) (ch_token_out hop) fee spacing hooks")
         (auto intro: that split: if_split_asm prod.split_asm sum.split_asm)
  qed
qed

lemma v4_funded:
  assumes "decodes abi decode" "ld_at led = executor" "spends (ch_amount_in hop) led"
    and "encode_v4_hop abi hop arena slippage_bps full_range pre cs = Some (Inr calls, cs')"
  shows "\<exists>led'. run_calls decode executor calls led = Some led' \<and> ld_at led' = executor \<and> ld_holds led' = None"
proof -
  obtain key zfo limit where calls: "calls = v4_calls abi hop key zfo limit"
    by (rule v4_hop_calls [OF assms(4)])
  show ?thesis
    using assms(1-3) by (simp add: calls v4_calls_def ledger_simps unlock_amount del: minus_zero diff_0)
qed

lemma curve_funded:
  assumes "decodes abi decode" "ld_at led = executor" "spends (ch_amount_in hop) led"
    and "encode_curve_hop abi hop recipient arena slippage_bps cs = Some (Inr calls, cs')"
    and "curve_uses_receiver (ch_pool_type hop) \<or> recipient = executor"
    and "\<And>x cs cs'. encoded_min_out arena hop slippage_bps cs = Some (Inr x, cs') \<Longrightarrow> x = m"
  shows "\<exists>led'. run_calls decode executor calls led = Some led' \<and> ld_at led' = recipient \<and> ld_holds led' = Some m"
  using assms
  by (fastforce simp: encode_curve_hop_def and_then_Inr ledger_simps Let_def split: if_splits option.splits)

lemma balancer_funded:
  assumes "decodes abi decode" "ld_at led = executor" "spends (ch_amount_in hop) led"
    and "encode_balancer_hop abi hop recipient executor arena slippage_bps deadline cs = Some (Inr calls, cs')"
    and "\<And>x cs cs'. encoded_min_out arena hop slippage_bps cs = Some (Inr x, cs') \<Longrightarrow> x = m"
  shows "\<exists>led'. run_calls decode executor calls led = Some led' \<and> ld_at led' = recipient \<and> ld_holds led' = Some m"
  using assms
  by (fastforce simp: encode_balancer_hop_def and_then_Inr ledger_simps split: sum.splits option.splits)

lemma woofi_funded:
  assumes "decodes abi decode" "ld_at led = executor" "spends (ch_amount_in hop) led"
    and "encode_woofi_hop abi hop recipient arena slippage_bps cs = Some (Inr calls, cs')"
    and "\<And>x cs cs'. encoded_min_out arena hop slippage_bps cs = Some (Inr x, cs') \<Longrightarrow> x = m"
  shows "\<exists>led'. run_calls decode executor calls led = Some led' \<and> ld_at led' = recipient \<and> ld_holds led' = Some m"
  using assms
  by (fastforce simp: encode_woofi_hop_def and_then_Inr ledger_simps split: option.splits)

lemma dodo_funded:
  assumes "decodes abi decode" "ld_at led = executor" "spends (ch_amount_in hop) led"
    and "encode_dodo_hop abi arena hop recipient executor all = Inr calls"
  shows "\<exists>led'. run_calls decode executor calls led = Some led' \<and> ld_at led' = recipient \<and> ld_holds led' = None"
  using assms by (auto simp: encode_dodo_hop_def ledger_simps split: sum.splits)

lemma min_out_is:
  assumes quote: "quote_hop_for_execution arena hop cs0 = Some (Some q, cs1)"
    and m: "slippage_adjusted q (max slippage_bps EXECUTION_MIN_SLIPPAGE_BPS) = Some m"
    and x: "encoded_min_out arena (hop\<lparr>ch_amount_out := m\<rparr>) slippage_bps cs = Some (Inr x, cs')"
  shows "x = m"
proof -
  have "q \<noteq> 0"
    using m by (auto simp: slippage_adjusted_def)
  obtain cs2 where "quote_hop_for_execution arena hop cs = Some (Some q, cs2)"
    by (rule quote_value [OF quote])
  moreover have "quote_hop_for_execution arena (hop\<lparr>ch_amount_out := m\<rparr>) cs = quote_hop_for_execution arena hop cs"
    by (simp add: quote_hop_for_execution_def cong: option.case_cong)
  ultimately have "compute_quoted_out arena (hop\<lparr>ch_amount_out := m\<rparr>) cs = Some (Inr q, cs2)"
    using \<open>q \<noteq> 0\<close> by (simp add: compute_quoted_out_def)
  then show ?thesis
    using x m by (simp add: encoded_min_out_def compute_min_out_def and_then_def split: if_splits)
qed

lemma larger_haircut:
  assumes "slippage_adjusted q bps = Some m" "slippage_adjusted q (saturating_add bps extra) = Some c"
  shows "c \<le> m"
proof -
  have "unat bps \<le> unat (saturating_add bps extra)"
    using unsigned_less [where 'a = nat, of bps] by (simp add: unat_saturating_add unat_max_word)
  then have "unat q * (10000 - unat (saturating_add bps extra)) \<le> unat q * (10000 - unat bps)"
    by (intro mult_le_mono2 diff_le_mono2)
  then show ?thesis
    using slippage_adjusted_exact [OF assms(1)] slippage_adjusted_exact [OF assms(2)]
    by (simp add: word_le_nat_alt div_le_mono)
qed

lemma other_hop_funded:
  assumes "decodes abi decode" "ld_at led = executor" "spends (ch_amount_in hop) led" "\<not> is_v2_hop hop"
    and run: "encode_hop_for_protocol abi hop recipient executor arena config first final pre cs = Some (Inr calls, cs')"
    and direct: "hop_can_direct_output_to hop \<or> recipient = executor"
    and min: "\<And>x cs cs'. encoded_min_out arena hop (re_slippage_bps config) cs = Some (Inr x, cs') \<Longrightarrow> x = m"
  shows "\<exists>led'. run_calls decode executor calls led = Some led' \<and> ld_at led' = recipient \<and> ld_holds led' \<in> {None, Some m}"
proof (cases "e_protocol (ch_edge hop)")
  case UniswapV2
  with assms(4) show ?thesis by (simp add: is_v2_hop_def)
next
  case UniswapV3
  with run v3_funded [OF assms(1-3)] show ?thesis
    by (fastforce simp: encode_hop_for_protocol_def)
next
  case UniswapV4
  with direct have "recipient = executor" by (simp add: hop_can_direct_output_to_def)
  with UniswapV4 run v4_funded [OF assms(1-3)] show ?thesis
    by (fastforce simp: encode_hop_for_protocol_def)
next
  case CurveStable
  with direct have "curve_uses_receiver (ch_pool_type hop) \<or> recipient = executor" by (simp add: hop_can_direct_output_to_def)
  with CurveStable run curve_funded [OF assms(1-3) _ _ min] show ?thesis
    by (fastforce simp: encode_hop_for_protocol_def)
next
  case CurveCrypto
  with direct have "curve_uses_receiver (ch_pool_type hop) \<or> recipient = executor" by (simp add: hop_can_direct_output_to_def)
  with CurveCrypto run curve_funded [OF assms(1-3) _ _ min] show ?thesis
    by (fastforce simp: encode_hop_for_protocol_def)
next
  case BalancerV2
  with run balancer_funded [OF assms(1-3) _ min] show ?thesis
    by (fastforce simp: encode_hop_for_protocol_def)
next
  case Dodo
  with run dodo_funded [OF assms(1-3)] show ?thesis
    by (fastforce simp: encode_hop_for_protocol_def)
next
  case Woofi
  with run woofi_funded [OF assms(1-3) _ min] show ?thesis
    by (fastforce simp: encode_hop_for_protocol_def)
qed

text \<open>What a step leaves behind: the money where the next hop looks for it, and enough of it.\<close>

definition ready_for :: "address \<Rightarrow> CalldataHop option \<Rightarrow> u256 option \<Rightarrow> address \<Rightarrow> Ledger \<Rightarrow> bool" where
  "ready_for executor next chain_out to led \<longleftrightarrow>
     ld_at led = to \<and> (to = executor \<or> (\<exists>h. next = Some h \<and> is_v2_hop h \<and> to = ch_pool_address h)) \<and>
     (next = None \<or> (\<exists>c. chain_out = Some c \<and> spends c led))"

lemma other_step_ready:
  assumes "decodes abi decode" "ld_at led = executor" "spends (ch_amount_in hop) led" "\<not> is_v2_hop hop"
    and run: "encode_other_step abi arena executor config first hop next cs = Some (Inr (calls, chain_out, to), cs')"
  shows "\<exists>led'. run_calls decode executor calls led = Some led' \<and> ready_for executor next chain_out to led'"
proof -
  let ?bps = "max (re_slippage_bps config) EXECUTION_MIN_SLIPPAGE_BPS"
  obtain q cs1 where quote: "quote_hop_for_execution arena hop cs = Some (Some q, cs1)"
    using run by (auto simp: encode_other_step_def Let_def split: option.split_asm)
  then obtain m where m: "slippage_adjusted q ?bps = Some m"
    using run by (auto simp: encode_other_step_def Let_def split: option.split_asm)
  define hop' where "hop' = hop\<lparr>ch_amount_out := m\<rparr>"
  define recipient where "recipient = (case next of
      Some h \<Rightarrow> if is_v2_hop h \<and> hop_can_direct_output_to hop' then ch_pool_address h else executor | None \<Rightarrow> executor)"
  have "and_then (encode_hop_for_protocol abi hop' recipient executor arena config first (next = None) (Some q) cs1)
      (\<lambda>calls cs. Some (if next = None then Inr (calls, None, recipient)
         else case slippage_adjusted q (saturating_add ?bps EXECUTION_CHAIN_IN_BUFFER_BPS) of
           None \<Rightarrow> Inl MinOutZero | Some chained \<Rightarrow> Inr (calls, Some chained, recipient), cs)) = Some (Inr (calls, chain_out, to), cs')"
    using run unfolding encode_other_step_def Let_def quote m hop'_def recipient_def option.case prod.case .
  then obtain cs2 where enc: "encode_hop_for_protocol abi hop' recipient executor arena config first (next = None) (Some q) cs1 =
      Some (Inr calls, cs2)"
    and to: "to = recipient"
    and chain_out: "next = None \<or> (\<exists>c. chain_out = Some c \<and> slippage_adjusted q (saturating_add ?bps EXECUTION_CHAIN_IN_BUFFER_BPS) = Some c)"
    by (auto elim!: and_then_InrE split: if_split_asm option.split_asm)
  have hop': "ld_at led = executor" "spends (ch_amount_in hop') led" "\<not> is_v2_hop hop'"
    using assms(2-4) by (simp_all add: hop'_def is_v2_hop_def)
  have direct: "hop_can_direct_output_to hop' \<or> recipient = executor"
    by (simp add: recipient_def split: option.split)
  have min: "x = m" if "encoded_min_out arena hop' (re_slippage_bps config) cs = Some (Inr x, cs')" for x cs cs'
    using min_out_is [OF quote m] that by (simp add: hop'_def)
  have "\<exists>led'. run_calls decode executor calls led = Some led' \<and> ld_at led' = recipient \<and> ld_holds led' \<in> {None, Some m}"
    by (rule other_hop_funded [OF assms(1) hop' enc direct]) (rule min)
  then obtain led' where led': "run_calls decode executor calls led = Some led'" "ld_at led' = recipient"
    "ld_holds led' \<in> {None, Some m}"
    by blast
  have "spends c led'" if "slippage_adjusted q (saturating_add ?bps EXECUTION_CHAIN_IN_BUFFER_BPS) = Some c" for c
    using larger_haircut [OF m that] led'(3) by (auto simp: spends_def)
  with led' to chain_out show ?thesis
    by (auto simp: ready_for_def recipient_def split: option.splits if_splits)
qed

lemma pair_step_ready:
  assumes "decodes abi decode" "spends (ch_amount_in hop) led"
    and funds: "ld_at led = (case funds_at of None \<Rightarrow> executor | Some a \<Rightarrow> a)"
      "ld_at led = executor \<or> ld_at led = ch_pool_address hop"
    and run: "encode_pair_step abi arena executor config first funds_at hop next cs = Some (Inr (calls, chain_out, to), cs')"
  shows "\<exists>led'. run_calls decode executor calls led = Some led' \<and> ready_for executor next chain_out to led'"
proof -
  let ?to = "case next of Some h \<Rightarrow> if is_v2_hop h then ch_pool_address h else executor | None \<Rightarrow> executor"
  let ?prefund = "if funds_at = Some (ch_pool_address hop) then PrefundSkipped else if first then PrefundExact else PrefundTransferAll"
  obtain amount_out cs1 where enc: "encode_v2_hop abi arena hop ?to executor (re_slippage_bps config) ?prefund cs =
      Some (Inr (calls, amount_out), cs1)" and out: "chain_out = Some amount_out" "to = ?to"
    using run by (auto simp: encode_pair_step_def Let_def elim!: and_then_InrE)
  have "ld_at led = (if ?prefund = PrefundSkipped then ch_pool_address hop else executor)"
    using funds by (auto split: option.splits)
  then obtain led' where "run_calls decode executor calls led = Some led'" "ld_at led' = ?to" "ld_holds led' = Some amount_out"
    using pair_funded [OF assms(1) enc] assms(2) by blast
  then show ?thesis
    by (auto simp: ready_for_def out spends_def split: option.splits if_splits)
qed

lemma chained_hop_simps [simp]:
  "ch_pool_address (chained_hop chain_in hop) = ch_pool_address hop"
  "is_v2_hop (chained_hop chain_in hop) = is_v2_hop hop"
  "ch_edge (chained_hop chain_in hop) = ch_edge hop"
  by (simp_all add: chained_hop_def is_v2_hop_def split: option.split)

lemma chained_amount: "spends c led \<Longrightarrow> spends (ch_amount_in (chained_hop (Some c) hop)) led"
  by (auto simp: chained_hop_def spends_def min_def split: option.splits)

lemma encode_hops_funded:
  assumes "decodes abi decode"
    and "encode_hops abi arena executor config first chain_in funds_at hops cs = Some (Inr calls, cs')"
    and "ld_at led = (case funds_at of None \<Rightarrow> executor | Some a \<Rightarrow> a)"
    and "ld_at led = executor \<or> (\<exists>hop rest. hops = hop # rest \<and> is_v2_hop hop \<and> ld_at led = ch_pool_address hop)"
    and "\<And>hop rest. hops = hop # rest \<Longrightarrow> spends (ch_amount_in (chained_hop chain_in hop)) led"
  shows "\<exists>led'. run_calls decode executor calls led = Some led' \<and> ld_at led' = executor"
  using assms(2-5)
proof (induction hops arbitrary: first chain_in funds_at cs calls led)
  case Nil
  then show ?case by auto
next
  case (Cons hop hops)
  let ?next = "case hops of [] \<Rightarrow> None | h # _ \<Rightarrow> Some h"
  let ?hop = "chained_hop chain_in hop"
  obtain hop_calls chain_out to cs1 rest where
    step: "(if is_v2_hop hop then encode_pair_step abi arena executor config first funds_at ?hop ?next cs
            else encode_other_step abi arena executor config first ?hop ?next cs) = Some (Inr (hop_calls, chain_out, to), cs1)"
    and rest: "encode_hops abi arena executor config False chain_out (Some to) hops cs1 = Some (Inr rest, cs')"
    and calls: "calls = hop_calls @ rest"
    using Cons.prems(1) by (auto simp: Let_def elim!: and_then_InrE)
  have spend: "spends (ch_amount_in ?hop) led"
    using Cons.prems(4) by simp
  have "\<exists>led'. run_calls decode executor hop_calls led = Some led' \<and> ready_for executor ?next chain_out to led'"
  proof (cases "is_v2_hop hop")
    case True
    then have pair: "encode_pair_step abi arena executor config first funds_at ?hop ?next cs = Some (Inr (hop_calls, chain_out, to), cs1)"
      using step by simp
    show ?thesis
      by (rule pair_step_ready [OF assms(1) spend Cons.prems(2) _ pair]) (use Cons.prems(3) in auto)
  next
    case False
    then have other: "encode_other_step abi arena executor config first ?hop ?next cs = Some (Inr (hop_calls, chain_out, to), cs1)"
      using step by simp
    show ?thesis
      by (rule other_step_ready [OF assms(1) _ spend _ other]) (use False Cons.prems(3) in auto)
  qed
  then obtain led1 where led1: "run_calls decode executor hop_calls led = Some led1" and ready: "ready_for executor ?next chain_out to led1"
    by blast
  have "\<exists>led'. run_calls decode executor rest led1 = Some led' \<and> ld_at led' = executor"
    by (rule Cons.IH [OF rest])
       (use ready in \<open>auto simp: ready_for_def intro: chained_amount split: list.splits\<close>)
  then show ?case
    by (auto simp: calls run_calls_append led1)
qed

section \<open>Properties\<close>

text \<open>
  Property C9. The calls of an encoded route can be paid in their order: starting with the loan on the executor, every call
  finds its input where it takes it from, pulls at most its allowance and at most what the call before it is bound to
  deliver, and the last output comes back to the executor. Nothing is left behind at a pool.
\<close>

theorem encoded_route_funded:
  assumes "encode_route abi arena (hop # hops) executor config source cs = Some (Inr calls, cs')"
    and "decodes abi decode" "ch_amount_in hop \<le> loan"
  shows "\<exists>led. run_calls decode executor calls \<lparr>ld_at = executor, ld_holds = Some loan, ld_allowed = None\<rparr> = Some led \<and>
           ld_at led = executor"
proof (cases "source = FlDirect \<and> hops_are_balancer_only (hop # hops) \<and> length (hop # hops) \<le> MAX_BALANCER_BATCH_HOPS")
  case True
  then have "encode_balancer_batch_route abi (hop # hops) executor (re_deadline config) = Inr calls"
    using assms(1) by (auto simp: encode_route_def split: if_split_asm sum.split_asm)
  then show ?thesis
    using assms(2)
    by (auto simp: encode_balancer_batch_route_def build_balancer_batch_swap_request_def fund_management_def paid_def Let_def
        split: sum.split_asm prod.split_asm)
next
  case False
  then have run: "encode_hops abi arena executor config True None None (hop # hops) cs = Some (Inr calls, cs')"
    using assms(1) by (auto simp: encode_route_def simp del: encode_hops.simps split: if_split_asm sum.split_asm)
  show ?thesis
    by (rule encode_hops_funded [OF assms(2) run]) (use assms(3) in \<open>auto simp: chained_hop_def spends_def\<close>)
qed

lemma pair_step_calls:
  assumes "encode_pair_step abi arena executor config first funds_at hop next cs = Some (Inr (calls, chain_out, to), cs')"
  shows "length calls \<le> (if funds_at = Some (ch_pool_address hop) then 1 else 2)"
    and "\<And>h. next = Some h \<Longrightarrow> is_v2_hop h \<Longrightarrow> to = ch_pool_address h"
  using assms
  by (auto simp: encode_pair_step_def encode_v2_hop_def Let_def elim!: and_then_InrE split: if_split_asm)

lemma other_hop_calls:
  assumes "encode_hop_for_protocol abi hop recipient executor arena config first final pre cs = Some (Inr calls, cs')"
    and "\<not> is_v2_hop hop"
  shows "length calls \<le> estimate_hop_calls (e_protocol (ch_edge hop))"
proof (cases "e_protocol (ch_edge hop)")
  case UniswapV3
  then have "encode_v3_hop abi hop recipient arena (re_slippage_bps config) (\<not> final) pre cs = Some (Inr calls, cs')"
    using assms(1) by (simp add: encode_hop_for_protocol_def)
  from v3_calls [OF this] UniswapV3 show ?thesis
    by auto
next
  case UniswapV4
  then have "encode_v4_hop abi hop arena (re_slippage_bps config) (\<not> final) pre cs = Some (Inr calls, cs')"
    using assms(1) by (simp add: encode_hop_for_protocol_def)
  then show ?thesis
    using UniswapV4 by (rule_tac v4_hop_calls) (auto simp: v4_calls_def)
qed (use assms in \<open>auto simp: encode_hop_for_protocol_def is_v2_hop_def encode_curve_hop_def encode_balancer_hop_def
      encode_dodo_hop_def encode_woofi_hop_def Let_def elim!: and_then_InrE split: sum.split_asm if_split_asm\<close>)

lemma other_step_calls:
  assumes "encode_other_step abi arena executor config first hop next cs = Some (Inr (calls, chain_out, to), cs')"
    and "\<not> is_v2_hop hop"
  shows "length calls \<le> estimate_hop_calls (e_protocol (ch_edge hop))"
proof -
  obtain m recipient quoted cs1 cs2 where
    "encode_hop_for_protocol abi (hop\<lparr>ch_amount_out := m\<rparr>) recipient executor arena config first (next = None) (Some quoted) cs1 =
       Some (Inr calls, cs2)"
    using assms(1)
    by (auto simp: encode_other_step_def Let_def elim!: and_then_InrE split: option.split_asm prod.split_asm if_split_asm)
  from other_hop_calls [OF this] assms(2) show ?thesis
    by (simp add: is_v2_hop_def)
qed

lemma route_calls_loop_add: "route_calls_loop n b edges = n + route_calls_loop 0 b edges"
proof (induction edges arbitrary: n b)
  case (Cons edge edges)
  have shift: "route_calls_loop (n + k) b' edges = n + route_calls_loop k b' edges" for k b'
    using Cons [of "n + k" b'] Cons [of k b'] by simp
  show ?case
    using shift [of 1] shift [of 2] shift by (simp add: numeral_2_eq_2)
qed simp

lemma encode_hops_calls:
  assumes "encode_hops abi arena executor config first chain_in funds_at hops cs = Some (Inr calls, cs')"
    and "\<And>hop rest. prev \<Longrightarrow> hops = hop # rest \<Longrightarrow> is_v2_hop hop \<Longrightarrow> funds_at = Some (ch_pool_address hop)"
  shows "length calls \<le> route_calls_loop 0 prev (map ch_edge hops)"
  using assms
proof (induction hops arbitrary: first chain_in funds_at cs calls prev)
  case Nil
  then show ?case by simp
next
  case (Cons hop hops)
  let ?next = "case hops of [] \<Rightarrow> None | h # _ \<Rightarrow> Some h"
  let ?hop = "chained_hop chain_in hop"
  obtain hop_calls chain_out to cs1 rest where
    step: "(if is_v2_hop hop then encode_pair_step abi arena executor config first funds_at ?hop ?next cs
            else encode_other_step abi arena executor config first ?hop ?next cs) = Some (Inr (hop_calls, chain_out, to), cs1)"
    and rest: "encode_hops abi arena executor config False chain_out (Some to) hops cs1 = Some (Inr rest, cs')"
    and calls: "calls = hop_calls @ rest"
    using Cons.prems(1) by (auto simp: Let_def elim!: and_then_InrE)
  show ?case
  proof (cases "is_v2_hop hop")
    case True
    then have pair: "encode_pair_step abi arena executor config first funds_at ?hop ?next cs = Some (Inr (hop_calls, chain_out, to), cs1)"
      using step by simp
    have "length rest \<le> route_calls_loop 0 True (map ch_edge hops)"
      by (rule Cons.IH [OF rest]) (use pair_step_calls(2) [OF pair] in auto)
    moreover have "length hop_calls \<le> 1 + (if prev then 0 else 1)"
      using pair_step_calls(1) [OF pair] Cons.prems(2) True by (auto split: if_splits)
    ultimately show ?thesis
      using True route_calls_loop_add [of "1 + (if prev then 0 else 1)" True] by (simp add: calls is_v2_hop_def)
  next
    case False
    then have other: "encode_other_step abi arena executor config first ?hop ?next cs = Some (Inr (hop_calls, chain_out, to), cs1)"
      using step by simp
    have "length rest \<le> route_calls_loop 0 False (map ch_edge hops)"
      by (rule Cons.IH [OF rest]) simp
    moreover have "length hop_calls \<le> estimate_hop_calls (e_protocol (ch_edge hop))"
      using other_step_calls [OF other] False by simp
    ultimately show ?thesis
      using False route_calls_loop_add [of "estimate_hop_calls (e_protocol (ch_edge hop))" False]
      by (simp add: calls is_v2_hop_def)
  qed
qed

text \<open>
  Property C11. The call budget is kept: the encoder never emits more calls than the estimate by which routes are admitted, so
  a route that fits the executor is never refused for its number of calls when it is packed. The estimate counts an
  all-Balancer route as one call, which needs the direct entry point.
\<close>

theorem encoded_calls_within_budget:
  assumes "encode_route abi arena hops executor config source cs = Some (Inr calls, cs')"
    and "balancer_direct_batch_eligible (map ch_edge hops) \<longrightarrow> source = FlDirect"
  shows "length calls \<le> estimate_packed_route_calls (map ch_edge hops) \<and>
    (route_fits_executor (map ch_edge hops) \<longrightarrow> pack_executor_calls calls \<noteq> Inl (TooManyCalls (length calls)))"
proof -
  have batch: "balancer_direct_batch_eligible (map ch_edge hops) \<longleftrightarrow>
      hops_are_balancer_only hops \<and> length hops \<le> MAX_BALANCER_BATCH_HOPS"
    by (auto simp: balancer_direct_batch_eligible_def hops_are_balancer_only_def list_all_iff)
  have "length calls \<le> estimate_packed_route_calls (map ch_edge hops)"
  proof (cases "balancer_direct_batch_eligible (map ch_edge hops)")
    case True
    with assms batch have "encode_balancer_batch_route abi hops executor (re_deadline config) = Inr calls"
      by (auto simp: encode_route_def split: if_split_asm sum.split_asm)
    with True show ?thesis
      by (auto simp: encode_balancer_batch_route_def estimate_packed_route_calls_def split: sum.split_asm)
  next
    case False
    then have "encode_hops abi arena executor config True None None hops cs = Some (Inr calls, cs')"
      using assms(1) batch by (auto simp: encode_route_def simp del: encode_hops.simps split: if_split_asm sum.split_asm)
    then have "length calls \<le> route_calls_loop 0 False (map ch_edge hops)"
      by (rule encode_hops_calls) simp
    with False show ?thesis
      by (simp add: estimate_packed_route_calls_def estimate_route_calls_def)
  qed
  then show ?thesis
    by (auto simp: route_fits_executor_def packed_calls_fit_executor_def pack_executor_calls_def)
qed

text \<open>
  The sample: two pairs with different prices. The encoder of calls maps every call to a run of zero bytes, as many as the
  number of the call in an enumeration of all calls.
\<close>

instance BalancerSingleSwap_ext :: (countable) countable
  by (rule countable_classI [of "\<lambda>s. to_nat (sw_pool_id s, sw_kind s, sw_asset_in s, sw_asset_out s, sw_amount s,
      sw_user_data s, BalancerSingleSwap.more s)"]) simp

instance BalancerFundManagement_ext :: (countable) countable
  by (rule countable_classI [of "\<lambda>s. to_nat (fm_sender s, fm_from_internal_balance s, fm_recipient s,
      fm_to_internal_balance s, BalancerFundManagement.more s)"]) simp

instance BalancerBatchSwapStep_ext :: (countable) countable
  by (rule countable_classI [of "\<lambda>s. to_nat (bs_pool_id s, bs_asset_in_index s, bs_asset_out_index s, bs_amount s,
      bs_user_data s, BalancerBatchSwapStep.more s)"]) simp

instance ContractCall :: countable
  by countable_datatype

definition sample_abi :: AbiEncoder where
  "sample_abi = \<lparr>abi_call = (\<lambda>c. replicate (to_nat c) 0), abi_callback = (\<lambda>_. [])\<rparr>"

definition sample_decode :: "u8 list \<Rightarrow> ContractCall option" where
  "sample_decode bytes = Some (from_nat (length bytes))"

lemma sample_decodes: "decodes sample_abi sample_decode"
  by (simp add: decodes_def sample_abi_def sample_decode_def)

definition sample_hops :: "CalldataHop list" where
  "sample_hops = [sample_calldata_hop sample_v2_edge 0x30000 10 20 1000000, sample_calldata_hop sample_back_edge 0x30001 20 10 0]"

lemma sample_quotes:
  "quote_hop_for_execution sample_pairs_arena (sample_calldata_hop sample_v2_edge pool tin tout 1000000) cs = Some (Some 1992013, cs)"
  "quote_hop_for_execution sample_pairs_arena (sample_calldata_hop sample_back_edge pool tin tout 1972092) cs = Some (Some 1178546, cs)"
proof -
  have second: "simulate_hop (PV2 (sample_pair 1200000000 2000000000)) sample_back_edge 1972092 (- 1) cs =
      Some (hop_ok 1178546 GAS_V2_HOP, cs)"
    by (simp add: simulate_hop_def sample_back_edge_def sample_v2_edge_def sample_pair_def v2_reserve_in_def
        simulate_v2_swap_def resolve_v2_fee_with_edge_def get_amount_out_def fits_u128_def Let_def cl_protocol_def pdiv_def)
  have states: "pool_state sample_pairs_arena (e_pool_index sample_v2_edge) = Some (PV2 (sample_pair 1000000000 2000000000))"
    "pool_state sample_pairs_arena (e_pool_index sample_back_edge) = Some (PV2 (sample_pair 1200000000 2000000000))"
    by (simp_all add: sample_pairs_arena_def sample_back_edge_def sample_v2_edge_def pool_state_def nth_opt_def)
  have edges: "realign_multi_token_edge sample_pairs_arena st sample_v2_edge = Some sample_v2_edge"
    "realign_multi_token_edge sample_pairs_arena st sample_back_edge = Some sample_back_edge" for st
    by (simp_all add: realign_multi_token_edge_def sample_back_edge_def sample_v2_edge_def multi_token_protocol_def)
  show
    "quote_hop_for_execution sample_pairs_arena (sample_calldata_hop sample_v2_edge pool tin tout 1000000) cs = Some (Some 1992013, cs)"
    "quote_hop_for_execution sample_pairs_arena (sample_calldata_hop sample_back_edge pool tin tout 1972092) cs = Some (Some 1178546, cs)"
    by (simp_all add: quote_hop_for_execution_def sample_calldata_hop_def states edges simulate_hop_amount_out_for_execution_def
        ranked_nonzero_def simulate_hop_amount_out_def simulate_hop_amount_out_with_cap_def sample_hop_0 second hop_ok_def)
qed

lemma sample_encoded:
  "\<exists>calls. encode_route abi sample_pairs_arena sample_hops 0xee0000 \<lparr>re_slippage_bps = 50, re_deadline = 9\<rparr> FlAaveV3 cs =
     Some (Inr calls, cs)"
proof -
  have min_out: "encoded_min_out sample_pairs_arena (sample_calldata_hop sample_v2_edge pool tin tout 1000000) 50 cs = Some (Inr 1972092, cs)"
    "encoded_min_out sample_pairs_arena (sample_calldata_hop sample_back_edge pool tin tout 1972092) 50 cs = Some (Inr 1166760, cs)"
    for pool tin tout
    by (simp_all add: encoded_min_out_def compute_min_out_def compute_quoted_out_def sample_quotes and_then_def
        EXECUTION_MIN_SLIPPAGE_BPS_def slippage_adjusted_def checked_mul_def max_def Let_def)
       (simp_all add: sample_calldata_hop_def)
  have edges: "e_protocol sample_v2_edge = UniswapV2" "e_protocol sample_back_edge = UniswapV2"
    "e_zero_for_one sample_v2_edge" "\<not> e_zero_for_one sample_back_edge"
    by (simp_all add: sample_back_edge_def sample_v2_edge_def)
  have v2: "\<exists>calls. encode_v2_hop abi sample_pairs_arena (sample_calldata_hop sample_v2_edge pool 10 20 1000000) to executor 50 prefund cs =
        Some (Inr (calls, 1972092), cs)"
    "\<exists>calls. encode_v2_hop abi sample_pairs_arena (sample_calldata_hop sample_back_edge pool 20 10 1972092) to executor 50 prefund cs =
        Some (Inr (calls, 1166760), cs)" for pool to executor prefund
    by (simp_all add: encode_v2_hop_def min_out and_then_def Let_def) (simp_all add: sample_calldata_hop_def edges)
  have chained: "chained_hop None hop = hop" "is_v2_hop (sample_calldata_hop sample_v2_edge pool tin tout a)"
    "is_v2_hop (sample_calldata_hop sample_back_edge pool tin tout a)"
    "chained_hop (Some 1972092) (sample_calldata_hop sample_back_edge pool tin tout 0) =
      sample_calldata_hop sample_back_edge pool tin tout 1972092"
    for hop pool tin tout a
    by (simp_all add: chained_hop_def is_v2_hop_def sample_calldata_hop_def edges)
  obtain c1 where "encode_v2_hop abi sample_pairs_arena (sample_calldata_hop sample_v2_edge 0x30000 10 20 1000000)
      (ch_pool_address (sample_calldata_hop sample_back_edge 0x30001 20 10 0)) 0xee0000 50 PrefundExact cs = Some (Inr (c1, 1972092), cs)"
    using v2(1) by blast
  then have c1: "encode_pair_step abi sample_pairs_arena 0xee0000 \<lparr>re_slippage_bps = 50, re_deadline = 9\<rparr> True None
      (sample_calldata_hop sample_v2_edge 0x30000 10 20 1000000) (Some (sample_calldata_hop sample_back_edge 0x30001 20 10 0)) cs =
      Some (Inr (c1, Some 1972092, ch_pool_address (sample_calldata_hop sample_back_edge 0x30001 20 10 0)), cs)"
    by (simp add: encode_pair_step_def chained and_then_def)
  obtain c2 where "encode_v2_hop abi sample_pairs_arena (sample_calldata_hop sample_back_edge 0x30001 20 10 1972092)
      0xee0000 0xee0000 50 PrefundSkipped cs = Some (Inr (c2, 1166760), cs)"
    using v2(2) by blast
  then have c2: "encode_pair_step abi sample_pairs_arena 0xee0000 \<lparr>re_slippage_bps = 50, re_deadline = 9\<rparr> False
      (Some (ch_pool_address (sample_calldata_hop sample_back_edge 0x30001 20 10 0)))
      (sample_calldata_hop sample_back_edge 0x30001 20 10 1972092) None cs = Some (Inr (c2, Some 1166760, 0xee0000), cs)"
    by (simp add: encode_pair_step_def and_then_def) (simp add: sample_calldata_hop_def)
  show ?thesis
    by (simp add: encode_route_def validate_flash_hop_compatibility_def sample_hops_def chained c1 c2 and_then_def)
qed

theorem encoded_route_funded_witness:
  "\<exists>calls led cs'. encode_route sample_abi sample_pairs_arena sample_hops 0xee0000 \<lparr>re_slippage_bps = 50, re_deadline = 9\<rparr> FlAaveV3
       no_stats = Some (Inr calls, cs') \<and>
     run_calls sample_decode 0xee0000 calls \<lparr>ld_at = 0xee0000, ld_holds = Some 1000000, ld_allowed = None\<rparr> = Some led \<and>
     ld_at led = 0xee0000"
proof -
  let ?hop = "sample_calldata_hop sample_v2_edge 0x30000 10 20 1000000"
  let ?rest = "[sample_calldata_hop sample_back_edge 0x30001 20 10 0]"
  obtain calls where run: "encode_route sample_abi sample_pairs_arena (?hop # ?rest) 0xee0000
      \<lparr>re_slippage_bps = 50, re_deadline = 9\<rparr> FlAaveV3 no_stats = Some (Inr calls, no_stats)"
    using sample_encoded unfolding sample_hops_def by blast
  have "ch_amount_in ?hop \<le> 1000000"
    by (simp add: sample_calldata_hop_def)
  from encoded_route_funded [OF run sample_decodes this] run show ?thesis
    unfolding sample_hops_def by blast
qed

theorem encoded_calls_within_budget_witness:
  "\<exists>calls cs'. encode_route sample_abi sample_pairs_arena sample_hops 0xee0000 \<lparr>re_slippage_bps = 50, re_deadline = 9\<rparr> FlAaveV3
       no_stats = Some (Inr calls, cs') \<and>
     length calls \<le> 3 \<and> pack_executor_calls calls \<noteq> Inl (TooManyCalls (length calls))"
proof -
  obtain calls where run: "encode_route sample_abi sample_pairs_arena sample_hops 0xee0000
      \<lparr>re_slippage_bps = 50, re_deadline = 9\<rparr> FlAaveV3 no_stats = Some (Inr calls, no_stats)"
    using sample_encoded by blast
  have edges: "map ch_edge sample_hops = [sample_v2_edge, sample_back_edge]"
    by (simp add: sample_hops_def sample_calldata_hop_def)
  have proto: "e_protocol sample_v2_edge = UniswapV2" "e_protocol sample_back_edge = UniswapV2"
    by (simp_all add: sample_back_edge_def sample_v2_edge_def)
  have "\<not> balancer_direct_batch_eligible (map ch_edge sample_hops)"
    by (simp add: edges balancer_direct_batch_eligible_def proto)
  then have "estimate_packed_route_calls (map ch_edge sample_hops) = 3"
    by (simp add: estimate_packed_route_calls_def estimate_route_calls_def edges proto)
  with encoded_calls_within_budget [OF run] run \<open>\<not> balancer_direct_batch_eligible (map ch_edge sample_hops)\<close> show ?thesis
    by (auto simp: route_fits_executor_def packed_calls_fit_executor_def MAX_EXECUTOR_CALLS_def)
qed

section \<open>Built hops\<close>

definition hop_built :: "StateArena \<Rightarrow> Edge \<Rightarrow> u256 \<Rightarrow> u256 \<Rightarrow> CalldataHop \<Rightarrow> bool" where
  "hop_built arena edge amount_in amount_out hop \<longleftrightarrow>
     e_pool_index (ch_edge hop) = e_pool_index edge \<and> e_protocol (ch_edge hop) = e_protocol edge \<and>
     pool_address arena (e_pool_index edge) = Some (ch_pool_address hop) \<and>
     token_address arena (e_token_in edge) = Some (ch_token_in hop) \<and>
     token_address arena (e_token_out edge) = Some (ch_token_out hop) \<and>
     is_plausible_contract_address (ch_pool_address hop) \<and>
     ch_amount_in hop = amount_in \<and> ch_amount_out hop = amount_out \<and>
     (uniswap_protocol (e_protocol edge) \<longrightarrow> e_zero_for_one (ch_edge hop) = (ch_token_in hop < ch_token_out hop))"

lemma finish_hop_fields:
  assumes "finish_hop arena i edge meta pool token_in token_out amount_in amount_out = Inr hop"
  shows "ch_edge hop = edge" "ch_pool_address hop = pool" "ch_token_in hop = token_in" "ch_token_out hop = token_out"
    "ch_amount_in hop = amount_in" "ch_amount_out hop = amount_out"
  using assms by (auto simp: finish_hop_def Let_def split: if_split_asm)

lemma remap_curve_edge_keeps:
  assumes "remap_curve_edge arena i edge meta token_in token_out = Inr edge'"
  shows "e_pool_index edge' = e_pool_index edge" "e_protocol edge' = e_protocol edge"
    "e_zero_for_one edge' = e_zero_for_one edge"
  using assms by (auto simp: remap_curve_edge_def split: option.split_asm if_split_asm)

lemma build_calldata_hop_built:
  assumes "build_calldata_hop arena metas i edge amount_in amount_out = Inr hop"
  shows "hop_built arena edge amount_in amount_out hop"
proof -
  obtain pool token_in token_out edge' where
    addrs: "pool_address arena (e_pool_index edge) = Some pool" "token_address arena (e_token_in edge) = Some token_in"
      "token_address arena (e_token_out edge) = Some token_out" "is_plausible_contract_address pool"
    and zfo: "uniswap_protocol (e_protocol edge) \<longrightarrow> e_zero_for_one edge = (token_in < token_out)"
    and remap: "remap_curve_edge arena i edge (metas (e_pool_index edge)) token_in token_out = Inr edge'"
    and finish: "finish_hop arena i edge' (metas (e_pool_index edge)) pool token_in token_out amount_in amount_out = Inr hop"
    using assms by (auto simp: build_calldata_hop_def Let_def split: option.split_asm if_split_asm sum.split_asm)
  show ?thesis
    using addrs zfo by (simp add: hop_built_def finish_hop_fields [OF finish] remap_curve_edge_keeps [OF remap])
qed

lemma build_hops_loop_built:
  assumes "build_hops_loop arena metas i edges amounts = Inr hops" "length amounts = length edges + 1"
  shows "length hops = length edges \<and>
    (\<forall>k < length edges. hop_built arena (edges ! k) (amounts ! k) (amounts ! Suc k) (hops ! k))"
  using assms
proof (induction arena metas i edges amounts arbitrary: hops rule: build_hops_loop.induct)
  case (1 arena metas i edge edges amount_in amount_out amounts)
  then obtain hop rest where hop: "build_calldata_hop arena metas i edge amount_in amount_out = Inr hop"
    and rest: "build_hops_loop arena metas (Suc i) edges (amount_out # amounts) = Inr rest" and hops: "hops = hop # rest"
    by (auto split: sum.split_asm)
  have "length rest = length edges \<and>
    (\<forall>k < length edges. hop_built arena (edges ! k) ((amount_out # amounts) ! k) ((amount_out # amounts) ! Suc k) (rest ! k))"
    using "1.IH" [OF hop rest] "1.prems"(2) by simp
  then show ?case
    using build_calldata_hop_built [OF hop] by (auto simp: hops nth_Cons split: nat.split)
qed auto

lemma no_break_chains:
  assumes "first_hop_continuity_break_in_arena arena edges = None" "Suc k < length edges"
  shows "hops_chain arena (edges ! k) (edges ! Suc k)"
  using assms
  by (induction arena edges arbitrary: k rule: first_hop_continuity_break_in_arena.induct)
     (auto simp: nth_Cons split: if_split_asm nat.split)

text \<open>
  Property C40. The hops built for a route are those of its edges and of the simulated amounts, in order: each names the
  pool and the tokens of its edge by address and carries the amounts on both sides, every hop is paid in the token
  the next one takes, and the direction of a Uniswap hop is the one its pool derives from the token order, so that the
  encoders never refuse it.
\<close>

theorem calldata_hops_follow_route:
  assumes "build_calldata_hops arena edges amounts metas = Inr hops"
  shows "length hops = length edges \<and>
    (\<forall>k < length edges. hop_built arena (edges ! k) (amounts ! k) (amounts ! Suc k) (hops ! k)) \<and>
    (\<forall>k. Suc k < length hops \<longrightarrow>
       ch_token_out (hops ! k) = ch_token_in (hops ! Suc k) \<and> ch_amount_out (hops ! k) = ch_amount_in (hops ! Suc k))"
proof -
  have loop: "build_hops_loop arena metas 0 edges amounts = Inr hops" "length amounts = length edges + 1"
    and chain: "first_hop_continuity_break_in_arena arena edges = None"
    using assms by (auto simp: build_calldata_hops_def split: if_split_asm)
  have built: "length hops = length edges"
    "\<And>k. k < length edges \<Longrightarrow> hop_built arena (edges ! k) (amounts ! k) (amounts ! Suc k) (hops ! k)"
    using build_hops_loop_built [OF loop] by auto
  have "ch_token_out (hops ! k) = ch_token_in (hops ! Suc k) \<and> ch_amount_out (hops ! k) = ch_amount_in (hops ! Suc k)"
    if "Suc k < length hops" for k
    using built(2) [of k] built(2) [of "Suc k"] no_break_chains [OF chain, of k] that built(1)
    by (simp add: hop_built_def hops_chain_def)
  with built show ?thesis
    by blast
qed

definition sample_pool_meta :: "u32 \<Rightarrow> PoolMeta" where
  "sample_pool_meta index = \<lparr>pm_pool_index = index, pm_protocol = UniswapV2, pm_tokens = [0, 1], pm_fee_bps = 30,
     pm_bpt_index = None, pm_pool_id = None, pm_protocol_label = Some ''UNISWAP_V2'', pm_pool_type = None, pm_hooks = None,
     pm_tick_spacing = None\<rparr>"

definition sample_route_arena :: StateArena where
  "sample_route_arena = sample_pairs_arena\<lparr>ar_tokens := [0x10000, 0x20000], ar_pool_addresses := [0x30000, 0x30001]\<rparr>"

lemma sample_built:
  "\<exists>hops. build_calldata_hops sample_route_arena sample_route [1000000, 1992013, 1190440] (\<lambda>i. Some (sample_pool_meta i)) = Inr hops"
proof -
  have "is_known_protocol_label ''UNISWAP_V2''"
    by (simp add: is_known_protocol_label_def contains_ignore_case_def ascii_lower_def Let_def)
  then show ?thesis
    by (simp add: build_calldata_hops_def sample_route_def sample_back_edge_def sample_v2_edge_def hops_chain_def
        sample_route_arena_def sample_pairs_arena_def token_address_def pool_address_def nth_opt_def build_calldata_hop_def
        is_plausible_contract_address_def uniswap_protocol_def check_hop_meta_def sample_pool_meta_def meta_has_def
        remap_curve_edge_def curve_protocol_def finish_hop_def Let_def)
qed

theorem calldata_hops_follow_route_witness:
  "\<exists>hops. build_calldata_hops sample_route_arena sample_route [1000000, 1992013, 1190440] (\<lambda>i. Some (sample_pool_meta i)) = Inr hops \<and>
     ch_token_out (hops ! 0) = ch_token_in (hops ! 1) \<and> ch_amount_out (hops ! 0) = ch_amount_in (hops ! 1)"
proof -
  obtain hops where run: "build_calldata_hops sample_route_arena sample_route [1000000, 1992013, 1190440]
      (\<lambda>i. Some (sample_pool_meta i)) = Inr hops"
    using sample_built by blast
  have "length sample_route = 2"
    by (simp add: sample_route_def)
  with calldata_hops_follow_route [OF run] run show ?thesis
    by auto
qed

end
