(* ===== verification/RiskGate.thy ===== *)
theory RiskGate
  imports Profit
begin

text \<open>
  The risk state of the execution service, \<open>src/services/execution/service/\<close>: cooldowns, quarantines and
  claims of routes (\<open>risk.rs\<close>), what was learned of a route (\<open>route_stats.rs\<close>), and the realized profit
  and loss with its daily limit (\<open>pnl.rs\<close>).

  The state is one record with the fields these files read and write. The clock is an argument: an
  \<open>Instant\<close> and a \<open>Duration\<close> are numbers of milliseconds, \<open>saturating_duration_since\<close> is subtraction on
  \<^typ>\<open>nat\<close>. Each function is one step; the locks of the code make it so where a function takes one lock,
  and where it takes several in turn the model is the run without another thread in between. The counters
  that are \<open>static\<close> in the code are fields. Events go to a log instead of the writer thread, whose bounded
  queue and file are not modelled.
\<close>

section \<open>State\<close>

record RouteStats =
  st_successes :: u64
  st_dry_run_successes :: u64
  st_failures :: u64
  st_dry_run_failures :: u64
  st_submit_failures :: u64
  st_receipt_timeouts :: u64
  st_reverts :: u64
  st_realized_losses :: u64
  st_adaptive_flash_loan_usd :: "u64 option"

definition default_route_stats :: RouteStats where
  "default_route_stats = \<lparr>st_successes = 0, st_dry_run_successes = 0, st_failures = 0, st_dry_run_failures = 0,
     st_submit_failures = 0, st_receipt_timeouts = 0, st_reverts = 0, st_realized_losses = 0,
     st_adaptive_flash_loan_usd = None\<rparr>"

datatype RouteFailureKind = DryRun | Submit | Timeout | Revert | RealizedLoss

datatype RouteStatsEvent = Success | DryRunPass | Failure RouteFailureKind | AdaptiveFlashCap u64

text \<open>\<open>i128\<close> totals are integers, saturated where the code saturates.\<close>

record PnlState =
  pnl_total :: int
  pnl_daily :: int
  pnl_daily_utc_day :: u32

record ExecutionService =
  es_last_submit :: "Edge list \<Rightarrow> nat option"
  es_quarantine :: "Edge list \<Rightarrow> nat option"
  es_assess_inflight :: "Edge list \<Rightarrow> nat option"
  es_route_hash_quarantine :: "u256 \<Rightarrow> nat option"
  es_direct_token_quarantine :: "address \<Rightarrow> nat option"
  es_underwater_strikes :: "Edge list \<Rightarrow> (u32 \<times> nat) option"
  es_global_quarantine_until :: "nat option"
  es_fail_counts :: "Edge list \<Rightarrow> u32 option"
  es_pnl :: PnlState
  es_total_trades :: u64
  es_total_losses :: u64
  es_consecutive_fails :: u32
  es_max_daily_loss :: "u256 option"
  es_route_stats :: "Edge list \<Rightarrow> RouteStats option"
  es_last_near_miss_log :: "nat option"
  es_last_dispatch_log :: "(u64 \<times> u256) option"
  es_last_prepare_skip_log :: "u64 option"
  es_prepare_skip_counts :: "u64 \<Rightarrow> u32 option"
  es_claims :: u32
  es_inserts :: u32
  es_events :: "(Edge list \<times> u64 \<times> RouteStatsEvent) list"

abbreviation secs :: "nat \<Rightarrow> nat" where "secs n \<equiv> n * 1000"

definition ROUTE_COOLDOWN :: nat where "ROUTE_COOLDOWN = secs 30"
definition DRY_RUN_PASS_COOLDOWN :: nat where "DRY_RUN_PASS_COOLDOWN = secs 120"
definition ROUTE_ASSESS_CLAIM_TTL :: nat where "ROUTE_ASSESS_CLAIM_TTL = secs 3"
definition CHRONIC_UNDERWATER_COVER_BPS :: u64 where "CHRONIC_UNDERWATER_COVER_BPS = 10000"
definition CHRONIC_UNDERWATER_MIN_AVAILABLE_MATIC_WEI :: u128 where
  "CHRONIC_UNDERWATER_MIN_AVAILABLE_MATIC_WEI = 10 ^ 15"
definition CHRONIC_UNDERWATER_STRIKES :: u32 where "CHRONIC_UNDERWATER_STRIKES = 3"
definition CHRONIC_UNDERWATER_STRIKE_WINDOW :: nat where "CHRONIC_UNDERWATER_STRIKE_WINDOW = secs 120"
definition CHRONIC_UNDERWATER_MIN_COVER_BPS :: u64 where "CHRONIC_UNDERWATER_MIN_COVER_BPS = 25"
definition BATCH_QUERY_FAIL_QUARANTINE :: nat where "BATCH_QUERY_FAIL_QUARANTINE = secs 600"
definition DIRECT_TOKEN_ZERO_REALIZED_QUARANTINE :: nat where "DIRECT_TOKEN_ZERO_REALIZED_QUARANTINE = secs 1800"
definition KNOWN_FOT_TOKENS :: "address list" where
  "KNOWN_FOT_TOKENS = [0xeB51D9A39AD5EEF215dC0Bf39a8821ff804A0F01, 0xd93f7E271cB87c23AaA73edC008A79646d1F9912]"
definition KNOWN_FOT_SEED_TTL :: nat where "KNOWN_FOT_SEED_TTL = secs (7 * 24 * 3600)"
definition STRUCTURAL_DRY_RUN_QUARANTINE :: nat where "STRUCTURAL_DRY_RUN_QUARANTINE = secs 600"
definition PROBE_BELOW_FLOOR_QUARANTINE :: nat where "PROBE_BELOW_FLOOR_QUARANTINE = secs 300"
definition CHRONIC_UNDERWATER_QUARANTINE :: nat where
  "CHRONIC_UNDERWATER_QUARANTINE = STRUCTURAL_DRY_RUN_QUARANTINE"
definition CHRONIC_THIN_LIQ_QUARANTINE :: nat where "CHRONIC_THIN_LIQ_QUARANTINE = secs 3600"
definition CHRONIC_NEAR_MISS_QUARANTINE :: nat where "CHRONIC_NEAR_MISS_QUARANTINE = secs 30"
definition CHRONIC_HIGH_COVER_BPS :: u64 where "CHRONIC_HIGH_COVER_BPS = 7500"
definition CHRONIC_MID_BAND_QUARANTINE :: nat where "CHRONIC_MID_BAND_QUARANTINE = secs 90"
definition CHRONIC_THIN_LIQ_AVAILABLE_MATIC_WEI :: u128 where "CHRONIC_THIN_LIQ_AVAILABLE_MATIC_WEI = 5 * 10 ^ 16"
definition CHRONIC_DUST_AVAILABLE_MATIC_WEI :: u128 where "CHRONIC_DUST_AVAILABLE_MATIC_WEI = 10 ^ 16"
definition CHRONIC_NEAR_MISS_COVER_BPS :: u64 where "CHRONIC_NEAR_MISS_COVER_BPS = 500"
definition PERMANENT_QUARANTINE :: nat where "PERMANENT_QUARANTINE = secs 3600"
definition MAX_CONSECUTIVE_FAILURES :: u32 where "MAX_CONSECUTIVE_FAILURES = 5"
definition ADAPTIVE_FLASH_CAP_START_DIVISOR :: u64 where "ADAPTIVE_FLASH_CAP_START_DIVISOR = 4"

definition new_execution_service :: "nat \<Rightarrow> u256 option \<Rightarrow> ExecutionService" where
  "new_execution_service now max_daily_loss =
     \<lparr>es_last_submit = (\<lambda>_. None), es_quarantine = (\<lambda>_. None), es_assess_inflight = (\<lambda>_. None),
      es_route_hash_quarantine = (\<lambda>_. None),
      es_direct_token_quarantine = map_of (map (\<lambda>t. (t, now + KNOWN_FOT_SEED_TTL)) KNOWN_FOT_TOKENS),
      es_underwater_strikes = (\<lambda>_. None), es_global_quarantine_until = None, es_fail_counts = (\<lambda>_. None),
      es_pnl = \<lparr>pnl_total = 0, pnl_daily = 0, pnl_daily_utc_day = 0\<rparr>, es_total_trades = 0, es_total_losses = 0,
      es_consecutive_fails = 0, es_max_daily_loss = max_daily_loss, es_route_stats = (\<lambda>_. None),
      es_last_near_miss_log = None, es_last_dispatch_log = None, es_last_prepare_skip_log = None,
      es_prepare_skip_counts = (\<lambda>_. None), es_claims = 0, es_inserts = 0, es_events = []\<rparr>"

section \<open>Quarantines of routes\<close>

text \<open>\<open>is_some_and\<close> of an expiry: the entry is active.\<close>

definition active_at :: "nat \<Rightarrow> nat option \<Rightarrow> bool" where
  "active_at now entry = (case entry of Some expiry \<Rightarrow> now < expiry | None \<Rightarrow> False)"

definition any_quarantined :: "ExecutionService \<Rightarrow> nat \<Rightarrow> Edge list list \<Rightarrow> bool" where
  "any_quarantined es now routes = list_ex (\<lambda>edges. active_at now (es_quarantine es edges)) routes"

definition is_route_quarantined :: "ExecutionService \<Rightarrow> nat \<Rightarrow> Edge list \<Rightarrow> bool" where
  "is_route_quarantined es now edges = any_quarantined es now [edges]"

text \<open>The rotations of a route, in the order the code visits them.\<close>

definition edge_rotations :: "Edge list \<Rightarrow> Edge list list" where
  "edge_rotations edges = map (\<lambda>i. rotate i edges) [0..<length edges]"

definition any_edge_rotation :: "Edge list \<Rightarrow> (Edge list \<Rightarrow> bool) \<Rightarrow> bool" where
  "any_edge_rotation edges predicate = list_ex predicate (edge_rotations edges)"

definition for_each_edge_rotation :: "Edge list \<Rightarrow> (Edge list \<Rightarrow> 's \<Rightarrow> 's) \<Rightarrow> 's \<Rightarrow> 's" where
  "for_each_edge_rotation edges visit s = fold visit (edge_rotations edges) s"

definition cycle_edges_quarantined :: "ExecutionService \<Rightarrow> nat \<Rightarrow> Edge list \<Rightarrow> bool" where
  "cycle_edges_quarantined es now edges =
     any_edge_rotation edges (\<lambda>rotation. active_at now (es_quarantine es rotation))"

definition retain_active :: "nat \<Rightarrow> ('k \<Rightarrow> nat option) \<Rightarrow> 'k \<Rightarrow> nat option" where
  "retain_active now m k = (case m k of Some expiry \<Rightarrow> if expiry > now then Some expiry else None | None \<Rightarrow> None)"

definition try_claim_route_assess :: "nat \<Rightarrow> Edge list \<Rightarrow> ExecutionService \<Rightarrow> bool \<times> ExecutionService" where
  "try_claim_route_assess now edges es =
     (if edges = [] \<or> cycle_edges_quarantined es now edges then (False, es)
      else if any_edge_rotation edges (\<lambda>rotation. active_at now (es_assess_inflight es rotation)) then (False, es)
      else
        let inflight = (if es_claims es mod 32 = 0 then retain_active now (es_assess_inflight es)
                        else es_assess_inflight es);
            until = now + ROUTE_ASSESS_CLAIM_TTL
        in (True, es\<lparr>es_claims := es_claims es + 1,
                     es_assess_inflight :=
                       for_each_edge_rotation edges (\<lambda>rotation m. m(rotation \<mapsto> until)) inflight\<rparr>))"

definition is_route_hash_quarantined :: "ExecutionService \<Rightarrow> nat \<Rightarrow> u256 \<Rightarrow> bool" where
  "is_route_hash_quarantined es now route_hash = active_at now (es_route_hash_quarantine es route_hash)"

definition quarantine_insert :: "nat \<Rightarrow> Edge list \<Rightarrow> nat \<Rightarrow> ExecutionService \<Rightarrow> ExecutionService" where
  "quarantine_insert now edges until es =
     (let q = (if es_inserts es mod 32 = 0 then retain_active now (es_quarantine es) else es_quarantine es)
      in es\<lparr>es_inserts := es_inserts es + 1, es_quarantine := q(edges \<mapsto> until)\<rparr>)"

definition route_cooldown :: "bool \<Rightarrow> nat" where
  "route_cooldown is_dry_run = (if is_dry_run then DRY_RUN_PASS_COOLDOWN else ROUTE_COOLDOWN)"

definition is_route_on_cooldown :: "ExecutionService \<Rightarrow> nat \<Rightarrow> Edge list \<Rightarrow> bool \<Rightarrow> bool" where
  "is_route_on_cooldown es now edges is_dry_run =
     (case es_last_submit es edges of Some t \<Rightarrow> now - t < route_cooldown is_dry_run | None \<Rightarrow> False)"

definition quarantine_route_hash :: "u256 \<Rightarrow> nat \<Rightarrow> ExecutionService \<Rightarrow> ExecutionService" where
  "quarantine_route_hash route_hash now es =
     es\<lparr>es_route_hash_quarantine := (es_route_hash_quarantine es)(route_hash \<mapsto> now + STRUCTURAL_DRY_RUN_QUARANTINE)\<rparr>"

definition should_log_near_miss :: "nat \<Rightarrow> ExecutionService \<Rightarrow> bool \<times> ExecutionService" where
  "should_log_near_miss now es =
     (case es_last_near_miss_log es of
        Some prev \<Rightarrow> if now - prev < secs 30 then (False, es) else (True, es\<lparr>es_last_near_miss_log := Some now\<rparr>)
      | None \<Rightarrow> (True, es\<lparr>es_last_near_miss_log := Some now\<rparr>))"

definition should_log_dispatch :: "u64 \<Rightarrow> u256 \<Rightarrow> ExecutionService \<Rightarrow> bool \<times> ExecutionService" where
  "should_log_dispatch fingerprint profit_matic es =
     (if es_last_dispatch_log es = Some (fingerprint, profit_matic) then (False, es)
      else (True, es\<lparr>es_last_dispatch_log := Some (fingerprint, profit_matic)\<rparr>))"

definition should_log_prepare_skip :: "u64 \<Rightarrow> ExecutionService \<Rightarrow> bool \<times> ExecutionService" where
  "should_log_prepare_skip fingerprint es =
     (if es_last_prepare_skip_log es = Some fingerprint then (False, es)
      else (True, es\<lparr>es_last_prepare_skip_log := Some fingerprint\<rparr>))"

definition quarantine_batch_query_failure :: "nat \<Rightarrow> Edge list \<Rightarrow> u64 \<Rightarrow> ExecutionService \<Rightarrow> ExecutionService" where
  "quarantine_batch_query_failure now edges fingerprint es =
     (let es = quarantine_insert now edges (now + BATCH_QUERY_FAIL_QUARANTINE) es
      in es\<lparr>es_prepare_skip_counts := (es_prepare_skip_counts es)(fingerprint := None)\<rparr>)"

definition quarantine_extend_until :: "Edge list \<Rightarrow> nat \<Rightarrow> ExecutionService \<Rightarrow> ExecutionService" where
  "quarantine_extend_until edges until es =
     (case es_quarantine es edges of
        Some expiry \<Rightarrow> if expiry < until then es\<lparr>es_quarantine := (es_quarantine es)(edges \<mapsto> until)\<rparr> else es
      | None \<Rightarrow> es\<lparr>es_quarantine := (es_quarantine es)(edges \<mapsto> until)\<rparr>)"

text \<open>The same body as the extension, with a fixed cooldown.\<close>

definition quarantine_stale_route :: "nat \<Rightarrow> Edge list \<Rightarrow> ExecutionService \<Rightarrow> ExecutionService" where
  "quarantine_stale_route now edges es = quarantine_extend_until edges (now + ROUTE_COOLDOWN) es"

definition quarantine_probe_below_dispatch_floor ::
    "nat \<Rightarrow> Edge list \<Rightarrow> ExecutionService \<Rightarrow> bool \<times> ExecutionService" where
  "quarantine_probe_below_dispatch_floor now edges es =
     (if active_at now (es_quarantine es edges) then (False, es)
      else (True, es\<lparr>es_quarantine := (es_quarantine es)(edges \<mapsto> now + PROBE_BELOW_FLOOR_QUARANTINE)\<rparr>))"

definition quarantine_direct_token_zero_realized :: "nat \<Rightarrow> address \<Rightarrow> ExecutionService \<Rightarrow> ExecutionService" where
  "quarantine_direct_token_zero_realized now token es =
     es\<lparr>es_direct_token_quarantine :=
          (es_direct_token_quarantine es)(token \<mapsto> now + DIRECT_TOKEN_ZERO_REALIZED_QUARANTINE)\<rparr>"

definition is_direct_token_quarantined :: "ExecutionService \<Rightarrow> nat \<Rightarrow> address \<Rightarrow> bool" where
  "is_direct_token_quarantined es now token = active_at now (es_direct_token_quarantine es token)"

definition cycle_has_quarantined_token :: "ExecutionService \<Rightarrow> nat \<Rightarrow> StateArena \<Rightarrow> Edge list \<Rightarrow> bool" where
  "cycle_has_quarantined_token es now arena edges =
     list_ex (\<lambda>edge. list_ex (\<lambda>ti.
       case token_address arena ti of
         Some addr \<Rightarrow> active_at now (es_direct_token_quarantine es addr)
       | None \<Rightarrow> False) [e_token_in edge, e_token_out edge]) edges"

definition record_prepare_skip :: "u64 \<Rightarrow> ExecutionService \<Rightarrow> ExecutionService" where
  "record_prepare_skip fingerprint es =
     es\<lparr>es_prepare_skip_counts := (es_prepare_skip_counts es)
          (fingerprint \<mapsto> or_default (es_prepare_skip_counts es fingerprint) 0 + 1)\<rparr>"

section \<open>What was learned of a route\<close>

definition write_route_event :: "Edge list \<Rightarrow> u64 \<Rightarrow> RouteStatsEvent \<Rightarrow> ExecutionService \<Rightarrow> ExecutionService" where
  "write_route_event edges fp event es = es\<lparr>es_events := es_events es @ [(edges, fp, event)]\<rparr>"

definition update_stats :: "Edge list \<Rightarrow> (RouteStats \<Rightarrow> RouteStats) \<Rightarrow> ExecutionService \<Rightarrow> ExecutionService" where
  "update_stats edges f es =
     es\<lparr>es_route_stats := (es_route_stats es)(edges \<mapsto> f (or_default (es_route_stats es edges) default_route_stats))\<rparr>"

fun count_failure :: "RouteFailureKind \<Rightarrow> RouteStats \<Rightarrow> RouteStats" where
  "count_failure DryRun st = st\<lparr>st_failures := st_failures st + 1, st_dry_run_failures := st_dry_run_failures st + 1\<rparr>"
| "count_failure Submit st = st\<lparr>st_failures := st_failures st + 1, st_submit_failures := st_submit_failures st + 1\<rparr>"
| "count_failure Timeout st = st\<lparr>st_failures := st_failures st + 1, st_receipt_timeouts := st_receipt_timeouts st + 1\<rparr>"
| "count_failure Revert st = st\<lparr>st_failures := st_failures st + 1, st_reverts := st_reverts st + 1\<rparr>"
| "count_failure RealizedLoss st = st\<lparr>st_failures := st_failures st + 1, st_realized_losses := st_realized_losses st + 1\<rparr>"

definition record_route_failure :: "Edge list \<Rightarrow> u64 \<Rightarrow> RouteFailureKind \<Rightarrow> ExecutionService \<Rightarrow> ExecutionService" where
  "record_route_failure edges fp kind es =
     write_route_event edges fp (Failure kind) (update_stats edges (count_failure kind) es)"

definition record_route_success :: "Edge list \<Rightarrow> u64 \<Rightarrow> ExecutionService \<Rightarrow> ExecutionService" where
  "record_route_success edges fp es =
     write_route_event edges fp Success (update_stats edges (\<lambda>st. st\<lparr>st_successes := st_successes st + 1\<rparr>) es)"

definition record_route_dry_run_pass :: "Edge list \<Rightarrow> u64 \<Rightarrow> ExecutionService \<Rightarrow> ExecutionService" where
  "record_route_dry_run_pass edges fp es =
     write_route_event edges fp DryRunPass
       (update_stats edges (\<lambda>st. st\<lparr>st_dry_run_successes := st_dry_run_successes st + 1\<rparr>) es)"

definition quarantine_route ::
    "nat \<Rightarrow> Edge list \<Rightarrow> u64 \<Rightarrow> RouteFailureKind \<Rightarrow> ExecutionService \<Rightarrow> ExecutionService" where
  "quarantine_route now edges fp kind es =
     (let es = record_route_failure edges fp kind es;
          count = or_default (es_fail_counts es edges) 0 + 1;
          es = es\<lparr>es_fail_counts := (es_fail_counts es)(edges \<mapsto> count)\<rparr>;
          cooldown = (if count \<ge> MAX_CONSECUTIVE_FAILURES then PERMANENT_QUARANTINE else ROUTE_COOLDOWN)
      in quarantine_insert now edges (now + cooldown) es)"

definition quarantine_route_soft :: "nat \<Rightarrow> Edge list \<Rightarrow> ExecutionService \<Rightarrow> ExecutionService" where
  "quarantine_route_soft now edges es = quarantine_insert now edges (now + ROUTE_COOLDOWN) es"

definition clear_fail_count :: "Edge list \<Rightarrow> u64 \<Rightarrow> ExecutionService \<Rightarrow> ExecutionService" where
  "clear_fail_count edges fp es =
     record_route_success edges fp (es\<lparr>es_fail_counts := (es_fail_counts es)(edges := None)\<rparr>)"

section \<open>Routes that win while they lose\<close>

definition chronic_cover_bps :: "u64 \<Rightarrow> u256 \<Rightarrow> u64" where
  "chronic_cover_bps gas_cover_bps available =
     (if available < ucast CHRONIC_UNDERWATER_MIN_AVAILABLE_MATIC_WEI \<or>
         (available < ucast CHRONIC_THIN_LIQ_AVAILABLE_MATIC_WEI \<and> gas_cover_bps \<ge> CHRONIC_UNDERWATER_COVER_BPS)
      then min gas_cover_bps (saturating_sub CHRONIC_UNDERWATER_COVER_BPS 1)
      else gas_cover_bps)"

definition underwater_strike :: "nat \<Rightarrow> Edge list \<Rightarrow> ExecutionService \<Rightarrow> u32 \<times> ExecutionService" where
  "underwater_strike now edges es =
     (let (count, since) = or_default (es_underwater_strikes es edges) (0, now);
          count = (if now - since > CHRONIC_UNDERWATER_STRIKE_WINDOW then 0 else count);
          count = saturating_add count 1
      in (count, es\<lparr>es_underwater_strikes := (es_underwater_strikes es)(edges \<mapsto> (count, now))\<rparr>))"

definition near_miss :: "u64 \<Rightarrow> u256 \<Rightarrow> bool" where
  "near_miss gas_cover_bps available \<longleftrightarrow>
     gas_cover_bps \<ge> CHRONIC_NEAR_MISS_COVER_BPS \<and> available \<ge> ucast CHRONIC_DUST_AVAILABLE_MATIC_WEI"

definition high_cover_near_miss :: "u64 \<Rightarrow> u256 \<Rightarrow> bool" where
  "high_cover_near_miss gas_cover_bps available \<longleftrightarrow>
     gas_cover_bps \<ge> CHRONIC_HIGH_COVER_BPS \<and> available \<ge> ucast CHRONIC_DUST_AVAILABLE_MATIC_WEI"

definition mid_band :: "u64 \<Rightarrow> u256 \<Rightarrow> bool" where
  "mid_band gas_cover_bps available \<longleftrightarrow>
     gas_cover_bps \<ge> CHRONIC_NEAR_MISS_COVER_BPS \<and>
     available \<ge> ucast CHRONIC_UNDERWATER_MIN_AVAILABLE_MATIC_WEI \<and>
     available < ucast CHRONIC_DUST_AVAILABLE_MATIC_WEI"

definition strikes_needed :: "u64 \<Rightarrow> u64 \<Rightarrow> u256 \<Rightarrow> u32" where
  "strikes_needed gas_cover_bps cover_bps available =
     (let thin_first_strike =
            (available < ucast CHRONIC_DUST_AVAILABLE_MATIC_WEI \<or>
             (available < ucast CHRONIC_THIN_LIQ_AVAILABLE_MATIC_WEI \<and> cover_bps < CHRONIC_NEAR_MISS_COVER_BPS))
      in if thin_first_strike \<or> mid_band gas_cover_bps available \<or>
            (near_miss gas_cover_bps available \<and> \<not> high_cover_near_miss gas_cover_bps available)
         then 1 else CHRONIC_UNDERWATER_STRIKES)"

definition chronic_ttl :: "u64 \<Rightarrow> u256 \<Rightarrow> nat" where
  "chronic_ttl gas_cover_bps available =
     (if available < ucast CHRONIC_UNDERWATER_MIN_AVAILABLE_MATIC_WEI then CHRONIC_THIN_LIQ_QUARANTINE
      else if near_miss gas_cover_bps available then CHRONIC_NEAR_MISS_QUARANTINE
      else if mid_band gas_cover_bps available then CHRONIC_MID_BAND_QUARANTINE
      else CHRONIC_UNDERWATER_QUARANTINE)"

definition quarantine_chronic_gas_underwater ::
    "nat \<Rightarrow> Edge list \<Rightarrow> u64 \<Rightarrow> u256 \<Rightarrow> ExecutionService \<Rightarrow> nat option \<times> ExecutionService" where
  "quarantine_chronic_gas_underwater now edges gas_cover_bps available es =
     (let cover_bps = chronic_cover_bps gas_cover_bps available
      in if \<not> (CHRONIC_UNDERWATER_MIN_COVER_BPS \<le> cover_bps \<and> cover_bps < CHRONIC_UNDERWATER_COVER_BPS) then (None, es)
         else if active_at now (es_quarantine es edges) then (None, es)
         else
           let (strikes, es) = underwater_strike now edges es
           in if strikes < strikes_needed gas_cover_bps cover_bps available then (None, es)
              else
                let es = es\<lparr>es_underwater_strikes := (es_underwater_strikes es)(edges := None)\<rparr>;
                    ttl = chronic_ttl gas_cover_bps available
                in (Some ttl, quarantine_insert now edges (now + ttl) es))"

definition quarantine_global :: "nat \<Rightarrow> nat \<Rightarrow> ExecutionService \<Rightarrow> ExecutionService" where
  "quarantine_global duration now es = es\<lparr>es_global_quarantine_until := Some (now + duration)\<rparr>"

definition global_is_quarantined :: "ExecutionService \<Rightarrow> nat \<Rightarrow> bool" where
  "global_is_quarantined es now = active_at now (es_global_quarantine_until es)"

section \<open>Risk multiplier and loan cap\<close>

definition risk_multiplier_bps_from_stats :: "RouteStats option \<Rightarrow> u64" where
  "risk_multiplier_bps_from_stats stats =
     (case stats of
        None \<Rightarrow> 10000
      | Some st \<Rightarrow>
          let attempts = saturating_add (st_successes st) (st_failures st)
          in if attempts < 3 then 10000
             else
               let hard_extra = saturating_add (st_reverts st) (st_realized_losses st);
                   weighted_half = saturating_add
                     (saturating_add (saturating_mul (st_failures st) 2) (saturating_mul hard_extra 2))
                     (st_receipt_timeouts st)
               in min (saturating_add 10000 (saturating_mul weighted_half 10000 div attempts)) 30000)"

definition route_risk_multiplier_bps :: "ExecutionService \<Rightarrow> Edge list \<Rightarrow> u64" where
  "route_risk_multiplier_bps es edges = risk_multiplier_bps_from_stats (es_route_stats es edges)"

definition adaptive_flash_cap_initial :: "u64 \<Rightarrow> u64" where
  "adaptive_flash_cap_initial configured_max_usd =
     saturating_add configured_max_usd (ADAPTIVE_FLASH_CAP_START_DIVISOR - 1) div ADAPTIVE_FLASH_CAP_START_DIVISOR"

definition adaptive_flash_loan_usd_from_stats :: "RouteStats option \<Rightarrow> u64 \<Rightarrow> u64" where
  "adaptive_flash_loan_usd_from_stats stats configured_max_usd =
     min (or_default (Option.bind stats st_adaptive_flash_loan_usd) (adaptive_flash_cap_initial configured_max_usd))
       configured_max_usd"

definition adaptive_flash_loan_usd :: "ExecutionService \<Rightarrow> Edge list \<Rightarrow> u64 \<Rightarrow> u64" where
  "adaptive_flash_loan_usd es edges configured_max_usd =
     adaptive_flash_loan_usd_from_stats (es_route_stats es edges) configured_max_usd"

definition route_learning_snapshot :: "ExecutionService \<Rightarrow> Edge list \<Rightarrow> u64 \<Rightarrow> u64 \<times> u64" where
  "route_learning_snapshot es edges configured_max_usd =
     (risk_multiplier_bps_from_stats (es_route_stats es edges),
      adaptive_flash_loan_usd_from_stats (es_route_stats es edges) configured_max_usd)"

definition set_adaptive_cap :: "Edge list \<Rightarrow> u64 \<Rightarrow> u64 \<Rightarrow> ExecutionService \<Rightarrow> ExecutionService" where
  "set_adaptive_cap edges fp cap es =
     write_route_event edges fp (AdaptiveFlashCap cap)
       (update_stats edges (\<lambda>st. st\<lparr>st_adaptive_flash_loan_usd := Some cap\<rparr>) es)"

definition promote_adaptive_flash_loan_cap ::
    "Edge list \<Rightarrow> u64 \<Rightarrow> u64 \<Rightarrow> ExecutionService \<Rightarrow> (u64 \<times> u64) option \<times> ExecutionService" where
  "promote_adaptive_flash_loan_cap edges fp configured_max_usd es =
     (let initial = adaptive_flash_cap_initial configured_max_usd;
          current = min (or_default (Option.bind (es_route_stats es edges) st_adaptive_flash_loan_usd) initial)
            configured_max_usd;
          next = min (saturating_mul current 2) configured_max_usd
      in if next = current then (None, es) else (Some (current, next), set_adaptive_cap edges fp next es))"

definition demote_adaptive_flash_loan_cap ::
    "Edge list \<Rightarrow> u64 \<Rightarrow> u64 \<Rightarrow> ExecutionService \<Rightarrow> (u64 \<times> u64) option \<times> ExecutionService" where
  "demote_adaptive_flash_loan_cap edges fp configured_max_usd es =
     (let initial = adaptive_flash_cap_initial configured_max_usd;
          current = min (or_default (Option.bind (es_route_stats es edges) st_adaptive_flash_loan_usd) initial)
            configured_max_usd;
          next = min (max (current div 2) initial) configured_max_usd
      in if next \<ge> current then (None, es) else (Some (current, next), set_adaptive_cap edges fp next es))"

section \<open>Realized profit and loss\<close>

definition maybe_roll_daily :: "u32 \<Rightarrow> PnlState \<Rightarrow> PnlState" where
  "maybe_roll_daily today pnl =
     (if pnl_daily_utc_day pnl \<noteq> today then pnl\<lparr>pnl_daily := 0, pnl_daily_utc_day := today\<rparr> else pnl)"

definition record_profit :: "u32 \<Rightarrow> int \<Rightarrow> PnlState \<Rightarrow> PnlState" where
  "record_profit today net pnl =
     (let pnl = maybe_roll_daily today pnl
      in pnl\<lparr>pnl_total := saturate_signed 128 (pnl_total pnl + net),
             pnl_daily := saturate_signed 128 (pnl_daily pnl + net)\<rparr>)"

definition record_loss :: "u32 \<Rightarrow> int \<Rightarrow> PnlState \<Rightarrow> PnlState" where
  "record_loss today loss pnl =
     (let pnl = maybe_roll_daily today pnl
      in pnl\<lparr>pnl_total := saturate_signed 128 (pnl_total pnl - loss),
             pnl_daily := saturate_signed 128 (pnl_daily pnl - loss)\<rparr>)"

definition pnl_snapshot :: "u32 \<Rightarrow> ExecutionService \<Rightarrow> (int \<times> int) \<times> ExecutionService" where
  "pnl_snapshot today es =
     (let pnl = maybe_roll_daily today (es_pnl es)
      in ((pnl_total pnl, pnl_daily pnl), es\<lparr>es_pnl := pnl\<rparr>))"

definition token_profit_to_matic_wei :: "u256 \<Rightarrow> u256 \<Rightarrow> u8 \<Rightarrow> u256 option" where
  "token_profit_to_matic_wei profit rate decimals =
     (if rate < MIN_TOKEN_TO_MATIC_RATE then None
      else do {
        v \<leftarrow> checked_mul profit rate;
        checked_div v (ten_pow_u256 decimals)
      })"

definition enforce_daily_loss_limit_with_daily :: "nat \<Rightarrow> int \<Rightarrow> ExecutionService \<Rightarrow> ExecutionService" where
  "enforce_daily_loss_limit_with_daily now daily es =
     (case es_max_daily_loss es of
        None \<Rightarrow> es
      | Some max_loss \<Rightarrow>
          if daily \<ge> 0 then es
          else if of_int \<bar>daily\<bar> < max_loss then es
          else quarantine_global (secs 3600) now es)"

text \<open>The magnitude of a net result, clamped to the largest \<open>i128\<close>.\<close>

definition clamped_i128 :: "u256 \<Rightarrow> int" where
  "clamped_i128 v = uint (min v (2 ^ 127 - 1))"

definition record_realized :: "nat \<Rightarrow> u32 \<Rightarrow> u256 \<Rightarrow> u256 \<Rightarrow> ExecutionService \<Rightarrow> ExecutionService" where
  "record_realized now today profit_wei gas_cost_wei es =
     (let es =
        (if profit_wei \<ge> gas_cost_wei
         then
           let p = clamped_i128 (saturating_sub profit_wei gas_cost_wei);
               es = es\<lparr>es_consecutive_fails := 0\<rparr>
           in if p > 0
              then es\<lparr>es_pnl := record_profit today p (es_pnl es), es_total_trades := es_total_trades es + 1\<rparr>
              else es\<lparr>es_pnl := maybe_roll_daily today (es_pnl es)\<rparr>
         else
           let loss = clamped_i128 (saturating_sub gas_cost_wei profit_wei)
           in es\<lparr>es_pnl := record_loss today loss (es_pnl es), es_total_losses := es_total_losses es + 1,
                 es_consecutive_fails := es_consecutive_fails es + 1\<rparr>)
      in enforce_daily_loss_limit_with_daily now (pnl_daily (es_pnl es)) es)"

definition record_gas_cost_loss :: "nat \<Rightarrow> u32 \<Rightarrow> u256 \<Rightarrow> ExecutionService \<Rightarrow> ExecutionService" where
  "record_gas_cost_loss now today gas_cost_wei es =
     (if gas_cost_wei = 0 then es else record_realized now today 0 gas_cost_wei es)"

section \<open>Runs of the service\<close>

text \<open>
  One call of an operation of the risk state at a given time, with the configured loan cap fixed, and runs of
  such calls with the clock never going back.
\<close>

inductive risk_step :: "u64 \<Rightarrow> nat \<Rightarrow> ExecutionService \<Rightarrow> ExecutionService \<Rightarrow> bool" for configured now where
  claim: "risk_step configured now es (snd (try_claim_route_assess now edges es))"
| batch_failure: "risk_step configured now es (quarantine_batch_query_failure now edges fp es)"
| route_hash: "risk_step configured now es (quarantine_route_hash h now es)"
| stale: "risk_step configured now es (quarantine_stale_route now edges es)"
| extend: "risk_step configured now es (quarantine_extend_until edges until es)"
| below_floor: "risk_step configured now es (snd (quarantine_probe_below_dispatch_floor now edges es))"
| direct_token: "risk_step configured now es (quarantine_direct_token_zero_realized now token es)"
| prepare_skip: "risk_step configured now es (record_prepare_skip fp es)"
| log_near_miss: "risk_step configured now es (snd (should_log_near_miss now es))"
| log_dispatch: "risk_step configured now es (snd (should_log_dispatch fp profit es))"
| log_skip: "risk_step configured now es (snd (should_log_prepare_skip fp es))"
| failed: "risk_step configured now es (quarantine_route now edges fp kind es)"
| failed_soft: "risk_step configured now es (quarantine_route_soft now edges es)"
| succeeded: "risk_step configured now es (clear_fail_count edges fp es)"
| dry_run_pass: "risk_step configured now es (record_route_dry_run_pass edges fp es)"
| underwater: "risk_step configured now es (snd (quarantine_chronic_gas_underwater now edges cover available es))"
| stop_all: "risk_step configured now es (quarantine_global duration now es)"
| promote: "risk_step configured now es (snd (promote_adaptive_flash_loan_cap edges fp configured es))"
| demote: "risk_step configured now es (snd (demote_adaptive_flash_loan_cap edges fp configured es))"
| snapshot: "risk_step configured now es (snd (pnl_snapshot today es))"
| realized: "risk_step configured now es (record_realized now today profit gas es)"
| gas_loss: "risk_step configured now es (record_gas_cost_loss now today gas es)"

inductive risk_run :: "u64 \<Rightarrow> nat \<Rightarrow> ExecutionService \<Rightarrow> nat \<Rightarrow> ExecutionService \<Rightarrow> bool"
  for configured start es where
  start: "risk_run configured start es start es"
| call: "risk_run configured start es now es1 \<Longrightarrow> risk_step configured now es1 es2 \<Longrightarrow>
    risk_run configured start es now es2"
| wait: "risk_run configured start es now es1 \<Longrightarrow> now \<le> later \<Longrightarrow> risk_run configured start es later es1"

lemma risk_run_forward: "risk_run configured start es now es' \<Longrightarrow> start \<le> now"
  by (induction rule: risk_run.induct) auto

text \<open>The operations that do not claim routes, grouped by the fields they leave alone.\<close>

lemmas risk_op_defs = quarantine_batch_query_failure_def quarantine_insert_def quarantine_route_hash_def
  quarantine_stale_route_def quarantine_extend_until_def quarantine_probe_below_dispatch_floor_def
  quarantine_direct_token_zero_realized_def record_prepare_skip_def should_log_near_miss_def
  should_log_dispatch_def should_log_prepare_skip_def quarantine_route_def quarantine_route_soft_def
  clear_fail_count_def record_route_dry_run_pass_def record_route_success_def record_route_failure_def
  write_route_event_def update_stats_def quarantine_chronic_gas_underwater_def underwater_strike_def
  quarantine_global_def promote_adaptive_flash_loan_cap_def demote_adaptive_flash_loan_cap_def
  set_adaptive_cap_def pnl_snapshot_def record_realized_def record_gas_cost_loss_def
  enforce_daily_loss_limit_with_daily_def

section \<open>Claims\<close>

lemma fold_map_update: "fold (\<lambda>r m. m(r \<mapsto> v)) rs m = (\<lambda>r. if r \<in> set rs then Some v else m r)"
  by (induction rs arbitrary: m) (auto simp: fun_eq_iff)

lemma for_each_edge_rotation_update:
  "for_each_edge_rotation edges (\<lambda>r m. m(r \<mapsto> v)) m =
     (\<lambda>r. if r \<in> set (edge_rotations edges) then Some v else m r)"
  by (simp add: for_each_edge_rotation_def fold_map_update)

lemma edge_rotations_closed: "rotate k edges \<in> set (edge_rotations edges)" if "edges \<noteq> []"
proof -
  have "rotate k edges = rotate (k mod length edges) edges"
    by (rule rotate_conv_mod)
  moreover have "k mod length edges < length edges"
    using that by simp
  ultimately show ?thesis
    unfolding edge_rotations_def by auto
qed

text \<open>Every rotation of a route has the same rotations.\<close>

lemma edge_rotations_of_rotation: "r \<in> set (edge_rotations edges) \<Longrightarrow> edges \<in> set (edge_rotations r)"
proof -
  assume "r \<in> set (edge_rotations edges)"
  then obtain i where i: "i < length edges" "r = rotate i edges"
    by (auto simp: edge_rotations_def)
  then have "rotate (length edges - i) r = edges"
    by (simp add: rotate_rotate)
  moreover have "r \<noteq> []"
    using i by auto
  ultimately show ?thesis
    using edge_rotations_closed [of r "length edges - i"] by simp
qed

lemma active_at_Some [simp]: "active_at now (Some expiry) \<longleftrightarrow> now < expiry"
  by (simp add: active_at_def)

lemma claim_step:
  assumes "risk_step configured now es es'" "es_assess_inflight es r = Some until" "now < until"
  shows "es_assess_inflight es' r = Some until"
  using assms(1)
proof cases
  case (claim edges)
  show ?thesis
    using assms(2,3) claim
    by (auto simp: try_claim_route_assess_def Let_def for_each_edge_rotation_update any_edge_rotation_def
        list_ex_iff retain_active_def)
qed (use assms(2) in \<open>auto simp: risk_op_defs Let_def split: option.splits prod.splits\<close>)

lemma claim_run:
  assumes "risk_run configured start es now es'" "es_assess_inflight es r = Some until" "now < until"
  shows "es_assess_inflight es' r = Some until"
  using assms
proof (induction rule: risk_run.induct)
  case (call now es1 es2)
  then show ?case
    using claim_step by blast
qed auto

lemma claim_granted:
  assumes "try_claim_route_assess now edges es = (True, es')"
  shows "edges \<noteq> []" and "r \<in> set (edge_rotations edges) \<Longrightarrow> es_assess_inflight es' r = Some (now + ROUTE_ASSESS_CLAIM_TTL)"
  using assms by (auto simp: try_claim_route_assess_def Let_def for_each_edge_rotation_update split: if_splits)

lemma claim_refused:
  "r \<in> set (edge_rotations edges) \<Longrightarrow> active_at now (es_assess_inflight es r) \<Longrightarrow>
     try_claim_route_assess now edges es = (False, es)"
  by (auto simp: try_claim_route_assess_def any_edge_rotation_def list_ex_iff)

text \<open>
  Property C18. A route is assessed by one task at a time: once a claim of a cycle was granted, every claim of
  the same cycle, from whichever of its edges it starts, is refused for three seconds, whatever calls of the
  risk state come in between (other claims, which also sweep expired entries, quarantines, and results).
\<close>

theorem claim_exclusive:
  assumes "try_claim_route_assess start edges es = (True, es1)"
    and "risk_run configured start es1 now es2"
    and "now < start + ROUTE_ASSESS_CLAIM_TTL"
  shows "try_claim_route_assess now (rotate k edges) es2 = (False, es2)"
proof -
  have edges: "edges \<noteq> []"
    and held: "es_assess_inflight es1 edges = Some (start + ROUTE_ASSESS_CLAIM_TTL)"
    using claim_granted [OF assms(1)] edge_rotations_closed [of edges 0] by auto
  have "es_assess_inflight es2 edges = Some (start + ROUTE_ASSESS_CLAIM_TTL)"
    using claim_run [OF assms(2) held assms(3)] .
  moreover have "edges \<in> set (edge_rotations (rotate k edges))"
    using edge_rotations_of_rotation edge_rotations_closed [OF edges] by blast
  ultimately show ?thesis
    using assms(3) claim_refused by simp
qed

definition sample_hops :: "Edge list" where
  "sample_hops =
     [\<lparr>e_pool_index = 0, e_token_in = 0, e_token_out = 1, e_token_in_idx = 0, e_token_out_idx = 1,
       e_protocol = UniswapV2, e_fee_bps = 30, e_zero_for_one = True\<rparr>,
      \<lparr>e_pool_index = 1, e_token_in = 1, e_token_out = 0, e_token_in_idx = 1, e_token_out_idx = 0,
       e_protocol = UniswapV2, e_fee_bps = 30, e_zero_for_one = False\<rparr>]"

lemma sample_claim:
  "fst (try_claim_route_assess 1000 sample_hops (new_execution_service 0 None)) = True"
  by (simp add: try_claim_route_assess_def sample_hops_def cycle_edges_quarantined_def any_edge_rotation_def
      edge_rotations_def new_execution_service_def active_at_def Let_def)

theorem claim_exclusive_witness:
  "fst (try_claim_route_assess 1000 (rotate 1 sample_hops)
     (quarantine_route_soft 1000 sample_hops
       (snd (try_claim_route_assess 1000 sample_hops (new_execution_service 0 None))))) = False"
proof -
  let ?es1 = "snd (try_claim_route_assess 1000 sample_hops (new_execution_service 0 None))"
  have "try_claim_route_assess 1000 sample_hops (new_execution_service 0 None) = (True, ?es1)"
    using sample_claim by (metis prod.collapse)
  moreover have "risk_run 0 1000 ?es1 1000 (quarantine_route_soft 1000 sample_hops ?es1)"
    by (rule risk_run.call [OF risk_run.start risk_step.failed_soft])
  moreover have "(1000::nat) < 1000 + ROUTE_ASSESS_CLAIM_TTL"
    by (simp add: ROUTE_ASSESS_CLAIM_TTL_def)
  ultimately show ?thesis
    using claim_exclusive [of 1000 sample_hops _ ?es1 0 1000 _ 1] by fastforce
qed

section \<open>The loan cap of a route\<close>

lemma adaptive_initial_exact:
  "unat (adaptive_flash_cap_initial c) = min (unat c + 3) (2 ^ 64 - 1) div 4"
  by (simp add: adaptive_flash_cap_initial_def ADAPTIVE_FLASH_CAP_START_DIVISOR_def unat_div_word
      unat_saturating_add)

lemma adaptive_initial_le: "adaptive_flash_cap_initial c \<le> c"
  unfolding word_le_nat_alt adaptive_initial_exact by linarith

definition caps_ok :: "u64 \<Rightarrow> ExecutionService \<Rightarrow> bool" where
  "caps_ok c es \<longleftrightarrow>
     (\<forall>edges st cap. es_route_stats es edges = Some st \<longrightarrow> st_adaptive_flash_loan_usd st = Some cap \<longrightarrow>
        adaptive_flash_cap_initial c \<le> cap \<and> cap \<le> c)"

lemma caps_ok_same_stats: "caps_ok c es \<Longrightarrow> es_route_stats es' = es_route_stats es \<Longrightarrow> caps_ok c es'"
  by (simp add: caps_ok_def)

lemma caps_ok_update:
  assumes "caps_ok c es"
    and "\<And>st. st_adaptive_flash_loan_usd (f st) = st_adaptive_flash_loan_usd st \<or>
           (\<exists>cap. st_adaptive_flash_loan_usd (f st) = Some cap \<and> adaptive_flash_cap_initial c \<le> cap \<and> cap \<le> c)"
  shows "caps_ok c (write_route_event edges fp ev (update_stats edges f es))"
  unfolding caps_ok_def
proof (intro allI impI)
  fix route st cap
  assume st: "es_route_stats (write_route_event edges fp ev (update_stats edges f es)) route = Some st"
    and cap: "st_adaptive_flash_loan_usd st = Some cap"
  show "adaptive_flash_cap_initial c \<le> cap \<and> cap \<le> c"
  proof (cases "route = edges")
    case True
    define old where "old = or_default (es_route_stats es edges) default_route_stats"
    have "st = f old"
      using st True by (simp add: write_route_event_def update_stats_def old_def)
    moreover have "st_adaptive_flash_loan_usd old = Some cap \<Longrightarrow> adaptive_flash_cap_initial c \<le> cap \<and> cap \<le> c"
      using assms(1) by (auto simp: caps_ok_def old_def default_route_stats_def or_default_def split: option.splits)
    ultimately show ?thesis
      using assms(2) [of old] cap by auto
  next
    case False
    then show ?thesis
      using st cap assms(1) by (simp add: write_route_event_def update_stats_def caps_ok_def)
  qed
qed

text \<open>The cap a route has now, as promotions and demotions read it.\<close>

lemma current_cap_range:
  assumes "caps_ok c es"
  shows "adaptive_flash_cap_initial c \<le> adaptive_flash_loan_usd es edges c"
    and "adaptive_flash_loan_usd es edges c \<le> c"
  using assms adaptive_initial_le [of c]
  by (auto simp: adaptive_flash_loan_usd_def adaptive_flash_loan_usd_from_stats_def caps_ok_def or_default_def
      split: option.splits bind_splits)

lemma promote_alt:
  "promote_adaptive_flash_loan_cap edges fp c es =
     (let current = adaptive_flash_loan_usd es edges c; next = min (saturating_mul current 2) c
      in if next = current then (None, es) else (Some (current, next), set_adaptive_cap edges fp next es))"
  by (simp add: promote_adaptive_flash_loan_cap_def adaptive_flash_loan_usd_def
      adaptive_flash_loan_usd_from_stats_def Let_def)

lemma demote_alt:
  "demote_adaptive_flash_loan_cap edges fp c es =
     (let current = adaptive_flash_loan_usd es edges c;
          next = min (max (current div 2) (adaptive_flash_cap_initial c)) c
      in if next \<ge> current then (None, es) else (Some (current, next), set_adaptive_cap edges fp next es))"
  by (simp add: demote_adaptive_flash_loan_cap_def adaptive_flash_loan_usd_def
      adaptive_flash_loan_usd_from_stats_def Let_def)

lemma caps_ok_set:
  "caps_ok c es \<Longrightarrow> adaptive_flash_cap_initial c \<le> cap \<Longrightarrow> cap \<le> c \<Longrightarrow> caps_ok c (set_adaptive_cap edges fp cap es)"
  unfolding set_adaptive_cap_def by (rule caps_ok_update) auto

lemma double_at_least: "a \<le> saturating_mul a 2" for a :: u64
  unfolding word_le_nat_alt unat_saturating_mul using unsigned_less [of a, where ?'a = nat] by simp

lemma caps_ok_promote: "caps_ok c es \<Longrightarrow> caps_ok c (snd (promote_adaptive_flash_loan_cap edges fp c es))"
  using caps_ok_set [of c es] current_cap_range [of c es edges] double_at_least [of "adaptive_flash_loan_usd es edges c"]
  by (auto simp: promote_alt Let_def min_def intro: order_trans)

lemma caps_ok_demote: "caps_ok c es \<Longrightarrow> caps_ok c (snd (demote_adaptive_flash_loan_cap edges fp c es))"
  using caps_ok_set [of c es] adaptive_initial_le [of c] by (auto simp: demote_alt Let_def min_def max_def)

lemma caps_ok_step:
  assumes "risk_step c now es es'" "caps_ok c es"
  shows "caps_ok c es'"
  using assms(1)
proof cases
  case (promote edges fp)
  then show ?thesis using caps_ok_promote [OF assms(2)] by simp
next
  case (demote edges fp)
  then show ?thesis using caps_ok_demote [OF assms(2)] by simp
next
  case (failed edges fp kind)
  have "caps_ok c (record_route_failure edges fp kind es)"
    unfolding record_route_failure_def by (rule caps_ok_update [OF assms(2)]) (cases kind, auto)
  then show ?thesis
    by (rule caps_ok_same_stats) (simp add: failed quarantine_route_def quarantine_insert_def Let_def)
next
  case (succeeded edges fp)
  have "caps_ok c (es\<lparr>es_fail_counts := (es_fail_counts es)(edges := None)\<rparr>)"
    using assms(2) by (rule caps_ok_same_stats) simp
  then show ?thesis
    unfolding succeeded clear_fail_count_def record_route_success_def by (rule caps_ok_update) simp
next
  case (dry_run_pass edges fp)
  show ?thesis
    unfolding dry_run_pass record_route_dry_run_pass_def by (rule caps_ok_update [OF assms(2)]) simp
qed (rule caps_ok_same_stats [OF assms(2)];
     auto simp: risk_op_defs try_claim_route_assess_def Let_def split: option.splits prod.splits)+

lemma caps_ok_run: "risk_run c start es now es' \<Longrightarrow> caps_ok c es \<Longrightarrow> caps_ok c es'"
  by (induction rule: risk_run.induct) (auto intro: caps_ok_step)

lemma caps_ok_new: "caps_ok c (new_execution_service now max_daily_loss)"
  by (simp add: caps_ok_def new_execution_service_def)

lemma promote_doubles:
  "adaptive_flash_loan_usd (snd (promote_adaptive_flash_loan_cap edges fp c es)) edges c =
     min (saturating_mul (adaptive_flash_loan_usd es edges c) 2) c"
proof (cases "min (saturating_mul (adaptive_flash_loan_usd es edges c) 2) c = adaptive_flash_loan_usd es edges c")
  case True
  then show ?thesis
    by (simp add: promote_alt Let_def)
next
  case False
  then show ?thesis
    by (simp add: promote_alt Let_def set_adaptive_cap_def write_route_event_def update_stats_def
        adaptive_flash_loan_usd_def adaptive_flash_loan_usd_from_stats_def or_default_def)
qed

lemma double_twice:
  assumes "unat c + 3 < 2 ^ 64" "adaptive_flash_cap_initial c \<le> a"
  shows "min (saturating_mul (min (saturating_mul a 2) c) 2) c = c"
proof -
  have "unat c \<le> 4 * unat a"
    using assms adaptive_initial_exact [of c] unfolding word_le_nat_alt by linarith
  moreover have "unat c < 2 ^ 64"
    using assms(1) by linarith
  ultimately have "c \<le> saturating_mul (min (saturating_mul a 2) c) 2"
    by (simp add: word_le_nat_alt unat_saturating_mul min_def split: if_splits)
  then show ?thesis
    by (simp add: min_def)
qed

text \<open>
  Property C28. The loan cap of a route cannot get stuck below the configured one: after any run of the service,
  with any number of demotions in it, two successful trades in a row bring the cap of the route back to the
  configured maximum. (A configured cap within three dollars of the largest \<open>u64\<close> is left out: there the
  rounding up saturates, and the second doubling ends one to three dollars short.)
\<close>

theorem two_promotions_restore_cap:
  assumes "unat configured + 3 < 2 ^ 64"
    and "risk_run configured start (new_execution_service start max_daily_loss) now es"
  shows "adaptive_flash_loan_usd
           (snd (promote_adaptive_flash_loan_cap edges fp configured
             (snd (promote_adaptive_flash_loan_cap edges fp configured es)))) edges configured = configured"
  unfolding promote_doubles
  by (rule double_twice [OF assms(1) current_cap_range(1) [OF caps_ok_run [OF assms(2) caps_ok_new]]])

theorem two_promotions_restore_cap_witness:
  "adaptive_flash_loan_usd
     (snd (promote_adaptive_flash_loan_cap sample_hops 7 50000
       (snd (promote_adaptive_flash_loan_cap sample_hops 7 50000
         (snd (demote_adaptive_flash_loan_cap sample_hops 7 50000
           (snd (promote_adaptive_flash_loan_cap sample_hops 7 50000 (new_execution_service 0 None)))))))))
     sample_hops 50000 = 50000"
  by (rule two_promotions_restore_cap [OF _ risk_run.call [OF risk_run.call [OF risk_run.start risk_step.promote]
        risk_step.demote]]) simp

section \<open>The log of route events\<close>

text \<open>What one line of the log says about the statistics of its route.\<close>

fun event_effect :: "RouteStatsEvent \<Rightarrow> RouteStats \<Rightarrow> RouteStats" where
  "event_effect Success = (\<lambda>st. st\<lparr>st_successes := st_successes st + 1\<rparr>)"
| "event_effect DryRunPass = (\<lambda>st. st\<lparr>st_dry_run_successes := st_dry_run_successes st + 1\<rparr>)"
| "event_effect (Failure kind) = count_failure kind"
| "event_effect (AdaptiveFlashCap cap) = (\<lambda>st. st\<lparr>st_adaptive_flash_loan_usd := Some cap\<rparr>)"

definition read_log :: "(Edge list \<times> u64 \<times> RouteStatsEvent) list \<Rightarrow> Edge list \<Rightarrow> RouteStats option" where
  "read_log events =
     fold (\<lambda>(edges, fp, ev) m. m(edges \<mapsto> event_effect ev (or_default (m edges) default_route_stats)))
       events (\<lambda>_. None)"

definition log_complete :: "ExecutionService \<Rightarrow> bool" where
  "log_complete es \<longleftrightarrow> es_route_stats es = read_log (es_events es)"

lemma log_complete_write:
  "log_complete es \<Longrightarrow> f = event_effect ev \<Longrightarrow> log_complete (write_route_event edges fp ev (update_stats edges f es))"
  by (simp add: log_complete_def write_route_event_def update_stats_def read_log_def)

lemma log_complete_same:
  "log_complete es \<Longrightarrow> es_route_stats es' = es_route_stats es \<Longrightarrow> es_events es' = es_events es \<Longrightarrow> log_complete es'"
  by (simp add: log_complete_def)

lemma log_complete_set: "log_complete es \<Longrightarrow> log_complete (set_adaptive_cap edges fp cap es)"
  unfolding set_adaptive_cap_def by (rule log_complete_write) simp_all

lemma log_complete_step:
  assumes "risk_step c now es es'" "log_complete es"
  shows "log_complete es'"
  using assms(1)
proof cases
  case (promote edges fp)
  then show ?thesis using assms(2) log_complete_set by (simp add: promote_alt Let_def)
next
  case (demote edges fp)
  then show ?thesis using assms(2) log_complete_set by (simp add: demote_alt Let_def)
next
  case (failed edges fp kind)
  have "log_complete (record_route_failure edges fp kind es)"
    unfolding record_route_failure_def by (rule log_complete_write [OF assms(2)]) simp
  then show ?thesis
    by (rule log_complete_same) (simp_all add: failed quarantine_route_def quarantine_insert_def Let_def)
next
  case (succeeded edges fp)
  have "log_complete (es\<lparr>es_fail_counts := (es_fail_counts es)(edges := None)\<rparr>)"
    using assms(2) by (rule log_complete_same) simp_all
  then show ?thesis
    unfolding succeeded clear_fail_count_def record_route_success_def by (rule log_complete_write) simp
next
  case (dry_run_pass edges fp)
  show ?thesis
    unfolding dry_run_pass record_route_dry_run_pass_def by (rule log_complete_write [OF assms(2)]) simp
qed (rule log_complete_same [OF assms(2)];
     auto simp: risk_op_defs try_claim_route_assess_def Let_def split: option.splits prod.splits)+



section \<open>The daily loss limit\<close>

text \<open>A settled trade: when it settled, what it paid out and what its gas cost, in wei.\<close>

definition settle :: "u32 \<Rightarrow> nat \<times> u256 \<times> u256 \<Rightarrow> ExecutionService \<Rightarrow> ExecutionService" where
  "settle today trade es = (case trade of (now, profit, gas) \<Rightarrow> record_realized now today profit gas es)"

definition net_of :: "nat \<times> u256 \<times> u256 \<Rightarrow> int" where
  "net_of trade = (case trade of (now, profit, gas) \<Rightarrow> uint profit - uint gas)"

lemma clamped_i128_exact: "uint v < 2 ^ 127 \<Longrightarrow> clamped_i128 v = uint v"
  by (simp add: clamped_i128_def min_def word_le_def)

lemma uint_saturating_sub: "b \<le> a \<Longrightarrow> uint (saturating_sub a b) = uint a - uint b" for a b :: "'a::len word"
  by (auto simp: saturating_sub_def uint_minus_simple_alt [THEN iffD1] word_le_def)

lemma saturate_128_inside: "\<bar>x\<bar> < 2 ^ 127 \<Longrightarrow> saturate_signed 128 x = x"
  by (simp add: saturate_signed_def)

lemma settle_daily:
  assumes "\<bar>net_of trade\<bar> < 2 ^ 127" "\<bar>pnl_daily (maybe_roll_daily today (es_pnl es)) + net_of trade\<bar> < 2 ^ 127"
  shows "pnl_daily (es_pnl (settle today trade es)) = pnl_daily (maybe_roll_daily today (es_pnl es)) + net_of trade"
    and "pnl_daily_utc_day (es_pnl (settle today trade es)) = today"
proof -
  obtain now profit gas where t: "trade = (now, profit, gas)"
    by (cases trade)
  have day: "pnl_daily_utc_day (maybe_roll_daily today p) = today" for p
    by (simp add: maybe_roll_daily_def)
  have same: "es_pnl (enforce_daily_loss_limit_with_daily now d e) = es_pnl e" for d e
    by (simp add: enforce_daily_loss_limit_with_daily_def quarantine_global_def split: option.splits)
  have "pnl_daily (es_pnl (settle today trade es)) = pnl_daily (maybe_roll_daily today (es_pnl es)) + net_of trade \<and>
        pnl_daily_utc_day (es_pnl (settle today trade es)) = today"
  proof (cases "gas \<le> profit")
    case True
    then have "clamped_i128 (saturating_sub profit gas) = net_of trade"
      using assms(1) by (simp add: t net_of_def clamped_i128_exact uint_saturating_sub)
    moreover have "net_of trade \<ge> 0"
      using True by (simp add: t net_of_def word_le_def)
    ultimately show ?thesis
      using True assms(2)
      by (auto simp: t settle_def record_realized_def same Let_def record_profit_def saturate_128_inside day)
  next
    case False
    then have "clamped_i128 (saturating_sub gas profit) = - net_of trade"
      using assms(1) by (simp add: t net_of_def clamped_i128_exact uint_saturating_sub)
    then show ?thesis
      using False assms(2)
      by (auto simp: t settle_def record_realized_def same Let_def record_loss_def saturate_128_inside day)
  qed
  then show "pnl_daily (es_pnl (settle today trade es)) = pnl_daily (maybe_roll_daily today (es_pnl es)) + net_of trade"
    and "pnl_daily_utc_day (es_pnl (settle today trade es)) = today"
    by auto
qed

lemma settle_limit [simp]: "es_max_daily_loss (settle today trade es) = es_max_daily_loss es"
  by (auto simp: settle_def record_realized_def enforce_daily_loss_limit_with_daily_def quarantine_global_def
      Let_def split: prod.splits option.splits)

lemma settle_all_daily:
  assumes "(\<Sum>t\<leftarrow>trades. \<bar>net_of t\<bar>) < 2 ^ 127" "pnl_daily (maybe_roll_daily today (es_pnl es)) = 0"
  shows "pnl_daily (maybe_roll_daily today (es_pnl (fold (settle today) trades es))) = (\<Sum>t\<leftarrow>trades. net_of t)"
  using assms(1)
proof (induction trades rule: rev_induct)
  case (snoc trade trades)
  let ?es = "fold (settle today) trades es"
  have "(\<Sum>t\<leftarrow>trades. \<bar>net_of t\<bar>) \<ge> 0"
    by (rule sum_list_nonneg) auto
  then have bounds: "\<bar>net_of trade\<bar> < 2 ^ 127" "(\<Sum>t\<leftarrow>trades. \<bar>net_of t\<bar>) < 2 ^ 127"
    using snoc.prems by simp_all
  have "\<bar>\<Sum>t\<leftarrow>trades. net_of t\<bar> \<le> (\<Sum>t\<leftarrow>trades. \<bar>net_of t\<bar>)"
    using sum_list_abs [of "map net_of trades"] by (simp add: comp_def)
  then have "\<bar>pnl_daily (maybe_roll_daily today (es_pnl ?es)) + net_of trade\<bar> < 2 ^ 127"
    using snoc.IH [OF bounds(2)] snoc.prems by simp
  note settled = settle_daily [OF bounds(1) this]
  then show ?case
    using snoc.IH [OF bounds(2)] by (simp add: maybe_roll_daily_def)
qed (simp add: assms(2))

lemma record_realized_global:
  "es_global_quarantine_until (record_realized now today profit gas es) =
     (let daily = pnl_daily (es_pnl (record_realized now today profit gas es))
      in if daily < 0 \<and> (\<exists>m. es_max_daily_loss es = Some m \<and> m \<le> of_int (- daily))
         then Some (now + secs 3600) else es_global_quarantine_until es)"
  by (auto simp: record_realized_def enforce_daily_loss_limit_with_daily_def quarantine_global_def Let_def
      split: option.splits)

lemma uint_of_int_small: "0 \<le> x \<Longrightarrow> x < 2 ^ 127 \<Longrightarrow> uint (of_int x :: u256) = x"
  by (simp add: uint_word_of_int_eq take_bit_int_eq_self)

text \<open>
  Property C19. The daily loss limit is exact: let the trades of a day settle in any order, the first of them on
  a service whose figures are of an earlier day (or zero), and let the last one settle at time \<open>now\<close>. If the
  day's trades lost in sum, and the sum of the losses less the gains reaches the limit, then all trading stops
  until an hour after \<open>now\<close>; otherwise this trade changes nothing of the stop. The one condition is that the
  amounts of the day stay below \<open>2 ^ 127\<close> wei, beyond which the code saturates.
\<close>

theorem daily_loss_limit_exact:
  assumes "pnl_daily (maybe_roll_daily today (es_pnl es)) = 0"
    and "es_max_daily_loss es = Some max_loss"
    and "(\<Sum>t\<leftarrow>trades @ [(now, profit, gas)]. \<bar>net_of t\<bar>) < 2 ^ 127"
  shows "es_global_quarantine_until (fold (settle today) (trades @ [(now, profit, gas)]) es) =
           (let day = (\<Sum>t\<leftarrow>trades @ [(now, profit, gas)]. net_of t)
            in if day < 0 \<and> uint max_loss \<le> - day then Some (now + secs 3600)
               else es_global_quarantine_until (fold (settle today) trades es))"
proof -
  let ?all = "trades @ [(now, profit, gas)]"
  let ?es = "fold (settle today) trades es"
  let ?day = "\<Sum>t\<leftarrow>?all. net_of t"
  have limit: "es_max_daily_loss ?es = Some max_loss"
    using assms(2) by (induction trades arbitrary: es) auto
  have "\<bar>?day\<bar> < 2 ^ 127"
    using sum_list_abs [of "map net_of ?all"] assms(3) by (simp add: comp_def)
  moreover have "pnl_daily (es_pnl (settle today (now, profit, gas) ?es)) = ?day"
  proof -
    have total: "pnl_daily (maybe_roll_daily today (es_pnl (settle today (now, profit, gas) ?es))) = ?day"
      using settle_all_daily [OF assms(3,1)] by simp
    have "pnl_daily_utc_day (es_pnl (settle today (now, profit, gas) ?es)) = today"
      by (auto simp: settle_def record_realized_def enforce_daily_loss_limit_with_daily_def quarantine_global_def
          record_profit_def record_loss_def maybe_roll_daily_def Let_def split: option.splits)
    with total show ?thesis
      by (simp add: maybe_roll_daily_def)
  qed
  ultimately obtain day where "day = ?day" "\<bar>day\<bar> < 2 ^ 127"
      "pnl_daily (es_pnl (record_realized now today profit gas ?es)) = day"
    by (simp add: settle_def)
  moreover have "m \<le> of_int (- day) \<longleftrightarrow> uint m \<le> - day" if "day < 0" for m :: u256
    using that \<open>\<bar>day\<bar> < 2 ^ 127\<close> uint_of_int_small [of "- day"] unfolding word_le_def by simp
  ultimately show ?thesis
    using limit record_realized_global [of now today profit gas ?es]
    by (auto simp: settle_def Let_def)
qed

theorem daily_loss_limit_exact_witness:
  "es_global_quarantine_until
     (fold (settle 20000) ([(10, 5, 900)] @ [(70, 0, 200)]) (new_execution_service 0 (Some 1000))) = Some 3600070"
  using daily_loss_limit_exact [of 20000 "new_execution_service 0 (Some 1000)" 1000 "[(10, 5, 900)]" 70 0 200]
  by (simp add: new_execution_service_def maybe_roll_daily_def net_of_def Let_def)

end
